(* ===== verification/NP_Prelude.thy ===== *)
theory NP_Prelude
  imports Main "HOL-Library.Word" "HOL-Library.State_Monad"
begin

text \<open>
  Shared vocabulary of the development: the machine integer types, the fact collections that
  carry the proofs, a few list lemmas for fixed-size tables and the state-monad rules that the
  stateful components (daemon, relay, client keys) are reasoned about with.

  Stateful code is written with the library's state monad: \<open>('s, 'a) state\<close> is a C++ member
  function that reads and writes the object \<open>'s\<close> and returns an \<open>'a\<close>; an early return is a
  branch of the monadic expression.
\<close>

section \<open>Machine integers\<close>

type_synonym u8 = "8 word"
type_synonym u16 = "16 word"
type_synonym u32 = "32 word"

text \<open>\<open>int64_t\<close> milliseconds since boot are an unbounded \<open>int\<close>: the counter starts at zero and
  would need 292 million years to leave the range. \<open>INT64_MIN\<close> is used by the code as a sentinel.\<close>

type_synonym ms64 = int

definition INT64_MIN :: int where "INT64_MIN = - (2 ^ 63)"
definition UINT16_MAX :: int where "UINT16_MAX = 65535"

section \<open>Fact collections\<close>

named_theorems cstr_simps \<open>evaluation of the C string functions\<close>
named_theorems io_rule \<open>structural rules for relations kept by monadic code\<close>
named_theorems io_intro \<open>one operation keeps one relation\<close>

section \<open>Fixed-size tables\<close>

text \<open>First index of a table whose entry satisfies a test (a \<open>for\<close> loop with \<open>break\<close>).\<close>

fun find_index_from :: "nat \<Rightarrow> ('a \<Rightarrow> bool) \<Rightarrow> 'a list \<Rightarrow> nat option" where
  "find_index_from k p [] = None"
| "find_index_from k p (x # xs) = (if p x then Some k else find_index_from (Suc k) p xs)"

definition find_index :: "('a \<Rightarrow> bool) \<Rightarrow> 'a list \<Rightarrow> nat option" where
  "find_index p xs = find_index_from 0 p xs"

lemma find_index_from_Some:
  "find_index_from k p xs = Some i \<Longrightarrow>
     k \<le> i \<and> i < k + length xs \<and> p (xs ! (i - k)) \<and> (\<forall>j < i - k. \<not> p (xs ! j))"
proof (induction k p xs rule: find_index_from.induct)
  case (2 k p x xs)
  show ?case
  proof (cases "p x")
    case True
    with 2 show ?thesis by auto
  next
    case False
    with 2 have IH: "Suc k \<le> i \<and> i < Suc k + length xs \<and> p (xs ! (i - Suc k)) \<and>
        (\<forall>j < i - Suc k. \<not> p (xs ! j))" by simp
    then have "i - k = Suc (i - Suc k)" by auto
    with IH False show ?thesis by (auto simp: nth_Cons split: nat.splits)
  qed
qed simp

lemma find_index_from_None: "find_index_from k p xs = None \<longleftrightarrow> (\<forall>x \<in> set xs. \<not> p x)"
  by (induction k p xs rule: find_index_from.induct) auto

lemma find_index_Some:
  assumes "find_index p xs = Some i"
  shows "i < length xs" and "p (xs ! i)" and "\<And>j. j < i \<Longrightarrow> \<not> p (xs ! j)"
  using find_index_from_Some [of 0 p xs i] assms by (auto simp: find_index_def)

lemma find_index_None: "find_index p xs = None \<longleftrightarrow> (\<forall>x \<in> set xs. \<not> p x)"
  by (simp add: find_index_def find_index_from_None)

lemma find_index_ex: "x \<in> set xs \<Longrightarrow> p x \<Longrightarrow> \<exists>i. find_index p xs = Some i"
  by (cases "find_index p xs") (auto simp: find_index_None)

lemma find_index_unique:
  assumes "i < length xs" "p (xs ! i)" "\<And>j. j < length xs \<Longrightarrow> p (xs ! j) \<Longrightarrow> j = i"
  shows "find_index p xs = Some i"
proof -
  have "xs ! i \<in> set xs" using assms(1) by simp
  then obtain k where k: "find_index p xs = Some k"
    using find_index_ex assms(2) by metis
  have "k = i" by (rule assms(3) [OF find_index_Some(1,2) [OF k]])
  with k show ?thesis by simp
qed

lemma find_index_from_append:
  "\<forall>x \<in> set xs. \<not> p x \<Longrightarrow> p y \<Longrightarrow> find_index_from k p (xs @ y # ys) = Some (k + length xs)"
  by (induction xs arbitrary: k) auto

lemma find_index_append:
  "\<forall>x \<in> set xs. \<not> p x \<Longrightarrow> p y \<Longrightarrow> find_index p (xs @ y # ys) = Some (length xs)"
  by (simp add: find_index_def find_index_from_append)

text \<open>Index of the first entry with the smallest key: the code's "start at 0, replace when
  strictly smaller" loop.\<close>

fun argmin_from :: "('a \<Rightarrow> int) \<Rightarrow> nat \<Rightarrow> int \<Rightarrow> nat \<Rightarrow> 'a list \<Rightarrow> nat" where
  "argmin_from f best bv k [] = best"
| "argmin_from f best bv k (x # xs) =
     (if f x < bv then argmin_from f k (f x) (Suc k) xs else argmin_from f best bv (Suc k) xs)"

definition argmin :: "('a \<Rightarrow> int) \<Rightarrow> 'a list \<Rightarrow> nat" where
  "argmin f xs = (case xs of [] \<Rightarrow> 0 | x # ys \<Rightarrow> argmin_from f 0 (f x) 1 ys)"

lemma argmin_from_spec:
  assumes "pre \<noteq> []" "best < length pre" "bv = f (pre ! best)"
    and "\<forall>x \<in> set pre. bv \<le> f x" "k = length pre"
  shows "argmin_from f best bv k xs < length (pre @ xs) \<and>
     (\<forall>x \<in> set (pre @ xs). f ((pre @ xs) ! argmin_from f best bv k xs) \<le> f x)"
  using assms
proof (induction xs arbitrary: pre best bv k)
  case Nil
  then show ?case by simp
next
  case (Cons x xs)
  show ?case
  proof (cases "f x < bv")
    case True
    have "argmin_from f k (f x) (Suc k) xs < length ((pre @ [x]) @ xs) \<and>
       (\<forall>y \<in> set ((pre @ [x]) @ xs). f (((pre @ [x]) @ xs) ! argmin_from f k (f x) (Suc k) xs) \<le> f y)"
    proof (rule Cons.IH)
      show "\<forall>y \<in> set (pre @ [x]). f x \<le> f y"
        using Cons.prems(4) True by (auto dest: order.strict_trans2)
    qed (use Cons.prems in simp_all)
    with True show ?thesis by simp
  next
    case False
    have "argmin_from f best bv (Suc k) xs < length ((pre @ [x]) @ xs) \<and>
       (\<forall>y \<in> set ((pre @ [x]) @ xs). f (((pre @ [x]) @ xs) ! argmin_from f best bv (Suc k) xs) \<le> f y)"
    proof (rule Cons.IH)
      show "\<forall>y \<in> set (pre @ [x]). bv \<le> f y"
        using Cons.prems(4) False by auto
    qed (use Cons.prems in \<open>simp_all add: nth_append\<close>)
    with False show ?thesis by simp
  qed
qed

lemma argmin_spec:
  assumes "xs \<noteq> []"
  shows "argmin f xs < length xs" and "x \<in> set xs \<Longrightarrow> f (xs ! argmin f xs) \<le> f x"
proof -
  obtain a as where [simp]: "xs = a # as" using assms by (cases xs) auto
  have "argmin_from f 0 (f a) 1 as < length ([a] @ as) \<and>
     (\<forall>y \<in> set ([a] @ as). f (([a] @ as) ! argmin_from f 0 (f a) 1 as) \<le> f y)"
    by (rule argmin_from_spec) auto
  then show "argmin f xs < length xs" and "x \<in> set xs \<Longrightarrow> f (xs ! argmin f xs) \<le> f x"
    by (auto simp: argmin_def)
qed

section \<open>Monadic code\<close>

abbreviation ret :: "'a \<Rightarrow> ('s, 'a) state" where
  "ret \<equiv> State_Monad.return"

abbreviation get_st :: "('s, 's) state" where
  "get_st \<equiv> State_Monad.get"

definition modify_st :: "('s \<Rightarrow> 's) \<Rightarrow> ('s, unit) state" where
  "modify_st f = State (\<lambda>s. ((), f s))"

definition gets :: "('s \<Rightarrow> 'a) \<Rightarrow> ('s, 'a) state" where
  "gets f = State (\<lambda>s. (f s, s))"

definition when_st :: "bool \<Rightarrow> ('s, unit) state \<Rightarrow> ('s, unit) state" where
  "when_st b m = (if b then m else ret ())"

text \<open>A C \<open>for\<close> loop over a list of indices or items.\<close>

fun for_each :: "'a list \<Rightarrow> ('a \<Rightarrow> ('s, unit) state) \<Rightarrow> ('s, unit) state" where
  "for_each [] f = ret ()"
| "for_each (x # xs) f = do { f x; for_each xs f }"

lemma for_each_append: "for_each (xs @ ys) f = do { for_each xs f; for_each ys f }"
  by (induction xs) (simp_all add: State_Monad.bind_assoc)

lemma run_modify [simp]: "run_state (modify_st f) s = ((), f s)"
  by (simp add: modify_st_def)

lemma run_gets [simp]: "run_state (gets f) s = (f s, s)"
  by (simp add: gets_def)

lemma run_when [simp]: "run_state (when_st b m) s = (if b then run_state m s else ((), s))"
  by (simp add: when_st_def)

text \<open>The state after an operation, and its result.\<close>

definition post :: "('s, 'a) state \<Rightarrow> 's \<Rightarrow> 's" where
  "post m s = snd (run_state m s)"

definition res :: "('s, 'a) state \<Rightarrow> 's \<Rightarrow> 'a" where
  "res m s = fst (run_state m s)"

lemma run_state_post: "run_state m s = (res m s, post m s)"
  by (simp add: res_def post_def)

lemma post_simps [simp]:
  "post (ret x) s = s"
  "post (m \<bind> f) s = post (f (res m s)) (post m s)"
  "post (modify_st g) s = g s"
  "post (gets h) s = s"
  "post get_st s = s"
  "post (State_Monad.set t) s = t"
  "post (when_st b n) s = (if b then post n s else s)"
  by (simp_all add: post_def res_def case_prod_beta)

lemma res_simps [simp]:
  "res (ret x) s = x"
  "res (m \<bind> f) s = res (f (res m s)) (post m s)"
  "res (gets h) s = h s"
  "res get_st s = s"
  by (simp_all add: post_def res_def case_prod_beta)

subsection \<open>Relations between the state before and the state after\<close>

text \<open>
  \<open>state_io_rel P m\<close> (of the library) says that \<open>m\<close> relates every state to its successor by
  \<open>P\<close>. For a reflexive and transitive \<open>P\<close> it composes; the rules below are what
  \<open>auto intro: io_rule\<close> needs to push such a relation through a handler.
\<close>

definition preorder_rel :: "('s \<Rightarrow> 's \<Rightarrow> bool) \<Rightarrow> bool" where
  "preorder_rel P \<longleftrightarrow> (\<forall>s. P s s) \<and> (\<forall>s t u. P s t \<longrightarrow> P t u \<longrightarrow> P s u)"

lemma preorder_relI:
  "(\<And>s. P s s) \<Longrightarrow> (\<And>s t u. P s t \<Longrightarrow> P t u \<Longrightarrow> P s u) \<Longrightarrow> preorder_rel P"
  by (auto simp: preorder_rel_def)

lemma state_io_rel_post: "state_io_rel P m \<longleftrightarrow> (\<forall>s. P s (post m s))"
  by (simp add: state_io_rel_def post_def)

lemma io_ret [io_rule]: "preorder_rel P \<Longrightarrow> state_io_rel P (ret x)"
  by (simp add: state_io_rel_post preorder_rel_def)

lemma io_bind [io_rule]:
  "preorder_rel P \<Longrightarrow> state_io_rel P m \<Longrightarrow> (\<And>x. state_io_rel P (f x)) \<Longrightarrow> state_io_rel P (m \<bind> f)"
  by (simp add: state_io_rel_post preorder_rel_def) blast

lemma io_gets [io_rule]: "preorder_rel P \<Longrightarrow> state_io_rel P (gets f)"
  by (simp add: state_io_rel_post preorder_rel_def)

lemma io_get [io_rule]: "preorder_rel P \<Longrightarrow> state_io_rel P get_st"
  by (simp add: state_io_rel_post preorder_rel_def)

lemma io_modify: "(\<And>s. P s (f s)) \<Longrightarrow> state_io_rel P (modify_st f)"
  by (simp add: state_io_rel_post)

lemma io_if [io_rule]:
  "(b \<Longrightarrow> state_io_rel P m) \<Longrightarrow> (\<not> b \<Longrightarrow> state_io_rel P n) \<Longrightarrow> state_io_rel P (if b then m else n)"
  by simp

lemma io_when [io_rule]:
  "preorder_rel P \<Longrightarrow> (b \<Longrightarrow> state_io_rel P m) \<Longrightarrow> state_io_rel P (when_st b m)"
  by (simp add: state_io_rel_post preorder_rel_def)

lemma io_for_each [io_rule]:
  "preorder_rel P \<Longrightarrow> (\<And>x. x \<in> set xs \<Longrightarrow> state_io_rel P (f x)) \<Longrightarrow> state_io_rel P (for_each xs f)"
proof (induction xs)
  case Nil
  then show ?case by (simp add: io_ret)
next
  case (Cons x xs)
  then show ?case by (auto intro!: io_bind)
qed

lemma io_case_option [io_rule]:
  "(z = None \<Longrightarrow> state_io_rel P m) \<Longrightarrow> (\<And>x. z = Some x \<Longrightarrow> state_io_rel P (f x)) \<Longrightarrow>
   state_io_rel P (case z of None \<Rightarrow> m | Some x \<Rightarrow> f x)"
  by (cases z) auto

lemma io_case_prod [io_rule]:
  "(\<And>a b. z = (a, b) \<Longrightarrow> state_io_rel P (f a b)) \<Longrightarrow> state_io_rel P (case z of (a, b) \<Rightarrow> f a b)"
  by (cases z) auto

lemma io_case_list [io_rule]:
  "(z = [] \<Longrightarrow> state_io_rel P m) \<Longrightarrow> (\<And>x xs. z = x # xs \<Longrightarrow> state_io_rel P (f x xs)) \<Longrightarrow>
   state_io_rel P (case z of [] \<Rightarrow> m | x # xs \<Rightarrow> f x xs)"
  by (cases z) auto

lemma io_case_bool [io_rule]:
  "(z \<Longrightarrow> state_io_rel P m) \<Longrightarrow> (\<not> z \<Longrightarrow> state_io_rel P n) \<Longrightarrow>
   state_io_rel P (case z of True \<Rightarrow> m | False \<Rightarrow> n)"
  by (cases z) auto

lemma io_case_nat [io_rule]:
  "(z = 0 \<Longrightarrow> state_io_rel P m) \<Longrightarrow> (\<And>n. z = Suc n \<Longrightarrow> state_io_rel P (f n)) \<Longrightarrow>
   state_io_rel P (case z of 0 \<Rightarrow> m | Suc n \<Rightarrow> f n)"
  by (cases z) auto

lemma io_case_sum [io_rule]:
  "(\<And>a. z = Inl a \<Longrightarrow> state_io_rel P (f a)) \<Longrightarrow> (\<And>b. z = Inr b \<Longrightarrow> state_io_rel P (g b)) \<Longrightarrow>
   state_io_rel P (case z of Inl a \<Rightarrow> f a | Inr b \<Rightarrow> g b)"
  by (cases z) auto

lemma io_let [io_rule]: "state_io_rel P (f z) \<Longrightarrow> state_io_rel P (let x = z in f x)"
  by simp

lemma io_relD: "state_io_rel P m \<Longrightarrow> P s (post m s)"
  by (simp add: state_io_rel_post)

text \<open>Keeping an invariant is such a relation.\<close>

definition keeps :: "('s \<Rightarrow> bool) \<Rightarrow> 's \<Rightarrow> 's \<Rightarrow> bool" where
  "keeps P s s' \<longleftrightarrow> (P s \<longrightarrow> P s')"

lemma keeps_preorder [io_rule]: "preorder_rel (keeps P)"
  by (rule preorder_relI) (auto simp: keeps_def)

lemma keepsI: "(\<And>s. P s \<Longrightarrow> P (post m s)) \<Longrightarrow> state_io_rel (keeps P) m"
  by (simp add: state_io_rel_post keeps_def)

lemma keepsD: "state_io_rel (keeps P) m \<Longrightarrow> P s \<Longrightarrow> P (post m s)"
  by (simp add: state_io_rel_post keeps_def)

section \<open>From a state to a state\<close>

text \<open>Rules that lead from a predicate on the state before a program to one on the state after.\<close>

definition leads :: "('s \<Rightarrow> bool) \<Rightarrow> ('s \<Rightarrow> bool) \<Rightarrow> ('s, 'a) state \<Rightarrow> bool" where
  "leads P Q m \<longleftrightarrow> (\<forall>s. P s \<longrightarrow> Q (post m s))"

lemma leadsI: "(\<And>s. P s \<Longrightarrow> Q (post m s)) \<Longrightarrow> leads P Q m"
  by (simp add: leads_def)

lemma leadsD: "leads P Q m \<Longrightarrow> P s \<Longrightarrow> Q (post m s)"
  by (simp add: leads_def)

named_theorems leads_rule

lemma leads_ret [leads_rule]: "(\<And>s. P s \<Longrightarrow> Q s) \<Longrightarrow> leads P Q (ret x)"
  by (simp add: leads_def)

lemma leads_bind: "leads P R m \<Longrightarrow> (\<And>x. leads R Q (f x)) \<Longrightarrow> leads P Q (m \<bind> f)"
  by (simp add: leads_def)

lemma leads_gets: "(\<And>x. leads (\<lambda>s. P s \<and> x = g s) Q (f x)) \<Longrightarrow> leads P Q (gets g \<bind> f)"
  by (simp add: leads_def)

lemma leads_get: "(\<And>x. leads (\<lambda>s. P s \<and> x = s) Q (f x)) \<Longrightarrow> leads P Q (get_st \<bind> f)"
  by (simp add: leads_def)

lemma leads_get': "(\<And>x. P x \<Longrightarrow> leads P Q (f x)) \<Longrightarrow> leads P Q (get_st \<bind> f)"
  by (simp add: leads_def)

lemma leads_gets': "(\<And>s. P s \<Longrightarrow> leads P Q (f (g s))) \<Longrightarrow> leads P Q (gets g \<bind> f)"
  by (simp add: leads_def)

lemma leads_if [leads_rule]: "(b \<Longrightarrow> leads P Q m) \<Longrightarrow> (\<not> b \<Longrightarrow> leads P Q n) \<Longrightarrow> leads P Q (if b then m else n)"
  by simp

lemma leads_option [leads_rule]:
  "(z = None \<Longrightarrow> leads P Q m) \<Longrightarrow> (\<And>x. z = Some x \<Longrightarrow> leads P Q (f x)) \<Longrightarrow> leads P Q (case z of None \<Rightarrow> m | Some x \<Rightarrow> f x)"
  by (cases z) auto

lemma leads_when [leads_rule]: "(\<And>s. P s \<Longrightarrow> \<not> b \<Longrightarrow> Q s) \<Longrightarrow> (b \<Longrightarrow> leads P Q m) \<Longrightarrow> leads P Q (when_st b m)"
  by (auto simp: leads_def)

lemma leads_pre: "leads P' Q m \<Longrightarrow> (\<And>s. P s \<Longrightarrow> P' s) \<Longrightarrow> leads P Q m"
  by (simp add: leads_def)

lemma leads_post: "leads P Q' m \<Longrightarrow> (\<And>s. Q' s \<Longrightarrow> Q s) \<Longrightarrow> leads P Q m"
  by (simp add: leads_def)

lemma leads_bind_res:
  "(\<And>s. P s \<Longrightarrow> R (res m s) (post m s)) \<Longrightarrow> (\<And>x. leads (R x) Q (f x)) \<Longrightarrow> leads P Q (m \<bind> f)"
  by (simp add: leads_def)

lemma leads_case_prod [leads_rule]:
  "(\<And>a b. z = (a, b) \<Longrightarrow> leads P Q (f a b)) \<Longrightarrow> leads P Q (case z of (a, b) \<Rightarrow> f a b)"
  by (cases z) auto

text \<open>What every result of an operation satisfies.\<close>

definition gives :: "('a \<Rightarrow> bool) \<Rightarrow> ('s, 'a) state \<Rightarrow> bool" where
  "gives P m \<longleftrightarrow> (\<forall>s. P (res m s))"

lemma gives_rules:
  "P x \<Longrightarrow> gives P (ret x)" "(\<And>x. gives P (f x)) \<Longrightarrow> gives P (m \<bind> f)"
  "(b \<Longrightarrow> gives P m1) \<Longrightarrow> (\<not> b \<Longrightarrow> gives P m2) \<Longrightarrow> gives P (if b then m1 else m2)"
  "(z = None \<Longrightarrow> gives P m3) \<Longrightarrow> (\<And>x. z = Some x \<Longrightarrow> gives P (g x)) \<Longrightarrow> gives P (case z of None \<Rightarrow> m3 | Some x \<Rightarrow> g x)"
  "(\<And>a b. y = (a, b) \<Longrightarrow> gives P (h a b)) \<Longrightarrow> gives P (case y of (a, b) \<Rightarrow> h a b)"
  by (auto simp: gives_def split: option.split prod.split)

end
