(* ===== verification/NP_CString.thy ===== *)
theory NP_CString
  imports NP_Prelude "HOL-Library.Char_ord"
begin

text \<open>
  The C string functions the code calls. A \<open>char *\<close> that is not NULL is the \<open>string\<close> of the
  characters before its terminator; a pointer that may be NULL is a \<open>string option\<close>. Functions
  that return a pointer into a string return the offset, or the suffix starting there.
\<close>

section \<open>Characters\<close>

definition ch :: "char \<Rightarrow> nat" where "ch c = of_char c"

definition is_digit :: "char \<Rightarrow> bool" where
  "is_digit c \<longleftrightarrow> 48 \<le> ch c \<and> ch c \<le> 57"

definition is_upper :: "char \<Rightarrow> bool" where
  "is_upper c \<longleftrightarrow> 65 \<le> ch c \<and> ch c \<le> 90"

definition is_lower :: "char \<Rightarrow> bool" where
  "is_lower c \<longleftrightarrow> 97 \<le> ch c \<and> ch c \<le> 122"

definition isxdigit :: "char \<Rightarrow> bool" where
  "isxdigit c \<longleftrightarrow> is_digit c \<or> (65 \<le> ch c \<and> ch c \<le> 70) \<or> (97 \<le> ch c \<and> ch c \<le> 102)"

text \<open>\<open>isspace\<close> in the C locale: space and the five control characters 9 to 13.\<close>

definition isspace :: "char \<Rightarrow> bool" where
  "isspace c \<longleftrightarrow> ch c = 32 \<or> (9 \<le> ch c \<and> ch c \<le> 13)"

definition to_lower :: "char \<Rightarrow> char" where
  "to_lower c = (if is_upper c then char_of (ch c + 32) else c)"

lemma ch_less [simp]: "ch c < 256"
  by (simp add: ch_def)

lemma ch_eq_iff: "ch c = ch d \<longleftrightarrow> c = d"
  by (simp add: ch_def)

lemma ch_char_of [simp]: "n < 256 \<Longrightarrow> ch (char_of n) = n"
  by (simp add: ch_def)

lemma char_of_ch [simp]: "char_of (ch c) = c"
  by (simp add: ch_def)

lemma ch_to_lower: "ch (to_lower c) = (if is_upper c then ch c + 32 else ch c)"
  by (simp add: to_lower_def is_upper_def)

lemma to_lower_not_upper [simp]: "\<not> is_upper (to_lower c)"
  by (cases "is_upper c") (auto simp: is_upper_def ch_to_lower)

lemma to_lower_idem [simp]: "to_lower (to_lower c) = to_lower c"
  by (subst to_lower_def) simp

lemma to_lower_id: "\<not> is_upper c \<Longrightarrow> to_lower c = c"
  by (simp add: to_lower_def)

section \<open>Searching\<close>

text \<open>\<open>strncmp(s, lit, strlen(lit)) == 0\<close>.\<close>

definition starts_with :: "string \<Rightarrow> string \<Rightarrow> bool" where
  "starts_with lit s \<longleftrightarrow> take (length lit) s = lit"

lemma starts_with_iff: "starts_with lit s \<longleftrightarrow> (\<exists>r. s = lit @ r)"
  by (auto simp: starts_with_def) (metis append_take_drop_id)

lemma starts_with_append [simp]: "starts_with lit (lit @ r)"
  by (simp add: starts_with_def)

text \<open>\<open>strchr\<close> and \<open>strrchr\<close>: the offset of the first and of the last occurrence.\<close>

definition strchr :: "string \<Rightarrow> char \<Rightarrow> nat option" where
  "strchr s c = find_index ((=) c) s"

definition strrchr :: "string \<Rightarrow> char \<Rightarrow> nat option" where
  "strrchr s c = map_option (\<lambda>i. length s - Suc i) (find_index ((=) c) (rev s))"

text \<open>\<open>strstr\<close>: the offset of the first occurrence.\<close>

fun strstr :: "string \<Rightarrow> string \<Rightarrow> nat option" where
  "strstr s pat =
     (if starts_with pat s then Some 0
      else case s of [] \<Rightarrow> None | _ # r \<Rightarrow> map_option Suc (strstr r pat))"

declare strstr.simps [simp del]

text \<open>\<open>strspn\<close>.\<close>

definition strspn :: "string \<Rightarrow> (char \<Rightarrow> bool) \<Rightarrow> nat" where
  "strspn s p = length (takeWhile p s)"

text \<open>\<open>snprintf(buf, sz, ...)\<close> and \<open>strncpy\<close> followed by a terminator keep at most
  \<open>sz - 1\<close> characters.\<close>

definition fit :: "nat \<Rightarrow> string \<Rightarrow> string" where
  "fit sz s = take (sz - 1) s"

lemma strrchr_Some:
  assumes "strrchr s c = Some i"
  shows "i < length s" and "s ! i = c" and "\<And>j. i < j \<Longrightarrow> j < length s \<Longrightarrow> s ! j \<noteq> c"
proof -
  obtain k where k: "find_index ((=) c) (rev s) = Some k" and i: "i = length s - Suc k"
    using assms by (auto simp: strrchr_def)
  note f = find_index_Some [OF k]
  show "i < length s" using f(1) i by simp
  show "s ! i = c" using f(1,2) i by (simp add: rev_nth)
  fix j assume "i < j" and "j < length s"
  then have "length s - Suc j < k" using i f(1) by simp
  from f(3) [OF this] \<open>j < length s\<close> show "s ! j \<noteq> c" by (simp add: rev_nth)
qed

lemma strrchr_None: "strrchr s c = None \<longleftrightarrow> c \<notin> set s"
  by (auto simp: strrchr_def find_index_None)

lemma strrchr_last:
  assumes "c \<notin> set b"
  shows "strrchr (a @ c # b) c = Some (length a)"
proof -
  have "\<forall>x \<in> set (rev b). c \<noteq> x" using assms by auto
  from find_index_append [OF this, of c "rev a"] show ?thesis by (simp add: strrchr_def)
qed

lemma strrchr_split:
  assumes "strrchr s c = Some i"
  shows "s = take i s @ c # drop (Suc i) s" and "c \<notin> set (drop (Suc i) s)"
proof -
  note r = strrchr_Some [OF assms]
  show "s = take i s @ c # drop (Suc i) s" using r(1,2) id_take_nth_drop by blast
  show "c \<notin> set (drop (Suc i) s)"
  proof
    assume "c \<in> set (drop (Suc i) s)"
    then obtain j where "j < length s - Suc i" "s ! (Suc i + j) = c"
      by (auto simp: in_set_conv_nth)
    with r(3) [of "Suc i + j"] show False by simp
  qed
qed

lemma strchr_split:
  assumes "strchr s c = Some i"
  shows "i < length s" and "s = take i s @ c # drop (Suc i) s" and "c \<notin> set (take i s)"
proof -
  note f = find_index_Some [OF assms [unfolded strchr_def]]
  show "i < length s" by (rule f(1))
  then show "s = take i s @ c # drop (Suc i) s" using f(2) id_take_nth_drop by metis
  show "c \<notin> set (take i s)" using f(3) by (force simp: in_set_conv_nth)
qed

lemma strchr_None: "strchr s c = None \<longleftrightarrow> c \<notin> set s"
  by (auto simp: strchr_def find_index_None)

lemma strstr_Some:
  "strstr s pat = Some i \<Longrightarrow> starts_with pat (drop i s) \<and> i \<le> length s"
proof (induction s pat arbitrary: i rule: strstr.induct)
  case (1 s pat)
  then show ?case
    by (subst (asm) (2) strstr.simps) (auto split: if_splits list.splits)
qed

lemma strstr_split: "strstr s pat = Some i \<Longrightarrow> \<exists>r. s = take i s @ pat @ r"
  using strstr_Some [of s pat i] by (metis append_take_drop_id starts_with_iff)

section \<open>Numbers\<close>

fun dec_nat :: "nat \<Rightarrow> string" where
  "dec_nat n = (if n < 10 then [char_of (48 + n)] else dec_nat (n div 10) @ [char_of (48 + n mod 10)])"

declare dec_nat.simps [simp del]

definition dec_int :: "int \<Rightarrow> string" where
  "dec_int i = (if i < 0 then ''-'' @ dec_nat (nat (- i)) else dec_nat (nat i))"

text \<open>\<open>strtol(s, &end, 10)\<close>: skips white space, reads an optional sign and the digits; \<open>None\<close>
  when there is no digit (\<open>end == s\<close>), otherwise the value and the rest \<open>end\<close> points to. \<open>long\<close>
  has 32 bits on the target and the value saturates, as the standard prescribes.\<close>

definition LONG_MAX :: int where "LONG_MAX = 2 ^ 31 - 1"

definition digit_val :: "char \<Rightarrow> int" where
  "digit_val c = int (ch c) - 48"

definition digits_val :: "string \<Rightarrow> int" where
  "digits_val ds = foldl (\<lambda>v c. 10 * v + digit_val c) 0 ds"

definition saturate_long :: "int \<Rightarrow> int" where
  "saturate_long v = max (- LONG_MAX - 1) (min LONG_MAX v)"

definition strtol10 :: "string \<Rightarrow> (int \<times> string) option" where
  "strtol10 s =
     (let t = dropWhile isspace s;
          neg = starts_with ''-'' t;
          u = (if neg \<or> starts_with ''+'' t then tl t else t);
          ds = takeWhile is_digit u
      in if ds = [] then None
         else Some (saturate_long (if neg then - digits_val ds else digits_val ds), dropWhile is_digit u))"

lemma is_digit_char_of [simp]: "(d::nat) < 10 \<Longrightarrow> is_digit (char_of (48 + d))"
  by (simp add: is_digit_def)

lemma dec_nat_digits: "\<forall>c \<in> set (dec_nat n). is_digit c"
  by (induction n rule: dec_nat.induct) (subst dec_nat.simps, auto)

lemma dec_nat_nonempty [simp]: "dec_nat n \<noteq> []"
  by (subst dec_nat.simps) auto

lemma digits_val_snoc: "digits_val (ds @ [c]) = 10 * digits_val ds + digit_val c"
  by (simp add: digits_val_def)

lemma digits_val_dec_nat: "digits_val (dec_nat n) = int n"
proof (induction n rule: dec_nat.induct)
  case (1 n)
  show ?case
  proof (cases "n < 10")
    case True
    then show ?thesis
      by (subst dec_nat.simps) (simp add: digits_val_def digit_val_def)
  next
    case False
    then have "digits_val (dec_nat n) = 10 * int (n div 10) + int (n mod 10)"
      using 1 by (subst dec_nat.simps) (simp add: digits_val_snoc digit_val_def)
    also have "\<dots> = int n" by (metis mult.commute of_nat_add of_nat_mult of_nat_numeral div_mult_mod_eq)
    finally show ?thesis .
  qed
qed

lemma digit_not_special: "is_digit c \<Longrightarrow> \<not> isspace c \<and> c \<noteq> CHR ''-'' \<and> c \<noteq> CHR ''+''"
  by (auto simp: is_digit_def isspace_def ch_def)

lemma strtol10_dec_nat:
  "strtol10 (dec_nat n) = Some (saturate_long (int n), [])"
proof -
  let ?s = "dec_nat n"
  have d: "\<forall>c \<in> set ?s. is_digit c" by (rule dec_nat_digits)
  then have hd: "is_digit (hd ?s)" by simp
  have 1: "dropWhile isspace ?s = ?s"
    using digit_not_special [OF hd] by (cases ?s) (auto simp del: dec_nat_nonempty)
  have 2: "\<not> starts_with ''-'' ?s \<and> \<not> starts_with ''+'' ?s"
    using digit_not_special [OF hd] by (cases ?s) (auto simp: starts_with_def simp del: dec_nat_nonempty)
  have 3: "takeWhile is_digit ?s = ?s" "dropWhile is_digit ?s = []"
    using d by auto
  show ?thesis unfolding strtol10_def Let_def 1 using 2 3 by (simp add: digits_val_dec_nat del: takeWhile_eq_all_conv)
qed

end
