(* ===== verification/External_Libs.thy ===== *)
theory External_Libs
  imports NP_CString Complex_Main
begin

text \<open>
  The libraries the firmware links and that are not part of the repository, as parameters of the
  model: cJSON (type \<open>'j\<close> of JSON values) and the pure part of atchops (RSA, Base64, SHA). A
  record of functions stands for each library; every definition that calls the library takes the
  record as an argument. Nothing is assumed of these functions unless a theorem states it.

  A C \<open>double\<close> is a rational or one of the three special values; the casts to unsigned types are
  the C ones, with the undefined out-of-range case left to a parameter.
\<close>

section \<open>Numbers read from JSON\<close>

datatype dbl = Fin rat | PosInf | NegInf | NaN

definition dbl_less_int :: "dbl \<Rightarrow> int \<Rightarrow> bool" where
  "dbl_less_int d k = (case d of Fin r \<Rightarrow> r < of_int k | NegInf \<Rightarrow> True | _ \<Rightarrow> False)"

definition dbl_greater_int :: "dbl \<Rightarrow> int \<Rightarrow> bool" where
  "dbl_greater_int d k = (case d of Fin r \<Rightarrow> r > of_int k | PosInf \<Rightarrow> True | _ \<Rightarrow> False)"

text \<open>Truncation towards zero, as a C cast does.\<close>

definition trunc_rat :: "rat \<Rightarrow> int" where
  "trunc_rat r = (if r \<ge> 0 then \<lfloor>r\<rfloor> else - \<lfloor>- r\<rfloor>)"

definition u16_of_dbl :: "(dbl \<Rightarrow> u16) \<Rightarrow> dbl \<Rightarrow> u16" where
  "u16_of_dbl ub d =
     (case d of Fin r \<Rightarrow> if - 1 < r \<and> r < 65536 then word_of_int (trunc_rat r) else ub d | _ \<Rightarrow> ub d)"

definition u32_of_dbl :: "(dbl \<Rightarrow> u32) \<Rightarrow> dbl \<Rightarrow> u32" where
  "u32_of_dbl ub d =
     (case d of Fin r \<Rightarrow> if - 1 < r \<and> r < 4294967296 then word_of_int (trunc_rat r) else ub d | _ \<Rightarrow> ub d)"

section \<open>cJSON\<close>

record 'j cjson =
  cj_parse :: "string \<Rightarrow> 'j option"          \<comment> \<open>\<open>cJSON_Parse\<close>\<close>
  cj_parse_opts :: "string \<Rightarrow> 'j option"     \<comment> \<open>\<open>cJSON_ParseWithOpts(value, NULL, true)\<close>\<close>
  cj_item :: "'j \<Rightarrow> string \<Rightarrow> 'j option"     \<comment> \<open>\<open>cJSON_GetObjectItem\<close> (case-insensitive)\<close>
  cj_item_cs :: "'j \<Rightarrow> string \<Rightarrow> 'j option"  \<comment> \<open>\<open>cJSON_GetObjectItemCaseSensitive\<close>\<close>
  cj_is_object :: "'j \<Rightarrow> bool"
  cj_is_array :: "'j \<Rightarrow> bool"
  cj_is_null :: "'j \<Rightarrow> bool"
  cj_is_true :: "'j \<Rightarrow> bool"
  cj_string :: "'j \<Rightarrow> string option"         \<comment> \<open>\<open>cJSON_IsString\<close> and \<open>valuestring\<close>\<close>
  cj_number :: "'j \<Rightarrow> dbl option"            \<comment> \<open>\<open>cJSON_IsNumber\<close> and \<open>valuedouble\<close>\<close>
  cj_elements :: "'j \<Rightarrow> 'j list"             \<comment> \<open>the elements of an array\<close>
  cj_mk_string :: "string \<Rightarrow> 'j"
  cj_mk_bool :: "bool \<Rightarrow> 'j"
  cj_mk_array :: "'j list \<Rightarrow> 'j"
  cj_mk_object :: "(string \<times> 'j) list \<Rightarrow> 'j" \<comment> \<open>\<open>cJSON_CreateObject\<close> and one \<open>cJSON_Add..ToObject\<close> per field\<close>

text \<open>The accessors take NULL, as cJSON's do: a missing value has no items and no type.\<close>

definition GetObjectItem :: "'j cjson \<Rightarrow> 'j option \<Rightarrow> string \<Rightarrow> 'j option" where
  "GetObjectItem cj x name = (case x of None \<Rightarrow> None | Some j \<Rightarrow> cj_item cj j name)"

definition GetObjectItemCaseSensitive :: "'j cjson \<Rightarrow> 'j option \<Rightarrow> string \<Rightarrow> 'j option" where
  "GetObjectItemCaseSensitive cj x name = (case x of None \<Rightarrow> None | Some j \<Rightarrow> cj_item_cs cj j name)"

definition GetStringValue :: "'j cjson \<Rightarrow> 'j option \<Rightarrow> string option" where
  "GetStringValue cj x = (case x of None \<Rightarrow> None | Some j \<Rightarrow> cj_string cj j)"

definition IsString :: "'j cjson \<Rightarrow> 'j option \<Rightarrow> bool" where
  "IsString cj x \<longleftrightarrow> GetStringValue cj x \<noteq> None"

definition IsNumber :: "'j cjson \<Rightarrow> 'j option \<Rightarrow> bool" where
  "IsNumber cj x \<longleftrightarrow> (case x of None \<Rightarrow> False | Some j \<Rightarrow> cj_number cj j \<noteq> None)"

definition GetNumberValue :: "'j cjson \<Rightarrow> 'j option \<Rightarrow> dbl" where
  "GetNumberValue cj x = (case x of None \<Rightarrow> NaN | Some j \<Rightarrow> (case cj_number cj j of None \<Rightarrow> NaN | Some d \<Rightarrow> d))"

definition IsObject :: "'j cjson \<Rightarrow> 'j option \<Rightarrow> bool" where
  "IsObject cj x \<longleftrightarrow> (case x of None \<Rightarrow> False | Some j \<Rightarrow> cj_is_object cj j)"

definition IsArray :: "'j cjson \<Rightarrow> 'j option \<Rightarrow> bool" where
  "IsArray cj x \<longleftrightarrow> (case x of None \<Rightarrow> False | Some j \<Rightarrow> cj_is_array cj j)"

definition IsNull :: "'j cjson \<Rightarrow> 'j option \<Rightarrow> bool" where
  "IsNull cj x \<longleftrightarrow> (case x of None \<Rightarrow> False | Some j \<Rightarrow> cj_is_null cj j)"

definition IsTrue :: "'j cjson \<Rightarrow> 'j option \<Rightarrow> bool" where
  "IsTrue cj x \<longleftrightarrow> (case x of None \<Rightarrow> False | Some j \<Rightarrow> cj_is_true cj j)"

section \<open>atchops\<close>

type_synonym bytes = "u8 list"

text \<open>An RSA key: the modulus bytes the code inspects, and the rest, which it does not.\<close>

record rsa_key =
  rk_n :: bytes
  rk_rest :: string

datatype md_type = MD_SHA256 | MD_SHA512

record atchops =
  rsa_populate_public :: "string \<Rightarrow> rsa_key option"
  rsa_populate_private :: "string \<Rightarrow> rsa_key option"
  rsa_verify :: "rsa_key \<Rightarrow> md_type \<Rightarrow> string \<Rightarrow> bytes \<Rightarrow> bool"
  rsa_sign :: "rsa_key \<Rightarrow> md_type \<Rightarrow> string \<Rightarrow> bytes option"
  base64_decode :: "string \<Rightarrow> nat \<Rightarrow> bytes option"  \<comment> \<open>at most so many bytes\<close>
  base64_encode :: "bytes \<Rightarrow> nat \<Rightarrow> string option"
  sha256 :: "bytes \<Rightarrow> bytes option"

text \<open>The modulus without the zero bytes DER puts in front of it.\<close>

definition significant_bytes :: "bytes \<Rightarrow> nat" where
  "significant_bytes n = length (dropWhile (\<lambda>b. b = 0) n)"

lemma significant_bytes_pad [simp]: "significant_bytes (0 # n) = significant_bytes n"
  by (simp add: significant_bytes_def)

lemma significant_bytes_le: "significant_bytes n \<le> length n"
  by (simp add: significant_bytes_def length_dropWhile_le)

end
