(* ===== verification/Platform.thy ===== *)
theory Platform
  imports External_Libs
begin

text \<open>
  The platform under the firmware, as a parameter of the model: the clock, the heap, the random
  number generator, FreeRTOS delays, TCP sockets (lwIP and \<open>WiFiClient\<close>) and mbedTLS' Base64 and
  AES. \<open>'w\<close> is the state of everything outside the program; a call reads it and moves it on, so
  two calls of \<open>millis()\<close> need not agree. \<open>'k\<close> is an AES key schedule. A \<open>WiFiClient\<close> is its file
  descriptor, or \<open>None\<close> when it has none (\<open>fd() < 0\<close>).
\<close>

section \<open>Sockets\<close>

type_synonym sock = "int option"

text \<open>\<open>recv(fd, tmp, 1, MSG_PEEK | MSG_DONTWAIT)\<close>.\<close>

datatype peek = Peek_data | Peek_fin | Peek_again | Peek_error

text \<open>\<open>lwip_send(fd, data, len, MSG_DONTWAIT)\<close>: bytes accepted, \<open>EAGAIN\<close>, or another error.\<close>

datatype send = Sent nat | Send_again | Send_error

text \<open>\<open>WiFiClient::read(buf, n)\<close>: the bytes read, or a negative result.\<close>

datatype recv = Got bytes | Read_error

section \<open>mbedTLS\<close>

record 'k ctr =
  ctr_ctx :: 'k
  ctr_nonce_counter :: bytes
  ctr_stream_block :: bytes
  ctr_nc_off :: nat

record 'k mbedtls =
  mb_base64_encode :: "bytes \<Rightarrow> nat \<Rightarrow> string option"  \<comment> \<open>\<open>None\<close> when the buffer is too small\<close>
  mb_base64_decode :: "string \<Rightarrow> nat \<Rightarrow> bytes option"
  mb_init_ctx :: 'k                                      \<comment> \<open>what \<open>mbedtls_aes_init\<close> leaves\<close>
  mb_setkey_enc :: "bytes \<Rightarrow> 'k option"
  mb_crypt_ctr :: "'k ctr \<Rightarrow> bytes \<Rightarrow> 'k ctr \<times> bytes"

text \<open>Encrypting chunk by chunk with the state carried on.\<close>

definition ctr_run :: "'k mbedtls \<Rightarrow> 'k ctr \<Rightarrow> bytes list \<Rightarrow> 'k ctr \<times> bytes" where
  "ctr_run mb st chunks =
     fold (\<lambda>c (st, out). case mb_crypt_ctr mb st c of (st', o') \<Rightarrow> (st', out @ o')) chunks (st, [])"

lemma ctr_run_Nil [simp]: "ctr_run mb st [] = (st, [])"
  by (simp add: ctr_run_def)

lemma ctr_run_snoc:
  "ctr_run mb st (cs @ [c]) =
     (case ctr_run mb st cs of (st', out) \<Rightarrow> (case mb_crypt_ctr mb st' c of (st'', o') \<Rightarrow> (st'', out @ o')))"
  by (simp add: ctr_run_def)

text \<open>AES-CTR is a stream cipher: as many bytes out as in.\<close>

definition ctr_length :: "'k mbedtls \<Rightarrow> bool" where
  "ctr_length mb \<longleftrightarrow> (\<forall>st bs. length (snd (mb_crypt_ctr mb st bs)) = length bs)"

section \<open>The environment\<close>

record ('w, 'k, 'j) env =
  e_millis :: "'w \<Rightarrow> u32 \<times> 'w"
  e_now_ms :: "'w \<Rightarrow> ms64 \<times> 'w"           \<comment> \<open>\<open>esp_timer_get_time() / 1000\<close>\<close>
  e_free_heap :: "'w \<Rightarrow> u32 \<times> 'w"
  e_largest_block :: "'w \<Rightarrow> u32 \<times> 'w"
  e_random :: "'w \<Rightarrow> u32 \<times> 'w"
  e_alloc :: "nat \<Rightarrow> 'w \<Rightarrow> bool \<times> 'w"       \<comment> \<open>does \<open>malloc\<close> succeed?\<close>
  e_delay :: "u32 \<Rightarrow> 'w \<Rightarrow> 'w"
  e_connect :: "string option \<Rightarrow> u16 \<Rightarrow> 'w \<Rightarrow> sock \<times> 'w"
  e_connected :: "sock \<Rightarrow> 'w \<Rightarrow> bool \<times> 'w"
  e_available :: "sock \<Rightarrow> 'w \<Rightarrow> bool \<times> 'w"  \<comment> \<open>\<open>available() > 0\<close>\<close>
  e_read :: "sock \<Rightarrow> nat \<Rightarrow> 'w \<Rightarrow> recv \<times> 'w"
  e_peek :: "int \<Rightarrow> 'w \<Rightarrow> peek \<times> 'w"
  e_send :: "int \<Rightarrow> bytes \<Rightarrow> 'w \<Rightarrow> send \<times> 'w"
  e_print :: "sock \<Rightarrow> string \<Rightarrow> 'w \<Rightarrow> 'w"
  e_stop :: "sock \<Rightarrow> 'w \<Rightarrow> 'w"
  e_should_run :: "'w \<Rightarrow> bool \<times> 'w"         \<comment> \<open>\<open>relay->should_run\<close>, cleared by the daemon's task\<close>
  e_mb :: "'k mbedtls"
  e_ops :: atchops
  e_cj :: "'j cjson"
  e_print_json :: "'j \<Rightarrow> string"             \<comment> \<open>\<open>cJSON_PrintUnformatted\<close>, given memory\<close>
  e_fuel :: nat                              \<comment> \<open>how many rounds a wait may take in the model\<close>

text \<open>What POSIX says of \<open>send\<close> and \<open>recv\<close>: never more than asked for. Used as a hypothesis where the
  code relies on it.\<close>

definition io_bounds :: "('w, 'k, 'j, 'z) env_scheme \<Rightarrow> bool" where
  "io_bounds E \<longleftrightarrow>
     (\<forall>fd bs w n w'. e_send E fd bs w = (Sent n, w') \<longrightarrow> n \<le> length bs) \<and>
     (\<forall>fd k w bs w'. e_read E fd k w = (Got bs, w') \<longrightarrow> length bs \<le> k)"

lemma io_bounds_send: "io_bounds E \<Longrightarrow> e_send E fd bs w = (Sent n, w') \<Longrightarrow> n \<le> length bs"
  unfolding io_bounds_def by blast

section \<open>Bytes and text\<close>

definition byte_char :: "u8 \<Rightarrow> char" where
  "byte_char b = char_of (unat b)"

definition char_byte :: "char \<Rightarrow> u8" where
  "char_byte c = word_of_nat (ch c)"

text \<open>A buffer of bytes read as a C string ends at its first NUL.\<close>

definition c_string :: "bytes \<Rightarrow> string" where
  "c_string bs = map byte_char (takeWhile (\<lambda>b. b \<noteq> 0) bs)"

definition str_bytes :: "string \<Rightarrow> bytes" where
  "str_bytes s = map char_byte s"

lemma byte_char_char_byte [simp]: "byte_char (char_byte c) = c"
  by (simp add: byte_char_def char_byte_def unat_of_nat take_bit_nat_def)

lemma char_byte_byte_char [simp]: "char_byte (byte_char b) = b"
proof -
  have "unat b < 256" using unsigned_less [of b, where ?'a = nat] by simp
  then show ?thesis by (simp add: byte_char_def char_byte_def)
qed

lemma char_byte_zero_iff: "char_byte c = 0 \<longleftrightarrow> ch c = 0"
proof
  assume "char_byte c = 0"
  then have "c = byte_char 0" using byte_char_char_byte [of c] by simp
  then show "ch c = 0" by (simp add: byte_char_def)
qed (simp add: char_byte_def)

lemma c_string_str_bytes: "\<forall>c \<in> set s. ch c \<noteq> 0 \<Longrightarrow> c_string (str_bytes s) = s"
  by (induction s) (auto simp: c_string_def str_bytes_def char_byte_zero_iff)

end
