(* ===== verification/Relay_Types.thy ===== *)
theory Relay_Types
  imports Platform
begin

text \<open>
  \<open>noports_relay.h\<close> and the first part of \<open>noports_relay.cpp\<close>: the constants (of the ESP32 build,
  the \<open>#else\<close> branches), the relay and its configuration, the sub-connections, the state a relay
  task works on, and the socket and cipher primitives. A relay task is a program of the state
  monad over \<open>rtask\<close>; \<open>t_trace\<close> is a ghost record of what it read and sent. A wait that uses up
  the task's fuel sets \<open>t_diverged\<close>: such a run stands for no run of the code, and every claim
  that something is returned excludes it.
\<close>

section \<open>Constants\<close>

definition RELAY_BUF_SIZE :: nat where "RELAY_BUF_SIZE = 1460"
definition RELAY_CHUNK_SIZE :: nat where "RELAY_CHUNK_SIZE = 1460"
definition EARLY_BUF_SIZE :: nat where "EARLY_BUF_SIZE = 1024"
definition LWIP_TOTAL_PCBS :: nat where "LWIP_TOTAL_PCBS = 16"
definition RESERVED_ATSERVER_PCBS :: nat where "RESERVED_ATSERVER_PCBS = 5"
definition MAX_RELAY_PCBS :: nat where "MAX_RELAY_PCBS = LWIP_TOTAL_PCBS - RESERVED_ATSERVER_PCBS"
definition MAX_RELAY_SUBS :: nat where "MAX_RELAY_SUBS = 5"
definition MIN_HEAP_FOR_SUB :: u32 where "MIN_HEAP_FOR_SUB = 15000"
definition HEAP_OOM_FLOOR :: u32 where "HEAP_OOM_FLOOR = 20000"
definition HEAP_CRITICAL_LOW :: u32 where "HEAP_CRITICAL_LOW = 15000"
definition CRITICAL_MIN_IDLE_MS :: u32 where "CRITICAL_MIN_IDLE_MS = 0"
definition SUB_STALL_TIMEOUT_MS :: u32 where "SUB_STALL_TIMEOUT_MS = 900000"
definition SUB_EVICTION_GRACE_MS :: u32 where "SUB_EVICTION_GRACE_MS = 10000"
definition ULONG_MAX :: u32 where "ULONG_MAX = 4294967295"

section \<open>The relay\<close>

datatype relay_state =
  RELAY_IDLE | RELAY_CONNECTING | RELAY_AUTHENTICATING | RELAY_RUNNING | RELAY_ERROR | RELAY_STOPPED

record relay_config =
  rc_rvd_host :: "string option"
  rc_rvd_port :: u16
  rc_local_host :: "string option"
  rc_local_port :: u16
  rc_rv_auth :: bool
  rc_rvd_auth_string :: "string option"
  rc_escr_auth :: bool
  rc_relay_auth_aes_key :: "string option"
  rc_escr_signing_key_uri :: "string option"
  rc_escr_signing_key :: "rsa_key option"
  rc_rv_e2ee :: bool
  rc_session_aes_key :: "string option"
  rc_session_iv :: "string option"
  rc_session_aes_key_d2c :: "string option"
  rc_session_iv_d2c :: "string option"
  rc_multi :: bool
  rc_idle_timeout_ms :: u32
  rc_session_id :: string
  rc_max_subs :: u8

definition noports_relay_config_init :: relay_config where
  "noports_relay_config_init =
     \<lparr>rc_rvd_host = None, rc_rvd_port = 0, rc_local_host = Some ''127.0.0.1'', rc_local_port = 0,
      rc_rv_auth = False, rc_rvd_auth_string = None, rc_escr_auth = False, rc_relay_auth_aes_key = None,
      rc_escr_signing_key_uri = None, rc_escr_signing_key = None, rc_rv_e2ee = False,
      rc_session_aes_key = None, rc_session_iv = None, rc_session_aes_key_d2c = None,
      rc_session_iv_d2c = None, rc_multi = False, rc_idle_timeout_ms = 0, rc_session_id = [],
      rc_max_subs = 0\<rparr>"

record 'k relay =
  rl_config :: relay_config
  rl_state :: relay_state
  rl_task_handle :: "nat option"
  rl_rvd_client :: sock
  rl_local_client :: sock
  rl_should_run :: bool
  rl_bytes_in :: u32
  rl_bytes_out :: u32
  rl_start_ms :: u32
  rl_active_sessions :: u8
  rl_encrypter :: "'k ctr option"
  rl_decrypter :: "'k ctr option"

text \<open>A sub-connection. The two \<open>pending\<close> buffers with their lengths are lists of the valid bytes; the
  cipher states are meaningful when \<open>sb_encrypted\<close> holds.\<close>

record 'k sub =
  sb_rvd :: sock
  sb_local :: sock
  sb_enc_state :: "'k ctr option"
  sb_dec_state :: "'k ctr option"
  sb_active :: bool
  sb_encrypted :: bool
  sb_draining :: bool
  sb_dir_flip :: bool
  sb_drain_start_ms :: u32
  sb_last_activity_ms :: u32
  sb_bytes_in :: u32
  sb_bytes_out :: u32
  sb_pending_rvd :: bytes
  sb_pending_local :: bytes

definition zero_sub :: "'k sub" where
  "zero_sub = \<lparr>sb_rvd = None, sb_local = None, sb_enc_state = None, sb_dec_state = None, sb_active = False,
     sb_encrypted = False, sb_draining = False, sb_dir_flip = False, sb_drain_start_ms = 0,
     sb_last_activity_ms = 0, sb_bytes_in = 0, sb_bytes_out = 0, sb_pending_rvd = [], sb_pending_local = []\<rparr>"

section \<open>The state of a relay task\<close>

datatype io =
    Io_read sock bytes
  | Io_sent int bytes
  | Io_print sock string
  | Io_connect "string option" u16 sock
  | Io_stop sock

text \<open>The five globals of \<open>noports_relay.cpp\<close> (\<open>t_pcb_count\<close> to \<open>t_cpu_pct\<close>), the relay, and the
  locals of the multi-session task. \<open>t_activity\<close> is its per-iteration flag.\<close>

record ('w, 'k) rtask =
  t_world :: 'w
  t_trace :: "io list"
  t_diverged :: bool
  t_pcb_count :: int
  t_oom_mode :: bool
  t_busy_ms :: u32
  t_total_ms :: u32
  t_cpu_win_ms :: u32
  t_cpu_pct :: u8
  t_relay :: "'k relay"
  t_subs :: "'k sub list"
  t_ctrl :: sock
  t_ctrl_dec :: "'k ctr option"
  t_ctrl_msg :: bytes
  t_idle_since :: u32
  t_ctrl_lost :: bool
  t_ctrl_lost_since :: u32
  t_activity :: bool

type_synonym ('w, 'k, 'z, 'a) task = "(('w, 'k, 'z) rtask_scheme, 'a) state"

definition rx :: "('w \<Rightarrow> 'r \<times> 'w) \<Rightarrow> ('w, 'k, 'z, 'r) task" where
  "rx f = State (\<lambda>s. case f (t_world s) of (r, w) \<Rightarrow> (r, s\<lparr>t_world := w\<rparr>))"

definition rdo :: "('w \<Rightarrow> 'w) \<Rightarrow> ('w, 'k, 'z, unit) task" where
  "rdo f = modify_st (t_world_update f)"

definition log_io :: "io \<Rightarrow> ('w, 'k, 'z, unit) task" where
  "log_io e = modify_st (t_trace_update (\<lambda>t. t @ [e]))"

lemma rx_simps [simp]:
  "res (rx f) s = fst (f (t_world s))"
  "post (rx f) s = s\<lparr>t_world := snd (f (t_world s))\<rparr>"
  by (simp_all add: rx_def res_def post_def case_prod_beta)

lemma rdo_post [simp]: "post (rdo f) s = s\<lparr>t_world := f (t_world s)\<rparr>"
  by (simp add: rdo_def)

lemma log_io_post [simp]: "post (log_io e) s = s\<lparr>t_trace := t_trace s @ [e]\<rparr>"
  by (simp add: log_io_def)

definition upd_relay :: "('k relay \<Rightarrow> 'k relay) \<Rightarrow> ('w, 'k, 'z, unit) task" where
  "upd_relay f = modify_st (t_relay_update f)"

definition upd_sub :: "nat \<Rightarrow> ('k sub \<Rightarrow> 'k sub) \<Rightarrow> ('w, 'k, 'z, unit) task" where
  "upd_sub i f = modify_st (t_subs_update (\<lambda>subs. subs[i := f (subs ! i)]))"

definition the_sub :: "nat \<Rightarrow> ('w, 'k, 'z, 'k sub) task" where
  "the_sub i = gets (\<lambda>s. t_subs s ! i)"

definition set_state :: "relay_state \<Rightarrow> ('w, 'k, 'z, unit) task" where
  "set_state st = upd_relay (rl_state_update (\<lambda>_. st))"

definition upd_pcb :: "(int \<Rightarrow> int) \<Rightarrow> ('w, 'k, 'z, unit) task" where
  "upd_pcb f = modify_st (t_pcb_count_update f)"

lemma upd_simps [simp]:
  "post (upd_relay f) s = s\<lparr>t_relay := f (t_relay s)\<rparr>"
  "post (upd_sub i g) s = s\<lparr>t_subs := (t_subs s)[i := g (t_subs s ! i)]\<rparr>"
  "res (the_sub i) s = t_subs s ! i"
  "post (the_sub i) s = s"
  "post (set_state st) s = s\<lparr>t_relay := (t_relay s)\<lparr>rl_state := st\<rparr>\<rparr>"
  "post (upd_pcb h) s = s\<lparr>t_pcb_count := h (t_pcb_count s)\<rparr>"
  by (simp_all add: upd_relay_def upd_sub_def the_sub_def set_state_def upd_pcb_def)

section \<open>Sockets\<close>

definition millis :: "('w, 'k, 'j, 'e) env_scheme \<Rightarrow> ('w, 'k, 'z, u32) task" where
  "millis E = rx (e_millis E)"

definition task_delay :: "('w, 'k, 'j, 'e) env_scheme \<Rightarrow> u32 \<Rightarrow> ('w, 'k, 'z, unit) task" where
  "task_delay E ms = rdo (e_delay E ms)"

definition sock_connect ::
  "('w, 'k, 'j, 'e) env_scheme \<Rightarrow> string option \<Rightarrow> u16 \<Rightarrow> ('w, 'k, 'z, sock) task" where
  "sock_connect E host port = do { c \<leftarrow> rx (e_connect E host port); log_io (Io_connect host port c); ret c }"

definition available :: "('w, 'k, 'j, 'e) env_scheme \<Rightarrow> sock \<Rightarrow> ('w, 'k, 'z, bool) task" where
  "available E c = rx (e_available E c)"

definition sock_read :: "('w, 'k, 'j, 'e) env_scheme \<Rightarrow> sock \<Rightarrow> nat \<Rightarrow> ('w, 'k, 'z, recv) task" where
  "sock_read E c k = do {
     r \<leftarrow> rx (e_read E c k);
     (case r of Got bs \<Rightarrow> log_io (Io_read c bs) | Read_error \<Rightarrow> ret ());
     ret r }"

definition sock_print :: "('w, 'k, 'j, 'e) env_scheme \<Rightarrow> sock \<Rightarrow> string \<Rightarrow> ('w, 'k, 'z, unit) task" where
  "sock_print E c t = do { rdo (e_print E c t); log_io (Io_print c t) }"

definition sock_stop :: "('w, 'k, 'j, 'e) env_scheme \<Rightarrow> sock \<Rightarrow> ('w, 'k, 'z, unit) task" where
  "sock_stop E c = do { rdo (e_stop E c); log_io (Io_stop c) }"

definition peer_closed :: "('w, 'k, 'j, 'e) env_scheme \<Rightarrow> sock \<Rightarrow> ('w, 'k, 'z, bool) task" where
  "peer_closed E c =
     (case c of
        None \<Rightarrow> ret True
      | Some fd \<Rightarrow> do {
          r \<leftarrow> rx (e_peek E fd);
          ret (case r of Peek_data \<Rightarrow> False | Peek_fin \<Rightarrow> True | Peek_again \<Rightarrow> False | Peek_error \<Rightarrow> True) })"

text \<open>\<open>None\<close> is the hard error -1; \<open>Some 0\<close> a full send buffer.\<close>

definition write_nb :: "('w, 'k, 'j, 'e) env_scheme \<Rightarrow> sock \<Rightarrow> bytes \<Rightarrow> ('w, 'k, 'z, nat option) task" where
  "write_nb E c bs =
     (case c of
        None \<Rightarrow> ret None
      | Some fd \<Rightarrow> do {
          r \<leftarrow> rx (e_send E fd bs);
          case r of
            Sent n \<Rightarrow> do { log_io (Io_sent fd (take n bs)); ret (Some n) }
          | Send_again \<Rightarrow> ret (Some 0)
          | Send_error \<Rightarrow> ret None })"

definition diverge :: "'a \<Rightarrow> ('w, 'k, 'z, 'a) task" where
  "diverge x = do { modify_st (t_diverged_update (\<lambda>_. True)); ret x }"

fun write_all_loop ::
  "nat \<Rightarrow> ('w, 'k, 'j, 'e) env_scheme \<Rightarrow> sock \<Rightarrow> bytes \<Rightarrow> u32 \<Rightarrow> u32 \<Rightarrow> ('w, 'k, 'z, bool) task" where
  "write_all_loop 0 E c rest start timeout_ms = (if rest = [] then ret True else diverge False)"
| "write_all_loop (Suc fuel) E c rest start timeout_ms =
     (if rest = [] then ret True
      else do {
        n \<leftarrow> write_nb E c rest;
        case n of
          None \<Rightarrow> ret False
        | Some k \<Rightarrow>
            if k > 0 then do { now \<leftarrow> millis E; write_all_loop fuel E c (drop k rest) now timeout_ms }
            else do {
              now \<leftarrow> millis E;
              if now - start > timeout_ms then ret False
              else do { task_delay E 1; write_all_loop fuel E c rest start timeout_ms } } })"

definition write_all :: "('w, 'k, 'j, 'e) env_scheme \<Rightarrow> sock \<Rightarrow> bytes \<Rightarrow> ('w, 'k, 'z, bool) task" where
  "write_all E c bs = do {
     start \<leftarrow> millis E;
     oom \<leftarrow> gets t_oom_mode;
     write_all_loop (e_fuel E) E c bs start (if oom then 300 else 5000) }"

section \<open>Ciphers\<close>

definition init_aes_ctr_state :: "'k mbedtls \<Rightarrow> string \<Rightarrow> string \<Rightarrow> 'k ctr option" where
  "init_aes_ctr_state mb key_b64 iv_b64 =
     (case mb_base64_decode mb key_b64 32 of
        None \<Rightarrow> None
      | Some aes_key \<Rightarrow>
          if length aes_key \<noteq> 32 then None
          else case mb_base64_decode mb iv_b64 16 of
              None \<Rightarrow> None
            | Some iv \<Rightarrow>
                if length iv \<noteq> 16 then None
                else case mb_setkey_enc mb aes_key of
                    None \<Rightarrow> None
                  | Some ctx \<Rightarrow> Some \<lparr>ctr_ctx = ctx, ctr_nonce_counter = iv,
                                  ctr_stream_block = replicate 16 0, ctr_nc_off = 0\<rparr>)"

text \<open>The encrypter and the decrypter, in this order. The decrypter always has the client-to-daemon
  key; the encrypter has the other one when there are both a key and an IV for it.\<close>

definition create_enc_dec ::
  "'k mbedtls \<Rightarrow> string \<Rightarrow> string \<Rightarrow> string option \<Rightarrow> string option \<Rightarrow> ('k ctr \<times> 'k ctr) option" where
  "create_enc_dec mb key_c2d iv_c2d key_d2c iv_d2c =
     (case init_aes_ctr_state mb key_c2d iv_c2d of
        None \<Rightarrow> None
      | Some dec \<Rightarrow>
          (case (key_d2c, iv_d2c) of
             (Some k, Some i) \<Rightarrow> map_option (\<lambda>enc. (enc, dec)) (init_aes_ctr_state mb k i)
           | _ \<Rightarrow> map_option (\<lambda>enc. (enc, dec)) (init_aes_ctr_state mb key_c2d iv_c2d)))"

definition alloc_aes_ctr_state ::
  "('w, 'k, 'j, 'e) env_scheme \<Rightarrow> string \<Rightarrow> string \<Rightarrow> ('w, 'k, 'z, 'k ctr option) task" where
  "alloc_aes_ctr_state E key_b64 iv_b64 = do {
     ok \<leftarrow> rx (e_alloc E 1);
     ret (if ok then init_aes_ctr_state (e_mb E) key_b64 iv_b64 else None) }"

section \<open>What the primitives leave alone\<close>

text \<open>An operation that only talks to the outside: the world moves, the trace grows, nothing else
  changes.\<close>

definition io_step :: "('w, 'k, 'z) rtask_scheme \<Rightarrow> ('w, 'k, 'z) rtask_scheme \<Rightarrow> bool" where
  "io_step s s' \<longleftrightarrow> (\<exists>w tr d. s' = s\<lparr>t_world := w, t_trace := t_trace s @ tr, t_diverged := t_diverged s \<or> d\<rparr>)"

lemma io_stepI: "s' = s\<lparr>t_world := w, t_trace := t_trace s @ tr, t_diverged := t_diverged s \<or> d\<rparr> \<Longrightarrow> io_step s s'"
  unfolding io_step_def by blast

lemma io_step_preorder [io_rule]: "preorder_rel io_step"
proof (rule preorder_relI)
  fix s :: "('w, 'k, 'z) rtask_scheme"
  show "io_step s s" by (rule io_stepI [where w = "t_world s" and tr = "[]" and d = False]) simp
next
  fix s t u :: "('w, 'k, 'z) rtask_scheme"
  assume "io_step s t" "io_step t u"
  then obtain w tr d w' tr' d' where
    t: "t = s\<lparr>t_world := w, t_trace := t_trace s @ tr, t_diverged := t_diverged s \<or> d\<rparr>" and
    u: "u = t\<lparr>t_world := w', t_trace := t_trace t @ tr', t_diverged := t_diverged t \<or> d'\<rparr>"
    unfolding io_step_def by blast
  show "io_step s u" by (rule io_stepI [where w = w' and tr = "tr @ tr'" and d = "d \<or> d'"]) (simp add: t u)
qed

lemma io_stepD:
  assumes "io_step s s'"
  shows "t_subs s' = t_subs s" "t_relay s' = t_relay s" "t_pcb_count s' = t_pcb_count s"
    "t_oom_mode s' = t_oom_mode s" "t_ctrl s' = t_ctrl s" "t_ctrl_dec s' = t_ctrl_dec s"
    "t_ctrl_msg s' = t_ctrl_msg s" "t_idle_since s' = t_idle_since s" "t_ctrl_lost s' = t_ctrl_lost s"
    "t_ctrl_lost_since s' = t_ctrl_lost_since s" "t_activity s' = t_activity s"
    "\<exists>tr. t_trace s' = t_trace s @ tr" "t_diverged s \<Longrightarrow> t_diverged s'"
  using assms by (auto simp: io_step_def)

lemma io_step_rx [io_intro]: "state_io_rel io_step (rx f)"
  unfolding state_io_rel_post by (rule allI, rule_tac w = "snd (f (t_world s))" and tr = "[]" and d = False in io_stepI) simp

lemma io_step_rdo [io_intro]: "state_io_rel io_step (rdo f)"
  unfolding state_io_rel_post by (rule allI, rule_tac w = "f (t_world s)" and tr = "[]" and d = False in io_stepI) simp

lemma io_step_log [io_intro]: "state_io_rel io_step (log_io e)"
  unfolding state_io_rel_post by (rule allI, rule_tac w = "t_world s" and tr = "[e]" and d = False in io_stepI) simp

lemma io_step_diverge [io_intro]: "state_io_rel io_step (diverge x)"
  unfolding state_io_rel_post diverge_def
  by (rule allI, rule_tac w = "t_world s" and tr = "[]" and d = True in io_stepI) simp

lemma io_case_recv [io_rule]:
  "(\<And>bs. r = Got bs \<Longrightarrow> state_io_rel P (f bs)) \<Longrightarrow> (r = Read_error \<Longrightarrow> state_io_rel P m) \<Longrightarrow>
   state_io_rel P (case r of Got bs \<Rightarrow> f bs | Read_error \<Rightarrow> m)"
  by (cases r) auto

lemma io_case_send [io_rule]:
  "(\<And>n. r = Sent n \<Longrightarrow> state_io_rel P (f n)) \<Longrightarrow> (r = Send_again \<Longrightarrow> state_io_rel P m) \<Longrightarrow>
   (r = Send_error \<Longrightarrow> state_io_rel P m') \<Longrightarrow>
   state_io_rel P (case r of Sent n \<Rightarrow> f n | Send_again \<Rightarrow> m | Send_error \<Rightarrow> m')"
  by (cases r) auto

lemma io_step_prims [io_intro]:
  "state_io_rel io_step (millis E)" "state_io_rel io_step (task_delay E ms)"
  "state_io_rel io_step (sock_connect E h p)" "state_io_rel io_step (available E c)"
  "state_io_rel io_step (sock_read E c k)" "state_io_rel io_step (sock_print E c t)"
  "state_io_rel io_step (sock_stop E c)" "state_io_rel io_step (peer_closed E c)"
  "state_io_rel io_step (write_nb E c bs)"
  unfolding millis_def task_delay_def sock_connect_def available_def sock_read_def sock_print_def
    sock_stop_def peer_closed_def write_nb_def
  by (intro io_rule io_intro; assumption?)+

lemma available_res [simp]: "res (available E c) s = fst (e_available E c (t_world s))"
  by (simp add: available_def)

lemma millis_res [simp]: "res (millis E) s = fst (e_millis E (t_world s))"
  by (simp add: millis_def)

lemma millis_trace [simp]: "t_trace (post (millis E) s) = t_trace s"
  by (simp add: millis_def)

lemma io_step_write_all_loop [io_intro]: "state_io_rel io_step (write_all_loop fuel E c rest start tmo)"
proof (induction fuel arbitrary: rest start)
  case 0
  then show ?case by (auto intro!: io_rule io_intro)
next
  case (Suc fuel)
  then show ?case by (auto intro!: io_rule io_intro)
qed

lemma io_step_write_all [io_intro]: "state_io_rel io_step (write_all E c bs)"
  unfolding write_all_def by (intro io_rule io_intro)

end
