(* ===== verification/Example_Libs.thy ===== *)
theory Example_Libs
  imports External_Libs
begin

text \<open>
  Concrete instances of the library parameters, for the witnesses only: JSON values as a datatype
  with cJSON's accessors, and an RSA whose keys are texts and whose signature of a text is the
  text's own characters. No theorem about the program is stated over these instances alone.
\<close>

datatype json = JNull | JBool bool | JNum int | JStr string | JArr "json list" | JObj "(string \<times> json) list"

definition json_item :: "json \<Rightarrow> string \<Rightarrow> json option" where
  "json_item j n = (case j of JObj fs \<Rightarrow> map_of fs n | _ \<Rightarrow> None)"

definition example_cjson :: "(string \<Rightarrow> json option) \<Rightarrow> json cjson" where
  "example_cjson parse =
     \<lparr>cj_parse = parse, cj_parse_opts = parse, cj_item = json_item, cj_item_cs = json_item,
      cj_is_object = (\<lambda>j. case j of JObj _ \<Rightarrow> True | _ \<Rightarrow> False),
      cj_is_array = (\<lambda>j. case j of JArr _ \<Rightarrow> True | _ \<Rightarrow> False),
      cj_is_null = (\<lambda>j. case j of JNull \<Rightarrow> True | _ \<Rightarrow> False),
      cj_is_true = (\<lambda>j. case j of JBool b \<Rightarrow> b | _ \<Rightarrow> False),
      cj_string = (\<lambda>j. case j of JStr s \<Rightarrow> Some s | _ \<Rightarrow> None),
      cj_number = (\<lambda>j. case j of JNum k \<Rightarrow> Some (Fin (of_int k)) | _ \<Rightarrow> None),
      cj_elements = (\<lambda>j. case j of JArr xs \<Rightarrow> xs | _ \<Rightarrow> []),
      cj_mk_string = JStr, cj_mk_bool = JBool, cj_mk_array = JArr, cj_mk_object = JObj\<rparr>"

definition text_bytes :: "string \<Rightarrow> bytes" where
  "text_bytes s = map (\<lambda>c. word_of_nat (ch c)) s"

text \<open>A public key is the text \<open>K<n>\<close>, its modulus is the rest; a signature is valid when it is the
  text, cut or padded with ones to the modulus' length.\<close>

definition example_sig :: "rsa_key \<Rightarrow> string \<Rightarrow> bytes" where
  "example_sig k t = take (length (rk_n k)) (text_bytes t @ replicate (length (rk_n k)) 1)"

definition example_atchops :: atchops where
  "example_atchops =
     \<lparr>rsa_populate_public = (\<lambda>s. if starts_with ''K'' s then Some \<lparr>rk_n = text_bytes (drop 1 s), rk_rest = []\<rparr> else None),
      rsa_populate_private = (\<lambda>s. if starts_with ''K'' s then Some \<lparr>rk_n = text_bytes (drop 1 s), rk_rest = []\<rparr> else None),
      rsa_verify = (\<lambda>k _ t sig. sig = example_sig k t),
      rsa_sign = (\<lambda>k _ t. Some (example_sig k t)),
      base64_decode = (\<lambda>s n. if length s \<le> n then Some (text_bytes s) else None),
      base64_encode = (\<lambda>b n. Some (map (\<lambda>w. char_of (unat w)) b)),
      sha256 = (\<lambda>b. Some b)\<rparr>"

end
