(* ===== verification/Example_Env.thy ===== *)
theory Example_Env
  imports Platform Example_Libs
begin

text \<open>
  A concrete environment for the witnesses: a clock that delays move on, and for each open socket
  the bytes waiting to be read. Sends are accepted whole, memory is never short, the cipher
  complements every byte.
\<close>

record ex_world =
  xw_clock :: u32
  xw_input :: "(int \<times> bytes) list"

definition xw_waiting :: "ex_world \<Rightarrow> sock \<Rightarrow> bytes" where
  "xw_waiting w c = (case c of None \<Rightarrow> [] | Some fd \<Rightarrow> (case map_of (xw_input w) fd of None \<Rightarrow> [] | Some bs \<Rightarrow> bs))"

definition xw_set :: "int \<Rightarrow> bytes \<Rightarrow> ex_world \<Rightarrow> ex_world" where
  "xw_set fd bs w = w\<lparr>xw_input := (fd, bs) # filter (\<lambda>x. fst x \<noteq> fd) (xw_input w)\<rparr>"

definition example_mb :: "bytes mbedtls" where
  "example_mb =
     \<lparr>mb_base64_encode = (\<lambda>bs n. if length bs < n then Some (map byte_char bs) else None),
      mb_base64_decode = (\<lambda>s n. if length s \<le> n then Some (str_bytes s) else None),
      mb_init_ctx = [],
      mb_setkey_enc = Some,
      mb_crypt_ctr = (\<lambda>st bs. (st\<lparr>ctr_nc_off := (ctr_nc_off st + length bs) mod 16\<rparr>, map (\<lambda>b. 255 - b) bs))\<rparr>"

definition example_env :: "(ex_world, bytes, json) env" where
  "example_env =
     \<lparr>e_millis = (\<lambda>w. (xw_clock w, w)),
      e_now_ms = (\<lambda>w. (int (unat (xw_clock w)), w)),
      e_free_heap = (\<lambda>w. (100000, w)),
      e_largest_block = (\<lambda>w. (100000, w)),
      e_random = (\<lambda>w. (4, w)),
      e_alloc = (\<lambda>_ w. (True, w)),
      e_delay = (\<lambda>t w. w\<lparr>xw_clock := xw_clock w + t\<rparr>),
      e_connect = (\<lambda>_ _ w. let fd = 10 + int (length (xw_input w)) in (Some fd, w\<lparr>xw_input := (fd, []) # xw_input w\<rparr>)),
      e_connected = (\<lambda>c w. (c \<noteq> None, w)),
      e_available = (\<lambda>c w. (xw_waiting w c \<noteq> [], w)),
      e_read = (\<lambda>c n w. (Got (take n (xw_waiting w c)),
         case c of None \<Rightarrow> w | Some fd \<Rightarrow> xw_set fd (drop n (xw_waiting w c)) w)),
      e_peek = (\<lambda>fd w. (if xw_waiting w (Some fd) = [] then Peek_again else Peek_data, w)),
      e_send = (\<lambda>fd bs w. (Sent (length bs), w)),
      e_print = (\<lambda>_ _ w. w),
      e_stop = (\<lambda>_ w. w),
      e_should_run = (\<lambda>w. (True, w)),
      e_mb = example_mb,
      e_ops = example_atchops,
      e_cj = example_cjson (\<lambda>_. None),
      e_print_json = (\<lambda>j. case j of JStr s \<Rightarrow> s | _ \<Rightarrow> ''json''),
      e_fuel = 8\<rparr>"


end
