(* ===== verification/Example_Relay.thy ===== *)
theory Example_Relay
  imports Relay_Types Example_Env
begin

text \<open>A relay task with one encrypted sub-connection in the example environment, for the witnesses.\<close>

definition example_sub :: "bytes sub" where
  "example_sub = zero_sub\<lparr>sb_rvd := Some 3, sb_local := Some 4, sb_active := True, sb_encrypted := True,
     sb_enc_state := Some \<lparr>ctr_ctx = [1], ctr_nonce_counter = [], ctr_stream_block = [], ctr_nc_off = 0\<rparr>,
     sb_dec_state := Some \<lparr>ctr_ctx = [2], ctr_nonce_counter = [], ctr_stream_block = [], ctr_nc_off = 0\<rparr>\<rparr>"

definition example_relay :: "bytes relay" where
  "example_relay = \<lparr>rl_config = noports_relay_config_init, rl_state = RELAY_RUNNING, rl_task_handle = Some 1,
     rl_rvd_client = None, rl_local_client = None, rl_should_run = True, rl_bytes_in = 0, rl_bytes_out = 0,
     rl_start_ms = 0, rl_active_sessions = 0, rl_encrypter = None, rl_decrypter = None\<rparr>"

definition example_task :: "(ex_world, bytes) rtask" where
  "example_task = \<lparr>t_world = \<lparr>xw_clock = 5, xw_input = [(3, [7, 8]), (4, [9])]\<rparr>, t_trace = [], t_diverged = False,
     t_pcb_count = 3, t_oom_mode = False, t_busy_ms = 0, t_total_ms = 0, t_cpu_win_ms = 0, t_cpu_pct = 0,
     t_relay = example_relay, t_subs = [example_sub], t_ctrl = Some 2, t_ctrl_dec = None, t_ctrl_msg = [],
     t_idle_since = 0, t_ctrl_lost = False, t_ctrl_lost_since = 0, t_activity = False\<rparr>"

lemma example_ctr_length: "ctr_length (e_mb example_env)"
  by (simp add: ctr_length_def example_env_def example_mb_def)

end
