(* ===== verification/Relay_Escr.thy ===== *)
theory Relay_Escr
  imports Example_Relay
begin

text \<open>
  \<open>_escr_authenticate\<close>: the encrypted signed challenge-response with the rendezvous server. Each
  step of the C function that can fail is one of the definitions below, in its order; \<open>None\<close> and
  \<open>False\<close> are its \<open>goto escr_cleanup\<close>.
\<close>

section \<open>The steps\<close>

text \<open>Reading a newline-terminated line of at most \<open>limit\<close> bytes within five seconds.\<close>

fun poll_line ::
  "nat \<Rightarrow> ('w, 'k, 'j, 'e) env_scheme \<Rightarrow> sock \<Rightarrow> u32 \<Rightarrow> nat \<Rightarrow> bytes \<Rightarrow> ('w, 'k, 'z, bytes) task" where
  "poll_line 0 E c t0 limit acc = do {
     now \<leftarrow> millis E;
     if now - t0 < 5000 \<and> length acc < limit then diverge acc else ret acc }"
| "poll_line (Suc fuel) E c t0 limit acc = do {
     now \<leftarrow> millis E;
     if now - t0 < 5000 \<and> length acc < limit then do {
       r \<leftarrow> sock_read E c 1;
       case r of
         Got [b] \<Rightarrow> if b = 10 then ret acc else poll_line fuel E c t0 limit (acc @ [b])
       | _ \<Rightarrow> do { task_delay E 1; poll_line fuel E c t0 limit acc } }
     else ret acc }"

definition mem_ok :: "('w, 'k, 'j, 'e) env_scheme \<Rightarrow> nat \<Rightarrow> ('w, 'k, 'z, bool) task" where
  "mem_ok E n = rx (e_alloc E n)"

text \<open>\<open>cJSON_AddStringToObject\<close>, whose result the code does not check: without memory, or for a NULL
  string, the field is left out.\<close>

definition add_string ::
  "('w, 'k, 'j, 'e) env_scheme \<Rightarrow> (string \<times> 'j) list \<Rightarrow> string \<Rightarrow> string option \<Rightarrow>
   ('w, 'k, 'z, (string \<times> 'j) list) task" where
  "add_string E flds name v = do {
     ok \<leftarrow> mem_ok E 1;
     ret (case v of Some s \<Rightarrow> if ok then flds @ [(name, cj_mk_string (e_cj E) s)] else flds
                  | None \<Rightarrow> flds) }"

definition print_fields ::
  "('w, 'k, 'j, 'e) env_scheme \<Rightarrow> (string \<times> 'j) list \<Rightarrow> ('w, 'k, 'z, string option) task" where
  "print_fields E flds = do {
     ok \<leftarrow> mem_ok E 1;
     ret (if ok then Some (e_print_json E (cj_mk_object (e_cj E) flds)) else None) }"

text \<open>Step 2: the inner payload \<open>{"sid", "c", "side"}\<close>.\<close>

definition escr_inner ::
  "('w, 'k, 'j, 'e) env_scheme \<Rightarrow> string \<Rightarrow> string \<Rightarrow> ('w, 'k, 'z, string option) task" where
  "escr_inner E session_id challenge = do {
     ok \<leftarrow> mem_ok E 1;
     if \<not> ok then ret None
     else do {
       f1 \<leftarrow> add_string E [] ''sid'' (Some session_id);
       f2 \<leftarrow> add_string E f1 ''c'' (Some challenge);
       f3 \<leftarrow> add_string E f2 ''side'' (Some ''b'');
       print_fields E f3 } }"

text \<open>Steps 3 and 4: the signature over it, 256 bytes, in Base64.\<close>

definition escr_signature ::
  "('w, 'k, 'j, 'e) env_scheme \<Rightarrow> rsa_key \<Rightarrow> string \<Rightarrow> ('w, 'k, 'z, string option) task" where
  "escr_signature E key p_json = do {
     ok \<leftarrow> mem_ok E 256;
     if \<not> ok then ret None
     else case rsa_sign (e_ops E) key MD_SHA256 p_json of
         None \<Rightarrow> ret None
       | Some sig \<Rightarrow> do {
           ok2 \<leftarrow> mem_ok E 352;
           ret (if ok2 then mb_base64_encode (e_mb E) (take 256 (sig @ replicate 256 0)) 352 else None) } }"

text \<open>Steps 5 and 6: the signed envelope in Base64.\<close>

definition escr_envelope ::
  "('w, 'k, 'j, 'e) env_scheme \<Rightarrow> string option \<Rightarrow> string \<Rightarrow> string \<Rightarrow> ('w, 'k, 'z, string option) task" where
  "escr_envelope E uri p_json sig_b64 =
     (case cj_parse (e_cj E) p_json of
        None \<Rightarrow> ret None
      | Some p \<Rightarrow> do {
          ok \<leftarrow> mem_ok E 1;
          if \<not> ok then ret None
          else do {
            f1 \<leftarrow> add_string E [(''p'', p)] ''s'' (Some sig_b64);
            f2 \<leftarrow> add_string E f1 ''ha'' (Some ''sha256'');
            f3 \<leftarrow> add_string E f2 ''sa'' (Some ''rsa2048'');
            f4 \<leftarrow> add_string E f3 ''sk'' uri;
            env_json \<leftarrow> print_fields E f4;
            case env_json of
              None \<Rightarrow> ret None
            | Some env \<Rightarrow> do {
                let env64_max = (length env div 3 + 2) * 4 + 4;
                ok2 \<leftarrow> mem_ok E env64_max;
                ret (if ok2 then mb_base64_encode (e_mb E) (str_bytes env) env64_max else None) } } })"

text \<open>Steps 7 to 10: padding and encryption under the relay's key and a random IV.\<close>

definition pkcs7_pad :: "bytes \<Rightarrow> bytes" where
  "pkcs7_pad bs = (let pad_byte = 16 - length bs mod 16 in bs @ replicate pad_byte (word_of_nat pad_byte))"

definition le_bytes :: "u32 \<Rightarrow> bytes" where
  "le_bytes w = [ucast w, ucast (drop_bit 8 w), ucast (drop_bit 16 w), ucast (drop_bit 24 w)]"

definition random_iv :: "('w, 'k, 'j, 'e) env_scheme \<Rightarrow> ('w, 'k, 'z, bytes) task" where
  "random_iv E = do {
     a \<leftarrow> rx (e_random E); b \<leftarrow> rx (e_random E); c \<leftarrow> rx (e_random E); d \<leftarrow> rx (e_random E);
     ret (le_bytes a @ le_bytes b @ le_bytes c @ le_bytes d) }"

definition ctr_once :: "'k mbedtls \<Rightarrow> bytes \<Rightarrow> bytes \<Rightarrow> bytes \<Rightarrow> bytes" where
  "ctr_once mb aes_key iv bs =
     snd (mb_crypt_ctr mb
       \<lparr>ctr_ctx = (case mb_setkey_enc mb aes_key of Some ctx \<Rightarrow> ctx | None \<Rightarrow> mb_init_ctx mb),
        ctr_nonce_counter = iv, ctr_stream_block = replicate 16 0, ctr_nc_off = 0\<rparr> bs)"

definition escr_encrypt ::
  "('w, 'k, 'j, 'e) env_scheme \<Rightarrow> string \<Rightarrow> string \<Rightarrow> ('w, 'k, 'z, (string \<times> string) option) task" where
  "escr_encrypt E relay_auth_aes_key env64 =
     (case mb_base64_decode (e_mb E) relay_auth_aes_key 32 of
        None \<Rightarrow> ret None
      | Some aes_key \<Rightarrow>
          if length aes_key \<noteq> 32 then ret None
          else do {
            iv \<leftarrow> random_iv E;
            let padded = pkcs7_pad (str_bytes env64);
            ok \<leftarrow> mem_ok E (length padded);
            ok2 \<leftarrow> (if ok then mem_ok E (length padded) else ret False);
            if \<not> ok2 then ret None
            else case mb_base64_encode (e_mb E) iv 32 of
                None \<Rightarrow> ret None
              | Some iv_b64 \<Rightarrow> do {
                  let enc_b64_max = (length padded div 3 + 2) * 4 + 4;
                  ok3 \<leftarrow> mem_ok E enc_b64_max;
                  ret (if ok3 then
                         map_option (\<lambda>e. (iv_b64, e))
                           (mb_base64_encode (e_mb E) (ctr_once (e_mb E) aes_key iv padded) enc_b64_max)
                       else None) } })"

text \<open>Steps 11 and 12: the outer object \<open>{"iv", "e"}\<close> in Base64.\<close>

definition escr_outer ::
  "('w, 'k, 'j, 'e) env_scheme \<Rightarrow> string \<Rightarrow> string \<Rightarrow> ('w, 'k, 'z, string option) task" where
  "escr_outer E iv_b64 enc_b64 = do {
     ok \<leftarrow> mem_ok E 1;
     if \<not> ok then ret None
     else do {
       f1 \<leftarrow> add_string E [] ''iv'' (Some iv_b64);
       f2 \<leftarrow> add_string E f1 ''e'' (Some enc_b64);
       outer_json \<leftarrow> print_fields E f2;
       case outer_json of
         None \<Rightarrow> ret None
       | Some outer \<Rightarrow> do {
           let max64 = (length outer div 3 + 2) * 4 + 4;
           ok2 \<leftarrow> mem_ok E max64;
           ret (if ok2 then mb_base64_encode (e_mb E) (str_bytes outer) max64 else None) } } }"

text \<open>Steps 2 to 12.\<close>

definition escr_payload ::
  "('w, 'k, 'j, 'e) env_scheme \<Rightarrow> relay_config \<Rightarrow> rsa_key \<Rightarrow> string \<Rightarrow> string \<Rightarrow>
   ('w, 'k, 'z, string option) task" where
  "escr_payload E cfg key relay_auth_aes_key challenge = do {
     p_json \<leftarrow> escr_inner E (rc_session_id cfg) challenge;
     case p_json of None \<Rightarrow> ret None | Some p_json \<Rightarrow> do {
     sig_b64 \<leftarrow> escr_signature E key p_json;
     case sig_b64 of None \<Rightarrow> ret None | Some sig_b64 \<Rightarrow> do {
     env64 \<leftarrow> escr_envelope E (rc_escr_signing_key_uri cfg) p_json sig_b64;
     case env64 of None \<Rightarrow> ret None | Some env64 \<Rightarrow> do {
     enc \<leftarrow> escr_encrypt E relay_auth_aes_key env64;
     case enc of None \<Rightarrow> ret None | Some (iv_b64, enc_b64) \<Rightarrow> escr_outer E iv_b64 enc_b64 } } } }"

section \<open>The exchange\<close>

text \<open>Steps 13 and 14: the answer line, and the verdict.\<close>

definition escr_send ::
  "('w, 'k, 'j, 'e) env_scheme \<Rightarrow> sock \<Rightarrow> string \<Rightarrow> string \<Rightarrow> ('w, 'k, 'z, unit) task" where
  "escr_send E c session_id auth_payload64 = do {
     sock_print E c session_id;
     sock_print E c '':'';
     sock_print E c auth_payload64;
     sock_print E c [CHR 0x0A] }"

definition escr_verdict :: "('w, 'k, 'j, 'e) env_scheme \<Rightarrow> sock \<Rightarrow> ('w, 'k, 'z, bool) task" where
  "escr_verdict E c = do {
     t0 \<leftarrow> millis E;
     response \<leftarrow> poll_line (e_fuel E) E c t0 15 [];
     ret (c_string response = ''ok'') }"

definition escr_challenge :: "('w, 'k, 'j, 'e) env_scheme \<Rightarrow> sock \<Rightarrow> ('w, 'k, 'z, bytes) task" where
  "escr_challenge E c = do { t0 \<leftarrow> millis E; poll_line (e_fuel E) E c t0 63 [] }"

definition escr_authenticate ::
  "('w, 'k, 'j, 'e) env_scheme \<Rightarrow> sock \<Rightarrow> relay_config \<Rightarrow> rsa_key \<Rightarrow> string \<Rightarrow> ('w, 'k, 'z, bool) task" where
  "escr_authenticate E c cfg key relay_auth_aes_key = do {
     challenge \<leftarrow> escr_challenge E c;
     if challenge = [] then ret False
     else do {
       payload \<leftarrow> escr_payload E cfg key relay_auth_aes_key (c_string challenge);
       case payload of
         None \<Rightarrow> ret False
       | Some auth_payload64 \<Rightarrow> do {
           escr_send E c (rc_session_id cfg) auth_payload64;
           escr_verdict E c } } }"

text \<open>The guard in front of every use of ESCR, and what is sent otherwise; \<open>True\<close> unless ESCR fails.\<close>

definition sock_auth ::
  "('w, 'k, 'j, 'e) env_scheme \<Rightarrow> sock \<Rightarrow> relay_config \<Rightarrow> ('w, 'k, 'z, unit) task \<Rightarrow> ('w, 'k, 'z, bool) task" where
  "sock_auth E c cfg on_auth =
     (case (rc_escr_auth cfg, rc_escr_signing_key cfg, rc_relay_auth_aes_key cfg) of
        (True, Some key, Some aes) \<Rightarrow> do { on_auth; escr_authenticate E c cfg key aes }
      | _ \<Rightarrow>
          (case (rc_rv_auth cfg, rc_rvd_auth_string cfg) of
             (True, Some auth) \<Rightarrow> do { on_auth; sock_print E c auth; sock_print E c [CHR 0x0A]; ret True }
           | _ \<Rightarrow> ret True))"

section \<open>Facts\<close>

lemma io_step_poll_line [io_intro]: "state_io_rel io_step (poll_line fuel E c t0 limit acc)"
proof (induction fuel arbitrary: acc)
  case 0
  then show ?case by (auto intro!: io_rule io_intro)
next
  case (Suc fuel)
  then show ?case by (auto intro!: io_rule io_intro)
qed

lemma io_step_mem_ok [io_intro]: "state_io_rel io_step (mem_ok E n)"
  unfolding mem_ok_def by (rule io_step_rx)

lemma io_step_add_string [io_intro]: "state_io_rel io_step (add_string E f n v)"
  unfolding add_string_def by (intro io_rule io_intro)

lemma io_step_print_fields [io_intro]: "state_io_rel io_step (print_fields E f)"
  unfolding print_fields_def by (intro io_rule io_intro)

lemma io_step_escr_parts [io_intro]:
  "state_io_rel io_step (escr_inner E sid c)"
  "state_io_rel io_step (escr_signature E key p)"
  "state_io_rel io_step (escr_envelope E uri p sg)"
  "state_io_rel io_step (escr_encrypt E k env64)"
  "state_io_rel io_step (escr_outer E a b)"
  unfolding escr_inner_def escr_signature_def escr_envelope_def escr_encrypt_def escr_outer_def random_iv_def Let_def
  by (intro io_rule io_intro)+

lemma io_step_escr_payload [io_intro]: "state_io_rel io_step (escr_payload E cfg key aes c)"
  unfolding escr_payload_def by (intro io_rule io_intro)

lemma io_step_escr_authenticate [io_intro]: "state_io_rel io_step (escr_authenticate E c cfg key aes)"
  unfolding escr_authenticate_def escr_challenge_def escr_send_def escr_verdict_def by (intro io_rule io_intro)

subsection \<open>What is read and sent\<close>

text \<open>The bytes a poll reads, one event each; empty reads leave nothing behind in the line.\<close>

lemma c_string_Nil [simp]: "c_string [] = []"
  by (simp add: c_string_def)

text \<open>The events of reading one line from a connection.\<close>

definition reads_line :: "sock \<Rightarrow> io list \<Rightarrow> bytes \<Rightarrow> bool" where
  "reads_line c tr line \<longleftrightarrow> (\<exists>bss. tr = map (Io_read c) bss \<and> (concat bss = line \<or> concat bss = line @ [10])) \<and> 10 \<notin> set line"

lemma reads_line_more:
  "reads_line c tr line \<Longrightarrow> bs = [] \<or> (\<exists>b. bs = [b] \<and> b \<noteq> 10) \<Longrightarrow> reads_line c (Io_read c bs # tr) (bs @ line)"
  unfolding reads_line_def
  by (elim exE conjE disjE; simp; rule_tac x = "bs # bss" in exI; auto)

lemma poll_line_Suc:
  fixes s :: "('w, 'k, 'z) rtask_scheme" and E :: "('w, 'k, 'j, 'e) env_scheme" and c :: sock and acc :: bytes
    and fuel limit :: nat and t0 :: u32
  defines "s1 \<equiv> post (millis E) s"
  defines "s2 \<equiv> post (sock_read E c 1) s1"
  defines "further \<equiv> case res (sock_read E c 1) s1 of
      Got [b] \<Rightarrow> if b = 10 then ret acc else poll_line fuel E c t0 limit (acc @ [b])
    | _ \<Rightarrow> do { task_delay E 1; poll_line fuel E c t0 limit acc }"
  defines "go \<equiv> res (millis E) s - t0 < 5000 \<and> length acc < limit"
  shows "post (poll_line (Suc fuel) E c t0 limit acc) s = (if go then post further s2 else s1)"
    and "res (poll_line (Suc fuel) E c t0 limit acc) s = (if go then res further s2 else acc)"
  unfolding assms
  by (simp_all only: poll_line.simps post_simps res_simps if_distrib [of "\<lambda>m. post m _"] if_distrib [of "\<lambda>m. res m _"])

lemma poll_line_reads:
  fixes s :: "('w, 'k, 'z) rtask_scheme"
  assumes "io_bounds E"
  shows "\<exists>tr line. t_trace (post (poll_line fuel E c t0 limit acc) s) = t_trace s @ tr \<and>
     res (poll_line fuel E c t0 limit acc) s = acc @ line \<and> reads_line c tr line \<and> length line \<le> limit - length acc"
proof (induction fuel arbitrary: acc s)
  case 0
  have "reads_line c [] []" by (simp add: reads_line_def)
  then show ?case by (simp add: millis_def diverge_def)
next
  case (Suc fuel)
  define s1 where "s1 = post (millis E) s"
  define r where "r = res (sock_read E c 1) s1"
  define s2 where "s2 = post (sock_read E c 1) s1"
  have t1: "t_trace s1 = t_trace s" by (simp add: s1_def)
  have t2: "t_trace s2 = t_trace s @ (case r of Got bs \<Rightarrow> [Io_read c bs] | Read_error \<Rightarrow> [])"
    by (simp add: s2_def r_def sock_read_def t1 split: recv.splits)
  have "fst (e_read E c 1 (t_world s1)) = r" by (simp add: r_def sock_read_def split: recv.splits)
  then have le: "length bs \<le> 1" if "r = Got bs" for bs
    using assms that unfolding io_bounds_def by (metis prod.collapse)
  have nil: "reads_line c [] []" by (simp add: reads_line_def)
  define go where "go \<longleftrightarrow> res (millis E) s - t0 < 5000 \<and> length acc < limit"
  note eqs = poll_line_Suc [of fuel E c t0 limit acc s, folded s1_def, folded s2_def r_def, folded go_def]
  show ?case
  proof (cases "go")
    case False
    then show ?thesis using nil by (auto simp: eqs t1 simp del: poll_line.simps)
  next
    case True
    then have lt: "length acc < limit" by (simp add: go_def)
    show ?thesis
    proof (cases "\<exists>b. r = Got [b]")
      case True
      then obtain b where r: "r = Got [b]" by blast
      show ?thesis
      proof (cases "b = 10")
        case True
        have "reads_line c [Io_read c [10]] []" by (auto simp: reads_line_def intro!: exI [of _ "[[10]]"])
        with True r \<open>go\<close> t2 show ?thesis by (auto simp: eqs simp del: poll_line.simps)
      next
        case False
        obtain tr line where "t_trace (post (poll_line fuel E c t0 limit (acc @ [b])) s2) = t_trace s2 @ tr"
          "res (poll_line fuel E c t0 limit (acc @ [b])) s2 = (acc @ [b]) @ line" "reads_line c tr line"
          "length line \<le> limit - length (acc @ [b])"
          using Suc.IH [of "acc @ [b]" s2] by (elim exE conjE) (rule that)
        moreover from this(3) False have "reads_line c (Io_read c [b] # tr) ([b] @ line)"
          by (intro reads_line_more) auto
        ultimately show ?thesis using False r \<open>go\<close> t2 lt
          by (intro exI [of _ "Io_read c [b] # tr"] exI [of _ "[b] @ line"]) (simp add: eqs del: poll_line.simps)
      qed
    next
      case False
      define s3 where "s3 = post (task_delay E 1) s2"
      have t3: "t_trace s3 = t_trace s2" by (simp add: s3_def task_delay_def)
      obtain tr line where IH: "t_trace (post (poll_line fuel E c t0 limit acc) s3) = t_trace s3 @ tr"
        "res (poll_line fuel E c t0 limit acc) s3 = acc @ line" "reads_line c tr line" "length line \<le> limit - length acc"
        using Suc.IH [of acc s3] by (elim exE conjE) (rule that)
      have b: "post (poll_line (Suc fuel) E c t0 limit acc) s = post (poll_line fuel E c t0 limit acc) s3"
        "res (poll_line (Suc fuel) E c t0 limit acc) s = res (poll_line fuel E c t0 limit acc) s3"
        using False \<open>go\<close> by (auto simp: eqs s3_def simp del: poll_line.simps split: recv.splits list.splits)
      show ?thesis
      proof (cases r)
        case Read_error
        with IH t3 t2 show ?thesis by (auto simp: b simp del: poll_line.simps)
      next
        case (Got bs)
        then have "bs = []" using False le by (cases bs) auto
        then have "reads_line c (Io_read c [] # tr) ([] @ line)" using IH(3) by (intro reads_line_more) auto
        with IH t3 t2 Got \<open>bs = []\<close> show ?thesis
          by (intro exI [of _ "Io_read c [] # tr"] exI [of _ line]) (simp add: b del: poll_line.simps)
      qed
    qed
  qed
qed

text \<open>Building the answer sends nothing.\<close>

definition silent :: "('w, 'k, 'z) rtask_scheme \<Rightarrow> ('w, 'k, 'z) rtask_scheme \<Rightarrow> bool" where
  "silent s s' \<longleftrightarrow> t_trace s' = t_trace s"

lemma silent_preorder [io_rule]: "preorder_rel silent"
  by (rule preorder_relI) (auto simp: silent_def)

lemma silent_rx: "state_io_rel silent (rx f)"
  by (simp add: state_io_rel_post silent_def)

lemma silent_escr_payload: "state_io_rel silent (escr_payload E cfg key aes c)"
  unfolding escr_payload_def escr_inner_def escr_signature_def escr_envelope_def escr_encrypt_def escr_outer_def
    random_iv_def Let_def add_string_def print_fields_def mem_ok_def
  by (intro io_rule silent_rx)

lemma escr_payload_trace: "t_trace (post (escr_payload E cfg key aes c) s) = t_trace s"
  using io_relD [OF silent_escr_payload] by (simp add: silent_def)

subsection \<open>Padding and encryption can be undone\<close>

definition pkcs7_unpad :: "bytes \<Rightarrow> bytes option" where
  "pkcs7_unpad bs =
     (if bs = [] then None
      else let p = unat (last bs) in
        if 1 \<le> p \<and> p \<le> 16 \<and> p \<le> length bs then Some (take (length bs - p) bs) else None)"

lemma pkcs7_length: "length (pkcs7_pad bs) mod 16 = 0 \<and> length (pkcs7_pad bs) > length bs \<and>
    length (pkcs7_pad bs) \<le> length bs + 16"
proof -
  define q r where "q = length bs div 16" and "r = length bs mod 16"
  have l: "length bs = 16 * q + r" "r < 16" by (simp_all add: q_def r_def)
  then have "length (pkcs7_pad bs) = 16 * (q + 1)" by (simp add: pkcs7_pad_def Let_def)
  with l show ?thesis by simp
qed

lemma pkcs7_unpad_pad: "pkcs7_unpad (pkcs7_pad bs) = Some bs"
proof -
  define p where "p = 16 - length bs mod 16"
  have p: "1 \<le> p" "p \<le> 16" by (simp_all add: p_def Suc_le_eq)
  then have r: "replicate p (word_of_nat p :: u8) \<noteq> []" by simp
  have u: "unat (word_of_nat p :: u8) = p" using p by (simp add: unat_of_nat)
  have "last (pkcs7_pad bs) = word_of_nat p" using r p by (simp add: pkcs7_pad_def Let_def p_def [symmetric])
  then show ?thesis using p r u by (simp add: pkcs7_unpad_def pkcs7_pad_def Let_def p_def [symmetric])
qed

text \<open>What the documentation of mbedTLS says of its Base64 and of AES-CTR.\<close>

definition base64_inverse :: "'k mbedtls \<Rightarrow> bool" where
  "base64_inverse mb \<longleftrightarrow>
     (\<forall>bs n s. mb_base64_encode mb bs n = Some s \<longrightarrow> mb_base64_decode mb s (length bs) = Some bs)"

definition ctr_involution :: "'k mbedtls \<Rightarrow> bool" where
  "ctr_involution mb \<longleftrightarrow> (\<forall>k iv bs. ctr_once mb k iv (ctr_once mb k iv bs) = bs)"

section \<open>Properties\<close>

text \<open>C10: the rendezvous server can undo what \<open>_escr_authenticate\<close> encrypts. Whatever the step of
  padding, encrypting and encoding returns, decoding it with the shared key, decrypting with the IV
  sent along and removing the PKCS#7 padding gives the signed envelope back, given that Base64
  decoding inverts encoding and that AES-CTR is its own inverse.\<close>
theorem escr_encrypt_roundtrip:
  assumes "base64_inverse (e_mb E)" "ctr_involution (e_mb E)"
    and "res (escr_encrypt E aes_b64 env64) s = Some (iv_b64, e_b64)"
  shows "\<exists>key iv ct. mb_base64_decode (e_mb E) aes_b64 32 = Some key \<and> length key = 32 \<and>
    mb_base64_decode (e_mb E) iv_b64 16 = Some iv \<and> mb_base64_decode (e_mb E) e_b64 (length ct) = Some ct \<and>
    pkcs7_unpad (ctr_once (e_mb E) key iv ct) = Some (str_bytes env64)"
proof -
  obtain key where key: "mb_base64_decode (e_mb E) aes_b64 32 = Some key" "length key = 32"
    using assms(3) by (auto simp: escr_encrypt_def split: option.splits if_splits)
  define iv where "iv = res (random_iv E) s"
  have liv: "length iv = 16" by (simp add: iv_def random_iv_def le_bytes_def)
  let ?ct = "ctr_once (e_mb E) key iv (pkcs7_pad (str_bytes env64))"
  from assms(3) key obtain n where iv64: "mb_base64_encode (e_mb E) iv 32 = Some iv_b64"
    and ct64: "mb_base64_encode (e_mb E) ?ct n = Some e_b64"
    by (auto simp: escr_encrypt_def Let_def iv_def split: option.splits if_splits)
  have "mb_base64_decode (e_mb E) iv_b64 16 = Some iv"
    using assms(1) iv64 liv unfolding base64_inverse_def by metis
  moreover have "mb_base64_decode (e_mb E) e_b64 (length ?ct) = Some ?ct"
    using assms(1) ct64 unfolding base64_inverse_def by metis
  moreover have "pkcs7_unpad (ctr_once (e_mb E) key iv ?ct) = Some (str_bytes env64)"
    using assms(2) pkcs7_unpad_pad unfolding ctr_involution_def by simp
  ultimately show ?thesis using key by blast
qed

definition example_key64 :: string where
  "example_key64 = replicate 32 (CHR ''k'')"

lemma escr_encrypt_roundtrip_witness:
  "\<exists>key iv ct iv_b64 e_b64. res (escr_encrypt example_env example_key64 ''env'') example_task = Some (iv_b64, e_b64) \<and>
    mb_base64_decode (e_mb example_env) example_key64 32 = Some key \<and> length key = 32 \<and>
    mb_base64_decode (e_mb example_env) iv_b64 16 = Some iv \<and>
    mb_base64_decode (e_mb example_env) e_b64 (length ct) = Some ct \<and>
    pkcs7_unpad (ctr_once (e_mb example_env) key iv ct) = Some (str_bytes ''env'')"
proof -
  have b: "base64_inverse (e_mb example_env)"
    by (auto simp: base64_inverse_def example_env_def example_mb_def str_bytes_def comp_def split: if_splits)
  have c: "ctr_involution (e_mb example_env)"
    by (simp add: ctr_involution_def ctr_once_def example_env_def example_mb_def comp_def)
  have "res (escr_encrypt example_env example_key64 ''env'') example_task \<noteq> None" by code_simp
  then obtain iv_b64 e_b64 where r: "res (escr_encrypt example_env example_key64 ''env'') example_task = Some (iv_b64, e_b64)"
    by auto
  from escr_encrypt_roundtrip [OF b c r] r show ?thesis by metis
qed

text \<open>C9: \<open>_escr_authenticate\<close> succeeds only after the whole exchange. What it did on the connection is:
  read a challenge line that is not empty and at most 63 bytes long, print one answer line
  \<open><sessionId>:<payload>\<close> whose payload was built for that very challenge, and read a line that is
  \<open>ok\<close>. Nothing else is sent, and nothing before the challenge has been read.\<close>
theorem escr_authenticated_exchange:
  fixes s :: "('w, 'k, 'z) rtask_scheme"
  assumes "io_bounds E" "res (escr_authenticate E c cfg key aes) s"
  shows "\<exists>before after challenge payload verdict (s1 :: ('w, 'k, 'z) rtask_scheme).
    t_trace (post (escr_authenticate E c cfg key aes) s) = t_trace s @ before @
      [Io_print c (rc_session_id cfg), Io_print c '':'', Io_print c payload, Io_print c [CHR 0x0A]] @ after \<and>
    reads_line c before challenge \<and> challenge \<noteq> [] \<and> length challenge \<le> 63 \<and>
    res (escr_payload E cfg key aes (c_string challenge)) s1 = Some payload \<and>
    reads_line c after verdict \<and> c_string verdict = ''ok''"
proof -
  define challenge where "challenge = res (escr_challenge E c) s"
  define sb where "sb = post (escr_challenge E c) s"
  define sc where "sc = post (escr_payload E cfg key aes (c_string challenge)) sb"
  obtain payload where nonempty: "challenge \<noteq> []"
    and pay: "res (escr_payload E cfg key aes (c_string challenge)) sb = Some payload"
    using assms(2) by (auto simp: escr_authenticate_def challenge_def sb_def split: if_splits option.splits)
  define sd where "sd = post (escr_send E c (rc_session_id cfg) payload) sc"
  have fin: "post (escr_authenticate E c cfg key aes) s = post (escr_verdict E c) sd"
    and ok: "res (escr_verdict E c) sd"
    using assms(2) nonempty pay
    by (simp_all add: escr_authenticate_def challenge_def [symmetric] sb_def [symmetric] sc_def [symmetric] sd_def [symmetric])
  obtain tr1 line1 where t1: "t_trace sb = t_trace s @ tr1" "challenge = line1" "reads_line c tr1 line1" "length line1 \<le> 63"
    using poll_line_reads [OF assms(1), of "e_fuel E" c "res (millis E) s" 63 "[]" "post (millis E) s"]
    by (elim exE conjE) (rule that; simp add: sb_def challenge_def escr_challenge_def)
  obtain tr2 line2 where t2: "t_trace (post (escr_verdict E c) sd) = t_trace sd @ tr2"
    "reads_line c tr2 line2" "c_string line2 = ''ok''"
    using poll_line_reads [OF assms(1), of "e_fuel E" c "res (millis E) sd" 15 "[]" "post (millis E) sd"] ok
    by (elim exE conjE) (rule that; simp add: escr_verdict_def)
  have td: "t_trace sd = t_trace sc @
      [Io_print c (rc_session_id cfg), Io_print c '':'', Io_print c payload, Io_print c [CHR 0x0A]]"
    by (simp add: sd_def escr_send_def sock_print_def)
  have tc: "t_trace sc = t_trace sb" unfolding sc_def by (rule escr_payload_trace)
  have "t_trace (post (escr_authenticate E c cfg key aes) s) = t_trace s @ tr1 @
      [Io_print c (rc_session_id cfg), Io_print c '':'', Io_print c payload, Io_print c [CHR 0x0A]] @ tr2"
    by (simp only: fin t2(1) td tc t1(1) append_assoc)
  then show ?thesis using nonempty pay t1(2-4) t2(2,3)
    by - (rule_tac exI [of _ tr1], rule_tac exI [of _ tr2], rule_tac exI [of _ challenge], rule_tac exI [of _ payload],
        rule_tac exI [of _ line2], rule_tac exI [of _ sb], simp)
qed

definition escr_env :: "(ex_world, bytes, json) env" where
  "escr_env = example_env\<lparr>e_cj := example_cjson (\<lambda>_. Some JNull),
     e_mb := example_mb\<lparr>mb_base64_encode := (\<lambda>_ _. Some ''b''), mb_base64_decode := (\<lambda>_ _. Some (replicate 32 0)),
       mb_crypt_ctr := Pair\<rparr>\<rparr>"

definition escr_task :: "(ex_world, bytes) rtask" where
  "escr_task = example_task\<lparr>t_world := \<lparr>xw_clock = 5, xw_input = [(3, [104, 105, 10, 111, 107, 10])]\<rparr>\<rparr>"

definition example_rsa :: rsa_key where
  "example_rsa = \<lparr>rk_n = [1, 2, 3], rk_rest = []\<rparr>"

lemma escr_payload_run:
  fixes s :: "(ex_world, bytes) rtask"
  shows "res (escr_payload escr_env noports_relay_config_init example_rsa example_key64 cl) s = Some ''b'' \<and>
    post (escr_payload escr_env noports_relay_config_init example_rsa example_key64 cl) s = s"
  by (simp add: escr_payload_def escr_inner_def escr_signature_def escr_envelope_def escr_encrypt_def escr_outer_def
    random_iv_def add_string_def print_fields_def mem_ok_def escr_env_def example_env_def example_mb_def example_cjson_def
    example_atchops_def Let_def)

lemma escr_challenge_run: "res (escr_challenge escr_env (Some 3)) escr_task = [104, 105]"
  by code_simp

lemma escr_verdict_run:
  "res (escr_verdict escr_env (Some 3)) (post (escr_send escr_env (Some 3) [] ''b'') (post (escr_challenge escr_env (Some 3)) escr_task))"
  by code_simp

lemma escr_authenticated_exchange_witness:
  "\<exists>before after challenge payload verdict (s1 :: (ex_world, bytes) rtask).
    t_trace (post (escr_authenticate escr_env (Some 3) noports_relay_config_init example_rsa example_key64) escr_task) =
      t_trace escr_task @ before @
      [Io_print (Some 3) (rc_session_id noports_relay_config_init), Io_print (Some 3) '':'', Io_print (Some 3) payload,
       Io_print (Some 3) [CHR 0x0A]] @ after \<and>
    reads_line (Some 3) before challenge \<and> challenge \<noteq> [] \<and> length challenge \<le> 63 \<and>
    res (escr_payload escr_env noports_relay_config_init example_rsa example_key64 (c_string challenge)) s1 = Some payload \<and>
    reads_line (Some 3) after verdict \<and> c_string verdict = ''ok''"
proof (rule escr_authenticated_exchange)
  show "io_bounds escr_env" by (auto simp: io_bounds_def escr_env_def example_env_def)
  show "res (escr_authenticate escr_env (Some 3) noports_relay_config_init example_rsa example_key64) escr_task"
    using escr_verdict_run
    by (simp add: escr_authenticate_def escr_challenge_run escr_payload_run)
      (simp add: noports_relay_config_init_def)
qed

end
