(* ===== verification/Relay_Subs.thy ===== *)
theory Relay_Subs
  imports Relay_Escr
begin

text \<open>
  The sub-connections of a multi-session relay: closing and reclaiming them, choosing which one to
  evict, and \<open>_handle_connect_msg\<close>, which opens a new one for a \<open>connect:\<close> message.
\<close>

section \<open>Closing\<close>

definition is_open :: "sock \<Rightarrow> bool" where
  "is_open c \<longleftrightarrow> c \<noteq> None"

definition reset_sub :: "'k sub \<Rightarrow> 'k sub" where
  "reset_sub b = b\<lparr>sb_active := False, sb_encrypted := False, sb_draining := False,
     sb_drain_start_ms := 0, sb_pending_rvd := [], sb_pending_local := [],
     sb_enc_state := (if sb_encrypted b then None else sb_enc_state b),
     sb_dec_state := (if sb_encrypted b then None else sb_dec_state b),
     sb_rvd := None, sb_local := None\<rparr>"

definition close_relay_sub :: "('w, 'k, 'j, 'e) env_scheme \<Rightarrow> nat \<Rightarrow> ('w, 'k, 'z, unit) task" where
  "close_relay_sub E i = do {
     b \<leftarrow> the_sub i;
     when_st (is_open (sb_rvd b)) (do { sock_stop E (sb_rvd b); upd_pcb (\<lambda>n. n - 1) });
     when_st (is_open (sb_local b)) (do { sock_stop E (sb_local b); upd_pcb (\<lambda>n. n - 1) });
     upd_pcb (\<lambda>n. if n < 0 then 0 else n);
     upd_sub i reset_sub }"

definition active_count :: "'k sub list \<Rightarrow> nat" where
  "active_count subs = length (filter sb_active subs)"

definition update_active_session_count :: "('w, 'k, 'z, unit) task" where
  "update_active_session_count = do {
     subs \<leftarrow> gets t_subs;
     upd_relay (rl_active_sessions_update (\<lambda>_. word_of_nat (active_count subs))) }"

text \<open>\<open>!c.available() && _peer_closed(c)\<close>.\<close>

definition drained_and_closed :: "('w, 'k, 'j, 'e) env_scheme \<Rightarrow> sock \<Rightarrow> ('w, 'k, 'z, bool) task" where
  "drained_and_closed E c = do {
     a \<leftarrow> available E c;
     if a then ret False else peer_closed E c }"

definition reclaim_one :: "('w, 'k, 'j, 'e) env_scheme \<Rightarrow> nat \<Rightarrow> ('w, 'k, 'z, unit) task" where
  "reclaim_one E i = do {
     b \<leftarrow> the_sub i;
     when_st (sb_active b \<and> \<not> sb_draining b) (do {
       rvd_dead \<leftarrow> drained_and_closed E (sb_rvd b);
       local_dead \<leftarrow> drained_and_closed E (sb_local b);
       when_st (rvd_dead \<and> local_dead) (close_relay_sub E i) }) }"

definition reclaim_dead_subs :: "('w, 'k, 'j, 'e) env_scheme \<Rightarrow> ('w, 'k, 'z, unit) task" where
  "reclaim_dead_subs E = do { n \<leftarrow> gets (\<lambda>s. length (t_subs s)); for_each [0..<n] (reclaim_one E) }"

section \<open>Choosing a victim\<close>

fun find_oldest_loop :: "u32 \<Rightarrow> u32 \<Rightarrow> nat \<Rightarrow> u32 \<Rightarrow> nat option \<Rightarrow> 'k sub list \<Rightarrow> nat option" where
  "find_oldest_loop min_age_ms now i oldest victim [] = victim"
| "find_oldest_loop min_age_ms now i oldest victim (b # bs) =
     (if \<not> sb_active b then find_oldest_loop min_age_ms now (Suc i) oldest victim bs
      else if min_age_ms > 0 \<and> now - sb_last_activity_ms b < min_age_ms
      then find_oldest_loop min_age_ms now (Suc i) oldest victim bs
      else if sb_last_activity_ms b < oldest
      then find_oldest_loop min_age_ms now (Suc i) (sb_last_activity_ms b) (Some i) bs
      else find_oldest_loop min_age_ms now (Suc i) oldest victim bs)"

definition find_oldest_active_sub ::
  "('w, 'k, 'j, 'e) env_scheme \<Rightarrow> u32 \<Rightarrow> ('w, 'k, 'z, nat option) task" where
  "find_oldest_active_sub E min_age_ms = do {
     now \<leftarrow> millis E;
     subs \<leftarrow> gets t_subs;
     ret (find_oldest_loop min_age_ms now 0 ULONG_MAX None subs) }"

fun find_evictable_loop ::
  "('w, 'k, 'j, 'e) env_scheme \<Rightarrow> u32 \<Rightarrow> nat \<Rightarrow> u32 \<Rightarrow> nat option \<Rightarrow> 'k sub list \<Rightarrow>
   ('w, 'k, 'z, nat option) task" where
  "find_evictable_loop E now i oldest victim [] = ret victim"
| "find_evictable_loop E now i oldest victim (b # bs) =
     (if \<not> sb_active b then find_evictable_loop E now (Suc i) oldest victim bs
      else if sb_bytes_out b = 0 \<and> now - sb_last_activity_ms b < SUB_EVICTION_GRACE_MS
      then find_evictable_loop E now (Suc i) oldest victim bs
      else do {
        a1 \<leftarrow> available E (sb_rvd b);
        a2 \<leftarrow> (if a1 then ret True else available E (sb_local b));
        if a2 then find_evictable_loop E now (Suc i) oldest victim bs
        else if now - sb_last_activity_ms b > SUB_EVICTION_GRACE_MS \<and> sb_last_activity_ms b < oldest
        then find_evictable_loop E now (Suc i) (sb_last_activity_ms b) (Some i) bs
        else find_evictable_loop E now (Suc i) oldest victim bs })"

definition find_evictable_sub :: "('w, 'k, 'j, 'e) env_scheme \<Rightarrow> ('w, 'k, 'z, nat option) task" where
  "find_evictable_sub E = do {
     now \<leftarrow> millis E;
     subs \<leftarrow> gets t_subs;
     find_evictable_loop E now 0 ULONG_MAX None subs }"

section \<open>A connect message\<close>

text \<open>The PCB budget guard: false when the request has to be ignored.\<close>

definition session_pcbs :: "'k sub list \<Rightarrow> nat" where
  "session_pcbs subs = 1 + 2 * active_count subs"

definition pcb_budget_guard :: "('w, 'k, 'j, 'e) env_scheme \<Rightarrow> ('w, 'k, 'z, bool) task" where
  "pcb_budget_guard E = do {
     subs \<leftarrow> gets t_subs;
     if session_pcbs subs + 2 > MAX_RELAY_PCBS then do {
       victim \<leftarrow> find_evictable_sub E;
       case victim of
         Some v \<Rightarrow> do { _ \<leftarrow> millis E; close_relay_sub E v; ret True }
       | None \<Rightarrow> ret False }
     else ret True }"

definition heap_guard :: "('w, 'k, 'j, 'e) env_scheme \<Rightarrow> ('w, 'k, 'z, bool) task" where
  "heap_guard E = do {
     heap \<leftarrow> rx (e_free_heap E);
     subs \<leftarrow> gets t_subs;
     ret (\<not> (heap < MIN_HEAP_FOR_SUB \<and> active_count subs > 0)) }"

definition choose_slot :: "('w, 'k, 'j, 'e) env_scheme \<Rightarrow> ('w, 'k, 'z, nat option) task" where
  "choose_slot E = do {
     subs \<leftarrow> gets t_subs;
     case find_index (\<lambda>b. \<not> sb_active b) subs of
       Some i \<Rightarrow> ret (Some i)
     | None \<Rightarrow> do {
         victim \<leftarrow> find_evictable_sub E;
         case victim of
           Some v \<Rightarrow> do { _ \<leftarrow> millis E; close_relay_sub E v; ret (Some v) }
         | None \<Rightarrow> ret None } }"

text \<open>The first \<open>k\<close> colons split a string into fields; the last field keeps the rest.\<close>

fun split_colon :: "nat \<Rightarrow> string \<Rightarrow> string list" where
  "split_colon 0 s = [s]"
| "split_colon (Suc k) s =
     (case strchr s CHR '':'' of None \<Rightarrow> [s] | Some i \<Rightarrow> take i s # split_colon k (drop (Suc i) s))"

text \<open>What a \<open>connect:\<close> message asks for: no encryption, the keys, or nothing that parses.\<close>

datatype connect_keys = Plain | Keys string string "string option" "string option" | Malformed

definition connect_keys_of :: "string \<Rightarrow> connect_keys" where
  "connect_keys_of data =
     (if data = ''no:encrypt'' \<or> data = [] then Plain
      else case split_colon 3 data of
          [k, i] \<Rightarrow> Keys k i None None
        | [k, i, _] \<Rightarrow> Keys k i None None
        | [k, i, k2, i2] \<Rightarrow> Keys k i (Some k2) (Some i2)
        | _ \<Rightarrow> Malformed)"

definition parse_connect :: "string \<Rightarrow> connect_keys" where
  "parse_connect msg =
     (let data = drop 8 msg in if data = ''no:encrypt'' \<or> data = [] then Plain else connect_keys_of (fit 384 data))"

definition setup_sub_keys ::
  "('w, 'k, 'j, 'e) env_scheme \<Rightarrow> nat \<Rightarrow> string \<Rightarrow> ('w, 'k, 'z, bool) task" where
  "setup_sub_keys E slot msg = do {
     upd_sub slot (sb_encrypted_update (\<lambda>_. False));
     case parse_connect msg of
       Plain \<Rightarrow> ret True
     | Malformed \<Rightarrow> ret False
     | Keys k i k2 i2 \<Rightarrow>
         (case create_enc_dec (e_mb E) k i k2 i2 of
            None \<Rightarrow> ret False
          | Some (enc, dec) \<Rightarrow> do {
              upd_sub slot (\<lambda>b. b\<lparr>sb_enc_state := Some enc, sb_dec_state := Some dec, sb_encrypted := True\<rparr>);
              ret True }) }"

definition sub_fail :: "nat \<Rightarrow> ('w, 'k, 'z, bool) task" where
  "sub_fail slot = do {
     upd_sub slot (\<lambda>b. if sb_encrypted b
       then b\<lparr>sb_enc_state := None, sb_dec_state := None, sb_encrypted := False\<rparr> else b);
     ret False }"

text \<open>Connecting both sides: false is the C code's -2.\<close>

definition open_sub :: "('w, 'k, 'j, 'e) env_scheme \<Rightarrow> nat \<Rightarrow> ('w, 'k, 'z, bool) task" where
  "open_sub E slot = do {
     cfg \<leftarrow> gets (\<lambda>s. rl_config (t_relay s));
     rvd \<leftarrow> sock_connect E (rc_rvd_host cfg) (rc_rvd_port cfg);
     upd_sub slot (sb_rvd_update (\<lambda>_. rvd));
     if rvd = None then sub_fail slot
     else do {
       upd_pcb (\<lambda>n. n + 1);
       auth \<leftarrow> sock_auth E rvd cfg (ret ());
       if \<not> auth then do {
         sock_stop E rvd; upd_sub slot (sb_rvd_update (\<lambda>_. None)); upd_pcb (\<lambda>n. n - 1); sub_fail slot }
       else do {
         local \<leftarrow> sock_connect E (rc_local_host cfg) (rc_local_port cfg);
         upd_sub slot (sb_local_update (\<lambda>_. local));
         if local = None then do {
           sock_stop E rvd; upd_sub slot (sb_rvd_update (\<lambda>_. None)); upd_pcb (\<lambda>n. n - 1); sub_fail slot }
         else do {
           upd_pcb (\<lambda>n. n + 1);
           now \<leftarrow> millis E;
           upd_sub slot (\<lambda>b. b\<lparr>sb_active := True, sb_last_activity_ms := now, sb_bytes_in := 0, sb_bytes_out := 0\<rparr>);
           update_active_session_count;
           ret True } } } }"

definition handle_connect_msg :: "('w, 'k, 'j, 'e) env_scheme \<Rightarrow> string \<Rightarrow> ('w, 'k, 'z, bool) task" where
  "handle_connect_msg E msg = do {
     reclaim_dead_subs E;
     budget \<leftarrow> pcb_budget_guard E;
     if \<not> budget then ret False
     else do {
       heap \<leftarrow> heap_guard E;
       if \<not> heap then ret False
       else do {
         slot \<leftarrow> choose_slot E;
         case slot of
           None \<Rightarrow> ret False
         | Some i \<Rightarrow> do {
             keys \<leftarrow> setup_sub_keys E i msg;
             if \<not> keys then ret False else open_sub E i } } } }"

section \<open>Facts\<close>

text \<open>What makes a sub-connection a victim: it is active, nothing waited to be read from either side,
  and it had been idle for longer than the grace period.\<close>

definition evictable :: "('w, 'k, 'j, 'e) env_scheme \<Rightarrow> u32 \<Rightarrow> 'k sub \<Rightarrow> bool" where
  "evictable E now b \<longleftrightarrow> sb_active b \<and> now - sb_last_activity_ms b > SUB_EVICTION_GRACE_MS \<and>
     (\<exists>w. \<not> fst (e_available E (sb_rvd b) w)) \<and> (\<exists>w. \<not> fst (e_available E (sb_local b) w))"

lemma find_evictable_loop_res:
  "res (find_evictable_loop E now i oldest v bs) s = Some k \<Longrightarrow>
     v = Some k \<or> (i \<le> k \<and> k < i + length bs \<and> evictable E now (bs ! (k - i)))"
proof (induction bs arbitrary: i oldest v s)
  case (Cons b bs)
  have shift: "v = Some k \<or> (i \<le> k \<and> k < i + length (b # bs) \<and> evictable E now ((b # bs) ! (k - i)))"
    if "v' = Some k \<or> (Suc i \<le> k \<and> k < Suc i + length bs \<and> evictable E now (bs ! (k - Suc i)))"
      and "v' = v \<or> v' = Some i \<and> evictable E now b" for v'
    using that by (auto simp: nth_Cons split: nat.splits) (metis Suc_diff_Suc Suc_le_lessD diff_Suc_Suc nat.inject)+
  from Cons.prems show ?case
    by (auto split: if_splits dest!: Cons.IH intro!: shift [of v] shift [of "Some i"] simp: evictable_def)
qed simp

lemma find_evictable_sub_res:
  assumes "res (find_evictable_sub E) s = Some k"
  shows "k < length (t_subs s) \<and> evictable E (fst (e_millis E (t_world s))) (t_subs s ! k)"
proof -
  have p: "t_subs (post (millis E) s) = t_subs s" by (simp add: millis_def)
  from assms have "res (find_evictable_loop E (fst (e_millis E (t_world s))) 0 ULONG_MAX None (t_subs s))
      (post (millis E) s) = Some k"
    by (simp add: find_evictable_sub_def p)
  from find_evictable_loop_res [OF this] show ?thesis by simp
qed

lemma io_step_find_evictable [io_intro]:
  "state_io_rel io_step (find_evictable_loop E now i oldest v bs)"
  "state_io_rel io_step (find_evictable_sub E)"
proof -
  show loop: "state_io_rel io_step (find_evictable_loop E now i oldest v bs)" for now i oldest v bs
    by (induction bs arbitrary: i oldest v) (auto intro!: io_rule io_intro)
  show "state_io_rel io_step (find_evictable_sub E)"
    unfolding find_evictable_sub_def by (intro io_rule io_intro loop)
qed

lemma io_step_find_oldest [io_intro]: "state_io_rel io_step (find_oldest_active_sub E a)"
  unfolding find_oldest_active_sub_def by (intro io_rule io_intro)

lemma io_step_drained [io_intro]: "state_io_rel io_step (drained_and_closed E c)"
  unfolding drained_and_closed_def by (intro io_rule io_intro)

lemma find_oldest_loop_Some:
  "find_oldest_loop a now i oldest v bs = Some k \<Longrightarrow>
     v = Some k \<or> (i \<le> k \<and> k < i + length bs \<and> sb_active (bs ! (k - i)))"
proof (induction bs arbitrary: i oldest v)
  case (Cons b bs)
  from Cons.prems show ?case
    by (auto split: if_splits dest!: Cons.IH simp: nth_Cons split: nat.splits)
      (metis Suc_diff_Suc Suc_le_lessD diff_Suc_Suc nat.inject)+
qed simp

subsection \<open>Which sub-connections an operation touches\<close>

text \<open>\<open>spares j X\<close>: the operation keeps the number of slots, and sub \<open>j\<close> if it is \<open>X\<close>.\<close>

definition spares :: "nat \<Rightarrow> 'k sub \<Rightarrow> ('w, 'k, 'z) rtask_scheme \<Rightarrow> ('w, 'k, 'z) rtask_scheme \<Rightarrow> bool" where
  "spares j X s s' \<longleftrightarrow> length (t_subs s') = length (t_subs s) \<and> (t_subs s ! j = X \<longrightarrow> t_subs s' ! j = X)"

lemma spares_preorder [io_rule]: "preorder_rel (spares j X)"
  by (rule preorder_relI) (auto simp: spares_def)

lemma spares_io_step: "state_io_rel io_step m \<Longrightarrow> state_io_rel (spares j X) m"
  unfolding state_io_rel_post spares_def by (metis io_stepD(1))

lemma spares_upd_sub: "i \<noteq> j \<Longrightarrow> state_io_rel (spares j X) (upd_sub i f)"
  by (auto simp: state_io_rel_post spares_def)

lemma spares_upd_relay [io_intro]: "state_io_rel (spares j X) (upd_relay f)"
  by (auto simp: state_io_rel_post spares_def)

lemma spares_upd_pcb [io_intro]: "state_io_rel (spares j X) (upd_pcb f)"
  by (auto simp: state_io_rel_post spares_def)

lemma spares_close [io_intro]: "i \<noteq> j \<Longrightarrow> state_io_rel (spares j X) (close_relay_sub E i)"
  unfolding close_relay_sub_def the_sub_def
  by (intro io_rule io_intro spares_upd_sub spares_io_step) assumption

lemma spares_sub_fail [io_intro]: "i \<noteq> j \<Longrightarrow> state_io_rel (spares j X) (sub_fail i)"
  unfolding sub_fail_def by (intro io_rule spares_upd_sub)

lemma spares_update_count [io_intro]: "state_io_rel (spares j X) update_active_session_count"
  unfolding update_active_session_count_def by (intro io_rule io_intro)

lemma io_step_sock_auth [io_intro]:
  "state_io_rel io_step m \<Longrightarrow> state_io_rel io_step (sock_auth E c cfg m)"
  unfolding sock_auth_def by (intro io_rule io_intro)

lemma spares_open_sub [io_intro]: "i \<noteq> j \<Longrightarrow> state_io_rel (spares j X) (open_sub E i)"
  unfolding open_sub_def
  by (intro io_rule io_intro spares_upd_sub spares_io_step) assumption+

lemma io_case_connect_keys [io_rule]:
  "(z = Plain \<Longrightarrow> state_io_rel P m) \<Longrightarrow> (\<And>a b c d. z = Keys a b c d \<Longrightarrow> state_io_rel P (f a b c d)) \<Longrightarrow>
   (z = Malformed \<Longrightarrow> state_io_rel P m') \<Longrightarrow>
   state_io_rel P (case z of Plain \<Rightarrow> m | Keys a b c d \<Rightarrow> f a b c d | Malformed \<Rightarrow> m')"
  by (cases z) auto

lemma spares_setup_keys [io_intro]: "i \<noteq> j \<Longrightarrow> state_io_rel (spares j X) (setup_sub_keys E i msg)"
  unfolding setup_sub_keys_def by (intro io_rule spares_upd_sub) assumption+

text \<open>A sub-connection is in use when it moved data within the grace period, or has data waiting.\<close>

definition in_use :: "('w, 'k, 'j, 'e) env_scheme \<Rightarrow> 'k sub \<Rightarrow> bool" where
  "in_use E b \<longleftrightarrow> sb_active b \<and>
     ((\<forall>w. fst (e_millis E w) - sb_last_activity_ms b \<le> SUB_EVICTION_GRACE_MS) \<or>
      (\<forall>w. fst (e_available E (sb_rvd b) w)) \<or> (\<forall>w. fst (e_available E (sb_local b) w)))"

text \<open>A peer is alive when its socket is open and never reports the end of the stream or an error.\<close>

definition peer_alive :: "('w, 'k, 'j, 'e) env_scheme \<Rightarrow> sock \<Rightarrow> bool" where
  "peer_alive E c \<longleftrightarrow> (\<exists>fd. c = Some fd \<and> (\<forall>w. fst (e_peek E fd w) \<in> {Peek_data, Peek_again}))"

lemma in_use_not_evictable: "in_use E b \<Longrightarrow> \<not> evictable E (fst (e_millis E w)) b"
  by (auto simp: in_use_def evictable_def not_le [symmetric])

lemma peer_alive_drained: "peer_alive E c \<Longrightarrow> \<not> res (drained_and_closed E c) s"
  by (auto simp: drained_and_closed_def peer_closed_def peer_alive_def split: peek.splits)
    (metis insertE peek.distinct(1,3,5,7,9,11) singletonD)+

lemma sock_stop_post [simp]:
  "post (sock_stop E c) s = s\<lparr>t_world := e_stop E c (t_world s), t_trace := t_trace s @ [Io_stop c]\<rparr>"
  by (simp add: sock_stop_def)

lemma close_subs: "t_subs (post (close_relay_sub E i) s) = (t_subs s)[i := reset_sub (t_subs s ! i)]"
  by (simp add: close_relay_sub_def)

lemma close_relay: "t_relay (post (close_relay_sub E i) s) = t_relay s"
  by (simp add: close_relay_sub_def)

lemma spares_close_victim:
  "(t_subs s ! j = X \<Longrightarrow> v \<noteq> j) \<Longrightarrow> spares j X s (post (close_relay_sub E v) s)"
  by (cases "v = j") (auto simp: spares_def close_subs)

lemma find_evictable_subs: "t_subs (post (find_evictable_sub E) s) = t_subs s"
  by (rule io_stepD(1) [OF io_relD [OF io_step_find_evictable(2)]])

lemma victim_not_in_use:
  "res (find_evictable_sub E) s = Some v \<Longrightarrow> in_use E (t_subs s ! j) \<Longrightarrow> v \<noteq> j"
  by (metis find_evictable_sub_res in_use_not_evictable)

lemma millis_subs [simp]: "t_subs (post (millis E) s) = t_subs s"
  by (simp add: millis_def)

lemma spares_evict:
  assumes "in_use E X" "res (find_evictable_sub E) s = Some v"
  shows "spares j X s (post (close_relay_sub E v) (post (millis E) (post (find_evictable_sub E) s)))"
    (is "spares j X s (post _ ?t)")
proof -
  have t: "t_subs ?t = t_subs s" by (simp add: find_evictable_subs)
  have "spares j X ?t (post (close_relay_sub E v) ?t)"
    by (rule spares_close_victim) (use assms victim_not_in_use t in auto)
  with t show ?thesis by (simp add: spares_def)
qed

lemma spares_pcb_guard [io_intro]:
  assumes "in_use E X"
  shows "state_io_rel (spares j X) (pcb_budget_guard E)"
proof (unfold state_io_rel_post, rule allI)
  fix s :: "('a, 'b, 'e) rtask_scheme"
  show "spares j X s (post (pcb_budget_guard E) s)"
    using spares_evict [OF assms, of s]
    by (auto simp: pcb_budget_guard_def find_evictable_subs spares_def split: option.splits)
qed

lemma spares_choose_slot [io_intro]:
  assumes "in_use E X"
  shows "state_io_rel (spares j X) (choose_slot E)"
proof (unfold state_io_rel_post, rule allI)
  fix s :: "('a, 'b, 'e) rtask_scheme"
  show "spares j X s (post (choose_slot E) s)"
    using spares_evict [OF assms, of s]
    by (auto simp: choose_slot_def find_evictable_subs spares_def split: option.splits)
qed

lemma choose_slot_other:
  assumes "in_use E (t_subs s ! j)" "j < length (t_subs s)" "res (choose_slot E) s = Some i"
  shows "i \<noteq> j \<and> i < length (t_subs s)"
proof (cases "find_index (\<lambda>b. \<not> sb_active b) (t_subs s)")
  case (Some k)
  then have "i = k" using assms(3) by (simp add: choose_slot_def)
  moreover have "sb_active (t_subs s ! j)" using assms(1) by (simp add: in_use_def)
  ultimately show ?thesis using find_index_Some(1,2) [OF Some] by auto
next
  case None
  with assms(3) obtain v where v: "res (find_evictable_sub E) s = Some v" "i = v"
    by (auto simp: choose_slot_def split: option.splits)
  then show ?thesis using victim_not_in_use [OF v(1) assms(1)] find_evictable_sub_res [OF v(1)] by simp
qed

lemma spares_reclaim_one [io_intro]:
  assumes "peer_alive E (sb_rvd X) \<or> peer_alive E (sb_local X)"
  shows "state_io_rel (spares j X) (reclaim_one E i)"
proof (unfold state_io_rel_post, rule allI)
  fix s :: "('a, 'b, 'e) rtask_scheme"
  let ?b = "t_subs s ! i"
  let ?s1 = "post (drained_and_closed E (sb_rvd ?b)) s"
  let ?s2 = "post (drained_and_closed E (sb_local ?b)) ?s1"
  have t: "t_subs ?s1 = t_subs s" "t_subs ?s2 = t_subs s"
    using io_stepD(1) [OF io_relD [OF io_step_drained]] by metis+
  show "spares j X s (post (reclaim_one E i) s)"
  proof (cases "sb_active ?b \<and> \<not> sb_draining ?b \<and> res (drained_and_closed E (sb_rvd ?b)) s \<and>
      res (drained_and_closed E (sb_local ?b)) ?s1")
    case True
    then have "t_subs s ! j = X \<Longrightarrow> i \<noteq> j" using assms peer_alive_drained by auto
    then have "spares j X ?s2 (post (close_relay_sub E i) ?s2)" by (intro spares_close_victim) (simp add: t)
    moreover have "post (reclaim_one E i) s = post (close_relay_sub E i) ?s2"
      using True by (simp add: reclaim_one_def)
    ultimately show ?thesis using t by (simp add: spares_def)
  next
    case False
    then have "post (reclaim_one E i) s = s \<or> post (reclaim_one E i) s = ?s2"
      by (auto simp: reclaim_one_def)
    then show ?thesis using t by (auto simp: spares_def)
  qed
qed

lemma spares_reclaim [io_intro]:
  "peer_alive E (sb_rvd X) \<or> peer_alive E (sb_local X) \<Longrightarrow> state_io_rel (spares j X) (reclaim_dead_subs E)"
  unfolding reclaim_dead_subs_def by (intro io_rule spares_reclaim_one)

lemma spares_heap_guard [io_intro]: "state_io_rel (spares j X) (heap_guard E)"
  unfolding heap_guard_def by (rule spares_io_step) (intro io_rule io_intro)

subsection \<open>A connection that was opened\<close>

lemmas sock_connect_keeps [simp] = io_stepD(1-3) [OF io_relD [OF io_step_prims(3)]]

lemma sock_auth_keeps [simp]:
  "t_subs (post (sock_auth E c cfg (ret ())) s) = t_subs s"
  "t_relay (post (sock_auth E c cfg (ret ())) s) = t_relay s"
  using io_stepD(1,2) [OF io_relD [OF io_step_sock_auth [OF io_ret [OF io_step_preorder]]]] by blast+

lemma update_count_simps [simp]:
  "t_subs (post update_active_session_count s) = t_subs s"
  "t_relay (post update_active_session_count s) =
     (t_relay s)\<lparr>rl_active_sessions := word_of_nat (active_count (t_subs s))\<rparr>"
  by (simp_all add: update_active_session_count_def)

lemma millis_keeps [simp]: "t_relay (post (millis E) s) = t_relay s"
  by (simp add: millis_def)

lemma open_sub_success:
  assumes "i < length (t_subs s)" "res (open_sub E i) s"
  shows "\<exists>rvd local now. t_subs (post (open_sub E i) s) =
    (t_subs s)[i := (t_subs s ! i)\<lparr>sb_rvd := Some rvd, sb_local := Some local, sb_active := True,
       sb_last_activity_ms := now, sb_bytes_in := 0, sb_bytes_out := 0\<rparr>] \<and>
    rl_active_sessions (t_relay (post (open_sub E i) s)) = word_of_nat (active_count (t_subs (post (open_sub E i) s)))"
  using assms
  by (auto simp: open_sub_def sub_fail_def split: if_splits) (intro exI, rule refl)+

lemma setup_keys_success:
  assumes "i < length (t_subs s)" "res (setup_sub_keys E i msg) s"
  shows "(parse_connect msg = Plain \<and>
      t_subs (post (setup_sub_keys E i msg) s) = (t_subs s)[i := (t_subs s ! i)\<lparr>sb_encrypted := False\<rparr>]) \<or>
    (\<exists>k iv k2 iv2 enc dec. parse_connect msg = Keys k iv k2 iv2 \<and>
      create_enc_dec (e_mb E) k iv k2 iv2 = Some (enc, dec) \<and>
      t_subs (post (setup_sub_keys E i msg) s) =
        (t_subs s)[i := (t_subs s ! i)\<lparr>sb_enc_state := Some enc, sb_dec_state := Some dec, sb_encrypted := True\<rparr>])"
  using assms
  by (auto simp: setup_sub_keys_def split: connect_keys.splits option.splits)

subsection \<open>Slots and keys\<close>

text \<open>Every step keeps the number of slots.\<close>

definition same_slots :: "('w, 'k, 'z) rtask_scheme \<Rightarrow> ('w, 'k, 'z) rtask_scheme \<Rightarrow> bool" where
  "same_slots s s' \<longleftrightarrow> length (t_subs s') = length (t_subs s)"

lemma same_slots_preorder [io_rule]: "preorder_rel same_slots"
  by (rule preorder_relI) (auto simp: same_slots_def)

lemma same_slots_io_step: "state_io_rel io_step m \<Longrightarrow> state_io_rel same_slots m"
  unfolding state_io_rel_post same_slots_def by (metis io_stepD(1))

lemma same_slots_upd [io_intro]:
  "state_io_rel same_slots (upd_sub i f)" "state_io_rel same_slots (upd_relay g)" "state_io_rel same_slots (upd_pcb h)"
  by (auto simp: state_io_rel_post same_slots_def)

lemma same_slots_close [io_intro]: "state_io_rel same_slots (close_relay_sub E i)"
  unfolding close_relay_sub_def the_sub_def by (intro io_rule io_intro same_slots_io_step)

lemma same_slots_handle [io_intro]:
  "state_io_rel same_slots (reclaim_dead_subs E)"
  "state_io_rel same_slots (pcb_budget_guard E)"
  "state_io_rel same_slots (heap_guard E)"
  "state_io_rel same_slots (choose_slot E)"
  "state_io_rel same_slots (setup_sub_keys E i msg)"
  unfolding reclaim_dead_subs_def reclaim_one_def the_sub_def pcb_budget_guard_def heap_guard_def choose_slot_def setup_sub_keys_def
  by (intro io_rule io_intro same_slots_io_step)+

lemma choose_slot_range: "res (choose_slot E) s = Some i \<Longrightarrow> i < length (t_subs s)"
  using find_index_Some(1) [of "\<lambda>b. \<not> sb_active b" "t_subs s"] find_evictable_sub_res [of E s]
  by (auto simp: choose_slot_def split: option.splits)

text \<open>What a slot holds for the keys of a message.\<close>

definition keyed_as :: "'k mbedtls \<Rightarrow> connect_keys \<Rightarrow> 'k sub \<Rightarrow> bool" where
  "keyed_as mb ks b = (case ks of
     Plain \<Rightarrow> \<not> sb_encrypted b
   | Malformed \<Rightarrow> False
   | Keys k iv k2 iv2 \<Rightarrow> sb_encrypted b \<and> sb_enc_state b \<noteq> None \<and> sb_dec_state b \<noteq> None \<and>
       create_enc_dec mb k iv k2 iv2 = Some (the (sb_enc_state b), the (sb_dec_state b)))"

section \<open>Properties\<close>

text \<open>C8: a connect message never costs a live connection its slot. A sub-connection with an open
  peer that has not reported the end of the stream, and that moved data within the last ten seconds
  or has data waiting, is left exactly as it was, whatever the message, however full the table.\<close>
theorem connect_spares_live_sub:
  assumes "j < length (t_subs s)" "in_use E (t_subs s ! j)"
    and "peer_alive E (sb_rvd (t_subs s ! j)) \<or> peer_alive E (sb_local (t_subs s ! j))"
  shows "t_subs (post (handle_connect_msg E msg) s) ! j = t_subs s ! j"
proof -
  define X where "X = t_subs s ! j"
  let ?s1 = "post (reclaim_dead_subs E) s"
  let ?s2 = "post (pcb_budget_guard E) ?s1"
  let ?s3 = "post (heap_guard E) ?s2"
  let ?s4 = "post (choose_slot E) ?s3"
  have s1: "spares j X s ?s1" using assms(3) by (auto simp: X_def intro: io_relD spares_reclaim)
  have s2: "spares j X s ?s2"
    using s1 io_relD [OF spares_pcb_guard] assms(2) unfolding X_def spares_def by metis
  have s3: "spares j X s ?s3"
    using s2 io_relD [OF spares_heap_guard] unfolding spares_def by metis
  have s4: "spares j X s ?s4"
    using s3 io_relD [OF spares_choose_slot] assms(2) unfolding X_def spares_def by metis
  have at: "t_subs ?s3 ! j = X" "length (t_subs ?s3) = length (t_subs s)"
    using s3 unfolding spares_def X_def by simp_all
  show ?thesis
  proof (cases "res (choose_slot E) ?s3")
    case (Some i)
    have ne: "i \<noteq> j" using choose_slot_other [OF _ _ Some, of j] assms(1,2) at unfolding X_def by simp
    have "spares j X ?s4 (post (setup_sub_keys E i msg) ?s4)"
      and "spares j X u (post (open_sub E i) u)" for u
      using ne by (auto intro: io_relD spares_setup_keys spares_open_sub)
    with Some s1 s2 s3 s4 show ?thesis
      by (auto simp: handle_connect_msg_def X_def spares_def)
  qed (use s1 s2 s3 s4 in \<open>auto simp: handle_connect_msg_def X_def spares_def\<close>)
qed


definition busy_env :: "(ex_world, bytes, json) env" where
  "busy_env = example_env\<lparr>e_available := (\<lambda>_ w. (True, w))\<rparr>"

lemma connect_spares_live_sub_witness:
  "t_subs (post (handle_connect_msg busy_env ''connect:no:encrypt'') example_task) ! 0 = example_sub"
proof -
  have "t_subs (post (handle_connect_msg busy_env ''connect:no:encrypt'') example_task) ! 0 = t_subs example_task ! 0"
    by (rule connect_spares_live_sub)
      (auto simp: in_use_def peer_alive_def busy_env_def example_env_def example_task_def example_sub_def zero_sub_def)
  then show ?thesis by (simp add: example_task_def)
qed


text \<open>A task whose slot is free, and a message with a key and an IV.\<close>

definition idle_task :: "(ex_world, bytes) rtask" where
  "idle_task = example_task\<lparr>t_subs := [zero_sub]\<rparr>"

definition keyed_msg :: string where
  "keyed_msg = ''connect:'' @ replicate 32 CHR ''k'' @ '':'' @ replicate 16 CHR ''i''"

lemma keyed_connect_run: "res (handle_connect_msg example_env keyed_msg) idle_task"
  by code_simp


end
