(* ===== verification/Relay_Pump.thy ===== *)
theory Relay_Pump
  imports Relay_Subs
begin

text \<open>
  Moving data between the two sockets of a sub-connection: the direction-fair pass of the multi
  relay's main loop and its drain state machine. The C code has the same steps once per direction;
  here a direction says which socket, buffer, cipher and counter a step works on.
\<close>

section \<open>Directions\<close>

datatype dir = To_local | To_rvd

definition src :: "dir \<Rightarrow> 'k sub \<Rightarrow> sock" where
  "src d b = (case d of To_local \<Rightarrow> sb_rvd b | To_rvd \<Rightarrow> sb_local b)"

definition dst :: "dir \<Rightarrow> 'k sub \<Rightarrow> sock" where
  "dst d b = (case d of To_local \<Rightarrow> sb_local b | To_rvd \<Rightarrow> sb_rvd b)"

definition pending :: "dir \<Rightarrow> 'k sub \<Rightarrow> bytes" where
  "pending d b = (case d of To_local \<Rightarrow> sb_pending_local b | To_rvd \<Rightarrow> sb_pending_rvd b)"

definition set_pending :: "dir \<Rightarrow> bytes \<Rightarrow> 'k sub \<Rightarrow> 'k sub" where
  "set_pending d v b = (case d of To_local \<Rightarrow> b\<lparr>sb_pending_local := v\<rparr> | To_rvd \<Rightarrow> b\<lparr>sb_pending_rvd := v\<rparr>)"

definition cipher :: "dir \<Rightarrow> 'k sub \<Rightarrow> 'k ctr option" where
  "cipher d b = (case d of To_local \<Rightarrow> sb_dec_state b | To_rvd \<Rightarrow> sb_enc_state b)"

definition set_cipher :: "dir \<Rightarrow> 'k ctr option \<Rightarrow> 'k sub \<Rightarrow> 'k sub" where
  "set_cipher d v b = (case d of To_local \<Rightarrow> b\<lparr>sb_dec_state := v\<rparr> | To_rvd \<Rightarrow> b\<lparr>sb_enc_state := v\<rparr>)"

definition count_bytes :: "dir \<Rightarrow> nat \<Rightarrow> nat \<Rightarrow> ('w, 'k, 'z, unit) task" where
  "count_bytes d i n =
     (case d of
        To_local \<Rightarrow> do {
          upd_relay (\<lambda>r. r\<lparr>rl_bytes_in := rl_bytes_in r + word_of_nat n\<rparr>);
          upd_sub i (\<lambda>b. b\<lparr>sb_bytes_in := sb_bytes_in b + word_of_nat n\<rparr>) }
      | To_rvd \<Rightarrow> do {
          upd_relay (\<lambda>r. r\<lparr>rl_bytes_out := rl_bytes_out r + word_of_nat n\<rparr>);
          upd_sub i (\<lambda>b. b\<lparr>sb_bytes_out := sb_bytes_out b + word_of_nat n\<rparr>) })"

text \<open>The bytes to send for bytes read: through the direction's cipher when the sub is encrypted.\<close>

definition crypt_sub :: "'k mbedtls \<Rightarrow> dir \<Rightarrow> 'k sub \<Rightarrow> bytes \<Rightarrow> 'k sub \<times> bytes" where
  "crypt_sub mb d b bs =
     (case (sb_encrypted b, cipher d b) of
        (True, Some st) \<Rightarrow> (case mb_crypt_ctr mb st bs of (st', out) \<Rightarrow> (set_cipher d (Some st') b, out))
      | _ \<Rightarrow> (b, bs))"

definition crypt_step :: "'k mbedtls \<Rightarrow> dir \<Rightarrow> nat \<Rightarrow> bytes \<Rightarrow> ('w, 'k, 'z, bytes) task" where
  "crypt_step mb d i bs = do {
     b \<leftarrow> the_sub i;
     upd_sub i (\<lambda>b. fst (crypt_sub mb d b bs));
     ret (snd (crypt_sub mb d b bs)) }"

definition note_activity :: "('w, 'k, 'j, 'e) env_scheme \<Rightarrow> nat \<Rightarrow> ('w, 'k, 'z, unit) task" where
  "note_activity E i = do {
     modify_st (t_activity_update (\<lambda>_. True));
     t1 \<leftarrow> millis E;
     modify_st (t_idle_since_update (\<lambda>_. t1));
     t2 \<leftarrow> millis E;
     upd_sub i (sb_last_activity_ms_update (\<lambda>_. t2)) }"

definition start_drain :: "('w, 'k, 'j, 'e) env_scheme \<Rightarrow> nat \<Rightarrow> ('w, 'k, 'z, unit) task" where
  "start_drain E i = do {
     now \<leftarrow> millis E;
     upd_sub i (\<lambda>b. b\<lparr>sb_draining := True, sb_drain_start_ms := now\<rparr>) }"

section \<open>The direction-fair pass\<close>

text \<open>Step 1: flush what the last pass could not write.\<close>

definition flush_dir :: "('w, 'k, 'j, 'e) env_scheme \<Rightarrow> dir \<Rightarrow> nat \<Rightarrow> ('w, 'k, 'z, unit) task" where
  "flush_dir E d i = do {
     b \<leftarrow> the_sub i;
     when_st (pending d b \<noteq> []) (do {
       n \<leftarrow> write_nb E (dst d b) (pending d b);
       case n of
         None \<Rightarrow> start_drain E i
       | Some w \<Rightarrow> when_st (w > 0) (do { upd_sub i (set_pending d (drop w (pending d b))); note_activity E i }) }) }"

text \<open>Step 2: read new data only when nothing is pending; keep what could not be written.\<close>

definition forward_read ::
  "('w, 'k, 'j, 'e) env_scheme \<Rightarrow> dir \<Rightarrow> nat \<Rightarrow> 'k sub \<Rightarrow> bytes \<Rightarrow> ('w, 'k, 'z, unit) task" where
  "forward_read E d i b bs = do {
     to_send \<leftarrow> crypt_step (e_mb E) d i bs;
     n \<leftarrow> write_nb E (dst d b) to_send;
     case n of
       None \<Rightarrow> start_drain E i
     | Some w \<Rightarrow> do {
         count_bytes d i (length bs);
         note_activity E i;
         when_st (w < length bs) (upd_sub i (set_pending d (drop w to_send))) } }"

definition forward_dir :: "('w, 'k, 'j, 'e) env_scheme \<Rightarrow> dir \<Rightarrow> nat \<Rightarrow> ('w, 'k, 'z, unit) task" where
  "forward_dir E d i = do {
     b \<leftarrow> the_sub i;
     when_st (pending d b = []) (do {
       a \<leftarrow> available E (src d b);
       when_st a (do {
         r \<leftarrow> sock_read E (src d b) RELAY_CHUNK_SIZE;
         case r of
           Read_error \<Rightarrow> ret ()
         | Got bs \<Rightarrow> when_st (bs \<noteq> []) (forward_read E d i b bs) }) }) }"

definition relay_dir :: "('w, 'k, 'j, 'e) env_scheme \<Rightarrow> dir \<Rightarrow> nat \<Rightarrow> ('w, 'k, 'z, unit) task" where
  "relay_dir E d i = do { flush_dir E d i; forward_dir E d i }"

text \<open>The \<open>for (_d = 0; _d < 2 && active; _d++)\<close> loop: \<open>dir_flip\<close> says which direction goes first.\<close>

definition relay_pass :: "('w, 'k, 'j, 'e) env_scheme \<Rightarrow> nat \<Rightarrow> ('w, 'k, 'z, unit) task" where
  "relay_pass E i = do {
     b \<leftarrow> the_sub i;
     when_st (sb_active b) (relay_dir E (if sb_dir_flip b then To_rvd else To_local) i);
     b2 \<leftarrow> the_sub i;
     when_st (sb_active b2) (relay_dir E (if sb_dir_flip b2 then To_local else To_rvd) i);
     upd_sub i (\<lambda>b. b\<lparr>sb_dir_flip := \<not> sb_dir_flip b\<rparr>) }"

section \<open>The drain state machine\<close>

definition PEER_DRAIN_MAX_MS :: u32 where "PEER_DRAIN_MAX_MS = 10000"

text \<open>One direction of a drain pass: whether it is done (a hard write error) and whether data moved.\<close>

definition drain_flush :: "('w, 'k, 'j, 'e) env_scheme \<Rightarrow> dir \<Rightarrow> nat \<Rightarrow> ('w, 'k, 'z, bool \<times> bool) task" where
  "drain_flush E d i = do {
     b \<leftarrow> the_sub i;
     if pending d b = [] then ret (False, False)
     else do {
       n \<leftarrow> write_nb E (dst d b) (pending d b);
       case n of
         None \<Rightarrow> ret (True, False)
       | Some w \<Rightarrow>
           if w > 0 then do {
             upd_sub i (set_pending d (drop w (pending d b)));
             modify_st (t_activity_update (\<lambda>_. True));
             ret (False, True) }
           else ret (False, False) } }"

definition drain_forward :: "('w, 'k, 'j, 'e) env_scheme \<Rightarrow> dir \<Rightarrow> nat \<Rightarrow> ('w, 'k, 'z, bool \<times> bool) task" where
  "drain_forward E d i = do {
     b \<leftarrow> the_sub i;
     if pending d b \<noteq> [] then ret (False, False)
     else do {
       a \<leftarrow> available E (src d b);
       if \<not> a then ret (False, False)
       else do {
         r \<leftarrow> sock_read E (src d b) RELAY_CHUNK_SIZE;
         case r of
           Read_error \<Rightarrow> ret (False, False)
         | Got bs \<Rightarrow>
             if bs = [] then ret (False, False)
             else do {
               count_bytes d i (length bs);
               to_send \<leftarrow> crypt_step (e_mb E) d i bs;
               n \<leftarrow> write_nb E (dst d b) to_send;
               modify_st (t_activity_update (\<lambda>_. True));
               case n of
                 None \<Rightarrow> ret (True, True)
               | Some w \<Rightarrow> do {
                   when_st (w < length bs) (upd_sub i (set_pending d (drop w to_send)));
                   ret (False, True) } } } } }"

definition drain_dir :: "('w, 'k, 'j, 'e) env_scheme \<Rightarrow> dir \<Rightarrow> nat \<Rightarrow> ('w, 'k, 'z, bool \<times> bool) task" where
  "drain_dir E d i = do {
     r1 \<leftarrow> drain_flush E d i;
     if fst r1 then ret r1
     else do { r2 \<leftarrow> drain_forward E d i; ret (fst r2, snd r1 \<or> snd r2) } }"

definition drain_done :: "('w, 'k, 'j, 'e) env_scheme \<Rightarrow> nat \<Rightarrow> ('w, 'k, 'z, bool) task" where
  "drain_done E i = do {
     now \<leftarrow> millis E;
     b \<leftarrow> the_sub i;
     if now - sb_drain_start_ms b \<ge> PEER_DRAIN_MAX_MS then ret True
     else do {
       r1 \<leftarrow> drain_dir E To_local i;
       if fst r1 then ret True
       else do {
         r2 \<leftarrow> drain_dir E To_rvd i;
         if fst r2 then ret True
         else if snd r1 \<or> snd r2 then ret False
         else do { b3 \<leftarrow> the_sub i; drained_and_closed E (sb_local b3) } } } }"

definition drain_pass :: "('w, 'k, 'j, 'e) env_scheme \<Rightarrow> nat \<Rightarrow> ('w, 'k, 'z, unit) task" where
  "drain_pass E i = do { done \<leftarrow> drain_done E i; when_st done (close_relay_sub E i) }"

section \<open>One sub-connection in one round of the main loop\<close>

definition stalled :: "('w, 'k, 'j, 'e) env_scheme \<Rightarrow> nat \<Rightarrow> ('w, 'k, 'z, bool) task" where
  "stalled E i = do { now \<leftarrow> millis E; b \<leftarrow> the_sub i; ret (now - sb_last_activity_ms b > SUB_STALL_TIMEOUT_MS) }"

definition service_sub :: "('w, 'k, 'j, 'e) env_scheme \<Rightarrow> nat \<Rightarrow> ('w, 'k, 'z, unit) task" where
  "service_sub E i = do {
     b \<leftarrow> the_sub i;
     if sb_active b \<and> sb_draining b then drain_pass E i
     else if \<not> sb_active b then ret ()
     else do {
       relay_pass E i;
       b2 \<leftarrow> the_sub i;
       rvd_closed \<leftarrow> drained_and_closed E (sb_rvd b2);
       local_closed \<leftarrow> drained_and_closed E (sb_local b2);
       if rvd_closed \<or> local_closed then close_relay_sub E i
       else do {
         st \<leftarrow> stalled E i;
         when_st st (close_relay_sub E i) } } }"

section \<open>Facts\<close>

definition sent_on :: "int \<Rightarrow> io list \<Rightarrow> bytes" where
  "sent_on fd tr = concat (map (\<lambda>e. case e of Io_sent f bs \<Rightarrow> if f = fd then bs else [] | _ \<Rightarrow> []) tr)"

definition reads_on :: "sock \<Rightarrow> io list \<Rightarrow> bytes list" where
  "reads_on c tr = concat (map (\<lambda>e. case e of Io_read c' bs \<Rightarrow> if c' = c \<and> bs \<noteq> [] then [bs] else [] | _ \<Rightarrow> []) tr)"

lemma on_simps [simp]:
  "sent_on fd [] = []" "reads_on c [] = []"
  "sent_on fd (tr @ tr') = sent_on fd tr @ sent_on fd tr'"
  "reads_on c (tr @ tr') = reads_on c tr @ reads_on c tr'"
  "sent_on fd [Io_sent f bs] = (if f = fd then bs else [])"
  "sent_on fd [Io_read c bs] = []" "reads_on c [Io_sent f bs] = []"
  "reads_on c [Io_read c' bs] = (if c' = c \<and> bs \<noteq> [] then [bs] else [])"
  by (simp_all add: sent_on_def reads_on_def)

lemma on_Cons [simp]:
  "sent_on fd (Io_read c bs # tr) = sent_on fd tr"
  "reads_on c (Io_read c' bs # tr) = (if c' = c \<and> bs \<noteq> [] then bs # reads_on c tr else reads_on c tr)"
  by (simp_all add: sent_on_def reads_on_def)

lemma dir_simps [simp]:
  "src d (set_pending d' v b) = src d b" "dst d (set_pending d' v b) = dst d b"
  "cipher d (set_pending d' v b) = cipher d b"
  "pending d (set_pending d' v b) = (if d = d' then v else pending d b)"
  "src d (set_cipher d' c b) = src d b" "dst d (set_cipher d' c b) = dst d b"
  "pending d (set_cipher d' c b) = pending d b"
  "cipher d (set_cipher d' c b) = (if d = d' then c else cipher d b)"
  "sb_encrypted (set_pending d' v b) = sb_encrypted b" "sb_encrypted (set_cipher d' c b) = sb_encrypted b"
  "sb_active (set_pending d' v b) = sb_active b" "sb_active (set_cipher d' c b) = sb_active b"
  "sb_draining (set_pending d' v b) = sb_draining b" "sb_draining (set_cipher d' c b) = sb_draining b"
  by (cases d; cases d'; simp add: src_def dst_def cipher_def pending_def set_pending_def set_cipher_def)+

text \<open>Fields the accessors do not look at.\<close>

lemma dir_other_fields [simp]:
  "src d (b\<lparr>sb_last_activity_ms := t\<rparr>) = src d b" "dst d (b\<lparr>sb_last_activity_ms := t\<rparr>) = dst d b"
  "pending d (b\<lparr>sb_last_activity_ms := t\<rparr>) = pending d b" "cipher d (b\<lparr>sb_last_activity_ms := t\<rparr>) = cipher d b"
  "src d (b\<lparr>sb_bytes_in := n\<rparr>) = src d b" "dst d (b\<lparr>sb_bytes_in := n\<rparr>) = dst d b"
  "pending d (b\<lparr>sb_bytes_in := n\<rparr>) = pending d b" "cipher d (b\<lparr>sb_bytes_in := n\<rparr>) = cipher d b"
  "src d (b\<lparr>sb_bytes_out := n\<rparr>) = src d b" "dst d (b\<lparr>sb_bytes_out := n\<rparr>) = dst d b"
  "pending d (b\<lparr>sb_bytes_out := n\<rparr>) = pending d b" "cipher d (b\<lparr>sb_bytes_out := n\<rparr>) = cipher d b"
  "src d (b\<lparr>sb_dir_flip := f\<rparr>) = src d b" "dst d (b\<lparr>sb_dir_flip := f\<rparr>) = dst d b"
  "pending d (b\<lparr>sb_dir_flip := f\<rparr>) = pending d b" "cipher d (b\<lparr>sb_dir_flip := f\<rparr>) = cipher d b"
  by (cases d; simp add: src_def dst_def cipher_def pending_def)+

lemma write_nb_effect:
  "\<exists>w tr. post (write_nb E (Some fd) bs) s = s\<lparr>t_world := w, t_trace := t_trace s @ tr\<rparr> \<and>
     (\<forall>c. reads_on c tr = []) \<and> (\<forall>fd'. fd' \<noteq> fd \<longrightarrow> sent_on fd' tr = []) \<and>
     (case res (write_nb E (Some fd) bs) s of None \<Rightarrow> tr = [] | Some n \<Rightarrow> sent_on fd tr = take n bs)"
proof (cases "fst (e_send E fd bs (t_world s))")
  case (Sent n)
  then show ?thesis
    by (auto simp: write_nb_def intro!: exI [of _ "snd (e_send E fd bs (t_world s))"] exI [of _ "[Io_sent fd (take n bs)]"])
next
  case Send_again
  then show ?thesis
    by (auto simp: write_nb_def intro!: exI [of _ "snd (e_send E fd bs (t_world s))"] exI [of _ "[]"])
next
  case Send_error
  then show ?thesis
    by (auto simp: write_nb_def intro!: exI [of _ "snd (e_send E fd bs (t_world s))"] exI [of _ "[]"])
qed

lemma sock_read_effect:
  "\<exists>w. post (sock_read E c k) s = s\<lparr>t_world := w, t_trace := t_trace s @
     (case res (sock_read E c k) s of Got bs \<Rightarrow> [Io_read c bs] | Read_error \<Rightarrow> [])\<rparr>"
  by (cases "fst (e_read E c k (t_world s))") (auto simp: sock_read_def)

lemma millis_effect: "\<exists>w. post (millis E) s = s\<lparr>t_world := w\<rparr>"
  by (simp add: millis_def) blast

lemma available_effect: "\<exists>w. post (available E c) s = s\<lparr>t_world := w\<rparr>"
  by (simp add: available_def) blast

text \<open>What a step on sub \<open>i\<close> may do to the sub itself.\<close>

definition sub_step :: "nat \<Rightarrow> ('w, 'k, 'z) rtask_scheme \<Rightarrow> ('w, 'k, 'z) rtask_scheme \<Rightarrow> bool" where
  "sub_step i s s' \<longleftrightarrow> length (t_subs s') = length (t_subs s) \<and> (\<exists>tr. t_trace s' = t_trace s @ tr) \<and>
     (i < length (t_subs s) \<longrightarrow> sb_active (t_subs s' ! i) = sb_active (t_subs s ! i) \<and>
        (sb_draining (t_subs s ! i) \<longrightarrow> sb_draining (t_subs s' ! i)))"

lemma sub_step_preorder [io_rule]: "preorder_rel (sub_step i)"
  by (rule preorder_relI) (auto simp: sub_step_def)

lemma sub_step_io: "state_io_rel io_step m \<Longrightarrow> state_io_rel (sub_step i) m"
  unfolding state_io_rel_post sub_step_def by (metis io_stepD(1,12))

lemma sub_step_upd: "(\<And>b. sb_active (f b) = sb_active b \<and> (sb_draining b \<longrightarrow> sb_draining (f b))) \<Longrightarrow>
   state_io_rel (sub_step i) (upd_sub i f)"
  by (auto simp: state_io_rel_post sub_step_def)

definition fifo ::
  "('w, 'k, 'j, 'e) env_scheme \<Rightarrow> nat \<Rightarrow> nat \<Rightarrow> (dir \<Rightarrow> 'k ctr) \<Rightarrow> dir \<Rightarrow> ('w, 'k, 'z) rtask_scheme \<Rightarrow> bool" where
  "fifo E i n0 st0 d s \<longleftrightarrow>
     (let b = t_subs s ! i; tr = drop n0 (t_trace s); chunks = reads_on (src d b) tr in
      \<exists>fd. dst d b = Some fd \<and>
        (if sb_encrypted b
         then sent_on fd tr @ pending d b = snd (ctr_run (e_mb E) (st0 d) chunks) \<and>
              cipher d b = Some (fst (ctr_run (e_mb E) (st0 d) chunks))
         else sent_on fd tr @ pending d b = concat chunks))"

text \<open>Everything the steps rely on: the sub exists, its sockets differ, and both streams are right
  unless a write failed.\<close>

definition pump_inv ::
  "('w, 'k, 'j, 'e) env_scheme \<Rightarrow> nat \<Rightarrow> nat \<Rightarrow> (dir \<Rightarrow> 'k ctr) \<Rightarrow> ('w, 'k, 'z) rtask_scheme \<Rightarrow> bool" where
  "pump_inv E i n0 st0 s \<longleftrightarrow> i < length (t_subs s) \<and> n0 \<le> length (t_trace s) \<and>
     (sb_active (t_subs s ! i) \<and> \<not> sb_draining (t_subs s ! i) \<longrightarrow>
        sb_rvd (t_subs s ! i) \<noteq> sb_local (t_subs s ! i) \<and> (\<forall>d. fifo E i n0 st0 d s))"

lemma sub_step_activity: "state_io_rel (sub_step i) (note_activity E i)"
proof -
  have a: "state_io_rel (sub_step i) (modify_st (t_activity_update f))" for f
    by (rule io_modify) (simp add: sub_step_def)
  have b: "state_io_rel (sub_step i) (modify_st (t_idle_since_update f))" for f
    by (rule io_modify) (simp add: sub_step_def)
  show ?thesis unfolding note_activity_def
    by (intro io_rule a b sub_step_upd sub_step_io io_intro) simp
qed

lemma sub_step_start_drain: "state_io_rel (sub_step i) (start_drain E i)"
  unfolding start_drain_def by (intro io_rule sub_step_upd sub_step_io io_intro) simp

lemma sub_step_upd_relay: "state_io_rel (sub_step i) (upd_relay f)"
  by (auto simp: state_io_rel_post sub_step_def)

lemma sub_step_count: "state_io_rel (sub_step i) (count_bytes d i n)"
  unfolding count_bytes_def by (cases d) (auto intro!: io_rule sub_step_upd sub_step_upd_relay)

lemma sub_step_the_sub: "state_io_rel (sub_step i) (the_sub j)"
  by (simp add: the_sub_def io_gets sub_step_preorder)

lemma crypt_sub_fields:
  "crypt_sub mb d b bs = (b', out) \<Longrightarrow> sb_active b' = sb_active b \<and> sb_draining b' = sb_draining b \<and>
     sb_encrypted b' = sb_encrypted b"
  by (auto simp: crypt_sub_def split: bool.splits option.splits prod.splits)

lemma sub_step_flush: "state_io_rel (sub_step i) (flush_dir E d i)"
  unfolding flush_dir_def
  by (intro io_rule sub_step_the_sub sub_step_io [OF io_step_prims(9)] sub_step_start_drain sub_step_upd sub_step_activity) simp

lemma start_drain_draining: "i < length (t_subs s) \<Longrightarrow> sb_draining (t_subs (post (start_drain E i) s) ! i)"
  by (simp add: start_drain_def)

lemma sub_stepD:
  assumes "state_io_rel (sub_step i) m"
  shows "length (t_subs (post m s)) = length (t_subs s)" "\<exists>tr. t_trace (post m s) = t_trace s @ tr"
    "i < length (t_subs s) \<Longrightarrow> sb_active (t_subs (post m s) ! i) = sb_active (t_subs s ! i)"
    "i < length (t_subs s) \<Longrightarrow> sb_draining (t_subs s ! i) \<Longrightarrow> sb_draining (t_subs (post m s) ! i)"
  using io_relD [OF assms, of s] by (auto simp: sub_step_def)

lemma pump_inv_draining:
  assumes "state_io_rel (sub_step i) m" "pump_inv E i n0 st0 s"
    and "sb_draining (t_subs s ! i) \<or> \<not> sb_active (t_subs s ! i) \<or> sb_draining (t_subs (post m s) ! i)"
  shows "pump_inv E i n0 st0 (post m s)"
proof -
  have l: "i < length (t_subs s)" "n0 \<le> length (t_trace s)" using assms(2) by (auto simp: pump_inv_def)
  obtain tr where "t_trace (post m s) = t_trace s @ tr" using sub_stepD(2) [OF assms(1)] by blast
  with l sub_stepD(1,3,4) [OF assms(1), of s] assms(3) show ?thesis by (auto simp: pump_inv_def)
qed

lemma fifo_same:
  assumes "t_trace s' = t_trace s" "src d (t_subs s' ! i) = src d (t_subs s ! i)"
    "dst d (t_subs s' ! i) = dst d (t_subs s ! i)" "pending d (t_subs s' ! i) = pending d (t_subs s ! i)"
    "cipher d (t_subs s' ! i) = cipher d (t_subs s ! i)"
    "sb_encrypted (t_subs s' ! i) = sb_encrypted (t_subs s ! i)"
  shows "fifo E i n0 st0 d s' = fifo E i n0 st0 d s"
  unfolding fifo_def Let_def assms ..

lemma note_activity_effect:
  "\<exists>w t1 t2. post (note_activity E i) s = s\<lparr>t_world := w, t_activity := True, t_idle_since := t1,
     t_subs := (t_subs s)[i := (t_subs s ! i)\<lparr>sb_last_activity_ms := t2\<rparr>]\<rparr>"
  by (rule exI [of _ "snd (e_millis E (snd (e_millis E (t_world s))))"],
      rule exI [of _ "fst (e_millis E (t_world s))"],
      rule exI [of _ "fst (e_millis E (snd (e_millis E (t_world s))))"])
    (simp add: note_activity_def millis_def)

lemma pump_activity:
  assumes "pump_inv E i n0 st0 s"
  shows "pump_inv E i n0 st0 (post (note_activity E i) s)"
proof -
  obtain w t1 t2 where e: "post (note_activity E i) s = s\<lparr>t_world := w, t_activity := True, t_idle_since := t1,
     t_subs := (t_subs s)[i := (t_subs s ! i)\<lparr>sb_last_activity_ms := t2\<rparr>]\<rparr>"
    using note_activity_effect [of E i s] by (elim exE) (rule that)
  have i: "i < length (t_subs s)" using assms by (simp add: pump_inv_def)
  have "fifo E i n0 st0 d (post (note_activity E i) s) = fifo E i n0 st0 d s" for d
    by (rule fifo_same) (simp_all add: e i)
  with assms i show ?thesis by (simp add: pump_inv_def e)
qed

lemma dir_neq: "sb_rvd b \<noteq> sb_local b \<Longrightarrow> d \<noteq> d' \<Longrightarrow> src d b \<noteq> src d' b \<and> dst d b \<noteq> dst d' b"
  by (cases d; cases d') (auto simp: src_def dst_def)

lemma set_pending_socks [simp]:
  "sb_rvd (set_pending d v b) = sb_rvd b" "sb_local (set_pending d v b) = sb_local b"
  "sb_rvd (set_cipher d c b) = sb_rvd b" "sb_local (set_cipher d c b) = sb_local b"
  by (cases d; simp add: set_pending_def set_cipher_def)+

text \<open>Flushing moves bytes from the pending buffer to the wire.\<close>

lemma fifo_flushed:
  assumes f: "fifo E i n0 st0 d' s" and i: "i < length (t_subs s)" and n0: "n0 \<le> length (t_trace s)"
    and ne: "sb_rvd (t_subs s ! i) \<noteq> sb_local (t_subs s ! i)"
    and fd: "dst d (t_subs s ! i) = Some fd"
    and tr: "\<forall>c. reads_on c tr = []" "\<forall>fd'. fd' \<noteq> fd \<longrightarrow> sent_on fd' tr = []"
      "sent_on fd tr = take w (pending d (t_subs s ! i))"
    and s': "t_trace s' = t_trace s @ tr"
      "t_subs s' ! i = set_pending d (drop w (pending d (t_subs s ! i))) (t_subs s ! i)"
  shows "fifo E i n0 st0 d' s'"
proof (cases "d = d'")
  case True
  with assms show ?thesis by (auto simp: fifo_def Let_def)
next
  case False
  obtain fd' where fd': "dst d' (t_subs s ! i) = Some fd'" using f by (auto simp: fifo_def Let_def)
  with fd dir_neq [OF ne False] have "fd' \<noteq> fd" by auto
  with assms False fd' show ?thesis by (auto simp: fifo_def Let_def)
qed

lemma pump_flush:
  assumes "pump_inv E i n0 st0 s"
  shows "pump_inv E i n0 st0 (post (flush_dir E d i) s)"
proof (cases "sb_draining (t_subs s ! i) \<or> \<not> sb_active (t_subs s ! i) \<or> pending d (t_subs s ! i) = []")
  case True
  show ?thesis
  proof (cases "pending d (t_subs s ! i) = []")
    case True
    then show ?thesis using assms by (simp add: flush_dir_def)
  next
    case False
    with True show ?thesis by (intro pump_inv_draining [OF sub_step_flush assms]) blast
  qed
next
  case False
  let ?b = "t_subs s ! i"
  from assms False have i: "i < length (t_subs s)" and n0: "n0 \<le> length (t_trace s)"
    and ne: "sb_rvd ?b \<noteq> sb_local ?b" and f: "\<forall>d. fifo E i n0 st0 d s" by (auto simp: pump_inv_def)
  obtain fd where fd: "dst d ?b = Some fd" using f by (auto simp: fifo_def Let_def)
  obtain w tr where eff: "post (write_nb E (Some fd) (pending d ?b)) s = s\<lparr>t_world := w, t_trace := t_trace s @ tr\<rparr>"
    "\<forall>c. reads_on c tr = []" "\<forall>fd'. fd' \<noteq> fd \<longrightarrow> sent_on fd' tr = []"
    "case res (write_nb E (Some fd) (pending d ?b)) s of None \<Rightarrow> tr = [] | Some n \<Rightarrow> sent_on fd tr = take n (pending d ?b)"
    using write_nb_effect [of E fd "pending d ?b" s] by (elim exE conjE) (rule that)
  let ?s1 = "s\<lparr>t_world := w, t_trace := t_trace s @ tr\<rparr>"
  show ?thesis
  proof (cases "res (write_nb E (Some fd) (pending d ?b)) s")
    case None
    have "sb_draining (t_subs (post (flush_dir E d i) s) ! i)"
      using False fd None eff(1) i by (simp add: flush_dir_def start_drain_draining)
    with pump_inv_draining [OF sub_step_flush assms] show ?thesis by blast
  next
    case (Some n)
    then have sent: "sent_on fd tr = take n (pending d ?b)" using eff(4) by simp
    let ?s2 = "?s1\<lparr>t_subs := (t_subs s)[i := set_pending d (drop n (pending d ?b)) ?b]\<rparr>"
    have f2: "fifo E i n0 st0 d' ?s2" for d'
      by (rule fifo_flushed [OF f [rule_format] i n0 ne fd eff(2,3) sent]) (simp_all add: i)
    have p: "post (flush_dir E d i) s = (if n > 0 then post (note_activity E i) ?s2 else ?s1)"
      using False fd Some eff(1) by (simp add: flush_dir_def)
    have inv2: "pump_inv E i n0 st0 ?s2" using i n0 ne f2 by (simp add: pump_inv_def)
    have "n = 0 \<Longrightarrow> ?s2 = ?s1" by (cases d) (simp_all add: set_pending_def pending_def)
    then show ?thesis using p inv2 pump_activity [OF inv2] by (cases "n > 0") auto
  qed
qed

lemma sub_step_read: "state_io_rel (sub_step i) (sock_read E c k)"
  by (rule sub_step_io [OF io_step_prims(5)])

lemma crypt_sub_out:
  "ctr_length mb \<Longrightarrow> crypt_sub mb d b bs = (b', out) \<Longrightarrow> length out = length bs"
  by (auto simp: crypt_sub_def ctr_length_def split: bool.splits option.splits prod.splits)
    (metis snd_conv)

text \<open>Bytes read go through the cipher, and what the wire does not take becomes pending.\<close>

lemma fifo_forwarded:
  assumes f: "fifo E i n0 st0 d' s" and i: "i < length (t_subs s)" and n0: "n0 \<le> length (t_trace s)"
    and ne: "sb_rvd (t_subs s ! i) \<noteq> sb_local (t_subs s ! i)" and len: "ctr_length (e_mb E)"
    and fd: "dst d (t_subs s ! i) = Some fd" and empty: "pending d (t_subs s ! i) = []" and bs: "bs \<noteq> []"
    and crypt: "crypt_sub (e_mb E) d (t_subs s ! i) bs = (b', out)"
    and tr: "\<forall>c. reads_on c tr = []" "\<forall>fd'. fd' \<noteq> fd \<longrightarrow> sent_on fd' tr = []" "sent_on fd tr = take w out"
    and s': "t_trace s' = t_trace s @ Io_read (src d (t_subs s ! i)) bs # tr"
      "src d' (t_subs s' ! i) = src d' b'" "dst d' (t_subs s' ! i) = dst d' b'"
      "cipher d' (t_subs s' ! i) = cipher d' b'" "sb_encrypted (t_subs s' ! i) = sb_encrypted b'"
      "pending d' (t_subs s' ! i) = (if d = d' then (if w < length bs then drop w out else []) else pending d' b')"
  shows "fifo E i n0 st0 d' s'"
proof -
  have tr1: "drop n0 (t_trace s') = drop n0 (t_trace s) @ [Io_read (src d (t_subs s ! i)) bs] @ tr"
    using s'(1) n0 by simp
  have out: "length out = length bs" by (rule crypt_sub_out [OF len crypt])
  obtain fd' where fd': "dst d' (t_subs s ! i) = Some fd'" using f by (auto simp: fifo_def Let_def)
  show ?thesis
  proof (cases "d = d'")
    case True
    have tk: "take w out @ (if w < length bs then drop w out else []) = out" using out by simp
    let ?b = "t_subs s ! i"
    let ?chunks = "reads_on (src d ?b) (drop n0 (t_trace s))"
    show ?thesis
    proof (cases "sb_encrypted ?b")
      case enc: True
      with f fd True empty have st: "cipher d ?b = Some (fst (ctr_run (e_mb E) (st0 d) ?chunks))"
        and sent: "sent_on fd (drop n0 (t_trace s)) = snd (ctr_run (e_mb E) (st0 d) ?chunks)"
        by (auto simp: fifo_def Let_def)
      obtain st' where st': "mb_crypt_ctr (e_mb E) (fst (ctr_run (e_mb E) (st0 d) ?chunks)) bs = (st', out)"
        and b': "b' = set_cipher d (Some st') ?b"
        using crypt enc st by (auto simp: crypt_sub_def split: prod.splits)
      have "ctr_run (e_mb E) (st0 d) (?chunks @ [bs]) = (st', snd (ctr_run (e_mb E) (st0 d) ?chunks) @ out)"
        using st' by (simp add: ctr_run_snoc case_prod_beta)
      with fd sent bs tr tk s'(2-) True enc b' out show ?thesis by (auto simp: fifo_def Let_def tr1)
    next
      case enc: False
      with f fd True empty have sent: "sent_on fd (drop n0 (t_trace s)) = concat ?chunks"
        by (auto simp: fifo_def Let_def)
      have "b' = ?b" "out = bs" using crypt enc by (auto simp: crypt_sub_def)
      with fd sent bs tr tk s'(2-) True enc show ?thesis by (simp add: fifo_def Let_def tr1)
    qed
  next
    case False
    note dn = dir_neq [OF ne False]
    have "fd' \<noteq> fd" using dn fd fd' by auto
    moreover have "src d' b' = src d' (t_subs s ! i)" "dst d' b' = dst d' (t_subs s ! i)"
      "cipher d' b' = cipher d' (t_subs s ! i)" "pending d' b' = pending d' (t_subs s ! i)"
      "sb_encrypted b' = sb_encrypted (t_subs s ! i)"
      using crypt False by (auto simp: crypt_sub_def split: bool.splits option.splits prod.splits)
    ultimately show ?thesis
      using f fd' tr s'(2-) dn False by (auto simp: fifo_def Let_def tr1)
  qed
qed

lemma crypt_sub_socks:
  "crypt_sub mb d b bs = (b', out) \<Longrightarrow> sb_rvd b' = sb_rvd b \<and> sb_local b' = sb_local b"
  by (auto simp: crypt_sub_def split: bool.splits option.splits prod.splits)

lemma count_effect:
  "\<exists>r x y. post (count_bytes d i n) s =
     s\<lparr>t_relay := r, t_subs := (t_subs s)[i := (t_subs s ! i)\<lparr>sb_bytes_in := x, sb_bytes_out := y\<rparr>]\<rparr>"
proof (cases d)
  case To_local
  then show ?thesis
    by (intro exI [of _ "(t_relay s)\<lparr>rl_bytes_in := rl_bytes_in (t_relay s) + word_of_nat n\<rparr>"]
        exI [of _ "sb_bytes_in (t_subs s ! i) + word_of_nat n"] exI [of _ "sb_bytes_out (t_subs s ! i)"])
      (simp add: count_bytes_def)
next
  case To_rvd
  then show ?thesis
    by (intro exI [of _ "(t_relay s)\<lparr>rl_bytes_out := rl_bytes_out (t_relay s) + word_of_nat n\<rparr>"]
        exI [of _ "sb_bytes_in (t_subs s ! i)"] exI [of _ "sb_bytes_out (t_subs s ! i) + word_of_nat n"])
      (simp add: count_bytes_def)
qed

lemma pump_set:
  assumes "i < length (t_subs s)" "n0 \<le> length (t_trace s)" "sb_rvd b \<noteq> sb_local b"
    and "t_trace s' = t_trace s @ tr" "t_subs s' = (t_subs s)[i := b]" "\<And>d. fifo E i n0 st0 d s'"
  shows "pump_inv E i n0 st0 s'"
  using assms by (simp add: pump_inv_def)

lemma fifo_quiet:
  assumes "n0 \<le> length (t_trace s)" "t_subs s' = t_subs s" "t_trace s' = t_trace s @ tr"
    and "\<And>c. reads_on c tr = []" "\<And>fd. sent_on fd tr = []"
  shows "fifo E i n0 st0 d s' = fifo E i n0 st0 d s"
proof -
  have "drop n0 (t_trace s') = drop n0 (t_trace s) @ tr" using assms(1,3) by simp
  then show ?thesis unfolding fifo_def Let_def assms(2) by (simp add: assms(4,5))
qed

lemma pump_quiet:
  assumes "pump_inv E i n0 st0 s" "t_subs s' = t_subs s" "t_trace s' = t_trace s @ tr"
    and "\<And>c. reads_on c tr = []" "\<And>fd. sent_on fd tr = []"
  shows "pump_inv E i n0 st0 s'"
proof -
  have "n0 \<le> length (t_trace s)" using assms(1) by (simp add: pump_inv_def)
  then have "fifo E i n0 st0 d s' = fifo E i n0 st0 d s" for d by (rule fifo_quiet [OF _ assms(2-5)])
  with assms(1-3) show ?thesis by (simp add: pump_inv_def)
qed

lemma pump_forward_read:
  assumes inv: "pump_inv E i n0 st0 s0" and len: "ctr_length (e_mb E)"
    and live: "sb_active (t_subs s0 ! i)" "\<not> sb_draining (t_subs s0 ! i)"
    and empty: "pending d (t_subs s0 ! i) = []" and bs: "bs \<noteq> []"
    and s: "t_subs s = t_subs s0" "t_trace s = t_trace s0 @ [Io_read (src d (t_subs s0 ! i)) bs]"
  shows "pump_inv E i n0 st0 (post (forward_read E d i (t_subs s0 ! i) bs) s)"
proof -
  let ?b = "t_subs s0 ! i"
  have i: "i < length (t_subs s0)" and n0: "n0 \<le> length (t_trace s0)" and ne: "sb_rvd ?b \<noteq> sb_local ?b"
    and f: "\<And>d. fifo E i n0 st0 d s0" using inv live by (auto simp: pump_inv_def)
  obtain fd where fd: "dst d ?b = Some fd" using f [of d] by (auto simp: fifo_def Let_def)
  obtain b' out where c: "crypt_sub (e_mb E) d ?b bs = (b', out)" by fastforce
  note cf = crypt_sub_fields [OF c] crypt_sub_socks [OF c]
  let ?s1 = "s\<lparr>t_subs := (t_subs s)[i := b']\<rparr>"
  have cs: "post (crypt_step (e_mb E) d i bs) s = ?s1" "res (crypt_step (e_mb E) d i bs) s = out"
    using c s(1) by (simp_all add: crypt_step_def)
  obtain w tr where eff: "post (write_nb E (Some fd) out) ?s1 = ?s1\<lparr>t_world := w, t_trace := t_trace ?s1 @ tr\<rparr>"
    "\<forall>c. reads_on c tr = []" "\<forall>fd'. fd' \<noteq> fd \<longrightarrow> sent_on fd' tr = []"
    "case res (write_nb E (Some fd) out) ?s1 of None \<Rightarrow> tr = [] | Some n \<Rightarrow> sent_on fd tr = take n out"
    using write_nb_effect [of E fd out ?s1] by (elim exE conjE) (rule that)
  let ?s2 = "?s1\<lparr>t_world := w, t_trace := t_trace ?s1 @ tr\<rparr>"
  show ?thesis
  proof (cases "res (write_nb E (Some fd) out) ?s1")
    case None
    then have p: "post (forward_read E d i ?b bs) s = post (start_drain E i) ?s2"
      using cs fd eff(1) by (simp add: forward_read_def)
    show ?thesis using i n0 s unfolding p by (simp add: pump_inv_def start_drain_def millis_def)
  next
    case (Some n)
    then have sent: "sent_on fd tr = take n out" using eff(4) by simp
    obtain r x y where cnt: "post (count_bytes d i (length bs)) ?s2 =
       ?s2\<lparr>t_relay := r, t_subs := (t_subs ?s2)[i := (t_subs ?s2 ! i)\<lparr>sb_bytes_in := x, sb_bytes_out := y\<rparr>]\<rparr>"
      using count_effect [of d i "length bs" ?s2] by (elim exE) (rule that)
    let ?s3 = "?s2\<lparr>t_relay := r, t_subs := (t_subs ?s2)[i := (t_subs ?s2 ! i)\<lparr>sb_bytes_in := x, sb_bytes_out := y\<rparr>]\<rparr>"
    obtain w' t1 t2 where act: "post (note_activity E i) ?s3 = ?s3\<lparr>t_world := w', t_activity := True,
       t_idle_since := t1, t_subs := (t_subs ?s3)[i := (t_subs ?s3 ! i)\<lparr>sb_last_activity_ms := t2\<rparr>]\<rparr>"
      using note_activity_effect [of E i ?s3] by (elim exE) (rule that)
    let ?b4 = "b'\<lparr>sb_bytes_in := x, sb_bytes_out := y, sb_last_activity_ms := t2\<rparr>"
    let ?b5 = "if n < length bs then set_pending d (drop n out) ?b4 else ?b4"
    have q: "post (forward_read E d i ?b bs) s = post (when_st (n < length bs) (upd_sub i (set_pending d (drop n out))))
        (post (note_activity E i) (post (count_bytes d i (length bs)) ?s2))"
      using cs fd eff(1) Some by (simp add: forward_read_def)
    have p: "t_subs (post (forward_read E d i ?b bs) s) = (t_subs s0)[i := ?b5]"
      "t_trace (post (forward_read E d i ?b bs) s) = t_trace s0 @ Io_read (src d ?b) bs # tr"
      unfolding q cnt act using i s by simp_all
    have pd: "pending d b' = []" using empty c by (auto simp: crypt_sub_def split: bool.splits option.splits prod.splits)
    show ?thesis
    proof (rule pump_set [OF i n0 _ p(2,1)])
      show "sb_rvd ?b5 \<noteq> sb_local ?b5" using ne cf by simp
      fix d'
      show "fifo E i n0 st0 d' (post (forward_read E d i ?b bs) s)"
        by (rule fifo_forwarded [OF f i n0 ne len fd empty bs c eff(2,3) sent p(2)]) (use i pd in \<open>auto simp: p(1)\<close>)
    qed
  qed
qed

text \<open>Once draining or closed, a sub is not our concern here: it stays so.\<close>

lemma pump_dead:
  assumes "pump_inv E i n0 st0 s" "state_io_rel (sub_step i) m"
    and "sb_draining (t_subs s ! i) \<or> \<not> sb_active (t_subs s ! i)"
  shows "pump_inv E i n0 st0 (post m s)"
  using pump_inv_draining assms by blast

lemma sub_step_trans: "sub_step i a b \<Longrightarrow> sub_step i b c \<Longrightarrow> sub_step i a c"
  using sub_step_preorder unfolding preorder_rel_def by blast

lemma sub_step_crypt: "state_io_rel (sub_step i) (crypt_step mb d i bs)"
  unfolding crypt_step_def
  by (intro io_rule sub_step_the_sub sub_step_upd) (metis crypt_sub_fields prod.collapse)

lemma sub_step_set_activity: "state_io_rel (sub_step i) (modify_st (t_activity_update f))"
  by (rule io_modify) (simp add: sub_step_def)

lemmas sub_step_rules = sub_step_the_sub sub_step_crypt sub_step_count sub_step_activity sub_step_start_drain
  sub_step_set_activity sub_step_io [OF io_step_prims(1)] sub_step_io [OF io_step_prims(4)]
  sub_step_io [OF io_step_prims(5)] sub_step_io [OF io_step_prims(9)] sub_step_io [OF io_step_drained]

lemma sub_step_forward_read: "state_io_rel (sub_step i) (forward_read E d i b bs)"
  unfolding forward_read_def by (intro io_rule sub_step_rules sub_step_upd) simp

lemma sub_step_forward: "state_io_rel (sub_step i) (forward_dir E d i)"
  unfolding forward_dir_def by (intro io_rule sub_step_rules sub_step_forward_read)

lemma sub_step_drain_dir: "state_io_rel (sub_step i) (drain_dir E d i)"
  unfolding drain_dir_def drain_flush_def drain_forward_def
  by (intro io_rule sub_step_rules sub_step_upd) simp_all

lemma pump_forward:
  assumes inv: "pump_inv E i n0 st0 s" and len: "ctr_length (e_mb E)"
  shows "pump_inv E i n0 st0 (post (forward_dir E d i) s)"
proof -
  have i: "i < length (t_subs s)" using inv by (simp add: pump_inv_def)
  let ?b = "t_subs s ! i"
  let ?s1 = "post (available E (src d ?b)) s"
  let ?s2 = "post (sock_read E (src d ?b) RELAY_CHUNK_SIZE) ?s1"
  obtain w1 where s1: "?s1 = s\<lparr>t_world := w1\<rparr>" using available_effect [of E "src d ?b" s] by (elim exE) (rule that)
  obtain w2 where s2: "?s2 = ?s1\<lparr>t_world := w2, t_trace := t_trace ?s1 @
     (case res (sock_read E (src d ?b) RELAY_CHUNK_SIZE) ?s1 of Got bs \<Rightarrow> [Io_read (src d ?b) bs] | Read_error \<Rightarrow> [])\<rparr>"
    using sock_read_effect [of E "src d ?b" RELAY_CHUNK_SIZE ?s1] by (elim exE) (rule that)
  show ?thesis
  proof (cases "sb_draining ?b \<or> \<not> sb_active ?b")
    case True
    then show ?thesis by (rule pump_dead [OF inv sub_step_forward])
  next
    case live: False
    show ?thesis
    proof (cases "pending d ?b = [] \<and> res (available E (src d ?b)) s")
      case False
      have "pump_inv E i n0 st0 ?s1" by (rule pump_quiet [OF inv, where tr = "[]"]) (simp_all add: s1)
      with False inv show ?thesis by (auto simp: forward_dir_def)
    next
      case True
      show ?thesis
      proof (cases "res (sock_read E (src d ?b) RELAY_CHUNK_SIZE) ?s1")
        case Read_error
        have "t_subs ?s2 = t_subs s" "t_trace ?s2 = t_trace s @ []"
          unfolding s2 Read_error by (simp_all add: s1)
        then have "pump_inv E i n0 st0 ?s2" by (rule pump_quiet [OF inv]) simp_all
        with Read_error True show ?thesis by (simp add: forward_dir_def)
      next
        case (Got bs)
        have s2s: "t_subs ?s2 = t_subs s" "t_trace ?s2 = t_trace s @ [Io_read (src d ?b) bs]"
          unfolding s2 Got by (simp_all add: s1)
        have p: "post (forward_dir E d i) s = (if bs = [] then ?s2 else post (forward_read E d i ?b bs) ?s2)"
          using Got True by (simp add: forward_dir_def)
        show ?thesis
        proof (cases "bs = []")
          case True
          have "pump_inv E i n0 st0 ?s2" by (rule pump_quiet [OF inv s2s]) (simp_all add: True)
          with p True show ?thesis by simp
        next
          case False
          with pump_forward_read [OF inv len _ _ _ False s2s] live True p show ?thesis by simp
        qed
      qed
    qed
  qed
qed

lemma pump_relay_dir: "pump_inv E i n0 st0 s \<Longrightarrow> ctr_length (e_mb E) \<Longrightarrow> pump_inv E i n0 st0 (post (relay_dir E d i) s)"
  by (simp add: relay_dir_def pump_forward pump_flush)

lemma pump_flip: "pump_inv E i n0 st0 s \<Longrightarrow> pump_inv E i n0 st0 (post (upd_sub i (\<lambda>b. b\<lparr>sb_dir_flip := f b\<rparr>)) s)"
proof -
  assume inv: "pump_inv E i n0 st0 s"
  then have i: "i < length (t_subs s)" by (simp add: pump_inv_def)
  have "fifo E i n0 st0 d (post (upd_sub i (\<lambda>b. b\<lparr>sb_dir_flip := f b\<rparr>)) s) = fifo E i n0 st0 d s" for d
    by (rule fifo_same) (simp_all add: i)
  with inv i show ?thesis by (simp add: pump_inv_def)
qed

lemma pump_relay_pass:
  assumes "ctr_length (e_mb E)"
  shows "state_io_rel (keeps (pump_inv E i n0 st0)) (relay_pass E i)"
proof -
  have d: "state_io_rel (keeps (pump_inv E i n0 st0)) (relay_dir E d i)" for d
    by (rule keepsI) (rule pump_relay_dir [OF _ assms])
  have f: "state_io_rel (keeps (pump_inv E i n0 st0)) (upd_sub i (\<lambda>b. b\<lparr>sb_dir_flip := f b\<rparr>))" for f
    by (rule keepsI) (rule pump_flip)
  have u: "(\<lambda>b. b\<lparr>sb_dir_flip := \<not> sb_dir_flip b\<rparr>) = (\<lambda>b. b\<lparr>sb_dir_flip := (\<lambda>b. \<not> sb_dir_flip b) b\<rparr>)" by simp
  show ?thesis unfolding relay_pass_def the_sub_def
    by (intro io_rule d) (subst u, rule f)
qed

text \<open>The drain machine keeps a draining sub draining until it closes it.\<close>

lemma pump_close: "pump_inv E i n0 st0 s \<Longrightarrow> pump_inv E i n0 st0 (post (close_relay_sub E i) s)"
proof -
  assume inv: "pump_inv E i n0 st0 s"
  have "\<exists>tr. t_trace (post (close_relay_sub E i) s) = t_trace s @ tr" by (simp add: close_relay_sub_def)
  with inv show ?thesis by (auto simp: pump_inv_def close_subs reset_sub_def)
qed

lemma pump_drain_keeps:
  fixes m :: "('w, 'k, 'z, 'a) task"
  assumes m: "state_io_rel (sub_step i) m"
  shows "state_io_rel (keeps (\<lambda>s. pump_inv E i n0 st0 s \<and> sb_draining (t_subs s ! i))) m"
proof (rule keepsI, elim conjE)
  fix s :: "('w, 'k, 'z) rtask_scheme"
  assume a: "pump_inv E i n0 st0 s" "sb_draining (t_subs s ! i)"
  then have "i < length (t_subs s)" by (simp add: pump_inv_def)
  with a pump_dead [OF _ m] sub_stepD(4) [OF m]
  show "pump_inv E i n0 st0 (post m s) \<and> sb_draining (t_subs (post m s) ! i)" by blast
qed

lemma pump_drain_pass:
  assumes "sb_draining (t_subs s ! i)" "pump_inv E i n0 st0 s"
  shows "pump_inv E i n0 st0 (post (drain_pass E i) s)"
proof -
  have "state_io_rel (sub_step i) (drain_done E i)"
    unfolding drain_done_def by (intro io_rule sub_step_rules sub_step_drain_dir)
  from keepsD [OF pump_drain_keeps [OF this], of E n0 st0 s] assms
  have "pump_inv E i n0 st0 (post (drain_done E i) s)" by blast
  then show ?thesis by (simp add: drain_pass_def pump_close)
qed

lemma pump_io_step:
  assumes "state_io_rel io_step m" "\<And>s. t_trace (post m s) = t_trace s"
  shows "state_io_rel (keeps (pump_inv E i n0 st0)) m"
  by (rule keepsI, rule pump_quiet [where tr = "[]"]) (simp_all add: assms(2) io_stepD(1) [OF io_relD [OF assms(1)]])

lemma peer_closed_trace: "t_trace (post (peer_closed E c) s) = t_trace s"
  by (simp add: peer_closed_def split: option.splits)

lemma pump_service:
  fixes E :: "('w, 'k, 'j, 'e) env_scheme"
  assumes "ctr_length (e_mb E)"
  shows "state_io_rel (keeps (pump_inv E i n0 st0)) (service_sub E i :: ('w, 'k, 'z, unit) task)"
proof (rule keepsI)
  fix s :: "('w, 'k, 'z) rtask_scheme"
  assume inv: "pump_inv E i n0 st0 s"
  have k: "state_io_rel (keeps (pump_inv E i n0 st0)) (drained_and_closed E c :: ('w, 'k, 'z, bool) task)" for c
    by (rule pump_io_step [OF io_step_drained])
      (simp add: drained_and_closed_def available_def peer_closed_trace)
  have st: "state_io_rel (keeps (pump_inv E i n0 st0)) (stalled E i :: ('w, 'k, 'z, bool) task)"
    unfolding stalled_def the_sub_def
    by (intro io_rule pump_io_step [OF io_step_prims(1)]) (simp add: millis_def)
  have c: "state_io_rel (keeps (pump_inv E i n0 st0)) (close_relay_sub E i :: ('w, 'k, 'z, unit) task)"
    by (rule keepsI) (rule pump_close)
  have live: "state_io_rel (keeps (pump_inv E i n0 st0)) (do {
       _ \<leftarrow> (relay_pass E i :: ('w, 'k, 'z, unit) task);
       b2 \<leftarrow> the_sub i;
       rvd_closed \<leftarrow> drained_and_closed E (sb_rvd b2);
       local_closed \<leftarrow> drained_and_closed E (sb_local b2);
       if rvd_closed \<or> local_closed then close_relay_sub E i
       else do { st \<leftarrow> stalled E i; when_st st (close_relay_sub E i) } })"
    unfolding the_sub_def by (intro io_rule pump_relay_pass assms k st c)
  show "pump_inv E i n0 st0 (post (service_sub E i) s)"
    using inv pump_drain_pass [of s i E n0 st0] keepsD [OF live inv] by (simp add: service_sub_def)
qed

text \<open>A sub that is still active has kept its sockets and whether it is encrypted.\<close>

definition same_socks :: "nat \<Rightarrow> ('w, 'k, 'z) rtask_scheme \<Rightarrow> ('w, 'k, 'z) rtask_scheme \<Rightarrow> bool" where
  "same_socks i s s' \<longleftrightarrow> length (t_subs s') = length (t_subs s) \<and>
     (i < length (t_subs s) \<longrightarrow> sb_active (t_subs s' ! i) \<longrightarrow>
        sb_active (t_subs s ! i) \<and> sb_rvd (t_subs s' ! i) = sb_rvd (t_subs s ! i) \<and>
        sb_local (t_subs s' ! i) = sb_local (t_subs s ! i) \<and>
        sb_encrypted (t_subs s' ! i) = sb_encrypted (t_subs s ! i))"

lemma same_socks_preorder [io_rule]: "preorder_rel (same_socks i)"
  by (rule preorder_relI) (auto simp: same_socks_def)

lemma same_socks_io: "state_io_rel io_step m \<Longrightarrow> state_io_rel (same_socks i) m"
  unfolding state_io_rel_post same_socks_def by (metis io_stepD(1))

lemma same_socks_upd:
  "(\<And>b. sb_active (f b) = sb_active b \<and> sb_rvd (f b) = sb_rvd b \<and> sb_local (f b) = sb_local b \<and>
      sb_encrypted (f b) = sb_encrypted b) \<Longrightarrow> state_io_rel (same_socks i) (upd_sub i f)"
  by (auto simp: state_io_rel_post same_socks_def)

lemma same_socks_other:
  "state_io_rel (same_socks i) (upd_relay f)" "state_io_rel (same_socks i) (upd_pcb h)"
  "state_io_rel (same_socks i) (modify_st (t_activity_update a))"
  "state_io_rel (same_socks i) (modify_st (t_idle_since_update t))"
  "state_io_rel (same_socks i) (the_sub j)" "state_io_rel (same_socks i) (rdo w)"
  by (auto simp: state_io_rel_post same_socks_def)

lemma same_socks_crypt: "state_io_rel (same_socks i) (crypt_step mb d i bs)"
  unfolding crypt_step_def
  by (intro io_rule same_socks_other same_socks_upd) (metis crypt_sub_fields crypt_sub_socks prod.collapse)

lemma same_socks_count: "state_io_rel (same_socks i) (count_bytes d i n)"
  unfolding count_bytes_def by (cases d) (auto intro!: io_rule same_socks_upd same_socks_other)

lemma same_socks_activity: "state_io_rel (same_socks i) (note_activity E i)"
  unfolding note_activity_def
  by (intro io_rule same_socks_other same_socks_upd same_socks_io [OF io_step_prims(1)]) simp

lemma same_socks_start_drain: "state_io_rel (same_socks i) (start_drain E i)"
  unfolding start_drain_def by (intro io_rule same_socks_upd same_socks_io [OF io_step_prims(1)]) simp

lemma same_socks_close: "state_io_rel (same_socks i) (close_relay_sub E i)"
  by (auto simp: state_io_rel_post same_socks_def close_subs reset_sub_def)

lemmas same_socks_rules = same_socks_other same_socks_crypt same_socks_count same_socks_activity
  same_socks_start_drain same_socks_close
  same_socks_io [OF io_step_prims(1)] same_socks_io [OF io_step_prims(4)]
  same_socks_io [OF io_step_prims(5)] same_socks_io [OF io_step_prims(9)] same_socks_io [OF io_step_drained]

lemma same_socks_dirs:
  "state_io_rel (same_socks i) (relay_dir E d i)" "state_io_rel (same_socks i) (drain_dir E d i)"
  unfolding relay_dir_def flush_dir_def forward_dir_def forward_read_def drain_dir_def drain_flush_def drain_forward_def
  by (intro io_rule same_socks_rules same_socks_upd; simp)+

lemma same_socks_service: "state_io_rel (same_socks i) (service_sub E i)"
  unfolding service_sub_def relay_pass_def drain_pass_def drain_done_def stalled_def
  by (intro io_rule same_socks_rules same_socks_dirs same_socks_upd) simp

section \<open>Properties\<close>

text \<open>Rounds of the main loop for one sub-connection; between two of them the rest of the world may do
  anything.\<close>

definition service_rounds ::
  "('w, 'k, 'j, 'e) env_scheme \<Rightarrow> nat \<Rightarrow> ('w \<Rightarrow> 'w) list \<Rightarrow> ('w, 'k, 'z, unit) task" where
  "service_rounds E i ws = for_each ws (\<lambda>f. do { rdo f; service_sub E i })"

lemma pump_rounds:
  assumes "ctr_length (e_mb E)" "pump_inv E i n0 st0 s"
  shows "pump_inv E i n0 st0 (post (service_rounds E i ws) s)"
proof -
  have r: "state_io_rel (keeps (pump_inv E i n0 st0)) (rdo f)" for f
    by (rule pump_io_step [OF io_step_rdo]) simp
  have "state_io_rel (keeps (pump_inv E i n0 st0)) (service_rounds E i ws)" unfolding service_rounds_def
    by (intro io_rule r pump_service assms(1))
  from keepsD [OF this assms(2)] show ?thesis .
qed

lemma same_socks_rounds: "state_io_rel (same_socks i) (service_rounds E i ws)"
  unfolding service_rounds_def by (intro io_rule same_socks_rules same_socks_service)

text \<open>C3: no byte is lost, duplicated, reordered or invented. From a freshly opened sub-connection on,
  through any number of rounds of the main loop with any partial writes and any behaviour of the
  network, what was sent on the one socket followed by what waits in the pending buffer is exactly
  what was read from the other one, passed once through the direction's AES-CTR stream when the sub
  is encrypted; this in both directions, as long as the sub is live and no write failed.\<close>
theorem relay_stream_integrity:
  assumes "i < length (t_subs s)" "t_subs s ! i = b" "sb_active b" "\<not> sb_draining b"
    and "sb_rvd b = Some r" "sb_local b = Some l" "r \<noteq> l" "sb_pending_rvd b = []" "sb_pending_local b = []"
    and "sb_encrypted b \<longrightarrow> sb_dec_state b = Some dec \<and> sb_enc_state b = Some enc"
    and "ctr_length (e_mb E)"
    and "s' = post (service_rounds E i ws) s" "tr = drop (length (t_trace s)) (t_trace s')"
    and "sb_active (t_subs s' ! i)" "\<not> sb_draining (t_subs s' ! i)"
  shows "sent_on l tr @ sb_pending_local (t_subs s' ! i) =
      (if sb_encrypted b then snd (ctr_run (e_mb E) dec (reads_on (Some r) tr)) else concat (reads_on (Some r) tr)) \<and>
    sent_on r tr @ sb_pending_rvd (t_subs s' ! i) =
      (if sb_encrypted b then snd (ctr_run (e_mb E) enc (reads_on (Some l) tr)) else concat (reads_on (Some l) tr))"
proof -
  define st0 where "st0 = (\<lambda>d. case d of To_local \<Rightarrow> dec | To_rvd \<Rightarrow> enc)"
  have f: "fifo E i (length (t_trace s)) st0 d s" for d
    using assms(2,5-10) by (cases d) (auto simp: fifo_def Let_def st0_def src_def dst_def pending_def cipher_def)
  have "pump_inv E i (length (t_trace s)) st0 s"
    using assms(1,2,5-7) f by (simp add: pump_inv_def)
  from pump_rounds [OF assms(11) this, of ws] have inv: "pump_inv E i (length (t_trace s)) st0 s'"
    unfolding assms(12) .
  have same: "sb_rvd (t_subs s' ! i) = Some r" "sb_local (t_subs s' ! i) = Some l"
    "sb_encrypted (t_subs s' ! i) = sb_encrypted b"
    using io_relD [OF same_socks_rounds, of i s E ws] assms(1,2,5,6,14) unfolding assms(12) same_socks_def by auto
  have "fifo E i (length (t_trace s)) st0 d s'" for d
    using inv assms(14,15) by (simp add: pump_inv_def)
  from this [of To_local] this [of To_rvd] show ?thesis
    using same by (auto simp: fifo_def Let_def st0_def src_def dst_def pending_def assms(13) split: if_splits)
qed

lemma relay_stream_integrity_witness:
  "let s' = post (service_rounds example_env 0 [\<lambda>w. w]) example_task; tr = t_trace s' in
   sent_on 4 tr @ sb_pending_local (t_subs s' ! 0) =
     snd (ctr_run (e_mb example_env) (the (sb_dec_state example_sub)) (reads_on (Some 3) tr)) \<and>
   sent_on 3 tr @ sb_pending_rvd (t_subs s' ! 0) =
     snd (ctr_run (e_mb example_env) (the (sb_enc_state example_sub)) (reads_on (Some 4) tr)) \<and>
   sent_on 4 tr = [248, 247]"
proof -
  let ?s' = "post (service_rounds example_env 0 [\<lambda>w. w]) example_task"
  have a: "sb_active (t_subs ?s' ! 0)" "\<not> sb_draining (t_subs ?s' ! 0)" "sent_on 4 (t_trace ?s') = [248, 247]"
    by code_simp+
  have e: "t_trace example_task = []" "t_subs example_task = [example_sub]" "sb_encrypted example_sub"
    by (simp_all add: example_task_def example_sub_def)
  have "sent_on 4 (t_trace ?s') @ sb_pending_local (t_subs ?s' ! 0) =
      (if sb_encrypted example_sub then snd (ctr_run (e_mb example_env) (the (sb_dec_state example_sub)) (reads_on (Some 3) (t_trace ?s')))
       else concat (reads_on (Some 3) (t_trace ?s'))) \<and>
    sent_on 3 (t_trace ?s') @ sb_pending_rvd (t_subs ?s' ! 0) =
      (if sb_encrypted example_sub then snd (ctr_run (e_mb example_env) (the (sb_enc_state example_sub)) (reads_on (Some 4) (t_trace ?s')))
       else concat (reads_on (Some 4) (t_trace ?s')))"
    by (rule relay_stream_integrity [of 0 example_task example_sub 3 4 _ _ example_env ?s' "[\<lambda>w. w]" "t_trace ?s'"])
      (simp_all add: e a example_ctr_length, simp_all add: example_sub_def zero_sub_def)
  with a e show ?thesis by (simp add: Let_def)
qed

end
