(* ===== verification/Relay_Multi.thy ===== *)
theory Relay_Multi
  imports Relay_Pump "HOL-Library.Multiset"
begin

text \<open>
  \<open>_relay_task_inner_multi\<close>: the multi-session relay task. It opens one control connection to the
  rendezvous server, reads newline-terminated messages from it, opens a sub-connection for each
  \<open>connect:\<close> message and serves all sub-connections in turn, until it is told to stop, the control
  channel is lost, or nothing has happened for the idle timeout. Counters and calls that only feed
  log lines are left out.
\<close>

section \<open>The control channel\<close>

definition CTRL_MSG_SIZE :: nat where "CTRL_MSG_SIZE = 384"

text \<open>One decoded byte: the new contents of the line buffer and, at the end of a non-empty line, the
  line. A byte that does not fit is dropped.\<close>

definition ctrl_push :: "bytes \<Rightarrow> u8 \<Rightarrow> bytes \<times> bytes option" where
  "ctrl_push msg b =
     (if b = 10 then ([], if msg = [] then None else Some msg)
      else if length msg < CTRL_MSG_SIZE - 1 then (msg @ [b], None) else (msg, None))"

definition note_ctrl :: "('w, 'k, 'j, 'e) env_scheme \<Rightarrow> ('w, 'k, 'z, unit) task" where
  "note_ctrl E = do {
     now \<leftarrow> millis E;
     modify_st (\<lambda>s. s\<lparr>t_idle_since := now, t_activity := True\<rparr>) }"

text \<open>A complete line; true when the read loop stops there.\<close>

definition ctrl_line :: "('w, 'k, 'j, 'e) env_scheme \<Rightarrow> bytes \<Rightarrow> ('w, 'k, 'z, bool) task" where
  "ctrl_line E line =
     (if starts_with ''connect:'' (c_string line) then do {
        _ \<leftarrow> handle_connect_msg E (c_string line); note_ctrl E; ret True }
      else if starts_with ''heartbeat:'' (c_string line) then do { note_ctrl E; ret False }
      else ret False)"

definition ctrl_decode :: "('w, 'k, 'j, 'e) env_scheme \<Rightarrow> u8 \<Rightarrow> ('w, 'k, 'z, u8) task" where
  "ctrl_decode E raw = do {
     dec \<leftarrow> gets t_ctrl_dec;
     case dec of
       None \<Rightarrow> ret raw
     | Some st \<Rightarrow> (case mb_crypt_ctr (e_mb E) st [raw] of (st', out) \<Rightarrow> do {
         modify_st (t_ctrl_dec_update (\<lambda>_. Some st'));
         ret (case out of b # _ \<Rightarrow> b | [] \<Rightarrow> raw) }) }"

definition ctrl_byte :: "('w, 'k, 'j, 'e) env_scheme \<Rightarrow> u8 \<Rightarrow> ('w, 'k, 'z, bool) task" where
  "ctrl_byte E b = do {
     msg \<leftarrow> gets t_ctrl_msg;
     modify_st (t_ctrl_msg_update (\<lambda>_. fst (ctrl_push msg b)));
     case snd (ctrl_push msg b) of None \<Rightarrow> ret False | Some line \<Rightarrow> ctrl_line E line }"

fun read_ctrl :: "nat \<Rightarrow> ('w, 'k, 'j, 'e) env_scheme \<Rightarrow> ('w, 'k, 'z, unit) task" where
  "read_ctrl 0 E = do { c \<leftarrow> gets t_ctrl; a \<leftarrow> available E c; if a then diverge () else ret () }"
| "read_ctrl (Suc fuel) E = do {
     c \<leftarrow> gets t_ctrl;
     a \<leftarrow> available E c;
     if \<not> a then ret ()
     else do {
       r \<leftarrow> sock_read E c 1;
       case r of
         Got [raw] \<Rightarrow> do {
           decoded \<leftarrow> ctrl_decode E raw;
           stop \<leftarrow> ctrl_byte E decoded;
           if stop then ret () else read_ctrl fuel E }
       | _ \<Rightarrow> ret () } }"

section \<open>When to leave the main loop\<close>

definition DRAIN_TIMEOUT_MS :: u32 where "DRAIN_TIMEOUT_MS = 15000"

definition idle_timeout_of :: "relay_config \<Rightarrow> u32" where
  "idle_timeout_of cfg = (if rc_idle_timeout_ms cfg > 0 then rc_idle_timeout_ms cfg else 60000)"

definition no_sessions :: "('w, 'k, 'z, bool) task" where
  "no_sessions = gets (\<lambda>s. rl_active_sessions (t_relay s) = 0)"

text \<open>The control channel is gone; true for the \<open>break\<close>.\<close>

definition check_ctrl_lost :: "('w, 'k, 'j, 'e) env_scheme \<Rightarrow> ('w, 'k, 'z, bool) task" where
  "check_ctrl_lost E = do {
     lost \<leftarrow> gets t_ctrl_lost;
     if lost then ret False
     else do {
       c \<leftarrow> gets t_ctrl;
       gone \<leftarrow> drained_and_closed E c;
       if \<not> gone then ret False
       else do {
         now \<leftarrow> millis E;
         modify_st (\<lambda>s. s\<lparr>t_ctrl_lost := True, t_ctrl_lost_since := now\<rparr>);
         no_sessions } } }"

definition check_drain_timeout :: "('w, 'k, 'j, 'e) env_scheme \<Rightarrow> ('w, 'k, 'z, bool) task" where
  "check_drain_timeout E = do {
     lost \<leftarrow> gets t_ctrl_lost;
     if \<not> lost then ret False
     else do {
       none \<leftarrow> no_sessions;
       if none then ret True
       else do {
         now \<leftarrow> millis E;
         gets (\<lambda>s. now - t_ctrl_lost_since s > DRAIN_TIMEOUT_MS) } } }"

definition check_idle :: "('w, 'k, 'j, 'e) env_scheme \<Rightarrow> ('w, 'k, 'z, bool) task" where
  "check_idle E = do {
     none \<leftarrow> no_sessions;
     if \<not> none then ret False
     else do {
       now \<leftarrow> millis E;
       gets (\<lambda>s. now - t_idle_since s > idle_timeout_of (rl_config (t_relay s))) } }"

definition should_leave :: "('w, 'k, 'j, 'e) env_scheme \<Rightarrow> ('w, 'k, 'z, bool) task" where
  "should_leave E = do {
     b1 \<leftarrow> check_ctrl_lost E;
     if b1 then ret True
     else do {
       b2 \<leftarrow> check_drain_timeout E;
       if b2 then ret True else check_idle E } }"

section \<open>Memory, yielding and CPU accounting\<close>

definition critical_evict :: "('w, 'k, 'j, 'e) env_scheme \<Rightarrow> ('w, 'k, 'z, unit) task" where
  "critical_evict E = do {
     v1 \<leftarrow> find_oldest_active_sub E CRITICAL_MIN_IDLE_MS;
     v \<leftarrow> (case v1 of Some _ \<Rightarrow> ret v1 | None \<Rightarrow> find_evictable_sub E);
     case v of Some i \<Rightarrow> close_relay_sub E i | None \<Rightarrow> ret () }"

definition oom_guard :: "('w, 'k, 'j, 'e) env_scheme \<Rightarrow> ('w, 'k, 'z, unit) task" where
  "oom_guard E = do {
     cur_heap \<leftarrow> rx (e_free_heap E);
     if cur_heap < HEAP_OOM_FLOOR then do {
       modify_st (t_oom_mode_update (\<lambda>_. True));
       when_st (cur_heap < HEAP_CRITICAL_LOW) (critical_evict E);
       task_delay E 50 }
     else modify_st (t_oom_mode_update (\<lambda>_. False)) }"

text \<open>The nominal delay of an iteration, which is also its weight in the CPU figure.\<close>

definition iter_ms :: "bool \<Rightarrow> u8 \<Rightarrow> u32" where
  "iter_ms activity sessions =
     (if activity then 1 else (let s = (if sessions > 0 then unat sessions else 1) in word_of_nat (min s 4 * 3)))"

definition cpu_account :: "u32 \<Rightarrow> bool \<Rightarrow> u32 \<Rightarrow> ('w, 'k, 'z) rtask_scheme \<Rightarrow> ('w, 'k, 'z) rtask_scheme" where
  "cpu_account ms activity now s =
     (let total = t_total_ms s + ms; busy = (if activity then t_busy_ms s + ms else t_busy_ms s) in
      if now - t_cpu_win_ms s \<ge> 1000 then
        (let p = (ucast (if total > 0 then busy * 100 div total else 0) :: u8) in
         s\<lparr>t_busy_ms := 0, t_total_ms := 0, t_cpu_win_ms := now, t_cpu_pct := (if p > 100 then 100 else p)\<rparr>)
      else s\<lparr>t_busy_ms := busy, t_total_ms := total\<rparr>)"

definition multi_yield :: "('w, 'k, 'j, 'e) env_scheme \<Rightarrow> ('w, 'k, 'z, unit) task" where
  "multi_yield E = do {
     activity \<leftarrow> gets t_activity;
     sessions \<leftarrow> gets (\<lambda>s. rl_active_sessions (t_relay s));
     task_delay E (iter_ms activity sessions);
     now \<leftarrow> millis E;
     modify_st (cpu_account (iter_ms activity sessions) activity now) }"

section \<open>The main loop\<close>

definition service_all :: "('w, 'k, 'j, 'e) env_scheme \<Rightarrow> ('w, 'k, 'z, unit) task" where
  "service_all E = do { n \<leftarrow> gets (\<lambda>s. length (t_subs s)); for_each [0..<n] (service_sub E) }"

text \<open>One iteration; false for a \<open>break\<close>.\<close>

definition multi_iteration :: "('w, 'k, 'j, 'e) env_scheme \<Rightarrow> ('w, 'k, 'z, bool) task" where
  "multi_iteration E = do {
     modify_st (t_activity_update (\<lambda>_. False));
     read_ctrl (e_fuel E) E;
     service_all E;
     update_active_session_count;
     leave \<leftarrow> should_leave E;
     if leave then ret False
     else do { oom_guard E; multi_yield E; ret True } }"

fun multi_loop :: "nat \<Rightarrow> ('w, 'k, 'j, 'e) env_scheme \<Rightarrow> ('w, 'k, 'z, unit) task" where
  "multi_loop 0 E = do { run \<leftarrow> rx (e_should_run E); if run then diverge () else ret () }"
| "multi_loop (Suc fuel) E = do {
     run \<leftarrow> rx (e_should_run E);
     if \<not> run then ret ()
     else do {
       go \<leftarrow> multi_iteration E;
       if go then multi_loop fuel E else ret () } }"

section \<open>Start and cleanup\<close>

text \<open>Phase 1: the control connection; false for \<open>goto cleanup\<close>.\<close>

definition multi_ready ::
  "('w, 'k, 'j, 'e) env_scheme \<Rightarrow> relay_config \<Rightarrow> sock \<Rightarrow> ('w, 'k, 'z, bool) task" where
  "multi_ready E cfg c =
     (if c = None then do { set_state RELAY_ERROR; ret False }
      else do {
        upd_pcb (\<lambda>n. n + 1);
        auth \<leftarrow> sock_auth E c cfg (set_state RELAY_AUTHENTICATING);
        if \<not> auth then do { set_state RELAY_ERROR; ret False }
        else do {
          modify_st (\<lambda>s. s\<lparr>t_ctrl_dec := rl_decrypter (t_relay s)\<rparr>);
          upd_relay (\<lambda>r. r\<lparr>rl_encrypter := None, rl_decrypter := None\<rparr>);
          set_state RELAY_RUNNING;
          now \<leftarrow> millis E;
          upd_relay (rl_start_ms_update (\<lambda>_. now));
          now2 \<leftarrow> millis E;
          modify_st (t_idle_since_update (\<lambda>_. now2));
          ret True } })"

definition multi_open :: "('w, 'k, 'j, 'e) env_scheme \<Rightarrow> ('w, 'k, 'z, bool) task" where
  "multi_open E = do {
     set_state RELAY_CONNECTING;
     cfg \<leftarrow> gets (\<lambda>s. rl_config (t_relay s));
     c \<leftarrow> sock_connect E (rc_rvd_host cfg) (rc_rvd_port cfg);
     modify_st (t_ctrl_update (\<lambda>_. c));
     multi_ready E cfg c }"

text \<open>The strings of the configuration that the task owns are freed (the key material zeroed first);
  the signing key belongs to the daemon and stays.\<close>

definition clear_config :: "relay_config \<Rightarrow> relay_config" where
  "clear_config cfg = cfg\<lparr>rc_rvd_host := None, rc_local_host := None, rc_rvd_auth_string := None,
     rc_relay_auth_aes_key := None, rc_escr_signing_key_uri := None, rc_session_aes_key := None,
     rc_session_iv := None, rc_session_aes_key_d2c := None, rc_session_iv_d2c := None\<rparr>"

definition close_if_active :: "('w, 'k, 'j, 'e) env_scheme \<Rightarrow> nat \<Rightarrow> ('w, 'k, 'z, unit) task" where
  "close_if_active E i = do { b \<leftarrow> the_sub i; when_st (sb_active b) (close_relay_sub E i) }"

definition multi_cleanup :: "('w, 'k, 'j, 'e) env_scheme \<Rightarrow> ('w, 'k, 'z, unit) task" where
  "multi_cleanup E = do {
     n \<leftarrow> gets (\<lambda>s. length (t_subs s));
     for_each [0..<n] (close_if_active E);
     upd_relay (rl_active_sessions_update (\<lambda>_. 0));
     c \<leftarrow> gets t_ctrl;
     sock_stop E c;
     upd_pcb (\<lambda>n. if n - 1 < 0 then 0 else n - 1);
     modify_st (\<lambda>s. s\<lparr>t_ctrl := None, t_ctrl_dec := None, t_subs := []\<rparr>);
     upd_relay (\<lambda>r. r\<lparr>rl_encrypter := None, rl_decrypter := None, rl_config := clear_config (rl_config r)\<rparr>);
     upd_relay (\<lambda>r. r\<lparr>rl_state := RELAY_STOPPED, rl_task_handle := None\<rparr>);
     modify_st (\<lambda>s. s\<lparr>t_busy_ms := 0, t_total_ms := 0, t_cpu_pct := 0\<rparr>) }"

definition n_subs_of :: "relay_config \<Rightarrow> nat" where
  "n_subs_of cfg =
     (if rc_max_subs cfg \<ge> 1 \<and> unat (rc_max_subs cfg) \<le> MAX_RELAY_SUBS then unat (rc_max_subs cfg) else MAX_RELAY_SUBS)"

text \<open>The locals of the task as they are declared.\<close>

definition multi_init :: "('w, 'k, 'z, unit) task" where
  "multi_init = do {
     modify_st (\<lambda>s. s\<lparr>t_subs := replicate (n_subs_of (rl_config (t_relay s))) zero_sub, t_ctrl := None,
       t_ctrl_dec := None, t_ctrl_msg := [], t_idle_since := 0, t_ctrl_lost := False, t_ctrl_lost_since := 0\<rparr>);
     upd_relay (rl_active_sessions_update (\<lambda>_. 0)) }"

definition multi_session :: "('w, 'k, 'j, 'e) env_scheme \<Rightarrow> ('w, 'k, 'z, unit) task" where
  "multi_session E = do {
     multi_init;
     go \<leftarrow> multi_open E;
     when_st go (multi_loop (e_fuel E) E);
     multi_cleanup E }"

definition relay_task_inner_multi :: "('w, 'k, 'j, 'e) env_scheme \<Rightarrow> ('w, 'k, 'z, unit) task" where
  "relay_task_inner_multi E = do {
     ok1 \<leftarrow> rx (e_alloc E RELAY_BUF_SIZE);
     ok2 \<leftarrow> rx (e_alloc E RELAY_BUF_SIZE);
     if \<not> (ok1 \<and> ok2) then set_state RELAY_ERROR
     else do {
       heap \<leftarrow> rx (e_free_heap E);
       if heap < 30000 then set_state RELAY_ERROR
       else do {
         ok3 \<leftarrow> rx (e_alloc E 1);
         if \<not> ok3 then set_state RELAY_ERROR else multi_session E } } }"

section \<open>Facts\<close>

lemma sum_list_empty [simp]: "sum_list (replicate k {#}) = {#}"
  by (induction k) simp_all

subsection \<open>Sockets\<close>

definition opened :: "io list \<Rightarrow> int list" where
  "opened tr = concat (map (\<lambda>e. case e of Io_connect _ _ (Some fd) \<Rightarrow> [fd] | _ \<Rightarrow> []) tr)"

definition stopped :: "io list \<Rightarrow> int list" where
  "stopped tr = concat (map (\<lambda>e. case e of Io_stop (Some fd) \<Rightarrow> [fd] | _ \<Rightarrow> []) tr)"

definition socks :: "sock \<Rightarrow> int multiset" where
  "socks c = (case c of None \<Rightarrow> {#} | Some fd \<Rightarrow> {#fd#})"

definition sub_socks :: "'k sub \<Rightarrow> int multiset" where
  "sub_socks b = socks (sb_rvd b) + socks (sb_local b)"

definition held :: "('w, 'k, 'z) rtask_scheme \<Rightarrow> int multiset" where
  "held s = socks (t_ctrl s) + sum_list (map sub_socks (t_subs s))"

lemma trace_socks_simps [simp]:
  "opened [] = []" "stopped [] = []"
  "opened (t @ t') = opened t @ opened t'" "stopped (t @ t') = stopped t @ stopped t'"
  "opened [Io_read c bs] = []" "stopped [Io_read c bs] = []" "opened [Io_sent fd bs] = []" "stopped [Io_sent fd bs] = []"
  "opened [Io_print c x] = []" "stopped [Io_print c x] = []"
  "opened [Io_stop c] = []" "stopped [Io_connect h p c] = []"
  "mset (opened [Io_connect h p c]) = socks c" "mset (stopped [Io_stop c]) = socks c"
  by (auto simp: opened_def stopped_def socks_def split: option.splits)

lemma socks_None [simp]: "socks None = {#}"
  by (simp add: socks_def)

lemma sum_list_upd:
  fixes f :: "'a \<Rightarrow> int multiset"
  shows "i < length xs \<Longrightarrow> sum_list (map f (xs[i := y])) + f (xs ! i) = sum_list (map f xs) + f y"
proof (induction xs arbitrary: i)
  case (Cons x xs)
  then show ?case by (cases i) (auto simp: add_ac)
qed simp

text \<open>The invariant: every socket opened since the trace was \<open>T\<close> has been stopped or is held by the
  control channel or a slot; inactive slots, those in \<open>X\<close> apart, hold none.\<close>

definition sock_inv :: "io list \<Rightarrow> nat \<Rightarrow> nat set \<Rightarrow> ('w, 'k, 'z) rtask_scheme \<Rightarrow> bool" where
  "sock_inv T n X s \<longleftrightarrow> length (t_subs s) = n \<and>
     (\<exists>tr. t_trace s = T @ tr \<and> mset (opened tr) = mset (stopped tr) + held s) \<and>
     (\<forall>k < n. k \<notin> X \<longrightarrow> \<not> sb_active (t_subs s ! k) \<longrightarrow> sb_rvd (t_subs s ! k) = None \<and> sb_local (t_subs s ! k) = None)"

definition sock_view :: "'k sub \<Rightarrow> sock \<times> sock \<times> bool" where
  "sock_view b = (sb_rvd b, sb_local b, sb_active b)"

text \<open>Operations that open and close nothing.\<close>

definition sock_quiet :: "('w, 'k, 'z) rtask_scheme \<Rightarrow> ('w, 'k, 'z) rtask_scheme \<Rightarrow> bool" where
  "sock_quiet s s' \<longleftrightarrow> (\<exists>tr. t_trace s' = t_trace s @ tr \<and> opened tr = [] \<and> stopped tr = []) \<and>
     t_ctrl s' = t_ctrl s \<and> map sock_view (t_subs s') = map sock_view (t_subs s)"

lemma sock_quiet_preorder [io_rule]: "preorder_rel sock_quiet"
  by (rule preorder_relI) (auto simp: sock_quiet_def)

lemma sub_socks_view: "map sock_view xs = map sock_view ys \<Longrightarrow> map sub_socks xs = map sub_socks ys"
proof -
  have "sub_socks = (\<lambda>(r, l, a). socks r + socks l) \<circ> sock_view"
    by (auto simp: fun_eq_iff sub_socks_def sock_view_def)
  then show "map sock_view xs = map sock_view ys \<Longrightarrow> map sub_socks xs = map sub_socks ys"
    by (metis List.map.compositionality)
qed

lemma sock_viewD:
  "map sock_view xs = map sock_view ys \<Longrightarrow> length xs = length ys"
  "map sock_view xs = map sock_view ys \<Longrightarrow> k < length ys \<Longrightarrow>
     sb_rvd (xs ! k) = sb_rvd (ys ! k) \<and> sb_local (xs ! k) = sb_local (ys ! k) \<and> sb_active (xs ! k) = sb_active (ys ! k)"
proof -
  show *: "map sock_view xs = map sock_view ys \<Longrightarrow> length xs = length ys" by (rule map_eq_imp_length_eq)
  assume "map sock_view xs = map sock_view ys" "k < length ys"
  then have "sock_view (xs ! k) = sock_view (ys ! k)" using * by (metis nth_map)
  then show "sb_rvd (xs ! k) = sb_rvd (ys ! k) \<and> sb_local (xs ! k) = sb_local (ys ! k) \<and> sb_active (xs ! k) = sb_active (ys ! k)"
    by (simp add: sock_view_def)
qed

lemma sock_inv_quiet:
  assumes "sock_inv T n X s" "sock_quiet s s'"
  shows "sock_inv T n X s'"
proof -
  from assms(2) have v: "map sock_view (t_subs s') = map sock_view (t_subs s)" by (simp add: sock_quiet_def)
  from assms obtain tr tr' where "t_trace s = T @ tr" "mset (opened tr) = mset (stopped tr) + held s"
    "t_trace s' = t_trace s @ tr'" "opened tr' = []" "stopped tr' = []" "t_ctrl s' = t_ctrl s"
    unfolding sock_inv_def sock_quiet_def by blast
  then have "t_trace s' = T @ (tr @ tr')" "mset (opened (tr @ tr')) = mset (stopped (tr @ tr')) + held s'"
    using sub_socks_view [OF v] by (simp_all add: held_def)
  then show ?thesis using assms(1) sock_viewD [OF v] unfolding sock_inv_def by (metis (no_types, lifting))
qed

lemma keeps_quiet: "state_io_rel sock_quiet m \<Longrightarrow> state_io_rel (keeps (sock_inv T n X)) m"
  unfolding state_io_rel_post keeps_def using sock_inv_quiet by blast

lemma quiet_upd_sub: "(\<And>b. sock_view (f b) = sock_view b) \<Longrightarrow> state_io_rel sock_quiet (upd_sub i f)"
proof -
  assume f: "\<And>b. sock_view (f b) = sock_view b"
  have "map sock_view (xs[i := f (xs ! i)]) = map sock_view xs" for xs
    by (cases "i < length xs") (simp_all add: map_update f list_update_same_conv list_update_beyond)
  then show ?thesis by (simp add: state_io_rel_post sock_quiet_def)
qed

lemma quiet_log: "opened [e] = [] \<Longrightarrow> stopped [e] = [] \<Longrightarrow> state_io_rel sock_quiet (log_io e)"
  by (simp add: state_io_rel_post sock_quiet_def)

lemma quiet_prims [io_intro]:
  "state_io_rel sock_quiet (rx f)" "state_io_rel sock_quiet (rdo g)"
  "state_io_rel sock_quiet (upd_relay r)" "state_io_rel sock_quiet (upd_pcb h)" "state_io_rel sock_quiet (set_state st)"
  "state_io_rel sock_quiet (diverge x)" "state_io_rel sock_quiet (the_sub i)"
  by (simp_all add: state_io_rel_post sock_quiet_def diverge_def)

lemma quiet_modify:
  "(\<And>s. t_trace (f s) = t_trace s \<and> t_ctrl (f s) = t_ctrl s \<and> t_subs (f s) = t_subs s) \<Longrightarrow> state_io_rel sock_quiet (modify_st f)"
  by (simp add: state_io_rel_post sock_quiet_def)

lemma quiet_io [io_intro]:
  "state_io_rel sock_quiet (millis E)" "state_io_rel sock_quiet (task_delay E ms)"
  "state_io_rel sock_quiet (available E c)" "state_io_rel sock_quiet (sock_read E c k)"
  "state_io_rel sock_quiet (sock_print E c t)" "state_io_rel sock_quiet (peer_closed E c)"
  "state_io_rel sock_quiet (write_nb E c bs)" "state_io_rel sock_quiet (drained_and_closed E c)"
  unfolding millis_def task_delay_def available_def sock_read_def sock_print_def peer_closed_def write_nb_def drained_and_closed_def
  by (intro io_rule io_intro quiet_log; simp)+

lemma quiet_poll_line [io_intro]: "state_io_rel sock_quiet (poll_line fuel E c t0 limit acc)"
proof (induction fuel arbitrary: acc)
  case 0
  then show ?case by (auto intro!: io_rule io_intro)
next
  case (Suc fuel)
  then show ?case by (auto intro!: io_rule io_intro)
qed

lemma quiet_sock_auth [io_intro]: "state_io_rel sock_quiet m \<Longrightarrow> state_io_rel sock_quiet (sock_auth E c cfg m)"
  unfolding sock_auth_def escr_authenticate_def escr_challenge_def escr_send_def escr_verdict_def escr_payload_def
    escr_inner_def escr_signature_def escr_envelope_def escr_encrypt_def escr_outer_def random_iv_def Let_def
    add_string_def print_fields_def mem_ok_def
  by (intro io_rule io_intro)

lemma quiet_count [io_intro]: "state_io_rel sock_quiet (count_bytes d i n)"
  unfolding count_bytes_def by (cases d) (auto intro!: io_rule io_intro quiet_upd_sub simp: sock_view_def)

lemma quiet_crypt [io_intro]: "state_io_rel sock_quiet (crypt_step mb d i bs)"
  unfolding crypt_step_def
  by (intro io_rule io_intro quiet_upd_sub)
    (simp add: sock_view_def, metis crypt_sub_fields crypt_sub_socks prod.collapse)

lemma quiet_activity [io_intro]: "state_io_rel sock_quiet (note_activity E i)"
  unfolding note_activity_def
  by (intro io_rule io_intro quiet_upd_sub quiet_modify) (simp_all add: sock_view_def)

lemma quiet_start_drain [io_intro]: "state_io_rel sock_quiet (start_drain E i)"
  unfolding start_drain_def by (intro io_rule io_intro quiet_upd_sub) (simp add: sock_view_def)

lemma sock_view_pending [simp]: "sock_view (set_pending d v b) = sock_view b"
  by (cases d) (simp_all add: sock_view_def set_pending_def)

lemma quiet_dirs [io_intro]:
  "state_io_rel sock_quiet (relay_dir E d i)" "state_io_rel sock_quiet (drain_dir E d i)"
  unfolding relay_dir_def flush_dir_def forward_dir_def forward_read_def drain_dir_def drain_flush_def drain_forward_def
  by (intro io_rule io_intro quiet_upd_sub quiet_modify; simp)+

lemma quiet_relay_pass [io_intro]: "state_io_rel sock_quiet (relay_pass E i)"
  unfolding relay_pass_def by (intro io_rule io_intro quiet_upd_sub) (simp add: sock_view_def)

lemma quiet_drain_done [io_intro]: "state_io_rel sock_quiet (drain_done E i)"
  unfolding drain_done_def by (intro io_rule io_intro)

lemma sock_inv_close:
  assumes "i < n" "sock_inv T n X s"
  shows "sock_inv T n X (post (close_relay_sub E i) s)"
proof -
  let ?s' = "post (close_relay_sub E i) s" and ?b = "t_subs s ! i"
  from assms obtain tr where len: "length (t_subs s) = n" and tr: "t_trace s = T @ tr"
    and bal: "mset (opened tr) = mset (stopped tr) + held s" unfolding sock_inv_def by blast
  have c: "t_ctrl ?s' = t_ctrl s" by (simp add: close_relay_sub_def)
  obtain tr' where tr': "t_trace ?s' = t_trace s @ tr'" "opened tr' = []" "mset (stopped tr') = sub_socks ?b"
    by (rule that [of "(if is_open (sb_rvd ?b) then [Io_stop (sb_rvd ?b)] else []) @
        (if is_open (sb_local ?b) then [Io_stop (sb_local ?b)] else [])"])
      (auto simp: close_relay_sub_def sub_socks_def is_open_def opened_def)
  have "sum_list (map sub_socks (t_subs ?s')) + sub_socks ?b = sum_list (map sub_socks (t_subs s)) + sub_socks (reset_sub ?b)"
    unfolding close_subs using len assms(1) by (intro sum_list_upd) simp
  then have "held s = held ?s' + sub_socks ?b" by (simp add: held_def c sub_socks_def reset_sub_def)
  then have "t_trace ?s' = T @ (tr @ tr')" "mset (opened (tr @ tr')) = mset (stopped (tr @ tr')) + held ?s'"
    using tr tr' bal by (simp_all add: add_ac)
  moreover have "\<forall>k < n. k \<notin> X \<longrightarrow> \<not> sb_active (t_subs ?s' ! k) \<longrightarrow> sb_rvd (t_subs ?s' ! k) = None \<and> sb_local (t_subs ?s' ! k) = None"
  proof (intro allI impI)
    fix k assume k: "k < n" "k \<notin> X" "\<not> sb_active (t_subs ?s' ! k)"
    show "sb_rvd (t_subs ?s' ! k) = None \<and> sb_local (t_subs ?s' ! k) = None"
      using k assms len by (cases "k = i") (auto simp: sock_inv_def close_subs reset_sub_def)
  qed
  ultimately show ?thesis using len unfolding sock_inv_def by (auto simp: close_subs)
qed

lemma keeps_close [io_intro]: "i < n \<Longrightarrow> state_io_rel (keeps (sock_inv T n X)) (close_relay_sub E i)"
  by (rule keepsI) (rule sock_inv_close)

lemma keeps_service: "i < n \<Longrightarrow> state_io_rel (keeps (sock_inv T n X)) (service_sub E i)"
  unfolding service_sub_def drain_pass_def stalled_def
  by (intro io_rule keeps_close keeps_quiet [OF quiet_relay_pass] keeps_quiet [OF quiet_drain_done]
      keeps_quiet [OF quiet_prims(7)] keeps_quiet [OF quiet_io(8)] keeps_quiet [OF quiet_io(1)])

text \<open>Evictions.\<close>

lemma sock_inv_length: "sock_inv T n X s \<Longrightarrow> length (t_subs s) = n"
  by (simp add: sock_inv_def)

lemma quiet_find [io_intro]:
  "state_io_rel sock_quiet (find_evictable_sub E)" "state_io_rel sock_quiet (find_oldest_active_sub E a)"
proof -
  have "state_io_rel sock_quiet (find_evictable_loop E now i oldest v bs)" for now i oldest v bs
    by (induction bs arbitrary: i oldest v) (auto intro!: io_rule io_intro)
  then show "state_io_rel sock_quiet (find_evictable_sub E)"
    unfolding find_evictable_sub_def by (intro io_rule io_intro)
  show "state_io_rel sock_quiet (find_oldest_active_sub E a)"
    unfolding find_oldest_active_sub_def by (intro io_rule io_intro)
qed

lemmas sock_inv_step = keepsD [OF keeps_quiet]

lemma sock_inv_reclaim:
  "sock_inv T n X s \<Longrightarrow> sock_inv T n X (post (reclaim_dead_subs E) s)"
proof -
  assume inv: "sock_inv T n X s"
  have "state_io_rel (keeps (sock_inv T n X)) (for_each [0..<n] (reclaim_one E))"
    unfolding reclaim_one_def
    by (intro io_rule keeps_close keeps_quiet [OF quiet_prims(7)] keeps_quiet [OF quiet_io(8)]) simp
  from keepsD [OF this inv] show ?thesis using inv by (simp add: reclaim_dead_subs_def sock_inv_length)
qed

lemma sock_inv_evict:
  assumes "sock_inv T n X s" "res (find_evictable_sub E) s = Some v"
  shows "sock_inv T n X (post (close_relay_sub E v) (post (millis E) (post (find_evictable_sub E) s)))"
proof -
  have "v < n" using find_evictable_sub_res [OF assms(2)] sock_inv_length [OF assms(1)] by simp
  then show ?thesis by (intro sock_inv_close sock_inv_step [OF quiet_io(1)] sock_inv_step [OF quiet_find(1)] assms(1))
qed

lemma sock_inv_pcb_guard:
  assumes "sock_inv T n X s"
  shows "sock_inv T n X (post (pcb_budget_guard E) s)"
  using assms sock_inv_evict [OF assms, of E] sock_inv_step [OF quiet_find(1) assms, of E]
  by (auto simp: pcb_budget_guard_def split: option.splits)

lemma sock_inv_choose:
  assumes "sock_inv T n X s"
  shows "sock_inv T n X (post (choose_slot E) s)"
  using assms sock_inv_evict [OF assms, of E] sock_inv_step [OF quiet_find(1) assms, of E]
  by (auto simp: choose_slot_def split: option.splits)

lemma choose_slot_inactive:
  assumes "res (choose_slot E) s = Some i"
  shows "\<not> sb_active (t_subs (post (choose_slot E) s) ! i)"
proof (cases "find_index (\<lambda>b. \<not> sb_active b) (t_subs s)")
  case (Some k)
  then show ?thesis using assms find_index_Some(2) [OF Some] by (simp add: choose_slot_def)
next
  case None
  with assms obtain v where v: "res (find_evictable_sub E) s = Some v" "i = v"
    by (auto simp: choose_slot_def split: option.splits)
  then show ?thesis using None find_evictable_sub_res [OF v(1)]
    by (simp add: choose_slot_def close_subs find_evictable_subs reset_sub_def)
qed

text \<open>Slot \<open>i\<close> while a connection is being opened: inactive, holding \<open>r\<close> and \<open>l\<close>.\<close>

definition half_open :: "io list \<Rightarrow> nat \<Rightarrow> nat \<Rightarrow> sock \<Rightarrow> sock \<Rightarrow> ('w, 'k, 'z) rtask_scheme \<Rightarrow> bool" where
  "half_open T n i r l s \<longleftrightarrow> sock_inv T n {i} s \<and> i < n \<and>
     sb_rvd (t_subs s ! i) = r \<and> sb_local (t_subs s ! i) = l \<and> \<not> sb_active (t_subs s ! i)"

lemma half_open_quiet: "state_io_rel sock_quiet m \<Longrightarrow> half_open T n i r l s \<Longrightarrow> half_open T n i r l (post m s)"
proof -
  assume m: "state_io_rel sock_quiet m" and s: "half_open T n i r l s"
  then have "sock_quiet s (post m s)" using io_relD [OF m] by blast
  then have "map sock_view (t_subs (post m s)) = map sock_view (t_subs s)" by (simp add: sock_quiet_def)
  from sock_viewD [OF this] s sock_inv_step [OF m] show ?thesis by (auto simp: half_open_def sock_inv_length)
qed

lemma half_open_start:
  "sock_inv T n {} s \<Longrightarrow> i < n \<Longrightarrow> \<not> sb_active (t_subs s ! i) \<Longrightarrow> half_open T n i None None s"
  by (auto simp: half_open_def sock_inv_def)

lemma half_open_abort: "half_open T n i None None s \<Longrightarrow> sock_inv T n {} s"
  by (auto simp: half_open_def sock_inv_def)

text \<open>The slot takes or gives up a socket.\<close>

lemma sock_inv_slot:
  assumes "half_open T n i r l s" "length (t_subs s) = n"
    and "t_trace s' = t_trace s @ tr'" "t_ctrl s' = t_ctrl s" "t_subs s' = (t_subs s)[i := b]"
    and "mset (opened tr') + socks r + socks l = mset (stopped tr') + sub_socks b"
    and "\<not> sb_active b \<Longrightarrow> i \<notin> X \<Longrightarrow> sb_rvd b = None \<and> sb_local b = None"
  shows "sock_inv T n X s'"
proof -
  from assms(1) obtain tr where tr: "t_trace s = T @ tr" and bal: "mset (opened tr) = mset (stopped tr) + held s"
    and i: "i < n" and at: "sub_socks (t_subs s ! i) = socks r + socks l"
    by (auto simp: half_open_def sock_inv_def sub_socks_def)
  have "sum_list (map sub_socks (t_subs s')) + sub_socks (t_subs s ! i) = sum_list (map sub_socks (t_subs s)) + sub_socks b"
    unfolding assms(5) using assms(2) i by (intro sum_list_upd) simp
  then have h: "held s' + (socks r + socks l) = held s + sub_socks b" by (simp add: held_def assms(4) at add_ac)
  have "mset (opened (tr @ tr')) + (socks r + socks l) = mset (stopped (tr @ tr')) + held s' + (socks r + socks l)"
  proof -
    have "mset (opened (tr @ tr')) + (socks r + socks l) = mset (opened tr) + (mset (opened tr') + socks r + socks l)"
      by (simp add: add_ac)
    also have "\<dots> = mset (stopped tr) + mset (stopped tr') + (held s + sub_socks b)"
      unfolding bal assms(6) by (simp only: add_ac)
    also have "\<dots> = mset (stopped (tr @ tr')) + held s' + (socks r + socks l)"
      unfolding h [symmetric] by (simp add: add_ac)
    finally show ?thesis .
  qed
  then have "mset (opened (tr @ tr')) = mset (stopped (tr @ tr')) + held s'" by simp
  moreover have "t_trace s' = T @ (tr @ tr')" using tr assms(3) by simp
  moreover have "\<forall>k < n. k \<notin> X \<longrightarrow> \<not> sb_active (t_subs s' ! k) \<longrightarrow> sb_rvd (t_subs s' ! k) = None \<and> sb_local (t_subs s' ! k) = None"
  proof (intro allI impI)
    fix k assume "k < n" "k \<notin> X" "\<not> sb_active (t_subs s' ! k)"
    then show "sb_rvd (t_subs s' ! k) = None \<and> sb_local (t_subs s' ! k) = None"
      using assms i by (cases "k = i") (auto simp: half_open_def sock_inv_def)
  qed
  ultimately show ?thesis using assms(2,5) unfolding sock_inv_def by auto
qed

lemma half_open_connect_rvd:
  assumes "half_open T n i None l s"
  shows "half_open T n i (res (sock_connect E h p) s) l
    (post (upd_sub i (sb_rvd_update (\<lambda>_. res (sock_connect E h p) s))) (post (sock_connect E h p) s))"
proof -
  have n: "length (t_subs s) = n" "i < n" using assms by (auto simp: half_open_def sock_inv_def)
  have "sock_inv T n {i} (post (upd_sub i (sb_rvd_update (\<lambda>_. res (sock_connect E h p) s))) (post (sock_connect E h p) s))"
    by (rule sock_inv_slot [OF assms n(1), of _ "[Io_connect h p (res (sock_connect E h p) s)]"])
      (use assms in \<open>auto simp: sock_connect_def sub_socks_def half_open_def\<close>)
  then show ?thesis using assms n by (simp add: half_open_def)
qed

lemma half_open_connect_local:
  assumes "half_open T n i r None s"
  shows "half_open T n i r (res (sock_connect E h p) s)
    (post (upd_sub i (sb_local_update (\<lambda>_. res (sock_connect E h p) s))) (post (sock_connect E h p) s))"
proof -
  have n: "length (t_subs s) = n" "i < n" using assms by (auto simp: half_open_def sock_inv_def)
  have "sock_inv T n {i} (post (upd_sub i (sb_local_update (\<lambda>_. res (sock_connect E h p) s))) (post (sock_connect E h p) s))"
    by (rule sock_inv_slot [OF assms n(1), of _ "[Io_connect h p (res (sock_connect E h p) s)]"])
      (use assms in \<open>auto simp: sock_connect_def sub_socks_def half_open_def\<close>)
  then show ?thesis using assms n by (simp add: half_open_def)
qed

lemma half_open_stop_rvd:
  assumes "half_open T n i r l s"
  shows "half_open T n i None l (post (upd_sub i (sb_rvd_update (\<lambda>_. None))) (post (sock_stop E r) s))"
proof -
  have n: "length (t_subs s) = n" "i < n" using assms by (auto simp: half_open_def sock_inv_def)
  have "sock_inv T n {i} (post (upd_sub i (sb_rvd_update (\<lambda>_. None))) (post (sock_stop E r) s))"
    by (rule sock_inv_slot [OF assms n(1), of _ "[Io_stop r]"])
      (use assms in \<open>auto simp: sub_socks_def half_open_def\<close>)
  then show ?thesis using assms n by (simp add: half_open_def)
qed

lemma half_open_activate:
  assumes "half_open T n i r l s"
  shows "sock_inv T n {} (post (upd_sub i (\<lambda>b. b\<lparr>sb_active := True, sb_last_activity_ms := t, sb_bytes_in := 0, sb_bytes_out := 0\<rparr>)) s)"
  by (rule sock_inv_slot [OF assms, of _ "[]"]) (use assms in \<open>auto simp: sub_socks_def half_open_def sock_inv_def\<close>)

lemma quiet_sub_fail [io_intro]: "state_io_rel sock_quiet (sub_fail i)"
  unfolding sub_fail_def by (intro io_rule io_intro quiet_upd_sub) (simp add: sock_view_def)

lemma quiet_setup [io_intro]: "state_io_rel sock_quiet (setup_sub_keys E i msg)"
  unfolding setup_sub_keys_def by (intro io_rule io_intro quiet_upd_sub) (simp_all add: sock_view_def)

lemma quiet_count_sessions [io_intro]: "state_io_rel sock_quiet update_active_session_count"
  unfolding update_active_session_count_def by (intro io_rule io_intro)

lemma sock_inv_open:
  fixes s :: "('w, 'k, 'z) rtask_scheme"
  assumes "half_open T n i None None s"
  shows "sock_inv T n {} (post (open_sub E i) s)"
proof -
  define cfg where "cfg = rl_config (t_relay s)"
  define r where "r = res (sock_connect E (rc_rvd_host cfg) (rc_rvd_port cfg)) s"
  define s1 where "s1 = post (upd_sub i (sb_rvd_update (\<lambda>_. r))) (post (sock_connect E (rc_rvd_host cfg) (rc_rvd_port cfg)) s)"
  have s1: "half_open T n i r None s1" unfolding s1_def r_def by (rule half_open_connect_rvd [OF assms])
  have fail: "sock_inv T n {} (post (sub_fail i) u)" if "half_open T n i None None u" for u :: "('w, 'k, 'z) rtask_scheme"
    by (rule half_open_abort [OF half_open_quiet [OF quiet_sub_fail that]])
  define s2 where "s2 = post (upd_pcb (\<lambda>n. n + 1)) s1"
  define s3 where "s3 = post (sock_auth E r cfg (ret ())) s2"
  have s3: "half_open T n i r None s3"
    unfolding s3_def s2_def by (intro half_open_quiet s1 io_intro) (intro io_rule)
  define s4 where "s4 = (\<lambda>u :: ('w, 'k, 'z) rtask_scheme. post (upd_pcb (\<lambda>n. n - 1)) (post (upd_sub i (sb_rvd_update (\<lambda>_. None))) (post (sock_stop E r) u)))"
  have s4: "half_open T n i None l (s4 u)" if "half_open T n i r l u" for u l
    unfolding s4_def by (intro half_open_quiet half_open_stop_rvd that io_intro)
  define l where "l = res (sock_connect E (rc_local_host cfg) (rc_local_port cfg)) s3"
  define s5 where "s5 = post (upd_sub i (sb_local_update (\<lambda>_. l))) (post (sock_connect E (rc_local_host cfg) (rc_local_port cfg)) s3)"
  have s5: "half_open T n i r l s5" unfolding s5_def l_def by (rule half_open_connect_local [OF s3])
  define s6 where "s6 = post (millis E) (post (upd_pcb (\<lambda>n. n + 1)) s5)"
  have s6: "half_open T n i r l s6" unfolding s6_def by (intro half_open_quiet s5 io_intro)
  define t where "t = res (millis E) (post (upd_pcb (\<lambda>n. n + 1)) s5)"
  define s7 where "s7 = post (upd_sub i (\<lambda>b. b\<lparr>sb_active := True, sb_last_activity_ms := t, sb_bytes_in := 0, sb_bytes_out := 0\<rparr>)) s6"
  have s7: "sock_inv T n {} (post update_active_session_count s7)"
    unfolding s7_def by (intro sock_inv_step [OF quiet_count_sessions] half_open_activate [OF s6])
  have "post (open_sub E i) s =
    (if r = None then post (sub_fail i) s1
     else if \<not> res (sock_auth E r cfg (ret ())) s2 then post (sub_fail i) (s4 s3)
     else if l = None then post (sub_fail i) (s4 s5) else post update_active_session_count s7)"
    by (simp only: open_sub_def post_simps res_simps cfg_def [symmetric] r_def [symmetric] s1_def [symmetric]
      s2_def [symmetric] s3_def [symmetric] s4_def l_def [symmetric] s5_def [symmetric] t_def [symmetric] s6_def [symmetric]
      s7_def [symmetric] if_distrib [of "\<lambda>m. post m _"])
  moreover have "r = None \<Longrightarrow> sock_inv T n {} (post (sub_fail i) s1)" using s1 fail by simp
  moreover have "l = None \<Longrightarrow> sock_inv T n {} (post (sub_fail i) (s4 s5))" using s4 [OF s5] fail by simp
  ultimately show ?thesis using fail [OF s4 [OF s3]] s7 by (simp split: if_splits)
qed

lemma quiet_heap_guard [io_intro]: "state_io_rel sock_quiet (heap_guard E)"
  unfolding heap_guard_def by (intro io_rule io_intro)

lemma sock_inv_handle_connect:
  fixes s :: "('w, 'k, 'z) rtask_scheme"
  assumes inv: "sock_inv T n {} s"
  shows "sock_inv T n {} (post (handle_connect_msg E msg) s)"
proof -
  define s1 where "s1 = post (reclaim_dead_subs E) s"
  define s2 where "s2 = post (pcb_budget_guard E) s1"
  define s3 where "s3 = post (heap_guard E) s2"
  define s4 where "s4 = post (choose_slot E) s3"
  have s1: "sock_inv T n {} s1" unfolding s1_def by (rule sock_inv_reclaim [OF inv])
  have s2: "sock_inv T n {} s2" unfolding s2_def by (rule sock_inv_pcb_guard [OF s1])
  have s3: "sock_inv T n {} s3" unfolding s3_def by (rule sock_inv_step [OF quiet_heap_guard s2])
  have s4: "sock_inv T n {} s4" unfolding s4_def by (rule sock_inv_choose [OF s3])
  have slot: "sock_inv T n {} (post (open_sub E i) (post (setup_sub_keys E i msg) s4))"
    "sock_inv T n {} (post (setup_sub_keys E i msg) s4)" if i: "res (choose_slot E) s3 = Some i" for i
  proof -
    have "half_open T n i None None s4"
      using choose_slot_range [OF i] choose_slot_inactive [OF i] sock_inv_length [OF s3]
      by (intro half_open_start s4) (simp_all add: s4_def)
    note ready = half_open_quiet [OF quiet_setup this]
    show "sock_inv T n {} (post (open_sub E i) (post (setup_sub_keys E i msg) s4))" by (rule sock_inv_open [OF ready])
    show "sock_inv T n {} (post (setup_sub_keys E i msg) s4)" by (rule half_open_abort [OF ready])
  qed
  have "post (handle_connect_msg E msg) s =
    (if \<not> res (pcb_budget_guard E) s1 then s2
     else if \<not> res (heap_guard E) s2 then s3
     else case res (choose_slot E) s3 of None \<Rightarrow> s4
       | Some i \<Rightarrow> if res (setup_sub_keys E i msg) s4 then post (open_sub E i) (post (setup_sub_keys E i msg) s4)
                  else post (setup_sub_keys E i msg) s4)"
    by (auto simp: handle_connect_msg_def s1_def [symmetric] s2_def [symmetric] s3_def [symmetric] s4_def [symmetric]
        split: option.splits)
  with s2 s3 s4 slot show ?thesis by (auto split: option.splits)
qed

lemma keeps_handle_connect: "state_io_rel (keeps (sock_inv T n {})) (handle_connect_msg E msg)"
  by (rule keepsI) (rule sock_inv_handle_connect)

subsection \<open>The task\<close>

lemma quiet_note_ctrl [io_intro]: "state_io_rel sock_quiet (note_ctrl E)"
  unfolding note_ctrl_def by (intro io_rule io_intro quiet_modify) simp_all

lemma quiet_ctrl_decode [io_intro]: "state_io_rel sock_quiet (ctrl_decode E raw)"
  unfolding ctrl_decode_def by (intro io_rule io_intro quiet_modify) simp_all

lemma keeps_ctrl_byte: "state_io_rel (keeps (sock_inv T n {})) (ctrl_byte E b)"
proof -
  have q: "state_io_rel (keeps (sock_inv T n {})) (modify_st (t_ctrl_msg_update f))" for f
    by (rule keeps_quiet, rule quiet_modify) simp
  show ?thesis unfolding ctrl_byte_def ctrl_line_def
    by (intro io_rule q keeps_handle_connect keeps_quiet [OF quiet_note_ctrl])
qed

lemma keeps_read_ctrl: "state_io_rel (keeps (sock_inv T n {})) (read_ctrl fuel E)"
proof (induction fuel)
  case 0
  then show ?case unfolding read_ctrl.simps by (intro io_rule keeps_quiet [OF quiet_io(3)] keeps_quiet [OF quiet_prims(6)])
next
  case (Suc fuel)
  then show ?case unfolding read_ctrl.simps
    by (intro io_rule keeps_ctrl_byte keeps_quiet [OF quiet_io(3)] keeps_quiet [OF quiet_io(4)] keeps_quiet [OF quiet_ctrl_decode])
qed

lemma quiet_should_leave [io_intro]: "state_io_rel sock_quiet (should_leave E)"
  unfolding should_leave_def check_ctrl_lost_def check_drain_timeout_def check_idle_def no_sessions_def
  by (intro io_rule io_intro quiet_modify) simp_all

lemma find_oldest_range:
  assumes "res (find_oldest_active_sub E a) s = Some v"
  shows "v < length (t_subs s)"
  using assms find_oldest_loop_Some [of a "res (millis E) s" 0 ULONG_MAX None "t_subs s" v]
  by (simp add: find_oldest_active_sub_def)

lemma sock_inv_critical_evict:
  fixes s :: "('w, 'k, 'z) rtask_scheme"
  assumes inv: "sock_inv T n X s"
  shows "sock_inv T n X (post (critical_evict E) s)"
proof -
  let ?s1 = "post (find_oldest_active_sub E CRITICAL_MIN_IDLE_MS) s"
  let ?s2 = "post (find_evictable_sub E) ?s1"
  have s1: "sock_inv T n X ?s1" by (rule sock_inv_step [OF quiet_find(2) inv])
  have s2: "sock_inv T n X ?s2" by (rule sock_inv_step [OF quiet_find(1) s1])
  have c1: "res (find_oldest_active_sub E CRITICAL_MIN_IDLE_MS) s = Some v \<Longrightarrow> sock_inv T n X (post (close_relay_sub E v) ?s1)" for v
    using find_oldest_range [of E _ s v] sock_inv_length [OF inv] by (intro sock_inv_close s1) simp
  have c2: "res (find_evictable_sub E) ?s1 = Some v \<Longrightarrow> sock_inv T n X (post (close_relay_sub E v) ?s2)" for v
    using find_evictable_sub_res [of E ?s1 v] sock_inv_length [OF s1] by (intro sock_inv_close s2) simp
  show ?thesis
    using s2 c1 c2 by (auto simp: critical_evict_def split: option.splits)
qed

lemma keeps_critical_evict: "state_io_rel (keeps (sock_inv T n X)) (critical_evict E)"
  by (rule keepsI) (rule sock_inv_critical_evict)

lemma keeps_oom_guard: "state_io_rel (keeps (sock_inv T n X)) (oom_guard E)"
proof -
  have q: "state_io_rel (keeps (sock_inv T n X)) (modify_st (t_oom_mode_update f))" for f
    by (rule keeps_quiet, rule quiet_modify) simp
  show ?thesis unfolding oom_guard_def
    by (intro io_rule q keeps_critical_evict keeps_quiet [OF quiet_prims(1)] keeps_quiet [OF quiet_io(2)])
qed

lemma quiet_multi_yield [io_intro]: "state_io_rel sock_quiet (multi_yield E)"
  unfolding multi_yield_def by (intro io_rule io_intro quiet_modify) (simp_all add: cpu_account_def Let_def)

lemma keeps_service_all: "state_io_rel (keeps (sock_inv T n {})) (service_all E)"
proof (rule keepsI)
  have "state_io_rel (keeps (sock_inv T n {})) (for_each [0..<n] (service_sub E))"
    by (intro io_rule keeps_service) simp
  then show "sock_inv T n {} s \<Longrightarrow> sock_inv T n {} (post (service_all E) s)" for s
    using keepsD [of "sock_inv T n {}" "for_each [0..<n] (service_sub E)" s] by (simp add: service_all_def sock_inv_length)
qed

lemma keeps_iteration: "state_io_rel (keeps (sock_inv T n {})) (multi_iteration E)"
proof -
  have q: "state_io_rel (keeps (sock_inv T n {})) (modify_st (t_activity_update f))" for f
    by (rule keeps_quiet, rule quiet_modify) simp
  show ?thesis unfolding multi_iteration_def
    by (intro io_rule q keeps_read_ctrl keeps_service_all keeps_oom_guard keeps_quiet [OF quiet_count_sessions]
        keeps_quiet [OF quiet_should_leave] keeps_quiet [OF quiet_multi_yield])
qed

lemma keeps_multi_loop: "state_io_rel (keeps (sock_inv T n {})) (multi_loop fuel E)"
proof (induction fuel)
  case 0
  then show ?case unfolding multi_loop.simps by (intro io_rule keeps_quiet [OF quiet_prims(1)] keeps_quiet [OF quiet_prims(6)])
next
  case (Suc fuel)
  then show ?case unfolding multi_loop.simps by (intro io_rule keeps_iteration keeps_quiet [OF quiet_prims(1)])
qed

text \<open>The control connection.\<close>

lemma sock_inv_ctrl:
  assumes "sock_inv T n X s" "t_ctrl s = None"
  shows "sock_inv T n X (post (modify_st (t_ctrl_update (\<lambda>_. res (sock_connect E h p) s))) (post (sock_connect E h p) s))"
    (is "sock_inv T n X ?s'")
proof -
  let ?c = "res (sock_connect E h p) s"
  from assms obtain tr where tr: "t_trace s = T @ tr" and bal: "mset (opened tr) = mset (stopped tr) + held s"
    unfolding sock_inv_def by blast
  have t: "t_trace ?s' = T @ (tr @ [Io_connect h p ?c])" and sub: "t_subs ?s' = t_subs s" and c: "t_ctrl ?s' = ?c"
    using tr by (simp_all add: sock_connect_def)
  have "held ?s' = socks ?c + held s" unfolding held_def sub c assms(2) by simp
  then have "mset (opened (tr @ [Io_connect h p ?c])) = mset (stopped (tr @ [Io_connect h p ?c])) + held ?s'"
    using bal by simp
  with assms(1) t show ?thesis unfolding sock_inv_def sub by blast
qed

lemma quiet_multi_ready [io_intro]: "state_io_rel sock_quiet (multi_ready E cfg c)"
  unfolding multi_ready_def by (intro io_rule io_intro quiet_modify) simp_all

lemma sock_inv_multi_open:
  fixes s :: "('w, 'k, 'z) rtask_scheme"
  assumes "sock_inv T n {} s" "t_ctrl s = None"
  shows "sock_inv T n {} (post (multi_open E) s)"
proof -
  define s1 where "s1 = post (set_state RELAY_CONNECTING) s"
  have s1: "sock_inv T n {} s1" "t_ctrl s1 = None"
    using assms by (auto simp: s1_def sock_inv_def held_def)
  define cfg where "cfg = rl_config (t_relay s1)"
  define c where "c = res (sock_connect E (rc_rvd_host cfg) (rc_rvd_port cfg)) s1"
  define s2 where "s2 = (post (sock_connect E (rc_rvd_host cfg) (rc_rvd_port cfg)) s1)\<lparr>t_ctrl := c\<rparr>"
  have s2: "sock_inv T n {} s2" unfolding s2_def c_def using sock_inv_ctrl [OF s1] by simp
  have "post (multi_open E) s = post (multi_ready E cfg c) s2"
    by (simp only: multi_open_def post_simps res_simps s1_def [symmetric] cfg_def [symmetric] c_def [symmetric] s2_def [symmetric])
  with sock_inv_step [OF quiet_multi_ready s2] show ?thesis by simp
qed

text \<open>Cleanup: the slots one after the other, then the control connection.\<close>

lemma close_all_inv:
  fixes s :: "('w, 'k, 'z) rtask_scheme"
  assumes "sock_inv T n {} s" "k \<le> n"
  shows "sock_inv T n {} (post (for_each [0..<k] (close_if_active E)) s) \<and>
    (\<forall>j < k. \<not> sb_active (t_subs (post (for_each [0..<k] (close_if_active E)) s) ! j))"
  using assms(2)
proof (induction k)
  case 0
  then show ?case using assms(1) by simp
next
  case (Suc k)
  define s1 where "s1 = post (for_each [0..<k] (close_if_active E)) s"
  have IH: "sock_inv T n {} s1" "\<forall>j < k. \<not> sb_active (t_subs s1 ! j)" using Suc by (simp_all add: s1_def)
  have run: "post (for_each [0..<Suc k] (close_if_active E)) s = post (close_if_active E k) s1"
    by (simp add: for_each_append s1_def)
  show ?case
  proof (cases "sb_active (t_subs s1 ! k)")
    case True
    then have c: "post (close_if_active E k) s1 = post (close_relay_sub E k) s1" by (simp add: close_if_active_def)
    have "\<forall>j < Suc k. \<not> sb_active (t_subs (post (close_relay_sub E k) s1) ! j)"
      using IH(2) Suc.prems sock_inv_length [OF IH(1)] by (auto simp: close_subs reset_sub_def nth_list_update less_Suc_eq)
    then show ?thesis unfolding run c using sock_inv_close [OF _ IH(1), of k E] Suc.prems by simp
  next
    case False
    then show ?thesis unfolding run using IH by (auto simp: close_if_active_def less_Suc_eq)
  qed
qed

lemma held_all_inactive:
  assumes "sock_inv T n {} s" "\<forall>j < n. \<not> sb_active (t_subs s ! j)"
  shows "held s = socks (t_ctrl s)"
proof -
  have "\<forall>b \<in> set (t_subs s). sub_socks b = {#}"
    using assms by (auto simp: sock_inv_def sub_socks_def in_set_conv_nth)
  then have "map sub_socks (t_subs s) = map (\<lambda>_. {#}) (t_subs s)" by simp
  then show ?thesis by (simp add: held_def map_replicate_const)
qed

lemma multi_cleanup_sockets:
  fixes s :: "('w, 'k, 'z) rtask_scheme"
  assumes "sock_inv T n {} s"
  shows "\<exists>tr. t_trace (post (multi_cleanup E) s) = T @ tr \<and> mset (opened tr) = mset (stopped tr)"
proof -
  define s1 where "s1 = post (for_each [0..<n] (close_if_active E)) s"
  have s1: "sock_inv T n {} s1" "\<forall>j < n. \<not> sb_active (t_subs s1 ! j)"
    using close_all_inv [OF assms order_refl, of E] by (simp_all add: s1_def)
  then obtain tr where tr: "t_trace s1 = T @ tr" "mset (opened tr) = mset (stopped tr) + socks (t_ctrl s1)"
    using held_all_inactive [OF s1] unfolding sock_inv_def by metis
  have "t_trace (post (multi_cleanup E) s) = t_trace s1 @ [Io_stop (t_ctrl s1)]"
    using assms by (simp add: multi_cleanup_def sock_inv_length s1_def)
  with tr have "t_trace (post (multi_cleanup E) s) = T @ (tr @ [Io_stop (t_ctrl s1)])"
    "mset (opened (tr @ [Io_stop (t_ctrl s1)])) = mset (stopped (tr @ [Io_stop (t_ctrl s1)]))" by simp_all
  then show ?thesis by blast
qed

lemma multi_init_inv:
  "sock_inv (t_trace s) (n_subs_of (rl_config (t_relay s))) {} (post multi_init s) \<and> t_ctrl (post multi_init s) = None"
  by (simp add: multi_init_def sock_inv_def held_def zero_sub_def sub_socks_def)

subsection \<open>When nothing happens\<close>

text \<open>A world in which nothing happens: no data, no closed peers, enough heap, and time that moves with
  the delays of the task.\<close>

definition silent_env :: "('w, 'k, 'j, 'e) env_scheme \<Rightarrow> ('w \<Rightarrow> u32) \<Rightarrow> bool" where
  "silent_env E clk \<longleftrightarrow>
     (\<forall>c w. e_available E c w = (False, w)) \<and> (\<forall>fd w. e_peek E fd w = (Peek_again, w)) \<and>
     (\<forall>w. e_millis E w = (clk w, w)) \<and> (\<forall>d w. clk (e_delay E d w) = clk w + d) \<and>
     (\<forall>w. \<exists>h. e_free_heap E w = (h, w) \<and> h \<ge> HEAP_OOM_FLOOR) \<and> (\<forall>w. e_should_run E w = (True, w))"

definition idle_state :: "('w, 'k, 'z) rtask_scheme \<Rightarrow> bool" where
  "idle_state s \<longleftrightarrow> t_ctrl s \<noteq> None \<and> (\<forall>b \<in> set (t_subs s). \<not> sb_active b) \<and> \<not> t_ctrl_lost s \<and> \<not> t_diverged s"

lemma service_idle: "\<forall>b \<in> set (t_subs s). \<not> sb_active b \<Longrightarrow> post (service_all E) s = s"
proof -
  assume a: "\<forall>b \<in> set (t_subs s). \<not> sb_active b"
  have "set is \<subseteq> {..< length (t_subs s)} \<Longrightarrow> post (for_each is (service_sub E)) s = s" for "is"
    using a by (induction "is") (auto simp: service_sub_def)
  from this [of "[0..<length (t_subs s)]"] show ?thesis by (simp add: service_all_def atLeast0LessThan)
qed

lemma read_ctrl_idle: "silent_env E clk \<Longrightarrow> post (read_ctrl fuel E) s = s"
  by (cases fuel) (simp_all add: silent_env_def available_def)

lemma idle_iteration:
  assumes E: "silent_env E clk" and s: "idle_state s"
  defines "T \<equiv> idle_timeout_of (rl_config (t_relay s))"
  defines "s' \<equiv> post (multi_iteration E) s"
  shows "res (multi_iteration E) s \<longleftrightarrow> \<not> (clk (t_world s) - t_idle_since s > T)"
    and "t_diverged s' = t_diverged s" "t_trace s' = t_trace s"
    and "\<not> (clk (t_world s) - t_idle_since s > T) \<Longrightarrow> idle_state s' \<and> rl_config (t_relay s') = rl_config (t_relay s) \<and>
      t_idle_since s' = t_idle_since s \<and> clk (t_world s') = clk (t_world s) + 3"
proof -
  define s1 where "s1 = s\<lparr>t_activity := False\<rparr>"
  define s2 where "s2 = post update_active_session_count s1"
  have c: "active_count (t_subs s1) = 0" using s by (simp add: s1_def idle_state_def active_count_def)
  have s2: "s2 = s1\<lparr>t_relay := (t_relay s1)\<lparr>rl_active_sessions := 0\<rparr>\<rparr>"
    using c by (simp add: s2_def update_active_session_count_def)
  have e: "e_available E c w = (False, w)" "e_peek E i w = (Peek_again, w)" "e_millis E w = (clk w, w)" for c w i
    using E by (simp_all add: silent_env_def)
  obtain fd where fd: "t_ctrl s = Some fd" "\<not> t_ctrl_lost s" using s by (auto simp: idle_state_def)
  have st: "t_ctrl s2 = Some fd" "\<not> t_ctrl_lost s2" "rl_active_sessions (t_relay s2) = 0" "t_idle_since s2 = t_idle_since s"
    "rl_config (t_relay s2) = rl_config (t_relay s)" "t_world s2 = t_world s"
    using fd by (simp_all add: s2 s1_def)
  have r1: "res (check_ctrl_lost E) s2 = False" "post (check_ctrl_lost E) s2 = s2"
    using st by (simp_all add: check_ctrl_lost_def drained_and_closed_def available_def peer_closed_def e)
  have r2: "res (check_drain_timeout E) s2 = False" "post (check_drain_timeout E) s2 = s2"
    using st by (simp_all add: check_drain_timeout_def)
  have r3: "res (check_idle E) s2 = (clk (t_world s) - t_idle_since s > T)" "post (check_idle E) s2 = s2"
    using st by (simp_all add: check_idle_def no_sessions_def millis_def e T_def)
  have leave: "res (should_leave E) s2 = (clk (t_world s) - t_idle_since s > T)" "post (should_leave E) s2 = s2"
    by (simp_all add: should_leave_def r1 r2 r3)
  have p: "post (modify_st (t_activity_update (\<lambda>_. False))) s = s1" by (simp add: s1_def)
  have srv: "post (service_all E) s1 = s1" using s by (intro service_idle) (simp add: s1_def idle_state_def)
  have run: "res (multi_iteration E) s = (\<not> res (should_leave E) s2)"
    "s' = (if res (should_leave E) s2 then s2 else post (multi_yield E) (post (oom_guard E) s2))"
    unfolding s'_def multi_iteration_def post_simps(2) res_simps(2) p read_ctrl_idle [OF E] srv s2_def [symmetric] leave(2)
    by simp_all
  obtain h where h: "e_free_heap E (t_world s) = (h, t_world s)" "\<not> h < HEAP_OOM_FLOOR"
    using E unfolding silent_env_def by (metis not_le)
  have oom: "post (oom_guard E) s2 = s2\<lparr>t_oom_mode := False\<rparr>"
    using h by (simp add: oom_guard_def s2 s1_def)
  have m: "iter_ms False 0 = 3" by (simp add: iter_ms_def)
  show "res (multi_iteration E) s \<longleftrightarrow> \<not> (clk (t_world s) - t_idle_since s > T)" using run leave by simp
  show "t_diverged s' = t_diverged s" "t_trace s' = t_trace s"
    using run oom by (simp_all add: multi_yield_def s2 s1_def task_delay_def millis_def cpu_account_def Let_def)
  assume "\<not> (clk (t_world s) - t_idle_since s > T)"
  then have "s' = post (multi_yield E) (s2\<lparr>t_oom_mode := False\<rparr>)" using run leave oom by simp
  then show "idle_state s' \<and> rl_config (t_relay s') = rl_config (t_relay s) \<and> t_idle_since s' = t_idle_since s \<and>
      clk (t_world s') = clk (t_world s) + 3"
    using s E by (simp add: multi_yield_def s2 s1_def task_delay_def millis_def cpu_account_def Let_def idle_state_def m silent_env_def)
qed

section \<open>Properties\<close>

text \<open>C14: a multi-session relay leaks no socket. Whatever happens during its life (refused connections,
  failed authentication, evictions, lost control channel, out of memory), when the task has ended
  every socket it opened has been stopped, and exactly as often as it was opened.\<close>
theorem multi_relay_leaks_no_socket:
  "\<exists>tr. t_trace (post (relay_task_inner_multi E) s) = t_trace s @ tr \<and> mset (opened tr) = mset (stopped tr)"
proof -
  have main: "\<exists>tr. t_trace (post (multi_session E) u) = t_trace u @ tr \<and> mset (opened tr) = mset (stopped tr)" for u
  proof -
    define n where "n = n_subs_of (rl_config (t_relay u))"
    define u1 where "u1 = post multi_init u"
    define u2 where "u2 = post (multi_open E) u1"
    define u3 where "u3 = post (when_st (res (multi_open E) u1) (multi_loop (e_fuel E) E)) u2"
    have u2: "sock_inv (t_trace u) n {} u2"
      using multi_init_inv [of u] sock_inv_multi_open unfolding u2_def u1_def n_def by blast
    have "sock_inv (t_trace u) n {} u3"
      using u2 keepsD [OF keeps_multi_loop u2] by (auto simp: u3_def)
    from multi_cleanup_sockets [OF this]
    show ?thesis by (simp add: multi_session_def u1_def u2_def u3_def del: post_simps(7))
  qed
  have "\<exists>tr. t_trace (post (multi_session E) (s\<lparr>t_world := w\<rparr>)) = t_trace s @ tr \<and> mset (opened tr) = mset (stopped tr)" for w
    using main [of "s\<lparr>t_world := w\<rparr>"] by simp
  moreover have "\<exists>tr. t_trace s = t_trace s @ tr \<and> mset (opened tr) = mset (stopped tr)"
    by (rule exI [of _ "[]"]) simp
  ultimately show ?thesis by (simp add: relay_task_inner_multi_def)
qed

definition released :: "('w, 'k, 'z) rtask_scheme \<Rightarrow> bool" where
  "released s \<longleftrightarrow> (let r = t_relay s in
     rl_state r = RELAY_STOPPED \<and> rl_task_handle r = None \<and> rl_encrypter r = None \<and> rl_decrypter r = None \<and>
     rl_config r = clear_config (rl_config r) \<and> rl_active_sessions r = 0 \<and> t_subs s = [] \<and> t_ctrl s = None \<and>
     t_ctrl_dec s = None \<and> t_cpu_pct s = 0 \<and> t_pcb_count s \<ge> 0)"

text \<open>The task gets its two buffers, finds 30000 bytes of heap free and gets its slots.\<close>

definition multi_granted :: "('w, 'k, 'j, 'e) env_scheme \<Rightarrow> 'w \<Rightarrow> bool" where
  "multi_granted E w =
     (let (ok1, w1) = e_alloc E RELAY_BUF_SIZE w; (ok2, w2) = e_alloc E RELAY_BUF_SIZE w1;
          (heap, w3) = e_free_heap E w2; (ok3, w4) = e_alloc E 1 w3
      in ok1 \<and> ok2 \<and> heap \<ge> 30000 \<and> ok3)"

lemma refused_only: "\<exists>w. t_relay_update f (s\<lparr>t_world := x\<rparr>) = s\<lparr>t_world := w, t_relay := f (t_relay s)\<rparr>"
  by (rule exI [of _ x]) (cases s; simp)


text \<open>C15: an abandoned relay ends by itself. With no sub-connection, a silent control channel, enough heap
  and a clock that advances with the task's own delays, the main loop leaves after at most a third of
  the idle timeout in iterations (of 3 ms), having read and sent nothing; it does not run forever.\<close>
theorem idle_relay_stops:
  assumes "silent_env E clk" "idle_state s" "T = idle_timeout_of (rl_config (t_relay s))" "unat T + 3 < 2 ^ 32"
    and "unat T < unat (clk (t_world s) - t_idle_since s) + 3 * k"
  shows "\<not> t_diverged (post (multi_loop (Suc k) E) s) \<and> t_trace (post (multi_loop (Suc k) E) s) = t_trace s"
  using assms(2,3,5)
proof (induction k arbitrary: s)
  case 0
  then have "T < clk (t_world s) - t_idle_since s" by (simp add: word_less_nat_alt)
  with 0 idle_iteration [OF assms(1) 0(1)] show ?case using assms(1)
    by (simp add: silent_env_def idle_state_def)
next
  case (Suc k)
  define el where "el = clk (t_world s) - t_idle_since s"
  define s' where "s' = post (multi_iteration E) s"
  have run: "e_should_run E (t_world s) = (True, t_world s)" using assms(1) by (simp add: silent_env_def)
  note it = idle_iteration [OF assms(1) Suc.prems(1), folded Suc.prems(2) el_def s'_def]
  show ?case
  proof (cases "el > T")
    case True
    with it run Suc.prems(1) show ?thesis by (simp add: s'_def [symmetric] idle_state_def)
  next
    case False
    then have le: "unat el \<le> unat T" by (simp add: word_less_nat_alt not_less)
    have s': "idle_state s'" "rl_config (t_relay s') = rl_config (t_relay s)" "clk (t_world s') - t_idle_since s' = el + 3"
      using it(4) [OF False] by (simp_all add: el_def)
    have "unat (el + 3) = unat el + 3" using le assms(4) by (simp add: unat_word_ariths)
    then have "unat T < unat (clk (t_world s') - t_idle_since s') + 3 * k" using Suc.prems(3) s' by (simp add: el_def)
    from Suc.IH [OF s'(1) _ this] s'(2) Suc.prems(2)
    have "\<not> t_diverged (post (multi_loop (Suc k) E) s') \<and> t_trace (post (multi_loop (Suc k) E) s') = t_trace s'" by simp
    moreover have "post (multi_loop (Suc (Suc k)) E) s = post (multi_loop (Suc k) E) s'"
      using run it(1) False by (simp only: multi_loop.simps(2) [of "Suc k"] post_simps res_simps rx_simps) (simp add: s'_def)
    ultimately show ?thesis using it(3) by simp
  qed
qed

definition quiet_env :: "(ex_world, bytes, json) env" where
  "quiet_env = example_env\<lparr>e_available := (\<lambda>_ w. (False, w)), e_peek := (\<lambda>_ w. (Peek_again, w))\<rparr>"

lemma idle_relay_stops_witness:
  "\<not> t_diverged (post (multi_loop (Suc 20001) quiet_env) idle_task) \<and>
   t_trace (post (multi_loop (Suc 20001) quiet_env) idle_task) = t_trace idle_task"
proof (rule idle_relay_stops)
  show "silent_env quiet_env xw_clock"
    by (auto simp: silent_env_def quiet_env_def example_env_def HEAP_OOM_FLOOR_def)
  show "idle_state idle_task" by (simp add: idle_state_def idle_task_def example_task_def zero_sub_def)
  show "60000 = idle_timeout_of (rl_config (t_relay idle_task))"
    by (simp add: idle_task_def example_task_def example_relay_def idle_timeout_of_def noports_relay_config_init_def)
qed (simp_all add: idle_task_def example_task_def)

end
