(* ===== verification/Relay_Single.thy ===== *)
theory Relay_Single
  imports Relay_Multi "HOL-Library.Sublist"
begin

text \<open>
  \<open>_relay_task_inner\<close>: the single-session relay task. It opens two connections to the rendezvous
  server without knowing which of them will be paired with the client's control connection, polls
  both for the \<open>connect:\<close> line, and then bridges the other one with the local service. Counters and
  calls that only feed log lines are left out.
\<close>

section \<open>The locals of the task\<close>

text \<open>\<open>sockA\<close> is a local, \<open>sockB\<close> is \<open>relay->rvd_client\<close>.\<close>

datatype side = SideA | SideB

record ('w, 'k) stask = "('w, 'k) rtask" +
  sg_sock_a :: sock
  sg_ctrl :: side
  sg_dec_a :: "'k ctr option"
  sg_dec_b :: "'k ctr option"
  sg_early_a :: bytes
  sg_early_b :: bytes
  sg_msg_a :: bytes
  sg_msg_b :: bytes
  sg_data_enc :: "'k ctr option"
  sg_data_dec :: "'k ctr option"
  sg_total_in :: u32
  sg_total_out :: u32

type_synonym ('w, 'k, 'z, 'a) single = "(('w, 'k, 'z) stask_scheme, 'a) state"

definition side_sock :: "side \<Rightarrow> ('w, 'k, 'z) stask_scheme \<Rightarrow> sock" where
  "side_sock x s = (case x of SideA \<Rightarrow> sg_sock_a s | SideB \<Rightarrow> rl_rvd_client (t_relay s))"

definition side_dec :: "side \<Rightarrow> ('w, 'k, 'z) stask_scheme \<Rightarrow> 'k ctr option" where
  "side_dec x s = (case x of SideA \<Rightarrow> sg_dec_a s | SideB \<Rightarrow> sg_dec_b s)"

definition side_msg :: "side \<Rightarrow> ('w, 'k, 'z) stask_scheme \<Rightarrow> bytes" where
  "side_msg x s = (case x of SideA \<Rightarrow> sg_msg_a s | SideB \<Rightarrow> sg_msg_b s)"

definition side_early :: "side \<Rightarrow> ('w, 'k, 'z) stask_scheme \<Rightarrow> bytes" where
  "side_early x s = (case x of SideA \<Rightarrow> sg_early_a s | SideB \<Rightarrow> sg_early_b s)"

definition other :: "side \<Rightarrow> side" where
  "other x = (case x of SideA \<Rightarrow> SideB | SideB \<Rightarrow> SideA)"

text \<open>\<open>data\<close> and \<open>ctrl\<close>.\<close>

definition data_sock :: "('w, 'k, 'z) stask_scheme \<Rightarrow> sock" where
  "data_sock s = side_sock (other (sg_ctrl s)) s"

definition local_sock :: "('w, 'k, 'z) stask_scheme \<Rightarrow> sock" where
  "local_sock s = rl_local_client (t_relay s)"

section \<open>Phase 1: two authenticated connections\<close>

definition single_error :: "('w, 'k, 'z, bool) single" where
  "single_error = do { set_state RELAY_ERROR; ret False }"

definition open_sock_a :: "('w, 'k, 'j, 'e) env_scheme \<Rightarrow> ('w, 'k, 'z, bool) single" where
  "open_sock_a E = do {
     cfg \<leftarrow> gets (\<lambda>s. rl_config (t_relay s));
     c \<leftarrow> sock_connect E (rc_rvd_host cfg) (rc_rvd_port cfg);
     modify_st (sg_sock_a_update (\<lambda>_. c));
     if c = None then single_error
     else do {
       upd_pcb (\<lambda>n. n + 1);
       ok \<leftarrow> sock_auth E c cfg (set_state RELAY_AUTHENTICATING);
       if ok then ret True else single_error } }"

definition open_sock_b :: "('w, 'k, 'j, 'e) env_scheme \<Rightarrow> ('w, 'k, 'z, bool) single" where
  "open_sock_b E = do {
     cfg \<leftarrow> gets (\<lambda>s. rl_config (t_relay s));
     c \<leftarrow> sock_connect E (rc_rvd_host cfg) (rc_rvd_port cfg);
     upd_relay (rl_rvd_client_update (\<lambda>_. c));
     if c = None then single_error
     else do {
       upd_pcb (\<lambda>n. n + 1);
       ok \<leftarrow> sock_auth E c cfg (ret ());
       if ok then ret True else single_error } }"

text \<open>One decrypter per socket, so that both can be tried.\<close>

definition ctrl_decrypters :: "('w, 'k, 'j, 'e) env_scheme \<Rightarrow> ('w, 'k, 'z, unit) single" where
  "ctrl_decrypters E = do {
     r \<leftarrow> gets t_relay;
     when_st (rl_decrypter r \<noteq> None) (do {
       modify_st (sg_dec_a_update (\<lambda>_. rl_decrypter r));
       upd_relay (rl_decrypter_update (\<lambda>_. None));
       case (rc_session_aes_key (rl_config r), rc_session_iv (rl_config r)) of
         (Some k, Some iv) \<Rightarrow> do {
           d \<leftarrow> alloc_aes_ctr_state E k iv;
           modify_st (sg_dec_b_update (\<lambda>_. d)) }
       | _ \<Rightarrow> ret () }) }"

section \<open>Phase 2: which socket carries the connect line\<close>

definition CONNECT_TIMEOUT_MS :: u32 where "CONNECT_TIMEOUT_MS = 30000"

text \<open>A raw byte of a socket: remembered for a replay, decrypted as a control byte, and appended to the
  socket's line. True at the end of a line.\<close>

definition take_byte :: "'k mbedtls \<Rightarrow> side \<Rightarrow> u8 \<Rightarrow> ('w, 'k, 'z, bool) single" where
  "take_byte mb x raw = do {
     d \<leftarrow> gets (side_dec x);
     let (d', dec) = (case d of
           None \<Rightarrow> (None, raw)
         | Some st \<Rightarrow> (case mb_crypt_ctr mb st [raw] of (st', out) \<Rightarrow> (Some st', case out of b # _ \<Rightarrow> b | [] \<Rightarrow> raw)));
     (case x of
        SideA \<Rightarrow> modify_st (\<lambda>s. s\<lparr>sg_dec_a := d', sg_msg_a := sg_msg_a s @ [dec],
                   sg_early_a := (if length (sg_early_a s) < EARLY_BUF_SIZE then sg_early_a s @ [raw] else sg_early_a s)\<rparr>)
      | SideB \<Rightarrow> modify_st (\<lambda>s. s\<lparr>sg_dec_b := d', sg_msg_b := sg_msg_b s @ [dec],
                   sg_early_b := (if length (sg_early_b s) < EARLY_BUF_SIZE then sg_early_b s @ [raw] else sg_early_b s)\<rparr>));
     ret (dec = 10) }"

definition connected :: "('w, 'k, 'j, 'e) env_scheme \<Rightarrow> sock \<Rightarrow> ('w, 'k, 'z, bool) task" where
  "connected E c = rx (e_connected E c)"

definition poll_side :: "('w, 'k, 'j, 'e) env_scheme \<Rightarrow> side \<Rightarrow> ('w, 'k, 'z, bool) single" where
  "poll_side E x = do {
     c \<leftarrow> gets (side_sock x);
     conn \<leftarrow> connected E c;
     if \<not> conn then ret False
     else do {
       a \<leftarrow> available E c;
       m \<leftarrow> gets (side_msg x);
       if \<not> (a \<and> length m < 254) then ret False
       else do {
         r \<leftarrow> sock_read E c 1;
         case r of Got [raw] \<Rightarrow> take_byte (e_mb E) x raw | _ \<Rightarrow> ret False } } }"

text \<open>The polling loop: the side the line came from, or nothing after the timeout or when both sockets
  are gone.\<close>

fun wait_connect :: "nat \<Rightarrow> ('w, 'k, 'j, 'e) env_scheme \<Rightarrow> u32 \<Rightarrow> ('w, 'k, 'z, side option) single" where
  "wait_connect 0 E start = do {
     now \<leftarrow> millis E;
     if now - start < CONNECT_TIMEOUT_MS then diverge None else ret None }"
| "wait_connect (Suc fuel) E start = do {
     now \<leftarrow> millis E;
     if \<not> now - start < CONNECT_TIMEOUT_MS then ret None
     else do {
       got_a \<leftarrow> poll_side E SideA;
       if got_a then ret (Some SideA)
       else do {
         got_b \<leftarrow> poll_side E SideB;
         if got_b then ret (Some SideB)
         else do {
           a \<leftarrow> gets sg_sock_a;
           b \<leftarrow> gets (\<lambda>s. rl_rvd_client (t_relay s));
           conn_a \<leftarrow> connected E a;
           conn_b \<leftarrow> (if conn_a then ret True else connected E b);
           if conn_b then do { task_delay E 20; wait_connect fuel E start } else ret None } } } }"

text \<open>The line without its newline, read as a C string.\<close>

definition connect_line :: "bytes \<Rightarrow> string" where
  "connect_line m = c_string (if m \<noteq> [] \<and> last m = 10 then butlast m else m)"

definition data_keys :: "('w, 'k, 'j, 'e) env_scheme \<Rightarrow> string \<Rightarrow> ('w, 'k, 'z, bool) single" where
  "data_keys E msg =
     (if \<not> starts_with ''connect:'' msg then single_error
      else case connect_keys_of (drop 8 msg) of
          Plain \<Rightarrow> ret True
        | Malformed \<Rightarrow> single_error
        | Keys k i k2 i2 \<Rightarrow>
            (case create_enc_dec (e_mb E) k i k2 i2 of
               None \<Rightarrow> single_error
             | Some (enc, dec) \<Rightarrow> do {
                 modify_st (\<lambda>s. s\<lparr>sg_data_enc := Some enc, sg_data_dec := Some dec\<rparr>);
                 ret True }))"

definition single_phase2 :: "('w, 'k, 'j, 'e) env_scheme \<Rightarrow> ('w, 'k, 'z, bool) single" where
  "single_phase2 E = do {
     start \<leftarrow> millis E;
     ok1 \<leftarrow> rx (e_alloc E 256);
     ok2 \<leftarrow> rx (e_alloc E 256);
     if \<not> (ok1 \<and> ok2) then single_error
     else do {
       got \<leftarrow> wait_connect (e_fuel E) E start;
       case got of
         None \<Rightarrow> single_error
       | Some x \<Rightarrow> do {
           modify_st (sg_ctrl_update (\<lambda>_. x));
           m \<leftarrow> gets (side_msg x);
           data_keys E (connect_line m) } } }"

section \<open>Phase 3: the bridge\<close>

definition crypt_data :: "'k mbedtls \<Rightarrow> 'k ctr option \<Rightarrow> bytes \<Rightarrow> 'k ctr option \<times> bytes" where
  "crypt_data mb d bs =
     (case d of None \<Rightarrow> (None, bs) | Some st \<Rightarrow> (case mb_crypt_ctr mb st bs of (st', out) \<Rightarrow> (Some st', out)))"

definition open_local :: "('w, 'k, 'j, 'e) env_scheme \<Rightarrow> ('w, 'k, 'z, bool) single" where
  "open_local E = do {
     modify_st (\<lambda>s. s\<lparr>sg_dec_a := None, sg_dec_b := None\<rparr>);
     upd_relay (rl_encrypter_update (\<lambda>_. None));
     cfg \<leftarrow> gets (\<lambda>s. rl_config (t_relay s));
     c \<leftarrow> sock_connect E (rc_local_host cfg) (rc_local_port cfg);
     upd_relay (rl_local_client_update (\<lambda>_. c));
     if c = None then single_error
     else do { upd_pcb (\<lambda>n. n + 1); ret True } }"

text \<open>Bytes of the data channel that phase 2 consumed go to the local service first; the result of
  that write is not looked at.\<close>

definition replay_early :: "('w, 'k, 'j, 'e) env_scheme \<Rightarrow> ('w, 'k, 'z, unit) single" where
  "replay_early E = do {
     early \<leftarrow> gets (\<lambda>s. side_early (other (sg_ctrl s)) s);
     when_st (early \<noteq> []) (do {
       d \<leftarrow> gets sg_data_dec;
       l \<leftarrow> gets local_sock;
       modify_st (sg_data_dec_update (\<lambda>_. fst (crypt_data (e_mb E) d early)));
       _ \<leftarrow> write_all E l (snd (crypt_data (e_mb E) d early));
       modify_st (\<lambda>s. s\<lparr>sg_total_in := sg_total_in s + word_of_nat (length early)\<rparr>) }) }"

definition start_running :: "('w, 'k, 'j, 'e) env_scheme \<Rightarrow> ('w, 'k, 'z, unit) single" where
  "start_running E = do {
     set_state RELAY_RUNNING;
     now \<leftarrow> millis E;
     upd_relay (rl_start_ms_update (\<lambda>_. now));
     now2 \<leftarrow> millis E;
     modify_st (t_idle_since_update (\<lambda>_. now2)) }"

definition idle_now :: "('w, 'k, 'j, 'e) env_scheme \<Rightarrow> ('w, 'k, 'z, unit) single" where
  "idle_now E = do { now \<leftarrow> millis E; modify_st (t_idle_since_update (\<lambda>_. now)) }"

text \<open>The two directions of the bridge: source, destination, cipher and counter. \<open>total_rvd_to_local\<close>
  and \<open>total_local_to_rvd\<close> are 32-bit on the target, as the published counters are.\<close>

definition bridge_src :: "dir \<Rightarrow> ('w, 'k, 'z) stask_scheme \<Rightarrow> sock" where
  "bridge_src d s = (case d of To_local \<Rightarrow> data_sock s | To_rvd \<Rightarrow> local_sock s)"

definition bridge_dst :: "dir \<Rightarrow> ('w, 'k, 'z) stask_scheme \<Rightarrow> sock" where
  "bridge_dst d s = (case d of To_local \<Rightarrow> local_sock s | To_rvd \<Rightarrow> data_sock s)"

definition bridge_cipher :: "dir \<Rightarrow> ('w, 'k, 'z) stask_scheme \<Rightarrow> 'k ctr option" where
  "bridge_cipher d s = (case d of To_local \<Rightarrow> sg_data_dec s | To_rvd \<Rightarrow> sg_data_enc s)"

definition set_bridge_cipher :: "dir \<Rightarrow> 'k ctr option \<Rightarrow> ('w, 'k, 'z) stask_scheme \<Rightarrow> ('w, 'k, 'z) stask_scheme" where
  "set_bridge_cipher d v s = (case d of To_local \<Rightarrow> s\<lparr>sg_data_dec := v\<rparr> | To_rvd \<Rightarrow> s\<lparr>sg_data_enc := v\<rparr>)"

definition count_bridged :: "('w, 'k, 'j, 'e) env_scheme \<Rightarrow> dir \<Rightarrow> nat \<Rightarrow> ('w, 'k, 'z, unit) single" where
  "count_bridged E d n = do {
     idle_now E;
     case d of
       To_local \<Rightarrow> do {
         modify_st (\<lambda>s. s\<lparr>sg_total_in := sg_total_in s + word_of_nat n\<rparr>);
         t \<leftarrow> gets sg_total_in;
         upd_relay (rl_bytes_in_update (\<lambda>_. t)) }
     | To_rvd \<Rightarrow> do {
         modify_st (\<lambda>s. s\<lparr>sg_total_out := sg_total_out s + word_of_nat n\<rparr>);
         t \<leftarrow> gets sg_total_out;
         upd_relay (rl_bytes_out_update (\<lambda>_. t)) } }"

text \<open>One chunk in one direction; false for a \<open>break\<close>.\<close>

definition bridge_chunk :: "('w, 'k, 'j, 'e) env_scheme \<Rightarrow> dir \<Rightarrow> bytes \<Rightarrow> ('w, 'k, 'z, bool) single" where
  "bridge_chunk E d bs = do {
     count_bridged E d (length bs);
     k \<leftarrow> gets (bridge_cipher d);
     modify_st (set_bridge_cipher d (fst (crypt_data (e_mb E) k bs)));
     c \<leftarrow> gets (bridge_dst d);
     write_all E c (snd (crypt_data (e_mb E) k bs)) }"

definition bridge_dir :: "('w, 'k, 'j, 'e) env_scheme \<Rightarrow> dir \<Rightarrow> ('w, 'k, 'z, bool) single" where
  "bridge_dir E d = do {
     c \<leftarrow> gets (bridge_src d);
     a \<leftarrow> available E c;
     if \<not> a then ret True
     else do {
       r \<leftarrow> sock_read E c RELAY_BUF_SIZE;
       case r of
         Read_error \<Rightarrow> ret False
       | Got bs \<Rightarrow> if bs = [] then ret True else bridge_chunk E d bs } }"

text \<open>Heartbeats on the control connection are read and discarded.\<close>

definition drain_ctrl :: "('w, 'k, 'j, 'e) env_scheme \<Rightarrow> ('w, 'k, 'z, unit) single" where
  "drain_ctrl E = do {
     c \<leftarrow> gets (\<lambda>s. side_sock (sg_ctrl s) s);
     a \<leftarrow> available E c;
     when_st a (do {
       r \<leftarrow> sock_read E c RELAY_BUF_SIZE;
       case r of Got (b # bs) \<Rightarrow> idle_now E | _ \<Rightarrow> ret () }) }"

definition bridge_open :: "('w, 'k, 'j, 'e) env_scheme \<Rightarrow> ('w, 'k, 'z, bool) single" where
  "bridge_open E = do {
     c \<leftarrow> gets data_sock;
     l \<leftarrow> gets local_sock;
     data_closed \<leftarrow> drained_and_closed E c;
     local_closed \<leftarrow> drained_and_closed E l;
     if data_closed \<or> local_closed then ret False
     else do {
       now \<leftarrow> millis E;
       gets (\<lambda>s. \<not> (now - t_idle_since s > idle_timeout_of (rl_config (t_relay s)))) } }"

definition bridge_iteration :: "('w, 'k, 'j, 'e) env_scheme \<Rightarrow> ('w, 'k, 'z, bool) single" where
  "bridge_iteration E = do {
     go1 \<leftarrow> bridge_dir E To_local;
     if \<not> go1 then ret False
     else do {
       go2 \<leftarrow> bridge_dir E To_rvd;
       if \<not> go2 then ret False
       else do {
         drain_ctrl E;
         go3 \<leftarrow> bridge_open E;
         if \<not> go3 then ret False else do { task_delay E 5; ret True } } } }"

fun bridge_loop :: "nat \<Rightarrow> ('w, 'k, 'j, 'e) env_scheme \<Rightarrow> ('w, 'k, 'z, unit) single" where
  "bridge_loop 0 E = do { run \<leftarrow> rx (e_should_run E); if run then diverge () else ret () }"
| "bridge_loop (Suc fuel) E = do {
     run \<leftarrow> rx (e_should_run E);
     if \<not> run then ret ()
     else do { go \<leftarrow> bridge_iteration E; if go then bridge_loop fuel E else ret () } }"

section \<open>The task\<close>

definition single_connect :: "('w, 'k, 'j, 'e) env_scheme \<Rightarrow> ('w, 'k, 'z, bool) single" where
  "single_connect E = do {
     set_state RELAY_CONNECTING;
     ok_a \<leftarrow> open_sock_a E;
     if \<not> ok_a then ret False
     else do {
       ok_b \<leftarrow> open_sock_b E;
       if \<not> ok_b then ret False
       else do {
         ctrl_decrypters E;
         ok2 \<leftarrow> single_phase2 E;
         if \<not> ok2 then ret False else open_local E } } }"

definition single_cleanup :: "('w, 'k, 'j, 'e) env_scheme \<Rightarrow> ('w, 'k, 'z, unit) single" where
  "single_cleanup E = do {
     a \<leftarrow> gets sg_sock_a;
     r \<leftarrow> gets t_relay;
     sock_stop E a;
     sock_stop E (rl_rvd_client r);
     sock_stop E (rl_local_client r);
     upd_pcb (\<lambda>n. if n - 3 < 0 then 0 else n - 3);
     modify_st (\<lambda>s. s\<lparr>sg_sock_a := None, sg_dec_a := None, sg_dec_b := None, sg_early_a := [], sg_early_b := [],
       sg_msg_a := [], sg_msg_b := [], sg_data_enc := None, sg_data_dec := None\<rparr>);
     upd_relay (\<lambda>r. r\<lparr>rl_rvd_client := None, rl_local_client := None, rl_encrypter := None, rl_decrypter := None,
       rl_config := clear_config (rl_config r)\<rparr>);
     upd_relay (\<lambda>r. r\<lparr>rl_state := RELAY_STOPPED, rl_task_handle := None\<rparr>) }"

definition single_init :: "('w, 'k, 'z, unit) single" where
  "single_init = modify_st (\<lambda>s. s\<lparr>t_idle_since := 0, sg_sock_a := None, sg_ctrl := SideA, sg_dec_a := None, sg_dec_b := None,
     sg_early_a := [], sg_early_b := [], sg_msg_a := [], sg_msg_b := [], sg_data_enc := None, sg_data_dec := None,
     sg_total_in := 0, sg_total_out := 0\<rparr>)"

definition single_session :: "('w, 'k, 'j, 'e) env_scheme \<Rightarrow> ('w, 'k, 'z, unit) single" where
  "single_session E = do {
     single_init;
     go \<leftarrow> single_connect E;
     when_st go (do { replay_early E; start_running E; bridge_loop (e_fuel E) E });
     single_cleanup E }"

definition relay_task_inner :: "('w, 'k, 'j, 'e) env_scheme \<Rightarrow> ('w, 'k, 'z, unit) single" where
  "relay_task_inner E = do {
     ok1 \<leftarrow> rx (e_alloc E RELAY_BUF_SIZE);
     if \<not> ok1 then set_state RELAY_ERROR
     else do {
       ok2 \<leftarrow> rx (e_alloc E RELAY_BUF_SIZE);
       if \<not> ok2 then set_state RELAY_ERROR
       else do {
         ok3 \<leftarrow> rx (e_alloc E EARLY_BUF_SIZE);
         ok4 \<leftarrow> rx (e_alloc E EARLY_BUF_SIZE);
         if \<not> (ok3 \<and> ok4) then set_state RELAY_ERROR else single_session E } } }"

text \<open>\<open>_relay_task\<close>.\<close>

definition relay_task :: "('w, 'k, 'j, 'e) env_scheme \<Rightarrow> ('w, 'k, 'z, unit) single" where
  "relay_task E = do {
     multi \<leftarrow> gets (\<lambda>s. rc_multi (rl_config (t_relay s)));
     if multi then relay_task_inner_multi E else relay_task_inner E }"



section \<open>Facts\<close>

subsection \<open>Writing everything\<close>

text \<open>The step from \<open>s\<close> to \<open>s'\<close> sent a prefix of \<open>bs\<close> on \<open>fd\<close>, all of it if \<open>ok\<close>, and did nothing else.\<close>

definition wrote :: "int \<Rightarrow> bytes \<Rightarrow> bool \<Rightarrow> ('w, 'k, 'z) rtask_scheme \<Rightarrow> ('w, 'k, 'z) rtask_scheme \<Rightarrow> bool" where
  "wrote fd bs ok s s' \<longleftrightarrow> (\<exists>w tr d. s' = s\<lparr>t_world := w, t_trace := t_trace s @ tr, t_diverged := d\<rparr> \<and>
     (\<forall>c. reads_on c tr = []) \<and> (\<forall>fd'. fd' \<noteq> fd \<longrightarrow> sent_on fd' tr = []) \<and>
     prefix (sent_on fd tr) bs \<and> (ok \<longrightarrow> sent_on fd tr = bs))"

lemma wrote_nothing: "(ok \<Longrightarrow> bs = []) \<Longrightarrow> wrote fd bs ok s (s\<lparr>t_world := w, t_diverged := d\<rparr>)"
  unfolding wrote_def by (intro exI [of _ w] exI [of _ "[]"] exI [of _ d]) auto

lemma wrote_then:
  assumes "wrote fd bs ok (s\<lparr>t_world := w1, t_trace := t_trace s @ tr1\<rparr>) s'"
    and "\<forall>c. reads_on c tr1 = []" "\<forall>fd'. fd' \<noteq> fd \<longrightarrow> sent_on fd' tr1 = []"
  shows "wrote fd (sent_on fd tr1 @ bs) ok s s'"
proof -
  obtain w tr d where "s' = s\<lparr>t_world := w, t_trace := t_trace s @ tr1 @ tr, t_diverged := d\<rparr>"
    "\<forall>c. reads_on c tr = []" "\<forall>fd'. fd' \<noteq> fd \<longrightarrow> sent_on fd' tr = []" "prefix (sent_on fd tr) bs" "ok \<longrightarrow> sent_on fd tr = bs"
    using assms(1) unfolding wrote_def by (elim exE conjE) (rule that, simp_all)
  then show ?thesis using assms(2,3) unfolding wrote_def
    by (intro exI [of _ w] exI [of _ "tr1 @ tr"] exI [of _ d]) auto
qed

lemma wrote_world: "wrote fd bs ok (s\<lparr>t_world := w\<rparr>) s' \<Longrightarrow> wrote fd bs ok s s'"
  using wrote_then [where ?tr1.0 = "[]" and ?w1.0 = w and s = s and bs = bs and fd = fd and ok = ok and s' = s'] by simp

lemma wrote_write_nb:
  assumes "res (write_nb E (Some fd) bs) s = r"
  shows "\<exists>w tr. post (write_nb E (Some fd) bs) s = s\<lparr>t_world := w, t_trace := t_trace s @ tr\<rparr> \<and>
     (\<forall>c. reads_on c tr = []) \<and> (\<forall>fd'. fd' \<noteq> fd \<longrightarrow> sent_on fd' tr = []) \<and>
     sent_on fd tr = (case r of None \<Rightarrow> [] | Some n \<Rightarrow> take n bs)"
  using write_nb_effect [of E fd bs s] assms by (elim exE conjE) (intro exI conjI; auto split: option.splits)

lemma write_all_loop_wrote:
  fixes s :: "('w, 'k, 'z) rtask_scheme"
  shows "wrote fd bs (res (write_all_loop fuel E (Some fd) bs start tmo) s) s
    (post (write_all_loop fuel E (Some fd) bs start tmo) s)"
proof (induction fuel arbitrary: bs start s)
  case 0
  show ?case
    using wrote_nothing [where ok = "bs = []" and bs = bs and fd = fd and s = s and w = "t_world s" and d = True]
      wrote_nothing [where ok = True and bs = bs and fd = fd and s = s and w = "t_world s" and d = "t_diverged s"]
    by (auto simp: diverge_def)
next
  case (Suc fuel)
  show ?case
  proof (cases "bs = []")
    case True
    then show ?thesis using wrote_nothing [where ok = True and bs = bs and fd = fd and s = s and w = "t_world s" and d = "t_diverged s"] by simp
  next
    case False
    define r where "r = res (write_nb E (Some fd) bs) s"
    obtain w tr where p: "post (write_nb E (Some fd) bs) s = s\<lparr>t_world := w, t_trace := t_trace s @ tr\<rparr>"
      and q: "\<forall>c. reads_on c tr = []" "\<forall>fd'. fd' \<noteq> fd \<longrightarrow> sent_on fd' tr = []"
        "sent_on fd tr = (case r of None \<Rightarrow> [] | Some n \<Rightarrow> take n bs)"
      using wrote_write_nb [OF r_def [symmetric]] by (elim exE conjE) (rule that)
    define s1 where "s1 = s\<lparr>t_world := w, t_trace := t_trace s @ tr\<rparr>"
    define s2 where "s2 = post (millis E) s1"
    have s2: "s2 = s1\<lparr>t_world := snd (e_millis E w)\<rparr>" by (simp add: s2_def millis_def s1_def)
    define s3 where "s3 = post (task_delay E 1) s2"
    have s3: "s3 = s1\<lparr>t_world := e_delay E 1 (snd (e_millis E w))\<rparr>" by (simp add: s3_def s2 task_delay_def)
    have later: "wrote fd (sent_on fd tr @ rest) ok s u" if "wrote fd rest ok s1 u" for rest ok u
      using wrote_then [OF that [unfolded s1_def] q(1,2)] .
    have stop: "wrote fd bs False s2 s2" "wrote fd bs False s1 s1" for bs
      using wrote_nothing [where ok = False and bs = bs and fd = fd and s = s2 and w = "t_world s2" and d = "t_diverged s2"] wrote_nothing [where ok = False and bs = bs and fd = fd and s = s1 and w = "t_world s1" and d = "t_diverged s1"] by simp_all
    have rec: "wrote fd rest (res (write_all_loop fuel E (Some fd) rest t tmo) s2) s1 (post (write_all_loop fuel E (Some fd) rest t tmo) s2)"
      "wrote fd rest (res (write_all_loop fuel E (Some fd) rest t tmo) s3) s1 (post (write_all_loop fuel E (Some fd) rest t tmo) s3)" for rest t
      by (rule wrote_world, rule Suc.IH [of rest t s2, unfolded s2, folded s2] | rule wrote_world, subst s2 [symmetric], rule Suc.IH
        | rule wrote_world, subst s3 [symmetric], rule Suc.IH)+
    have full: "take n bs @ drop n bs = bs" for n by simp
    show ?thesis
    proof (cases r)
      case None
      then show ?thesis using False p later [OF stop(2), of bs] q(3) by (simp add: r_def [symmetric] s1_def [symmetric])
    next
      case (Some n)
      then show ?thesis
        using False p q(3) full [of n] later [OF rec(1), of "drop n bs" "res (millis E) s1"] later [OF rec(2), of bs start]
          later [OF wrote_world [OF stop(1) [unfolded s2, of bs]]]
        by (cases "n = 0") (simp_all add: r_def [symmetric] s1_def [symmetric] s2_def [symmetric] s3_def [symmetric] s2 [symmetric])
    qed
  qed
qed

lemma write_all_wrote:
  "wrote fd bs (res (write_all E (Some fd) bs) s) s (post (write_all E (Some fd) bs) s)"
proof -
  have m: "post (millis E) s = s\<lparr>t_world := snd (e_millis E (t_world s))\<rparr>" by (simp add: millis_def)
  show ?thesis unfolding write_all_def
    by (simp add: m) (rule conjI impI wrote_world [OF write_all_loop_wrote] | assumption)+
qed

subsection \<open>The bridge\<close>

text \<open>A stream through an optional cipher, chunk by chunk.\<close>

definition crypt_run :: "'k mbedtls \<Rightarrow> 'k ctr option \<Rightarrow> bytes list \<Rightarrow> 'k ctr option \<times> bytes" where
  "crypt_run mb d chunks =
     (case d of None \<Rightarrow> (None, concat chunks) | Some st \<Rightarrow> (case ctr_run mb st chunks of (st', out) \<Rightarrow> (Some st', out)))"

lemma crypt_run_simps [simp]:
  "crypt_run mb d [] = (d, [])"
  "fst (crypt_run mb d (cs @ [c])) = fst (crypt_data mb (fst (crypt_run mb d cs)) c)"
  "snd (crypt_run mb d (cs @ [c])) = snd (crypt_run mb d cs) @ snd (crypt_data mb (fst (crypt_run mb d cs)) c)"
  by (auto simp: crypt_run_def crypt_data_def ctr_run_snoc split: option.splits prod.splits)

text \<open>\<open>S d\<close> is the descriptor direction \<open>d\<close> reads from, \<open>k0 d\<close> its cipher at the start, \<open>n0\<close> the length of
  the trace then. While the loop runs, both streams are complete; once it has stopped, each is at
  least a prefix of what it should be.\<close>

fun opp :: "dir \<Rightarrow> dir" where "opp To_local = To_rvd" | "opp To_rvd = To_local"

definition cut_off :: "('w, 'k, 'j, 'e) env_scheme \<Rightarrow> nat \<Rightarrow> (dir \<Rightarrow> int) \<Rightarrow> (dir \<Rightarrow> 'k ctr option) \<Rightarrow> io list \<Rightarrow> bool" where
  "cut_off E n0 S k0 tr \<longleftrightarrow> n0 \<le> length tr \<and>
     (\<forall>d. prefix (sent_on (S (opp d)) (drop n0 tr)) (snd (crypt_run (e_mb E) (k0 d) (reads_on (Some (S d)) (drop n0 tr)))))"

definition bridged ::
  "('w, 'k, 'j, 'e) env_scheme \<Rightarrow> nat \<Rightarrow> (dir \<Rightarrow> int) \<Rightarrow> sock \<Rightarrow> (dir \<Rightarrow> 'k ctr option) \<Rightarrow> ('w, 'k, 'z) stask_scheme \<Rightarrow> bool" where
  "bridged E n0 S c k0 s \<longleftrightarrow> n0 \<le> length (t_trace s) \<and> side_sock (sg_ctrl s) s = c \<and>
     (\<forall>d. bridge_src d s = Some (S d) \<and>
       sent_on (S (opp d)) (drop n0 (t_trace s)) = snd (crypt_run (e_mb E) (k0 d) (reads_on (Some (S d)) (drop n0 (t_trace s)))) \<and>
       bridge_cipher d s = fst (crypt_run (e_mb E) (k0 d) (reads_on (Some (S d)) (drop n0 (t_trace s)))))"

lemma bridged_cut_off: "bridged E n0 S c k0 s \<Longrightarrow> cut_off E n0 S k0 (t_trace s)"
  by (simp add: bridged_def cut_off_def)

lemma bridge_dst_src: "bridge_dst d s = bridge_src (opp d) s"
  by (cases d) (simp_all add: bridge_dst_def bridge_src_def)

text \<open>What the streams depend on, and the steps that leave it alone.\<close>

definition bridge_view :: "('w, 'k, 'z) stask_scheme \<Rightarrow> io list \<times> sock \<times> (dir \<Rightarrow> sock) \<times> (dir \<Rightarrow> 'k ctr option)" where
  "bridge_view s = (t_trace s, side_sock (sg_ctrl s) s, (\<lambda>d. bridge_src d s), (\<lambda>d. bridge_cipher d s))"

lemmas view_defs = bridge_view_def bridge_src_def bridge_cipher_def data_sock_def local_sock_def side_sock_def other_def

lemma bridged_view: "bridge_view s = bridge_view s' \<Longrightarrow> bridged E n0 S c k0 s = bridged E n0 S c k0 s'"
  by (simp add: bridged_def bridge_view_def fun_eq_iff)

lemma view_same [simp]:
  "bridge_view (post (available E c) s) = bridge_view s" "bridge_view (post (millis E) s) = bridge_view s"
  "bridge_view (post (task_delay E ms) s) = bridge_view s" "bridge_view (post (rx f) s) = bridge_view s"
  "bridge_view (post (idle_now E) s) = bridge_view s" "bridge_view (post (count_bridged E d n) s) = bridge_view s"
  "bridge_view (post (peer_closed E c) s) = bridge_view s" "bridge_view (post (drained_and_closed E c) s) = bridge_view s"
  by (cases c; cases d; simp add: view_defs available_def millis_def task_delay_def count_bridged_def idle_now_def
      peer_closed_def drained_and_closed_def split: side.splits)+

lemma view_read:
  "bridge_view (post (sock_read E c n) s) =
     (case bridge_view s of (tr, rest) \<Rightarrow> (tr @ (case res (sock_read E c n) s of Got bs \<Rightarrow> [Io_read c bs] | Read_error \<Rightarrow> []), rest))"
  using sock_read_effect [of E c n s] by (auto simp: view_defs split: side.splits)

lemma view_cipher: "bridge_view (set_bridge_cipher d v s) =
    (case bridge_view s of (tr, c, sr, k) \<Rightarrow> (tr, c, sr, k(d := v)))"
  by (cases d) (auto simp: view_defs set_bridge_cipher_def fun_eq_iff split: side.splits dir.splits)

lemma wrote_view:
  assumes "wrote fd bs ok s s'"
  shows "\<exists>tr. bridge_view s' = (case bridge_view s of (t, rest) \<Rightarrow> (t @ tr, rest)) \<and>
     (\<forall>c. reads_on c tr = []) \<and> (\<forall>fd'. fd' \<noteq> fd \<longrightarrow> sent_on fd' tr = []) \<and>
     prefix (sent_on fd tr) bs \<and> (ok \<longrightarrow> sent_on fd tr = bs)"
  using assms unfolding wrote_def by (auto simp: view_defs split: side.splits)

text \<open>A read that hands nothing on, and a chunk that is handed on.\<close>

lemma bridged_read:
  assumes "bridged E n0 S c k0 s" "bridge_view s' = (case bridge_view s of (tr, rest) \<Rightarrow> (tr @ [Io_read x bs], rest))"
    and "bs = [] \<or> (\<forall>d. x \<noteq> Some (S d))"
  shows "bridged E n0 S c k0 s'"
  using assms by (auto simp: bridged_def bridge_view_def fun_eq_iff)

lemma bridged_chunk:
  assumes "bridged E n0 S c k0 s" "S To_local \<noteq> S To_rvd" "bs \<noteq> []"
    and "t_trace s1 = t_trace s @ [Io_read (Some (S d)) bs]" "bridge_view s1 = (t_trace s1, snd (bridge_view s))"
  shows "(res (bridge_chunk E d bs) s1 \<longrightarrow> bridged E n0 S c k0 (post (bridge_chunk E d bs) s1)) \<and>
    cut_off E n0 S k0 (t_trace (post (bridge_chunk E d bs) s1))"
proof -
  define out where "out = crypt_data (e_mb E) (bridge_cipher d s) bs"
  define s2 where "s2 = post (count_bridged E d (length bs)) s1"
  define s3 where "s3 = set_bridge_cipher d (fst out) s2"
  define k where "k = (\<lambda>d. bridge_cipher d s)"
  have src: "bridge_src d' s = Some (S d')" "side_sock (sg_ctrl s) s = c" for d' using assms(1) by (simp_all add: bridged_def)
  have v1: "bridge_view s1 = (t_trace s @ [Io_read (Some (S d)) bs], c, (\<lambda>d. Some (S d)), k)"
    using assms(4,5) src by (simp add: bridge_view_def k_def)
  have v2: "bridge_view s2 = bridge_view s1" by (simp add: s2_def)
  with v1 have c2: "bridge_cipher d s2 = bridge_cipher d s" by (simp add: bridge_view_def fun_eq_iff k_def)
  have v3: "bridge_view s3 = (t_trace s @ [Io_read (Some (S d)) bs], c, (\<lambda>d. Some (S d)), k(d := fst out))"
    by (simp add: s3_def view_cipher v2 v1)
  then have dst: "bridge_dst d s3 = Some (S (opp d))" by (simp add: bridge_dst_src bridge_view_def fun_eq_iff)
  have run: "post (bridge_chunk E d bs) s1 = post (write_all E (Some (S (opp d))) (snd out)) s3"
    "res (bridge_chunk E d bs) s1 = res (write_all E (Some (S (opp d))) (snd out)) s3"
    by (simp_all add: bridge_chunk_def s2_def [symmetric] c2 out_def [symmetric] s3_def [symmetric] dst)
  define s4 where "s4 = post (write_all E (Some (S (opp d))) (snd out)) s3"
  obtain tr where v4: "bridge_view s4 = (t_trace s @ [Io_read (Some (S d)) bs] @ tr, c, (\<lambda>d. Some (S d)), k(d := fst out))"
    and tr: "\<forall>c. reads_on c tr = []" "\<forall>fd'. fd' \<noteq> S (opp d) \<longrightarrow> sent_on fd' tr = []" "prefix (sent_on (S (opp d)) tr) (snd out)"
      "res (write_all E (Some (S (opp d))) (snd out)) s3 \<longrightarrow> sent_on (S (opp d)) tr = snd out"
    using wrote_view [OF write_all_wrote [of "S (opp d)" "snd out" E s3]] v3 by (auto simp: s4_def)
  have flow: "n0 \<le> length (t_trace s)"
    "sent_on (S (opp d')) (drop n0 (t_trace s)) = snd (crypt_run (e_mb E) (k0 d') (reads_on (Some (S d')) (drop n0 (t_trace s))))"
    "bridge_cipher d' s = fst (crypt_run (e_mb E) (k0 d') (reads_on (Some (S d')) (drop n0 (t_trace s))))" for d'
    using assms(1) by (simp_all add: bridged_def)
  define t4 where "t4 = drop n0 (t_trace s4)"
  have t4: "t4 = drop n0 (t_trace s) @ [Io_read (Some (S d)) bs] @ tr" "n0 \<le> length (t_trace s4)"
    using v4 flow(1) by (simp_all add: t4_def bridge_view_def)
  have ne: "S d' = S d \<longleftrightarrow> d' = d" "S d = S d' \<longleftrightarrow> d' = d" "S (opp d') = S (opp d) \<longleftrightarrow> d' = d" for d'
    using assms(2) by (cases d; cases d'; simp)+
  have here: "sent_on (S (opp d)) t4 = snd (crypt_run (e_mb E) (k0 d) (reads_on (Some (S d)) (drop n0 (t_trace s)))) @ sent_on (S (opp d)) tr"
    "reads_on (Some (S d)) t4 = reads_on (Some (S d)) (drop n0 (t_trace s)) @ [bs]"
    using t4 flow(2) tr(1) assms(3) by simp_all
  have there: "sent_on (S (opp d')) t4 = sent_on (S (opp d')) (drop n0 (t_trace s))"
    "reads_on (Some (S d')) t4 = reads_on (Some (S d')) (drop n0 (t_trace s))" if "d' \<noteq> d" for d'
    using t4 tr(1,2) that ne by simp_all
  have pre: "prefix (sent_on (S (opp d')) t4) (snd (crypt_run (e_mb E) (k0 d') (reads_on (Some (S d')) t4)))" for d'
    using here there [of d'] flow(2,3) [of d'] tr(3) by (cases "d' = d") (simp_all add: out_def)
  have ok: "bridged E n0 S c k0 s4" if "res (write_all E (Some (S (opp d))) (snd out)) s3"
  proof -
    have s: "sent_on (S (opp d')) t4 = snd (crypt_run (e_mb E) (k0 d') (reads_on (Some (S d')) t4))" for d'
      using here there [of d'] flow(2,3) [of d'] tr(4) that by (cases "d' = d") (simp_all add: out_def)
    have c: "bridge_cipher d' s4 = fst (crypt_run (e_mb E) (k0 d') (reads_on (Some (S d')) t4))" for d'
      using here there [of d'] flow(3) [of d'] v4 by (cases "d' = d") (simp_all add: out_def bridge_view_def fun_eq_iff k_def)
    show ?thesis using s c v4 t4(2) unfolding bridged_def t4_def [symmetric] by (simp add: bridge_view_def fun_eq_iff)
  qed
  show ?thesis unfolding run s4_def [symmetric] using ok pre t4(2) by (simp add: cut_off_def t4_def [symmetric])
qed

lemma bridge_dir_keeps:
  assumes s: "bridged E n0 S c k0 s" and S: "S To_local \<noteq> S To_rvd"
  shows "(res (bridge_dir E d) s \<longrightarrow> bridged E n0 S c k0 (post (bridge_dir E d) s)) \<and> cut_off E n0 S k0 (t_trace (post (bridge_dir E d) s))"
proof -
  have ds: "bridge_src d s = Some (S d)" using s by (simp add: bridged_def)
  define s1 where "s1 = post (available E (Some (S d))) s"
  define r where "r = res (sock_read E (Some (S d)) RELAY_BUF_SIZE) s1"
  define s2 where "s2 = post (sock_read E (Some (S d)) RELAY_BUF_SIZE) s1"
  have v1: "bridge_view s1 = bridge_view s" by (simp add: s1_def)
  have v2: "bridge_view s2 = (case bridge_view s of (tr, rest) \<Rightarrow> (tr @ (case r of Got bs \<Rightarrow> [Io_read (Some (S d)) bs] | Read_error \<Rightarrow> []), rest))"
    unfolding s2_def view_read v1 r_def ..
  have fin: "bridged E n0 S c k0 u \<Longrightarrow> bridged E n0 S c k0 u \<and> cut_off E n0 S k0 (t_trace u)" for u
    by (simp add: bridged_cut_off)
  have run: "post (bridge_dir E d) s = (if \<not> res (available E (Some (S d))) s then s1 else
      case r of Read_error \<Rightarrow> s2 | Got bs \<Rightarrow> if bs = [] then s2 else post (bridge_chunk E d bs) s2)"
    "res (bridge_dir E d) s = (if \<not> res (available E (Some (S d))) s then True else
      case r of Read_error \<Rightarrow> False | Got bs \<Rightarrow> if bs = [] then True else res (bridge_chunk E d bs) s2)"
    by (auto simp: bridge_dir_def ds s1_def [symmetric] r_def [symmetric] s2_def [symmetric] split: recv.splits)
  have b1: "bridged E n0 S c k0 s1" using s bridged_view [OF v1] by blast
  have b2: "bridged E n0 S c k0 s2" if "r = Read_error"
  proof -
    have "bridge_view s2 = bridge_view s" using v2 that by (simp add: bridge_view_def)
    with s bridged_view show ?thesis by blast
  qed
  have b3: "bridged E n0 S c k0 s2" if "r = Got []"
    by (rule bridged_read [OF s, of _ "Some (S d)" "[]"]) (use v2 that in simp_all)
  have b4: "t_trace s2 = t_trace s @ [Io_read (Some (S d)) bs]" "bridge_view s2 = (t_trace s2, snd (bridge_view s))" if "r = Got bs" for bs
    using v2 that by (simp_all add: bridge_view_def)
  show ?thesis unfolding run
    using fin [OF b1] fin [OF b2] fin [OF b3] bridged_chunk [OF s S _ b4] by (auto split: recv.splits)
qed

lemma bridged_quiet: "bridged E n0 S c k0 s \<Longrightarrow> bridge_view s' = bridge_view s \<Longrightarrow> bridged E n0 S c k0 s'"
  using bridged_view by blast

lemma drain_ctrl_keeps:
  assumes s: "bridged E n0 S c k0 s" and c: "\<forall>d. c \<noteq> Some (S d)"
  shows "bridged E n0 S c k0 (post (drain_ctrl E) s)"
proof -
  have cs: "side_sock (sg_ctrl s) s = c" using s by (simp add: bridged_def)
  define s1 where "s1 = post (available E c) s"
  define r where "r = res (sock_read E c RELAY_BUF_SIZE) s1"
  define s2 where "s2 = post (sock_read E c RELAY_BUF_SIZE) s1"
  have v1: "bridge_view s1 = bridge_view s" by (simp add: s1_def)
  have b1: "bridged E n0 S c k0 s1" by (rule bridged_quiet [OF s v1])
  have v2: "bridge_view s2 = (case bridge_view s1 of (tr, rest) \<Rightarrow> (tr @ (case r of Got bs \<Rightarrow> [Io_read c bs] | Read_error \<Rightarrow> []), rest))"
    unfolding s2_def view_read r_def ..
  have b2: "bridged E n0 S c k0 s2"
  proof (cases r)
    case (Got bs)
    show ?thesis by (rule bridged_read [OF b1, of _ c bs]) (use v2 Got c in simp_all)
  next
    case Read_error
    then have "bridge_view s2 = bridge_view s1" using v2 by (simp add: bridge_view_def)
    then show ?thesis by (rule bridged_quiet [OF b1])
  qed
  have b3: "bridged E n0 S c k0 (post (idle_now E) s2)" by (rule bridged_quiet [OF b2]) simp
  have "post (drain_ctrl E) s = (if \<not> res (available E c) s then s1 else case r of Got (b # bs) \<Rightarrow> post (idle_now E) s2 | _ \<Rightarrow> s2)"
    by (auto simp: drain_ctrl_def cs s1_def [symmetric] r_def [symmetric] s2_def [symmetric] split: recv.splits list.splits)
  with b1 b2 b3 show ?thesis by (auto split: recv.splits list.splits)
qed

lemma view_bridge_open [simp]: "bridge_view (post (bridge_open E) s) = bridge_view s"
  by (simp add: bridge_open_def)

lemma bridge_iteration_keeps:
  assumes s: "bridged E n0 S c k0 s" and S: "S To_local \<noteq> S To_rvd" "\<forall>d. c \<noteq> Some (S d)"
  shows "(res (bridge_iteration E) s \<longrightarrow> bridged E n0 S c k0 (post (bridge_iteration E) s)) \<and>
    cut_off E n0 S k0 (t_trace (post (bridge_iteration E) s))"
proof -
  define s1 where "s1 = post (bridge_dir E To_local) s"
  define s2 where "s2 = post (bridge_dir E To_rvd) s1"
  define s3 where "s3 = post (bridge_open E) (post (drain_ctrl E) s2)"
  note b1 = bridge_dir_keeps [OF s S(1), of To_local, folded s1_def]
  have b2: "res (bridge_dir E To_local) s \<Longrightarrow> (res (bridge_dir E To_rvd) s1 \<longrightarrow> bridged E n0 S c k0 s2) \<and> cut_off E n0 S k0 (t_trace s2)"
    using b1 bridge_dir_keeps [of E n0 S c k0 s1 To_rvd] S(1) unfolding s2_def by blast
  have b3: "bridged E n0 S c k0 s3 \<and> bridged E n0 S c k0 (post (task_delay E 5) s3)" if "bridged E n0 S c k0 s2"
  proof -
    have "bridged E n0 S c k0 s3" unfolding s3_def by (rule bridged_quiet [OF drain_ctrl_keeps [OF that S(2)]]) simp
    moreover have "bridged E n0 S c k0 (post (task_delay E 5) s3)" by (rule bridged_quiet [OF calculation]) simp
    ultimately show ?thesis ..
  qed
  have "post (bridge_iteration E) s = (if \<not> res (bridge_dir E To_local) s then s1 else if \<not> res (bridge_dir E To_rvd) s1 then s2
      else if \<not> res (bridge_open E) (post (drain_ctrl E) s2) then s3 else post (task_delay E 5) s3)"
    "res (bridge_iteration E) s = (res (bridge_dir E To_local) s \<and> res (bridge_dir E To_rvd) s1 \<and> res (bridge_open E) (post (drain_ctrl E) s2))"
    by (auto simp: bridge_iteration_def s1_def [symmetric] s2_def [symmetric] s3_def [symmetric])
  then show ?thesis using b1 b2 b3 bridged_cut_off by (auto split: if_splits)
qed

lemma bridge_loop_cut_off:
  assumes "S To_local \<noteq> S To_rvd" "\<forall>d. c \<noteq> Some (S d)"
  shows "bridged E n0 S c k0 s \<Longrightarrow> cut_off E n0 S k0 (t_trace (post (bridge_loop fuel E) s))"
proof (induction fuel arbitrary: s)
  case 0
  then show ?case using bridged_cut_off [OF 0] by (simp add: diverge_def)
next
  case (Suc fuel)
  define s1 where "s1 = post (rx (e_should_run E)) s"
  have b1: "bridged E n0 S c k0 s1" unfolding s1_def by (rule bridged_quiet [OF Suc.prems]) (simp del: rx_simps)
  note it = bridge_iteration_keeps [OF b1 assms]
  have "post (bridge_loop (Suc fuel) E) s = (if \<not> res (rx (e_should_run E)) s then s1 else
      if res (bridge_iteration E) s1 then post (bridge_loop fuel E) (post (bridge_iteration E) s1) else post (bridge_iteration E) s1)"
    by (auto simp: s1_def)
  then show ?case using bridged_cut_off [OF b1] it Suc.IH [of "post (bridge_iteration E) s1"] by auto
qed



subsection \<open>Sockets\<close>

text \<open>Operations that open and close nothing and leave the three sockets of the task alone.\<close>

definition mute :: "('w, 'k, 'z) stask_scheme \<Rightarrow> ('w, 'k, 'z) stask_scheme \<Rightarrow> bool" where
  "mute s s' \<longleftrightarrow> (\<exists>tr. t_trace s' = t_trace s @ tr \<and> opened tr = [] \<and> stopped tr = []) \<and> sg_sock_a s' = sg_sock_a s \<and>
     rl_rvd_client (t_relay s') = rl_rvd_client (t_relay s) \<and> rl_local_client (t_relay s') = rl_local_client (t_relay s)"

lemma mute_preorder [io_rule]: "preorder_rel mute"
  by (rule preorder_relI) (auto simp: mute_def)

lemma mute_log: "opened [e] = [] \<Longrightarrow> stopped [e] = [] \<Longrightarrow> state_io_rel mute (log_io e)"
  by (simp add: state_io_rel_post mute_def)

lemma mute_prims [io_intro]:
  "state_io_rel mute (rx f)" "state_io_rel mute (rdo g)" "state_io_rel mute (upd_pcb h)"
  "state_io_rel mute (set_state st)" "state_io_rel mute (diverge x)"
  by (simp_all add: state_io_rel_post mute_def diverge_def)

lemma mute_modify:
  "(\<And>s. t_trace (f s) = t_trace s \<and> sg_sock_a (f s) = sg_sock_a s \<and> rl_rvd_client (t_relay (f s)) = rl_rvd_client (t_relay s) \<and>
     rl_local_client (t_relay (f s)) = rl_local_client (t_relay s)) \<Longrightarrow> state_io_rel mute (modify_st f)"
  by (simp add: state_io_rel_post mute_def)

lemma mute_upd_relay:
  "(\<And>r. rl_rvd_client (f r) = rl_rvd_client r \<and> rl_local_client (f r) = rl_local_client r) \<Longrightarrow> state_io_rel mute (upd_relay f)"
  by (simp add: state_io_rel_post mute_def)

lemma mute_io [io_intro]:
  "state_io_rel mute (millis E)" "state_io_rel mute (task_delay E ms)" "state_io_rel mute (available E c)"
  "state_io_rel mute (connected E c)" "state_io_rel mute (sock_read E c k)" "state_io_rel mute (sock_print E c t)"
  "state_io_rel mute (peer_closed E c)" "state_io_rel mute (write_nb E c bs)" "state_io_rel mute (drained_and_closed E c)"
  unfolding millis_def task_delay_def available_def connected_def sock_read_def sock_print_def peer_closed_def write_nb_def
    drained_and_closed_def
  by (intro io_rule io_intro mute_log; simp)+

lemma mute_loops [io_intro]:
  "state_io_rel mute (poll_line fuel E c t0 limit acc)" "state_io_rel mute (write_all_loop fuel E c bs start tmo)"
proof -
  show "state_io_rel mute (poll_line fuel E c t0 limit acc)"
  proof (induction fuel arbitrary: acc)
    case (Suc fuel)
    then show ?case by (auto intro!: io_rule io_intro)
  qed (auto intro!: io_rule io_intro)
  show "state_io_rel mute (write_all_loop fuel E c bs start tmo)"
  proof (induction fuel arbitrary: bs start)
    case (Suc fuel)
    then show ?case by (auto intro!: io_rule io_intro)
  qed (auto intro!: io_rule io_intro)
qed

lemma mute_write_all [io_intro]: "state_io_rel mute (write_all E c bs)"
  unfolding write_all_def by (intro io_rule io_intro)

lemma mute_sock_auth [io_intro]: "state_io_rel mute m \<Longrightarrow> state_io_rel mute (sock_auth E c cfg m)"
  unfolding sock_auth_def escr_authenticate_def escr_challenge_def escr_send_def escr_verdict_def escr_payload_def
    escr_inner_def escr_signature_def escr_envelope_def escr_encrypt_def escr_outer_def random_iv_def Let_def
    add_string_def print_fields_def mem_ok_def
  by (intro io_rule io_intro)

lemma mute_take_byte [io_intro]: "state_io_rel mute (take_byte mb x raw)"
  unfolding take_byte_def Let_def by (cases x) (auto intro!: io_rule mute_modify)

lemma mute_poll_side [io_intro]: "state_io_rel mute (poll_side E x)"
  unfolding poll_side_def by (intro io_rule io_intro)

lemma mute_wait_connect [io_intro]: "state_io_rel mute (wait_connect fuel E start)"
proof (induction fuel)
  case (Suc fuel)
  then show ?case by (auto intro!: io_rule io_intro)
qed (auto intro!: io_rule io_intro)

lemma mute_phase2 [io_intro]: "state_io_rel mute (single_phase2 E)"
  unfolding single_phase2_def data_keys_def single_error_def by (intro io_rule io_intro mute_modify) simp_all

lemma mute_ctrl_decrypters [io_intro]: "state_io_rel mute (ctrl_decrypters E)"
  unfolding ctrl_decrypters_def alloc_aes_ctr_state_def by (intro io_rule io_intro mute_modify mute_upd_relay) simp_all

lemma mute_bridge_dir [io_intro]: "state_io_rel mute (bridge_dir E d)"
  unfolding bridge_dir_def bridge_chunk_def count_bridged_def idle_now_def
  by (cases d) (auto intro!: io_rule io_intro mute_modify mute_upd_relay simp: set_bridge_cipher_def)

lemma mute_bridge_loop [io_intro]: "state_io_rel mute (bridge_loop fuel E)"
proof (induction fuel)
  case (Suc fuel)
  then show ?case
    unfolding bridge_loop.simps bridge_iteration_def drain_ctrl_def bridge_open_def idle_now_def
    by (intro io_rule io_intro mute_modify) simp_all
qed (auto intro!: io_rule io_intro)

lemma mute_bridge_start [io_intro]: "state_io_rel mute (replay_early E)" "state_io_rel mute (start_running E)"
  unfolding replay_early_def start_running_def
  by (intro io_rule io_intro mute_modify mute_upd_relay; simp)+

definition three_socks :: "io list \<Rightarrow> ('w, 'k, 'z) stask_scheme \<Rightarrow> bool" where
  "three_socks T s \<longleftrightarrow> (\<exists>tr. t_trace s = T @ tr \<and>
     mset (opened tr) = mset (stopped tr) + socks (sg_sock_a s) + socks (rl_rvd_client (t_relay s)) + socks (rl_local_client (t_relay s)))"

text \<open>The sockets not opened yet.\<close>

definition unopened :: "nat \<Rightarrow> ('w, 'k, 'z) stask_scheme \<Rightarrow> bool" where
  "unopened k s \<longleftrightarrow> (k < 1 \<longrightarrow> sg_sock_a s = None) \<and> (k < 2 \<longrightarrow> rl_rvd_client (t_relay s) = None) \<and> rl_local_client (t_relay s) = None"

lemma three_mute: "state_io_rel mute m \<Longrightarrow> three_socks T s \<Longrightarrow> three_socks T (post m s)"
proof -
  assume m: "state_io_rel mute m" and s: "three_socks T s"
  from io_relD [OF m, of s] obtain tr' where "t_trace (post m s) = t_trace s @ tr'" "opened tr' = []" "stopped tr' = []"
    "sg_sock_a (post m s) = sg_sock_a s" "rl_rvd_client (t_relay (post m s)) = rl_rvd_client (t_relay s)"
    "rl_local_client (t_relay (post m s)) = rl_local_client (t_relay s)" unfolding mute_def by blast
  moreover from s obtain tr where "t_trace s = T @ tr"
    "mset (opened tr) = mset (stopped tr) + socks (sg_sock_a s) + socks (rl_rvd_client (t_relay s)) + socks (rl_local_client (t_relay s))"
    unfolding three_socks_def by blast
  ultimately show "three_socks T (post m s)"
    unfolding three_socks_def by (intro exI [of _ "tr @ tr'"]) simp
qed

lemma unopened_mute: "state_io_rel mute m \<Longrightarrow> unopened k s \<Longrightarrow> unopened k (post m s)"
  using io_relD [of mute m s] by (simp add: mute_def unopened_def)

lemma socks_a:
  assumes "three_socks T s" "unopened 0 s"
  shows "three_socks T ((post (sock_connect E h p) s)\<lparr>sg_sock_a := res (sock_connect E h p) s\<rparr>)"
proof -
  obtain tr where "t_trace s = T @ tr" "mset (opened tr) = mset (stopped tr)"
    using assms by (auto simp: three_socks_def unopened_def)
  then show ?thesis using assms(2) unfolding three_socks_def
    by (intro exI [of _ "tr @ [Io_connect h p (res (sock_connect E h p) s)]"]) (simp add: sock_connect_def unopened_def)
qed

lemma socks_b:
  assumes "three_socks T s" "unopened 1 s"
  shows "three_socks T (post (upd_relay (rl_rvd_client_update (\<lambda>_. res (sock_connect E h p) s))) (post (sock_connect E h p) s))"
proof -
  obtain tr where "t_trace s = T @ tr" "mset (opened tr) = mset (stopped tr) + socks (sg_sock_a s)"
    using assms by (auto simp: three_socks_def unopened_def)
  then show ?thesis using assms(2) unfolding three_socks_def
    by (intro exI [of _ "tr @ [Io_connect h p (res (sock_connect E h p) s)]"]) (simp add: sock_connect_def unopened_def)
qed

lemma socks_local:
  assumes "three_socks T s" "unopened 2 s"
  shows "three_socks T (post (upd_relay (rl_local_client_update (\<lambda>_. res (sock_connect E h p) s))) (post (sock_connect E h p) s))"
proof -
  obtain tr where "t_trace s = T @ tr" "mset (opened tr) = mset (stopped tr) + socks (sg_sock_a s) + socks (rl_rvd_client (t_relay s))"
    using assms by (auto simp: three_socks_def unopened_def)
  then show ?thesis using assms(2) unfolding three_socks_def
    by (intro exI [of _ "tr @ [Io_connect h p (res (sock_connect E h p) s)]"]) (simp add: sock_connect_def unopened_def)
qed

text \<open>What follows each connect is mute.\<close>

lemma open_a_socks:
  fixes s :: "('w, 'k, 'z) stask_scheme"
  assumes "three_socks T s" "unopened 0 s"
  shows "three_socks T (post (open_sock_a E) s) \<and> unopened 1 (post (open_sock_a E) s)"
proof -
  define cfg where "cfg = rl_config (t_relay s)"
  define c where "c = res (sock_connect E (rc_rvd_host cfg) (rc_rvd_port cfg)) s"
  define s1 where "s1 = (post (sock_connect E (rc_rvd_host cfg) (rc_rvd_port cfg)) s)\<lparr>sg_sock_a := c\<rparr>"
  define rest :: "('w, 'k, 'z, bool) single" where "rest = (if c = None then single_error
     else do {
       upd_pcb (\<lambda>n. n + 1);
       ok \<leftarrow> sock_auth E c cfg (set_state RELAY_AUTHENTICATING);
       if ok then ret True else single_error })"
  have m: "state_io_rel mute rest" unfolding rest_def single_error_def by (intro io_rule io_intro)
  have "three_socks T s1" unfolding s1_def c_def by (rule socks_a [OF assms])
  moreover have "unopened 1 s1" using assms(2) by (simp add: s1_def unopened_def sock_connect_def)
  moreover have "post (open_sock_a E) s = post rest s1"
    by (simp only: open_sock_a_def post_simps res_simps cfg_def [symmetric] c_def [symmetric] s1_def [symmetric] rest_def [symmetric])
  ultimately show ?thesis using three_mute [OF m] unopened_mute [OF m] by simp
qed

lemma open_b_socks:
  fixes s :: "('w, 'k, 'z) stask_scheme"
  assumes "three_socks T s" "unopened 1 s"
  shows "three_socks T (post (open_sock_b E) s) \<and> unopened 2 (post (open_sock_b E) s)"
proof -
  define cfg where "cfg = rl_config (t_relay s)"
  define c where "c = res (sock_connect E (rc_rvd_host cfg) (rc_rvd_port cfg)) s"
  define s1 where "s1 = post (upd_relay (rl_rvd_client_update (\<lambda>_. c))) (post (sock_connect E (rc_rvd_host cfg) (rc_rvd_port cfg)) s)"
  define rest :: "('w, 'k, 'z, bool) single" where "rest = (if c = None then single_error
     else do {
       upd_pcb (\<lambda>n. n + 1);
       ok \<leftarrow> sock_auth E c cfg (ret ());
       if ok then ret True else single_error })"
  have m: "state_io_rel mute rest" unfolding rest_def single_error_def by (intro io_rule io_intro)
  have "three_socks T s1" unfolding s1_def c_def by (rule socks_b [OF assms])
  moreover have "unopened 2 s1" using assms(2) by (simp add: s1_def unopened_def sock_connect_def)
  moreover have "post (open_sock_b E) s = post rest s1"
    by (simp only: open_sock_b_def post_simps(2,4) res_simps cfg_def [symmetric] c_def [symmetric] s1_def [symmetric] rest_def [symmetric])
  ultimately show ?thesis using three_mute [OF m] unopened_mute [OF m] by simp
qed

lemma open_local_socks:
  fixes s :: "('w, 'k, 'z) stask_scheme"
  assumes "three_socks T s" "unopened 2 s"
  shows "three_socks T (post (open_local E) s)"
proof -
  define s0 where "s0 = post (upd_relay (rl_encrypter_update (\<lambda>_. None))) (post (modify_st (\<lambda>s. s\<lparr>sg_dec_a := None, sg_dec_b := None\<rparr>)) s)"
  have s0: "three_socks T s0" "unopened 2 s0" using assms by (simp_all add: s0_def three_socks_def unopened_def)
  define cfg where "cfg = rl_config (t_relay s0)"
  define c where "c = res (sock_connect E (rc_local_host cfg) (rc_local_port cfg)) s0"
  define s1 where "s1 = post (upd_relay (rl_local_client_update (\<lambda>_. c))) (post (sock_connect E (rc_local_host cfg) (rc_local_port cfg)) s0)"
  define rest :: "('w, 'k, 'z, bool) single" where "rest = (if c = None then single_error else do { upd_pcb (\<lambda>n. n + 1); ret True })"
  have m: "state_io_rel mute rest" unfolding rest_def single_error_def by (intro io_rule io_intro)
  have "three_socks T s1" unfolding s1_def c_def by (rule socks_local [OF s0])
  moreover have "post (open_local E) s = post rest s1"
    by (simp only: open_local_def post_simps(2,4) res_simps s0_def [symmetric] cfg_def [symmetric] c_def [symmetric] s1_def [symmetric] rest_def [symmetric])
  ultimately show ?thesis using three_mute [OF m] by simp
qed

lemma single_connect_socks:
  fixes s :: "('w, 'k, 'z) stask_scheme"
  assumes "three_socks T s" "unopened 0 s"
  shows "three_socks T (post (single_connect E) s)"
proof -
  define s0 where "s0 = post (set_state RELAY_CONNECTING) s"
  define s1 where "s1 = post (open_sock_a E) s0"
  define s2 where "s2 = post (open_sock_b E) s1"
  define s3 where "s3 = post (single_phase2 E) (post (ctrl_decrypters E) s2)"
  have "three_socks T s0" "unopened 0 s0" using assms by (simp_all add: s0_def three_socks_def unopened_def)
  from open_a_socks [OF this, of E] have s1: "three_socks T s1" "unopened 1 s1" by (simp_all add: s1_def)
  from open_b_socks [OF this, of E] have s2: "three_socks T s2" "unopened 2 s2" by (simp_all add: s2_def)
  have s3: "three_socks T s3" "unopened 2 s3" unfolding s3_def
    by (rule three_mute [OF mute_phase2], rule three_mute [OF mute_ctrl_decrypters], rule s2,
        rule unopened_mute [OF mute_phase2], rule unopened_mute [OF mute_ctrl_decrypters], rule s2)
  from open_local_socks [OF s3, of E] s1 s2 s3 show ?thesis
    by (simp add: single_connect_def s0_def [symmetric] s1_def [symmetric] s2_def [symmetric] s3_def [symmetric] del: upd_simps(5))
qed

lemma single_cleanup_socks:
  assumes "three_socks T s"
  shows "\<exists>tr. t_trace (post (single_cleanup E) s) = T @ tr \<and> mset (opened tr) = mset (stopped tr)"
proof -
  obtain tr where "t_trace s = T @ tr"
    "mset (opened tr) = mset (stopped tr) + socks (sg_sock_a s) + socks (rl_rvd_client (t_relay s)) + socks (rl_local_client (t_relay s))"
    using assms unfolding three_socks_def by blast
  then show ?thesis
    by (intro exI [of _ "tr @ [Io_stop (sg_sock_a s)] @ [Io_stop (rl_rvd_client (t_relay s))] @ [Io_stop (rl_local_client (t_relay s))]"])
      (cases "sg_sock_a s"; cases "rl_rvd_client (t_relay s)"; cases "rl_local_client (t_relay s)";
        simp add: single_cleanup_def opened_def stopped_def socks_def)
qed

lemma single_session_socks:
  fixes s :: "('w, 'k, 'z) stask_scheme"
  assumes "rl_rvd_client (t_relay s) = None" "rl_local_client (t_relay s) = None"
  shows "\<exists>tr. t_trace (post (single_session E) s) = t_trace s @ tr \<and> mset (opened tr) = mset (stopped tr)"
proof -
  define s0 where "s0 = post single_init s"
  define s1 where "s1 = post (single_connect E) s0"
  define s2 where "s2 = post (when_st (res (single_connect E) s0) (do { replay_early E; start_running E; bridge_loop (e_fuel E) E })) s1"
  have "three_socks (t_trace s) s0" "unopened 0 s0"
    using assms by (simp_all add: s0_def single_init_def three_socks_def unopened_def)
  then have s1: "three_socks (t_trace s) s1" unfolding s1_def by (rule single_connect_socks)
  have "state_io_rel mute (when_st (res (single_connect E) s0) (do { replay_early E; start_running E; bridge_loop (e_fuel E) E }) :: ('w, 'k, 'z, unit) single)"
    by (intro io_rule io_intro)
  then have "three_socks (t_trace s) s2" unfolding s2_def by (rule three_mute [OF _ s1])
  from single_cleanup_socks [OF this, of E] show ?thesis
    by (cases "res (single_connect E) s0") (simp_all add: single_session_def s0_def [symmetric] s1_def [symmetric] s2_def)
qed


section \<open>Properties\<close>

text \<open>C16: a single-session relay hands on the client's bytes unharmed. From the moment the bridge runs, for
  as many rounds as it runs and however the network behaves, what has been sent to the local service
  is a prefix of what was read from the data connection, passed once through the data cipher when
  there is one, and the same the other way round; heartbeats on the control connection never get
  into either stream.\<close>
theorem single_relay_stream_prefix:
  assumes "data_sock s = Some c" "local_sock s = Some l" "c \<noteq> l" "side_sock (sg_ctrl s) s \<noteq> Some c" "side_sock (sg_ctrl s) s \<noteq> Some l"
    and "tr = drop (length (t_trace s)) (t_trace (post (bridge_loop fuel E) s))"
  shows "prefix (sent_on l tr) (snd (crypt_run (e_mb E) (sg_data_dec s) (reads_on (Some c) tr))) \<and>
    prefix (sent_on c tr) (snd (crypt_run (e_mb E) (sg_data_enc s) (reads_on (Some l) tr)))"
proof -
  define S where "S = (\<lambda>d. case d of To_local \<Rightarrow> c | To_rvd \<Rightarrow> l)"
  define k0 where "k0 = (\<lambda>d. bridge_cipher d s)"
  have "bridged E (length (t_trace s)) S (side_sock (sg_ctrl s) s) k0 s"
    using assms(1,2) by (auto simp: bridged_def S_def k0_def bridge_src_def split: dir.splits)
  then have "cut_off E (length (t_trace s)) S k0 (t_trace (post (bridge_loop fuel E) s))"
    by (rule bridge_loop_cut_off [rotated 2]) (use assms(3-5) in \<open>auto simp: S_def split: dir.splits\<close>)
  then have "\<forall>d. prefix (sent_on (S (opp d)) tr) (snd (crypt_run (e_mb E) (k0 d) (reads_on (Some (S d)) tr)))"
    by (simp add: cut_off_def assms(6))
  from spec [OF this, of To_local] spec [OF this, of To_rvd] show ?thesis by (simp add: S_def k0_def bridge_cipher_def)
qed


text \<open>C17: a single-session relay leaks no socket. Started without connections of its own, the task closes
  exactly the sockets it opened, on every path: when a connection, the challenge response or the
  connect line fails, when the bridge ends, and when it is told to stop.\<close>
theorem single_relay_leaks_no_socket:
  fixes s :: "('w, 'k, 'z) stask_scheme"
  assumes "rl_rvd_client (t_relay s) = None" "rl_local_client (t_relay s) = None"
  shows "\<exists>tr. t_trace (post (relay_task_inner E) s) = t_trace s @ tr \<and> mset (opened tr) = mset (stopped tr)"
proof -
  have "\<exists>tr. t_trace (post (single_session E) (s\<lparr>t_world := w\<rparr>)) = t_trace s @ tr \<and> mset (opened tr) = mset (stopped tr)" for w
    using single_session_socks [of "s\<lparr>t_world := w\<rparr>" E] assms by simp
  then show ?thesis by (auto simp: relay_task_inner_def opened_def stopped_def)
qed

definition example_stask :: "(ex_world, bytes) stask" where
  "example_stask = rtask.extend example_task (stask.fields (Some 2) SideA None None [] [] [] [] None None 0 0)"


lemma example_stask_simps [simp]:
  "t_relay example_stask = example_relay" "sg_sock_a example_stask = Some 2" "t_trace example_stask = []" 
  by (simp_all add: example_stask_def rtask.defs stask.defs example_task_def)

theorem single_relay_leaks_no_socket_witness:
  "rl_rvd_client (t_relay example_stask) = None \<and> rl_local_client (t_relay example_stask) = None \<and>
   (\<exists>tr. t_trace (post (relay_task_inner example_env) example_stask) = t_trace example_stask @ tr \<and> mset (opened tr) = mset (stopped tr))"
  using single_relay_leaks_no_socket [of example_stask example_env] by (simp add: example_relay_def)

definition bridge_stask :: "(ex_world, bytes) stask" where
  "bridge_stask = example_stask\<lparr>t_relay := example_relay\<lparr>rl_rvd_client := Some 3, rl_local_client := Some 4\<rparr>\<rparr>"

theorem single_relay_stream_prefix_witness:
  "let tr = t_trace (post (bridge_loop 3 example_env) bridge_stask) in
   prefix (sent_on 4 tr) (concat (reads_on (Some 3) tr)) \<and> prefix (sent_on 3 tr) (concat (reads_on (Some 4) tr))"
  using single_relay_stream_prefix [where s = bridge_stask and E = example_env and c = 3 and l = 4 and fuel = 3, OF _ _ _ _ _ refl]
  by (simp add: bridge_stask_def data_sock_def local_sock_def side_sock_def other_def example_stask_def rtask.defs stask.defs example_task_def crypt_run_def Let_def)

end
