(* ===== verification/Policy_Limits.thy ===== *)
theory Policy_Limits
  imports NP_CString
begin

text \<open>
  \<open>noports_policy_limits.c\<close>: canonical atSigns, the cache of policy decisions, the per-sender
  cooldown table and the time limits of a policy check. Tables are lists of a fixed length; the
  result of an operation that updates a table is a pair of the C return value and the new table.
\<close>

section \<open>Canonical atSigns\<close>

definition NOPORTS_ATSIGN_MAX_LEN :: nat where "NOPORTS_ATSIGN_MAX_LEN = 55"
definition NOPORTS_ATSIGN_BUFFER_LEN :: nat where
  "NOPORTS_ATSIGN_BUFFER_LEN = NOPORTS_ATSIGN_MAX_LEN + 2"

definition reserved_characters :: string where
  "reserved_characters = ''!*'' @ [CHR 0x27, CHR 0x60] @ ''();:&=+$,/?#[]{}''"

definition atsign_char_refused :: "char \<Rightarrow> bool" where
  "atsign_char_refused c \<longleftrightarrow> c = CHR ''@'' \<or> ch c \<le> 0x1F \<or> ch c = 0x7F \<or> c = CHR '' '' \<or>
     c \<in> set reserved_characters"

fun normalize_loop :: "nat \<Rightarrow> string \<Rightarrow> string \<Rightarrow> string option" where
  "normalize_loop out_len out [] = (if length out = 1 then None else Some out)"
| "normalize_loop out_len out (c # cs) =
     (if atsign_char_refused c then None
      else if c = CHR ''.'' then normalize_loop out_len out cs
      else if length out + 1 \<ge> out_len then None
      else normalize_loop out_len (out @ [to_lower c]) cs)"

definition noports_normalize_atsign :: "string option \<Rightarrow> nat \<Rightarrow> string option" where
  "noports_normalize_atsign atsign out_len =
     (case atsign of
        None \<Rightarrow> None
      | Some s \<Rightarrow>
          if out_len < 2 \<or> s = [] then None
          else normalize_loop out_len ''@'' (if hd s = CHR ''@'' then tl s else s))"

abbreviation canonical :: "string option \<Rightarrow> string option" where
  "canonical s \<equiv> noports_normalize_atsign s NOPORTS_ATSIGN_BUFFER_LEN"

definition noports_atsign_equals :: "string option \<Rightarrow> string option \<Rightarrow> bool" where
  "noports_atsign_equals a b =
     (case canonical a of
        None \<Rightarrow> False
      | Some na \<Rightarrow> (case canonical b of None \<Rightarrow> False | Some nb \<Rightarrow> na = nb))"

text \<open>What the loop keeps of an atSign, as a closed form.\<close>

definition kept :: "string \<Rightarrow> string" where
  "kept cs = map to_lower (filter (\<lambda>c. c \<noteq> CHR ''.'') cs)"

lemma kept_simps [simp]:
  "kept [] = []"
  "kept (c # cs) = (if c = CHR ''.'' then kept cs else to_lower c # kept cs)"
  by (simp_all add: kept_def)

lemma normalize_loop_closed:
  "length out < out_len \<Longrightarrow> normalize_loop out_len out cs =
     (if (\<forall>c \<in> set cs. \<not> atsign_char_refused c) \<and> length out + length (kept cs) < out_len \<and>
         length out + length (kept cs) \<noteq> 1
      then Some (out @ kept cs) else None)"
  by (induction cs arbitrary: out) auto

lemma to_lower_eq_iff:
  assumes "\<not> is_lower d" "\<not> is_upper d"
  shows "to_lower c = d \<longleftrightarrow> c = d"
proof
  assume e: "to_lower c = d"
  show "c = d"
  proof (cases "is_upper c")
    case True
    then have "ch d = ch c + 32" using e ch_to_lower [of c] by simp
    with True assms(1) show ?thesis by (simp add: is_upper_def is_lower_def)
  qed (use e in \<open>simp add: to_lower_def\<close>)
qed (use assms in \<open>simp add: to_lower_def\<close>)

lemma to_lower_dot [simp]: "to_lower c = CHR ''.'' \<longleftrightarrow> c = CHR ''.''"
  by (rule to_lower_eq_iff) (simp_all add: is_lower_def is_upper_def ch_def)

lemma not_refused_letter: "is_upper c \<or> is_lower c \<Longrightarrow> \<not> atsign_char_refused c"
  by (auto simp: atsign_char_refused_def reserved_characters_def is_upper_def is_lower_def ch_def)

lemma refused_to_lower [simp]: "atsign_char_refused (to_lower c) = atsign_char_refused c"
proof (cases "is_upper c")
  case True
  then have "is_lower (to_lower c)" by (simp add: is_lower_def ch_to_lower) (simp add: is_upper_def)
  with True not_refused_letter show ?thesis by blast
qed (simp add: to_lower_def)

lemma canonical_form:
  assumes "noports_normalize_atsign a n = Some r"
  shows "\<exists>t. r = CHR ''@'' # t \<and> t \<noteq> [] \<and> length r < n \<and>
    (\<forall>c \<in> set t. \<not> atsign_char_refused c \<and> c \<noteq> CHR ''.'' \<and> \<not> is_upper c)"
proof -
  obtain s where s: "a = Some s" "s \<noteq> []" "2 \<le> n"
    using assms by (auto simp: noports_normalize_atsign_def split: option.splits if_splits)
  define body where "body = (if hd s = CHR ''@'' then tl s else s)"
  have "normalize_loop n ''@'' body = Some r"
    using assms s by (simp add: noports_normalize_atsign_def body_def)
  then have "\<forall>c \<in> set body. \<not> atsign_char_refused c" "r = CHR ''@'' # kept body"
    "length r < n" "kept body \<noteq> []"
    using s(3) by (auto simp: normalize_loop_closed split: if_splits)
  then show ?thesis by (auto simp: kept_def)
qed

lemma kept_fixed: "\<forall>c \<in> set t. c \<noteq> CHR ''.'' \<and> \<not> is_upper c \<Longrightarrow> kept t = t"
  by (induction t) (auto simp: to_lower_def)

lemma normalize_idem:
  assumes "noports_normalize_atsign a n = Some r"
  shows "noports_normalize_atsign (Some r) n = Some r"
proof -
  obtain t where t: "r = CHR ''@'' # t" "t \<noteq> []" "length r < n"
    "\<forall>c \<in> set t. \<not> atsign_char_refused c \<and> c \<noteq> CHR ''.'' \<and> \<not> is_upper c"
    using canonical_form [OF assms] by blast
  then have "kept t = t" by (intro kept_fixed) auto
  with t show ?thesis by (auto simp: noports_normalize_atsign_def normalize_loop_closed)
qed

text \<open>An atSign is compared without its \<open>@\<close>, its dots and its case.\<close>

definition atsign_body :: "string \<Rightarrow> string" where
  "atsign_body s = kept (if s \<noteq> [] \<and> hd s = CHR ''@'' then tl s else s)"

lemma canonical_body: "canonical (Some s) = Some r \<Longrightarrow> r = CHR ''@'' # atsign_body s"
  by (auto simp: noports_normalize_atsign_def normalize_loop_closed atsign_body_def
      NOPORTS_ATSIGN_BUFFER_LEN_def split: if_splits)

lemma atsign_equals_iff:
  "noports_atsign_equals (Some a) (Some b) \<longleftrightarrow>
     canonical (Some a) \<noteq> None \<and> canonical (Some b) \<noteq> None \<and> atsign_body a = atsign_body b"
  by (auto simp: noports_atsign_equals_def dest: canonical_body split: option.splits)

lemma atsign_equals_sym: "noports_atsign_equals a b = noports_atsign_equals b a"
  by (auto simp: noports_atsign_equals_def split: option.splits)

lemma atsign_equals_trans:
  "noports_atsign_equals a b \<Longrightarrow> noports_atsign_equals b c \<Longrightarrow> noports_atsign_equals a c"
  by (auto simp: noports_atsign_equals_def split: option.splits)

section \<open>The decision cache\<close>

definition NOPORTS_POLICY_CACHE_TTL_MS :: ms64 where "NOPORTS_POLICY_CACHE_TTL_MS = 15000"
definition NOPORTS_POLICY_CACHE_DEFAULT_SIZE :: nat where "NOPORTS_POLICY_CACHE_DEFAULT_SIZE = 8"
definition NOPORTS_POLICY_CACHE_MAX_SIZE :: nat where "NOPORTS_POLICY_CACHE_MAX_SIZE = 64"

record policy_decision =
  authorized :: bool
  permit_open :: "string list"

record cache_entry =
  ce_used :: bool
  ce_atsign :: string
  ce_checked_at_ms :: ms64
  ce_decision :: policy_decision

type_synonym policy_cache = "cache_entry list"

text \<open>How the allocations of one \<open>copy_decision\<close> turn out.\<close>

datatype copy_alloc = Copy_ok | Copy_no_array | Copy_no_string

definition zero_decision :: policy_decision where
  "zero_decision = \<lparr>authorized = False, permit_open = []\<rparr>"

definition zero_entry :: cache_entry where
  "zero_entry = \<lparr>ce_used = False, ce_atsign = [], ce_checked_at_ms = 0, ce_decision = zero_decision\<rparr>"

text \<open>The return value (0 on success) and what \<open>dst\<close> holds afterwards.\<close>

definition copy_decision :: "copy_alloc \<Rightarrow> policy_decision \<Rightarrow> int \<times> policy_decision" where
  "copy_decision al src =
     (if permit_open src = [] then (0, \<lparr>authorized = authorized src, permit_open = []\<rparr>)
      else case al of
          Copy_no_array \<Rightarrow> (1, \<lparr>authorized = authorized src, permit_open = []\<rparr>)
        | Copy_no_string \<Rightarrow> (1, zero_decision)
        | Copy_ok \<Rightarrow> (0, \<lparr>authorized = authorized src, permit_open = permit_open src\<rparr>))"

definition noports_policy_cache_init :: "bool \<Rightarrow> nat \<Rightarrow> int \<times> policy_cache" where
  "noports_policy_cache_init alloc_ok sz =
     (if sz > NOPORTS_POLICY_CACHE_MAX_SIZE then (1, [])
      else if sz = 0 then (0, [])
      else if \<not> alloc_ok then (1, [])
      else (0, replicate sz zero_entry))"

text \<open>Every decision is freed, then the struct is zeroed: no entries, size 0.\<close>

definition noports_policy_cache_free :: "policy_cache \<Rightarrow> policy_cache" where
  "noports_policy_cache_free cache = []"

definition entry_of :: "string \<Rightarrow> cache_entry \<Rightarrow> bool" where
  "entry_of n e \<longleftrightarrow> ce_used e \<and> ce_atsign e = n"

definition noports_policy_cache_lookup ::
  "copy_alloc \<Rightarrow> policy_cache \<Rightarrow> string option \<Rightarrow> ms64 \<Rightarrow> policy_decision option" where
  "noports_policy_cache_lookup al cache atsign now_ms =
     (case canonical atsign of
        None \<Rightarrow> None
      | Some n \<Rightarrow>
          (case find_index (entry_of n) cache of
             None \<Rightarrow> None
           | Some i \<Rightarrow>
               if now_ms - ce_checked_at_ms (cache ! i) \<ge> NOPORTS_POLICY_CACHE_TTL_MS then None
               else (case copy_decision al (ce_decision (cache ! i)) of
                       (r, d) \<Rightarrow> if r = 0 then Some d else None)))"

text \<open>The slot a decision goes to: its atSign's entry, else a free one, else the oldest.\<close>

definition store_slot :: "policy_cache \<Rightarrow> string \<Rightarrow> nat" where
  "store_slot cache n =
     (case find_index (entry_of n) cache of
        Some i \<Rightarrow> i
      | None \<Rightarrow>
          (case find_index (\<lambda>e. \<not> ce_used e) cache of
             Some i \<Rightarrow> i
           | None \<Rightarrow> argmin ce_checked_at_ms cache))"

definition noports_policy_cache_store ::
  "copy_alloc \<Rightarrow> policy_cache \<Rightarrow> string option \<Rightarrow> policy_decision \<Rightarrow> ms64 \<Rightarrow> int \<times> policy_cache" where
  "noports_policy_cache_store al cache atsign decision now_ms =
     (if cache = [] then (0, cache)
      else case canonical atsign of
          None \<Rightarrow> (1, cache)
        | Some n \<Rightarrow>
            (let i = store_slot cache n in
             case copy_decision al decision of
               (r, d) \<Rightarrow>
                 if r \<noteq> 0 then (1, cache[i := (cache ! i)\<lparr>ce_used := False, ce_decision := d\<rparr>])
                 else (0, cache[i := \<lparr>ce_used = True, ce_atsign = n, ce_checked_at_ms = now_ms,
                                     ce_decision = d\<rparr>])))"

subsection \<open>Invariant and abstraction\<close>

text \<open>No two used entries are for the same atSign.\<close>

definition cache_inv :: "policy_cache \<Rightarrow> bool" where
  "cache_inv c \<longleftrightarrow> (\<forall>i j. i < length c \<longrightarrow> j < length c \<longrightarrow> ce_used (c ! i) \<longrightarrow> ce_used (c ! j) \<longrightarrow>
     ce_atsign (c ! i) = ce_atsign (c ! j) \<longrightarrow> i = j)"

text \<open>The cache as a map from canonical atSigns to time-stamped decisions.\<close>

definition cache_abs :: "policy_cache \<Rightarrow> string \<Rightarrow> (ms64 \<times> policy_decision) option" where
  "cache_abs c n = map_option (\<lambda>i. (ce_checked_at_ms (c ! i), ce_decision (c ! i)))
     (find_index (entry_of n) c)"

lemma cache_invD:
  "cache_inv c \<Longrightarrow> i < length c \<Longrightarrow> j < length c \<Longrightarrow> entry_of n (c ! i) \<Longrightarrow> entry_of n (c ! j) \<Longrightarrow> i = j"
  by (auto simp: cache_inv_def entry_of_def)

lemma find_entry:
  assumes "cache_inv c" "i < length c" "entry_of n (c ! i)"
  shows "find_index (entry_of n) c = Some i"
  by (rule find_index_unique) (use assms cache_invD in blast)+

lemma cache_abs_Some_iff:
  assumes "cache_inv c"
  shows "cache_abs c n = Some x \<longleftrightarrow>
    (\<exists>i < length c. entry_of n (c ! i) \<and> x = (ce_checked_at_ms (c ! i), ce_decision (c ! i)))"
proof
  assume "cache_abs c n = Some x"
  then obtain i where "find_index (entry_of n) c = Some i"
    "x = (ce_checked_at_ms (c ! i), ce_decision (c ! i))" by (auto simp: cache_abs_def)
  with find_index_Some(1,2) show "\<exists>i < length c. entry_of n (c ! i) \<and>
    x = (ce_checked_at_ms (c ! i), ce_decision (c ! i))" by blast
qed (auto simp: cache_abs_def find_entry [OF assms])

lemma cache_abs_None_iff: "cache_abs c n = None \<longleftrightarrow> (\<forall>e \<in> set c. \<not> entry_of n e)"
  by (simp add: cache_abs_def find_index_None)

lemma store_slot_bound: "c \<noteq> [] \<Longrightarrow> store_slot c n < length c"
  by (auto simp: store_slot_def dest: find_index_Some(1) split: option.splits intro: argmin_spec(1))

lemma store_slot_own:
  assumes "cache_inv c" "i < length c" "entry_of n (c ! i)"
  shows "store_slot c n = i"
  using find_entry [OF assms] by (simp add: store_slot_def)

text \<open>A slot that holds another atSign's decision is given up only when the table is full, and
  then it is the oldest.\<close>

lemma store_slot_victim:
  assumes "c \<noteq> []" "ce_used (c ! store_slot c n)" "ce_atsign (c ! store_slot c n) \<noteq> n"
  shows "(\<forall>e \<in> set c. ce_used e) \<and>
    (\<forall>e \<in> set c. ce_checked_at_ms (c ! store_slot c n) \<le> ce_checked_at_ms e)"
proof (cases "find_index (entry_of n) c")
  case None
  show ?thesis
  proof (cases "find_index (\<lambda>e. \<not> ce_used e) c")
    case None': None
    with None have "store_slot c n = argmin ce_checked_at_ms c" by (simp add: store_slot_def)
    with None' argmin_spec(2) [OF assms(1), of _ ce_checked_at_ms] show ?thesis
      by (auto simp: find_index_None)
  next
    case (Some i)
    with None assms(2) find_index_Some(2) [OF Some] show ?thesis by (simp add: store_slot_def)
  qed
next
  case (Some i)
  with assms(3) find_index_Some(2) [OF Some] show ?thesis by (simp add: store_slot_def entry_of_def)
qed

lemma cache_inv_update:
  assumes "cache_inv c" "i < length c"
    and "\<And>j. j < length c \<Longrightarrow> j \<noteq> i \<Longrightarrow> ce_used e \<Longrightarrow> ce_used (c ! j) \<Longrightarrow> ce_atsign (c ! j) \<noteq> ce_atsign e"
  shows "cache_inv (c[i := e])"
proof (unfold cache_inv_def, intro allI impI)
  fix j k
  assume *: "j < length (c[i := e])" "k < length (c[i := e])" "ce_used (c[i := e] ! j)"
    "ce_used (c[i := e] ! k)" "ce_atsign (c[i := e] ! j) = ce_atsign (c[i := e] ! k)"
  consider "j = i" "k = i" | "j = i" "k \<noteq> i" | "j \<noteq> i" "k = i" | "j \<noteq> i" "k \<noteq> i" by blast
  then show "j = k"
  proof cases
    case 2
    with * assms(2) assms(3) [of k] show ?thesis by simp
  next
    case 3
    with * assms(2) assms(3) [of j] show ?thesis by simp
  next
    case 4
    with * assms(1) show ?thesis by (auto simp: cache_inv_def)
  qed simp
qed

lemma cache_inv_init: "noports_policy_cache_init al sz = (r, c) \<Longrightarrow> cache_inv c"
  by (auto simp: noports_policy_cache_init_def cache_inv_def zero_entry_def split: if_splits)

lemma cache_store_inv:
  assumes "cache_inv c"
  shows "cache_inv (snd (noports_policy_cache_store al c a d t))"
proof (cases "c = [] \<or> canonical a = None")
  case False
  then obtain n where n: "canonical a = Some n" and ne: "c \<noteq> []" by auto
  let ?i = "store_slot c n"
  have b: "?i < length c" by (rule store_slot_bound [OF ne])
  have own: "\<And>j. j < length c \<Longrightarrow> j \<noteq> ?i \<Longrightarrow> ce_used (c ! j) \<Longrightarrow> ce_atsign (c ! j) \<noteq> n"
    using store_slot_own [OF assms] by (auto simp: entry_of_def)
  show ?thesis
    using ne n b own
    by (auto simp: noports_policy_cache_store_def Let_def split: prod.splits
        intro!: cache_inv_update [OF assms])
qed (use assms in \<open>auto simp: noports_policy_cache_store_def\<close>)

lemma lookup_abs:
  "noports_policy_cache_lookup al c a t =
     (case canonical a of None \<Rightarrow> None
      | Some n \<Rightarrow> (case cache_abs c n of None \<Rightarrow> None
          | Some (t0, d) \<Rightarrow> if t - t0 \<ge> NOPORTS_POLICY_CACHE_TTL_MS then None
              else (case copy_decision al d of (r, d') \<Rightarrow> if r = 0 then Some d' else None)))"
  by (simp add: noports_policy_cache_lookup_def cache_abs_def split: option.splits)

lemma copy_decision_ok: "copy_decision al d = (0, d') \<Longrightarrow> d' = d"
  by (cases d) (auto simp: copy_decision_def zero_decision_def split: copy_alloc.splits if_splits)

lemma copy_decision_Copy_ok [simp]: "copy_decision Copy_ok d = (0, d)"
  by (simp add: copy_decision_def)

lemma cache_lookup_entry:
  assumes "noports_policy_cache_lookup al c (Some a) now = Some d"
  shows "\<exists>e \<in> set c. ce_used e \<and> canonical (Some a) = Some (ce_atsign e) \<and> ce_decision e = d"
proof -
  obtain n where n: "canonical (Some a) = Some n"
    using assms by (auto simp: noports_policy_cache_lookup_def split: option.splits)
  obtain i where i: "find_index (entry_of n) c = Some i"
    using assms n by (auto simp: noports_policy_cache_lookup_def split: option.splits)
  have cp: "copy_decision al (ce_decision (c ! i)) = (0, d)"
    using assms n i by (auto simp: noports_policy_cache_lookup_def split: if_splits prod.splits)
  have "d = ce_decision (c ! i)" using cp
    by (cases al; cases "permit_open (ce_decision (c ! i)) = []") (auto simp: copy_decision_def)
  moreover have "c ! i \<in> set c" "entry_of n (c ! i)" using find_index_Some(1,2) [OF i] by simp_all
  ultimately show ?thesis using n by (auto simp: entry_of_def)
qed

lemma cache_abs_update_same:
  assumes "cache_inv (c[i := e])" "i < length c" "entry_of n e"
  shows "cache_abs (c[i := e]) n = Some (ce_checked_at_ms e, ce_decision e)"
  using assms by (simp add: cache_abs_Some_iff [OF assms(1)]) (rule exI [of _ i], simp)

lemma cache_abs_update_other:
  assumes "cache_inv c" "cache_inv (c[i := e])" "i < length c"
    and "\<not> entry_of m e" "\<not> entry_of m (c ! i)"
  shows "cache_abs (c[i := e]) m = cache_abs c m"
proof (cases "cache_abs c m")
  case None
  then have "\<forall>x \<in> set c. \<not> entry_of m x" by (simp add: cache_abs_None_iff)
  then have "\<forall>x \<in> set (c[i := e]). \<not> entry_of m x"
    using assms(4) set_update_subset_insert [of c i e] by blast
  then have "cache_abs (c[i := e]) m = None" by (simp add: cache_abs_None_iff)
  with None show ?thesis by simp
next
  case (Some x)
  then obtain j where j: "j < length c" "entry_of m (c ! j)"
    "x = (ce_checked_at_ms (c ! j), ce_decision (c ! j))"
    using cache_abs_Some_iff [OF assms(1)] by blast
  with assms(5) have "j \<noteq> i" by auto
  with j have "cache_abs (c[i := e]) m = Some x"
    using cache_abs_Some_iff [OF assms(2)] by (auto intro!: exI [of _ j])
  with Some show ?thesis by simp
qed

lemma cache_abs_drop:
  assumes "cache_inv c" "i < length c" "\<not> ce_used e"
  shows "cache_abs (c[i := e]) m = (if entry_of m (c ! i) then None else cache_abs c m)"
proof -
  have inv: "cache_inv (c[i := e])" by (rule cache_inv_update [OF assms(1,2)]) (use assms(3) in simp)
  have ne: "\<not> entry_of k e" for k using assms(3) by (simp add: entry_of_def)
  show ?thesis
  proof (cases "entry_of m (c ! i)")
    case True
    have "\<not> entry_of m x" if x: "x \<in> set (c[i := e])" for x
    proof -
      obtain j where j: "j < length c" "x = c[i := e] ! j" using x by (auto simp: in_set_conv_nth)
      show ?thesis
      proof (cases "j = i")
        case False
        with j True cache_invD [OF assms(1) _ assms(2), of j m] show ?thesis by auto
      qed (use j assms(2) ne in simp)
    qed
    with True show ?thesis by (simp add: cache_abs_None_iff)
  next
    case False
    with cache_abs_update_other [OF assms(1) inv assms(2) ne] show ?thesis by simp
  qed
qed

text \<open>What one store does to the abstract map.\<close>

lemma cache_store_abs_same:
  assumes "cache_inv c" "c \<noteq> []" "canonical a = Some n"
    and "noports_policy_cache_store al c a d t = (0, c')"
  shows "cache_abs c' n = Some (t, d)"
proof -
  let ?i = "store_slot c n"
  let ?e = "\<lparr>ce_used = True, ce_atsign = n, ce_checked_at_ms = t, ce_decision = d\<rparr>"
  have c': "c' = c[?i := ?e]"
    using assms by (auto simp: noports_policy_cache_store_def Let_def dest: copy_decision_ok
        split: prod.splits if_splits)
  have "cache_inv c'" using cache_store_inv [OF assms(1), of al a d t] assms(4) by simp
  then show ?thesis
    using cache_abs_update_same [of c ?i ?e n] store_slot_bound [OF assms(2)] c'
    by (simp add: entry_of_def)
qed

lemma cache_store_abs_other:
  assumes "cache_inv c" "canonical a = Some n" "m \<noteq> n"
    and "noports_policy_cache_store al c a d t = (r, c')"
  shows "cache_abs c' m = cache_abs c m \<or>
    (cache_abs c' m = None \<and> (\<forall>e \<in> set c. ce_used e) \<and>
     (\<exists>t0 d0. cache_abs c m = Some (t0, d0) \<and> (\<forall>e \<in> set c. t0 \<le> ce_checked_at_ms e)))"
proof (cases "c = []")
  case True
  with assms show ?thesis by (simp add: noports_policy_cache_store_def)
next
  case False
  let ?i = "store_slot c n"
  have b: "?i < length c" by (rule store_slot_bound [OF False])
  obtain e where c': "c' = c[?i := e]" and e: "\<not> entry_of m e"
    using assms(2-4) False
    by (auto simp: noports_policy_cache_store_def Let_def entry_of_def split: prod.splits if_splits)
  have inv: "cache_inv c'" using cache_store_inv [OF assms(1), of al a d t] assms(4) by simp
  show ?thesis
  proof (cases "entry_of m (c ! ?i)")
    case False
    with cache_abs_update_other [OF assms(1) _ b e] inv c' show ?thesis by simp
  next
    case True
    then have v: "(\<forall>e \<in> set c. ce_used e) \<and> (\<forall>e \<in> set c. ce_checked_at_ms (c ! ?i) \<le> ce_checked_at_ms e)"
      using store_slot_victim [OF \<open>c \<noteq> []\<close>, of n] assms(3) by (simp add: entry_of_def)
    have "cache_abs c m = Some (ce_checked_at_ms (c ! ?i), ce_decision (c ! ?i))"
      using cache_abs_Some_iff [OF assms(1)] b True by blast
    moreover have "cache_abs c' m = None"
    proof (rule ccontr)
      assume "cache_abs c' m \<noteq> None"
      then obtain j where "j < length c" "entry_of m (c' ! j)"
        using cache_abs_Some_iff [OF inv, of m] c' by auto
      with c' e b True cache_invD [OF assms(1) _ b, of j m] show False by (cases "j = ?i") auto
    qed
    ultimately show ?thesis using v by blast
  qed
qed

lemma cache_store_fail_same:
  assumes "cache_inv c" "canonical a = Some n"
    and "noports_policy_cache_store al c a d t = (r, c')" "r \<noteq> 0"
  shows "cache_abs c' n = None"
proof (cases "c = []")
  case True
  with assms show ?thesis by (simp add: noports_policy_cache_store_def)
next
  case False
  let ?i = "store_slot c n"
  have b: "?i < length c" by (rule store_slot_bound [OF False])
  obtain e where c': "c' = c[?i := e]" and e: "\<not> ce_used e"
    using assms(2-4) False
    by (auto simp: noports_policy_cache_store_def Let_def split: prod.splits if_splits)
  show ?thesis
  proof (cases "entry_of n (c ! ?i)")
    case False
    have "\<not> entry_of n x" if x: "x \<in> set c" for x
    proof
      assume ex: "entry_of n x"
      obtain j where "j < length c" "x = c ! j" using x by (auto simp: in_set_conv_nth)
      with ex store_slot_own [OF assms(1)] False show False by metis
    qed
    then have "cache_abs c n = None" by (simp add: cache_abs_None_iff)
    with False show ?thesis unfolding c' by (simp add: cache_abs_drop [where e = e, OF assms(1) b e])
  next
    case True
    then show ?thesis unfolding c' by (simp add: cache_abs_drop [where e = e, OF assms(1) b e])
  qed
qed

subsection \<open>The interface the daemon relies on\<close>

text \<open>The latest decision a sequence of stores, oldest first, was given for a name. Each store has
  an outcome of its allocations, which is not part of what it was given.\<close>

definition latest_for ::
  "(string option \<Rightarrow> string option) \<Rightarrow> ('e \<times> string option \<times> 'd \<times> int) list \<Rightarrow> string \<Rightarrow> (int \<times> 'd) option" where
  "latest_for canon ops m = fold (\<lambda>(_, a, d, t) acc. if canon a = Some m then Some (t, d) else acc) ops None"

text \<open>
  A store of time-stamped decisions by name: what a lookup returns after a store, and that a
  lookup never invents a decision. \<open>canon\<close> is the name an entry is kept under, \<open>ttl\<close> how long
  it is served.
\<close>

locale decision_store =
  fixes canon :: "string option \<Rightarrow> string option"
    and abs :: "'c \<Rightarrow> string \<Rightarrow> (int \<times> 'd) option"
    and store :: "'e \<Rightarrow> 'c \<Rightarrow> string option \<Rightarrow> 'd \<Rightarrow> int \<Rightarrow> int \<times> 'c"
    and lookup :: "'e \<Rightarrow> 'c \<Rightarrow> string option \<Rightarrow> int \<Rightarrow> 'd option"
    and inv :: "'c \<Rightarrow> bool"
    and ttl :: int
  assumes store_inv: "inv c \<Longrightarrow> inv (snd (store e c a d t))"
    and store_other: "inv c \<Longrightarrow> canon a \<noteq> Some m \<Longrightarrow>
      abs (snd (store e c a d t)) m = abs c m \<or> abs (snd (store e c a d t)) m = None"
    and store_same: "inv c \<Longrightarrow> canon a = Some m \<Longrightarrow>
      abs (snd (store e c a d t)) m = Some (t, d) \<or> abs (snd (store e c a d t)) m = None"
    and lookup_only: "lookup e c a t = Some d \<Longrightarrow>
      \<exists>m t0. canon a = Some m \<and> abs c m = Some (t0, d) \<and> t - t0 < ttl"
begin

lemma run_inv: "inv c \<Longrightarrow> inv (fold (\<lambda>(e, a, d, t) c. snd (store e c a d t)) ops c)"
  by (induction ops arbitrary: c) (auto simp: store_inv)

lemma run_latest:
  "inv c \<Longrightarrow> abs c m = acc \<or> abs c m = None \<Longrightarrow>
     abs (fold (\<lambda>(e, a, d, t) c. snd (store e c a d t)) ops c) m =
       fold (\<lambda>(_, a, d, t) acc. if canon a = Some m then Some (t, d) else acc) ops acc \<or>
     abs (fold (\<lambda>(e, a, d, t) c. snd (store e c a d t)) ops c) m = None"
proof (induction ops arbitrary: c acc)
  case (Cons x ops)
  obtain e a d t where x: "x = (e, a, d, t)" by (cases x) auto
  have "abs (snd (store e c a d t)) m = (if canon a = Some m then Some (t, d) else acc) \<or>
     abs (snd (store e c a d t)) m = None"
    using store_same [OF Cons(2), of a m e d t] store_other [OF Cons(2), of a m e d t] Cons(3) by auto
  with Cons(1) [OF store_inv [OF Cons(2)]] show ?case by (simp add: x)
qed simp

lemma lookup_is_latest:
  assumes "inv c" "\<And>m. abs c m = None"
    and "lookup e (fold (\<lambda>(e, a, d, t) c. snd (store e c a d t)) ops c) a t = Some d"
  shows "\<exists>m t0. canon a = Some m \<and> latest_for canon ops m = Some (t0, d) \<and> t - t0 < ttl"
proof -
  let ?c = "fold (\<lambda>(e, a, d, t) c. snd (store e c a d t)) ops c"
  obtain m t0 where m: "canon a = Some m" "abs ?c m = Some (t0, d)" "t - t0 < ttl"
    using lookup_only [OF assms(3)] by blast
  moreover have "abs ?c m = latest_for canon ops m"
    using run_latest [OF assms(1), of m None ops] assms(2) m(2) by (auto simp: latest_for_def)
  ultimately show ?thesis by auto
qed

end

interpretation pc: decision_store "canonical" cache_abs
  noports_policy_cache_store noports_policy_cache_lookup cache_inv NOPORTS_POLICY_CACHE_TTL_MS
proof (unfold_locales, goal_cases)
  case (1 c al a d t)
  then show ?case by (rule cache_store_inv)
next
  case (2 c a m al d t)
  obtain r c' where r: "noports_policy_cache_store al c a d t = (r, c')" by fastforce
  show ?case
  proof (cases "canonical a")
    case None
    with r show ?thesis by (auto simp: noports_policy_cache_store_def split: if_splits)
  next
    case (Some n)
    with cache_store_abs_other [OF 2(1) Some _ r, of m] 2(2) r show ?thesis by auto
  qed
next
  case (3 c a m al d t)
  obtain r c' where r: "noports_policy_cache_store al c a d t = (r, c')" by fastforce
  show ?case
  proof (cases "c = []")
    case True
    with r show ?thesis by (simp add: noports_policy_cache_store_def cache_abs_None_iff)
  next
    case False
    with cache_store_abs_same [OF 3(1) False 3(2)] cache_store_fail_same [OF 3(1,2) r] r
    show ?thesis by (cases "r = 0") auto
  qed
next
  case (4 al c a t d)
  then show ?case
    by (auto simp: lookup_abs split: option.splits prod.splits if_splits dest: copy_decision_ok)
qed

section \<open>The cooldown table\<close>

definition NOPORTS_POLICY_COOLDOWN_SLOTS :: nat where "NOPORTS_POLICY_COOLDOWN_SLOTS = 8"
definition NOPORTS_POLICY_COOLDOWN_MS :: ms64 where "NOPORTS_POLICY_COOLDOWN_MS = 2000"

datatype check_kind = CHECK_PING | CHECK_NPT

text \<open>\<open>checked[2]\<close> and \<open>checked_at_ms[2]\<close> are arrays indexed by the kind of check.\<close>

record cooldown_slot =
  cs_used :: bool
  cs_atsign :: string
  cs_checked :: "check_kind \<Rightarrow> bool"
  cs_checked_at_ms :: "check_kind \<Rightarrow> ms64"

type_synonym cooldown = "cooldown_slot list"

definition zero_slot :: cooldown_slot where
  "zero_slot = \<lparr>cs_used = False, cs_atsign = [], cs_checked = (\<lambda>_. False), cs_checked_at_ms = (\<lambda>_. 0)\<rparr>"

definition noports_policy_cooldown_init :: cooldown where
  "noports_policy_cooldown_init = replicate NOPORTS_POLICY_COOLDOWN_SLOTS zero_slot"

definition last_active_ms :: "cooldown_slot \<Rightarrow> ms64" where
  "last_active_ms s =
     (let ping = (if cs_checked s CHECK_PING then cs_checked_at_ms s CHECK_PING else INT64_MIN);
          npt = (if cs_checked s CHECK_NPT then cs_checked_at_ms s CHECK_NPT else INT64_MIN)
      in if ping > npt then ping else npt)"

definition slot_of :: "string \<Rightarrow> cooldown_slot \<Rightarrow> bool" where
  "slot_of n s \<longleftrightarrow> cs_used s \<and> cs_atsign s = n"

definition mark_checked :: "check_kind \<Rightarrow> ms64 \<Rightarrow> cooldown_slot \<Rightarrow> cooldown_slot" where
  "mark_checked kind now_ms s =
     s\<lparr>cs_checked := (cs_checked s)(kind := True), cs_checked_at_ms := (cs_checked_at_ms s)(kind := now_ms)\<rparr>"

text \<open>The slot a new sender takes: a free one, else that of the sender active longest ago.\<close>

definition fresh_slot :: "cooldown \<Rightarrow> nat" where
  "fresh_slot cd =
     (case find_index (\<lambda>s. \<not> cs_used s) cd of Some i \<Rightarrow> i | None \<Rightarrow> argmin last_active_ms cd)"

definition noports_policy_cooldown_allows ::
  "cooldown \<Rightarrow> string option \<Rightarrow> check_kind \<Rightarrow> ms64 \<Rightarrow> bool \<times> cooldown" where
  "noports_policy_cooldown_allows cd atsign kind now_ms =
     (case canonical atsign of
        None \<Rightarrow> (False, cd)
      | Some n \<Rightarrow>
          (case find_index (slot_of n) cd of
             Some i \<Rightarrow>
               if cs_checked (cd ! i) kind \<and>
                  now_ms - cs_checked_at_ms (cd ! i) kind < NOPORTS_POLICY_COOLDOWN_MS
               then (False, cd)
               else (True, cd[i := mark_checked kind now_ms (cd ! i)])
           | None \<Rightarrow>
               (let i = fresh_slot cd
                in (True, cd[i := mark_checked kind now_ms (zero_slot\<lparr>cs_atsign := n, cs_used := True\<rparr>)]))))"

text \<open>Eight slots, no two of them for the same sender.\<close>

definition cooldown_inv :: "cooldown \<Rightarrow> bool" where
  "cooldown_inv cd \<longleftrightarrow> length cd = NOPORTS_POLICY_COOLDOWN_SLOTS \<and>
     (\<forall>i j n. i < length cd \<longrightarrow> j < length cd \<longrightarrow> slot_of n (cd ! i) \<longrightarrow> slot_of n (cd ! j) \<longrightarrow> i = j)"

text \<open>When a sender's last accepted check of a kind was, as far as the table remembers.\<close>

definition last_check :: "cooldown \<Rightarrow> string \<Rightarrow> check_kind \<Rightarrow> ms64 option" where
  "last_check cd n kind =
     (case find_index (slot_of n) cd of
        None \<Rightarrow> None
      | Some i \<Rightarrow> if cs_checked (cd ! i) kind then Some (cs_checked_at_ms (cd ! i) kind) else None)"

definition tracked :: "cooldown \<Rightarrow> string \<Rightarrow> bool" where
  "tracked cd n \<longleftrightarrow> find_index (slot_of n) cd \<noteq> None"

lemma cooldown_inv_ne: "cooldown_inv cd \<Longrightarrow> cd \<noteq> []"
  by (auto simp: cooldown_inv_def NOPORTS_POLICY_COOLDOWN_SLOTS_def)

lemma cooldown_invD:
  "cooldown_inv cd \<Longrightarrow> i < length cd \<Longrightarrow> j < length cd \<Longrightarrow> slot_of n (cd ! i) \<Longrightarrow> slot_of n (cd ! j) \<Longrightarrow> i = j"
  by (auto simp: cooldown_inv_def)

lemma find_slot:
  assumes "cooldown_inv cd" "i < length cd" "slot_of n (cd ! i)"
  shows "find_index (slot_of n) cd = Some i"
  by (rule find_index_unique) (use assms cooldown_invD in blast)+

lemma fresh_slot_bound: "cd \<noteq> [] \<Longrightarrow> fresh_slot cd < length cd"
  by (auto simp: fresh_slot_def dest: find_index_Some(1) split: option.splits intro: argmin_spec(1))

lemma fresh_slot_victim:
  assumes "cd \<noteq> []" "cs_used (cd ! fresh_slot cd)"
  shows "(\<forall>s \<in> set cd. cs_used s) \<and>
    (\<forall>s \<in> set cd. last_active_ms (cd ! fresh_slot cd) \<le> last_active_ms s)"
proof (cases "find_index (\<lambda>s. \<not> cs_used s) cd")
  case None
  then have "fresh_slot cd = argmin last_active_ms cd" by (simp add: fresh_slot_def)
  with None argmin_spec(2) [OF assms(1), of _ last_active_ms] show ?thesis
    by (auto simp: find_index_None)
next
  case (Some i)
  with assms(2) find_index_Some(2) [OF Some] show ?thesis by (simp add: fresh_slot_def)
qed

lemma mark_checked_simps [simp]:
  "cs_used (mark_checked k t s) = cs_used s"
  "cs_atsign (mark_checked k t s) = cs_atsign s"
  "cs_checked (mark_checked k t s) k' = (k' = k \<or> cs_checked s k')"
  "cs_checked_at_ms (mark_checked k t s) k' = (if k' = k then t else cs_checked_at_ms s k')"
  "slot_of n (mark_checked k t s) = slot_of n s"
  by (simp_all add: mark_checked_def slot_of_def)

lemma cooldown_inv_update:
  assumes "cooldown_inv cd" "i < length cd"
    and "\<And>j n. j < length cd \<Longrightarrow> j \<noteq> i \<Longrightarrow> slot_of n e \<Longrightarrow> \<not> slot_of n (cd ! j)"
  shows "cooldown_inv (cd[i := e])"
proof (unfold cooldown_inv_def, intro conjI allI impI)
  show "length (cd[i := e]) = NOPORTS_POLICY_COOLDOWN_SLOTS"
    using assms(1) by (simp add: cooldown_inv_def)
  fix j k n
  assume *: "j < length (cd[i := e])" "k < length (cd[i := e])"
    "slot_of n (cd[i := e] ! j)" "slot_of n (cd[i := e] ! k)"
  consider "j = i" "k = i" | "j = i" "k \<noteq> i" | "j \<noteq> i" "k = i" | "j \<noteq> i" "k \<noteq> i" by blast
  then show "j = k"
  proof cases
    case 2
    with * assms(2) assms(3) [of k n] show ?thesis by simp
  next
    case 3
    with * assms(2) assms(3) [of j n] show ?thesis by simp
  next
    case 4
    with * assms(1) show ?thesis by (auto simp: cooldown_inv_def)
  qed simp
qed

lemma cooldown_init_inv: "cooldown_inv noports_policy_cooldown_init"
  by (auto simp: cooldown_inv_def noports_policy_cooldown_init_def zero_slot_def slot_of_def)

lemma not_tracked_D: "find_index (slot_of n) cd = None \<Longrightarrow> j < length cd \<Longrightarrow> \<not> slot_of n (cd ! j)"
  by (simp add: find_index_None)

lemma cooldown_allows_inv:
  assumes "cooldown_inv cd"
  shows "cooldown_inv (snd (noports_policy_cooldown_allows cd a k t))"
proof (cases "canonical a")
  case (Some n)
  show ?thesis
  proof (cases "find_index (slot_of n) cd")
    case None
    have "cooldown_inv (cd[fresh_slot cd := mark_checked k t (zero_slot\<lparr>cs_atsign := n, cs_used := True\<rparr>)])"
      by (rule cooldown_inv_update [OF assms fresh_slot_bound [OF cooldown_inv_ne [OF assms]]])
        (use not_tracked_D [OF None] in \<open>auto simp: slot_of_def\<close>)
    with Some None show ?thesis by (simp add: noports_policy_cooldown_allows_def Let_def)
  next
    case (Some i)
    have "cooldown_inv (cd[i := mark_checked k t (cd ! i)])"
      by (rule cooldown_inv_update [OF assms find_index_Some(1) [OF Some]])
        (use cooldown_invD [OF assms _ find_index_Some(1) [OF Some]] in auto)
    with \<open>canonical a = Some n\<close> Some assms show ?thesis
      by (simp add: noports_policy_cooldown_allows_def)
  qed
qed (use assms in \<open>simp add: noports_policy_cooldown_allows_def\<close>)

text \<open>The answer depends only on the sender's last accepted check of that kind.\<close>

lemma cooldown_answer:
  "fst (noports_policy_cooldown_allows cd a k t) \<longleftrightarrow>
     (\<exists>n. canonical a = Some n \<and>
        (\<forall>t0. last_check cd n k = Some t0 \<longrightarrow> t - t0 \<ge> NOPORTS_POLICY_COOLDOWN_MS))"
  by (auto simp: noports_policy_cooldown_allows_def last_check_def Let_def split: option.splits)

lemma last_check_update_same:
  assumes "cooldown_inv (cd[i := e])" "i < length cd" "slot_of n e"
  shows "last_check (cd[i := e]) n k = (if cs_checked e k then Some (cs_checked_at_ms e k) else None)"
  using find_slot [OF assms(1), of i n] assms(2,3) by (simp add: last_check_def)

lemma last_check_update_other:
  assumes "cooldown_inv cd" "cooldown_inv (cd[i := e])" "i < length cd"
    "\<not> slot_of m e" "\<not> slot_of m (cd ! i)"
  shows "last_check (cd[i := e]) m k = last_check cd m k"
proof (cases "find_index (slot_of m) cd")
  case None
  then have "\<forall>x \<in> set (cd[i := e]). \<not> slot_of m x"
    using assms(4) set_update_subset_insert [of cd i e] by (auto simp: find_index_None)
  then have "find_index (slot_of m) (cd[i := e]) = None" by (simp add: find_index_None)
  with None show ?thesis by (simp add: last_check_def)
next
  case (Some j)
  note f = find_index_Some(1,2) [OF Some]
  with assms(5) have "j \<noteq> i" by auto
  with f find_slot [OF assms(2), of j m] have "find_index (slot_of m) (cd[i := e]) = Some j" by simp
  with Some \<open>j \<noteq> i\<close> show ?thesis by (simp add: last_check_def)
qed

text \<open>An accepted check is remembered, and only its own kind is touched.\<close>

lemma cooldown_accept:
  assumes "cooldown_inv cd" "canonical a = Some n"
    and "noports_policy_cooldown_allows cd a k t = (True, cd')"
  shows "last_check cd' n k = Some t" and "k' \<noteq> k \<Longrightarrow> last_check cd' n k' = last_check cd n k'"
proof -
  have inv: "cooldown_inv cd'" using cooldown_allows_inv [OF assms(1), of a k t] assms(3) by simp
  obtain i e where c: "cd' = cd[i := mark_checked k t e]" "i < length cd" "slot_of n e"
    and old: "k' \<noteq> k \<Longrightarrow> (if cs_checked e k' then Some (cs_checked_at_ms e k') else None) = last_check cd n k'" for k'
  proof (cases "find_index (slot_of n) cd")
    case None
    show ?thesis
      by (rule that [of "fresh_slot cd" "zero_slot\<lparr>cs_atsign := n, cs_used := True\<rparr>"])
        (use None assms fresh_slot_bound [OF cooldown_inv_ne] in
          \<open>auto simp: noports_policy_cooldown_allows_def Let_def slot_of_def last_check_def zero_slot_def\<close>)
  next
    case (Some i)
    show ?thesis
      by (rule that [of i "cd ! i"])
        (use Some find_index_Some(1,2) [OF Some] assms in
          \<open>auto simp: noports_policy_cooldown_allows_def last_check_def split: if_splits\<close>)
  qed
  show "last_check cd' n k = Some t"
    using last_check_update_same [OF inv [unfolded c(1)] c(2), of n k] c(3) unfolding c(1) by simp
  show "k' \<noteq> k \<Longrightarrow> last_check cd' n k' = last_check cd n k'"
    using last_check_update_same [OF inv [unfolded c(1)] c(2), of n k'] c(3) old [of k'] unfolding c(1)
    by auto
qed

lemma cooldown_refuse:
  "noports_policy_cooldown_allows cd a k t = (False, cd') \<Longrightarrow> cd' = cd"
  by (auto simp: noports_policy_cooldown_allows_def Let_def split: option.splits if_splits)

text \<open>Another sender's check forgets a sender only when the table is full and nobody in it was
  active longer ago.\<close>

lemma cooldown_other:
  assumes "cooldown_inv cd" "canonical a = Some n" "m \<noteq> n"
    and "noports_policy_cooldown_allows cd a k t = (b, cd')"
  shows "last_check cd' m k' = last_check cd m k' \<or>
    (\<not> tracked cd n \<and> (\<forall>s \<in> set cd. cs_used s) \<and>
     (\<exists>i < length cd. slot_of m (cd ! i) \<and> (\<forall>s \<in> set cd. last_active_ms (cd ! i) \<le> last_active_ms s)))"
proof (cases b)
  case False
  with assms(4) have "cd' = cd" by (auto intro: cooldown_refuse)
  then show ?thesis by simp
next
  case True
  have inv: "cooldown_inv cd'" using cooldown_allows_inv [OF assms(1), of a k t] assms(4) by simp
  show ?thesis
  proof (cases "find_index (slot_of n) cd")
    case (Some i)
    note f = find_index_Some(1,2) [OF Some]
    have "cd' = cd[i := mark_checked k t (cd ! i)]"
      using assms(2,4) Some True by (auto simp: noports_policy_cooldown_allows_def split: if_splits)
    with last_check_update_other [OF assms(1) _ f(1), of "mark_checked k t (cd ! i)" m k'] inv f(2) assms(3)
    show ?thesis by (simp add: slot_of_def)
  next
    case None
    let ?i = "fresh_slot cd" and ?e = "mark_checked k t (zero_slot\<lparr>cs_atsign := n, cs_used := True\<rparr>)"
    note b = fresh_slot_bound [OF cooldown_inv_ne [OF assms(1)]]
    have c: "cd' = cd[?i := ?e]"
      using assms(2,4) None by (auto simp: noports_policy_cooldown_allows_def Let_def)
    show ?thesis
    proof (cases "slot_of m (cd ! ?i)")
      case True
      with fresh_slot_victim [OF cooldown_inv_ne [OF assms(1)]] b None show ?thesis
        by (auto simp: slot_of_def tracked_def)
    next
      case False
      have "\<not> slot_of m ?e" using assms(3) by (simp add: slot_of_def)
      with last_check_update_other [OF assms(1) _ b _ False, of ?e] inv c show ?thesis by simp
    qed
  qed
qed

subsection \<open>The interface the request handlers rely on\<close>

locale throttle =
  fixes canon :: "string option \<Rightarrow> string option"
    and allows :: "'c \<Rightarrow> string option \<Rightarrow> 'k \<Rightarrow> int \<Rightarrow> bool \<times> 'c"
    and last :: "'c \<Rightarrow> string \<Rightarrow> 'k \<Rightarrow> int option"
    and inv :: "'c \<Rightarrow> bool"
    and gap :: int
  assumes answer: "fst (allows c a k t) \<longleftrightarrow>
      (\<exists>n. canon a = Some n \<and> (\<forall>t0. last c n k = Some t0 \<longrightarrow> t - t0 \<ge> gap))"
    and keeps_inv: "inv c \<Longrightarrow> inv (snd (allows c a k t))"
    and records: "inv c \<Longrightarrow> canon a = Some n \<Longrightarrow> fst (allows c a k t) \<Longrightarrow> last (snd (allows c a k t)) n k = Some t"
    and kinds_apart: "inv c \<Longrightarrow> canon a = Some n \<Longrightarrow> k' \<noteq> k \<Longrightarrow> last (snd (allows c a k t)) n k' = last c n k'"
    and refusal_keeps: "\<not> fst (allows c a k t) \<Longrightarrow> snd (allows c a k t) = c"
begin

lemma repeat_refused:
  assumes "inv c" "fst (allows c a k t)" "t' - t < gap"
  shows "\<not> fst (allows (snd (allows c a k t)) a k t')"
proof -
  obtain n where "canon a = Some n" using assms(2) answer by blast
  with records [OF assms(1) this assms(2)] assms(3) show ?thesis by (auto simp: answer)
qed

lemma later_accepted:
  assumes "inv c" "fst (allows c a k t)" "t' - t \<ge> gap"
  shows "fst (allows (snd (allows c a k t)) a k t')"
proof -
  obtain n where "canon a = Some n" using assms(2) answer by blast
  with records [OF assms(1) this assms(2)] assms(3) show ?thesis by (auto simp: answer)
qed

lemma other_kind_unaffected:
  assumes "inv c" "k' \<noteq> k"
  shows "fst (allows (snd (allows c a k t)) a k' t') = fst (allows c a k' t')"
proof (cases "canon a")
  case None
  then show ?thesis by (simp add: answer)
next
  case (Some n)
  with kinds_apart [OF assms(1) Some assms(2)] show ?thesis by (simp add: answer)
qed

end

interpretation cd: throttle "canonical" noports_policy_cooldown_allows last_check cooldown_inv
  NOPORTS_POLICY_COOLDOWN_MS
proof (unfold_locales, goal_cases)
  case (1 c a k t)
  show ?case by (rule cooldown_answer)
next
  case (2 c a k t)
  then show ?case by (rule cooldown_allows_inv)
next
  case (3 c a n k t)
  then have "noports_policy_cooldown_allows c a k t =
      (True, snd (noports_policy_cooldown_allows c a k t))" by (simp add: prod_eq_iff)
  from cooldown_accept(1) [OF 3(1,2) this] show ?case .
next
  case (4 c a n k' k t)
  obtain b c' where r: "noports_policy_cooldown_allows c a k t = (b, c')" by fastforce
  show ?case
  proof (cases b)
    case True
    with cooldown_accept(2) [OF 4(1,2), of k t c' k'] 4(3) r show ?thesis by simp
  next
    case False
    with cooldown_refuse [of c a k t c'] r show ?thesis by simp
  qed
next
  case (5 c a k t)
  then have "noports_policy_cooldown_allows c a k t =
      (False, snd (noports_policy_cooldown_allows c a k t))" by (simp add: prod_eq_iff)
  from cooldown_refuse [OF this] show ?case .
qed

section \<open>Time limits\<close>

definition NOPORTS_POLICY_WAIT_MS :: ms64 where "NOPORTS_POLICY_WAIT_MS = 10000"
definition NOPORTS_POLICY_WAIT_CAP_MS :: ms64 where "NOPORTS_POLICY_WAIT_CAP_MS = 30000"
definition NOPORTS_DECRYPT_RECONNECT_MS :: ms64 where "NOPORTS_DECRYPT_RECONNECT_MS = 30000"

definition noports_policy_wait_over :: "ms64 \<Rightarrow> ms64 \<Rightarrow> ms64 \<Rightarrow> bool" where
  "noports_policy_wait_over started_ms progress_ms now_ms \<longleftrightarrow>
     now_ms - progress_ms > NOPORTS_POLICY_WAIT_MS \<or> now_ms - started_ms > NOPORTS_POLICY_WAIT_CAP_MS"

definition noports_policy_resend_after_decrypt_failure :: "bool \<Rightarrow> string option \<Rightarrow> string option \<Rightarrow> bool" where
  "noports_policy_resend_after_decrypt_failure pending frm policy_atsign \<longleftrightarrow>
     pending \<and> noports_atsign_equals frm policy_atsign"

definition noports_reconnect_after_decrypt_failure :: "ms64 \<Rightarrow> ms64 \<Rightarrow> bool" where
  "noports_reconnect_after_decrypt_failure last_ms now_ms \<longleftrightarrow>
     last_ms < 0 \<or> now_ms - last_ms \<ge> NOPORTS_DECRYPT_RECONNECT_MS"

section \<open>Properties\<close>

lemma init_empty: "noports_policy_cache_init al sz = (r, c) \<Longrightarrow> cache_abs c m = None"
  by (auto simp: noports_policy_cache_init_def cache_abs_None_iff zero_entry_def entry_of_def split: if_splits)

text \<open>C18: the canonical form of an atSign in closed form. An atSign has one exactly when, without
  its leading \<open>@\<close> and its dots, it has between 1 and 55 characters and no character is a second
  \<open>@\<close>, a space, a control or a reserved character; the form is \<open>@\<close> and those characters in
  lower case.\<close>
theorem canonical_atsign_closed_form:
  "canonical (Some s) =
     (if list_all (\<lambda>c. \<not> atsign_char_refused c) (if hd s = CHR ''@'' then tl s else s) \<and>
         s \<noteq> [] \<and> atsign_body s \<noteq> [] \<and> length (atsign_body s) \<le> NOPORTS_ATSIGN_MAX_LEN
      then Some (CHR ''@'' # atsign_body s) else None)"
  by (auto simp: noports_normalize_atsign_def normalize_loop_closed atsign_body_def list_all_iff
      NOPORTS_ATSIGN_BUFFER_LEN_def NOPORTS_ATSIGN_MAX_LEN_def)

text \<open>A canonical atSign is its own canonical form, so names stored in the cache and the cooldown
  table compare as the atSigns they came from do.\<close>
theorem canonical_atsign_fixed:
  assumes "canonical a = Some n"
  shows "canonical (Some n) = Some n \<and> noports_atsign_equals a (Some n)"
  using normalize_idem [OF assms] assms by (simp add: noports_atsign_equals_def)

lemma canonical_atsign_fixed_witness:
  "canonical (Some ''@abc'') = Some ''@abc'' \<and> noports_atsign_equals (Some ''A.bC'') (Some ''@abc'')"
  by (rule canonical_atsign_fixed) code_simp

text \<open>C4: the cache refines the abstract "latest decision per atSign". After any sequence of stores,
  each with any outcome of its allocations, a lookup that hits returns exactly the decision most
  recently stored for that canonical atSign, and that decision is younger than the TTL: the cache
  never serves a decision of another atSign, an overwritten one or a stale one.\<close>
theorem cache_serves_latest_decision:
  assumes "noports_policy_cache_init ok sz = (r, cache)"
    and "noports_policy_cache_lookup al
      (fold (\<lambda>(al, a, d, t) c. snd (noports_policy_cache_store al c a d t)) ops cache) a t = Some d"
  shows "\<exists>n t0. canonical a = Some n \<and> latest_for canonical ops n = Some (t0, d) \<and>
    t - t0 < NOPORTS_POLICY_CACHE_TTL_MS"
  by (rule pc.lookup_is_latest [OF cache_inv_init [OF assms(1)] init_empty [OF assms(1)] assms(2)])

lemma cache_serves_latest_decision_witness:
  "\<exists>n t0. canonical (Some ''@A'') = Some n \<and>
     latest_for canonical [(Copy_ok, Some ''@a'', \<lparr>authorized = True, permit_open = [''x:1'']\<rparr>, 5)] n =
       Some (t0, \<lparr>authorized = True, permit_open = [''x:1'']\<rparr>) \<and>
     9 - t0 < NOPORTS_POLICY_CACHE_TTL_MS"
  by (rule cache_serves_latest_decision [where ok = True and sz = 2 and r = 0 and
        cache = "[zero_entry, zero_entry]" and al = Copy_ok]) (code_simp, code_simp)

text \<open>C19: store then look up. A decision that was stored is served for every spelling of the same
  atSign until the TTL is over, and not at the TTL or later.\<close>
theorem cache_store_then_lookup:
  assumes "cache_inv c" "c \<noteq> []" "noports_atsign_equals a b"
  shows "noports_policy_cache_lookup Copy_ok (snd (noports_policy_cache_store Copy_ok c a d t)) b t' =
    (if t' - t < NOPORTS_POLICY_CACHE_TTL_MS then Some d else None)"
proof -
  obtain n where n: "canonical a = Some n" "canonical b = Some n"
    using assms(3) by (auto simp: noports_atsign_equals_def split: option.splits)
  let ?c = "snd (noports_policy_cache_store Copy_ok c a d t)"
  have "noports_policy_cache_store Copy_ok c a d t = (0, ?c)"
    using assms(2) n by (simp add: noports_policy_cache_store_def)
  from cache_store_abs_same [OF assms(1,2) n(1) this] n(2) show ?thesis by (simp add: lookup_abs)
qed

lemma cache_store_then_lookup_witness:
  "noports_policy_cache_lookup Copy_ok
     (snd (noports_policy_cache_store Copy_ok [zero_entry] (Some ''a'') zero_decision 0)) (Some ''@A'') 14999 =
   (if (14999 :: int) - 0 < NOPORTS_POLICY_CACHE_TTL_MS then Some zero_decision else None)"
  by (rule cache_store_then_lookup) (simp add: cache_inv_def, simp, code_simp)

text \<open>C20: a store for one atSign leaves the cached decision of every other atSign alone, unless the
  cache is full and that decision is the oldest of all: only then it is evicted.\<close>
theorem cache_evicts_only_oldest:
  assumes "cache_inv c" "canonical a = Some n" "m \<noteq> n"
  shows "cache_abs (snd (noports_policy_cache_store al c a d t)) m = cache_abs c m \<or>
    (cache_abs (snd (noports_policy_cache_store al c a d t)) m = None \<and> list_all ce_used c \<and>
     (\<exists>t0 d0. cache_abs c m = Some (t0, d0) \<and> list_all (\<lambda>e. t0 \<le> ce_checked_at_ms e) c))"
  using cache_store_abs_other [OF assms(1-3) prod.collapse [symmetric]] by (simp add: list_all_iff)

lemma cache_evicts_only_oldest_witness:
  "cache_abs (snd (noports_policy_cache_store Copy_ok [zero_entry\<lparr>ce_used := True, ce_atsign := ''@b''\<rparr>]
      (Some ''a'') zero_decision 7)) ''@b'' =
    cache_abs [zero_entry\<lparr>ce_used := True, ce_atsign := ''@b''\<rparr>] ''@b'' \<or>
   (cache_abs (snd (noports_policy_cache_store Copy_ok [zero_entry\<lparr>ce_used := True, ce_atsign := ''@b''\<rparr>]
      (Some ''a'') zero_decision 7)) ''@b'' = None \<and>
    list_all ce_used [zero_entry\<lparr>ce_used := True, ce_atsign := ''@b''\<rparr>] \<and>
    (\<exists>t0 d0. cache_abs [zero_entry\<lparr>ce_used := True, ce_atsign := ''@b''\<rparr>] ''@b'' = Some (t0, d0) \<and>
      list_all (\<lambda>e. t0 \<le> ce_checked_at_ms e) [zero_entry\<lparr>ce_used := True, ce_atsign := ''@b''\<rparr>]))"
  by (rule cache_evicts_only_oldest [where n = "''@a''"]) (simp add: cache_inv_def, code_simp, simp)



text \<open>A sender's cooldown is forgotten because of another sender only when all eight slots are
  taken, the other sender has none, and nobody in the table has been quiet for longer.\<close>
theorem cooldown_forgets_only_longest_quiet:
  assumes "cooldown_inv cd" "canonical a = Some n" "m \<noteq> n"
  shows "last_check (snd (noports_policy_cooldown_allows cd a k t)) m k' = last_check cd m k' \<or>
    (\<not> tracked cd n \<and> list_all cs_used cd \<and>
     (\<exists>i < length cd. slot_of m (cd ! i) \<and> list_all (\<lambda>s. last_active_ms (cd ! i) \<le> last_active_ms s) cd))"
  using cooldown_other [OF assms prod.collapse [symmetric]] by (simp add: list_all_iff)

lemma cooldown_forgets_only_longest_quiet_witness:
  "last_check (snd (noports_policy_cooldown_allows noports_policy_cooldown_init (Some ''a'') CHECK_PING 1)) ''@b'' CHECK_PING =
     last_check noports_policy_cooldown_init ''@b'' CHECK_PING \<or>
   (\<not> tracked noports_policy_cooldown_init ''@a'' \<and> list_all cs_used noports_policy_cooldown_init \<and>
    (\<exists>i < length noports_policy_cooldown_init. slot_of ''@b'' (noports_policy_cooldown_init ! i) \<and>
       list_all (\<lambda>s. last_active_ms (noports_policy_cooldown_init ! i) \<le> last_active_ms s) noports_policy_cooldown_init))"
  by (rule cooldown_forgets_only_longest_quiet [OF cooldown_init_inv]) (code_simp, simp)

end
