(* ===== verification/Enrollment_Signature.thy ===== *)
theory Enrollment_Signature
  imports Example_Libs
begin

text \<open>
  \<open>noports_enrollment_signature.c\<close>: verifying the \<open>enrollmentSignature\<close> of a session request
  against the \<open>_apsk\<close> record it names. The record is looked up with a callback, which reads and
  writes the caller's state: the verification is a program of the state monad over that state.
  The result carries what the C code returns through its out parameters: the canonical uri of a
  verified key, or the text saying why there is none. Running out of memory is a value the
  callers draw from their environment.
\<close>

section \<open>Names\<close>

definition signing_algorithms :: "string list" where
  "signing_algorithms = [''ecc_secp256r1'', ''rsa2048'', ''rsa4096'', ''ed25519'', ''mldsa65'']"

definition hashing_algorithms :: "string list" where
  "hashing_algorithms = [''sha256'', ''sha512'', ''md5'', ''argon2id'']"

definition is_id_char :: "char \<Rightarrow> bool" where
  "is_id_char c \<longleftrightarrow> is_upper c \<or> is_lower c \<or> is_digit c \<or> c = CHR ''_'' \<or> c = CHR ''-''"

definition is_one_of :: "string \<Rightarrow> string list \<Rightarrow> bool" where
  "is_one_of s names \<longleftrightarrow> s \<in> set names"

text \<open>The characters of \<open>"@: \t\r\n\f\v"\<close>.\<close>

definition ends_owner :: "char \<Rightarrow> bool" where
  "ends_owner c \<longleftrightarrow> c = CHR ''@'' \<or> c = CHR '':'' \<or> ch c = 32 \<or> (9 \<le> ch c \<and> ch c \<le> 13)"

definition strip_public :: "string \<Rightarrow> string" where
  "strip_public uri = (if starts_with ''public:'' uri then drop 7 uri else uri)"

definition is_signing_key_uri :: "string \<Rightarrow> bool" where
  "is_signing_key_uri uri =
     (let p = strip_public uri in
      if \<not> starts_with ''_apsk.'' p then False
      else let p = drop 6 p; id_len = strspn p is_id_char in
        if id_len = 0 \<or> \<not> starts_with ''.a.__e@'' (drop id_len p) then False
        else let p = drop (id_len + 7) p in p \<noteq> [] \<and> \<not> (\<exists>c \<in> set p. ends_owner c))"

definition lower_ascii :: "string \<Rightarrow> string" where
  "lower_ascii s = map to_lower s"

text \<open>\<open>strrchr(uri, '@')\<close>: the atSign a uri ends in.\<close>

definition at_suffix :: "string \<Rightarrow> string option" where
  "at_suffix uri = map_option (\<lambda>i. drop i uri) (strrchr uri CHR ''@'')"

definition hex_digit :: "nat \<Rightarrow> char" where
  "hex_digit n = (if n < 10 then char_of (48 + n) else char_of (87 + n))"

definition hex2 :: "u8 \<Rightarrow> string" where
  "hex2 b = [hex_digit (unat b div 16), hex_digit (unat b mod 16)]"

text \<open>What an allocation of the verification comes to; each field is one \<open>malloc\<close>.\<close>

record es_mem =
  mem_names :: bool   \<comment> \<open>\<open>signer\<close>, \<open>requester_lower\<close> and \<open>canonical\<close>\<close>
  mem_keys :: bool    \<comment> \<open>the array of keys\<close>
  mem_kid :: bool     \<comment> \<open>\<open>kid_of\<close>'s buffer\<close>
  mem_raw :: bool     \<comment> \<open>the decoded signature\<close>
  mem_print :: bool   \<comment> \<open>the serialized payload\<close>

definition kid_of :: "atchops \<Rightarrow> es_mem \<Rightarrow> string \<Rightarrow> string option" where
  "kid_of ops mem pub =
     (if \<not> mem_kid mem then None
      else case base64_decode ops pub (length pub div 4 * 3 + 3) of
          None \<Rightarrow> None
        | Some raw \<Rightarrow>
            (case sha256 ops raw of
               None \<Rightarrow> None
             | Some h \<Rightarrow> Some (concat (map hex2 (take 8 h)))))"

section \<open>The keys a record advertises\<close>

record apsk_key =
  ak_kid :: string
  ak_alg :: string
  ak_pub :: string

datatype lookup_result = LOOKUP_FOUND | LOOKUP_NOT_FOUND | LOOKUP_NOT_SERVED | LOOKUP_FAILED

datatype enrollment_signature =
    ES_ABSENT
  | ES_VERIFIED string   \<comment> \<open>the record's canonical uri\<close>
  | ES_REFUSED string    \<comment> \<open>why\<close>
  | ES_UNCHECKED string  \<comment> \<open>why\<close>

definition is_apsk_space :: "char \<Rightarrow> bool" where
  "is_apsk_space c \<longleftrightarrow> ch c = 32 \<or> ch c = 9 \<or> ch c = 13 \<or> ch c = 10"

definition trim_apsk :: "string \<Rightarrow> string" where
  "trim_apsk s = rev (dropWhile is_apsk_space (rev (dropWhile is_apsk_space s)))"

text \<open>One entry of the \<open>keys\<close> array: \<open>None\<close> when the loop skips it.\<close>

definition apsk_entry :: "'j cjson \<Rightarrow> 'j \<Rightarrow> apsk_key option" where
  "apsk_entry cj entry =
     (if \<not> cj_is_object cj entry then None
      else
        let fld = GetObjectItemCaseSensitive cj (Some entry);
            kid = GetStringValue cj (fld ''kid'');
            use = GetStringValue cj (fld ''use'');
            alg = GetStringValue cj (fld ''alg'');
            pub = GetStringValue cj (fld ''pub'');
            status = fld ''status''
        in case (kid, use, alg, pub) of
             (Some kid, Some use, Some alg, Some pub) \<Rightarrow>
               if use \<noteq> ''sign'' \<or> \<not> is_one_of alg signing_algorithms then None
               else
                 let active = status = None \<or> IsNull cj status \<or> GetStringValue cj status = Some ''active'' in
                 if \<not> active \<or> (alg \<noteq> ''rsa2048'' \<and> alg \<noteq> ''mldsa65'') then None
                 else Some \<lparr>ak_kid = kid, ak_alg = alg, ak_pub = pub\<rparr>
           | _ \<Rightarrow> None)"

definition active_apsk_keys ::
  "'j cjson \<Rightarrow> atchops \<Rightarrow> es_mem \<Rightarrow> string \<Rightarrow> string \<Rightarrow> enrollment_signature + apsk_key list" where
  "active_apsk_keys cj ops mem uri apsk =
     (let v = trim_apsk apsk in
      if \<not> starts_with ''{'' v then
        if \<not> mem_keys mem then Inl (ES_UNCHECKED ''out of memory'')
        else case kid_of ops mem v of
            None \<Rightarrow> Inl (ES_REFUSED (uri @ '' holds a key that is not base64''))
          | Some kid \<Rightarrow> Inr [\<lparr>ak_kid = kid, ak_alg = ''rsa2048'', ak_pub = v\<rparr>]
      else case cj_parse_opts cj v of
          None \<Rightarrow> Inl (ES_REFUSED (uri @ '' holds an advertisement that is not JSON''))
        | Some json \<Rightarrow>
            if \<not> cj_is_object cj json
            then Inl (ES_REFUSED (uri @ '' holds an advertisement that is not a JSON object''))
            else
              let item = GetObjectItemCaseSensitive cj (Some json) ''keys'';
                  entries = (case item of Some a \<Rightarrow> if cj_is_array cj a then cj_elements cj a else [] | None \<Rightarrow> [])
              in if \<not> mem_keys mem then Inl (ES_UNCHECKED ''out of memory'')
                 else let keys = List.map_filter (apsk_entry cj) entries in
                   if keys = [] then Inl (ES_REFUSED (uri @ '' advertises no key NoPorts can verify''))
                   else Inr keys)"

section \<open>Verification\<close>

definition verify_rsa ::
  "atchops \<Rightarrow> es_mem \<Rightarrow> apsk_key \<Rightarrow> string \<Rightarrow> string \<Rightarrow> md_type \<Rightarrow> string \<Rightarrow> enrollment_signature" where
  "verify_rsa ops mem key signed_text signature hashing uri =
     (if \<not> mem_raw mem then ES_UNCHECKED ''out of memory''
      else case rsa_populate_public ops (ak_pub key) of
          None \<Rightarrow> ES_REFUSED (''Key '' @ ak_kid key @ '' is not an RSA public key'')
        | Some pk \<Rightarrow>
            (case base64_decode ops signature (length signature div 4 * 3 + 3) of
               None \<Rightarrow> ES_REFUSED ''The signature is not base64''
             | Some raw \<Rightarrow>
                 if length raw \<noteq> significant_bytes (rk_n pk) \<or> \<not> rsa_verify ops pk hashing signed_text raw
                 then ES_REFUSED ''Signatures did not match.''
                 else ES_VERIFIED uri))"

text \<open>What the signature's fields say, before anything is looked up.\<close>

record es_request =
  rq_canonical :: string
  rq_hash :: string
  rq_signature :: string
  rq_kid :: "string option"

definition es_field_error :: "string \<Rightarrow> string" where
  "es_field_error name = ''enrollmentSignature has no string \"'' @ name @ [CHR 0x22]"

definition read_signature :: "'j cjson \<Rightarrow> es_mem \<Rightarrow> 'j \<Rightarrow> string \<Rightarrow> enrollment_signature + es_request" where
  "read_signature cj mem envelope requester =
     (let field = GetObjectItemCaseSensitive cj (Some envelope) ''enrollmentSignature'' in
      if field = None \<or> IsNull cj field then Inl ES_ABSENT
      else if \<not> IsObject cj field then Inl (ES_REFUSED ''enrollmentSignature is not an object'')
      else
        let str = (\<lambda>n. GetStringValue cj (GetObjectItemCaseSensitive cj field n)) in
        case str ''sk'' of None \<Rightarrow> Inl (ES_REFUSED (es_field_error ''sk'')) | Some uri \<Rightarrow>
        case str ''sa'' of None \<Rightarrow> Inl (ES_REFUSED (es_field_error ''sa'')) | Some sa \<Rightarrow>
        case str ''ha'' of None \<Rightarrow> Inl (ES_REFUSED (es_field_error ''ha'')) | Some ha \<Rightarrow>
        case str ''s'' of None \<Rightarrow> Inl (ES_REFUSED (es_field_error ''s'')) | Some signature \<Rightarrow>
        if \<not> is_signing_key_uri uri then
          Inl (ES_REFUSED (''Signing key ('' @ uri @ '') is not of the form public:_apsk.<enrollmentId>.a.__e@<atSign>''))
        else if \<not> mem_names mem then Inl (ES_UNCHECKED ''out of memory'')
        else
          let signer = lower_ascii (case at_suffix uri of None \<Rightarrow> [] | Some a \<Rightarrow> a) in
          if signer \<noteq> lower_ascii requester then
            Inl (ES_REFUSED (''Signing key '' @ uri @ '' belongs to '' @ signer @ '', not the requester '' @ requester))
          else if \<not> is_one_of sa signing_algorithms \<or> \<not> is_one_of ha hashing_algorithms then
            Inl (ES_REFUSED ''enrollmentSignature names an algorithm NoPorts does not know'')
          else if sa = ''mldsa65'' then
            Inl (ES_REFUSED ''Unsupported signing algorithm mldsa65: this daemon can't verify ML-DSA signatures'')
          else if sa \<noteq> ''rsa2048'' then Inl (ES_REFUSED (''Unsupported signing algorithm '' @ sa))
          else
            let kid_item = GetObjectItemCaseSensitive cj field ''kid'' in
            if kid_item \<noteq> None \<and> \<not> IsNull cj kid_item \<and> \<not> IsString cj kid_item then
              Inl (ES_REFUSED ''enrollmentSignature has a \"kid\" that is not a string'')
            else Inr \<lparr>rq_canonical = lower_ascii (''public:'' @ strip_public uri), rq_hash = ha,
                      rq_signature = signature, rq_kid = GetStringValue cj kid_item\<rparr>)"

text \<open>What the looked-up record says of the signature. \<open>print\<close> serializes the payload; a missing
  payload or no memory for the text leaves the signature unchecked.\<close>

definition check_signature ::
  "'j cjson \<Rightarrow> atchops \<Rightarrow> es_mem \<Rightarrow> ('j \<Rightarrow> string) \<Rightarrow> 'j \<Rightarrow> es_request \<Rightarrow> string \<Rightarrow> enrollment_signature" where
  "check_signature cj ops mem print envelope rq apsk =
     (let uri = rq_canonical rq in
      case active_apsk_keys cj ops mem uri apsk of
        Inl r \<Rightarrow> r
      | Inr keys \<Rightarrow>
          let candidates = filter (\<lambda>k. ak_alg k \<noteq> ''mldsa65'') keys;
              key = List.find (\<lambda>k. rq_kid rq = None \<or> rq_kid rq = Some (ak_kid k)) candidates
          in if \<exists>k \<in> set keys. ak_alg k = ''mldsa65'' then
               ES_REFUSED (''Signed with rsa2048, but '' @ uri @ '' advertises mldsa65, the strongest algorithm it offers'')
             else if rq_kid rq = None \<and> length candidates \<noteq> 1 then
               ES_REFUSED (''The signature names no key, and '' @ uri @ '' advertises '' @
                 dec_nat (length candidates) @ '' rsa2048 keys'')
             else case key of
                 None \<Rightarrow> ES_REFUSED (''The signature names key '' @ (case rq_kid rq of None \<Rightarrow> [] | Some k \<Rightarrow> k) @
                   '', which '' @ uri @ '' does not advertise'')
               | Some k \<Rightarrow>
                   if rq_hash rq \<noteq> ''sha256'' \<and> rq_hash rq \<noteq> ''sha512'' then
                     ES_REFUSED (''Unsupported hashing algorithm '' @ rq_hash rq)
                   else case (mem_print mem, GetObjectItemCaseSensitive cj (Some envelope) ''payload'') of
                       (True, Some payload) \<Rightarrow>
                         verify_rsa ops mem k (print payload) (rq_signature rq)
                           (if rq_hash rq = ''sha256'' then MD_SHA256 else MD_SHA512) uri
                     | _ \<Rightarrow> ES_UNCHECKED ''the payload could not be serialized'')"

definition noports_verify_enrollment_signature ::
  "'j cjson \<Rightarrow> atchops \<Rightarrow> es_mem \<Rightarrow> ('j \<Rightarrow> string) \<Rightarrow>
   (string \<Rightarrow> ('s, lookup_result \<times> string option) state) \<Rightarrow> 'j \<Rightarrow> string \<Rightarrow> ('s, enrollment_signature) state" where
  "noports_verify_enrollment_signature cj ops mem print look envelope requester =
     (case read_signature cj mem envelope requester of
        Inl r \<Rightarrow> ret r
      | Inr rq \<Rightarrow> do {
          (found, apsk) \<leftarrow> look (rq_canonical rq);
          ret (if found \<noteq> LOOKUP_FOUND then
                 ES_UNCHECKED (rq_canonical rq @
                   (if found = LOOKUP_NOT_FOUND then '' does not exist'' else '' could not be looked up''))
               else check_signature cj ops mem print envelope rq (case apsk of None \<Rightarrow> [] | Some v \<Rightarrow> v))
        })"

section \<open>Facts\<close>

text \<open>The shape of a signing-key uri.\<close>

lemma dropWhile_id_chars:
  assumes "\<forall>c \<in> set i. P c" "r = [] \<or> \<not> P (hd r)"
  shows "takeWhile P (i @ r) = i"
  using assms by (cases r) (auto simp: takeWhile_append)

lemma guards_conj: "(if \<not> a then False else if b \<or> \<not> c then False else d) \<longleftrightarrow> a \<and> \<not> b \<and> c \<and> d"
  by simp

lemma is_signing_key_uri_iff:
  "is_signing_key_uri uri \<longleftrightarrow>
     (\<exists>i owner. strip_public uri = ''_apsk.'' @ i @ ''.a.__e@'' @ owner \<and>
        i \<noteq> [] \<and> (\<forall>c \<in> set i. is_id_char c) \<and> owner \<noteq> [] \<and> \<not> (\<exists>c \<in> set owner. ends_owner c))"
    (is "?L \<longleftrightarrow> ?R")
proof
  assume L: ?L
  define p where "p = strip_public uri"
  define q where "q = drop 6 p"
  let ?n = "strspn q is_id_char"
  have "starts_with ''_apsk.'' p \<and> ?n \<noteq> 0 \<and> starts_with ''.a.__e@'' (drop ?n q) \<and>
      drop (?n + 7) q \<noteq> [] \<and> \<not> (\<exists>c \<in> set (drop (?n + 7) q). ends_owner c)"
    using L unfolding is_signing_key_uri_def Let_def p_def [symmetric] q_def [symmetric]
    unfolding guards_conj by simp
  then have a: "starts_with ''_apsk.'' p" and nz: "?n \<noteq> 0"
    and b: "starts_with ''.a.__e@'' (drop ?n q)" and o: "drop (?n + 7) q \<noteq> []"
    "\<not> (\<exists>c \<in> set (drop (?n + 7) q). ends_owner c)" by blast+
  obtain r1 where "p = ''_apsk.'' @ r1" using a unfolding starts_with_iff by blast
  then have 1: "strip_public uri = ''_apsk.'' @ q" by (simp add: q_def p_def [symmetric])
  obtain r where r: "drop ?n q = ''.a.__e@'' @ r" using b unfolding starts_with_iff by blast
  have "drop (?n + 7) q = drop 7 (drop ?n q)" by (simp add: add.commute)
  with r have 2: "drop ?n q = ''.a.__e@'' @ drop (?n + 7) q" by simp
  have "take ?n q = takeWhile is_id_char q" unfolding strspn_def by (rule takeWhile_eq_take [symmetric])
  then have 3: "\<forall>c \<in> set (take ?n q). is_id_char c" by (auto dest: set_takeWhileD)
  have "take ?n q \<noteq> []" using nz by (auto simp: strspn_def)
  moreover have "q = take ?n q @ ''.a.__e@'' @ drop (?n + 7) q" using 2 by (metis append_take_drop_id)
  ultimately show ?R using 1 3 o by metis
next
  assume ?R
  then obtain i owner where s: "strip_public uri = ''_apsk.'' @ i @ ''.a.__e@'' @ owner"
    and io: "i \<noteq> []" "\<forall>c \<in> set i. is_id_char c" "owner \<noteq> []" "\<not> (\<exists>c \<in> set owner. ends_owner c)"
    by blast
  have "takeWhile is_id_char (i @ ''.a.__e@'' @ owner) = i"
    by (rule dropWhile_id_chars) (use io in \<open>auto simp: is_id_char_def is_upper_def is_lower_def is_digit_def ch_def\<close>)
  then have n: "strspn (i @ ''.a.__e@'' @ owner) is_id_char = length i" by (simp add: strspn_def)
  have d: "drop 6 (strip_public uri) = i @ ''.a.__e@'' @ owner" using s by simp
  have e: "drop (length i + 7) (i @ ''.a.__e@'' @ owner) = owner" by simp
  show ?L
    unfolding is_signing_key_uri_def Let_def d n e using s io by (simp add: starts_with_def)
qed

text \<open>The last \<open>@\<close> of such a uri is the one in front of its owner.\<close>

lemma at_suffix_last: "CHR ''@'' \<notin> set b \<Longrightarrow> at_suffix (a @ CHR ''@'' # b) = Some (CHR ''@'' # b)"
  by (simp add: at_suffix_def strrchr_last)

lemma strip_public_split: "\<exists>p. uri = p @ strip_public uri"
  by (auto simp: strip_public_def starts_with_iff)

lemma at_suffix_signing_key:
  assumes "strip_public uri = ''_apsk.'' @ i @ ''.a.__e@'' @ owner" "\<not> (\<exists>c \<in> set owner. ends_owner c)"
  shows "at_suffix uri = Some (CHR ''@'' # owner)"
proof -
  obtain p where "uri = p @ ''_apsk.'' @ i @ ''.a.__e@'' @ owner"
    using strip_public_split [of uri] assms(1) by auto
  then have "uri = (p @ ''_apsk.'' @ i @ ''.a.__e'') @ CHR ''@'' # owner" by simp
  moreover have "CHR ''@'' \<notin> set owner" using assms(2) by (auto simp: ends_owner_def)
  ultimately show ?thesis by (metis at_suffix_last)
qed

text \<open>A request whose fields pass names a key of the requester and the rsa2048 algorithm.\<close>

definition es_field :: "'j cjson \<Rightarrow> 'j \<Rightarrow> string \<Rightarrow> string option" where
  "es_field cj env name =
     GetStringValue cj (GetObjectItemCaseSensitive cj (GetObjectItemCaseSensitive cj (Some env) ''enrollmentSignature'') name)"

lemma read_signature_Inr:
  assumes "read_signature cj mem env requester = Inr rq"
  shows "\<exists>uri. is_signing_key_uri uri \<and> es_field cj env ''sk'' = Some uri \<and> es_field cj env ''sa'' = Some ''rsa2048'' \<and>
    es_field cj env ''ha'' = Some (rq_hash rq) \<and> es_field cj env ''s'' = Some (rq_signature rq) \<and>
    es_field cj env ''kid'' = rq_kid rq \<and>
    lower_ascii (case at_suffix uri of None \<Rightarrow> [] | Some a \<Rightarrow> a) = lower_ascii requester \<and>
    rq_canonical rq = lower_ascii (''public:'' @ strip_public uri)"
  using assms
  by (auto simp: read_signature_def es_field_def Let_def split: if_splits option.splits)

lemma check_signature_VERIFIED:
  assumes "check_signature cj ops mem print env rq apsk = ES_VERIFIED u"
  shows "u = rq_canonical rq \<and> (\<exists>keys k pk raw hashing.
    active_apsk_keys cj ops mem u apsk = Inr keys \<and> k \<in> set keys \<and> (\<forall>k \<in> set keys. ak_alg k \<noteq> ''mldsa65'') \<and>
    (rq_kid rq = Some (ak_kid k) \<or> rq_kid rq = None \<and> keys = [k]) \<and>
    hashing = (if rq_hash rq = ''sha256'' then MD_SHA256 else MD_SHA512) \<and>
    rq_hash rq \<in> {''sha256'', ''sha512''} \<and>
    rsa_populate_public ops (ak_pub k) = Some pk \<and>
    base64_decode ops (rq_signature rq) (length (rq_signature rq) div 4 * 3 + 3) = Some raw \<and>
    length raw = significant_bytes (rk_n pk) \<and>
    (\<exists>payload. GetObjectItemCaseSensitive cj (Some env) ''payload'' = Some payload \<and>
       rsa_verify ops pk hashing (print payload) raw))"
proof -
  obtain keys where keys: "active_apsk_keys cj ops mem (rq_canonical rq) apsk = Inr keys"
    using assms
    by (auto simp: check_signature_def active_apsk_keys_def Let_def split: sum.splits option.splits if_splits)
  let ?cs = "filter (\<lambda>k. ak_alg k \<noteq> ''mldsa65'') keys"
  have no: "\<forall>k \<in> set keys. ak_alg k \<noteq> ''mldsa65''"
    using assms keys by (auto simp: check_signature_def Let_def split: if_splits option.splits)
  then have cs: "?cs = keys" by (simp add: filter_id_conv)
  obtain k payload where k: "List.find (\<lambda>k. rq_kid rq = None \<or> rq_kid rq = Some (ak_kid k)) keys = Some k"
    and hash: "rq_hash rq \<in> {''sha256'', ''sha512''}"
    and one: "rq_kid rq = None \<Longrightarrow> length keys = 1"
    and v: "GetObjectItemCaseSensitive cj (Some env) ''payload'' = Some payload"
       "verify_rsa ops mem k (print payload) (rq_signature rq)
         (if rq_hash rq = ''sha256'' then MD_SHA256 else MD_SHA512) (rq_canonical rq) = ES_VERIFIED u"
    using assms keys no cs
    by (auto simp: check_signature_def Let_def split: if_splits option.splits bool.splits)
  from k have km: "k \<in> set keys" "rq_kid rq = None \<or> rq_kid rq = Some (ak_kid k)"
    by (auto simp: find_Some_iff)
  have kk: "rq_kid rq = Some (ak_kid k) \<or> rq_kid rq = None \<and> keys = [k]"
  proof (cases "rq_kid rq")
    case None
    with one obtain z where "keys = [z]" by (metis One_nat_def length_0_conv length_Suc_conv)
    with None km(1) show ?thesis by simp
  qed (use km in simp)
  from v(2) have u: "u = rq_canonical rq" by (auto simp: verify_rsa_def split: if_splits option.splits)
  from v show ?thesis
    unfolding u using keys no kk km(1) hash
    by (auto simp: verify_rsa_def split: if_splits option.splits)
qed

lemma verify_enrollment_signature_VERIFIED:
  assumes "res (noports_verify_enrollment_signature cj ops mem print look env requester) s = ES_VERIFIED u"
  shows "\<exists>rq apsk. read_signature cj mem env requester = Inr rq \<and>
    res (look (rq_canonical rq)) s = (LOOKUP_FOUND, apsk) \<and>
    check_signature cj ops mem print env rq (case apsk of None \<Rightarrow> [] | Some v \<Rightarrow> v) = ES_VERIFIED u"
proof (cases "read_signature cj mem env requester")
  case (Inl r)
  with assms have "read_signature cj mem env requester = Inl (ES_VERIFIED u)"
    by (simp add: noports_verify_enrollment_signature_def)
  then show ?thesis
    by (auto simp: read_signature_def Let_def split: if_splits option.splits)
next
  case (Inr rq)
  with assms show ?thesis
    by (auto simp: noports_verify_enrollment_signature_def split: prod.splits if_splits)
qed

text \<open>Looking a record up is the only effect.\<close>

lemma verify_enrollment_signature_io [io_intro]:
  "preorder_rel P \<Longrightarrow> (\<And>u. state_io_rel P (look u)) \<Longrightarrow>
     state_io_rel P (noports_verify_enrollment_signature cj ops mem print look env requester)"
  by (auto simp: noports_verify_enrollment_signature_def split: sum.splits intro!: io_rule)

section \<open>Properties\<close>

text \<open>C5: soundness of the enrollment signature. The verification answers "verified" only for the uri
  \<open>public:_apsk.<id>.a.__e@<owner>\<close> that the signature's field \<open>sk\<close> gives, in lower case, and whose owner is the requester, if the
  lookup really found its record, which advertises no stronger algorithm; the field \<open>sa\<close> is \<open>rsa2048\<close>; and the
  key named by \<open>kid\<close>, or without \<open>kid\<close> the only one advertised, verifies the signature that the field \<open>s\<close> holds in base64, which has
  exactly the modulus' length, over the serialized payload with the hash that the field \<open>ha\<close> names.\<close>
theorem verified_enrollment_signature_sound:
  assumes "res (noports_verify_enrollment_signature cj ops mem print look env requester) s = ES_VERIFIED u"
  shows "\<exists>uri i owner apsk keys k pk raw sig hashing payload.
    es_field cj env ''sk'' = Some uri \<and> strip_public uri = ''_apsk.'' @ i @ ''.a.__e@'' @ owner \<and>
    u = ''public:_apsk.'' @ lower_ascii i @ ''.a.__e@'' @ lower_ascii owner \<and> i \<noteq> [] \<and> owner \<noteq> [] \<and>
    CHR ''@'' # lower_ascii owner = lower_ascii requester \<and>
    res (look u) s = (LOOKUP_FOUND, apsk) \<and>
    active_apsk_keys cj ops mem u (case apsk of None \<Rightarrow> [] | Some v \<Rightarrow> v) = Inr keys \<and>
    k \<in> set keys \<and> ''mldsa65'' \<notin> ak_alg ` set keys \<and>
    (es_field cj env ''kid'' = Some (ak_kid k) \<or> es_field cj env ''kid'' = None \<and> keys = [k]) \<and>
    rsa_populate_public ops (ak_pub k) = Some pk \<and>
    es_field cj env ''sa'' = Some ''rsa2048'' \<and> es_field cj env ''s'' = Some sig \<and>
    base64_decode ops sig (length sig div 4 * 3 + 3) = Some raw \<and> length raw = significant_bytes (rk_n pk) \<and>
    (es_field cj env ''ha'', hashing) \<in> {(Some ''sha256'', MD_SHA256), (Some ''sha512'', MD_SHA512)} \<and>
    GetObjectItemCaseSensitive cj (Some env) ''payload'' = Some payload \<and>
    rsa_verify ops pk hashing (print payload) raw"
proof -
  obtain rq apsk where r: "read_signature cj mem env requester = Inr rq"
    and l: "res (look (rq_canonical rq)) s = (LOOKUP_FOUND, apsk)"
    and c: "check_signature cj ops mem print env rq (case apsk of None \<Rightarrow> [] | Some v \<Rightarrow> v) = ES_VERIFIED u"
    using verify_enrollment_signature_VERIFIED [OF assms] by blast
  obtain uri where uri: "is_signing_key_uri uri"
    "lower_ascii (case at_suffix uri of None \<Rightarrow> [] | Some a \<Rightarrow> a) = lower_ascii requester"
    "rq_canonical rq = lower_ascii (''public:'' @ strip_public uri)"
    and fields: "es_field cj env ''sk'' = Some uri" "es_field cj env ''sa'' = Some ''rsa2048''"
      "es_field cj env ''ha'' = Some (rq_hash rq)" "es_field cj env ''s'' = Some (rq_signature rq)"
      "es_field cj env ''kid'' = rq_kid rq"
    using read_signature_Inr [OF r] by blast
  from uri(1) obtain i owner where io: "strip_public uri = ''_apsk.'' @ i @ ''.a.__e@'' @ owner"
    "i \<noteq> []" "owner \<noteq> []" "\<not> (\<exists>c \<in> set owner. ends_owner c)"
    unfolding is_signing_key_uri_iff by blast
  have own: "CHR ''@'' # lower_ascii owner = lower_ascii requester"
    using uri(2) at_suffix_signing_key [OF io(1,4)]
    by (simp add: lower_ascii_def to_lower_def is_upper_def ch_def)
  have can: "rq_canonical rq = ''public:_apsk.'' @ lower_ascii i @ ''.a.__e@'' @ lower_ascii owner"
    unfolding uri(3) io(1) by (simp add: lower_ascii_def to_lower_def is_upper_def ch_def)
  obtain keys k pk raw payload where u: "u = rq_canonical rq" and keys:
      "active_apsk_keys cj ops mem u (case apsk of None \<Rightarrow> [] | Some v \<Rightarrow> v) = Inr keys" "k \<in> set keys"
      "\<forall>k \<in> set keys. ak_alg k \<noteq> ''mldsa65''" "rsa_populate_public ops (ak_pub k) = Some pk"
      "base64_decode ops (rq_signature rq) (length (rq_signature rq) div 4 * 3 + 3) = Some raw"
      "length raw = significant_bytes (rk_n pk)"
      "GetObjectItemCaseSensitive cj (Some env) ''payload'' = Some payload"
      "rsa_verify ops pk (if rq_hash rq = ''sha256'' then MD_SHA256 else MD_SHA512) (print payload) raw"
    and kid: "rq_kid rq = Some (ak_kid k) \<or> rq_kid rq = None \<and> keys = [k]" and hash: "rq_hash rq \<in> {''sha256'', ''sha512''}"
    using check_signature_VERIFIED [OF c] by blast
  have kid': "es_field cj env ''kid'' = Some (ak_kid k) \<or> es_field cj env ''kid'' = None \<and> keys = [k]"
    using kid fields(5) by simp
  have hash': "(es_field cj env ''ha'', if rq_hash rq = ''sha256'' then MD_SHA256 else MD_SHA512)
      \<in> {(Some ''sha256'', MD_SHA256), (Some ''sha512'', MD_SHA512)}"
    using hash fields(3) by auto
  have no: "''mldsa65'' \<notin> ak_alg ` set keys" using keys(3) by force
  show ?thesis
    by (intro exI conjI, rule fields(1), rule io(1), rule trans [OF u can], rule io(2), rule io(3), rule own, rule l [folded u],
        rule keys(1), rule keys(2), rule no, rule kid', rule keys(4), rule fields(2), rule fields(4), rule keys(5), rule keys(6),
        rule hash', rule keys(7), rule keys(8))
qed

definition example_envelope :: json where
  "example_envelope = JObj [(''payload'', JStr ''hiho''), (''enrollmentSignature'',
     JObj [(''sk'', JStr ''_apsk.x.a.__e@Bob''), (''sa'', JStr ''rsa2048''), (''ha'', JStr ''sha256''), (''s'', JStr ''hih'')])]"

definition example_look :: "string \<Rightarrow> (unit, lookup_result \<times> string option) state" where
  "example_look u = State_Monad.return
     (if u = ''public:_apsk.x.a.__e@bob'' then (LOOKUP_FOUND, Some ''Kxyz'') else (LOOKUP_NOT_FOUND, None))"

definition example_print :: "json \<Rightarrow> string" where
  "example_print j = (case j of JStr s \<Rightarrow> s | _ \<Rightarrow> [])"

lemma verified_enrollment_signature_sound_witness:
  "\<exists>uri i owner apsk keys k pk raw sig hashing payload.
    es_field (example_cjson (\<lambda>_. None)) example_envelope ''sk'' = Some uri \<and>
    strip_public uri = ''_apsk.'' @ i @ ''.a.__e@'' @ owner \<and>
    ''public:_apsk.x.a.__e@bob'' = ''public:_apsk.'' @ lower_ascii i @ ''.a.__e@'' @ lower_ascii owner \<and> i \<noteq> [] \<and> owner \<noteq> [] \<and>
    CHR ''@'' # lower_ascii owner = lower_ascii ''@boB'' \<and>
    res (example_look ''public:_apsk.x.a.__e@bob'') () = (LOOKUP_FOUND, apsk) \<and>
    active_apsk_keys (example_cjson (\<lambda>_. None)) example_atchops \<lparr>mem_names = True, mem_keys = True, mem_kid = True, mem_raw = True, mem_print = True\<rparr>
      ''public:_apsk.x.a.__e@bob'' (case apsk of None \<Rightarrow> [] | Some v \<Rightarrow> v) = Inr keys \<and>
    k \<in> set keys \<and> ''mldsa65'' \<notin> ak_alg ` set keys \<and>
    (es_field (example_cjson (\<lambda>_. None)) example_envelope ''kid'' = Some (ak_kid k) \<or>
      es_field (example_cjson (\<lambda>_. None)) example_envelope ''kid'' = None \<and> keys = [k]) \<and>
    rsa_populate_public example_atchops (ak_pub k) = Some pk \<and>
    es_field (example_cjson (\<lambda>_. None)) example_envelope ''sa'' = Some ''rsa2048'' \<and>
    es_field (example_cjson (\<lambda>_. None)) example_envelope ''s'' = Some sig \<and>
    base64_decode example_atchops sig (length sig div 4 * 3 + 3) = Some raw \<and> length raw = significant_bytes (rk_n pk) \<and>
    (es_field (example_cjson (\<lambda>_. None)) example_envelope ''ha'', hashing)
      \<in> {(Some ''sha256'', MD_SHA256), (Some ''sha512'', MD_SHA512)} \<and>
    GetObjectItemCaseSensitive (example_cjson (\<lambda>_. None)) (Some example_envelope) ''payload'' = Some payload \<and>
    rsa_verify example_atchops pk hashing (example_print payload) raw"
  by (rule verified_enrollment_signature_sound) code_simp

text \<open>A signing-key uri is accepted exactly when, without an optional \<open>public:\<close>, it is
  \<open>_apsk.<id>.a.__e@<owner>\<close> with an id of letters, digits, \<open>_\<close> and \<open>-\<close> and an owner without \<open>@\<close>,
  \<open>:\<close> or white space: nothing can follow the owner and no second atSign can hide in the uri.\<close>
theorem signing_key_uri_shape:
  "is_signing_key_uri uri =
     (\<exists>i owner. strip_public uri = ''_apsk.'' @ i @ ''.a.__e@'' @ owner \<and>
        i \<noteq> [] \<and> list_all is_id_char i \<and> owner \<noteq> [] \<and> \<not> list_ex ends_owner owner)"
  unfolding is_signing_key_uri_iff by (simp add: list_all_iff list_ex_iff)

end
