(* ===== verification/Daemon_Types.thy ===== *)
theory Daemon_Types
  imports Relay_Types Policy_Limits Enrollment_Signature
begin

text \<open>
  \<open>noports_config.h\<close> and \<open>noports_daemon.h\<close>: the configuration, the notifications the daemon reads,
  the daemon object and the atSDK as a parameter. A member function is a program of the state monad
  over \<open>daemon\<close>; \<open>dm_trace\<close> is a ghost record of what crossed the daemon's boundary. \<open>dm_halted\<close> is set
  where the code restarts the chip or dereferences NULL, and the program returns from there; a wait
  that uses up the fuel sets \<open>dm_diverged\<close>. A member of a JSON value that is not there is \<open>None\<close>, as
  in the C code's NULL. A relay's own task runs beside the daemon: its effects are steps of their own
  in \<open>Daemon_Loop\<close>.
\<close>

section \<open>Constants\<close>

definition NOPORTS_VERSION :: string where "NOPORTS_VERSION = ''1.5.0''"
definition NOPORTS_CORE_PKG_VERSION :: string where "NOPORTS_CORE_PKG_VERSION = ''c1.5.0-arduino''"
definition NOPORTS_DEFAULT_ROOT_HOST :: string where "NOPORTS_DEFAULT_ROOT_HOST = ''root.atsign.org''"
definition NOPORTS_DEFAULT_ROOT_PORT :: u16 where "NOPORTS_DEFAULT_ROOT_PORT = 64"
definition NOPORTS_NS :: string where "NOPORTS_NS = ''sshnp''"
definition NOPORTS_MONITOR_READ_TIMEOUT_MS :: u32 where "NOPORTS_MONITOR_READ_TIMEOUT_MS = 100"
definition NOPORTS_MONITOR_NOOP_TIMEOUT_MS :: u32 where "NOPORTS_MONITOR_NOOP_TIMEOUT_MS = 40000"
definition NOPORTS_MAX_RECONNECT_FAILURES :: u8 where "NOPORTS_MAX_RECONNECT_FAILURES = 10"
definition NOPORTS_TLS_MIN_FREE_HEAP :: u32 where "NOPORTS_TLS_MIN_FREE_HEAP = 40000"
definition NOPORTS_TLS_MIN_CONTIGUOUS_HEAP :: u32 where "NOPORTS_TLS_MIN_CONTIGUOUS_HEAP = 20000"
definition NOPORTS_WORKER_KEEPALIVE_MS :: u32 where "NOPORTS_WORKER_KEEPALIVE_MS = 240000"
definition NOPORTS_NOTIFICATION_KEYS_LEN :: nat where "NOPORTS_NOTIFICATION_KEYS_LEN = 5"
definition NOPORTS_MAX_RELAYS :: nat where "NOPORTS_MAX_RELAYS = 5"
definition NOPORTS_POLICY_DOMAIN_NS :: string where "NOPORTS_POLICY_DOMAIN_NS = ''auth_checks''"

section \<open>Configuration\<close>

text \<open>A count and its array are one list; the callbacks are present or not.\<close>

record np_config =
  cf_atsign :: "string option"
  cf_device_name :: "string option"
  cf_manager_list :: "string list"
  cf_root_domain :: "string option"
  cf_root_port :: u16
  cf_hide :: bool
  cf_policy_atsign :: "string option"
  cf_policy_cache_size :: nat
  cf_permitopen :: "(string \<times> u16) list"
  cf_client_key_check_secs :: u32
  cf_require_enrollment_signature :: bool
  cf_pkam_private_key_base64 :: "string option"
  cf_pkam_public_key_base64 :: "string option"
  cf_encrypt_private_key_base64 :: "string option"
  cf_encrypt_public_key_base64 :: "string option"
  cf_self_encryption_key_base64 :: "string option"
  cf_enrollment_id :: "string option"
  cf_on_tunnel_open :: bool
  cf_on_tunnel_close :: bool
  cf_on_ping :: bool

definition noports_config_init :: np_config where
  "noports_config_init =
     \<lparr>cf_atsign = None, cf_device_name = None, cf_manager_list = [], cf_root_domain = None, cf_root_port = 0,
      cf_hide = False, cf_policy_atsign = None, cf_policy_cache_size = NOPORTS_POLICY_CACHE_DEFAULT_SIZE,
      cf_permitopen = [], cf_client_key_check_secs = 10, cf_require_enrollment_signature = False,
      cf_pkam_private_key_base64 = None, cf_pkam_public_key_base64 = None, cf_encrypt_private_key_base64 = None,
      cf_encrypt_public_key_base64 = None, cf_self_encryption_key_base64 = None, cf_enrollment_id = None,
      cf_on_tunnel_open = False, cf_on_tunnel_close = False, cf_on_ping = False\<rparr>"

text \<open>\<open>begin()\<close> refuses a configuration without these two, so they are never NULL afterwards.\<close>

definition my_atsign :: "np_config \<Rightarrow> string" where
  "my_atsign cfg = (case cf_atsign cfg of None \<Rightarrow> [] | Some a \<Rightarrow> a)"

definition my_device :: "np_config \<Rightarrow> string" where
  "my_device cfg = (case cf_device_name cfg of None \<Rightarrow> [] | Some a \<Rightarrow> a)"

definition policy_mode :: "np_config \<Rightarrow> bool" where
  "policy_mode cfg \<longleftrightarrow> (case cf_policy_atsign cfg of None \<Rightarrow> False | Some p \<Rightarrow> p \<noteq> [])"

section \<open>Messages of the monitor connection\<close>

text \<open>A notification's fields with the flags that say whether they were initialized.\<close>

record notification =
  nt_id :: "string option"
  nt_from :: "string option"
  nt_to :: "string option"
  nt_key :: "string option"
  nt_value :: "string option"     \<comment> \<open>\<open>decrypted_value\<close>\<close>
  nt_id_init :: bool
  nt_from_init :: bool
  nt_to_init :: bool
  nt_key_init :: bool
  nt_value_init :: bool

datatype message_type =
    Type_zero
  | Msg_empty | Msg_notification | Msg_data_response | Msg_error_response
  | Err_read | Err_parse_notification | Err_decrypt_notification
  | Type_unknown

record message =
  mg_type :: message_type
  mg_notification :: "notification option"

datatype notification_key = NK_NONE | NK_SSHPUBLICKEY | NK_PING | NK_SSH_REQUEST | NK_NPT_REQUEST | NK_GRACEFUL_SHUTDOWN

datatype rpc_resp_type = RPC_ACK | RPC_SUCCESS | RPC_ERROR | RPC_NACK

section \<open>The atSDK\<close>

text \<open>Options of an authentication: an atServer address, when there is one, comes before the
  atDirectory's.\<close>

record auth_options =
  ao_atserver :: "(string \<times> u16) option"
  ao_atdirectory :: "(string \<times> u16) option"

datatype client = Monitor | Worker

text \<open>What an HTTP GET gives: the announced size, the body and whether reading it failed; another status;
  a read timeout; or another failure.\<close>

datatype http_result = Http_ok int string bool | Http_status int | Http_read_timeout | Http_error

record ('w, 'k, 'j) denv = "('w, 'k, 'j) env" +
  d_pcb_count :: "'w \<Rightarrow> int \<times> 'w"                     \<comment> \<open>\<open>_relay_pcb_count\<close>, which the relay tasks move\<close>
  d_task_create :: "'w \<Rightarrow> nat option \<times> 'w"           \<comment> \<open>\<open>xTaskCreatePinnedToCore\<close>\<close>
  d_task_gone :: "nat \<Rightarrow> 'w \<Rightarrow> bool \<times> 'w"            \<comment> \<open>\<open>eTaskGetState\<close> is \<open>eDeleted\<close> or \<open>eInvalid\<close>\<close>
  d_gettimeofday :: "'w \<Rightarrow> (u32 \<times> u32) option \<times> 'w"
  d_lookup_once :: "string \<Rightarrow> u16 \<Rightarrow> string \<Rightarrow> 'w \<Rightarrow> (int \<times> string option \<times> u16) \<times> 'w"
  d_pkam_authenticate :: "client \<Rightarrow> string \<Rightarrow> auth_options \<Rightarrow> 'w \<Rightarrow> int \<times> 'w"
  d_monitor_start :: "string \<Rightarrow> 'w \<Rightarrow> int \<times> 'w"
  d_monitor_read :: "'w \<Rightarrow> (int \<times> message) \<times> 'w"
  d_send_heartbeat :: "'w \<Rightarrow> int \<times> 'w"
  d_create_key :: "string \<Rightarrow> string \<Rightarrow> 'w \<Rightarrow> int \<times> 'w"  \<comment> \<open>\<open>atclient_atkey_create_..\<close>: name and other atSign\<close>
  d_notify :: "string \<Rightarrow> string \<Rightarrow> string option \<Rightarrow> 'w \<Rightarrow> int \<times> 'w"
  d_get_public_key :: "string \<Rightarrow> string \<Rightarrow> string \<Rightarrow> 'w \<Rightarrow> (int \<times> string option) \<times> 'w"
  d_put_public_key :: "string \<Rightarrow> string \<Rightarrow> 'w \<Rightarrow> int \<times> 'w"
  d_rpc_send :: "string \<Rightarrow> u32 \<Rightarrow> string \<Rightarrow> 'w \<Rightarrow> int \<times> 'w"
  d_rpc_is_response_key :: "string \<Rightarrow> string \<Rightarrow> string \<Rightarrow> bool"
  d_rpc_parse_response :: "notification \<Rightarrow> (rpc_resp_type \<times> u32) option"
  d_rsa_encrypt :: "rsa_key \<Rightarrow> string \<Rightarrow> 'w \<Rightarrow> bytes option \<times> 'w"
  d_generate_key :: "'w \<Rightarrow> bytes option \<times> 'w"
  d_generate_iv :: "'w \<Rightarrow> bytes option \<times> 'w"
  d_http_begin :: "string \<Rightarrow> 'w \<Rightarrow> bool \<times> 'w"
  d_http_get :: "string \<Rightarrow> u32 \<Rightarrow> 'w \<Rightarrow> http_result \<times> 'w"
  d_set_key_option :: "string \<Rightarrow> 'w \<Rightarrow> int \<times> 'w"        \<comment> \<open>the two non-fatal setters of \<open>atclient_atkeys\<close>\<close>
  d_rsa_clone :: "'w \<Rightarrow> int \<times> 'w"
  d_ub_u16 :: "dbl \<Rightarrow> u16"                             \<comment> \<open>what the compiler makes of an undefined cast\<close>
  d_ub_u32 :: "dbl \<Rightarrow> u32"

section \<open>The daemon\<close>

record client_key =
  ck_signing_key :: "string option"
  ck_atserver_host :: string
  ck_atserver_port :: u16
  ck_due :: bool
  ck_ending :: bool
  ck_backoff :: u8
  ck_skip_rounds :: u8

definition no_client_key :: client_key where
  "no_client_key = \<lparr>ck_signing_key = None, ck_atserver_host = [], ck_atserver_port = 0, ck_due = False,
     ck_ending = False, ck_backoff = 0, ck_skip_rounds = 0\<rparr>"

datatype pending_type = POLICY_NONE | POLICY_PING | POLICY_NPT

record 'j policy_pending =
  pp_in_use :: bool
  pp_type :: pending_type
  pp_req_id :: u32
  pp_started_at_ms :: ms64
  pp_progress_at_ms :: ms64
  pp_requesting_atsign :: string
  pp_envelope :: "'j option"

definition no_pending :: "'j policy_pending" where
  "no_pending = \<lparr>pp_in_use = False, pp_type = POLICY_NONE, pp_req_id = 0, pp_started_at_ms = 0,
     pp_progress_at_ms = 0, pp_requesting_atsign = [], pp_envelope = None\<rparr>"

datatype daemon_state =
  DAEMON_UNINITIALIZED | DAEMON_INITIALIZING | DAEMON_AUTHENTICATING | DAEMON_MONITORING | DAEMON_ERROR | DAEMON_STOPPED

datatype halt = Restart | Panic

datatype ev =
    Ev_message message
  | Ev_public_key string "string option"   \<comment> \<open>the public key of an atSign, as its atServer gave it\<close>
  | Ev_rpc_request string u32               \<comment> \<open>client atSign and request id sent to the policy service\<close>
  | Ev_notify string string "string option" \<comment> \<open>receiver, key name, value\<close>
  | Ev_relay_start nat relay_config
  | Ev_relay_stop nat
  | Ev_tunnel_open string u16 string
  | Ev_tunnel_close string
  | Ev_ping string
  | Ev_authenticate client
  | Ev_delay u32
  | Ev_restart

record ('w, 'k, 'j) daemon =
  dm_world :: 'w
  dm_trace :: "ev list"
  dm_halted :: "halt option"
  dm_diverged :: bool
  dm_req_counter :: u32
  dm_state :: daemon_state
  dm_config :: np_config
  dm_should_run :: bool
  dm_last_error :: string
  dm_monitor_ctx :: bool
  dm_worker_ctx :: bool
  dm_atkeys :: bool
  dm_signing_key :: "rsa_key option"
  dm_pkam_signing_key :: "rsa_key option"
  dm_monitor_options :: "auth_options option"
  dm_worker_options :: "auth_options option"
  dm_ping_response :: "string option"
  dm_monitor_regex :: "string option"
  dm_root_host :: string
  dm_root_port :: u16
  dm_via_proxy :: bool
  dm_atserver_host :: string
  dm_atserver_port :: u16
  dm_relays :: "'k relay list"
  dm_client_keys :: "client_key list"
  dm_last_key_check_ms :: u32
  dm_timeout_counter :: u32
  dm_reconnect_failures :: u8
  dm_monitor_fail_streak :: u8
  dm_worker_keepalive_ms :: u32
  dm_worker_last_used_ms :: u32
  dm_max_relays :: u8
  dm_pending :: "'j policy_pending"
  dm_cooldown :: cooldown
  dm_decisions :: policy_cache
  dm_decrypt_reconnect_at_ms :: ms64

type_synonym ('w, 'k, 'j, 'a) dprog = "(('w, 'k, 'j) daemon, 'a) state"

section \<open>Primitives\<close>

definition dx :: "('w \<Rightarrow> 'r \<times> 'w) \<Rightarrow> ('w, 'k, 'j, 'r) dprog" where
  "dx f = State (\<lambda>s. case f (dm_world s) of (r, w) \<Rightarrow> (r, s\<lparr>dm_world := w\<rparr>))"

definition emit :: "ev \<Rightarrow> ('w, 'k, 'j, unit) dprog" where
  "emit e = modify_st (dm_trace_update (\<lambda>t. t @ [e]))"

definition halt :: "halt \<Rightarrow> ('w, 'k, 'j, unit) dprog" where
  "halt h = modify_st (dm_halted_update (\<lambda>_. Some h))"

definition d_millis :: "('w, 'k, 'j, 'e) denv_scheme \<Rightarrow> ('w, 'k, 'j, u32) dprog" where
  "d_millis E = dx (e_millis E)"

definition now_ms :: "('w, 'k, 'j, 'e) denv_scheme \<Rightarrow> ('w, 'k, 'j, ms64) dprog" where
  "now_ms E = dx (e_now_ms E)"

definition d_delay :: "('w, 'k, 'j, 'e) denv_scheme \<Rightarrow> u32 \<Rightarrow> ('w, 'k, 'j, unit) dprog" where
  "d_delay E ms = do { modify_st (\<lambda>s. s\<lparr>dm_world := e_delay E ms (dm_world s)\<rparr>); emit (Ev_delay ms) }"

definition d_alloc :: "('w, 'k, 'j, 'e) denv_scheme \<Rightarrow> nat \<Rightarrow> ('w, 'k, 'j, bool) dprog" where
  "d_alloc E n = dx (e_alloc E n)"

text \<open>\<open>strdup\<close>: NULL without memory.\<close>

definition d_strdup :: "('w, 'k, 'j, 'e) denv_scheme \<Rightarrow> string \<Rightarrow> ('w, 'k, 'j, string option) dprog" where
  "d_strdup E x = do { ok \<leftarrow> d_alloc E (length x + 1); ret (if ok then Some x else None) }"

text \<open>\<open>if (p) q = strdup(p)\<close>.\<close>

definition d_dup :: "('w, 'k, 'j, 'e) denv_scheme \<Rightarrow> string option \<Rightarrow> ('w, 'k, 'j, string option) dprog" where
  "d_dup E p = (case p of None \<Rightarrow> ret None | Some x \<Rightarrow> d_strdup E x)"

definition set_daemon_state :: "daemon_state \<Rightarrow> ('w, 'k, 'j, unit) dprog" where
  "set_daemon_state st = modify_st (dm_state_update (\<lambda>_. st))"

text \<open>\<open>_setError\<close>: the message fits a buffer of 128 bytes.\<close>

definition setError :: "string \<Rightarrow> ('w, 'k, 'j, unit) dprog" where
  "setError msg = modify_st (dm_last_error_update (\<lambda>_. fit 128 msg))"

definition upd_relay_at :: "nat \<Rightarrow> ('k relay \<Rightarrow> 'k relay) \<Rightarrow> ('w, 'k, 'j, unit) dprog" where
  "upd_relay_at i f = modify_st (\<lambda>s. s\<lparr>dm_relays := (dm_relays s)[i := f (dm_relays s ! i)]\<rparr>)"

definition upd_key_at :: "nat \<Rightarrow> (client_key \<Rightarrow> client_key) \<Rightarrow> ('w, 'k, 'j, unit) dprog" where
  "upd_key_at i f = modify_st (\<lambda>s. s\<lparr>dm_client_keys := (dm_client_keys s)[i := f (dm_client_keys s ! i)]\<rparr>)"

lemma dprog_simps [simp]:
  "res (dx f) s = fst (f (dm_world s))"
  "post (dx f) s = s\<lparr>dm_world := snd (f (dm_world s))\<rparr>"
  "post (emit e) s = s\<lparr>dm_trace := dm_trace s @ [e]\<rparr>"
  "post (halt h) s = s\<lparr>dm_halted := Some h\<rparr>"
  "post (set_daemon_state st) s = s\<lparr>dm_state := st\<rparr>"
  "post (setError msg) s = s\<lparr>dm_last_error := fit 128 msg\<rparr>"
  "post (upd_relay_at i g) s = s\<lparr>dm_relays := (dm_relays s)[i := g (dm_relays s ! i)]\<rparr>"
  "post (upd_key_at i h') s = s\<lparr>dm_client_keys := (dm_client_keys s)[i := h' (dm_client_keys s ! i)]\<rparr>"
  by (simp_all add: dx_def emit_def halt_def set_daemon_state_def setError_def upd_relay_at_def upd_key_at_def
      res_def post_def case_prod_beta)

subsection \<open>JSON under construction\<close>

text \<open>The fields of an object under construction, or NULL when it could not be created. An addition whose
  result is not checked leaves the field out when there is no memory or nothing to add.\<close>

type_synonym 'j fields = "(string \<times> 'j) list option"

definition new_object :: "('w, 'k, 'j, 'e) denv_scheme \<Rightarrow> ('w, 'k, 'j, 'j fields) dprog" where
  "new_object E = do { ok \<leftarrow> d_alloc E 1; ret (if ok then Some [] else None) }"

definition add_item :: "('w, 'k, 'j, 'e) denv_scheme \<Rightarrow> string \<Rightarrow> 'j option \<Rightarrow> 'j fields \<Rightarrow> ('w, 'k, 'j, 'j fields) dprog" where
  "add_item E name v obj = do {
     ok \<leftarrow> d_alloc E 1;
     ret (case (obj, v) of (Some fs, Some j) \<Rightarrow> if ok then Some (fs @ [(name, j)]) else obj | _ \<Rightarrow> obj) }"

definition add_str :: "('w, 'k, 'j, 'e) denv_scheme \<Rightarrow> string \<Rightarrow> string option \<Rightarrow> 'j fields \<Rightarrow> ('w, 'k, 'j, 'j fields) dprog" where
  "add_str E name v obj = add_item E name (map_option (cj_mk_string (e_cj E)) v) obj"

definition add_bool :: "('w, 'k, 'j, 'e) denv_scheme \<Rightarrow> string \<Rightarrow> bool \<Rightarrow> 'j fields \<Rightarrow> ('w, 'k, 'j, 'j fields) dprog" where
  "add_bool E name b obj = add_item E name (Some (cj_mk_bool (e_cj E) b)) obj"

definition object_of :: "('w, 'k, 'j, 'e) denv_scheme \<Rightarrow> 'j fields \<Rightarrow> 'j option" where
  "object_of E obj = map_option (cj_mk_object (e_cj E)) obj"

text \<open>\<open>cJSON_PrintUnformatted\<close>: NULL for NULL, or without memory.\<close>

definition print_unformatted :: "('w, 'k, 'j, 'e) denv_scheme \<Rightarrow> 'j option \<Rightarrow> ('w, 'k, 'j, string option) dprog" where
  "print_unformatted E v = do {
     ok \<leftarrow> d_alloc E 1;
     ret (case v of None \<Rightarrow> None | Some j \<Rightarrow> if ok then Some (e_print_json E j) else None) }"

definition str_field :: "'j cjson \<Rightarrow> 'j option \<Rightarrow> string \<Rightarrow> string option" where
  "str_field cj obj name = GetStringValue cj (GetObjectItem cj obj name)"

section \<open>Relations kept by the daemon's operations\<close>

text \<open>\<open>log_only P s s'\<close>: from \<open>s\<close> to \<open>s'\<close> only events satisfying \<open>P\<close> happened.\<close>

definition log_only :: "(ev \<Rightarrow> bool) \<Rightarrow> ('w, 'k, 'j) daemon \<Rightarrow> ('w, 'k, 'j) daemon \<Rightarrow> bool" where
  "log_only P s s' \<longleftrightarrow> (\<exists>tr. dm_trace s' = dm_trace s @ tr \<and> (\<forall>e \<in> set tr. P e))"

lemma log_only_preorder [io_rule]: "preorder_rel (log_only P)"
proof (rule preorder_relI)
  fix s t u :: "('w, 'k, 'j) daemon"
  show "log_only P s s" by (simp add: log_only_def)
  assume "log_only P s t" "log_only P t u"
  then obtain a b where "dm_trace t = dm_trace s @ a" "\<forall>e \<in> set a. P e" "dm_trace u = dm_trace t @ b" "\<forall>e \<in> set b. P e"
    unfolding log_only_def by blast
  then show "log_only P s u" unfolding log_only_def by (intro exI [of _ "a @ b"]) auto
qed

lemma log_only_prims [io_intro]:
  "state_io_rel (log_only P) (dx f)" "state_io_rel (log_only P) (halt h)" "state_io_rel (log_only P) (set_daemon_state st)"
  "state_io_rel (log_only P) (setError msg)" "state_io_rel (log_only P) (upd_relay_at i g)" "state_io_rel (log_only P) (upd_key_at i k)"
  "state_io_rel (log_only P) (d_millis E)" "state_io_rel (log_only P) (now_ms E)" "state_io_rel (log_only P) (d_alloc E n)"
  by (simp_all add: state_io_rel_post log_only_def d_millis_def now_ms_def d_alloc_def)

lemma log_only_emit: "P e \<Longrightarrow> state_io_rel (log_only P) (emit e)"
  by (simp add: state_io_rel_post log_only_def)

lemma log_only_modify: "(\<And>s. dm_trace (f s) = dm_trace s) \<Longrightarrow> state_io_rel (log_only P) (modify_st f)"
  by (simp add: state_io_rel_post log_only_def)

end
