(* ===== verification/Relay_Api.thy ===== *)
theory Relay_Api
  imports Daemon_Types
begin

text \<open>
  The functions of \<open>noports_relay.cpp\<close> the daemon calls: starting and stopping the relay of a slot,
  asking whether it runs, and the number of sub-connections a client may have.
\<close>

text \<open>\<open>memset(&config, 0, sizeof)\<close>.\<close>

definition zero_relay_config :: relay_config where
  "zero_relay_config = noports_relay_config_init\<lparr>rc_local_host := None\<rparr>"

section \<open>Starting\<close>

text \<open>The copies the relay owns. The AES keys, the auth string and the signing key are the caller's
  pointers.\<close>

definition copy_relay_config ::
  "('w, 'k, 'j, 'e) denv_scheme \<Rightarrow> relay_config \<Rightarrow> ('w, 'k, 'j, relay_config) dprog" where
  "copy_relay_config E cfg = do {
     rvd \<leftarrow> d_dup E (rc_rvd_host cfg);
     loc \<leftarrow> d_dup E (rc_local_host cfg);
     aes \<leftarrow> d_dup E (rc_relay_auth_aes_key cfg);
     uri \<leftarrow> d_dup E (rc_escr_signing_key_uri cfg);
     ret (cfg\<lparr>rc_rvd_host := rvd, rc_local_host := loc, rc_relay_auth_aes_key := aes, rc_escr_signing_key_uri := uri\<rparr>) }"

definition fresh_relay :: "relay_config \<Rightarrow> 'k relay \<Rightarrow> 'k relay" where
  "fresh_relay cfg r = r\<lparr>rl_rvd_client := None, rl_local_client := None, rl_config := cfg, rl_state := RELAY_IDLE,
     rl_should_run := True, rl_bytes_in := 0, rl_bytes_out := 0, rl_start_ms := 0, rl_encrypter := None, rl_decrypter := None\<rparr>"

text \<open>The decrypter of the control channel. False when it could not be set up.\<close>

definition ctrl_decrypter ::
  "('w, 'k, 'j, 'e) denv_scheme \<Rightarrow> nat \<Rightarrow> relay_config \<Rightarrow> ('w, 'k, 'j, bool) dprog" where
  "ctrl_decrypter E i cfg =
     (case (rc_session_aes_key cfg, rc_session_iv cfg) of
        (Some k, Some iv) \<Rightarrow>
          if rc_rv_e2ee cfg then do {
            ok \<leftarrow> d_alloc E 1;
            case (if ok then init_aes_ctr_state (e_mb E) k iv else None) of
              None \<Rightarrow> ret False
            | Some d \<Rightarrow> do { upd_relay_at i (\<lambda>r. r\<lparr>rl_decrypter := Some d, rl_encrypter := None\<rparr>); ret True } }
          else ret True
      | _ \<Rightarrow> ret True)"

definition abandon_relay :: "'k relay \<Rightarrow> 'k relay" where
  "abandon_relay r = r\<lparr>rl_encrypter := None, rl_decrypter := None,
     rl_config := (rl_config r)\<lparr>rc_rvd_host := None, rc_local_host := None, rc_relay_auth_aes_key := None,
       rc_escr_signing_key_uri := None\<rparr>\<rparr>"

definition noports_relay_start ::
  "('w, 'k, 'j, 'e) denv_scheme \<Rightarrow> nat \<Rightarrow> relay_config \<Rightarrow> ('w, 'k, 'j, bool) dprog" where
  "noports_relay_start E i cfg = do {
     own \<leftarrow> copy_relay_config E cfg;
     upd_relay_at i (fresh_relay own);
     ok \<leftarrow> ctrl_decrypter E i cfg;
     if \<not> ok then ret False
     else do {
       h \<leftarrow> dx (d_task_create E);
       case h of
         None \<Rightarrow> do { upd_relay_at i abandon_relay; ret False }
       | Some t \<Rightarrow> do {
           upd_relay_at i (rl_task_handle_update (\<lambda>_. Some t));
           emit (Ev_relay_start i own);
           ret True } } }"

section \<open>Stopping and asking\<close>

definition noports_relay_stop :: "nat \<Rightarrow> ('w, 'k, 'j, unit) dprog" where
  "noports_relay_stop i = do { upd_relay_at i (rl_should_run_update (\<lambda>_. False)); emit (Ev_relay_stop i) }"

definition live_state :: "relay_state \<Rightarrow> bool" where
  "live_state st \<longleftrightarrow> st = RELAY_RUNNING \<or> st = RELAY_CONNECTING \<or> st = RELAY_AUTHENTICATING"

text \<open>A task that is gone without having said so is written off.\<close>

definition noports_relay_is_running :: "('w, 'k, 'j, 'e) denv_scheme \<Rightarrow> nat \<Rightarrow> ('w, 'k, 'j, bool) dprog" where
  "noports_relay_is_running E i = do {
     r \<leftarrow> gets (\<lambda>s. dm_relays s ! i);
     case rl_task_handle r of
       None \<Rightarrow> ret (live_state (rl_state r))
     | Some t \<Rightarrow> do {
         gone \<leftarrow> dx (d_task_gone E t);
         if gone then do {
           upd_relay_at i (\<lambda>r. r\<lparr>rl_state := RELAY_STOPPED, rl_task_handle := None\<rparr>);
           ret False }
         else ret (live_state (rl_state r)) } }"

section \<open>Sub-connections per client\<close>

text \<open>C's division truncates towards zero.\<close>

definition noports_relay_subs_for_clients :: "u8 \<Rightarrow> u8" where
  "noports_relay_subs_for_clients n_clients =
     (let n1 = (if n_clients < 1 then 1 else n_clients);
          d = int (unat n1) * 2;
          v = int MAX_RELAY_PCBS - int (unat n1);
          n = (if v \<ge> 0 then v div d else - (- v div d));
          n2 = (if n < 1 then 1 else n);
          n3 = (if n2 > int MAX_RELAY_SUBS then int MAX_RELAY_SUBS else n2)
      in word_of_int n3)"

section \<open>Facts\<close>

lemma relay_api_quiet [io_intro]:
  "state_io_rel (log_only P) (noports_relay_is_running E i)" "state_io_rel (log_only P) (d_strdup E x)"
  "state_io_rel (log_only P) (d_dup E y)" "state_io_rel (log_only P) (copy_relay_config E cfg)" "state_io_rel (log_only P) (ctrl_decrypter E i cfg)"
  unfolding noports_relay_is_running_def d_strdup_def d_dup_def copy_relay_config_def ctrl_decrypter_def
  by (intro io_rule io_intro | simp split: prod.splits option.splits)+

lemma relay_stop_log [io_intro]: "P (Ev_relay_stop i) \<Longrightarrow> state_io_rel (log_only P) (noports_relay_stop i)"
  unfolding noports_relay_stop_def by (intro io_rule io_intro log_only_emit)

text \<open>What a started relay gets is what it was given, with copies of four strings that may be missing
  when memory is short.\<close>

definition copied :: "string option \<Rightarrow> string option \<Rightarrow> bool" where
  "copied x y \<longleftrightarrow> y = x \<or> y = None"

definition given_config :: "relay_config \<Rightarrow> relay_config \<Rightarrow> bool" where
  "given_config cfg own \<longleftrightarrow>
     copied (rc_rvd_host cfg) (rc_rvd_host own) \<and> copied (rc_local_host cfg) (rc_local_host own) \<and>
     copied (rc_relay_auth_aes_key cfg) (rc_relay_auth_aes_key own) \<and>
     copied (rc_escr_signing_key_uri cfg) (rc_escr_signing_key_uri own) \<and>
     own = cfg\<lparr>rc_rvd_host := rc_rvd_host own, rc_local_host := rc_local_host own,
       rc_relay_auth_aes_key := rc_relay_auth_aes_key own, rc_escr_signing_key_uri := rc_escr_signing_key_uri own\<rparr>"

lemma dup_copied: "copied x (res (d_dup E x) s)"
  by (auto simp: copied_def d_dup_def d_strdup_def split: option.splits)

lemma copy_relay_config_given: "given_config cfg (res (copy_relay_config E cfg) s)"
  by (simp add: given_config_def copy_relay_config_def dup_copied)

end
