(* ===== verification/Daemon_Net.thy ===== *)
theory Daemon_Net
  imports Relay_Api
begin

text \<open>
  The daemon's two connections to its atServer: authentication and the monitor at start-up, keeping
  the atServer's address current, reconnecting with a growing pause (and a restart of the chip after
  ten failures), and the notification that is tried again once over a fresh connection. Counters and
  calls that only feed log lines are left out.
\<close>

section \<open>Addresses\<close>

definition server_options :: "('w, 'k, 'j) daemon \<Rightarrow> auth_options" where
  "server_options s =
     (if dm_atserver_host s \<noteq> [] then
        \<lparr>ao_atserver = Some (dm_atserver_host s, dm_atserver_port s), ao_atdirectory = None\<rparr>
      else \<lparr>ao_atserver = None, ao_atdirectory = Some (dm_root_host s, dm_root_port s)\<rparr>)"

definition push_address :: "('w, 'k, 'j) daemon \<Rightarrow> auth_options option \<Rightarrow> auth_options option" where
  "push_address s o' = map_option (ao_atserver_update (\<lambda>_. Some (dm_atserver_host s, dm_atserver_port s))) o'"

text \<open>The options of a connection; they are never NULL once \<open>_authenticate\<close> has made them.\<close>

definition the_options :: "auth_options option \<Rightarrow> auth_options" where
  "the_options o' = (case o' of None \<Rightarrow> \<lparr>ao_atserver = None, ao_atdirectory = None\<rparr> | Some x \<Rightarrow> x)"

definition refreshAtServerCache :: "('w, 'k, 'j, 'e) denv_scheme \<Rightarrow> ('w, 'k, 'j, bool) dprog" where
  "refreshAtServerCache E = do {
     s \<leftarrow> get_st;
     if dm_via_proxy s then ret False
     else do {
       (r, host, port) \<leftarrow> dx (d_lookup_once E (dm_root_host s) (dm_root_port s) (my_atsign (dm_config s)));
       case host of
         None \<Rightarrow> ret False
       | Some h \<Rightarrow>
           if r \<noteq> 0 \<or> port = 0 then ret False
           else if dm_atserver_host s = h \<and> dm_atserver_port s = port then ret False
           else do {
             modify_st (\<lambda>s. s\<lparr>dm_atserver_host := fit 254 h, dm_atserver_port := port\<rparr>);
             modify_st (\<lambda>s. s\<lparr>dm_monitor_options := push_address s (dm_monitor_options s),
               dm_worker_options := push_address s (dm_worker_options s)\<rparr>);
             ret True } } }"

section \<open>Starting up\<close>

definition authenticate_client :: "('w, 'k, 'j, 'e) denv_scheme \<Rightarrow> client \<Rightarrow> ('w, 'k, 'j, int) dprog" where
  "authenticate_client E c = do {
     s \<leftarrow> get_st;
     emit (Ev_authenticate c);
     dx (d_pkam_authenticate E c (my_atsign (dm_config s))
       (the_options (case c of Monitor \<Rightarrow> dm_monitor_options s | Worker \<Rightarrow> dm_worker_options s))) }"

definition authenticate_monitor :: "('w, 'k, 'j, 'e) denv_scheme \<Rightarrow> ('w, 'k, 'j, bool) dprog" where
  "authenticate_monitor E = do {
     ok \<leftarrow> d_alloc E 1;
     if \<not> ok then do { setError ''Failed to allocate monitor client''; ret False }
     else do {
       modify_st (dm_monitor_ctx_update (\<lambda>_. True));
       ok2 \<leftarrow> d_alloc E 1;
       if \<not> ok2 then do { setError ''Failed to allocate monitor options''; ret False }
       else do {
         modify_st (\<lambda>s. s\<lparr>dm_monitor_options := Some (server_options s)\<rparr>);
         r \<leftarrow> authenticate_client E Monitor;
         if r \<noteq> 0 then do { setError ''Monitor PKAM auth failed''; ret False } else ret True } } }"

definition authenticate_worker :: "('w, 'k, 'j, 'e) denv_scheme \<Rightarrow> ('w, 'k, 'j, bool) dprog" where
  "authenticate_worker E = do {
     ok \<leftarrow> d_alloc E 1;
     if \<not> ok then do { setError ''Failed to allocate worker client''; ret False }
     else do {
       modify_st (dm_worker_ctx_update (\<lambda>_. True));
       ok2 \<leftarrow> d_alloc E 1;
       if \<not> ok2 then do { setError ''Failed to allocate worker options''; ret False }
       else do {
         modify_st (\<lambda>s. s\<lparr>dm_worker_options := Some (server_options s)\<rparr>);
         r \<leftarrow> authenticate_client E Worker;
         if r \<noteq> 0 then do { setError ''Worker PKAM auth failed''; ret False } else ret True } } }"

text \<open>\<open>_authenticate\<close>.\<close>

definition authenticate :: "('w, 'k, 'j, 'e) denv_scheme \<Rightarrow> ('w, 'k, 'j, bool) dprog" where
  "authenticate E = do {
     ok \<leftarrow> authenticate_monitor E;
     if ok then authenticate_worker E else ret False }"

definition monitor_regex :: "np_config \<Rightarrow> string" where
  "monitor_regex cfg = (if policy_mode cfg then [] else ''.'' @ NOPORTS_NS @ ''@'')"

definition startMonitor :: "('w, 'k, 'j, 'e) denv_scheme \<Rightarrow> ('w, 'k, 'j, bool) dprog" where
  "startMonitor E = do {
     cfg \<leftarrow> gets dm_config;
     ok \<leftarrow> d_alloc E (length (monitor_regex cfg) + 1);
     if \<not> ok then do { setError ''Failed to allocate monitor regex''; ret False }
     else do {
       modify_st (dm_monitor_regex_update (\<lambda>_. Some (monitor_regex cfg)));
       r \<leftarrow> dx (d_monitor_start E (monitor_regex cfg));
       if r \<noteq> 0 then do { setError ''Failed to start monitor''; ret False } else ret True } }"

section \<open>Reconnecting\<close>

definition heap_ready :: "('w, 'k, 'j, 'e) denv_scheme \<Rightarrow> ('w, 'k, 'j, bool) dprog" where
  "heap_ready E = do {
     total \<leftarrow> dx (e_free_heap E);
     largest \<leftarrow> dx (e_largest_block E);
     pcbs \<leftarrow> dx (d_pcb_count E);
     ret (total \<ge> NOPORTS_TLS_MIN_FREE_HEAP \<and> (largest \<ge> NOPORTS_TLS_MIN_CONTIGUOUS_HEAP \<or> pcbs \<le> 1)) }"

text \<open>At most 30 seconds, in steps of 200 ms: 151 rounds are enough when the clock keeps up with the
  delays.\<close>

fun wait_heap :: "nat \<Rightarrow> ('w, 'k, 'j, 'e) denv_scheme \<Rightarrow> u32 \<Rightarrow> ('w, 'k, 'j, unit) dprog" where
  "wait_heap 0 E ws = do {
     now \<leftarrow> d_millis E;
     when_st (now - ws < 30000) (modify_st (dm_diverged_update (\<lambda>_. True))) }"
| "wait_heap (Suc fuel) E ws = do {
     now \<leftarrow> d_millis E;
     if now - ws < 30000 then do {
       ok \<leftarrow> heap_ready E;
       if ok then ret () else do { d_delay E 200; wait_heap fuel E ws } }
     else ret () }"

definition await_heap :: "('w, 'k, 'j, 'e) denv_scheme \<Rightarrow> ('w, 'k, 'j, unit) dprog" where
  "await_heap E = do {
     pcbs \<leftarrow> dx (d_pcb_count E);
     when_st (pcbs \<le> 1) (do { ws \<leftarrow> d_millis E; wait_heap (e_fuel E) E ws }) }"

text \<open>An authentication, and one more when the atServer turns out to have moved. The result is the last
  one's.\<close>

definition reauthenticate :: "('w, 'k, 'j, 'e) denv_scheme \<Rightarrow> client \<Rightarrow> ('w, 'k, 'j, int) dprog" where
  "reauthenticate E c = do {
     r \<leftarrow> authenticate_client E c;
     if r = 0 then ret r
     else do {
       moved \<leftarrow> refreshAtServerCache E;
       if moved then authenticate_client E c else ret r } }"

definition note_failure :: "('w, 'k, 'j, unit) dprog" where
  "note_failure = modify_st (dm_reconnect_failures_update (\<lambda>n. if n < 255 then n + 1 else n))"

datatype reconnection = Reconnected | Reconnect_failed | Rebooting

text \<open>The pause before attempt number \<open>n + 1\<close>: 5, 10, 20, 30, 30 ... seconds.\<close>

definition backoff_ms :: "u8 \<Rightarrow> u32" where
  "backoff_ms n = (let b = push_bit (unat n - 1) 5000 in if b > 30000 then 30000 else b)"

definition reconnectMonitor :: "('w, 'k, 'j, 'e) denv_scheme \<Rightarrow> ('w, 'k, 'j, reconnection) dprog" where
  "reconnectMonitor E = do {
     n \<leftarrow> gets dm_reconnect_failures;
     if n \<ge> NOPORTS_MAX_RECONNECT_FAILURES then do {
       d_delay E 1000;
       emit Ev_restart;
       halt Restart;
       ret Rebooting }
     else do {
       when_st (n > 0) (d_delay E (backoff_ms n));
       await_heap E;
       r \<leftarrow> reauthenticate E Monitor;
       if r \<noteq> 0 then do { note_failure; ret Reconnect_failed }
       else do {
         rx' \<leftarrow> gets dm_monitor_regex;
         r2 \<leftarrow> dx (d_monitor_start E (case rx' of None \<Rightarrow> [] | Some x \<Rightarrow> x));
         if r2 \<noteq> 0 then do { note_failure; ret Reconnect_failed }
         else do {
           modify_st (dm_reconnect_failures_update (\<lambda>_. 0));
           ret Reconnected } } } }"

definition worker_used :: "('w, 'k, 'j, 'e) denv_scheme \<Rightarrow> ('w, 'k, 'j, unit) dprog" where
  "worker_used E = do { now \<leftarrow> d_millis E; modify_st (dm_worker_last_used_ms_update (\<lambda>_. now)) }"

definition reconnectWorker :: "('w, 'k, 'j, 'e) denv_scheme \<Rightarrow> ('w, 'k, 'j, bool) dprog" where
  "reconnectWorker E = do {
     await_heap E;
     r \<leftarrow> reauthenticate E Worker;
     if r \<noteq> 0 then do { note_failure; ret False }
     else do { worker_used E; ret True } }"

section \<open>Notifications\<close>

text \<open>\<open>atclient_notify\<close>. The event records the attempt.\<close>

definition notify :: "('w, 'k, 'j, 'e) denv_scheme \<Rightarrow> string \<Rightarrow> string \<Rightarrow> string option \<Rightarrow> ('w, 'k, 'j, int) dprog" where
  "notify E to' name v = do { emit (Ev_notify to' name v); dx (d_notify E to' name v) }"

definition notifyWithRetry ::
  "('w, 'k, 'j, 'e) denv_scheme \<Rightarrow> string \<Rightarrow> string \<Rightarrow> string option \<Rightarrow> ('w, 'k, 'j, int) dprog" where
  "notifyWithRetry E to' name v = do {
     r \<leftarrow> notify E to' name v;
     r2 \<leftarrow> (if r \<noteq> 0 then do {
              ok \<leftarrow> reconnectWorker E;
              if ok then notify E to' name v else ret r }
            else ret r);
     when_st (r2 = 0) (worker_used E);
     ret r2 }"

section \<open>Facts\<close>

text \<open>What these operations may report.\<close>

fun net_event :: "ev \<Rightarrow> bool" where
  "net_event (Ev_authenticate c) = True"
| "net_event (Ev_delay n) = True"
| "net_event Ev_restart = True"
| "net_event (Ev_notify to' name v) = True"
| "net_event (Ev_ping a) = True"
| "net_event _ = False"

text \<open>An operation that only talks to the atServer: the configuration, the relays, the client keys, the
  policy state and the keys stay as they are.\<close>

definition net_step :: "('w, 'k, 'j) daemon \<Rightarrow> ('w, 'k, 'j) daemon \<Rightarrow> bool" where
  "net_step s s' \<longleftrightarrow> (\<exists>tr. dm_trace s' = dm_trace s @ tr \<and> (\<forall>e \<in> set tr. net_event e)) \<and>
     dm_config s' = dm_config s \<and> dm_relays s' = dm_relays s \<and> dm_client_keys s' = dm_client_keys s \<and>
     dm_pending s' = dm_pending s \<and> dm_decisions s' = dm_decisions s \<and> dm_cooldown s' = dm_cooldown s \<and>
     dm_signing_key s' = dm_signing_key s \<and> dm_pkam_signing_key s' = dm_pkam_signing_key s \<and>
     dm_max_relays s' = dm_max_relays s \<and> dm_req_counter s' = dm_req_counter s \<and>
     dm_ping_response s' = dm_ping_response s \<and> dm_state s' = dm_state s \<and> dm_should_run s' = dm_should_run s \<and>
     dm_timeout_counter s' = dm_timeout_counter s \<and> dm_via_proxy s' = dm_via_proxy s"

lemma net_step_preorder [io_rule]: "preorder_rel net_step"
proof (rule preorder_relI)
  fix s t u :: "('w, 'k, 'j) daemon"
  show "net_step s s" by (simp add: net_step_def)
  assume st: "net_step s t" and tu: "net_step t u"
  obtain a where a: "dm_trace t = dm_trace s @ a" "\<forall>e \<in> set a. net_event e" using st unfolding net_step_def by blast
  obtain b where b: "dm_trace u = dm_trace t @ b" "\<forall>e \<in> set b. net_event e" using tu unfolding net_step_def by blast
  have "\<exists>tr. dm_trace u = dm_trace s @ tr \<and> (\<forall>e \<in> set tr. net_event e)"
    using a b by (intro exI [of _ "a @ b"]) auto
  then show "net_step s u" using st tu unfolding net_step_def by simp
qed

lemma net_step_quiet: "dm_trace s' = dm_trace s \<Longrightarrow> net_step s s' \<longleftrightarrow>
     dm_config s' = dm_config s \<and> dm_relays s' = dm_relays s \<and> dm_client_keys s' = dm_client_keys s \<and>
     dm_pending s' = dm_pending s \<and> dm_decisions s' = dm_decisions s \<and> dm_cooldown s' = dm_cooldown s \<and>
     dm_signing_key s' = dm_signing_key s \<and> dm_pkam_signing_key s' = dm_pkam_signing_key s \<and>
     dm_max_relays s' = dm_max_relays s \<and> dm_req_counter s' = dm_req_counter s \<and>
     dm_ping_response s' = dm_ping_response s \<and> dm_state s' = dm_state s \<and> dm_should_run s' = dm_should_run s \<and>
     dm_timeout_counter s' = dm_timeout_counter s \<and> dm_via_proxy s' = dm_via_proxy s"
  by (simp add: net_step_def)

lemma net_step_modify: "(\<And>s. dm_trace (f s) = dm_trace s \<and> net_step s (f s)) \<Longrightarrow> state_io_rel net_step (modify_st f)"
  by (simp add: state_io_rel_post)

lemma net_step_emit: "net_event e \<Longrightarrow> state_io_rel net_step (emit e)"
  by (simp add: state_io_rel_post net_step_def)

lemma net_step_prims [io_intro]:
  "state_io_rel net_step (dx f)" "state_io_rel net_step (halt h)" "state_io_rel net_step (setError msg)"
  "state_io_rel net_step (d_millis E)" "state_io_rel net_step (now_ms E)" "state_io_rel net_step (d_alloc E n)"
  "state_io_rel net_step (d_strdup E x)" "state_io_rel net_step (d_dup E y)" "state_io_rel net_step (new_object E)"
  "state_io_rel net_step (add_item E name v obj)" "state_io_rel net_step (add_str E name sv obj)"
  "state_io_rel net_step (add_bool E name b obj)" "state_io_rel net_step (print_unformatted E v)"
  unfolding d_millis_def now_ms_def d_alloc_def d_strdup_def d_dup_def new_object_def add_item_def add_str_def add_bool_def
    print_unformatted_def
  by (simp_all add: state_io_rel_post net_step_quiet split: option.splits)

lemma net_step_delay [io_intro]: "state_io_rel net_step (d_delay E ms)"
  unfolding d_delay_def by (simp add: state_io_rel_post net_step_def)

lemma net_step_refresh [io_intro]: "state_io_rel net_step (refreshAtServerCache E)"
  unfolding refreshAtServerCache_def
  by (intro io_rule io_intro net_step_modify conjI; simp add: net_step_quiet)

lemma net_step_authenticate_client [io_intro]: "state_io_rel net_step (authenticate_client E c)"
  unfolding authenticate_client_def by (intro io_rule io_intro net_step_emit) simp

lemma net_step_wait_heap [io_intro]: "state_io_rel net_step (wait_heap fuel E ws)"
proof (induction fuel)
  case 0
  show ?case by (simp, intro io_rule io_intro net_step_modify) (simp add: net_step_quiet)
next
  case (Suc fuel)
  then show ?case unfolding wait_heap.simps heap_ready_def by (intro io_rule io_intro)
qed

lemma net_step_reconnect [io_intro]:
  "state_io_rel net_step (await_heap E)" "state_io_rel net_step (reauthenticate E c)" "state_io_rel net_step note_failure"
  "state_io_rel net_step (worker_used E)"
  unfolding await_heap_def reauthenticate_def note_failure_def worker_used_def
  by (intro io_rule io_intro net_step_modify conjI; simp add: net_step_quiet)+

lemma net_step_reconnectMonitor [io_intro]: "state_io_rel net_step (reconnectMonitor E)"
  unfolding reconnectMonitor_def
  by (intro io_rule io_intro net_step_modify net_step_emit conjI; simp add: net_step_quiet)

lemma net_step_reconnectWorker [io_intro]: "state_io_rel net_step (reconnectWorker E)"
  unfolding reconnectWorker_def by (intro io_rule io_intro)

lemma net_step_notify [io_intro]: "state_io_rel net_step (notify E to' name v)"
  unfolding notify_def by (intro io_rule io_intro net_step_emit) simp

lemma net_step_notifyWithRetry [io_intro]: "state_io_rel net_step (notifyWithRetry E to' name v)"
  unfolding notifyWithRetry_def by (intro io_rule io_intro)

lemma net_step_start [io_intro]: "state_io_rel net_step (authenticate E)" "state_io_rel net_step (startMonitor E)"
  unfolding authenticate_def authenticate_monitor_def authenticate_worker_def startMonitor_def
  by (intro io_rule io_intro net_step_modify conjI; simp add: net_step_quiet)+

end
