(* ===== verification/Daemon_Replies.thy ===== *)
theory Daemon_Replies
  imports Daemon_Net
begin

text \<open>
  What the daemon sends of its own: the error reply to a client, the heartbeat that answers a ping and
  its prepared content, the public signing key and the device information it publishes when it
  starts.
\<close>

section \<open>Error replies\<close>

text \<open>The key of every reply about a session.\<close>

definition reply_name :: "np_config \<Rightarrow> string \<Rightarrow> string" where
  "reply_name cfg session_id = session_id @ ''.'' @ my_device cfg"

definition sendNptError ::
  "('w, 'k, 'j, 'e) denv_scheme \<Rightarrow> string option \<Rightarrow> string option \<Rightarrow> string \<Rightarrow> ('w, 'k, 'j, unit) dprog" where
  "sendNptError E to_atsign session_id error_msg =
     (case (to_atsign, session_id) of
        (Some to', Some sid) \<Rightarrow> do {
          cfg \<leftarrow> gets dm_config;
          ok \<leftarrow> d_alloc E (length sid + length (my_device cfg) + 2);
          when_st ok (do {
            _ \<leftarrow> dx (d_create_key E (reply_name cfg sid) to');
            _ \<leftarrow> notifyWithRetry E to' (reply_name cfg sid) (Some error_msg);
            ret () }) }
      | _ \<Rightarrow> ret ())"

section \<open>Pings\<close>

definition heartbeat_name :: "np_config \<Rightarrow> string" where
  "heartbeat_name cfg = ''heartbeat.'' @ my_device cfg"

definition handlePingAuthorized :: "('w, 'k, 'j, 'e) denv_scheme \<Rightarrow> string \<Rightarrow> ('w, 'k, 'j, unit) dprog" where
  "handlePingAuthorized E from_atsign = do {
     s \<leftarrow> get_st;
     let cfg = dm_config s;
     r \<leftarrow> dx (d_create_key E (heartbeat_name cfg) from_atsign);
     if r \<noteq> 0 then ret ()
     else do {
       _ \<leftarrow> notifyWithRetry E from_atsign (heartbeat_name cfg) (dm_ping_response s);
       when_st (cf_on_ping cfg) (emit (Ev_ping from_atsign)) } }"

text \<open>The features a device offers.\<close>

definition ping_features :: "('w, 'k, 'j) daemon \<Rightarrow> (string \<times> bool) list" where
  "ping_features s =
     [(''srAuth'', True), (''srE2ee'', True), (''acceptsPublicKeys'', False), (''supportsPortChoice'', True),
      (''adjustableTimeout'', True), (''controlChannelHeartbeats'', True),
      (''supportsRamEscr'', dm_pkam_signing_key s \<noteq> None \<and> cf_enrollment_id (dm_config s) \<noteq> None),
      (''twinKeys'', True)]"

fun add_bools ::
  "('w, 'k, 'j, 'e) denv_scheme \<Rightarrow> (string \<times> bool) list \<Rightarrow> 'j fields \<Rightarrow> ('w, 'k, 'j, 'j fields) dprog" where
  "add_bools E [] obj = ret obj"
| "add_bools E ((n, b) # xs) obj = do { obj' \<leftarrow> add_bool E n b obj; add_bools E xs obj' }"

definition permit_text :: "string \<times> u16 \<Rightarrow> string" where
  "permit_text p = fst p @ '':'' @ dec_nat (unat (snd p))"

text \<open>An array under construction: a string that could not be created is not added.\<close>

fun add_elements :: "('w, 'k, 'j, 'e) denv_scheme \<Rightarrow> string list \<Rightarrow> 'j list option \<Rightarrow> ('w, 'k, 'j, 'j list option) dprog" where
  "add_elements E [] arr = ret arr"
| "add_elements E (x # xs) arr = do {
     ok \<leftarrow> d_alloc E 1;
     add_elements E xs (case arr of None \<Rightarrow> None | Some js \<Rightarrow> Some (if ok then js @ [cj_mk_string (e_cj E) x] else js)) }"

definition signing_key_uri :: "np_config \<Rightarrow> string \<Rightarrow> string" where
  "signing_key_uri cfg enrollment = ''public:_apsk.'' @ enrollment @ ''.a.__e'' @ my_atsign cfg"

definition buildPingResponse :: "('w, 'k, 'j, 'e) denv_scheme \<Rightarrow> ('w, 'k, 'j, unit) dprog" where
  "buildPingResponse E = do {
     s \<leftarrow> get_st;
     let cfg = dm_config s;
     p0 \<leftarrow> new_object E;
     p1 \<leftarrow> add_str E ''devicename'' (cf_device_name cfg) p0;
     p2 \<leftarrow> add_str E ''version'' (Some NOPORTS_VERSION) p1;
     p3 \<leftarrow> add_str E ''corePackageVersion'' (Some NOPORTS_CORE_PKG_VERSION) p2;
     f0 \<leftarrow> new_object E;
     f \<leftarrow> add_bools E (ping_features s) f0;
     p4 \<leftarrow> add_item E ''supportedFeatures'' (object_of E f) p3;
     ok \<leftarrow> d_alloc E 1;
     allowed \<leftarrow> add_elements E (map (\<lambda>p. fit 128 (permit_text p)) (cf_permitopen cfg)) (if ok then Some [] else None);
     p5 \<leftarrow> add_item E ''allowedServices'' (map_option (cj_mk_array (e_cj E)) allowed) p4;
     p6 \<leftarrow> (case cf_enrollment_id cfg of
              None \<Rightarrow> ret p5
            | Some i \<Rightarrow>
                if dm_pkam_signing_key s \<noteq> None then
                  add_str E ''publicSigningKeyUri'' (Some (fit 320 (signing_key_uri cfg i))) p5
                else ret p5);
     txt \<leftarrow> print_unformatted E (object_of E p6);
     modify_st (dm_ping_response_update (\<lambda>_. txt)) }"

section \<open>Publishing\<close>

definition publishPublicSigningKey :: "('w, 'k, 'j, 'e) denv_scheme \<Rightarrow> ('w, 'k, 'j, unit) dprog" where
  "publishPublicSigningKey E = do {
     cfg \<leftarrow> gets dm_config;
     case (cf_enrollment_id cfg, cf_pkam_public_key_base64 cfg) of
       (Some i, Some key) \<Rightarrow> do {
         let name = fit 256 (''_apsk.'' @ i);
         r \<leftarrow> dx (d_create_key E name (my_atsign cfg));
         if r \<noteq> 0 then ret () else do { _ \<leftarrow> dx (d_put_public_key E name key); ret () } }
     | _ \<Rightarrow> ret () }"

definition publish_to :: "('w, 'k, 'j, 'e) denv_scheme \<Rightarrow> np_config \<Rightarrow> string \<Rightarrow> ('w, 'k, 'j, unit) dprog" where
  "publish_to E cfg manager = do {
     let name = ''username.'' @ my_device cfg;
     r \<leftarrow> dx (d_create_key E name manager);
     if r \<noteq> 0 then ret ()
     else do { _ \<leftarrow> notifyWithRetry E manager name (Some ''esp32''); ret () } }"

definition publishDeviceInfo :: "('w, 'k, 'j, 'e) denv_scheme \<Rightarrow> ('w, 'k, 'j, unit) dprog" where
  "publishDeviceInfo E = do {
     cfg \<leftarrow> gets dm_config;
     for_each (cf_manager_list cfg) (publish_to E cfg) }"

section \<open>Facts\<close>

lemma io_case_prod_option [io_rule]:
  "(\<And>a b. z = (Some a, Some b) \<Longrightarrow> state_io_rel P (f a b)) \<Longrightarrow> state_io_rel P m \<Longrightarrow>
   state_io_rel P (case z of (Some a, Some b) \<Rightarrow> f a b | _ \<Rightarrow> m)"
  by (auto split: prod.split option.split)

lemma net_step_sendNptError [io_intro]: "state_io_rel net_step (sendNptError E to' sid msg)"
  unfolding sendNptError_def by (cases to'; cases sid; simp; (intro io_rule io_intro)?)

lemma net_step_publish [io_intro]:
  "state_io_rel net_step (publishPublicSigningKey E)" "state_io_rel net_step (publishDeviceInfo E)"
  unfolding publishPublicSigningKey_def publishDeviceInfo_def publish_to_def Let_def
  by ((intro io_rule io_intro | simp split: option.split | rule impI allI)+)

lemma net_step_ping [io_intro]: "state_io_rel net_step (handlePingAuthorized E a)"
  unfolding handlePingAuthorized_def Let_def by (intro io_rule io_intro net_step_emit) simp

end
