(* ===== verification/Client_Keys.thy ===== *)
theory Client_Keys
  imports Daemon_Replies
begin

text \<open>
  \<open>noports_client_keys.cpp\<close>: the enrollment key a client signs its session request with. The key is
  verified when the request arrives, and looked up again from time to time while the session lives,
  which ends once the key has been withdrawn.
\<close>

definition NOPORTS_LOOKUP_TIMEOUT_MS :: u32 where "NOPORTS_LOOKUP_TIMEOUT_MS = 10000"
definition NOPORTS_KEY_CHECK_BUDGET_MS :: u32 where "NOPORTS_KEY_CHECK_BUDGET_MS = 5000"
definition NOPORTS_KEY_CHECK_MAX_SKIP :: u8 where "NOPORTS_KEY_CHECK_MAX_SKIP = 30"
definition NOPORTS_LOOKUP_MAX_VALUE_BYTES :: nat where "NOPORTS_LOOKUP_MAX_VALUE_BYTES = 64 * 1024"

section \<open>Looking a record up\<close>

definition path_keep :: string where
  "path_keep = ''-._~!$&'' @ [CHR 0x27] @ ''()*+,;=:@''"

definition kept_in_path :: "char \<Rightarrow> bool" where
  "kept_in_path c \<longleftrightarrow> is_upper c \<or> is_lower c \<or> is_digit c \<or> c \<in> set path_keep"

definition upper_hex :: "nat \<Rightarrow> char" where
  "upper_hex n = (if n < 10 then char_of (48 + n) else char_of (55 + n))"

text \<open>\<open>strchr(keep, c)\<close> finds the terminator of \<open>keep\<close> when \<open>c\<close> is 0, but a segment of a C string holds
  no 0.\<close>

definition escape_char :: "char \<Rightarrow> string" where
  "escape_char c = (if kept_in_path c then [c] else [CHR ''%'', upper_hex (ch c div 16), upper_hex (ch c mod 16)])"

definition append_path_segment :: "string \<Rightarrow> string \<Rightarrow> string" where
  "append_path_segment url segment = url @ concat (map escape_char segment)"

text \<open>\<open>_CappedBody\<close>: what it keeps, and whether it refused a byte. Nothing is written after that.\<close>

fun capped_write :: "nat \<Rightarrow> string \<Rightarrow> string \<Rightarrow> string \<times> bool" where
  "capped_write cap data [] = (data, False)"
| "capped_write cap data (c # cs) =
     (if length data \<ge> cap \<or> ch c = 0 then (data, True) else capped_write cap (data @ [c]) cs)"

definition lookup_url :: "string \<Rightarrow> u16 \<Rightarrow> string \<Rightarrow> nat \<Rightarrow> string" where
  "lookup_url host port uri ati =
     append_path_segment
       (append_path_segment (''https://'' @ host @ '':'' @ dec_nat (unat port) @ ''/'') (drop ati uri) @ ''/'')
       (take (ati - 7) (drop 7 uri))"

definition read_body :: "('w, 'k, 'j, 'e) denv_scheme \<Rightarrow> int \<Rightarrow> string \<Rightarrow> bool \<Rightarrow> ('w, 'k, 'j, lookup_result \<times> string option) dprog" where
  "read_body E sz body failed =
     (if sz > int NOPORTS_LOOKUP_MAX_VALUE_BYTES then ret (LOOKUP_FAILED, None)
      else case capped_write NOPORTS_LOOKUP_MAX_VALUE_BYTES [] body of
          (data, too_big) \<Rightarrow>
            if failed \<or> too_big then ret (LOOKUP_FAILED, None)
            else do {
              v \<leftarrow> d_strdup E data;
              ret (case v of None \<Rightarrow> (LOOKUP_FAILED, None) | Some x \<Rightarrow> (LOOKUP_FOUND, Some x)) })"

definition lookup_at ::
  "('w, 'k, 'j, 'e) denv_scheme \<Rightarrow> string \<Rightarrow> u16 \<Rightarrow> string \<Rightarrow> u32 \<Rightarrow> ('w, 'k, 'j, lookup_result \<times> string option) dprog" where
  "lookup_at E host port uri timeout_ms =
     (case strrchr uri CHR ''@'' of
        None \<Rightarrow> ret (LOOKUP_FAILED, None)
      | Some ati \<Rightarrow>
          if \<not> starts_with ''public:'' uri \<or> ati < 7 then ret (LOOKUP_FAILED, None)
          else do {
            heap \<leftarrow> dx (e_free_heap E);
            if heap < NOPORTS_TLS_MIN_FREE_HEAP then ret (LOOKUP_FAILED, None)
            else do {
              begun \<leftarrow> dx (d_http_begin E (lookup_url host port uri ati));
              if \<not> begun then ret (LOOKUP_NOT_SERVED, None)
              else do {
                r \<leftarrow> dx (d_http_get E (lookup_url host port uri ati) timeout_ms);
                case r of
                  Http_ok sz body failed \<Rightarrow> read_body E sz body failed
                | Http_status code \<Rightarrow> ret (if code = 404 then LOOKUP_NOT_FOUND else LOOKUP_NOT_SERVED, None)
                | Http_read_timeout \<Rightarrow> ret (LOOKUP_FAILED, None)
                | Http_error \<Rightarrow> ret (LOOKUP_NOT_SERVED, None) } } })"

text \<open>Where a record has been withdrawn to: \<open>None\<close> when that can't be told.\<close>

definition withdrawn_uri :: "string \<Rightarrow> nat \<Rightarrow> string \<Rightarrow> string" where
  "withdrawn_uri uri ati location = take ati uri @ ''.'' @ location @ drop (ati + 6) uri"

fun try_locations ::
  "('w, 'k, 'j, 'e) denv_scheme \<Rightarrow> string \<Rightarrow> u16 \<Rightarrow> string \<Rightarrow> nat \<Rightarrow> u32 \<Rightarrow> string list \<Rightarrow> bool \<Rightarrow>
   ('w, 'k, 'j, string option option) dprog" where
  "try_locations E host port uri ati tmo [] error = ret (if error then None else Some None)"
| "try_locations E host port uri ati tmo (l # ls) error = do {
     ok \<leftarrow> d_alloc E (length uri + 1);
     if \<not> ok then ret None
     else do {
       (r, v) \<leftarrow> lookup_at E host port (withdrawn_uri uri ati l) tmo;
       if r = LOOKUP_FOUND then ret (Some (Some l))
       else try_locations E host port uri ati tmo ls (error \<or> r \<noteq> LOOKUP_NOT_FOUND) } }"

definition withdrawn_to ::
  "('w, 'k, 'j, 'e) denv_scheme \<Rightarrow> string \<Rightarrow> u16 \<Rightarrow> string \<Rightarrow> u32 \<Rightarrow> ('w, 'k, 'j, string option option) dprog" where
  "withdrawn_to E host port uri timeout_ms =
     (case strstr uri ''.a.__e@'' of
        None \<Rightarrow> ret (Some None)
      | Some ati \<Rightarrow>
          if \<not> starts_with ''public:_apsk.'' uri then ret (Some None)
          else try_locations E host port uri ati timeout_ms [''r.__e'', ''d.__e''] False)"

text \<open>\<open>_findAtServer\<close>: the host and port it writes, when it succeeds.\<close>

definition findAtServer :: "('w, 'k, 'j, 'e) denv_scheme \<Rightarrow> string \<Rightarrow> ('w, 'k, 'j, (string \<times> u16) option) dprog" where
  "findAtServer E atsign = do {
     s \<leftarrow> get_st;
     if dm_via_proxy s then ret (Some (fit 254 (dm_root_host s), dm_root_port s))
     else do {
       (r, host, port) \<leftarrow> dx (d_lookup_once E (dm_root_host s) (dm_root_port s) atsign);
       ret (case host of
              None \<Rightarrow> None
            | Some h \<Rightarrow> if r \<noteq> 0 \<or> port = 0 then None else Some (fit 254 h, port)) } }"

section \<open>The check when a request arrives\<close>

text \<open>A callback with a context of its own, here the address the key was found at.\<close>

definition with_ctx :: "('s, 'a) state \<Rightarrow> ('s \<times> 'c, 'a) state" where
  "with_ctx m = State (\<lambda>(s, c). case run_state m s of (a, s') \<Rightarrow> (a, (s', c)))"

definition set_ctx :: "'c \<Rightarrow> ('s \<times> 'c, unit) state" where
  "set_ctx c = State (\<lambda>(s, _). ((), (s, c)))"

definition run_ctx :: "'c \<Rightarrow> ('s \<times> 'c, 'a) state \<Rightarrow> ('s, 'a \<times> 'c) state" where
  "run_ctx c m = State (\<lambda>s. case run_state m (s, c) of (a, (s', c')) \<Rightarrow> ((a, c'), s'))"

definition at_of :: "string \<Rightarrow> string" where
  "at_of uri = (case strrchr uri CHR ''@'' of None \<Rightarrow> [] | Some i \<Rightarrow> drop i uri)"

text \<open>The fallback through this daemon's own atServer.\<close>

definition own_lookup :: "('w, 'k, 'j, 'e) denv_scheme \<Rightarrow> string \<Rightarrow> ('w, 'k, 'j, lookup_result \<times> string option) dprog" where
  "own_lookup E uri =
     (case strstr (drop 7 uri) ''.a.__e@'' of
        None \<Rightarrow> ret (LOOKUP_FAILED, None)
      | Some n \<Rightarrow> do {
          k \<leftarrow> d_strdup E (take n (drop 7 uri));
          case k of
            None \<Rightarrow> ret (LOOKUP_FAILED, None)
          | Some key_name \<Rightarrow> do {
              r \<leftarrow> dx (d_create_key E key_name (at_of uri));
              if r \<noteq> 0 then ret (LOOKUP_FAILED, None)
              else do {
                (r2, v) \<leftarrow> dx (d_get_public_key E key_name (at_of uri) ''a.__e'');
                ret (if r2 \<noteq> 0 then (LOOKUP_FAILED, None) else (LOOKUP_FOUND, v)) } } })"

definition lookupSigningKey ::
  "('w, 'k, 'j, 'e) denv_scheme \<Rightarrow> string \<Rightarrow>
   (('w, 'k, 'j) daemon \<times> (string \<times> u16), lookup_result \<times> string option) state" where
  "lookupSigningKey E uri = do {
     found \<leftarrow> with_ctx (findAtServer E (at_of uri));
     (r, v) \<leftarrow> (case found of
                  None \<Rightarrow> ret (LOOKUP_NOT_SERVED, None)
                | Some (host, port) \<Rightarrow> do {
                    set_ctx (host, port);
                    with_ctx (lookup_at E host port uri NOPORTS_LOOKUP_TIMEOUT_MS) });
     if r \<noteq> LOOKUP_NOT_SERVED then ret (r, v)
     else do {
       set_ctx ([], case found of None \<Rightarrow> 0 | Some (h, p) \<Rightarrow> p);
       with_ctx (own_lookup E uri) } }"

definition draw_mem :: "('w, 'k, 'j, 'e) denv_scheme \<Rightarrow> ('w, 'k, 'j, es_mem) dprog" where
  "draw_mem E = do {
     a \<leftarrow> d_alloc E 1; b \<leftarrow> d_alloc E 1; c \<leftarrow> d_alloc E 1; d \<leftarrow> d_alloc E 1; e \<leftarrow> d_alloc E 1;
     ret \<lparr>mem_names = a, mem_keys = b, mem_kid = c, mem_raw = d, mem_print = e\<rparr> }"

definition session_live :: "('w, 'k, 'j) daemon \<Rightarrow> string \<Rightarrow> bool" where
  "session_live s session_id \<longleftrightarrow>
     (\<exists>i \<in> set [0..<NOPORTS_MAX_RELAYS]. ck_signing_key (dm_client_keys s ! i) \<noteq> None \<and>
        rc_session_id (rl_config (dm_relays s ! i)) = session_id)"

definition refuse_session ::
  "('w, 'k, 'j, 'e) denv_scheme \<Rightarrow> string \<Rightarrow> string \<Rightarrow> string \<Rightarrow> ('w, 'k, 'j, client_key option) dprog" where
  "refuse_session E requester session_id msg = do {
     sendNptError E (Some requester) (Some session_id) (fit 1024 msg);
     ret None }"

text \<open>The key to watch (with none when the session isn't watched), or nothing when the request is
  refused.\<close>

definition checkClientSigningKey ::
  "('w, 'k, 'j, 'e) denv_scheme \<Rightarrow> 'j \<Rightarrow> string \<Rightarrow> string \<Rightarrow> ('w, 'k, 'j, client_key option) dprog" where
  "checkClientSigningKey E env requester session_id = do {
     s \<leftarrow> get_st;
     if session_live s session_id then
       refuse_session E requester session_id (''A session with id '' @ session_id @ '' is already live'')
     else do {
       mem \<leftarrow> draw_mem E;
       (r, host, port) \<leftarrow> run_ctx ([], 0)
         (noports_verify_enrollment_signature (e_cj E) (e_ops E) mem (e_print_json E) (lookupSigningKey E) env requester);
       case r of
         ES_VERIFIED k \<Rightarrow> ret (Some (no_client_key\<lparr>ck_signing_key := Some k, ck_atserver_host := host, ck_atserver_port := port\<rparr>))
       | ES_REFUSED why \<Rightarrow> refuse_session E requester session_id (''Enrollment signature not verified: '' @ fit 768 why)
       | ES_UNCHECKED why \<Rightarrow>
           if \<not> cf_require_enrollment_signature (dm_config s) then ret (Some no_client_key)
           else refuse_session E requester session_id (''Could not check the enrollment signature: '' @ fit 768 why)
       | ES_ABSENT \<Rightarrow>
           if \<not> cf_require_enrollment_signature (dm_config s) then ret (Some no_client_key)
           else refuse_session E requester session_id
             ''This daemon requires session requests signed with the client's enrollment key'' } }"

definition forgetClientSigningKey :: "nat \<Rightarrow> ('w, 'k, 'j, unit) dprog" where
  "forgetClientSigningKey i = upd_key_at i (\<lambda>_. no_client_key)"

section \<open>The checks while a session lives\<close>

datatype key_check = KEY_PUBLISHED | KEY_REVOKED | KEY_DELETED | KEY_MISSING | KEY_UNKNOWN

definition budget_left :: "('w, 'k, 'j, 'e) denv_scheme \<Rightarrow> u32 \<Rightarrow> ('w, 'k, 'j, u32) dprog" where
  "budget_left E started_ms = do {
     now \<leftarrow> d_millis E;
     let spent = now - started_ms;
     ret (if spent + 500 \<ge> NOPORTS_KEY_CHECK_BUDGET_MS then 0 else NOPORTS_KEY_CHECK_BUDGET_MS - spent) }"

text \<open>The key of slot \<open>i\<close>, looked up where it was last found, and then where the directory says it is now.\<close>

definition watched :: "nat \<Rightarrow> ('w, 'k, 'j, string) dprog" where
  "watched i = gets (\<lambda>s. case ck_signing_key (dm_client_keys s ! i) of None \<Rightarrow> [] | Some k \<Rightarrow> k)"

definition check_known_server :: "('w, 'k, 'j, 'e) denv_scheme \<Rightarrow> nat \<Rightarrow> u32 \<Rightarrow> ('w, 'k, 'j, lookup_result) dprog" where
  "check_known_server E i started = do {
     k \<leftarrow> gets (\<lambda>s. dm_client_keys s ! i);
     if ck_atserver_host k = [] then ret LOOKUP_NOT_SERVED
     else do {
       key \<leftarrow> watched i;
       b \<leftarrow> budget_left E started;
       (r, v) \<leftarrow> lookup_at E (ck_atserver_host k) (ck_atserver_port k) key b;
       ret r } }"

definition check_found_server :: "('w, 'k, 'j, 'e) denv_scheme \<Rightarrow> nat \<Rightarrow> u32 \<Rightarrow> ('w, 'k, 'j, lookup_result) dprog" where
  "check_found_server E i started = do {
     key \<leftarrow> watched i;
     found \<leftarrow> findAtServer E (at_of key);
     case found of
       None \<Rightarrow> ret LOOKUP_NOT_SERVED
     | Some (host, port) \<Rightarrow> do {
         upd_key_at i (\<lambda>k. k\<lparr>ck_atserver_host := host, ck_atserver_port := port\<rparr>);
         b \<leftarrow> budget_left E started;
         if b = 0 then ret LOOKUP_NOT_SERVED
         else do {
           b2 \<leftarrow> budget_left E started;
           (r, v) \<leftarrow> lookup_at E host port key b2;
           ret r } } }"

definition checkKey :: "('w, 'k, 'j, 'e) denv_scheme \<Rightarrow> nat \<Rightarrow> ('w, 'k, 'j, key_check) dprog" where
  "checkKey E i = do {
     started \<leftarrow> d_millis E;
     r1 \<leftarrow> check_known_server E i started;
     r \<leftarrow> (if r1 = LOOKUP_NOT_SERVED then check_found_server E i started else ret r1);
     if r = LOOKUP_FOUND then ret KEY_PUBLISHED
     else if r \<noteq> LOOKUP_NOT_FOUND then ret KEY_UNKNOWN
     else do {
       left \<leftarrow> budget_left E started;
       if left div 2 = 0 then ret KEY_UNKNOWN
       else do {
         key \<leftarrow> watched i;
         k \<leftarrow> gets (\<lambda>s. dm_client_keys s ! i);
         w \<leftarrow> withdrawn_to E (ck_atserver_host k) (ck_atserver_port k) key (left div 2);
         ret (case w of
                None \<Rightarrow> KEY_UNKNOWN
              | Some None \<Rightarrow> KEY_MISSING
              | Some (Some l) \<Rightarrow> if l = ''r.__e'' then KEY_REVOKED else KEY_DELETED) } } }"

text \<open>The doubled backoff is computed as an \<open>int\<close>.\<close>

definition next_backoff :: "u8 \<Rightarrow> u8" where
  "next_backoff backoff =
     (if backoff = 0 then 1
      else if unat backoff * 2 > unat NOPORTS_KEY_CHECK_MAX_SKIP then NOPORTS_KEY_CHECK_MAX_SKIP
      else backoff * 2)"

definition check_interval_ms :: "u32 \<Rightarrow> u32" where
  "check_interval_ms secs = (if secs > 86400 then 86400000 else secs * 1000)"

definition start_round :: "client_key \<Rightarrow> client_key" where
  "start_round k = k\<lparr>ck_due := ck_signing_key k \<noteq> None \<and> \<not> ck_ending k \<and> ck_skip_rounds k = 0,
     ck_skip_rounds := (if ck_skip_rounds k > 0 then ck_skip_rounds k - 1 else ck_skip_rounds k)\<rparr>"

text \<open>What a check means for one slot whose session was signed with the same key.\<close>

definition checked_key :: "key_check \<Rightarrow> client_key \<Rightarrow> client_key" where
  "checked_key found k =
     (let b = (if found = KEY_UNKNOWN then next_backoff (ck_backoff k) else 0)
      in k\<lparr>ck_due := False, ck_backoff := b, ck_skip_rounds := b,
           ck_ending := ck_ending k \<or> found = KEY_REVOKED \<or> found = KEY_DELETED\<rparr>)"

definition settle_slot :: "string option \<Rightarrow> key_check \<Rightarrow> nat \<Rightarrow> ('w, 'k, 'j, unit) dprog" where
  "settle_slot key found j = do {
     other \<leftarrow> gets (\<lambda>s. dm_client_keys s ! j);
     if ck_signing_key other = None \<or> ck_signing_key other \<noteq> key then ret ()
     else do {
       upd_key_at j (checked_key found);
       when_st ((found = KEY_REVOKED \<or> found = KEY_DELETED) \<and> \<not> ck_ending other) (noports_relay_stop j) } }"

definition check_due_key :: "('w, 'k, 'j, 'e) denv_scheme \<Rightarrow> nat \<Rightarrow> ('w, 'k, 'j, unit) dprog" where
  "check_due_key E i = do {
     found \<leftarrow> checkKey E i;
     key \<leftarrow> gets (\<lambda>s. ck_signing_key (dm_client_keys s ! i));
     for_each [0..<NOPORTS_MAX_RELAYS] (settle_slot key found) }"

definition checkClientKeys :: "('w, 'k, 'j, 'e) denv_scheme \<Rightarrow> ('w, 'k, 'j, unit) dprog" where
  "checkClientKeys E = do {
     secs \<leftarrow> gets (\<lambda>s. cf_client_key_check_secs (dm_config s));
     if secs = 0 then ret ()
     else do {
       now \<leftarrow> d_millis E;
       lastms \<leftarrow> gets dm_last_key_check_ms;
       when_st (now - lastms \<ge> check_interval_ms secs)
         (modify_st (\<lambda>s. s\<lparr>dm_last_key_check_ms := now, dm_client_keys := map start_round (dm_client_keys s)\<rparr>));
       due \<leftarrow> gets (\<lambda>s. find_index ck_due (dm_client_keys s));
       case due of None \<Rightarrow> ret () | Some i \<Rightarrow> check_due_key E i } }"

end
