(* ===== verification/Daemon_Npt.thy ===== *)
theory Daemon_Npt
  imports Client_Keys
begin

text \<open>
  A request for a tunnel, from the signature on its envelope to the relay that serves it: the checks of
  the envelope, the \<open>permitOpen\<close> rules, the relay's configuration (authentication to the rendezvous
  server, session keys), the signed answer and the start of the relay.
\<close>

text \<open>A C string the checks before have shown not to be NULL.\<close>

definition text_of :: "string option \<Rightarrow> string" where
  "text_of x = (case x of None \<Rightarrow> [] | Some t \<Rightarrow> t)"

section \<open>Strict parsing\<close>

definition parse_port_strict :: "string option \<Rightarrow> int" where
  "parse_port_strict p =
     (case p of
        None \<Rightarrow> -1
      | Some s \<Rightarrow>
          if s = [] then -1
          else case strtol10 s of
              None \<Rightarrow> -1
            | Some (v, rest) \<Rightarrow> if rest \<noteq> [] \<or> v < 1 \<or> v > UINT16_MAX then -1 else v)"

definition is_valid_session_id :: "string option \<Rightarrow> bool" where
  "is_valid_session_id p =
     (case p of
        None \<Rightarrow> False
      | Some s \<Rightarrow>
          length s = 36 \<and>
          list_all (\<lambda>i. if i = 8 \<or> i = 13 \<or> i = 18 \<or> i = 23 then s ! i = CHR ''-'' else isxdigit (s ! i)) [0..<36])"

definition is_rsa2048 :: "rsa_key \<Rightarrow> bool" where
  "is_rsa2048 key \<longleftrightarrow> significant_bytes (rk_n key) = 256"

section \<open>The envelope\<close>

datatype verification = Verified | Not_verified | Crashed

text \<open>The buffer of the public key is decoded into: a signature shorter than 256 bytes leaves the rest of
  the key's text behind it.\<close>

definition signature_buffer :: "string \<Rightarrow> bytes \<Rightarrow> bytes" where
  "signature_buffer pk_text raw = take 256 (raw @ drop (length raw) (str_bytes pk_text))"

definition envelope_formed :: "'j cjson \<Rightarrow> 'j \<Rightarrow> bool" where
  "envelope_formed cj env \<longleftrightarrow>
     IsString cj (GetObjectItem cj (Some env) ''signature'') \<and> IsString cj (GetObjectItem cj (Some env) ''hashingAlgo'') \<and>
     IsString cj (GetObjectItem cj (Some env) ''signingAlgo'') \<and> IsObject cj (GetObjectItem cj (Some env) ''payload'')"

text \<open>The check against a public key as its atServer gave it. \<open>None\<close> when the payload is not needed.\<close>

definition envelope_key ::
  "('w, 'k, 'j, 'e) denv_scheme \<Rightarrow> string \<Rightarrow> string \<Rightarrow> (rsa_key \<times> bytes) option" where
  "envelope_key E pk_text sig =
     (case rsa_populate_public (e_ops E) pk_text of
        None \<Rightarrow> None
      | Some pk \<Rightarrow>
          if \<not> is_rsa2048 pk then None
          else case base64_decode (e_ops E) sig (length pk_text) of
              None \<Rightarrow> None
            | Some raw \<Rightarrow> Some (pk, signature_buffer pk_text raw))"

definition algorithms_known :: "'j cjson \<Rightarrow> 'j \<Rightarrow> bool" where
  "algorithms_known cj env \<longleftrightarrow>
     text_of (str_field cj (Some env) ''hashingAlgo'') = ''sha256'' \<and> text_of (str_field cj (Some env) ''signingAlgo'') = ''rsa2048''"

definition verifyEnvelopeSignature ::
  "('w, 'k, 'j, 'e) denv_scheme \<Rightarrow> 'j \<Rightarrow> string \<Rightarrow> ('w, 'k, 'j, verification) dprog" where
  "verifyEnvelopeSignature E env from_atsign =
     (if \<not> envelope_formed (e_cj E) env then ret Not_verified
      else do {
        r \<leftarrow> dx (d_create_key E ''publickey'' from_atsign);
        if r \<noteq> 0 then ret Not_verified
        else do {
          (r2, pk_buffer) \<leftarrow> dx (d_get_public_key E ''publickey'' from_atsign []);
          case pk_buffer of
            None \<Rightarrow> ret Not_verified
          | Some pk_text \<Rightarrow>
              if r2 \<noteq> 0 then ret Not_verified
              else do {
                emit (Ev_public_key from_atsign (Some pk_text));
                case envelope_key E pk_text (text_of (str_field (e_cj E) (Some env) ''signature'')) of
                  None \<Rightarrow> ret Not_verified
                | Some (pk, sig) \<Rightarrow> do {
                    payload_str \<leftarrow> print_unformatted E (GetObjectItem (e_cj E) (Some env) ''payload'');
                    if \<not> algorithms_known (e_cj E) env then ret Not_verified
                    else case payload_str of
                        None \<Rightarrow> do { halt Panic; ret Crashed }
                      | Some p \<Rightarrow> ret (if rsa_verify (e_ops E) pk MD_SHA256 p sig then Verified else Not_verified) } } } })"

definition port_in_range :: "'j cjson \<Rightarrow> 'j option \<Rightarrow> bool" where
  "port_in_range cj p \<longleftrightarrow> IsNumber cj p \<and> \<not> (dbl_less_int (GetNumberValue cj p) 1 \<or> dbl_greater_int (GetNumberValue cj p) UINT16_MAX)"

definition verifyEnvelopeContents :: "'j cjson \<Rightarrow> 'j \<Rightarrow> int \<Rightarrow> bool" where
  "verifyEnvelopeContents cj env payload_type \<longleftrightarrow>
     (let payload = GetObjectItem cj (Some env) ''payload'' in
      IsObject cj payload \<and>
      IsString cj (GetObjectItem cj (Some env) ''signature'') \<and>
      IsString cj (GetObjectItem cj (Some env) ''hashingAlgo'') \<and>
      IsString cj (GetObjectItem cj (Some env) ''signingAlgo'') \<and>
      IsString cj (GetObjectItem cj payload ''sessionId'') \<and>
      (payload_type = 1 \<longrightarrow>
         IsString cj (GetObjectItem cj payload ''rvdHost'') \<and>
         IsString cj (GetObjectItem cj payload ''requestedHost'') \<and>
         port_in_range cj (GetObjectItem cj payload ''rvdPort'') \<and>
         port_in_range cj (GetObjectItem cj payload ''requestedPort'')))"

section \<open>PermitOpen\<close>

text \<open>A rule \<open>host:port\<close> of the policy service.\<close>

definition rule_matches :: "string \<Rightarrow> u16 \<Rightarrow> string \<Rightarrow> bool" where
  "rule_matches rhost rport entry =
     (case strrchr entry CHR '':'' of
        None \<Rightarrow> False
      | Some colon \<Rightarrow>
          if colon \<ge> 128 then False
          else
            let h = take colon entry;
                port_str = drop (colon + 1) entry;
                port_wildcard = (port_str = ''*'');
                p = (if port_wildcard then 0 else parse_port_strict (Some port_str))
            in if \<not> port_wildcard \<and> p < 0 then False
               else (h = ''*'' \<or> h = rhost) \<and> (port_wildcard \<or> word_of_int p = rport))"

definition policy_permits :: "string list \<Rightarrow> string \<Rightarrow> u16 \<Rightarrow> bool" where
  "policy_permits policy_po rhost rport \<longleftrightarrow> list_ex (rule_matches rhost rport) policy_po"

definition config_permits :: "(string \<times> u16) list \<Rightarrow> string \<Rightarrow> u16 \<Rightarrow> bool" where
  "config_permits po rhost rport \<longleftrightarrow> list_ex (\<lambda>(h, p). (h = ''*'' \<or> h = rhost) \<and> (p = 0 \<or> p = rport)) po"

definition permitted :: "np_config \<Rightarrow> string list \<Rightarrow> string \<Rightarrow> u16 \<Rightarrow> bool" where
  "permitted cfg policy_po rhost rport =
     (if policy_mode cfg then policy_permits policy_po rhost rport else config_permits (cf_permitopen cfg) rhost rport)"

text \<open>The list in the refusal, in a buffer of 128 bytes.\<close>

fun policy_list :: "string \<Rightarrow> bool \<Rightarrow> string list \<Rightarrow> string" where
  "policy_list out first [] = out"
| "policy_list out first (e # es) =
     (if length out + 2 < 128 then
        let out1 = (if \<not> first \<and> length out + 1 < 128 then out @ '','' else out) in
        policy_list (out1 @ (if length out1 + length e \<ge> 128 then take (128 - length out1 - 1) e else e)) False es
      else out)"

fun config_list :: "string \<Rightarrow> bool \<Rightarrow> (string \<times> u16) list \<Rightarrow> string" where
  "config_list out first [] = out"
| "config_list out first ((h, p) # es) =
     (if length out + 2 < 128 then
        let out1 = (if \<not> first \<and> length out + 1 < 128 then out @ '','' else out) in
        config_list (out1 @ h @ '':'' @ dec_nat (unat p)) False es
      else out)"

definition permit_list_text :: "np_config \<Rightarrow> string list \<Rightarrow> string" where
  "permit_list_text cfg policy_po =
     (if policy_mode cfg then (if policy_po = [] then ''(none)'' else policy_list [] True policy_po)
      else if cf_permitopen cfg = [] then ''(none)'' else fit 128 (config_list [] True (cf_permitopen cfg)))"

definition denial_text :: "np_config \<Rightarrow> string list \<Rightarrow> string \<Rightarrow> u16 \<Rightarrow> string" where
  "denial_text cfg policy_po rhost rport =
     fit 256 (''Connection to '' @ rhost @ '':'' @ dec_nat (unat rport) @ '' denied based on '' @
       (if policy_mode cfg then ''POLICY'' else ''MANAGER'') @ '' --permit-open ['' @ permit_list_text cfg policy_po @ '']'')"

section \<open>A slot for the relay\<close>

fun find_free :: "('w, 'k, 'j, 'e) denv_scheme \<Rightarrow> nat list \<Rightarrow> ('w, 'k, 'j, nat option) dprog" where
  "find_free E [] = ret None"
| "find_free E (i # is) = do {
     running \<leftarrow> noports_relay_is_running E i;
     st \<leftarrow> gets (\<lambda>s. rl_state (dm_relays s ! i));
     if \<not> running \<and> st \<noteq> RELAY_CONNECTING \<and> st \<noteq> RELAY_AUTHENTICATING then ret (Some i) else find_free E is }"

definition findFreeRelaySlot :: "('w, 'k, 'j, 'e) denv_scheme \<Rightarrow> ('w, 'k, 'j, nat option) dprog" where
  "findFreeRelaySlot E = do {
     n \<leftarrow> gets dm_max_relays;
     find_free E [0..<unat n] }"

section \<open>Authentication to the rendezvous server\<close>

definition sign_text :: "('w, 'k, 'j, 'e) denv_scheme \<Rightarrow> rsa_key option \<Rightarrow> string option \<Rightarrow> bytes option" where
  "sign_text E key txt =
     (case (key, txt) of (Some k, Some t) \<Rightarrow> rsa_sign (e_ops E) k MD_SHA256 t | _ \<Rightarrow> None)"

text \<open>An envelope that holds its payload gets the signature and is printed.\<close>

definition signed_envelope ::
  "('w, 'k, 'j, 'e) denv_scheme \<Rightarrow> 'j fields \<Rightarrow> string \<Rightarrow> ('w, 'k, 'j, string option) dprog" where
  "signed_envelope E e1 b64sig = do {
     e2 \<leftarrow> add_str E ''signature'' (Some b64sig) e1;
     e3 \<leftarrow> add_str E ''hashingAlgo'' (Some ''sha256'') e2;
     e4 \<leftarrow> add_str E ''signingAlgo'' (Some ''rsa2048'') e3;
     print_unformatted E (object_of E e4) }"

definition legacy_auth ::
  "('w, 'k, 'j, 'e) denv_scheme \<Rightarrow> 'j option \<Rightarrow> relay_config \<Rightarrow> ('w, 'k, 'j, relay_config) dprog" where
  "legacy_auth E payload cfg = do {
     let cj = e_cj E;
     let cfg' = cfg\<lparr>rc_rv_auth := True\<rparr>;
     let client_nonce = GetObjectItem cj payload ''clientNonce'';
     let rvd_nonce = GetObjectItem cj payload ''rvdNonce'';
     if \<not> (IsString cj client_nonce \<and> IsString cj rvd_nonce) then ret cfg'
     else do {
       p0 \<leftarrow> new_object E;
       p1 \<leftarrow> add_item E ''sessionId'' (GetObjectItem cj payload ''sessionId'') p0;
       p2 \<leftarrow> add_item E ''clientNonce'' client_nonce p1;
       p3 \<leftarrow> add_item E ''rvdNonce'' rvd_nonce p2;
       e0 \<leftarrow> new_object E;
       e1 \<leftarrow> add_item E ''payload'' (object_of E p3) e0;
       txt \<leftarrow> print_unformatted E (object_of E p3);
       key \<leftarrow> gets dm_signing_key;
       case sign_text E key txt of
         None \<Rightarrow> ret cfg'
       | Some sig \<Rightarrow>
           (case base64_encode (e_ops E) sig 384 of
              None \<Rightarrow> ret cfg'
            | Some b64 \<Rightarrow> do {
                auth \<leftarrow> signed_envelope E e1 b64;
                ret (cfg'\<lparr>rc_rvd_auth_string := auth\<rparr>) }) } }"

definition escr_setup :: "('w, 'k, 'j, 'e) denv_scheme \<Rightarrow> string \<Rightarrow> string \<Rightarrow> relay_config \<Rightarrow> ('w, 'k, 'j, relay_config) dprog" where
  "escr_setup E enrollment raw_aes_key cfg = do {
     s \<leftarrow> get_st;
     aes \<leftarrow> d_strdup E raw_aes_key;
     ok \<leftarrow> d_alloc E (length enrollment + length (my_atsign (dm_config s)) + 25);
     ret (cfg\<lparr>rc_escr_auth := True, rc_relay_auth_aes_key := aes, rc_escr_signing_key := dm_pkam_signing_key s,
       rc_escr_signing_key_uri := (if ok then Some (signing_key_uri (dm_config s) enrollment) else None)\<rparr>) }"

definition setup_rvd_auth ::
  "('w, 'k, 'j, 'e) denv_scheme \<Rightarrow> 'j option \<Rightarrow> relay_config \<Rightarrow> ('w, 'k, 'j, relay_config) dprog" where
  "setup_rvd_auth E payload cfg =
     (if \<not> IsTrue (e_cj E) (GetObjectItem (e_cj E) payload ''authenticateToRvd'') then ret cfg
      else do {
        s \<leftarrow> get_st;
        case (cf_enrollment_id (dm_config s), str_field (e_cj E) payload ''relayAuthAesKey'') of
          (Some i, Some raw) \<Rightarrow>
            if str_field (e_cj E) payload ''relayAuthMode'' = Some ''escr'' \<and> dm_pkam_signing_key s \<noteq> None
            then escr_setup E i raw cfg
            else legacy_auth E payload cfg
        | _ \<Rightarrow> legacy_auth E payload cfg })"

section \<open>Session keys\<close>

definition encoded :: "('w, 'k, 'j, 'e) denv_scheme \<Rightarrow> bytes \<Rightarrow> nat \<Rightarrow> string" where
  "encoded E bs n = text_of (base64_encode (e_ops E) bs n)"

text \<open>A fresh AES key and IV in Base64.\<close>

definition fresh_pair :: "('w, 'k, 'j, 'e) denv_scheme \<Rightarrow> ('w, 'k, 'j, (string \<times> string) option) dprog" where
  "fresh_pair E = do {
     k \<leftarrow> dx (d_generate_key E);
     case k of
       None \<Rightarrow> ret None
     | Some key \<Rightarrow> do {
         i \<leftarrow> dx (d_generate_iv E);
         case i of
           None \<Rightarrow> ret None
         | Some iv \<Rightarrow> do {
             ok1 \<leftarrow> d_alloc E 49;
             ok2 \<leftarrow> d_alloc E 25;
             ret (if ok1 \<and> ok2 then Some (encoded E key 49, encoded E iv 25) else None) } } }"

definition rsa_encrypt_b64 :: "('w, 'k, 'j, 'e) denv_scheme \<Rightarrow> rsa_key \<Rightarrow> string \<Rightarrow> ('w, 'k, 'j, string option) dprog" where
  "rsa_encrypt_b64 E pk plaintext = do {
     enc \<leftarrow> dx (d_rsa_encrypt E pk plaintext);
     case enc of
       None \<Rightarrow> ret None
     | Some bs \<Rightarrow> do {
         ok \<leftarrow> d_alloc E 384;
         ret (if ok then base64_encode (e_ops E) bs 384 else None) } }"

text \<open>The client's ephemeral key.\<close>

definition ephemeral_key :: "('w, 'k, 'j, 'e) denv_scheme \<Rightarrow> 'j option \<Rightarrow> rsa_key option" where
  "ephemeral_key E payload =
     (case (str_field (e_cj E) payload ''clientEphemeralPK'', str_field (e_cj E) payload ''clientEphemeralPKType'') of
        (Some pk, Some ty) \<Rightarrow>
          if ty \<noteq> ''rsa2048'' then None
          else (case rsa_populate_public (e_ops E) pk of
                  None \<Rightarrow> None
                | Some k \<Rightarrow> if is_rsa2048 k then Some k else None)
      | _ \<Rightarrow> None)"

text \<open>An AES key and IV, and both encrypted for the client.\<close>

record session_keys =
  sk_key :: string
  sk_iv :: string
  sk_enc_key :: string
  sk_enc_iv :: string

definition encrypt_pair ::
  "('w, 'k, 'j, 'e) denv_scheme \<Rightarrow> rsa_key \<Rightarrow> string \<times> string \<Rightarrow> ('w, 'k, 'j, session_keys option) dprog" where
  "encrypt_pair E pk p = do {
     k \<leftarrow> rsa_encrypt_b64 E pk (fst p);
     i \<leftarrow> rsa_encrypt_b64 E pk (snd p);
     ret (case (k, i) of
            (Some ek, Some ei) \<Rightarrow> Some \<lparr>sk_key = fst p, sk_iv = snd p, sk_enc_key = ek, sk_enc_iv = ei\<rparr>
          | _ \<Rightarrow> None) }"

text \<open>The client-to-daemon pair, and the other one in twin-key mode; nothing unless everything worked.\<close>

definition session_keys_setup ::
  "('w, 'k, 'j, 'e) denv_scheme \<Rightarrow> 'j option \<Rightarrow> bool \<Rightarrow> ('w, 'k, 'j, (session_keys \<times> session_keys option) option) dprog" where
  "session_keys_setup E payload twin = do {
     c2d \<leftarrow> fresh_pair E;
     case c2d of
       None \<Rightarrow> ret None
     | Some p \<Rightarrow> do {
         d2c \<leftarrow> (if twin then fresh_pair E else ret None);
         if twin \<and> d2c = None then ret None
         else case ephemeral_key E payload of
             None \<Rightarrow> ret None
           | Some pk \<Rightarrow> do {
               k1 \<leftarrow> encrypt_pair E pk p;
               k2 \<leftarrow> (case d2c of None \<Rightarrow> ret None | Some q \<Rightarrow> encrypt_pair E pk q);
               ret (case k1 of
                      None \<Rightarrow> None
                    | Some a \<Rightarrow> if twin \<and> k2 = None then None else Some (a, k2)) } } }"

definition with_keys :: "session_keys \<times> session_keys option \<Rightarrow> relay_config \<Rightarrow> relay_config" where
  "with_keys ks cfg = cfg\<lparr>rc_rv_e2ee := True, rc_session_aes_key := Some (sk_key (fst ks)),
     rc_session_iv := Some (sk_iv (fst ks)), rc_session_aes_key_d2c := map_option sk_key (snd ks),
     rc_session_iv_d2c := map_option sk_iv (snd ks)\<rparr>"

section \<open>The answer\<close>

definition response_payload ::
  "('w, 'k, 'j, 'e) denv_scheme \<Rightarrow> 'j option \<Rightarrow> (session_keys \<times> session_keys option) option \<Rightarrow> ('w, 'k, 'j, 'j fields) dprog" where
  "response_payload E session_id ks = do {
     p0 \<leftarrow> new_object E;
     p1 \<leftarrow> add_str E ''status'' (Some ''connected'') p0;
     p2 \<leftarrow> add_item E ''sessionId'' session_id p1;
     case ks of
       None \<Rightarrow> ret p2
     | Some (a, Some b) \<Rightarrow> do {
         p3 \<leftarrow> add_str E ''aesKeyC2D'' (Some (sk_enc_key a)) p2;
         p4 \<leftarrow> add_str E ''ivC2D'' (Some (sk_enc_iv a)) p3;
         p5 \<leftarrow> add_str E ''aesKeyD2C'' (Some (sk_enc_key b)) p4;
         add_str E ''ivD2C'' (Some (sk_enc_iv b)) p5 }
     | Some (a, None) \<Rightarrow> do {
         p3 \<leftarrow> add_str E ''sessionAESKey'' (Some (sk_enc_key a)) p2;
         add_str E ''sessionIV'' (Some (sk_enc_iv a)) p3 } }"

definition send_response ::
  "('w, 'k, 'j, 'e) denv_scheme \<Rightarrow> string \<Rightarrow> 'j option \<Rightarrow> (session_keys \<times> session_keys option) option \<Rightarrow> ('w, 'k, 'j, unit) dprog" where
  "send_response E requester session_id ks = do {
     s \<leftarrow> get_st;
     let identifier = text_of (GetStringValue (e_cj E) session_id);
     let name = reply_name (dm_config s) identifier;
     p \<leftarrow> response_payload E session_id ks;
     e0 \<leftarrow> new_object E;
     e1 \<leftarrow> add_item E ''payload'' (object_of E p) e0;
     txt \<leftarrow> print_unformatted E (object_of E p);
     case sign_text E (dm_signing_key s) txt of
       None \<Rightarrow> ret ()
     | Some sig \<Rightarrow> do {
         value \<leftarrow> signed_envelope E e1 (encoded E sig 384);
         ok \<leftarrow> d_alloc E (length identifier + length (my_device (dm_config s)) + 2);
         when_st (ok \<and> value \<noteq> None) (do {
           _ \<leftarrow> dx (d_create_key E name requester);
           _ \<leftarrow> reconnectWorker E;
           _ \<leftarrow> notifyWithRetry E requester name value;
           ret () }) } }"

section \<open>The relay\<close>

text \<open>The configuration as the request has it, before authentication and keys.\<close>

definition request_config :: "('w, 'k, 'j, 'e) denv_scheme \<Rightarrow> u8 \<Rightarrow> 'j option \<Rightarrow> relay_config" where
  "request_config E max_subs payload =
     (let cj = e_cj E; timeout = GetObjectItem cj payload ''timeout'' in
      noports_relay_config_init\<lparr>
        rc_max_subs := max_subs,
        rc_rvd_host := str_field cj payload ''rvdHost'',
        rc_rvd_port := u16_of_dbl (d_ub_u16 E) (GetNumberValue cj (GetObjectItem cj payload ''rvdPort'')),
        rc_local_host := str_field cj payload ''requestedHost'',
        rc_local_port := u16_of_dbl (d_ub_u16 E) (GetNumberValue cj (GetObjectItem cj payload ''requestedPort'')),
        rc_multi := True,
        rc_idle_timeout_ms := (if IsNumber cj timeout then u32_of_dbl (d_ub_u32 E) (GetNumberValue cj timeout) else 0),
        rc_session_id := fit 64 (text_of (str_field cj payload ''sessionId''))\<rparr>)"

text \<open>The keys of an encrypted session. \<open>None\<close> refuses the request.\<close>

definition setup_encryption ::
  "('w, 'k, 'j, 'e) denv_scheme \<Rightarrow> 'j option \<Rightarrow> ('w, 'k, 'j, (session_keys \<times> session_keys option) option option) dprog" where
  "setup_encryption E payload =
     (if \<not> IsTrue (e_cj E) (GetObjectItem (e_cj E) payload ''encryptRvdTraffic'') then ret (Some None)
      else do {
        ks \<leftarrow> session_keys_setup E payload (IsTrue (e_cj E) (GetObjectItem (e_cj E) payload ''twinKeys''));
        ret (case ks of None \<Rightarrow> None | Some k \<Rightarrow> Some (Some k)) })"

definition keep_client_key :: "nat \<Rightarrow> client_key \<Rightarrow> ('w, 'k, 'j, unit) dprog" where
  "keep_client_key slot key =
     when_st (ck_signing_key key \<noteq> None) (do { forgetClientSigningKey slot; upd_key_at slot (\<lambda>_. key) })"

definition run_session ::
  "('w, 'k, 'j, 'e) denv_scheme \<Rightarrow> 'j option \<Rightarrow> string \<Rightarrow> nat \<Rightarrow> client_key \<Rightarrow> ('w, 'k, 'j, unit) dprog" where
  "run_session E payload requester slot key = do {
     s \<leftarrow> get_st;
     let sid = GetObjectItem (e_cj E) payload ''sessionId'';
     cfg \<leftarrow> setup_rvd_auth E payload (request_config E (dm_max_relays s) payload);
     ks \<leftarrow> setup_encryption E payload;
     case ks of
       None \<Rightarrow> sendNptError E (Some requester) (GetStringValue (e_cj E) sid) ''Failed to set up session encryption''
     | Some k \<Rightarrow> do {
         let cfg' = (case k of None \<Rightarrow> cfg | Some ks' \<Rightarrow> with_keys ks' cfg);
         send_response E requester sid k;
         started \<leftarrow> noports_relay_start E slot cfg';
         if \<not> started then ret ()
         else do {
           keep_client_key slot key;
           when_st (cf_on_tunnel_open (dm_config s))
             (emit (Ev_tunnel_open (text_of (rc_local_host cfg')) (rc_local_port cfg') (rc_session_id cfg'))) } } }"

definition open_session ::
  "('w, 'k, 'j, 'e) denv_scheme \<Rightarrow> 'j option \<Rightarrow> string \<Rightarrow> client_key \<Rightarrow> ('w, 'k, 'j, unit) dprog" where
  "open_session E payload requester key = do {
     let cj = e_cj E;
     let session_id = str_field cj payload ''sessionId'';
     if GetObjectItem cj payload ''rvdHost'' = None \<or> GetObjectItem cj payload ''rvdPort'' = None \<or>
        GetObjectItem cj payload ''sessionId'' = None
     then sendNptError E (Some requester) session_id ''Malformed session request: missing rvdHost, rvdPort or sessionId''
     else do {
       slot \<leftarrow> findFreeRelaySlot E;
       case slot of
         None \<Rightarrow> sendNptError E (Some requester) session_id
             (fit 64 (''No relay slots available (max '' @ dec_nat NOPORTS_MAX_RELAYS @ '' active)''))
       | Some i \<Rightarrow> run_session E payload requester i key } }"

text \<open>\<open>_continueNptRequest\<close>. In manager mode there is no list from the policy service.\<close>

definition continueNptRequest ::
  "('w, 'k, 'j, 'e) denv_scheme \<Rightarrow> 'j \<Rightarrow> string \<Rightarrow> string list \<Rightarrow> ('w, 'k, 'j, unit) dprog" where
  "continueNptRequest E env requester policy_po =
     (let cj = e_cj E; payload = GetObjectItem cj (Some env) ''payload'' in
      if \<not> verifyEnvelopeContents cj env 1 then ret ()
      else do {
        key \<leftarrow> checkClientSigningKey E env requester (text_of (str_field cj payload ''sessionId''));
        case key of
          None \<Rightarrow> ret ()
        | Some k \<Rightarrow>
            if GetObjectItem cj payload ''requestedHost'' = None \<or> GetObjectItem cj payload ''requestedPort'' = None then ret ()
            else do {
              cfg \<leftarrow> gets dm_config;
              let rhost = text_of (str_field cj payload ''requestedHost'');
              let rport = u16_of_dbl (d_ub_u16 E) (GetNumberValue cj (GetObjectItem cj payload ''requestedPort''));
              if \<not> permitted cfg policy_po rhost rport then
                sendNptError E (Some requester) (str_field cj payload ''sessionId'') (denial_text cfg policy_po rhost rport)
              else open_session E payload requester k } })"

end
