(* ===== verification/Daemon_Policy.thy ===== *)
theory Daemon_Policy
  imports Daemon_Npt
begin

text \<open>
  Who may ask for what: the manager list, or the policy service asked over a request/response exchange
  that runs across two notifications. One check is in flight at a time; its decision is remembered for
  the requester, and continues the request that waits for it.
\<close>

section \<open>The state of a check\<close>

definition next_policy_req_id :: "('w, 'k, 'j, u32) dprog" where
  "next_policy_req_id = do {
     modify_st (dm_req_counter_update (\<lambda>n. n + 1));
     n \<leftarrow> gets dm_req_counter;
     if n = 0 then do { modify_st (dm_req_counter_update (\<lambda>n. n + 1)); gets dm_req_counter } else ret n }"

definition cleanupPolicyPending :: "('w, 'k, 'j, unit) dprog" where
  "cleanupPolicyPending = modify_st (dm_pending_update (\<lambda>_. no_pending))"

definition check_kind_of :: "pending_type \<Rightarrow> check_kind" where
  "check_kind_of ty = (if ty = POLICY_PING then CHECK_PING else CHECK_NPT)"

definition policyRateLimited :: "('w, 'k, 'j, 'e) denv_scheme \<Rightarrow> string option \<Rightarrow> pending_type \<Rightarrow> ('w, 'k, 'j, bool) dprog" where
  "policyRateLimited E atsign ty =
     (case atsign of
        None \<Rightarrow> ret False
      | Some a \<Rightarrow> do {
          now \<leftarrow> now_ms E;
          cd \<leftarrow> gets dm_cooldown;
          modify_st (dm_cooldown_update (\<lambda>_. snd (noports_policy_cooldown_allows cd (Some a) (check_kind_of ty) now)));
          ret (\<not> fst (noports_policy_cooldown_allows cd (Some a) (check_kind_of ty) now)) })"

definition draw_copy :: "('w, 'k, 'j, 'e) denv_scheme \<Rightarrow> ('w, 'k, 'j, copy_alloc) dprog" where
  "draw_copy E = do {
     a \<leftarrow> d_alloc E 1;
     b \<leftarrow> d_alloc E 1;
     ret (if \<not> a then Copy_no_array else if \<not> b then Copy_no_string else Copy_ok) }"

definition cachePolicyDecision ::
  "('w, 'k, 'j, 'e) denv_scheme \<Rightarrow> string \<Rightarrow> bool \<Rightarrow> string list \<Rightarrow> ('w, 'k, 'j, unit) dprog" where
  "cachePolicyDecision E atsign auth po = do {
     now \<leftarrow> now_ms E;
     al \<leftarrow> draw_copy E;
     modify_st (\<lambda>s. s\<lparr>dm_decisions := snd (noports_policy_cache_store al (dm_decisions s) (Some atsign)
       \<lparr>authorized = auth, permit_open = po\<rparr> now)\<rparr>) }"

definition cached_decision :: "('w, 'k, 'j, 'e) denv_scheme \<Rightarrow> string \<Rightarrow> ('w, 'k, 'j, policy_decision option) dprog" where
  "cached_decision E atsign = do {
     now \<leftarrow> now_ms E;
     al \<leftarrow> draw_copy E;
     gets (\<lambda>s. noports_policy_cache_lookup al (dm_decisions s) (Some atsign) now) }"

section \<open>Asking the policy service\<close>

definition sendPolicyRpcRequest :: "('w, 'k, 'j, 'e) denv_scheme \<Rightarrow> string \<Rightarrow> ('w, 'k, 'j, unit) dprog" where
  "sendPolicyRpcRequest E client_atsign = do {
     s \<leftarrow> get_st;
     let req_id = pp_req_id (dm_pending s);
     p0 \<leftarrow> new_object E;
     p1 \<leftarrow> add_str E ''daemonAtsign'' (cf_atsign (dm_config s)) p0;
     p2 \<leftarrow> add_str E ''daemonDeviceName'' (cf_device_name (dm_config s)) p1;
     p3 \<leftarrow> add_str E ''daemonDeviceGroupName'' (Some []) p2;
     p4 \<leftarrow> add_str E ''clientAtsign'' (Some client_atsign) p3;
     txt \<leftarrow> print_unformatted E (object_of E p4);
     case txt of
       None \<Rightarrow> cleanupPolicyPending
     | Some payload_json \<Rightarrow> do {
         emit (Ev_rpc_request client_atsign req_id);
         r \<leftarrow> dx (d_rpc_send E client_atsign req_id payload_json);
         when_st (r \<noteq> 0) cleanupPolicyPending } }"

text \<open>A new check, which takes the envelope over.\<close>

definition start_check ::
  "('w, 'k, 'j, 'e) denv_scheme \<Rightarrow> pending_type \<Rightarrow> 'j option \<Rightarrow> string \<Rightarrow> ('w, 'k, 'j, unit) dprog" where
  "start_check E ty env requester = do {
     req_id \<leftarrow> next_policy_req_id;
     now \<leftarrow> now_ms E;
     modify_st (dm_pending_update (\<lambda>_. \<lparr>pp_in_use = True, pp_type = ty, pp_req_id = req_id, pp_started_at_ms = now,
       pp_progress_at_ms = now, pp_requesting_atsign = fit 64 requester, pp_envelope = env\<rparr>));
     sendPolicyRpcRequest E requester }"

section \<open>Requests\<close>

definition isManagerAtsign :: "np_config \<Rightarrow> string \<Rightarrow> bool" where
  "isManagerAtsign cfg atsign \<longleftrightarrow> list_ex (\<lambda>m. atsign = m) (cf_manager_list cfg)"

definition handlePing :: "('w, 'k, 'j, 'e) denv_scheme \<Rightarrow> string \<Rightarrow> ('w, 'k, 'j, unit) dprog" where
  "handlePing E from_atsign = do {
     s \<leftarrow> get_st;
     if dm_ping_response s = None then ret ()
     else if policy_mode (dm_config s) then do {
       limited \<leftarrow> policyRateLimited E (Some from_atsign) POLICY_PING;
       if limited then ret ()
       else do {
         cached \<leftarrow> cached_decision E from_atsign;
         case cached of
           Some d \<Rightarrow> when_st (authorized d) (handlePingAuthorized E from_atsign)
         | None \<Rightarrow> do {
             p \<leftarrow> gets dm_pending;
             if pp_in_use p then ret () else start_check E POLICY_PING None from_atsign } } }
     else if \<not> isManagerAtsign (dm_config s) from_atsign then ret ()
     else handlePingAuthorized E from_atsign }"

text \<open>The session id a reply to the envelope is keyed by.\<close>

definition session_of :: "'j cjson \<Rightarrow> 'j \<Rightarrow> string option" where
  "session_of cj env = str_field cj (GetObjectItem cj (Some env) ''payload'') ''sessionId''"

definition npt_by_policy :: "('w, 'k, 'j, 'e) denv_scheme \<Rightarrow> 'j \<Rightarrow> string \<Rightarrow> ('w, 'k, 'j, unit) dprog" where
  "npt_by_policy E env requester = do {
     cached \<leftarrow> cached_decision E requester;
     case cached of
       Some d \<Rightarrow>
         if authorized d then continueNptRequest E env requester (take 16 (permit_open d))
         else sendNptError E (Some requester) (session_of (e_cj E) env) ''Access denied by policy server''
     | None \<Rightarrow> do {
         p \<leftarrow> gets dm_pending;
         if pp_in_use p \<and> pp_type p \<noteq> POLICY_PING then ret ()
         else do {
           when_st (pp_in_use p) cleanupPolicyPending;
           start_check E POLICY_NPT (Some env) requester } } }"

definition handleNptRequest :: "('w, 'k, 'j, 'e) denv_scheme \<Rightarrow> notification \<Rightarrow> string \<Rightarrow> ('w, 'k, 'j, unit) dprog" where
  "handleNptRequest E n requester = do {
     limited \<leftarrow> policyRateLimited E (Some requester) POLICY_NPT;
     if limited \<or> \<not> nt_value_init n then ret ()
     else case nt_value n of
         None \<Rightarrow> ret ()
       | Some txt \<Rightarrow>
           (case cj_parse (e_cj E) txt of
              None \<Rightarrow> ret ()
            | Some env \<Rightarrow>
                if \<not> is_valid_session_id (session_of (e_cj E) env) then ret ()
                else do {
                  v \<leftarrow> verifyEnvelopeSignature E env requester;
                  if v \<noteq> Verified then ret ()
                  else do {
                    cfg \<leftarrow> gets dm_config;
                    if policy_mode cfg then npt_by_policy E env requester
                    else if \<not> isManagerAtsign cfg requester then ret ()
                    else continueNptRequest E env requester [] } }) }"

section \<open>Answers of the policy service\<close>

text \<open>\<open>_atsign_equals\<close>, which only forgives a leading \<open>@\<close>.\<close>

definition strip_at :: "string \<Rightarrow> string" where
  "strip_at a = (if a \<noteq> [] \<and> hd a = CHR ''@'' then tl a else a)"

definition atsign_equals :: "string option \<Rightarrow> string option \<Rightarrow> bool" where
  "atsign_equals a b = (case (a, b) of (Some x, Some y) \<Rightarrow> strip_at x = strip_at y | _ \<Rightarrow> False)"

text \<open>The rules that fit a buffer of 64 bytes, 16 at most. The loop ends with the sixteenth.\<close>

definition usable_rules :: "'j cjson \<Rightarrow> 'j list \<Rightarrow> string list" where
  "usable_rules cj items = take 16 (filter (\<lambda>r. length r < 64) (List.map_filter (cj_string cj) items))"

text \<open>What a response says: authorised or not, and the rules.\<close>

definition policy_verdict :: "'j cjson \<Rightarrow> notification \<Rightarrow> rpc_resp_type \<Rightarrow> bool \<times> string list" where
  "policy_verdict cj n ty =
     (if ty \<noteq> RPC_SUCCESS \<or> \<not> nt_value_init n then (False, [])
      else case nt_value n of
          None \<Rightarrow> (False, [])
        | Some txt \<Rightarrow>
            (case cj_parse cj txt of
               None \<Rightarrow> (False, [])
             | Some resp \<Rightarrow>
                 (case GetObjectItem cj (Some resp) ''payload'' of
                    None \<Rightarrow> (False, [])
                  | Some pl \<Rightarrow>
                      (IsTrue cj (GetObjectItem cj (Some pl) ''authorized''),
                       (case GetObjectItem cj (Some pl) ''permitOpen'' of
                          None \<Rightarrow> []
                        | Some arr \<Rightarrow> if cj_is_array cj arr then usable_rules cj (cj_elements cj arr) else [])))))"

definition deny_pending :: "('w, 'k, 'j, 'e) denv_scheme \<Rightarrow> string \<Rightarrow> ('w, 'k, 'j, unit) dprog" where
  "deny_pending E msg = do {
     p \<leftarrow> gets dm_pending;
     (case pp_envelope p of
        None \<Rightarrow> ret ()
      | Some env \<Rightarrow> when_st (pp_type p = POLICY_NPT)
          (sendNptError E (Some (pp_requesting_atsign p)) (session_of (e_cj E) env) msg));
     cleanupPolicyPending }"

definition allow_pending :: "('w, 'k, 'j, 'e) denv_scheme \<Rightarrow> string list \<Rightarrow> ('w, 'k, 'j, unit) dprog" where
  "allow_pending E po = do {
     p \<leftarrow> gets dm_pending;
     case pp_type p of
       POLICY_PING \<Rightarrow> do { handlePingAuthorized E (pp_requesting_atsign p); cleanupPolicyPending }
     | POLICY_NPT \<Rightarrow> do {
         cleanupPolicyPending;
         case pp_envelope p of None \<Rightarrow> ret () | Some env \<Rightarrow> continueNptRequest E env (pp_requesting_atsign p) po }
     | POLICY_NONE \<Rightarrow> ret () }"

definition handlePolicyResponse :: "('w, 'k, 'j, 'e) denv_scheme \<Rightarrow> notification \<Rightarrow> ('w, 'k, 'j, unit) dprog" where
  "handlePolicyResponse E n = do {
     s \<leftarrow> get_st;
     if nt_key n = None \<or> \<not> atsign_equals (nt_from n) (cf_policy_atsign (dm_config s)) then ret ()
     else case d_rpc_parse_response E n of
         None \<Rightarrow> ret ()
       | Some (ty, req_id) \<Rightarrow>
           if \<not> pp_in_use (dm_pending s) \<or> pp_req_id (dm_pending s) \<noteq> req_id then ret ()
           else if ty = RPC_ACK then do {
             now \<leftarrow> now_ms E;
             modify_st (dm_pending_update (pp_progress_at_ms_update (\<lambda>_. now))) }
           else do {
             let (auth, po) = policy_verdict (e_cj E) n ty;
             cachePolicyDecision E (pp_requesting_atsign (dm_pending s)) auth po;
             if auth then allow_pending E po else deny_pending E ''Access denied by policy server'' } }"

end
