(* ===== verification/Daemon_Loop.thy ===== *)
theory Daemon_Loop
  imports Daemon_Policy
begin

text \<open>
  One round of the daemon's loop: finished relays, client keys, a policy check that took too long, the
  worker's heartbeat, the monitor connection and the message it has, dispatched to its handler. Then
  the life of the whole: rounds of the loop, calls of the public functions, and the steps of the relay
  tasks and of time between them.
\<close>

section \<open>Notifications\<close>

text \<open>The command in a notification's key: the device's tail is found and cut off, the receiver's name and
  one more character are skipped. When nothing but the receiver is left, the C pointer has moved past
  the terminator that was written into the key, into what followed the tail's first character.\<close>

definition notification_tail :: "np_config \<Rightarrow> string \<Rightarrow> string" where
  "notification_tail cfg from_atsign = ''.'' @ my_device cfg @ ''.'' @ NOPORTS_NS @ from_atsign"

definition notification_command :: "np_config \<Rightarrow> string \<Rightarrow> string \<Rightarrow> string \<Rightarrow> string option" where
  "notification_command cfg key from_atsign to_atsign =
     (case strstr key (notification_tail cfg from_atsign) of
        None \<Rightarrow> None
      | Some i \<Rightarrow>
          if \<not> starts_with to_atsign (take i key) then None
          else if length to_atsign = i then Some (drop (i + 1) key)
          else Some (drop (length to_atsign + 1) (take i key)))"

definition notification_key_map :: "(string \<times> notification_key) list" where
  "notification_key_map =
     [([], NK_NONE), (''sshpublickey'', NK_SSHPUBLICKEY), (''ping'', NK_PING), (''ssh_request'', NK_SSH_REQUEST),
      (''npt_request'', NK_NPT_REQUEST), (''graceful_shutdown'', NK_GRACEFUL_SHUTDOWN)]"

definition notification_kind :: "string \<Rightarrow> notification_key" where
  "notification_kind cmd =
     (case List.find (\<lambda>(str, k). cmd = str) (drop 1 (take NOPORTS_NOTIFICATION_KEYS_LEN notification_key_map)) of
        None \<Rightarrow> NK_NONE
      | Some (str, k) \<Rightarrow> k)"

text \<open>The build without the testing shutdown.\<close>

definition dispatch :: "('w, 'k, 'j, 'e) denv_scheme \<Rightarrow> notification \<Rightarrow> string \<Rightarrow> notification_key \<Rightarrow> ('w, 'k, 'j, unit) dprog" where
  "dispatch E n from_atsign k =
     (case k of
        NK_PING \<Rightarrow> handlePing E from_atsign
      | NK_NPT_REQUEST \<Rightarrow> handleNptRequest E n from_atsign
      | _ \<Rightarrow> ret ())"

definition handle_request :: "('w, 'k, 'j, 'e) denv_scheme \<Rightarrow> notification \<Rightarrow> ('w, 'k, 'j, unit) dprog" where
  "handle_request E n =
     (if \<not> nt_value_init n \<or> \<not> nt_key_init n \<or> \<not> nt_id_init n \<or> nt_id n = None \<or> nt_id n = Some ''-1'' \<or>
         \<not> nt_from_init n \<or> \<not> nt_to_init n then ret ()
      else case (nt_from n, nt_to n) of
          (Some f, Some t) \<Rightarrow> do {
            cfg \<leftarrow> gets dm_config;
            ok \<leftarrow> d_alloc E (length (notification_tail cfg f) + 1);
            if \<not> ok then ret ()
            else case nt_key n of
                None \<Rightarrow> halt Panic
              | Some key \<Rightarrow>
                  (case notification_command cfg key f t of
                     None \<Rightarrow> ret ()
                   | Some cmd \<Rightarrow> dispatch E n f (notification_kind cmd)) }
        | _ \<Rightarrow> ret ())"

definition handleNotification :: "('w, 'k, 'j, 'e) denv_scheme \<Rightarrow> notification option \<Rightarrow> ('w, 'k, 'j, unit) dprog" where
  "handleNotification E nt =
     (case nt of
        None \<Rightarrow> halt Panic
      | Some n \<Rightarrow> do {
          cfg \<leftarrow> gets dm_config;
          if policy_mode cfg \<and>
             (case nt_key n of None \<Rightarrow> False | Some key \<Rightarrow> d_rpc_is_response_key E key NOPORTS_NS NOPORTS_POLICY_DOMAIN_NS)
          then (if atsign_equals (nt_from n) (cf_policy_atsign cfg) then handlePolicyResponse E n else ret ())
          else handle_request E n })"

definition message_from :: "message \<Rightarrow> string option" where
  "message_from m =
     (case mg_notification m of None \<Rightarrow> None | Some n \<Rightarrow> if nt_from_init n then nt_from n else None)"

definition handleDecryptFailure :: "('w, 'k, 'j, 'e) denv_scheme \<Rightarrow> message \<Rightarrow> ('w, 'k, 'j, unit) dprog" where
  "handleDecryptFailure E m = do {
     now \<leftarrow> now_ms E;
     at_ms \<leftarrow> gets dm_decrypt_reconnect_at_ms;
     when_st (noports_reconnect_after_decrypt_failure at_ms now) (do {
       now2 \<leftarrow> now_ms E;
       modify_st (dm_decrypt_reconnect_at_ms_update (\<lambda>_. now2));
       _ \<leftarrow> reconnectWorker E;
       ret () });
     s \<leftarrow> get_st;
     when_st (noports_policy_resend_after_decrypt_failure (pp_in_use (dm_pending s)) (message_from m)
         (cf_policy_atsign (dm_config s))) (do {
       req_id \<leftarrow> next_policy_req_id;
       modify_st (dm_pending_update (pp_req_id_update (\<lambda>_. req_id)));
       now3 \<leftarrow> now_ms E;
       modify_st (dm_pending_update (pp_progress_at_ms_update (\<lambda>_. now3)));
       sendPolicyRpcRequest E (pp_requesting_atsign (dm_pending s)) }) }"

section \<open>The loop\<close>

definition finish_relay :: "nat \<Rightarrow> ('w, 'k, 'j, unit) dprog" where
  "finish_relay i = do {
     s \<leftarrow> get_st;
     let r = dm_relays s ! i;
     when_st ((rl_state r = RELAY_STOPPED \<or> rl_state r = RELAY_ERROR) \<and> rl_task_handle r = None) (do {
       when_st (cf_on_tunnel_close (dm_config s)) (emit (Ev_tunnel_close (rc_session_id (rl_config r))));
       upd_relay_at i (rl_state_update (\<lambda>_. RELAY_IDLE));
       forgetClientSigningKey i;
       upd_relay_at i (\<lambda>r. r\<lparr>rl_bytes_in := 0, rl_bytes_out := 0, rl_start_ms := 0, rl_active_sessions := 0,
         rl_config := zero_relay_config\<rparr>) }) }"

definition cleanupFinishedRelays :: "('w, 'k, 'j, unit) dprog" where
  "cleanupFinishedRelays = for_each [0..<NOPORTS_MAX_RELAYS] finish_relay"

definition check_policy_timeout :: "('w, 'k, 'j, 'e) denv_scheme \<Rightarrow> ('w, 'k, 'j, unit) dprog" where
  "check_policy_timeout E = do {
     p \<leftarrow> gets dm_pending;
     when_st (pp_in_use p) (do {
       now \<leftarrow> now_ms E;
       when_st (noports_policy_wait_over (pp_started_at_ms p) (pp_progress_at_ms p) now) (do {
         cachePolicyDecision E (pp_requesting_atsign p) False [];
         deny_pending E ''Policy server did not respond in time'' }) }) }"

definition worker_heartbeat :: "('w, 'k, 'j, 'e) denv_scheme \<Rightarrow> ('w, 'k, 'j, unit) dprog" where
  "worker_heartbeat E = do {
     s \<leftarrow> get_st;
     when_st (dm_worker_keepalive_ms s > 0) (do {
       now \<leftarrow> d_millis E;
       when_st (now - dm_worker_last_used_ms s \<ge> dm_worker_keepalive_ms s) (do {
         hb \<leftarrow> dx (d_send_heartbeat E);
         when_st (hb \<noteq> 0) (do { _ \<leftarrow> reconnectWorker E; ret () });
         worker_used E }) }) }"

definition RECONNECT_COUNT :: u32 where
  "RECONNECT_COUNT = NOPORTS_MONITOR_NOOP_TIMEOUT_MS div NOPORTS_MONITOR_READ_TIMEOUT_MS + 1"

definition set_timeout_counter :: "(u32 \<Rightarrow> u32) \<Rightarrow> ('w, 'k, 'j, unit) dprog" where
  "set_timeout_counter f = modify_st (dm_timeout_counter_update f)"

text \<open>False when the round ends here.\<close>

definition ensure_monitor :: "('w, 'k, 'j, 'e) denv_scheme \<Rightarrow> ('w, 'k, 'j, bool) dprog" where
  "ensure_monitor E = do {
     n \<leftarrow> gets dm_timeout_counter;
     if n * NOPORTS_MONITOR_READ_TIMEOUT_MS > NOPORTS_MONITOR_NOOP_TIMEOUT_MS then do {
       r \<leftarrow> reconnectMonitor E;
       case r of
         Reconnected \<Rightarrow> do { set_timeout_counter (\<lambda>_. 0); ret True }
       | Reconnect_failed \<Rightarrow> do { set_timeout_counter (\<lambda>_. RECONNECT_COUNT); ret False }
       | Rebooting \<Rightarrow> ret False }
     else ret True }"

definition monitor_failed :: "('w, 'k, 'j, 'e) denv_scheme \<Rightarrow> ('w, 'k, 'j, unit) dprog" where
  "monitor_failed E = do {
     heap \<leftarrow> dx (e_free_heap E);
     if heap < NOPORTS_TLS_MIN_FREE_HEAP then d_delay E 500
     else do {
       modify_st (dm_monitor_fail_streak_update (\<lambda>n. n + 1));
       ok \<leftarrow> reconnectWorker E;
       if ok then do {
         streak \<leftarrow> gets dm_monitor_fail_streak;
         when_st (streak \<ge> 3) (do {
           set_timeout_counter (\<lambda>_. RECONNECT_COUNT);
           modify_st (dm_monitor_fail_streak_update (\<lambda>_. 0)) }) }
       else set_timeout_counter (\<lambda>_. RECONNECT_COUNT) } }"

definition read_failed :: "('w, 'k, 'j, 'e) denv_scheme \<Rightarrow> message \<Rightarrow> ('w, 'k, 'j, unit) dprog" where
  "read_failed E m =
     (if mg_type m = Err_parse_notification \<or> mg_type m = Type_zero then set_timeout_counter (\<lambda>n. n + 1)
      else if mg_type m = Err_decrypt_notification then handleDecryptFailure E m
      else monitor_failed E)"

definition handle_message :: "('w, 'k, 'j, 'e) denv_scheme \<Rightarrow> message \<Rightarrow> ('w, 'k, 'j, unit) dprog" where
  "handle_message E m = do {
     modify_st (dm_monitor_fail_streak_update (\<lambda>_. 0));
     case mg_type m of
       Msg_empty \<Rightarrow> set_timeout_counter (\<lambda>n. n + 1)
     | Err_read \<Rightarrow> set_timeout_counter (\<lambda>_. RECONNECT_COUNT)
     | Msg_notification \<Rightarrow> do {
         set_timeout_counter (\<lambda>_. 0);
         handleNotification E (mg_notification m) }
     | Msg_data_response \<Rightarrow> set_timeout_counter (\<lambda>_. 0)
     | Msg_error_response \<Rightarrow> set_timeout_counter (\<lambda>_. 0)
     | Err_parse_notification \<Rightarrow> set_timeout_counter (\<lambda>_. RECONNECT_COUNT)
     | Err_decrypt_notification \<Rightarrow> handleDecryptFailure E m
     | Type_zero \<Rightarrow> ret ()
     | Type_unknown \<Rightarrow> ret () }"

definition monitor_round :: "('w, 'k, 'j, 'e) denv_scheme \<Rightarrow> ('w, 'k, 'j, unit) dprog" where
  "monitor_round E = do {
     go \<leftarrow> ensure_monitor E;
     if \<not> go then ret ()
     else do {
       (r, m) \<leftarrow> dx (d_monitor_read E);
       emit (Ev_message m);
       if r \<noteq> 0 then read_failed E m else handle_message E m } }"

definition daemon_loop :: "('w, 'k, 'j, 'e) denv_scheme \<Rightarrow> ('w, 'k, 'j, unit) dprog" where
  "daemon_loop E = do {
     s \<leftarrow> get_st;
     if dm_state s \<noteq> DAEMON_MONITORING \<or> \<not> dm_should_run s then ret ()
     else do {
       cleanupFinishedRelays;
       checkClientKeys E;
       check_policy_timeout E;
       worker_heartbeat E;
       monitor_round E } }"

section \<open>The other public functions\<close>

definition stop_slot :: "('w, 'k, 'j, 'e) denv_scheme \<Rightarrow> nat \<Rightarrow> ('w, 'k, 'j, unit) dprog" where
  "stop_slot E i = do {
     running \<leftarrow> noports_relay_is_running E i;
     when_st running (noports_relay_stop i) }"

definition daemon_stop :: "('w, 'k, 'j, 'e) denv_scheme \<Rightarrow> ('w, 'k, 'j, unit) dprog" where
  "daemon_stop E = do {
     modify_st (dm_should_run_update (\<lambda>_. False));
     for_each [0..<NOPORTS_MAX_RELAYS] (stop_slot E);
     for_each [0..<NOPORTS_MAX_RELAYS] forgetClientSigningKey;
     set_daemon_state DAEMON_STOPPED }"

definition isRunning :: "('w, 'k, 'j) daemon \<Rightarrow> bool" where
  "isRunning s \<longleftrightarrow> dm_state s = DAEMON_MONITORING \<and> dm_should_run s"

fun count_relays :: "('w, 'k, 'j, 'e) denv_scheme \<Rightarrow> nat list \<Rightarrow> u8 \<Rightarrow> ('w, 'k, 'j, u8) dprog" where
  "count_relays E [] n = ret n"
| "count_relays E (i # is) n = do {
     running \<leftarrow> noports_relay_is_running E i;
     r \<leftarrow> gets (\<lambda>s. dm_relays s ! i);
     count_relays E is (if \<not> running then n else if rc_multi (rl_config r) then n + rl_active_sessions r else n + 1) }"

definition getActiveRelayCount :: "('w, 'k, 'j, 'e) denv_scheme \<Rightarrow> ('w, 'k, 'j, u8) dprog" where
  "getActiveRelayCount E = count_relays E [0..<NOPORTS_MAX_RELAYS] 0"

definition setWorkerKeepaliveMs :: "('w, 'k, 'j, 'e) denv_scheme \<Rightarrow> u32 \<Rightarrow> ('w, 'k, 'j, unit) dprog" where
  "setWorkerKeepaliveMs E ms = do {
     modify_st (dm_worker_keepalive_ms_update (\<lambda>_. ms));
     worker_used E }"

definition getThroughput :: "('w, 'k, 'j) daemon \<Rightarrow> u32 \<times> u32" where
  "getThroughput s = (sum_list (map rl_bytes_in (dm_relays s)), sum_list (map rl_bytes_out (dm_relays s)))"

definition setMaxRelays :: "u8 \<Rightarrow> ('w, 'k, 'j, unit) dprog" where
  "setMaxRelays mx = modify_st (dm_max_relays_update
     (\<lambda>_. if mx \<ge> 1 \<and> unat mx \<le> NOPORTS_MAX_RELAYS then mx else word_of_nat NOPORTS_MAX_RELAYS))"

end
