(* ===== verification/Daemon_Begin.thy ===== *)
theory Daemon_Begin
  imports Daemon_Loop
begin

text \<open>
  The constructor and \<open>begin()\<close>: the configuration is validated, the atServer located, the keys loaded
  and checked, both connections authenticated and the monitor started. The life of a daemon is a run
  of its public functions, with steps of the relay tasks and of the outside world in between.
\<close>

section \<open>Construction\<close>

definition new_relay :: "'k relay" where
  "new_relay = \<lparr>rl_config = zero_relay_config, rl_state = RELAY_IDLE, rl_task_handle = None, rl_rvd_client = None,
     rl_local_client = None, rl_should_run = False, rl_bytes_in = 0, rl_bytes_out = 0, rl_start_ms = 0,
     rl_active_sessions = 0, rl_encrypter = None, rl_decrypter = None\<rparr>"

definition new_daemon :: "'w \<Rightarrow> ('w, 'k, 'j) daemon" where
  "new_daemon w =
     \<lparr>dm_world = w, dm_trace = [], dm_halted = None, dm_diverged = False, dm_req_counter = 0,
      dm_state = DAEMON_UNINITIALIZED, dm_config = noports_config_init, dm_should_run = False, dm_last_error = [],
      dm_monitor_ctx = False, dm_worker_ctx = False, dm_atkeys = False, dm_signing_key = None, dm_pkam_signing_key = None,
      dm_monitor_options = None, dm_worker_options = None, dm_ping_response = None, dm_monitor_regex = None,
      dm_root_host = [], dm_root_port = 0, dm_via_proxy = False, dm_atserver_host = [], dm_atserver_port = 0,
      dm_relays = replicate NOPORTS_MAX_RELAYS new_relay, dm_client_keys = replicate NOPORTS_MAX_RELAYS no_client_key,
      dm_last_key_check_ms = 0, dm_timeout_counter = 0, dm_reconnect_failures = 0, dm_monitor_fail_streak = 0,
      dm_worker_keepalive_ms = NOPORTS_WORKER_KEEPALIVE_MS, dm_worker_last_used_ms = 0, dm_max_relays = 2,
      dm_pending = no_pending, dm_cooldown = noports_policy_cooldown_init, dm_decisions = [],
      dm_decrypt_reconnect_at_ms = -1\<rparr>"

definition freeResources :: "('w, 'k, 'j, unit) dprog" where
  "freeResources = modify_st (\<lambda>s. s\<lparr>dm_monitor_ctx := False, dm_worker_ctx := False, dm_atkeys := False,
     dm_signing_key := None, dm_pkam_signing_key := None, dm_monitor_options := None, dm_worker_options := None,
     dm_ping_response := None, dm_monitor_regex := None, dm_decisions := noports_policy_cache_free (dm_decisions s),
     dm_config := cf_enrollment_id_update (\<lambda>_. None) (dm_config s)\<rparr>)"

section \<open>The root server\<close>

text \<open>Whether the specification names a reverse proxy, and either what is wrong with it or the host and
  the port. A host buffer has 254 bytes.\<close>

definition parse_host_port :: "string \<Rightarrow> string + (string \<times> u16)" where
  "parse_host_port spec =
     (case strchr spec CHR '':'' of
        None \<Rightarrow> Inr (fit 254 spec, NOPORTS_DEFAULT_ROOT_PORT)
      | Some host_len \<Rightarrow>
          if host_len = 0 \<or> host_len \<ge> 254 then Inl ''Invalid host in root domain spec''
          else case strtol10 (drop (host_len + 1) spec) of
              None \<Rightarrow> Inl ''Invalid port in root domain spec''
            | Some (port_val, rest) \<Rightarrow>
                if rest \<noteq> [] \<or> port_val < 1 \<or> port_val > UINT16_MAX then Inl ''Invalid port in root domain spec''
                else Inr (fit 254 (take host_len spec), word_of_int port_val))"

definition parse_root_domain :: "string option \<Rightarrow> bool \<times> (string + (string \<times> u16))" where
  "parse_root_domain root_domain =
     (case root_domain of
        None \<Rightarrow> (False, Inr (fit 254 NOPORTS_DEFAULT_ROOT_HOST, NOPORTS_DEFAULT_ROOT_PORT))
      | Some spec \<Rightarrow>
          if starts_with ''proxy:'' spec then
            (True, if drop 6 spec = [] then Inl ''No host given after 'proxy:' in root domain spec''
                   else parse_host_port (drop 6 spec))
          else (False, parse_host_port spec))"

section \<open>The stages of begin()\<close>

definition refuse :: "string \<Rightarrow> ('w, 'k, 'j, bool) dprog" where
  "refuse msg = do { setError msg; set_daemon_state DAEMON_ERROR; ret False }"

definition seed_req_counter :: "('w, 'k, 'j, 'e) denv_scheme \<Rightarrow> ('w, 'k, 'j, unit) dprog" where
  "seed_req_counter E = do {
     tv \<leftarrow> dx (d_gettimeofday E);
     case tv of
       Some (sec, usec) \<Rightarrow>
         if sec > 1735689600 then
           modify_st (dm_req_counter_update (\<lambda>_. word_of_nat (unat sec * 1000000 + unat usec)))
         else do { r \<leftarrow> dx (e_random E); modify_st (dm_req_counter_update (\<lambda>_. r)) }
     | None \<Rightarrow> do { r \<leftarrow> dx (e_random E); modify_st (dm_req_counter_update (\<lambda>_. r)) } }"

definition missing :: "string option \<Rightarrow> bool" where
  "missing x \<longleftrightarrow> x = None \<or> x = Some []"

definition check_config :: "('w, 'k, 'j, 'e) denv_scheme \<Rightarrow> ('w, 'k, 'j, bool) dprog" where
  "check_config E = do {
     cfg \<leftarrow> gets dm_config;
     if missing (cf_atsign cfg) then refuse ''atSign is required''
     else if missing (cf_device_name cfg) then refuse ''device_name is required''
     else if cf_manager_list cfg = [] \<and> missing (cf_policy_atsign cfg) then
       refuse ''At least one manager atSign is required (or set a policy atSign)''
     else do {
       ok \<leftarrow> d_alloc E (cf_policy_cache_size cfg);
       modify_st (dm_decisions_update (\<lambda>_. snd (noports_policy_cache_init ok (cf_policy_cache_size cfg))));
       if fst (noports_policy_cache_init ok (cf_policy_cache_size cfg)) \<noteq> 0 then
         refuse (''policy_cache_size must be 0-'' @ dec_nat NOPORTS_POLICY_CACHE_MAX_SIZE)
       else if cf_pkam_private_key_base64 cfg = None \<or> cf_encrypt_private_key_base64 cfg = None \<or>
               cf_encrypt_public_key_base64 cfg = None
       then refuse ''atKeys (PKAM and encryption keys) are required''
       else ret True } }"

definition set_root :: "('w, 'k, 'j, bool) dprog" where
  "set_root = do {
     cfg \<leftarrow> gets dm_config;
     modify_st (dm_via_proxy_update (\<lambda>_. fst (parse_root_domain (cf_root_domain cfg))));
     case snd (parse_root_domain (cf_root_domain cfg)) of
       Inl msg \<Rightarrow> refuse msg
     | Inr (host, port) \<Rightarrow> do {
         modify_st (\<lambda>s. s\<lparr>dm_root_host := host,
           dm_root_port := (if cf_root_port cfg \<noteq> 0 then cf_root_port cfg else port)\<rparr>);
         ret True } }"

definition resolve_atserver :: "('w, 'k, 'j, 'e) denv_scheme \<Rightarrow> ('w, 'k, 'j, unit) dprog" where
  "resolve_atserver E = do {
     s \<leftarrow> get_st;
     if dm_via_proxy s then
       modify_st (\<lambda>s. s\<lparr>dm_atserver_host := fit 254 (dm_root_host s), dm_atserver_port := dm_root_port s\<rparr>)
     else do {
       (r, host, port) \<leftarrow> dx (d_lookup_once E (dm_root_host s) (dm_root_port s) (my_atsign (dm_config s)));
       case host of
         None \<Rightarrow> ret ()
       | Some h \<Rightarrow> when_st (r = 0 \<and> port > 0)
           (modify_st (\<lambda>s. s\<lparr>dm_atserver_host := fit 254 h, dm_atserver_port := port\<rparr>)) } }"

text \<open>The four RSA keys; the two private ones are kept for signing. \<open>None\<close> when one does not parse.\<close>

definition parse_atkeys :: "atchops \<Rightarrow> np_config \<Rightarrow> string + (rsa_key \<times> rsa_key)" where
  "parse_atkeys ops cfg =
     (if (case cf_pkam_public_key_base64 cfg of None \<Rightarrow> False | Some k \<Rightarrow> rsa_populate_public ops k = None)
      then Inl ''Failed to populate PKAM public key''
      else case rsa_populate_private ops (text_of (cf_pkam_private_key_base64 cfg)) of
          None \<Rightarrow> Inl ''Failed to populate PKAM private key''
        | Some pkam \<Rightarrow>
            if (case cf_encrypt_public_key_base64 cfg of None \<Rightarrow> False | Some k \<Rightarrow> rsa_populate_public ops k = None)
            then Inl ''Failed to populate encrypt public key''
            else case rsa_populate_private ops (text_of (cf_encrypt_private_key_base64 cfg)) of
                None \<Rightarrow> Inl ''Failed to populate encrypt private key''
              | Some enc \<Rightarrow> Inr (pkam, enc))"

text \<open>Two settings whose failure only leaves a warning.\<close>

definition optional_keys :: "('w, 'k, 'j, 'e) denv_scheme \<Rightarrow> np_config \<Rightarrow> ('w, 'k, 'j, unit) dprog" where
  "optional_keys E cfg = do {
     (case cf_self_encryption_key_base64 cfg of None \<Rightarrow> ret () | Some k \<Rightarrow> do { _ \<leftarrow> dx (d_set_key_option E k); ret () });
     (case cf_enrollment_id cfg of None \<Rightarrow> ret () | Some k \<Rightarrow> do { _ \<leftarrow> dx (d_set_key_option E k); ret () }) }"

text \<open>A copy of a private key to sign with; it has to be RSA-2048, since every signature goes into a
  buffer of 256 bytes. The key is stored before it is checked. The error codes in the messages are left
  out here and in \<open>authenticate\<close>.\<close>

definition clone_signing_key ::
  "('w, 'k, 'j, 'e) denv_scheme \<Rightarrow> string \<Rightarrow> string \<Rightarrow> (rsa_key \<Rightarrow> ('w, 'k, 'j) daemon \<Rightarrow> ('w, 'k, 'j) daemon) \<Rightarrow> rsa_key \<Rightarrow>
   ('w, 'k, 'j, bool) dprog" where
  "clone_signing_key E what origin store key = do {
     ok \<leftarrow> d_alloc E 1;
     if \<not> ok then refuse (''Failed to allocate '' @ what)
     else do {
       r \<leftarrow> dx (d_rsa_clone E);
       if r \<noteq> 0 then refuse (''Failed to clone '' @ what)
       else do {
         modify_st (store key);
         if \<not> is_rsa2048 key then refuse (origin @ '' is not RSA-2048; refusing to sign with it'') else ret True } } }"

definition load_keys :: "('w, 'k, 'j, 'e) denv_scheme \<Rightarrow> ('w, 'k, 'j, bool) dprog" where
  "load_keys E = do {
     cfg \<leftarrow> gets dm_config;
     ok \<leftarrow> d_alloc E 1;
     if \<not> ok then refuse ''Failed to allocate atkeys''
     else do {
       modify_st (dm_atkeys_update (\<lambda>_. True));
       case parse_atkeys (e_ops E) cfg of
         Inl msg \<Rightarrow> refuse msg
       | Inr (pkam, enc) \<Rightarrow> do {
           optional_keys E cfg;
           ok1 \<leftarrow> clone_signing_key E ''signing key'' ''Encrypt private key'' (\<lambda>k. dm_signing_key_update (\<lambda>_. Some k)) enc;
           if \<not> ok1 then ret False
           else clone_signing_key E ''PKAM signing key'' ''PKAM private key'' (\<lambda>k. dm_pkam_signing_key_update (\<lambda>_. Some k)) pkam } } }"

definition go_online :: "('w, 'k, 'j, 'e) denv_scheme \<Rightarrow> ('w, 'k, 'j, bool) dprog" where
  "go_online E = do {
     set_daemon_state DAEMON_AUTHENTICATING;
     ok \<leftarrow> authenticate E;
     if \<not> ok then do { set_daemon_state DAEMON_ERROR; ret False }
     else do {
       buildPingResponse E;
       publishPublicSigningKey E;
       cfg \<leftarrow> gets dm_config;
       when_st (\<not> cf_hide cfg) (publishDeviceInfo E);
       ok2 \<leftarrow> startMonitor E;
       if \<not> ok2 then do { set_daemon_state DAEMON_ERROR; ret False }
       else do {
         modify_st (\<lambda>s. s\<lparr>dm_should_run := True, dm_state := DAEMON_MONITORING\<rparr>);
         worker_used E;
         ret True } } }"

definition begin_daemon :: "('w, 'k, 'j, 'e) denv_scheme \<Rightarrow> np_config \<Rightarrow> ('w, 'k, 'j, bool) dprog" where
  "begin_daemon E cfg = do {
     freeResources;
     set_daemon_state DAEMON_INITIALIZING;
     modify_st (dm_config_update (\<lambda>_. cfg));
     seed_req_counter E;
     eid \<leftarrow> d_dup E (cf_enrollment_id cfg);
     modify_st (dm_config_update (cf_enrollment_id_update (\<lambda>_. eid)));
     ok1 \<leftarrow> check_config E;
     if \<not> ok1 then ret False
     else do {
       ok2 \<leftarrow> set_root;
       if \<not> ok2 then ret False
       else do {
         resolve_atserver E;
         ok3 \<leftarrow> load_keys E;
         if \<not> ok3 then ret False else go_online E } } }"

section \<open>A daemon's life\<close>

text \<open>The program calls \<open>begin()\<close>, also again after a failure, and then \<open>loop()\<close> and the other public functions. In between
  a relay's task changes its relay in any way but \<open>should_run\<close>, which only the daemon writes, and the
  world moves. Nothing happens once the chip has restarted or crashed.\<close>

inductive daemon_step ::
  "('w, 'k, 'j, 'e) denv_scheme \<Rightarrow> np_config \<Rightarrow> ('w, 'k, 'j) daemon \<Rightarrow> ('w, 'k, 'j) daemon \<Rightarrow> bool"
  for E :: "('w, 'k, 'j, 'e) denv_scheme" and cfg :: np_config where
  Begin: "dm_halted s = None \<Longrightarrow> daemon_step E cfg s (post (begin_daemon E cfg) s)"
| Loop: "dm_halted s = None \<Longrightarrow> daemon_step E cfg s (post (daemon_loop E) s)"
| Stop: "dm_halted s = None \<Longrightarrow> daemon_step E cfg s (post (daemon_stop E) s)"
| Keepalive: "dm_halted s = None \<Longrightarrow> daemon_step E cfg s (post (setWorkerKeepaliveMs E ms) s)"
| Max_relays: "dm_halted s = None \<Longrightarrow> daemon_step E cfg s (post (setMaxRelays k) s)"
| Count: "dm_halted s = None \<Longrightarrow> daemon_step E cfg s (post (getActiveRelayCount E) s)"
| Relay: "i < length (dm_relays s) \<Longrightarrow> rl_should_run r = rl_should_run (dm_relays s ! i) \<Longrightarrow>
    daemon_step E cfg s (s\<lparr>dm_relays := (dm_relays s)[i := r]\<rparr>)"
| World: "daemon_step E cfg s (s\<lparr>dm_world := w\<rparr>)"

inductive reachable ::
  "('w, 'k, 'j, 'e) denv_scheme \<Rightarrow> np_config \<Rightarrow> ('w, 'k, 'j) daemon \<Rightarrow> bool"
  for E :: "('w, 'k, 'j, 'e) denv_scheme" and cfg :: np_config where
  New: "reachable E cfg (new_daemon w)"
| Step: "reachable E cfg s \<Longrightarrow> daemon_step E cfg s t \<Longrightarrow> reachable E cfg t"

end
