(* ===== verification/Daemon_Steps.thy ===== *)
theory Daemon_Steps
  imports Daemon_Begin
begin

text \<open>
  How the daemon's operations are followed: steps that start no relay (\<open>safe_step\<close>, kept by every operation but
  the ones that start or remember something). The callbacks of the enrollment check run inside the daemon's own state.
\<close>

section \<open>Steps that start nothing\<close>

text \<open>A step that starts no relay and leaves the configuration, the pending check, the remembered
  decisions and the daemon's state as they are.\<close>

definition starts_nothing :: "ev list \<Rightarrow> bool" where
  "starts_nothing tr \<longleftrightarrow> (\<forall>i own. Ev_relay_start i own \<notin> set tr)"

definition safe_step :: "('w, 'k, 'j) daemon \<Rightarrow> ('w, 'k, 'j) daemon \<Rightarrow> bool" where
  "safe_step s s' \<longleftrightarrow> (\<exists>tr. dm_trace s' = dm_trace s @ tr \<and> starts_nothing tr) \<and>
     dm_config s' = dm_config s \<and> dm_pending s' = dm_pending s \<and> dm_decisions s' = dm_decisions s \<and> dm_state s' = dm_state s"

lemma starts_nothing_simps [simp]:
  "starts_nothing []" "starts_nothing (a @ b) \<longleftrightarrow> starts_nothing a \<and> starts_nothing b"
  "starts_nothing (e # es) \<longleftrightarrow> (\<forall>i own. e \<noteq> Ev_relay_start i own) \<and> starts_nothing es"
  by (auto simp: starts_nothing_def)

lemma safe_step_preorder [io_rule]: "preorder_rel safe_step"
proof (rule preorder_relI)
  fix s t u :: "('w, 'k, 'j) daemon"
  show "safe_step s s" by (simp add: safe_step_def)
  assume st: "safe_step s t" and tu: "safe_step t u"
  obtain a where a: "dm_trace t = dm_trace s @ a" "starts_nothing a" using st unfolding safe_step_def by blast
  obtain b where b: "dm_trace u = dm_trace t @ b" "starts_nothing b" using tu unfolding safe_step_def by blast
  have "\<exists>tr. dm_trace u = dm_trace s @ tr \<and> starts_nothing tr" using a b by (intro exI [of _ "a @ b"]) simp
  then show "safe_step s u" using st tu unfolding safe_step_def by simp
qed

lemma net_safe: "net_step s s' \<Longrightarrow> safe_step s s'"
proof -
  assume n: "net_step s s'"
  then obtain tr where tr: "dm_trace s' = dm_trace s @ tr" "\<forall>e \<in> set tr. net_event e" unfolding net_step_def by blast
  then have "starts_nothing tr" by (auto simp: starts_nothing_def)
  with tr(1) n show ?thesis unfolding net_step_def safe_step_def by simp
qed

lemma safe_net: "state_io_rel net_step m \<Longrightarrow> state_io_rel safe_step m"
  by (auto simp: state_io_rel_post intro: net_safe)

lemma safe_modify:
  "(\<And>s. dm_trace (f s) = dm_trace s \<and> dm_config (f s) = dm_config s \<and> dm_pending (f s) = dm_pending s \<and>
     dm_decisions (f s) = dm_decisions s \<and> dm_state (f s) = dm_state s) \<Longrightarrow> state_io_rel safe_step (modify_st f)"
  by (simp add: state_io_rel_post safe_step_def)

lemma safe_emit: "(\<And>i own. e \<noteq> Ev_relay_start i own) \<Longrightarrow> state_io_rel safe_step (emit e)"
  by (simp add: state_io_rel_post safe_step_def)

lemma safe_prims [io_intro]:
  "state_io_rel safe_step (dx f)" "state_io_rel safe_step (halt h)" "state_io_rel safe_step (setError msg)"
  "state_io_rel safe_step (d_millis E)" "state_io_rel safe_step (now_ms E)" "state_io_rel safe_step (d_alloc E n)"
  "state_io_rel safe_step (d_strdup E x)" "state_io_rel safe_step (d_dup E y)" "state_io_rel safe_step (new_object E)"
  "state_io_rel safe_step (add_item E name v obj)" "state_io_rel safe_step (add_str E name sv obj)"
  "state_io_rel safe_step (print_unformatted E v)" "state_io_rel safe_step (d_delay E ms)"
  "state_io_rel safe_step (reconnectMonitor E)" "state_io_rel safe_step (reconnectWorker E)"
  "state_io_rel safe_step (notifyWithRetry E to' name value)" "state_io_rel safe_step (sendNptError E to'' sid msg)"
  "state_io_rel safe_step (handlePingAuthorized E a)" "state_io_rel safe_step (worker_used E)"
  by (rule safe_net, intro io_intro)+

lemma safe_slots [io_intro]:
  "state_io_rel safe_step (upd_relay_at i g)" "state_io_rel safe_step (upd_key_at i k)"
  "state_io_rel safe_step (forgetClientSigningKey i)" "state_io_rel safe_step (noports_relay_stop i)"
  "state_io_rel safe_step (noports_relay_is_running E i)" "state_io_rel safe_step (keep_client_key i key)"
proof -
  show r: "state_io_rel safe_step (upd_relay_at i g)" for i g by (simp add: state_io_rel_post safe_step_def)
  show k: "state_io_rel safe_step (upd_key_at i k)" for i k by (simp add: state_io_rel_post safe_step_def)
  show f: "state_io_rel safe_step (forgetClientSigningKey i)" unfolding forgetClientSigningKey_def by (rule k)
  show "state_io_rel safe_step (noports_relay_stop i)" unfolding noports_relay_stop_def
    by (intro io_rule r safe_emit) simp
  show "state_io_rel safe_step (noports_relay_is_running E i)" unfolding noports_relay_is_running_def
    by (intro io_rule io_intro r)
  show "state_io_rel safe_step (keep_client_key i key)" unfolding keep_client_key_def forgetClientSigningKey_def
    by (intro io_rule k)
qed

subsection \<open>Callbacks\<close>

definition on_first :: "('s \<Rightarrow> 's \<Rightarrow> bool) \<Rightarrow> 's \<times> 'c \<Rightarrow> 's \<times> 'c \<Rightarrow> bool" where
  "on_first P x y \<longleftrightarrow> P (fst x) (fst y)"

lemma on_first_preorder [io_rule]: "preorder_rel P \<Longrightarrow> preorder_rel (on_first P)"
  by (auto simp: preorder_rel_def on_first_def)

lemma on_first_with_ctx: "state_io_rel P m \<Longrightarrow> state_io_rel (on_first P) (with_ctx m)"
  by (auto simp: state_io_rel_def with_ctx_def on_first_def split: prod.split) (metis snd_conv)

lemma on_first_set_ctx: "preorder_rel P \<Longrightarrow> state_io_rel (on_first P) (set_ctx c)"
  by (auto simp: state_io_rel_def set_ctx_def on_first_def preorder_rel_def)

lemma run_ctx_io: "state_io_rel (on_first P) m \<Longrightarrow> state_io_rel P (run_ctx c m)"
  by (auto simp: state_io_rel_def run_ctx_def on_first_def split: prod.split) (metis fst_conv snd_conv)

lemma verify_enrollment_io:
  "preorder_rel P \<Longrightarrow> (\<And>u. state_io_rel P (look u)) \<Longrightarrow>
   state_io_rel P (noports_verify_enrollment_signature cj ops mem print look env requester)"
  unfolding noports_verify_enrollment_signature_def by (intro io_rule; assumption?; simp?)

lemma io_case_http [io_rule]:
  "(\<And>a b c. r = Http_ok a b c \<Longrightarrow> state_io_rel P (f a b c)) \<Longrightarrow> (\<And>k. r = Http_status k \<Longrightarrow> state_io_rel P (g k)) \<Longrightarrow>
   (r = Http_read_timeout \<Longrightarrow> state_io_rel P m) \<Longrightarrow> (r = Http_error \<Longrightarrow> state_io_rel P n) \<Longrightarrow>
   state_io_rel P (case r of Http_ok a b c \<Rightarrow> f a b c | Http_status k \<Rightarrow> g k | Http_read_timeout \<Rightarrow> m | Http_error \<Rightarrow> n)"
  by (cases r) auto

lemma safe_lookup_at [io_intro]: "state_io_rel safe_step (lookup_at E host port uri tmo)"
  unfolding lookup_at_def read_body_def by (intro io_rule io_intro)

lemma safe_findAtServer [io_intro]: "state_io_rel safe_step (findAtServer E a)"
  unfolding findAtServer_def by (intro io_rule io_intro)

lemma safe_lookupSigningKey: "state_io_rel (on_first safe_step) (lookupSigningKey E uri)"
  unfolding lookupSigningKey_def own_lookup_def
  by (intro io_rule on_first_with_ctx on_first_set_ctx io_intro)

lemma io_case_es [io_rule]:
  "(\<And>k. r = ES_VERIFIED k \<Longrightarrow> state_io_rel P (a k)) \<Longrightarrow> (\<And>w. r = ES_REFUSED w \<Longrightarrow> state_io_rel P (b w)) \<Longrightarrow>
   (\<And>w. r = ES_UNCHECKED w \<Longrightarrow> state_io_rel P (c w)) \<Longrightarrow> (r = ES_ABSENT \<Longrightarrow> state_io_rel P d) \<Longrightarrow>
   state_io_rel P (case r of ES_VERIFIED k \<Rightarrow> a k | ES_REFUSED w \<Rightarrow> b w | ES_UNCHECKED w \<Rightarrow> c w | ES_ABSENT \<Rightarrow> d)"
  by (cases r) auto

lemma safe_checkClientSigningKey [io_intro]: "state_io_rel safe_step (checkClientSigningKey E env who sid)"
  unfolding checkClientSigningKey_def refuse_session_def draw_mem_def
  by (intro io_rule io_intro run_ctx_io verify_enrollment_io safe_lookupSigningKey)

lemma safe_try_locations [io_intro]: "state_io_rel safe_step (try_locations E host port uri k tmo ls err)"
proof (induction ls arbitrary: err)
  case Nil
  show ?case by (simp add: io_ret [OF safe_step_preorder])
next
  case (Cons l ls)
  then show ?case unfolding try_locations.simps by (intro io_rule io_intro)
qed

lemma safe_checkKey [io_intro]: "state_io_rel safe_step (checkKey E i)"
  unfolding checkKey_def check_known_server_def check_found_server_def withdrawn_to_def watched_def budget_left_def Let_def
  by (intro io_rule io_intro)

lemma safe_checkClientKeys [io_intro]: "state_io_rel safe_step (checkClientKeys E)"
  unfolding checkClientKeys_def check_due_key_def settle_slot_def
  by (intro io_rule io_intro safe_modify) simp

lemma safe_find_free [io_intro]: "state_io_rel safe_step (find_free E is)"
proof (induction "is")
  case Nil
  show ?case by (simp add: io_ret [OF safe_step_preorder])
next
  case (Cons j js)
  then show ?case unfolding find_free.simps by (intro io_rule io_intro)
qed

lemma safe_setup [io_intro]:
  "state_io_rel safe_step (findFreeRelaySlot E)" "state_io_rel safe_step (setup_rvd_auth E payload cfg)"
  "state_io_rel safe_step (setup_encryption E payload)" "state_io_rel safe_step (send_response E who sid ks)"
proof -
  have enc [io_intro]: "state_io_rel safe_step (encrypt_pair E pk p)" "state_io_rel safe_step (fresh_pair E)" for pk p
    unfolding encrypt_pair_def rsa_encrypt_b64_def fresh_pair_def by (intro io_rule io_intro)+
  have env [io_intro]: "state_io_rel safe_step (signed_envelope E e1 b64)" for e1 b64
    unfolding signed_envelope_def by (intro io_rule io_intro)
  show "state_io_rel safe_step (findFreeRelaySlot E)" unfolding findFreeRelaySlot_def by (intro io_rule io_intro)
  show "state_io_rel safe_step (setup_rvd_auth E payload cfg)"
    unfolding setup_rvd_auth_def legacy_auth_def escr_setup_def Let_def by (intro io_rule io_intro)
  show "state_io_rel safe_step (setup_encryption E payload)"
    unfolding setup_encryption_def session_keys_setup_def by (intro io_rule io_intro)
  show "state_io_rel safe_step (send_response E who sid ks)"
    unfolding send_response_def response_payload_def Let_def by (intro io_rule io_intro)
qed

lemma safe_policy [io_intro]:
  "state_io_rel safe_step (policyRateLimited E a ty)" "state_io_rel safe_step (cached_decision E who)"
  "state_io_rel safe_step next_policy_req_id" "state_io_rel safe_step (draw_copy E)"
  unfolding policyRateLimited_def cached_decision_def next_policy_req_id_def draw_copy_def
  by (intro io_rule io_intro safe_modify conjI; simp)+

lemma safe_cleanup [io_intro]: "state_io_rel safe_step cleanupFinishedRelays"
  unfolding cleanupFinishedRelays_def finish_relay_def Let_def
  by (intro io_rule io_intro safe_emit) simp

lemma io_case_reconnection [io_rule]:
  "(r = Reconnected \<Longrightarrow> state_io_rel P a) \<Longrightarrow> (r = Reconnect_failed \<Longrightarrow> state_io_rel P b) \<Longrightarrow> (r = Rebooting \<Longrightarrow> state_io_rel P c) \<Longrightarrow>
   state_io_rel P (case r of Reconnected \<Rightarrow> a | Reconnect_failed \<Rightarrow> b | Rebooting \<Rightarrow> c)"
  by (cases r) auto

lemma safe_loop_parts [io_intro]:
  "state_io_rel safe_step (worker_heartbeat E)" "state_io_rel safe_step (ensure_monitor E)" "state_io_rel safe_step (monitor_failed E)"
  "state_io_rel safe_step (set_timeout_counter f)"
  unfolding worker_heartbeat_def ensure_monitor_def monitor_failed_def set_timeout_counter_def
  by (intro io_rule io_intro safe_modify conjI; simp)+

end
