(* ===== verification/Daemon_Justified.thy ===== *)
theory Daemon_Justified
  imports Daemon_Steps
begin

text \<open>
  What makes a relay legitimate, as a statement about the events before its start, the invariant that says so for the
  whole trace, and the start of a relay.
\<close>

section \<open>What makes a relay legitimate\<close>

text \<open>The envelope was signed with the key the requester's atServer gave the daemon.\<close>

definition signed_by :: "('w, 'k, 'j, 'e) denv_scheme \<Rightarrow> ev set \<Rightarrow> 'j \<Rightarrow> string \<Rightarrow> bool" where
  "signed_by E H env who \<longleftrightarrow> (\<exists>pk_text pk sig payload.
     Ev_public_key who (Some pk_text) \<in> H \<and>
     envelope_key E pk_text (text_of (str_field (e_cj E) (Some env) ''signature'')) = Some (pk, sig) \<and>
     algorithms_known (e_cj E) env \<and> is_valid_session_id (session_of (e_cj E) env) \<and>
     GetObjectItem (e_cj E) (Some env) ''payload'' = Some payload \<and>
     rsa_verify (e_ops E) pk MD_SHA256 (e_print_json E payload) sig)"

text \<open>The policy service answered a question about \<open>who\<close> with yes and the rules \<open>po\<close>.\<close>

definition granted :: "('w, 'k, 'j, 'e) denv_scheme \<Rightarrow> np_config \<Rightarrow> ev set \<Rightarrow> string \<Rightarrow> string list \<Rightarrow> bool" where
  "granted E cfg H who po \<longleftrightarrow> (\<exists>m n ty req_id client.
     Ev_message m \<in> H \<and> mg_notification m = Some n \<and> atsign_equals (nt_from n) (cf_policy_atsign cfg) \<and>
     d_rpc_parse_response E n = Some (ty, req_id) \<and> policy_verdict (e_cj E) n ty = (True, po) \<and>
     Ev_rpc_request client req_id \<in> H \<and> who = fit 64 client)"

definition same_requester :: "string \<Rightarrow> string \<Rightarrow> bool" where
  "same_requester who requester \<longleftrightarrow> who = fit 64 requester \<or> noports_atsign_equals (Some who) (Some requester)"

definition authorised :: "('w, 'k, 'j, 'e) denv_scheme \<Rightarrow> np_config \<Rightarrow> ev set \<Rightarrow> string \<Rightarrow> string \<Rightarrow> u16 \<Rightarrow> bool" where
  "authorised E cfg H requester rhost rport \<longleftrightarrow>
     (if policy_mode cfg then
        \<exists>who po. granted E cfg H who po \<and> same_requester who requester \<and> policy_permits po rhost rport
      else requester \<in> set (cf_manager_list cfg) \<and> config_permits (cf_permitopen cfg) rhost rport)"

definition requested_host :: "('w, 'k, 'j, 'e) denv_scheme \<Rightarrow> 'j \<Rightarrow> string" where
  "requested_host E env = text_of (str_field (e_cj E) (GetObjectItem (e_cj E) (Some env) ''payload'') ''requestedHost'')"

definition requested_port :: "('w, 'k, 'j, 'e) denv_scheme \<Rightarrow> 'j \<Rightarrow> u16" where
  "requested_port E env =
     u16_of_dbl (d_ub_u16 E) (GetNumberValue (e_cj E) (GetObjectItem (e_cj E) (GetObjectItem (e_cj E) (Some env) ''payload'') ''requestedPort''))"

text \<open>A relay was started for a signed request of an authorised requester, and leads where the request
  asks for. (Without memory for its copy of the host the relay has none, and will fail to connect.)\<close>

definition justified :: "('w, 'k, 'j, 'e) denv_scheme \<Rightarrow> np_config \<Rightarrow> ev set \<Rightarrow> relay_config \<Rightarrow> bool" where
  "justified E cfg H own \<longleftrightarrow> (\<exists>env requester.
     signed_by E H env requester \<and> authorised E cfg H requester (requested_host E env) (requested_port E env) \<and>
     copied (Some (requested_host E env)) (rc_local_host own) \<and> rc_local_port own = requested_port E env \<and>
     session_of (e_cj E) env = Some (rc_session_id own))"

lemma signed_by_mono: "signed_by E H env who \<Longrightarrow> H \<subseteq> H' \<Longrightarrow> signed_by E H' env who"
  unfolding signed_by_def by (elim exE conjE, intro exI conjI, erule (1) subsetD [rotated], assumption+)

lemma granted_mono: "granted E cfg H who po \<Longrightarrow> H \<subseteq> H' \<Longrightarrow> granted E cfg H' who po"
  unfolding granted_def
  by (elim exE conjE, intro exI conjI, erule (1) subsetD [rotated], assumption, assumption, assumption, assumption,
      erule (1) subsetD [rotated], assumption)

lemma authorised_mono: "authorised E cfg H who h p \<Longrightarrow> H \<subseteq> H' \<Longrightarrow> authorised E cfg H' who h p"
  unfolding authorised_def by (auto intro: granted_mono split: if_splits)

lemma justified_mono: "justified E cfg H own \<Longrightarrow> H \<subseteq> H' \<Longrightarrow> justified E cfg H' own"
  unfolding justified_def
  by (elim exE conjE, intro exI conjI, erule (1) signed_by_mono, erule (1) authorised_mono, assumption+)

text \<open>Every start in a list of events, given what happened before it.\<close>

fun all_justified :: "('w, 'k, 'j, 'e) denv_scheme \<Rightarrow> np_config \<Rightarrow> ev set \<Rightarrow> ev list \<Rightarrow> bool" where
  "all_justified E cfg H [] = True"
| "all_justified E cfg H (e # es) \<longleftrightarrow>
     (case e of Ev_relay_start i own \<Rightarrow> justified E cfg H own | _ \<Rightarrow> True) \<and> all_justified E cfg (insert e H) es"

lemma all_justified_append [simp]:
  "all_justified E cfg H (a @ b) \<longleftrightarrow> all_justified E cfg H a \<and> all_justified E cfg (H \<union> set a) b"
  by (induction a arbitrary: H) auto

lemma all_justified_nothing: "starts_nothing tr \<Longrightarrow> all_justified E cfg H tr"
  by (induction tr arbitrary: H) (auto split: ev.split)

section \<open>The invariant\<close>

definition same_rules :: "np_config \<Rightarrow> np_config \<Rightarrow> bool" where
  "same_rules cfg cfg' \<longleftrightarrow> cf_policy_atsign cfg' = cf_policy_atsign cfg \<and> cf_manager_list cfg' = cf_manager_list cfg \<and>
     cf_permitopen cfg' = cf_permitopen cfg"

definition cache_ok :: "('w, 'k, 'j, 'e) denv_scheme \<Rightarrow> np_config \<Rightarrow> ev set \<Rightarrow> policy_cache \<Rightarrow> bool" where
  "cache_ok E cfg H c \<longleftrightarrow> (\<forall>e \<in> set c. ce_used e \<longrightarrow> policy_decision.authorized (ce_decision e) \<longrightarrow>
     (\<exists>who. granted E cfg H who (permit_open (ce_decision e)) \<and> canonical (Some who) = Some (ce_atsign e)))"

definition pending_ok :: "('w, 'k, 'j, 'e) denv_scheme \<Rightarrow> ev set \<Rightarrow> 'j policy_pending \<Rightarrow> bool" where
  "pending_ok E H p \<longleftrightarrow> pp_in_use p \<longrightarrow>
     (\<exists>client. Ev_rpc_request client (pp_req_id p) \<in> H \<and> fit 64 client = pp_requesting_atsign p) \<and>
     (\<forall>env. pp_type p = POLICY_NPT \<longrightarrow> pp_envelope p = Some env \<longrightarrow>
        (\<exists>who. signed_by E H env who \<and> fit 64 who = pp_requesting_atsign p))"

definition daemon_inv :: "('w, 'k, 'j, 'e) denv_scheme \<Rightarrow> np_config \<Rightarrow> ('w, 'k, 'j) daemon \<Rightarrow> bool" where
  "daemon_inv E cfg s \<longleftrightarrow> (dm_state s = DAEMON_MONITORING \<longrightarrow> same_rules cfg (dm_config s)) \<and>
     cache_ok E cfg (set (dm_trace s)) (dm_decisions s) \<and> pending_ok E (set (dm_trace s)) (dm_pending s) \<and>
     all_justified E cfg {} (dm_trace s)"

text \<open>While the loop runs.\<close>

definition running :: "('w, 'k, 'j, 'e) denv_scheme \<Rightarrow> np_config \<Rightarrow> ('w, 'k, 'j) daemon \<Rightarrow> bool" where
  "running E cfg s \<longleftrightarrow> daemon_inv E cfg s \<and> dm_state s = DAEMON_MONITORING"

lemma cache_ok_mono: "cache_ok E cfg H c \<Longrightarrow> H \<subseteq> H' \<Longrightarrow> cache_ok E cfg H' c"
  unfolding cache_ok_def by (meson granted_mono)

lemma pending_ok_mono: "pending_ok E H p \<Longrightarrow> H \<subseteq> H' \<Longrightarrow> pending_ok E H' p"
  unfolding pending_ok_def by (meson signed_by_mono subsetD)

lemma safe_step_trace: "safe_step s s' \<Longrightarrow> set (dm_trace s) \<subseteq> set (dm_trace s')"
  by (auto simp: safe_step_def)

lemma running_safe:
  assumes "running E cfg s" "safe_step s s'"
  shows "running E cfg s'"
proof -
  obtain tr where tr: "dm_trace s' = dm_trace s @ tr" "starts_nothing tr" using assms(2) unfolding safe_step_def by blast
  have sub: "set (dm_trace s) \<subseteq> set (dm_trace s')" by (simp add: tr(1))
  have s: "same_rules cfg (dm_config s)" "cache_ok E cfg (set (dm_trace s)) (dm_decisions s)"
    "pending_ok E (set (dm_trace s)) (dm_pending s)" "all_justified E cfg {} (dm_trace s)" "dm_state s = DAEMON_MONITORING"
    using assms(1) by (simp_all add: running_def daemon_inv_def)
  have s': "dm_config s' = dm_config s" "dm_pending s' = dm_pending s" "dm_decisions s' = dm_decisions s" "dm_state s' = dm_state s"
    using assms(2) by (simp_all add: safe_step_def)
  have "all_justified E cfg {} (dm_trace s')" by (simp add: tr(1) s(4) all_justified_nothing [OF tr(2)])
  then show ?thesis using s s' cache_ok_mono [OF s(2) sub] pending_ok_mono [OF s(3) sub]
    by (simp add: running_def daemon_inv_def)
qed

lemma keeps_safe: "state_io_rel safe_step m \<Longrightarrow> state_io_rel (keeps (running E cfg)) m"
  by (auto simp: state_io_rel_post keeps_def intro: running_safe)

lemma running_rules: "running E cfg s \<Longrightarrow> same_rules cfg (dm_config s)"
  by (simp add: running_def daemon_inv_def)

lemma policy_mode_rules: "same_rules cfg cfg' \<Longrightarrow> policy_mode cfg' = policy_mode cfg"
  by (simp add: same_rules_def policy_mode_def)

subsection \<open>The policy check\<close>

lemma running_pending:
  assumes "running E cfg s" "pending_ok E (set (dm_trace s)) p"
  shows "running E cfg (s\<lparr>dm_pending := p\<rparr>)"
  using assms by (simp add: running_def daemon_inv_def)

lemma pending_ok_free [simp]: "pending_ok E H no_pending"
  by (simp add: pending_ok_def no_pending_def)

lemma keeps_cleanup [io_intro]: "state_io_rel (keeps (running E cfg)) cleanupPolicyPending"
  unfolding cleanupPolicyPending_def by (rule keepsI) (simp add: running_pending)

lemma running_cache:
  assumes "running E cfg s" "cache_ok E cfg (set (dm_trace s)) c"
  shows "running E cfg (s\<lparr>dm_decisions := c\<rparr>)"
  using assms by (simp add: running_def daemon_inv_def)

lemma cache_ok_store:
  assumes "cache_ok E cfg H c" "auth \<Longrightarrow> granted E cfg H who po"
  shows "cache_ok E cfg H (snd (noports_policy_cache_store al c (Some who) \<lparr>policy_decision.authorized = auth, permit_open = po\<rparr> now))"
proof -
  have d: "snd (copy_decision al d) = d \<or> \<not> fst (copy_decision al d) = 0" for d
    by (cases al) (auto simp: copy_decision_def)
  have upd: "cache_ok E cfg H (c[i := e])" if "ce_used e \<Longrightarrow> policy_decision.authorized (ce_decision e) \<Longrightarrow>
      \<exists>who. granted E cfg H who (permit_open (ce_decision e)) \<and> canonical (Some who) = Some (ce_atsign e)" for i e
    using assms(1) that by (auto simp: cache_ok_def dest!: set_update_subset_insert [THEN subsetD])
  show ?thesis
    using assms d [of "\<lparr>policy_decision.authorized = auth, permit_open = po\<rparr>"]
    by (auto simp: noports_policy_cache_store_def Let_def split: option.splits prod.splits intro!: upd)
qed

text \<open>Facts about the trace that survive steps that start nothing.\<close>

definition lasting :: "(ev set \<Rightarrow> bool) \<Rightarrow> bool" where
  "lasting F \<longleftrightarrow> (\<forall>H H'. H \<subseteq> H' \<longrightarrow> F H \<longrightarrow> F H')"

definition holds :: "('w, 'k, 'j, 'e) denv_scheme \<Rightarrow> np_config \<Rightarrow> (ev set \<Rightarrow> bool) \<Rightarrow> ('w, 'k, 'j) daemon \<Rightarrow> bool" where
  "holds E cfg F s \<longleftrightarrow> running E cfg s \<and> F (set (dm_trace s))"

lemma leads_safe: "state_io_rel safe_step m \<Longrightarrow> lasting F \<Longrightarrow> leads (holds E cfg F) (holds E cfg F) m"
  unfolding leads_def holds_def lasting_def
  by (meson io_relD running_safe safe_step_trace)

lemma leads_end: "state_io_rel safe_step m \<Longrightarrow> leads (holds E cfg F) (running E cfg) m"
  unfolding leads_def holds_def by (meson io_relD running_safe)

lemma leads_next:
  "state_io_rel safe_step m \<Longrightarrow> lasting F \<Longrightarrow> (\<And>x. leads (holds E cfg F) Q (f x)) \<Longrightarrow> leads (holds E cfg F) Q (m \<bind> f)"
  by (rule leads_bind [OF leads_safe])

section \<open>Starting a relay\<close>

definition may_ask :: "('w, 'k, 'j, 'e) denv_scheme \<Rightarrow> np_config \<Rightarrow> string list \<Rightarrow> string \<Rightarrow> ev set \<Rightarrow> bool" where
  "may_ask E cfg po requester H \<longleftrightarrow>
     (if policy_mode cfg then \<exists>who po'. granted E cfg H who po' \<and> same_requester who requester \<and> set po \<subseteq> set po'
      else requester \<in> set (cf_manager_list cfg))"

lemma permitted_authorised:
  assumes "may_ask E cfg po requester H" "same_rules cfg cfg'" "permitted cfg' po rhost rport"
  shows "authorised E cfg H requester rhost rport"
  using assms policy_mode_rules [OF assms(2)]
  by (auto simp: may_ask_def permitted_def authorised_def same_rules_def policy_permits_def list_ex_iff split: if_splits)

lemma leads_result:
  assumes "state_io_rel safe_step m" "lasting F" "\<And>x s. x = res m s \<Longrightarrow> leads (holds E cfg F) Q (f x)"
  shows "leads (holds E cfg F) Q (m \<bind> f)"
proof (rule leadsI)
  fix s :: "('a, 'b, 'c) daemon"
  assume "holds E cfg F s"
  then have "holds E cfg F (post m s)" by (rule leadsD [OF leads_safe [OF assms(1,2)]])
  then have "Q (post (f (res m s)) (post m s))" by (rule leadsD [OF assms(3) [OF refl]])
  then show "Q (post (m \<bind> f) s)" by simp
qed

lemma start_event_kept:
  assumes "\<And>H. F H \<Longrightarrow> justified E cfg H own"
  shows "leads (holds E cfg F) (running E cfg) (emit (Ev_relay_start i own))"
proof (rule leadsI)
  fix s :: "('a, 'b, 'c) daemon"
  assume h: "holds E cfg F s"
  have sub: "set (dm_trace s) \<subseteq> insert (Ev_relay_start i own) (set (dm_trace s))" by blast
  show "running E cfg (post (emit (Ev_relay_start i own)) s)" using h assms unfolding holds_def running_def daemon_inv_def
    by (simp add: cache_ok_mono [OF _ sub] pending_ok_mono [OF _ sub])
qed

lemma relay_start_kept:
  assumes "lasting F" "\<And>H own. F H \<Longrightarrow> given_config c own \<Longrightarrow> justified E cfg H own"
  shows "leads (holds E cfg F) (running E cfg) (noports_relay_start E i c)"
proof -
  have dec: "state_io_rel safe_step (ctrl_decrypter E i c)" "state_io_rel safe_step (copy_relay_config E c)"
    unfolding ctrl_decrypter_def copy_relay_config_def by (intro io_rule io_intro)+
  have start: "leads (holds E cfg F) (running E cfg) (emit (Ev_relay_start i own) \<bind> (\<lambda>_. ret True))" if "given_config c own" for own
    using assms(2) that by (intro leads_bind [OF start_event_kept] leads_ret) simp_all
  have fin: "holds E cfg F s \<Longrightarrow> running E cfg s" for s :: "('a, 'b, 'c) daemon" by (simp add: holds_def)
  show ?thesis unfolding noports_relay_start_def
    by (intro leads_result [OF dec(2) assms(1)] leads_next [OF _ assms(1)] leads_rule dec io_intro fin start)
      (use copy_relay_config_given in auto)
qed

text \<open>The relay's configuration keeps what the request says.\<close>

definition leads_to_request :: "('w, 'k, 'j, 'e) denv_scheme \<Rightarrow> 'j \<Rightarrow> relay_config \<Rightarrow> bool" where
  "leads_to_request E env c \<longleftrightarrow> rc_local_host c = Some (requested_host E env) \<and> rc_local_port c = requested_port E env \<and>
     session_of (e_cj E) env = Some (rc_session_id c)"

definition same_target :: "relay_config \<Rightarrow> relay_config \<Rightarrow> bool" where
  "same_target c c' \<longleftrightarrow> rc_local_host c' = rc_local_host c \<and> rc_local_port c' = rc_local_port c \<and> rc_session_id c' = rc_session_id c"

lemma same_target_simps [simp]: "same_target c c" "same_target c (rc_rv_auth_update f c)" "same_target c (rc_rvd_auth_string_update g (rc_rv_auth_update f c))"
  by (simp_all add: same_target_def)

lemma legacy_auth_target: "gives (same_target c) (legacy_auth E payload c)"
  unfolding legacy_auth_def Let_def by (rule gives_rules, simp, rule gives_rules | rule gives_rules | simp)+

lemma escr_setup_target: "gives (same_target c) (escr_setup E i raw c)"
  unfolding escr_setup_def by (intro gives_rules) (simp add: same_target_def)

lemma setup_rvd_auth_target:
  assumes "leads_to_request E env c"
  shows "leads_to_request E env (res (setup_rvd_auth E payload c) s)"
proof -
  have "gives (same_target c) (setup_rvd_auth E payload c)"
    unfolding setup_rvd_auth_def
    by (intro gives_rules legacy_auth_target escr_setup_target same_target_simps)
  then have "same_target c (res (setup_rvd_auth E payload c) s)" unfolding gives_def by (rule spec)
  then show ?thesis using assms by (simp only: same_target_def leads_to_request_def)
qed

lemma with_keys_target: "leads_to_request E env c \<Longrightarrow> leads_to_request E env (with_keys ks c)"
  by (simp add: leads_to_request_def with_keys_def)

lemma valid_session_id_text: "is_valid_session_id x \<Longrightarrow> \<exists>s. x = Some s \<and> length s = 36"
  by (cases x) (auto simp only: is_valid_session_id_def option.case)

lemma request_config_target:
  assumes "verifyEnvelopeContents (e_cj E) env 1" "is_valid_session_id (session_of (e_cj E) env)"
  shows "leads_to_request E env (request_config E n (GetObjectItem (e_cj E) (Some env) ''payload''))"
proof -
  obtain sid where sid: "session_of (e_cj E) env = Some sid" "length sid = 36"
    using valid_session_id_text [OF assms(2)] by blast
  obtain h where "str_field (e_cj E) (GetObjectItem (e_cj E) (Some env) ''payload'') ''requestedHost'' = Some h"
    using assms(1) by (auto simp: verifyEnvelopeContents_def Let_def IsString_def str_field_def)
  then show ?thesis using sid
    by (simp add: leads_to_request_def request_config_def Let_def requested_host_def requested_port_def text_of_def session_of_def fit_def)
qed

lemma given_justified:
  assumes "signed_by E H env who" "authorised E cfg H who (requested_host E env) (requested_port E env)"
    "leads_to_request E env c" "given_config c own"
  shows "justified E cfg H own"
proof -
  have "copied (Some (requested_host E env)) (rc_local_host own)" using assms(3,4) by (simp add: leads_to_request_def given_config_def)
  moreover from assms(4) have own: "own = c\<lparr>rc_rvd_host := rc_rvd_host own, rc_local_host := rc_local_host own,
       rc_relay_auth_aes_key := rc_relay_auth_aes_key own, rc_escr_signing_key_uri := rc_escr_signing_key_uri own\<rparr>"
    unfolding given_config_def by blast
  have "rc_local_port own = rc_local_port c" "rc_session_id own = rc_session_id c" by (subst own, simp)+
  ultimately show ?thesis using assms(1-3) unfolding justified_def leads_to_request_def by auto
qed

end
