(* ===== verification/Daemon_Requests.thy ===== *)
theory Daemon_Requests
  imports Daemon_Justified
begin

text \<open>
  The invariant through the handlers of requests: a tunnel request with a verified envelope, a policy check, a ping.
\<close>

section \<open>The handlers\<close>

lemma lasting_true [simp]: "lasting (\<lambda>H. True)"
  by (simp add: lasting_def)

lemma lasting_signed: "lasting (\<lambda>H. signed_by E H env who)"
  by (auto simp: lasting_def intro: signed_by_mono)

lemma lasting_conj: "lasting F \<Longrightarrow> lasting G \<Longrightarrow> lasting (\<lambda>H. F H \<and> G H)"
  unfolding lasting_def by blast

lemma lasting_authorised: "lasting (\<lambda>H. authorised E cfg H who h p)"
  by (auto simp: lasting_def intro: authorised_mono)

lemma lasting_may_ask: "lasting (may_ask E cfg po who)"
  unfolding lasting_def may_ask_def by (auto intro: granted_mono)

lemma leads_running: "state_io_rel safe_step m \<Longrightarrow> leads (running E cfg) (running E cfg) m"
  unfolding leads_def by (meson io_relD running_safe)

lemma running_leads_next:
  "state_io_rel safe_step m \<Longrightarrow> (\<And>x. leads (running E cfg) Q (f x)) \<Longrightarrow> leads (running E cfg) Q (m \<bind> f)"
  by (rule leads_bind [OF leads_running])

subsection \<open>A permitted request\<close>

definition request_ready :: "('w, 'k, 'j, 'e) denv_scheme \<Rightarrow> np_config \<Rightarrow> 'j \<Rightarrow> string \<Rightarrow> ev set \<Rightarrow> bool" where
  "request_ready E cfg env who H \<longleftrightarrow>
     signed_by E H env who \<and> authorised E cfg H who (requested_host E env) (requested_port E env)"

lemma lasting_ready: "lasting (request_ready E cfg env who)"
  unfolding request_ready_def by (intro lasting_conj lasting_signed lasting_authorised)

lemma run_session_kept:
  fixes E :: "('w, 'k, 'j, 'e) denv_scheme"
  assumes "verifyEnvelopeContents (e_cj E) env 1" "is_valid_session_id (session_of (e_cj E) env)"
    and "payload = GetObjectItem (e_cj E) (Some env) ''payload''"
  shows "leads (holds E cfg (request_ready E cfg env who)) (running E cfg) (run_session E payload requester slot key)"
proof -
  have start: "leads (holds E cfg (request_ready E cfg env who)) (running E cfg) (noports_relay_start E slot c)"
    if "leads_to_request E env c" for c
    by (rule relay_start_kept [OF lasting_ready]) (use that given_justified in \<open>auto simp: request_ready_def\<close>)
  have tail: "state_io_rel safe_step (if \<not> started then ret () else do {
           keep_client_key slot key;
           when_st b (emit (Ev_tunnel_open h p sid)) })" for started b h p sid
    by (intro io_rule io_intro safe_emit) simp
  have cfgs: "leads_to_request E env (res (setup_rvd_auth E payload (request_config E n payload)) s)" for n s
    unfolding assms(3) by (rule setup_rvd_auth_target [OF request_config_target [OF assms(1,2)]])
  show ?thesis unfolding run_session_def Let_def
  proof (rule leads_get', rule leads_result [OF _ lasting_ready], (intro io_intro; fail), rule leads_next [OF _ lasting_ready], (intro io_intro; fail), rule leads_option)
    fix x :: "('w, 'k, 'j) daemon" and c s ks
    assume c: "c = res (setup_rvd_auth E payload (request_config E (dm_max_relays x) payload)) s"
    show "leads (holds E cfg (request_ready E cfg env who)) (running E cfg)
       (sendNptError E (Some requester) (GetStringValue (e_cj E) (GetObjectItem (e_cj E) payload ''sessionId''))
         ''Failed to set up session encryption'')"
      by (rule leads_end) (intro io_intro)
    fix k
    have "leads_to_request E env (case k of None \<Rightarrow> c | Some ks' \<Rightarrow> with_keys ks' c)"
    proof (cases k)
      case None
      then show ?thesis using c cfgs by simp
    next
      case (Some ks')
      have "leads_to_request E env (with_keys ks' c)" unfolding c by (rule with_keys_target [OF cfgs])
      then show ?thesis using Some by simp
    qed
    note st = start [OF this]
    show "leads (holds E cfg (request_ready E cfg env who)) (running E cfg)
       (send_response E requester (GetObjectItem (e_cj E) payload ''sessionId'') k \<bind> (\<lambda>_.
        noports_relay_start E slot (case k of None \<Rightarrow> c | Some ks' \<Rightarrow> with_keys ks' c) \<bind> (\<lambda>started.
        if \<not> started then ret () else do {
           keep_client_key slot key;
           when_st (cf_on_tunnel_open (dm_config x)) (emit (Ev_tunnel_open (text_of (rc_local_host (case k of None \<Rightarrow> c | Some ks' \<Rightarrow> with_keys ks' c))) (rc_local_port (case k of None \<Rightarrow> c | Some ks' \<Rightarrow> with_keys ks' c)) (rc_session_id (case k of None \<Rightarrow> c | Some ks' \<Rightarrow> with_keys ks' c)))) })))"
      by (rule leads_next [OF _ lasting_ready], intro io_intro, rule leads_bind [OF st], rule leads_running, rule tail)
  qed
qed

lemma open_session_kept:
  assumes "verifyEnvelopeContents (e_cj E) env 1" "is_valid_session_id (session_of (e_cj E) env)"
    and "payload = GetObjectItem (e_cj E) (Some env) ''payload''"
  shows "leads (holds E cfg (request_ready E cfg env who)) (running E cfg) (open_session E payload requester key)"
  unfolding open_session_def Let_def
  by (intro leads_rule leads_next [OF _ lasting_ready] leads_end run_session_kept [OF assms] io_intro)

lemma continueNptRequest_kept:
  fixes E :: "('w, 'k, 'j, 'e) denv_scheme"
  assumes "is_valid_session_id (session_of (e_cj E) env)"
  shows "leads (holds E cfg (\<lambda>H. signed_by E H env who \<and> may_ask E cfg po who H)) (running E cfg)
    (continueNptRequest E env requester po)"
proof -
  define F where "F = (\<lambda>H. signed_by E H env who \<and> may_ask E cfg po who H)"
  have F: "lasting F" unfolding F_def by (intro lasting_conj lasting_signed lasting_may_ask)
  have fin: "holds E cfg F s \<Longrightarrow> running E cfg s" for s :: "('w, 'k, 'j) daemon" by (simp add: holds_def)
  have go: "leads (holds E cfg F) (running E cfg) (open_session E (GetObjectItem (e_cj E) (Some env) ''payload'') requester k)"
    if "verifyEnvelopeContents (e_cj E) env 1" "holds E cfg F s" "permitted (dm_config s) po (requested_host E env) (requested_port E env)"
    for k and s :: "('w, 'k, 'j) daemon"
  proof (rule leads_pre [OF open_session_kept [OF that(1) assms refl]])
    fix t :: "('w, 'k, 'j) daemon"
    assume t: "holds E cfg F t"
    have "authorised E cfg (set (dm_trace t)) who (requested_host E env) (requested_port E env)"
      by (rule permitted_authorised [OF _ running_rules [OF fin [OF that(2)]] that(3)]) (use t in \<open>simp add: holds_def F_def\<close>)
    then show "holds E cfg (request_ready E cfg env who) t" using t by (simp add: holds_def F_def request_ready_def)
  qed
  show ?thesis unfolding F_def [symmetric] continueNptRequest_def Let_def requested_host_def [symmetric] requested_port_def [symmetric]
    by (rule leads_if, rule leads_ret, erule fin, rule leads_next [OF _ F], intro io_intro, rule leads_option,
        rule leads_ret, erule fin, rule leads_if, rule leads_ret, erule fin, rule leads_gets', rule leads_if,
        rule leads_end, intro io_intro, rule go) simp_all
qed

subsection \<open>The policy check\<close>

lemma fit_fit [simp]: "fit n (fit n x) = fit n x"
  by (simp add: fit_def)

text \<open>A check that is about to be sent.\<close>

definition asking :: "('w, 'k, 'j, 'e) denv_scheme \<Rightarrow> np_config \<Rightarrow> 'j policy_pending \<Rightarrow> ('w, 'k, 'j) daemon \<Rightarrow> bool" where
  "asking E cfg p s \<longleftrightarrow> running E cfg (s\<lparr>dm_pending := no_pending\<rparr>) \<and> dm_pending s = p \<and>
     (\<forall>env. pp_type p = POLICY_NPT \<longrightarrow> pp_envelope p = Some env \<longrightarrow>
        (\<exists>who. signed_by E (set (dm_trace s)) env who \<and> fit 64 who = pp_requesting_atsign p))"

lemma asking_safe:
  assumes "asking E cfg p s" "safe_step s s'"
  shows "asking E cfg p s'"
proof -
  have "safe_step (s\<lparr>dm_pending := no_pending\<rparr>) (s'\<lparr>dm_pending := no_pending\<rparr>)" "dm_pending s' = dm_pending s"
    using assms(2) by (simp_all add: safe_step_def)
  then show ?thesis using assms(1) running_safe signed_by_mono [OF _ safe_step_trace [OF assms(2)]]
    unfolding asking_def by metis
qed

lemma leads_asking: "state_io_rel safe_step m \<Longrightarrow> (\<And>x. leads (asking E cfg p) Q (f x)) \<Longrightarrow> leads (asking E cfg p) Q (m \<bind> f)"
  by (rule leads_bind [where R = "asking E cfg p"]) (auto simp: leads_def intro: asking_safe io_relD)

lemma sendPolicyRpcRequest_kept:
  assumes "fit 64 client = pp_requesting_atsign p"
  shows "leads (asking E cfg p) (running E cfg) (sendPolicyRpcRequest E client)"
proof -
  have sent: "running E cfg (post (emit (Ev_rpc_request client (pp_req_id p))) s)" if s: "asking E cfg p s" for s
  proof -
    let ?e = "Ev_rpc_request client (pp_req_id p)"
    define t where "t = post (emit ?e) s"
    have "safe_step s t" unfolding t_def by (rule io_relD, rule safe_emit) simp
    then have a: "asking E cfg p t" using s asking_safe by blast
    then have ok: "pending_ok E (set (dm_trace t)) p" using assms unfolding asking_def pending_ok_def t_def by auto
    have "running E cfg (t\<lparr>dm_pending := no_pending, dm_pending := p\<rparr>)"
      by (rule running_pending) (use a ok in \<open>simp_all add: asking_def\<close>)
    moreover have "t\<lparr>dm_pending := no_pending, dm_pending := p\<rparr> = t" using a by (simp add: asking_def)
    ultimately show ?thesis unfolding t_def by metis
  qed
  have cancelled: "leads (asking E cfg p) (running E cfg) cleanupPolicyPending"
    by (rule leadsI) (simp add: cleanupPolicyPending_def asking_def)
  have rest: "leads (running E cfg) (running E cfg) (dx (d_rpc_send E client k j) \<bind> (\<lambda>r. when_st (r \<noteq> 0) cleanupPolicyPending))" for k j
    by (rule running_leads_next, intro io_intro, rule leads_when, assumption)
      (use keeps_cleanup in \<open>auto simp: leads_def intro: keepsD\<close>)
  have body: "leads (asking E cfg p) (running E cfg) (case tx of None \<Rightarrow> cleanupPolicyPending
     | Some j \<Rightarrow> do { emit (Ev_rpc_request client (pp_req_id p)); r \<leftarrow> dx (d_rpc_send E client (pp_req_id p) j);
         when_st (r \<noteq> 0) cleanupPolicyPending })" for tx
    by (intro leads_option cancelled leads_bind [OF _ rest] leadsI sent)
  show ?thesis unfolding sendPolicyRpcRequest_def Let_def
  proof (rule leads_get')
    fix x assume "asking E cfg p x"
    then have p: "dm_pending x = p" by (simp add: asking_def)
    show "leads (asking E cfg p) (running E cfg)
     (new_object E \<bind> (\<lambda>p0. add_str E ''daemonAtsign'' (cf_atsign (dm_config x)) p0 \<bind> (\<lambda>p1.
       add_str E ''daemonDeviceName'' (cf_device_name (dm_config x)) p1 \<bind> (\<lambda>p2.
       add_str E ''daemonDeviceGroupName'' (Some []) p2 \<bind> (\<lambda>p3. add_str E ''clientAtsign'' (Some client) p3 \<bind> (\<lambda>p4.
       print_unformatted E (object_of E p4) \<bind> (\<lambda>txt. case txt of None \<Rightarrow> cleanupPolicyPending
     | Some j \<Rightarrow> do { emit (Ev_rpc_request client (pp_req_id (dm_pending x))); r \<leftarrow> dx (d_rpc_send E client (pp_req_id (dm_pending x)) j);
         when_st (r \<noteq> 0) cleanupPolicyPending })))))))"
      unfolding p by (rule leads_asking, intro io_intro)+ (rule body)
  qed
qed

lemma start_check_kept:
  assumes "ty = POLICY_NPT \<Longrightarrow> env = Some e \<Longrightarrow> lasting F" 
    and "\<And>H e. F H \<Longrightarrow> ty = POLICY_NPT \<Longrightarrow> env = Some e \<Longrightarrow> signed_by E H e who" "lasting F"
  shows "leads (holds E cfg F) (running E cfg) (start_check E ty env who)"
proof -
  have ask: "leads (holds E cfg F) (asking E cfg p) (modify_st (dm_pending_update (\<lambda>_. p)))"
    if "pp_requesting_atsign p = fit 64 who" "pp_type p = ty" "pp_envelope p = env" for p
  proof (rule leadsI)
    fix s assume "holds E cfg F s"
    moreover have "running E cfg (s\<lparr>dm_pending := no_pending\<rparr>)"
      using calculation by (intro running_pending) (simp_all add: holds_def)
    ultimately show "asking E cfg p (post (modify_st (dm_pending_update (\<lambda>_. p))) s)"
      using assms(2) that by (auto simp: asking_def holds_def)
  qed
  show ?thesis unfolding start_check_def
    by (rule leads_next [OF _ assms(3)], intro io_intro, rule leads_next [OF _ assms(3)], intro io_intro,
        rule leads_bind [OF ask sendPolicyRpcRequest_kept]) simp_all
qed

lemma decisions_safe: "state_io_rel safe_step m \<Longrightarrow> dm_decisions (post m s) = dm_decisions s"
  by (drule io_relD [where s = s]) (simp add: safe_step_def)

definition decision_fits :: "('w, 'k, 'j, 'e) denv_scheme \<Rightarrow> np_config \<Rightarrow> string \<Rightarrow> policy_decision option \<Rightarrow> ev set \<Rightarrow> bool" where
  "decision_fits E cfg who x H \<longleftrightarrow> (\<forall>d. x = Some d \<longrightarrow> policy_decision.authorized d \<longrightarrow>
     (\<exists>w. granted E cfg H w (permit_open d) \<and> same_requester w who))"

lemma lasting_fits: "lasting (decision_fits E cfg who x)"
  unfolding lasting_def decision_fits_def
  by (intro allI impI) (drule spec, drule (1) mp, drule (1) mp, elim exE conjE, intro exI conjI, erule (1) granted_mono, assumption)

lemma cached_decision_fits:
  assumes "lasting F" "\<And>x. leads (holds E cfg (\<lambda>H. F H \<and> decision_fits E cfg who x H)) Q (f x)"
  shows "leads (holds E cfg F) Q (cached_decision E who \<bind> f)"
proof (rule leads_bind_res [OF _ assms(2)])
  fix s assume h: "holds E cfg F s"
  then have "holds E cfg F (post (cached_decision E who) s)" by (rule leadsD [OF leads_safe [OF safe_policy(2) assms(1)]])
  moreover have d: "dm_decisions (post (cached_decision E who) s) = dm_decisions s"
    by (rule decisions_safe [OF safe_policy(2)])
  moreover have "decision_fits E cfg who (res (cached_decision E who) s) (set (dm_trace (post (cached_decision E who) s)))"
    unfolding decision_fits_def
  proof (intro allI impI)
    fix dec assume r: "res (cached_decision E who) s = Some dec" and a: "policy_decision.authorized dec"
    have same: "dm_decisions (post (draw_copy E) (post (now_ms E) s)) = dm_decisions s"
      by (simp only: decisions_safe [OF safe_policy(4)] decisions_safe [OF safe_prims(5)])
    obtain al now where "noports_policy_cache_lookup al (dm_decisions s) (Some who) now = Some dec"
      using r same by (auto simp: cached_decision_def)
    from cache_lookup_entry [OF this] obtain e where e: "e \<in> set (dm_decisions s)" "ce_used e"
      "canonical (Some who) = Some (ce_atsign e)" "ce_decision e = dec" by blast
    have "cache_ok E cfg (set (dm_trace (post (cached_decision E who) s))) (dm_decisions s)"
      using calculation(1) d by (simp add: holds_def running_def daemon_inv_def)
    then obtain w where "granted E cfg (set (dm_trace (post (cached_decision E who) s))) w (permit_open dec)"
      "canonical (Some w) = Some (ce_atsign e)" using e a unfolding cache_ok_def by blast
    then show "\<exists>w. granted E cfg (set (dm_trace (post (cached_decision E who) s))) w (permit_open dec) \<and> same_requester w who"
      using e(3) by (auto simp: same_requester_def noports_atsign_equals_def)
  qed
  ultimately show "holds E cfg (\<lambda>H. F H \<and> decision_fits E cfg who (res (cached_decision E who) s) H) (post (cached_decision E who) s)"
    by (simp add: holds_def)
qed

subsection \<open>Requests and answers\<close>

lemma verify_signature_sound:
  assumes "res (verifyEnvelopeSignature E env who) s = Verified" "is_valid_session_id (session_of (e_cj E) env)"
  shows "signed_by E (set (dm_trace (post (verifyEnvelopeSignature E env who) s))) env who"
proof -
  define s1 where "s1 = post (dx (d_create_key E ''publickey'' who)) s"
  define g where "g = d_get_public_key E ''publickey'' who [] (dm_world s1)"
  have formed: "envelope_formed (e_cj E) env" and r: "fst (d_create_key E ''publickey'' who (dm_world s)) = 0"
    using assms(1) by (auto simp: verifyEnvelopeSignature_def split: if_splits)
  note v = assms(1) [unfolded verifyEnvelopeSignature_def]
  obtain pk_text where pk: "snd (fst g) = Some pk_text" "fst (fst g) = 0"
    using v formed r by (auto simp: g_def s1_def split: option.splits if_splits prod.splits)
  define sig_text where "sig_text = text_of (str_field (e_cj E) (Some env) ''signature'')"
  have gg: "fst g = (0, Some pk_text)" using pk by (simp add: prod_eq_iff)
  obtain k sig where key: "envelope_key E pk_text sig_text = Some (k, sig)"
    using v formed r gg by (auto simp: g_def s1_def sig_text_def split: option.splits)
  define s2 where "s2 = s1\<lparr>dm_world := snd g, dm_trace := dm_trace s1 @ [Ev_public_key who (Some pk_text)]\<rparr>"
  define pr where "pr = print_unformatted E (GetObjectItem (e_cj E) (Some env) ''payload'')"
  have w: "res (pr \<bind> (\<lambda>payload_str. if \<not> algorithms_known (e_cj E) env then ret Not_verified
        else case payload_str of None \<Rightarrow> do { halt Panic; ret Crashed }
          | Some p \<Rightarrow> ret (if rsa_verify (e_ops E) k MD_SHA256 p sig then Verified else Not_verified))) s2 = Verified"
    using v formed r gg key by (simp add: g_def s1_def sig_text_def s2_def pr_def)
  then obtain p where p: "res pr s2 = Some p" "algorithms_known (e_cj E) env" "rsa_verify (e_ops E) k MD_SHA256 p sig"
    by (auto split: if_splits option.splits)
  obtain payload where pl: "GetObjectItem (e_cj E) (Some env) ''payload'' = Some payload" "p = e_print_json E payload"
    using p(1) by (auto simp: pr_def print_unformatted_def split: option.splits if_splits)
  have "dm_trace (post (verifyEnvelopeSignature E env who) s) = dm_trace s @ [Ev_public_key who (Some pk_text)]"
    using formed r gg key p(1,2) unfolding verifyEnvelopeSignature_def
    by (simp add: g_def s1_def sig_text_def s2_def pr_def print_unformatted_def d_alloc_def)
  then show ?thesis unfolding signed_by_def
    by (intro exI conjI) (use key p pl assms(2) in \<open>auto simp: sig_text_def\<close>)
qed

lemma safe_verify [io_intro]: "state_io_rel safe_step (verifyEnvelopeSignature E env who)"
  unfolding verifyEnvelopeSignature_def by (intro io_rule io_intro safe_emit) simp

lemma holds_running: "holds E cfg F s \<Longrightarrow> running E cfg s"
  by (simp add: holds_def)

lemma fits_may_ask:
  "decision_fits E cfg who (Some d) H \<Longrightarrow> policy_decision.authorized d \<Longrightarrow> policy_mode cfg \<Longrightarrow>
   may_ask E cfg (take 16 (permit_open d)) who H"
  unfolding decision_fits_def may_ask_def by (auto dest: in_set_takeD)

lemma npt_by_policy_kept:
  assumes "is_valid_session_id (session_of (e_cj E) env)" "policy_mode cfg"
  shows "leads (holds E cfg (\<lambda>H. signed_by E H env who)) (running E cfg) (npt_by_policy E env who)"
proof -
  let ?S = "\<lambda>H. signed_by E H env who"
  have start: "leads (holds E cfg (\<lambda>H. ?S H \<and> decision_fits E cfg who x H)) (running E cfg) (start_check E POLICY_NPT (Some env) who)" for x
    by (rule start_check_kept) (auto intro: lasting_conj lasting_signed lasting_fits)
  have cleaned: "leads (holds E cfg F) (holds E cfg F) (when_st b cleanupPolicyPending)" for b F
    by (rule leadsI) (simp add: cleanupPolicyPending_def holds_def running_pending)
  have ask: "leads (holds E cfg (\<lambda>H. ?S H \<and> decision_fits E cfg who x H)) (running E cfg)
      (continueNptRequest E env who (take 16 (permit_open d)))" if "x = Some d" "policy_decision.authorized d" for d x
    by (rule leads_pre [OF continueNptRequest_kept [OF assms(1)]]) (use that fits_may_ask assms(2) in \<open>auto simp: holds_def\<close>)
  have last: "leads (holds E cfg F) (running E cfg) (sendNptError E a b c)" for F a b c
    by (rule leads_end) (intro io_intro)
  show ?thesis unfolding npt_by_policy_def
    by (rule cached_decision_fits [OF lasting_signed], rule leads_option, rule leads_gets', rule leads_if, rule leads_ret,
        erule holds_running, rule leads_bind [OF cleaned start], rule leads_if, rule ask, assumption+, rule last)
qed

lemma handleNptRequest_kept: "leads (running E cfg) (running E cfg) (handleNptRequest E n who)"
proof -
  have check: "leads (\<lambda>s. running E cfg s \<and> (v = Verified \<longrightarrow> signed_by E (set (dm_trace s)) env who)) (running E cfg)
      (if v \<noteq> Verified then ret ()
       else do { c \<leftarrow> gets dm_config;
         if policy_mode c then npt_by_policy E env who
         else if \<not> isManagerAtsign c who then ret () else continueNptRequest E env who [] })"
    if sid: "is_valid_session_id (session_of (e_cj E) env)" for env v
  proof (rule leads_if, rule leads_ret, simp, rule leads_gets')
    fix s assume "\<not> v \<noteq> Verified" and s: "running E cfg s \<and> (v = Verified \<longrightarrow> signed_by E (set (dm_trace s)) env who)"
    then have v: "v = Verified" and rules: "same_rules cfg (dm_config s)" using running_rules by auto
    have pol: "leads (holds E cfg (\<lambda>H. signed_by E H env who)) (running E cfg) (npt_by_policy E env who)" if "policy_mode (dm_config s)"
      by (rule npt_by_policy_kept [OF sid]) (use that policy_mode_rules [OF rules] in simp)
    have man: "leads (holds E cfg (\<lambda>H. signed_by E H env who)) (running E cfg) (continueNptRequest E env who [])"
      if "\<not> policy_mode (dm_config s)" "isManagerAtsign (dm_config s) who"
      by (rule leads_pre [OF continueNptRequest_kept [OF sid]])
        (use that policy_mode_rules [OF rules] rules in \<open>auto simp: holds_def may_ask_def isManagerAtsign_def list_ex_iff same_rules_def\<close>)
    show "leads (\<lambda>s. running E cfg s \<and> (v = Verified \<longrightarrow> signed_by E (set (dm_trace s)) env who)) (running E cfg)
       (if policy_mode (dm_config s) then npt_by_policy E env who
         else if \<not> isManagerAtsign (dm_config s) who then ret () else continueNptRequest E env who [])"
      using pol man v by (auto simp: leads_def holds_def)
  qed
  have verify: "leads (running E cfg) (running E cfg) (verifyEnvelopeSignature E env who \<bind> (\<lambda>v.
      if v \<noteq> Verified then ret ()
       else do { c \<leftarrow> gets dm_config;
         if policy_mode c then npt_by_policy E env who
         else if \<not> isManagerAtsign c who then ret () else continueNptRequest E env who [] }))"
    if sid: "is_valid_session_id (session_of (e_cj E) env)" for env
  proof (rule leads_bind_res [OF _ check [OF sid]])
    fix s assume "running E cfg s"
    then have "running E cfg (post (verifyEnvelopeSignature E env who) s)" by (rule running_safe [OF _ io_relD [OF safe_verify]])
    then show "running E cfg (post (verifyEnvelopeSignature E env who) s) \<and>
      (res (verifyEnvelopeSignature E env who) s = Verified \<longrightarrow> signed_by E (set (dm_trace (post (verifyEnvelopeSignature E env who) s))) env who)"
      using verify_signature_sound [OF _ sid] by blast
  qed
  show ?thesis unfolding handleNptRequest_def
    by (rule running_leads_next, intro io_intro) (intro leads_rule verify; assumption?; simp)
qed

lemma handlePing_kept: "leads (running E cfg) (running E cfg) (handlePing E who)"
proof -
  have start: "leads (running E cfg) (running E cfg) (start_check E POLICY_PING None who)"
    by (rule leads_pre [OF start_check_kept [where F = "\<lambda>_. True"]]) (simp_all add: holds_def)
  show ?thesis unfolding handlePing_def Let_def
    by (rule leads_get', rule leads_if, rule leads_ret, assumption, rule leads_if, rule running_leads_next, intro io_intro,
        rule leads_if, rule leads_ret, assumption, rule running_leads_next, intro io_intro, rule leads_option,
        rule leads_gets', rule leads_if, rule leads_ret, assumption, rule start, rule leads_when, assumption,
        rule leads_running, intro io_intro, rule leads_if, rule leads_ret, assumption, rule leads_running, intro io_intro)
qed

end
