(* ===== verification/Example_Daemon.thy ===== *)
theory Example_Daemon
  imports Daemon_Begin Example_Env
begin

text \<open>
  A concrete outside world for the daemon, for the witnesses: an atServer that accepts everything and
  a monitor connection on which the same message always waits; a request for a tunnel to
  \<open>localhost:22\<close>, signed with the one key everybody uses. Started there, the daemon answers the request with a relay
  (\<open>ex_loop\<close>).
\<close>

definition example_key :: string where
  "example_key = ''Kjson''"

text \<open>A signature of a text starts with the text.\<close>

definition example_rsa :: atchops where
  "example_rsa = example_atchops
     \<lparr>rsa_populate_public := (\<lambda>s. Some \<lparr>rk_n = replicate 256 1, rk_rest = s\<rparr>),
      rsa_populate_private := (\<lambda>s. Some \<lparr>rk_n = replicate 256 1, rk_rest = s\<rparr>),
      rsa_verify := (\<lambda>k md t sig. take (length t) sig = str_bytes t)\<rparr>"

definition example_payload :: json where
  "example_payload = JObj [(''sessionId'', JStr ''01234567-89ab-cdef-0123-456789abcdef''), (''rvdHost'', JStr ''rvd''),
     (''rvdPort'', JNum 443), (''requestedHost'', JStr ''localhost''), (''requestedPort'', JNum 22)]"

definition example_envelope :: json where
  "example_envelope = JObj [(''payload'', example_payload), (''signature'', JStr ''json''),
     (''hashingAlgo'', JStr ''sha256''), (''signingAlgo'', JStr ''rsa2048'')]"

definition example_notification :: notification where
  "example_notification = \<lparr>nt_id = Some ''7'', nt_from = Some ''@alice'', nt_to = Some ''@dev'',
     nt_key = Some ''@dev:npt_request.d1.sshnp@alice'', nt_value = Some ''envelope'', nt_id_init = True, nt_from_init = True,
     nt_to_init = True, nt_key_init = True, nt_value_init = True\<rparr>"

definition example_config :: np_config where
  "example_config = noports_config_init\<lparr>cf_atsign := Some ''@dev'', cf_device_name := Some ''d1'', cf_manager_list := [''@alice''],
     cf_permitopen := [(''localhost'', 22)], cf_pkam_private_key_base64 := Some example_key,
     cf_encrypt_private_key_base64 := Some example_key, cf_encrypt_public_key_base64 := Some example_key\<rparr>"

definition example_parse :: "string \<Rightarrow> json option" where
  "example_parse t = (if t = ''envelope'' then Some example_envelope else None)"

definition example_denv :: "(ex_world, bytes, json) denv" where
  "example_denv = env.extend (example_env\<lparr>e_cj := example_cjson example_parse, e_ops := example_rsa\<rparr>)
     \<lparr>d_pcb_count = (\<lambda>w. (0, w)), d_task_create = (\<lambda>w. (Some 1, w)), d_task_gone = (\<lambda>_ w. (False, w)),
      d_gettimeofday = (\<lambda>w. (None, w)), d_lookup_once = (\<lambda>_ _ _ w. ((0, Some ''atserver'', 6464), w)),
      d_pkam_authenticate = (\<lambda>_ _ _ w. (0, w)), d_monitor_start = (\<lambda>_ w. (0, w)),
      d_monitor_read = (\<lambda>w. ((0, \<lparr>mg_type = Msg_notification, mg_notification = Some example_notification\<rparr>), w)),
      d_send_heartbeat = (\<lambda>w. (0, w)), d_create_key = (\<lambda>_ _ w. (0, w)), d_notify = (\<lambda>_ _ _ w. (0, w)),
      d_get_public_key = (\<lambda>_ _ _ w. ((0, Some example_key), w)), d_put_public_key = (\<lambda>_ _ w. (0, w)),
      d_rpc_send = (\<lambda>_ _ _ w. (0, w)), d_rpc_is_response_key = (\<lambda>_ _ _. False), d_rpc_parse_response = (\<lambda>_. None),
      d_rsa_encrypt = (\<lambda>_ t w. (Some (str_bytes t), w)), d_generate_key = (\<lambda>w. (Some [1], w)), d_generate_iv = (\<lambda>w. (Some [2], w)),
      d_http_begin = (\<lambda>_ w. (True, w)), d_http_get = (\<lambda>_ _ w. (Http_error, w)), d_set_key_option = (\<lambda>_ w. (0, w)),
      d_rsa_clone = (\<lambda>w. (0, w)), d_ub_u16 = (\<lambda>_. 0), d_ub_u32 = (\<lambda>_. 0)\<rparr>"

definition example_start :: "(ex_world, bytes, json) daemon" where
  "example_start = new_daemon \<lparr>xw_clock = 5, xw_input = []\<rparr>"

definition starts_relay :: "ev \<Rightarrow> bool" where
  "starts_relay e = (case e of Ev_relay_start i own \<Rightarrow> True | _ \<Rightarrow> False)"

lemma starts_relay_iff: "starts_relay e \<longleftrightarrow> (\<exists>i own. e = Ev_relay_start i own)"
  by (cases e) (simp_all add: starts_relay_def)

section \<open>Its operations\<close>

lemma dx_const: "dx (\<lambda>w. (c, w)) = ret c"
  by (simp add: dx_def State_Monad.return_def)

lemma ex_env [simp]:
  "e_alloc example_denv n w = (True, w)" "e_millis example_denv w = (xw_clock w, w)"
  "e_now_ms example_denv w = (int (unat (xw_clock w)), w)" "e_free_heap example_denv w = (100000, w)"
  "e_random example_denv w = (4, w)" "e_ops example_denv = example_rsa" "e_cj example_denv = example_cjson example_parse"
  "e_print_json example_denv (JObj fs) = ''json''"
  "d_pcb_count example_denv w = (0, w)" "d_task_create example_denv w = (Some 1, w)" "d_gettimeofday example_denv w = (None, w)"
  "d_lookup_once example_denv h p a w = ((0, Some ''atserver'', 6464), w)" "d_pkam_authenticate example_denv c a au w = (0, w)"
  "d_monitor_start example_denv rg w = (0, w)"
  "d_monitor_read example_denv w = ((0, \<lparr>mg_type = Msg_notification, mg_notification = Some example_notification\<rparr>), w)"
  "d_create_key example_denv nm a w = (0, w)" "d_notify example_denv a nm v w = (0, w)"
  "d_get_public_key example_denv nm a b w = ((0, Some example_key), w)" "d_put_public_key example_denv nm k w = (0, w)"
  "d_set_key_option example_denv k w = (0, w)" "d_rsa_clone example_denv w = (0, w)"
  "e_largest_block example_denv w = (100000, w)" "e_fuel example_denv = 8"
  by (simp_all add: example_denv_def example_env_def env.defs)

lemma ex_ops [simp]:
  "dx (e_alloc example_denv n) = ret True" "dx (e_random example_denv) = ret 4" "dx (d_gettimeofday example_denv) = ret None"
  "dx (d_lookup_once example_denv h p a) = ret (0, Some ''atserver'', 6464)" "dx (d_pkam_authenticate example_denv c a au) = ret 0"
  "dx (d_monitor_start example_denv rg) = ret 0" "dx (d_create_key example_denv nm a) = ret 0" "dx (d_notify example_denv a nm v) = ret 0"
  "dx (d_get_public_key example_denv nm a b) = ret (0, Some example_key)"
  "dx (d_set_key_option example_denv k) = ret 0" "dx (d_rsa_clone example_denv) = ret 0" "dx (d_task_create example_denv) = ret (Some 1)"
  "dx (d_monitor_read example_denv) = ret (0, \<lparr>mg_type = Msg_notification, mg_notification = Some example_notification\<rparr>)"
  "dx (d_pcb_count example_denv) = ret 0" "dx (e_free_heap example_denv) = ret 100000" "dx (e_largest_block example_denv) = ret 100000"
  by (simp_all add: dx_def State_Monad.return_def)

lemma ex_basic [simp]:
  "d_alloc example_denv n = ret True" "d_strdup example_denv x = ret (Some x)" "d_dup example_denv y = ret y"
  "new_object example_denv = ret (Some [])" "print_unformatted example_denv (Some (JObj fs)) = ret (Some ''json'')"
  "add_item example_denv name (Some j) (Some fs) = ret (Some (fs @ [(name, j)]))"
  by (simp_all add: d_alloc_def d_strdup_def d_dup_def new_object_def print_unformatted_def add_item_def split: option.split)

definition tick :: "(ex_world, bytes, json) daemon \<Rightarrow> (ex_world, bytes, json) daemon" where
  "tick s = s\<lparr>dm_worker_last_used_ms := xw_clock (dm_world s)\<rparr>"

lemma ex_worker [simp]: "worker_used example_denv = modify_st tick"
  by (simp add: worker_used_def d_millis_def dx_def modify_st_def tick_def State_Monad.bind_def)

lemma ex_notify [simp]:
  "post (notifyWithRetry example_denv a nm v) s = tick (s\<lparr>dm_trace := dm_trace s @ [Ev_notify a nm v]\<rparr>)"
  "res (notifyWithRetry example_denv a nm v) s = 0"
  by (simp_all add: notifyWithRetry_def notify_def)

lemma ex_heap [simp]: "res (heap_ready example_denv) s = True" "post (heap_ready example_denv) s = s"
  by (simp_all add: heap_ready_def NOPORTS_TLS_MIN_FREE_HEAP_def NOPORTS_TLS_MIN_CONTIGUOUS_HEAP_def)

lemma ex_await [simp]: "post (await_heap example_denv) s = s"
  by (simp add: await_heap_def numeral_eq_Suc d_millis_def)

lemma ex_reconnect [simp]:
  "post (reconnectWorker example_denv) s = tick (s\<lparr>dm_trace := dm_trace s @ [Ev_authenticate Worker]\<rparr>)"
  "res (reconnectWorker example_denv) s = True"
  by (simp_all add: reconnectWorker_def reauthenticate_def authenticate_client_def buildPingResponse_def publishPublicSigningKey_def publishDeviceInfo_def publish_to_def startMonitor_def ping_features_def add_str_def add_bool_def object_of_def example_cjson_def)


lemma ex_config [simp]:
  "cf_atsign example_config = Some ''@dev''" "cf_device_name example_config = Some ''d1''" "cf_manager_list example_config = [''@alice'']"
  "cf_permitopen example_config = [(''localhost'', 22)]" "cf_policy_atsign example_config = None"
  "cf_pkam_private_key_base64 example_config = Some example_key" "cf_encrypt_private_key_base64 example_config = Some example_key"
  "cf_encrypt_public_key_base64 example_config = Some example_key" "cf_pkam_public_key_base64 example_config = None"
  "cf_enrollment_id example_config = None" "cf_self_encryption_key_base64 example_config = None"
  "cf_policy_cache_size example_config = NOPORTS_POLICY_CACHE_DEFAULT_SIZE" "cf_root_domain example_config = None" "cf_root_port example_config = 0"
  "\<not> cf_hide example_config" "cf_client_key_check_secs example_config = 10" "\<not> cf_require_enrollment_signature example_config"
  "\<not> cf_on_tunnel_open example_config" "\<not> cf_on_tunnel_close example_config" "\<not> cf_on_ping example_config"
  "cf_enrollment_id_update (\<lambda>_. None) example_config = example_config"
  by (simp_all add: example_config_def noports_config_init_def)

lemma ex_rsa [simp]: "rsa_populate_private example_rsa t = Some \<lparr>rk_n = replicate 256 1, rk_rest = t\<rparr>"
  "rsa_populate_public example_rsa t = Some \<lparr>rk_n = replicate 256 1, rk_rest = t\<rparr>"
  "is_rsa2048 \<lparr>rk_n = replicate 256 1, rk_rest = t\<rparr>"
  by (simp_all add: example_rsa_def is_rsa2048_def significant_bytes_def)


text \<open>After \<open>begin()\<close>.\<close>

definition ready :: "(ex_world, bytes, json) daemon \<Rightarrow> bool" where
  "ready s \<longleftrightarrow> dm_config s = example_config \<and> dm_state s = DAEMON_MONITORING \<and> dm_should_run s \<and> dm_halted s = None \<and>
     dm_relays s = replicate NOPORTS_MAX_RELAYS new_relay \<and> dm_client_keys s = replicate NOPORTS_MAX_RELAYS no_client_key \<and>
     dm_pending s = no_pending \<and> dm_max_relays s = 2 \<and>
     dm_signing_key s = Some \<lparr>rk_n = replicate 256 1, rk_rest = example_key\<rparr> \<and> dm_timeout_counter s = 0 \<and>
     dm_last_key_check_ms s = 0 \<and> dm_worker_keepalive_ms s = NOPORTS_WORKER_KEEPALIVE_MS \<and>
     dm_worker_last_used_ms s = xw_clock (dm_world s) \<and> xw_clock (dm_world s) = 5"

lemma ex_keys [simp]:
  assumes "dm_config s = example_config"
  shows "post (load_keys example_denv) s = s\<lparr>dm_atkeys := True,
       dm_signing_key := Some \<lparr>rk_n = replicate 256 1, rk_rest = example_key\<rparr>,
       dm_pkam_signing_key := Some \<lparr>rk_n = replicate 256 1, rk_rest = example_key\<rparr>\<rparr>"
    "res (load_keys example_denv) s = True"
  by (simp_all add: assms load_keys_def clone_signing_key_def parse_atkeys_def text_of_def optional_keys_def)

lemma ex_ready: "ready (post (begin_daemon example_denv example_config) example_start) \<and>
    dm_cooldown (post (begin_daemon example_denv example_config) example_start) = noports_policy_cooldown_init"
proof -
  have pre: "missing (Some ''@dev'') = False" "missing (Some ''d1'') = False" by (simp_all add: missing_def)
  have cache: "fst (noports_policy_cache_init True NOPORTS_POLICY_CACHE_DEFAULT_SIZE) = 0"
    by (simp add: noports_policy_cache_init_def NOPORTS_POLICY_CACHE_DEFAULT_SIZE_def NOPORTS_POLICY_CACHE_MAX_SIZE_def)
  show ?thesis
    by (simp add: begin_daemon_def freeResources_def example_start_def new_daemon_def seed_req_counter_def check_config_def pre cache
        set_root_def parse_root_domain_def resolve_atserver_def ready_def noports_policy_cache_free_def
        go_online_def authenticate_def authenticate_monitor_def authenticate_worker_def authenticate_client_def buildPingResponse_def
        publishPublicSigningKey_def publishDeviceInfo_def publish_to_def startMonitor_def ping_features_def add_str_def add_bool_def
        object_of_def example_cjson_def tick_def)
qed


lemma ex_slots [simp]: "i < NOPORTS_MAX_RELAYS \<Longrightarrow> ready s \<Longrightarrow> dm_relays s ! i = new_relay"
  "i < NOPORTS_MAX_RELAYS \<Longrightarrow> ready s \<Longrightarrow> dm_client_keys s ! i = no_client_key"
  by (simp_all add: ready_def)

lemma ex_upkeep:
  assumes "ready s"
  shows "post cleanupFinishedRelays s = s" "post (checkClientKeys example_denv) s = s" "post (check_policy_timeout example_denv) s = s"
    "post (worker_heartbeat example_denv) s = s" "post (ensure_monitor example_denv) s = s" "res (ensure_monitor example_denv) s = True"
proof -
  have each: "post (for_each is finish_relay) s = s" if "\<forall>i \<in> set is. i < NOPORTS_MAX_RELAYS" for "is"
    using that by (induction "is") (simp_all add: finish_relay_def Let_def assms, simp add: new_relay_def)
  show "post cleanupFinishedRelays s = s" unfolding cleanupFinishedRelays_def by (rule each) simp
  have "find_index ck_due (replicate n no_client_key) = None" for n
    by (simp add: find_index_None no_client_key_def)
  then show "post (checkClientKeys example_denv) s = s"
    using assms by (simp add: checkClientKeys_def d_millis_def check_interval_ms_def ready_def)
  show "post (check_policy_timeout example_denv) s = s" using assms by (simp add: check_policy_timeout_def ready_def no_pending_def)
  show "post (worker_heartbeat example_denv) s = s"
    using assms by (simp add: worker_heartbeat_def ready_def d_millis_def NOPORTS_WORKER_KEEPALIVE_MS_def)
  show "post (ensure_monitor example_denv) s = s" "res (ensure_monitor example_denv) s = True"
    using assms by (simp_all add: ensure_monitor_def ready_def NOPORTS_MONITOR_NOOP_TIMEOUT_MS_def)
qed

lemma ex_pure:
  "notification_command example_config ''@dev:npt_request.d1.sshnp@alice'' ''@alice'' ''@dev'' = Some ''npt_request''"
  "notification_kind ''npt_request'' = NK_NPT_REQUEST"
  "fst (noports_policy_cooldown_allows noports_policy_cooldown_init (Some ''@alice'') CHECK_NPT 5) = True"
  "is_valid_session_id (session_of (example_cjson example_parse) example_envelope) = True"
  "envelope_formed (example_cjson example_parse) example_envelope = True"
  "algorithms_known (example_cjson example_parse) example_envelope = True"
  "verifyEnvelopeContents (example_cjson example_parse) example_envelope 1 = True"
  "permitted example_config [] ''localhost'' 22 = True"
  "GetObjectItem (example_cjson example_parse) (Some example_envelope) ''payload'' = Some example_payload"
  "read_signature (example_cjson example_parse) mem example_envelope ''@alice'' = Inl ES_ABSENT"
  by code_simp+


lemma ex_verify:
  assumes "ready s"
  shows "res (verifyEnvelopeSignature example_denv example_envelope ''@alice'') s = Verified"
    "ready (post (verifyEnvelopeSignature example_denv example_envelope ''@alice'') s)"
proof -
  have key: "envelope_key example_denv example_key (text_of (str_field (example_cjson example_parse) (Some example_envelope) ''signature'')) =
      Some (\<lparr>rk_n = replicate 256 1, rk_rest = example_key\<rparr>, str_bytes ''jsonn'')"
    by code_simp
  have sig: "rsa_verify example_rsa k md ''json'' (str_bytes ''jsonn'') = True" for k md
    by (simp add: example_rsa_def str_bytes_def)
  show "res (verifyEnvelopeSignature example_denv example_envelope ''@alice'') s = Verified"
    "ready (post (verifyEnvelopeSignature example_denv example_envelope ''@alice'') s)"
    using assms by (simp_all add: verifyEnvelopeSignature_def ex_pure key sig example_payload_def ready_def)
qed


lemma ex_fields:
  "GetObjectItem (example_cjson example_parse) (Some example_payload) ''sessionId'' = Some (JStr ''01234567-89ab-cdef-0123-456789abcdef'')"
  "GetObjectItem (example_cjson example_parse) (Some example_payload) ''rvdHost'' = Some (JStr ''rvd'')"
  "GetObjectItem (example_cjson example_parse) (Some example_payload) ''rvdPort'' = Some (JNum 443)"
  "GetObjectItem (example_cjson example_parse) (Some example_payload) ''requestedHost'' = Some (JStr ''localhost'')"
  "GetObjectItem (example_cjson example_parse) (Some example_payload) ''requestedPort'' = Some (JNum 22)"
  "GetObjectItem (example_cjson example_parse) (Some example_payload) ''authenticateToRvd'' = None"
  "GetObjectItem (example_cjson example_parse) (Some example_payload) ''encryptRvdTraffic'' = None"
  "GetObjectItem (example_cjson example_parse) (Some example_payload) ''timeout'' = None"
  by code_simp+

lemma ex_json [simp]:
  "GetStringValue (example_cjson example_parse) (Some (JStr t)) = Some t" "cj_string (example_cjson example_parse) (JStr t) = Some t"
  "GetNumberValue (example_cjson example_parse) (Some (JNum k)) = Fin (of_int k)" "\<not> IsTrue (example_cjson example_parse) None"
  "\<not> IsNumber (example_cjson example_parse) None" "cj_mk_string (example_cjson example_parse) = JStr"
  "cj_mk_object (example_cjson example_parse) = JObj"
  by (simp_all add: GetStringValue_def example_cjson_def GetNumberValue_def IsTrue_def IsNumber_def)

lemma ex_port [simp]: "u16_of_dbl ub (Fin 22) = 22" "u16_of_dbl ub (Fin 443) = 443"
  by (simp_all add: u16_of_dbl_def trunc_rat_def)

lemma ex_signing_key:
  assumes "ready s"
  shows "res (checkClientSigningKey example_denv example_envelope ''@alice'' sid) s = Some no_client_key"
    "post (checkClientSigningKey example_denv example_envelope ''@alice'' sid) s = s"
proof -
  have "\<not> session_live s sid" using assms by (auto simp: session_live_def no_client_key_def)
  moreover have "dm_config s = example_config" using assms by (simp add: ready_def)
  ultimately show "res (checkClientSigningKey example_denv example_envelope ''@alice'' sid) s = Some no_client_key"
    "post (checkClientSigningKey example_denv example_envelope ''@alice'' sid) s = s"
    by (simp_all add: checkClientSigningKey_def noports_verify_enrollment_signature_def ex_pure draw_mem_def run_ctx_def res_def post_def)
qed

lemma new_relay_idle [simp]: "rl_task_handle new_relay = None" "rl_state new_relay = RELAY_IDLE"
  by (simp_all add: new_relay_def)

lemma ex_slot:
  assumes "ready s"
  shows "res (findFreeRelaySlot example_denv) s = Some 0" "post (findFreeRelaySlot example_denv) s = s"
proof -
  have "dm_relays s ! 0 = new_relay" "dm_max_relays s = 2" using assms by (simp_all add: ready_def NOPORTS_MAX_RELAYS_def)
  moreover have two: "[0..<unat (2 :: u8)] = [0, 1]" by (simp add: upt_rec)
  ultimately show "res (findFreeRelaySlot example_denv) s = Some 0" "post (findFreeRelaySlot example_denv) s = s"
    by (simp_all add: findFreeRelaySlot_def two noports_relay_is_running_def live_state_def)
qed

lemma ex_run_session:
  assumes "ready s"
  shows "list_ex starts_relay (dm_trace (post (run_session example_denv (Some example_payload) ''@alice'' 0 no_client_key) s))"
proof -
  have none: "rc_session_aes_key (request_config example_denv n p) = None" for n p
    by (simp add: request_config_def Let_def noports_relay_config_init_def)
  show ?thesis using assms
    by (simp add: none run_session_def ex_fields setup_rvd_auth_def setup_encryption_def send_response_def
      noports_relay_start_def ctrl_decrypter_def copy_relay_config_def starts_relay_def keep_client_key_def no_client_key_def ready_def)
qed

lemma ex_continue:
  assumes "ready s"
  shows "list_ex starts_relay (dm_trace (post (continueNptRequest example_denv example_envelope ''@alice'' []) s))"
  using assms
  by (simp add: continueNptRequest_def ex_pure ex_fields Let_def ex_signing_key[OF assms] ready_def str_field_def text_of_def
    open_session_def ex_slot[OF assms] ex_run_session[OF assms])


lemma ex_request:
  assumes "ready s" "dm_cooldown s = noports_policy_cooldown_init"
  shows "list_ex starts_relay (dm_trace (post (handleNptRequest example_denv example_notification ''@alice'') s))"
proof -
  have lim: "res (policyRateLimited example_denv (Some ''@alice'') POLICY_NPT) s = False"
    "ready (post (policyRateLimited example_denv (Some ''@alice'') POLICY_NPT) s)"
    using assms by (simp_all add: policyRateLimited_def now_ms_def check_kind_of_def ready_def ex_pure)
  have val: "nt_value example_notification = Some ''envelope''" "nt_value_init example_notification" by (simp_all add: example_notification_def)
  have parse: "cj_parse (example_cjson example_parse) ''envelope'' = Some example_envelope" by (simp add: example_cjson_def example_parse_def)
  have cfg: "ready t \<Longrightarrow> dm_config t = example_config" for t by (simp add: ready_def)
  have man: "isManagerAtsign example_config ''@alice''" "\<not> policy_mode example_config" by (simp_all add: isManagerAtsign_def policy_mode_def)
  show ?thesis
    by (simp add: handleNptRequest_def lim val parse ex_pure ex_verify cfg man ex_continue)
qed

lemma ex_loop:
  assumes "ready s" "dm_cooldown s = noports_policy_cooldown_init"
  shows "list_ex starts_relay (dm_trace (post (daemon_loop example_denv) s))"
proof -
  have r: "dm_state s = DAEMON_MONITORING" "dm_should_run s" using assms by (simp_all add: ready_def)
  have n: "nt_from example_notification = Some ''@alice''" "nt_to example_notification = Some ''@dev''" "nt_id example_notification = Some ''7''"
    "nt_key example_notification = Some ''@dev:npt_request.d1.sshnp@alice''" 
    "nt_value_init example_notification" "nt_key_init example_notification" "nt_id_init example_notification"
    "nt_from_init example_notification" "nt_to_init example_notification"
    by (simp_all add: example_notification_def)
  have man: "\<not> policy_mode example_config" by (simp_all add: policy_mode_def)
  have cfg: "dm_config s = example_config" using assms by (simp add: ready_def)
  show ?thesis
    by (simp add: daemon_loop_def r ex_upkeep assms monitor_round_def handle_message_def handleNotification_def set_timeout_counter_def
       cfg man handle_request_def n ex_pure dispatch_def) (rule ex_request; use assms in \<open>simp add: ready_def\<close>)
qed

end
