(* ===== verification/Daemon_Safety.thy ===== *)
theory Daemon_Safety
  imports Daemon_Requests Example_Daemon
begin

text \<open>
  The invariant through the answers of the policy service, the loop, \<open>begin()\<close> and the other public functions, and
  the theorem: every relay the daemon starts is authorised.
\<close>

lemma cachePolicyDecision_kept:
  assumes "lasting F" "\<And>H. F H \<Longrightarrow> auth \<Longrightarrow> granted E cfg H who po"
  shows "leads (holds E cfg F) (holds E cfg F) (cachePolicyDecision E who auth po)"
proof -
  have store: "leads (holds E cfg F) (holds E cfg F) (modify_st (\<lambda>s. s\<lparr>dm_decisions := snd (noports_policy_cache_store al (dm_decisions s) (Some who)
       \<lparr>policy_decision.authorized = auth, permit_open = po\<rparr> now)\<rparr>))" for al now
  proof (rule leadsI)
    fix s assume h: "holds E cfg F s"
    then have r: "running E cfg s" by (simp add: holds_def)
    from h have "cache_ok E cfg (set (dm_trace s)) (snd (noports_policy_cache_store al (dm_decisions s) (Some who)
       \<lparr>policy_decision.authorized = auth, permit_open = po\<rparr> now))"
      by (intro cache_ok_store) (use assms(2) in \<open>auto simp: holds_def running_def daemon_inv_def\<close>)
    then show "holds E cfg F (post (modify_st (\<lambda>s. s\<lparr>dm_decisions := snd (noports_policy_cache_store al (dm_decisions s) (Some who)
       \<lparr>policy_decision.authorized = auth, permit_open = po\<rparr> now)\<rparr>)) s)" using h running_cache [OF r] by (simp add: holds_def)
  qed
  show ?thesis unfolding cachePolicyDecision_def
    by (rule leads_next [OF _ assms(1)], intro io_intro, rule leads_next [OF _ assms(1)], intro io_intro, rule store)
qed

lemma leads_cleanup: "leads (running E cfg) (running E cfg) cleanupPolicyPending"
  using keeps_cleanup by (auto simp: leads_def intro: keepsD)

lemma deny_pending_kept: "leads (running E cfg) (running E cfg) (deny_pending E msg)"
proof -
  have tell: "state_io_rel safe_step (case pp_envelope p of None \<Rightarrow> ret ()
      | Some env \<Rightarrow> when_st (pp_type p = POLICY_NPT)
          (sendNptError E (Some (pp_requesting_atsign p)) (session_of (e_cj E) env) msg))" for p
    by (intro io_rule io_intro)
  show ?thesis unfolding deny_pending_def
    by (rule leads_gets', rule leads_bind [OF leads_running [OF tell] leads_cleanup])
qed

lemma leads_pending_type [leads_rule]:
  "(ty = POLICY_NONE \<Longrightarrow> leads P Q a) \<Longrightarrow> (ty = POLICY_PING \<Longrightarrow> leads P Q b) \<Longrightarrow> (ty = POLICY_NPT \<Longrightarrow> leads P Q c) \<Longrightarrow>
   leads P Q (case ty of POLICY_NONE \<Rightarrow> a | POLICY_PING \<Rightarrow> b | POLICY_NPT \<Rightarrow> c)"
  by (cases ty) auto

text \<open>The envelope that waits was checked before.\<close>

lemma pending_sid:
  "pending_ok E H p \<Longrightarrow> pp_in_use p \<Longrightarrow> pp_type p = POLICY_NPT \<Longrightarrow> pp_envelope p = Some env \<Longrightarrow>
   is_valid_session_id (session_of (e_cj E) env)"
  unfolding pending_ok_def signed_by_def by blast

lemma allow_pending_kept:
  assumes "policy_mode cfg"
  shows "leads (\<lambda>s. running E cfg s \<and> granted E cfg (set (dm_trace s)) (pp_requesting_atsign (dm_pending s)) po \<and> pp_in_use (dm_pending s))
    (running E cfg) (allow_pending E po)"
proof -
  let ?P = "\<lambda>p s. (running E cfg s \<and> granted E cfg (set (dm_trace s)) (pp_requesting_atsign (dm_pending s)) po \<and> pp_in_use (dm_pending s)) \<and>
      p = dm_pending s"
  have npt: "leads (?P p) (running E cfg) (do { cleanupPolicyPending;
      case pp_envelope p of None \<Rightarrow> ret () | Some env \<Rightarrow> continueNptRequest E env (pp_requesting_atsign p) po })"
    if ty: "pp_type p = POLICY_NPT" for p
  proof (cases "pp_envelope p")
    case None
    show ?thesis unfolding None option.case
      by (rule leads_bind [OF leads_pre [OF leads_cleanup]]) (auto intro: leads_ret)
  next
    case (Some env)
    have "running E cfg (post (continueNptRequest E env (pp_requesting_atsign p) po) (post cleanupPolicyPending s))" if s: "?P p s" for s
    proof -
      have "pending_ok E (set (dm_trace s)) p" using s by (auto simp: running_def daemon_inv_def)
      then obtain who where who: "signed_by E (set (dm_trace s)) env who" "fit 64 who = pp_requesting_atsign p"
        using s ty Some unfolding pending_ok_def by blast
      have sid: "is_valid_session_id (session_of (e_cj E) env)"
        by (rule pending_sid [of E "set (dm_trace s)" p]) (use s ty Some in \<open>auto simp: running_def daemon_inv_def\<close>)
      have "may_ask E cfg po who (set (dm_trace s))"
        using s assms who(2) unfolding may_ask_def same_requester_def by auto
      moreover have "running E cfg (post cleanupPolicyPending s)" using s leadsD [OF leads_cleanup] by blast
      ultimately have "holds E cfg (\<lambda>H. signed_by E H env who \<and> may_ask E cfg po who H) (post cleanupPolicyPending s)"
        using who(1) by (simp add: holds_def cleanupPolicyPending_def)
      then show ?thesis by (rule leadsD [OF continueNptRequest_kept [OF sid]])
    qed
    then show ?thesis by (simp add: Some leads_def)
  qed
  have ping: "leads (?P p) (running E cfg) (do { handlePingAuthorized E a; cleanupPolicyPending })" for p a
    by (rule leads_pre [OF leads_bind [OF leads_running leads_cleanup]], intro io_intro) simp
  show ?thesis unfolding allow_pending_def
    by (rule leads_gets, rule leads_pending_type, rule leads_ret, simp, rule ping, rule npt)
qed

lemma handlePolicyResponse_kept:
  assumes "policy_mode cfg" "mg_notification m = Some n"
  shows "leads (holds E cfg (\<lambda>H. Ev_message m \<in> H)) (running E cfg) (handlePolicyResponse E n)"
proof -
  let ?M = "\<lambda>H. Ev_message m \<in> H"
  have done': "holds E cfg ?M s \<and> x = s \<Longrightarrow> running E cfg s" for s x by (simp add: holds_def)
  have answer: "leads (\<lambda>s. holds E cfg ?M s \<and> x = s) (running E cfg)
      (do { let (auth, po) = policy_verdict (e_cj E) n ty;
            cachePolicyDecision E (pp_requesting_atsign (dm_pending x)) auth po;
            if auth then allow_pending E po else deny_pending E ''Access denied by policy server'' })"
    if frm: "atsign_equals (nt_from n) (cf_policy_atsign (dm_config x))" and resp: "d_rpc_parse_response E n = Some (ty, req_id)"
      and inuse: "pp_in_use (dm_pending x)" "pp_req_id (dm_pending x) = req_id" for x ty req_id
  proof -
    obtain auth po where v: "policy_verdict (e_cj E) n ty = (auth, po)" by (cases "policy_verdict (e_cj E) n ty")
    define who where "who = pp_requesting_atsign (dm_pending x)"
    define F where "F = (\<lambda>H. auth \<longrightarrow> granted E cfg H who po)"
    have F: "lasting F" unfolding F_def lasting_def by (auto intro: granted_mono)
    have pre: "holds E cfg F s \<and> dm_pending s = dm_pending x" if s: "holds E cfg ?M s \<and> x = s" for s
    proof -
      have r: "running E cfg s" and m: "Ev_message m \<in> set (dm_trace s)" using s by (auto simp: holds_def)
      have "pending_ok E (set (dm_trace s)) (dm_pending s)" using r by (simp add: running_def daemon_inv_def)
      then obtain client where c: "Ev_rpc_request client req_id \<in> set (dm_trace s)" "fit 64 client = who"
        using inuse s unfolding pending_ok_def who_def by blast
      have "granted E cfg (set (dm_trace s)) who po" if auth
        unfolding granted_def
        by (intro exI conjI, rule m, rule assms(2), use frm s running_rules [OF r] in \<open>simp add: same_rules_def\<close>, rule resp,
            use v that in simp, rule c(1), rule c(2) [symmetric])
      then show ?thesis using r s by (simp add: holds_def F_def)
    qed
    have "running E cfg (post (if auth then allow_pending E po else deny_pending E msg) (post (cachePolicyDecision E who auth po) s))"
      if s: "holds E cfg F s \<and> dm_pending s = dm_pending x" for s msg
    proof -
      define t where "t = post (cachePolicyDecision E who auth po) s"
      have t: "holds E cfg F t" unfolding t_def
        by (rule leadsD [OF cachePolicyDecision_kept [OF F]]) (use s in \<open>auto simp: F_def\<close>)
      have "state_io_rel (\<lambda>s s'. dm_pending s' = dm_pending s) (cachePolicyDecision E who auth po)"
        unfolding cachePolicyDecision_def draw_copy_def now_ms_def d_alloc_def by (simp add: state_io_rel_post)
      then have p: "dm_pending t = dm_pending x" using s unfolding t_def state_io_rel_post by metis
      have r: "running E cfg t" using t by (simp add: holds_def)
      show ?thesis unfolding t_def [symmetric]
      proof (cases auth)
        case True
        have "granted E cfg (set (dm_trace t)) (pp_requesting_atsign (dm_pending t)) po"
          using t True p by (simp add: holds_def F_def who_def)
        then show "running E cfg (post (if auth then allow_pending E po else deny_pending E msg) t)"
          using leadsD [OF allow_pending_kept [OF assms(1)], of E t po] r p inuse True by simp
      next
        case False
        then show "running E cfg (post (if auth then allow_pending E po else deny_pending E msg) t)"
          using leadsD [OF deny_pending_kept r] by simp
      qed
    qed
    then show ?thesis unfolding v using pre by (auto simp: leads_def who_def)
  qed
  have ack: "leads (\<lambda>s. holds E cfg ?M s \<and> x = s) (running E cfg)
     (do { now \<leftarrow> now_ms E; modify_st (dm_pending_update (pp_progress_at_ms_update (\<lambda>_. now))) })" for x
  proof (rule leadsI)
    fix s assume "holds E cfg ?M s \<and> x = s"
    then have r: "running E cfg (post (now_ms E) s)" using running_safe [OF _ io_relD [OF safe_prims(5)]] by (auto simp: holds_def)
    define t where "t = post (now_ms E) s"
    have "pending_ok E (set (dm_trace t)) (pp_progress_at_ms_update (\<lambda>_. res (now_ms E) s) (dm_pending t))"
      using r unfolding t_def [symmetric] by (simp add: running_def daemon_inv_def pending_ok_def)
    from running_pending [OF r [folded t_def] this]
    have "running E cfg (dm_pending_update (pp_progress_at_ms_update (\<lambda>_. res (now_ms E) s)) t)" by (rule back_subst) simp
    then show "running E cfg (post (do { now \<leftarrow> now_ms E; modify_st (dm_pending_update (pp_progress_at_ms_update (\<lambda>_. now))) }) s)"
      by (simp add: t_def [symmetric])
  qed
  have body: "leads (\<lambda>s. holds E cfg ?M s \<and> x = s) (running E cfg)
      (if \<not> pp_in_use (dm_pending x) \<or> pp_req_id (dm_pending x) \<noteq> req_id then ret ()
       else if ty = RPC_ACK then do {
         now \<leftarrow> now_ms E;
         modify_st (dm_pending_update (pp_progress_at_ms_update (\<lambda>_. now))) }
       else do {
         let (auth, po) = policy_verdict (e_cj E) n ty;
         cachePolicyDecision E (pp_requesting_atsign (dm_pending x)) auth po;
         if auth then allow_pending E po else deny_pending E ''Access denied by policy server'' })"
    if "atsign_equals (nt_from n) (cf_policy_atsign (dm_config x))" "d_rpc_parse_response E n = Some (ty, req_id)" for x ty req_id
    by (rule leads_if, rule leads_ret, erule done', rule leads_if, rule ack, rule answer) (use that in simp_all)
  show ?thesis unfolding handlePolicyResponse_def
    by (rule leads_get, rule leads_if, rule leads_ret, erule done', rule leads_option, rule leads_ret, erule done',
        rule leads_case_prod, rule body) simp_all
qed

subsection \<open>A message\<close>

lemma leads_holds_running: "leads (running E cfg) Q m \<Longrightarrow> leads (holds E cfg F) Q m"
  by (rule leads_pre [OF _ holds_running])

lemma dispatch_kept: "leads (running E cfg) (running E cfg) (dispatch E n f k)"
  unfolding dispatch_def by (cases k) (auto intro: handlePing_kept handleNptRequest_kept leads_ret)

lemma handle_request_kept: "leads (running E cfg) (running E cfg) (handle_request E n)"
  unfolding handle_request_def
  by (intro leads_rule leads_gets' running_leads_next io_intro dispatch_kept leads_running; assumption?)

lemma handleNotification_kept:
  "leads (holds E cfg (\<lambda>H. Ev_message m \<in> H)) (running E cfg) (handleNotification E (mg_notification m))"
proof (cases "mg_notification m")
  case None
  show ?thesis unfolding handleNotification_def None option.case by (rule leads_end) (intro io_intro)
next
  case (Some n)
  show ?thesis unfolding handleNotification_def Some option.case
  proof (rule leads_gets')
    fix s assume "holds E cfg (\<lambda>H. Ev_message m \<in> H) s"
    then have "policy_mode (dm_config s) = policy_mode cfg"
      by (rule policy_mode_rules [OF running_rules [OF holds_running]])
    then show "leads (holds E cfg (\<lambda>H. Ev_message m \<in> H)) (running E cfg)
     (if policy_mode (dm_config s) \<and> (case nt_key n of None \<Rightarrow> False
           | Some key \<Rightarrow> d_rpc_is_response_key E key NOPORTS_NS NOPORTS_POLICY_DOMAIN_NS)
      then (if atsign_equals (nt_from n) (cf_policy_atsign (dm_config s)) then handlePolicyResponse E n else ret ())
      else handle_request E n)"
      by (intro leads_if handlePolicyResponse_kept Some leads_holds_running [OF handle_request_kept] leads_ret) (auto simp: holds_def)
  qed
qed

subsection \<open>Upkeep\<close>

lemma handleDecryptFailure_kept: "leads (running E cfg) (running E cfg) (handleDecryptFailure E m)"
proof -
  have wait: "state_io_rel safe_step (when_st b (do {
       now2 \<leftarrow> now_ms E;
       modify_st (dm_decrypt_reconnect_at_ms_update (\<lambda>_. now2));
       _ \<leftarrow> reconnectWorker E;
       ret () }))" for b
    by (intro io_rule io_intro safe_modify conjI) simp_all
  have again: "leads (\<lambda>s. running E cfg s \<and> x = s) (running E cfg) (do {
       req_id \<leftarrow> next_policy_req_id;
       modify_st (dm_pending_update (pp_req_id_update (\<lambda>_. req_id)));
       now3 \<leftarrow> now_ms E;
       modify_st (dm_pending_update (pp_progress_at_ms_update (\<lambda>_. now3)));
       sendPolicyRpcRequest E (pp_requesting_atsign (dm_pending x)) })"
    if inuse: "pp_in_use (dm_pending x)" for x
  proof (rule leadsI)
    fix s assume s: "running E cfg s \<and> x = s"
    define p where "p = dm_pending s"
    define s1 where "s1 = post next_policy_req_id s"
    define s2 where "s2 = dm_pending_update (pp_req_id_update (\<lambda>_. res next_policy_req_id s)) s1"
    define s3 where "s3 = post (now_ms E) s2"
    define s4 where "s4 = dm_pending_update (pp_progress_at_ms_update (\<lambda>_. res (now_ms E) s2)) s3"
    have safe: "safe_step s s1" "safe_step s2 s3" unfolding s1_def s3_def
      by (rule io_relD [OF safe_policy(3)], rule io_relD [OF safe_prims(5)])
    have "running E cfg s1" using s safe(1) running_safe by blast
    moreover have p1: "dm_pending s1 = p" using safe(1) by (simp add: safe_step_def p_def)
    ultimately have "asking E cfg (dm_pending s2) s2"
    proof -
      assume r: "running E cfg s1"
      have "s2\<lparr>dm_pending := no_pending\<rparr> = s1\<lparr>dm_pending := no_pending\<rparr>" by (simp add: s2_def)
      moreover have "running E cfg (s1\<lparr>dm_pending := no_pending\<rparr>)" using r by (rule running_pending) simp
      ultimately show ?thesis using r p1 inuse s unfolding asking_def
        by (auto simp: s2_def running_def daemon_inv_def pending_ok_def p_def)
    qed
    then have "asking E cfg (dm_pending s2) s3" using safe(2) by (rule asking_safe)
    then have "asking E cfg (dm_pending s4) s4" by (simp add: asking_def s4_def)
    moreover have "fit 64 (pp_requesting_atsign p) = pp_requesting_atsign p"
    proof -
      have "pending_ok E (set (dm_trace s)) (dm_pending s)" using s by (simp add: running_def daemon_inv_def)
      then obtain client where "fit 64 client = pp_requesting_atsign p" using inuse s unfolding pending_ok_def p_def by blast
      then show ?thesis by (metis fit_fit)
    qed
    then have "fit 64 (pp_requesting_atsign p) = pp_requesting_atsign (dm_pending s4)"
      using p1 safe(2) by (simp add: s4_def s2_def p_def safe_step_def)
    ultimately have "running E cfg (post (sendPolicyRpcRequest E (pp_requesting_atsign p)) s4)"
      by (intro leadsD [OF sendPolicyRpcRequest_kept])
    then show "running E cfg (post (do {
       req_id \<leftarrow> next_policy_req_id;
       modify_st (dm_pending_update (pp_req_id_update (\<lambda>_. req_id)));
       now3 \<leftarrow> now_ms E;
       modify_st (dm_pending_update (pp_progress_at_ms_update (\<lambda>_. now3)));
       sendPolicyRpcRequest E (pp_requesting_atsign (dm_pending x)) }) s)"
      using s by (simp add: s4_def s3_def s2_def s1_def p_def)
  qed
  show ?thesis unfolding handleDecryptFailure_def
    by (rule running_leads_next, intro io_intro, rule leads_gets', rule running_leads_next, rule wait, rule leads_get,
        rule leads_when, simp, rule again) (simp add: noports_policy_resend_after_decrypt_failure_def)
qed

lemma check_policy_timeout_kept: "leads (running E cfg) (running E cfg) (check_policy_timeout E)"
proof -
  have store: "leads (running E cfg) (running E cfg) (cachePolicyDecision E who False [])" for who
    by (rule leads_pre [OF leads_post [OF cachePolicyDecision_kept [where F = "\<lambda>_. True"]]]) (auto simp: holds_def)
  show ?thesis unfolding check_policy_timeout_def
    by (rule leads_gets', rule leads_when, assumption, rule running_leads_next, intro io_intro, rule leads_when, assumption,
        rule leads_bind [OF store deny_pending_kept])
qed

lemma read_failed_kept: "leads (running E cfg) (running E cfg) (read_failed E m)"
  unfolding read_failed_def
  by (intro leads_if handleDecryptFailure_kept leads_running io_intro)

lemma handle_message_kept: "leads (holds E cfg (\<lambda>H. Ev_message m \<in> H)) (running E cfg) (handle_message E m)"
proof -
  have l: "lasting (\<lambda>H. Ev_message m \<in> H)" by (auto simp: lasting_def)
  have f: "state_io_rel safe_step (modify_st (dm_monitor_fail_streak_update g))" for g
    by (rule safe_modify) simp
  show ?thesis unfolding handle_message_def
    by (rule leads_next [OF f l], cases "mg_type m")
      (auto intro: leads_next [OF _ l] leads_end io_intro handleNotification_kept leads_ret holds_running
        leads_holds_running [OF handleDecryptFailure_kept])
qed

lemma monitor_round_kept: "leads (running E cfg) (running E cfg) (monitor_round E)"
proof -
  have got: "leads (running E cfg) (holds E cfg (\<lambda>H. Ev_message m \<in> H)) (emit (Ev_message m))" for m
  proof (rule leadsI)
    fix s :: "('a, 'b, 'c) daemon" assume "running E cfg s"
    moreover have "safe_step s (post (emit (Ev_message m)) s)" by (rule io_relD, rule safe_emit) simp
    ultimately show "holds E cfg (\<lambda>H. Ev_message m \<in> H) (post (emit (Ev_message m)) s)"
      using running_safe by (simp add: holds_def)
  qed
  show ?thesis unfolding monitor_round_def
    by (rule running_leads_next, intro io_intro, rule leads_if, rule leads_ret, assumption, rule running_leads_next, intro io_intro,
        rule leads_case_prod, rule leads_bind [OF got], rule leads_if, rule leads_holds_running [OF read_failed_kept],
        rule handle_message_kept)
qed

lemma daemon_loop_running: "leads (running E cfg) (running E cfg) (daemon_loop E)"
  unfolding daemon_loop_def
  by (rule leads_get', rule leads_if, rule leads_ret, assumption, rule running_leads_next, intro io_intro,
      rule running_leads_next, intro io_intro, rule leads_bind [OF check_policy_timeout_kept],
      rule running_leads_next, intro io_intro, rule monitor_round_kept)

lemma daemon_loop_kept: "daemon_inv E cfg s \<Longrightarrow> daemon_inv E cfg (post (daemon_loop E) s)"
proof (cases "dm_state s = DAEMON_MONITORING")
  case True
  assume "daemon_inv E cfg s"
  with True show ?thesis using leadsD [OF daemon_loop_running, of E cfg s] by (simp add: running_def)
next
  case False
  assume "daemon_inv E cfg s"
  with False show ?thesis by (simp add: daemon_loop_def)
qed

subsection \<open>Starting up\<close>

text \<open>A step of \<open>begin()\<close>: it starts no relay, keeps the rules and the pending check, and may forget decisions.\<close>

definition calm_step :: "('w, 'k, 'j) daemon \<Rightarrow> ('w, 'k, 'j) daemon \<Rightarrow> bool" where
  "calm_step s s' \<longleftrightarrow> (\<exists>tr. dm_trace s' = dm_trace s @ tr \<and> starts_nothing tr) \<and>
     same_rules (dm_config s) (dm_config s') \<and> dm_pending s' = dm_pending s \<and>
     (dm_decisions s' = dm_decisions s \<or> (\<forall>e \<in> set (dm_decisions s'). \<not> ce_used e))"

lemma calm_step_preorder [io_rule]: "preorder_rel calm_step"
proof (rule preorder_relI)
  fix s t u :: "('w, 'k, 'j) daemon"
  show "calm_step s s" by (simp add: calm_step_def same_rules_def)
  assume st: "calm_step s t" and tu: "calm_step t u"
  obtain a where a: "dm_trace t = dm_trace s @ a" "starts_nothing a" using st unfolding calm_step_def by blast
  obtain b where b: "dm_trace u = dm_trace t @ b" "starts_nothing b" using tu unfolding calm_step_def by blast
  have "\<exists>tr. dm_trace u = dm_trace s @ tr \<and> starts_nothing tr" using a b by (intro exI [of _ "a @ b"]) simp
  then show "calm_step s u" using st tu unfolding calm_step_def same_rules_def by auto
qed

lemma safe_calm: "safe_step s s' \<Longrightarrow> calm_step s s'"
  by (simp add: safe_step_def calm_step_def same_rules_def)

lemma calm_of_safe: "state_io_rel safe_step m \<Longrightarrow> state_io_rel calm_step m"
  by (auto simp: state_io_rel_post intro: safe_calm)

lemma calm_of_net: "state_io_rel net_step m \<Longrightarrow> state_io_rel calm_step m"
  by (rule calm_of_safe [OF safe_net])

lemma calm_modify: "(\<And>s. dm_trace (f s) = dm_trace s \<and> calm_step s (f s)) \<Longrightarrow> state_io_rel calm_step (modify_st f)"
  by (simp add: state_io_rel_post)

lemma calm_prims [io_intro]:
  "state_io_rel calm_step (dx f)" "state_io_rel calm_step (setError msg)" "state_io_rel calm_step (set_daemon_state st)"
  "state_io_rel calm_step (d_alloc E n)" "state_io_rel calm_step (d_dup E y)" "state_io_rel calm_step (worker_used E)"
  "state_io_rel calm_step (new_object E)" "state_io_rel calm_step (add_item E name v obj)"
  "state_io_rel calm_step (add_str E name sv obj)" "state_io_rel calm_step (add_bool E name b obj)"
  "state_io_rel calm_step (print_unformatted E v)" "state_io_rel calm_step (authenticate E)" "state_io_rel calm_step (startMonitor E)"
  "state_io_rel calm_step (publishPublicSigningKey E)" "state_io_rel calm_step (publishDeviceInfo E)"
  by (rule calm_of_net; intro io_intro | simp add: state_io_rel_post calm_step_def same_rules_def)+

lemma calm_add_elements [io_intro]: "state_io_rel calm_step (add_elements E xs arr)"
proof (induction xs arbitrary: arr)
  case Nil
  show ?case by (simp add: io_ret [OF calm_step_preorder])
next
  case (Cons x xs)
  then show ?case unfolding add_elements.simps by (intro io_rule io_intro)
qed

lemma calm_add_bools [io_intro]: "state_io_rel calm_step (add_bools E fs obj)"
proof (induction fs arbitrary: obj)
  case Nil
  show ?case by (simp add: io_ret [OF calm_step_preorder])
next
  case (Cons f fs)
  then show ?case by (cases f) (simp, intro io_rule io_intro, simp)
qed

lemma calm_refuse [io_intro]: "state_io_rel calm_step (refuse msg)"
  unfolding refuse_def by (intro io_rule io_intro)

lemma calm_parts [io_intro]:
  "state_io_rel calm_step (seed_req_counter E)" "state_io_rel calm_step set_root" "state_io_rel calm_step (resolve_atserver E)"
  "state_io_rel calm_step (optional_keys E c)" "state_io_rel calm_step (buildPingResponse E)"
  unfolding seed_req_counter_def set_root_def resolve_atserver_def optional_keys_def buildPingResponse_def Let_def
  by (intro io_rule io_intro calm_modify conjI; simp add: calm_step_def same_rules_def)+

lemma calm_check_config [io_intro]: "state_io_rel calm_step (check_config E)"
proof -
  have "\<not> ce_used e" if "e \<in> set (snd (noports_policy_cache_init ok sz))" for e ok sz
    using that by (auto simp: noports_policy_cache_init_def zero_entry_def split: if_splits)
  then show ?thesis unfolding check_config_def
    by (intro io_rule io_intro calm_modify conjI) (simp_all add: calm_step_def same_rules_def)
qed

lemma calm_load_keys [io_intro]: "state_io_rel calm_step (load_keys E)"
  unfolding load_keys_def clone_signing_key_def
  by (intro io_rule io_intro calm_modify conjI; simp add: calm_step_def same_rules_def)

lemma calm_go_online [io_intro]: "state_io_rel calm_step (go_online E)"
  unfolding go_online_def
  by (intro io_rule io_intro calm_modify conjI; simp add: calm_step_def same_rules_def)

text \<open>The invariant with the rules in force whatever the state.\<close>

definition configured :: "('w, 'k, 'j, 'e) denv_scheme \<Rightarrow> np_config \<Rightarrow> ('w, 'k, 'j) daemon \<Rightarrow> bool" where
  "configured E cfg s \<longleftrightarrow> daemon_inv E cfg s \<and> same_rules cfg (dm_config s)"

lemma configured_calm:
  assumes "configured E cfg s" "calm_step s s'"
  shows "configured E cfg s'"
proof -
  obtain tr where tr: "dm_trace s' = dm_trace s @ tr" "starts_nothing tr" using assms(2) unfolding calm_step_def by blast
  have sub: "set (dm_trace s) \<subseteq> set (dm_trace s')" by (simp add: tr(1))
  have s: "same_rules cfg (dm_config s)" "cache_ok E cfg (set (dm_trace s)) (dm_decisions s)"
    "pending_ok E (set (dm_trace s)) (dm_pending s)" "all_justified E cfg {} (dm_trace s)"
    using assms(1) by (simp_all add: configured_def daemon_inv_def)
  have "cache_ok E cfg (set (dm_trace s')) (dm_decisions s')"
    using assms(2) cache_ok_mono [OF s(2) sub] by (auto simp: calm_step_def cache_ok_def)
  moreover have "same_rules cfg (dm_config s')" "pending_ok E (set (dm_trace s')) (dm_pending s')"
    using assms(2) s(1) pending_ok_mono [OF s(3) sub] by (simp_all add: calm_step_def same_rules_def)
  moreover have "all_justified E cfg {} (dm_trace s')" by (simp add: tr(1) s(4) all_justified_nothing [OF tr(2)])
  ultimately show ?thesis by (simp add: configured_def daemon_inv_def)
qed

lemma begin_kept:
  assumes "daemon_inv E cfg s"
  shows "daemon_inv E cfg (post (begin_daemon E cfg) s)"
proof -
  define rest where "rest = (do {
     seed_req_counter E;
     eid \<leftarrow> d_dup E (cf_enrollment_id cfg);
     modify_st (dm_config_update (cf_enrollment_id_update (\<lambda>_. eid)));
     ok1 \<leftarrow> check_config E;
     if \<not> ok1 then ret False
     else do {
       ok2 \<leftarrow> set_root;
       if \<not> ok2 then ret False
       else do {
         resolve_atserver E;
         ok3 \<leftarrow> load_keys E;
         if \<not> ok3 then ret False else go_online E } } })"
  define t where "t = dm_config_update (\<lambda>_. cfg) (post (set_daemon_state DAEMON_INITIALIZING) (post freeResources s))"
  have b: "post (begin_daemon E cfg) s = post rest t"
    by (simp add: begin_daemon_def rest_def t_def)
  have "configured E cfg t" using assms
    by (simp add: t_def freeResources_def configured_def daemon_inv_def same_rules_def cache_ok_def noports_policy_cache_free_def)
  have "state_io_rel calm_step rest" unfolding rest_def
    by (intro io_rule io_intro calm_modify conjI; simp add: calm_step_def same_rules_def)
  then have "calm_step t (post rest t)" by (rule io_relD)
  with \<open>configured E cfg t\<close> have "configured E cfg (post rest t)" by (rule configured_calm)
  then show ?thesis by (simp add: b configured_def)
qed

subsection \<open>The other steps\<close>

text \<open>A step that changes nothing the invariant reads, except that the daemon may stop monitoring.\<close>

definition aside :: "('w, 'k, 'j) daemon \<Rightarrow> ('w, 'k, 'j) daemon \<Rightarrow> bool" where
  "aside s s' \<longleftrightarrow> (\<exists>tr. dm_trace s' = dm_trace s @ tr \<and> starts_nothing tr) \<and>
     dm_config s' = dm_config s \<and> dm_pending s' = dm_pending s \<and> dm_decisions s' = dm_decisions s \<and>
     (dm_state s' = DAEMON_MONITORING \<longrightarrow> dm_state s = DAEMON_MONITORING)"

lemma aside_safe: "safe_step s s' \<Longrightarrow> aside s s'"
  by (simp add: safe_step_def aside_def)

lemma daemon_inv_aside:
  assumes "daemon_inv E cfg s" "aside s s'"
  shows "daemon_inv E cfg s'"
proof -
  obtain tr where tr: "dm_trace s' = dm_trace s @ tr" "starts_nothing tr" using assms(2) unfolding aside_def by blast
  have sub: "set (dm_trace s) \<subseteq> set (dm_trace s')" by (simp add: tr(1))
  have s: "cache_ok E cfg (set (dm_trace s)) (dm_decisions s)"
    "pending_ok E (set (dm_trace s)) (dm_pending s)" "all_justified E cfg {} (dm_trace s)"
    using assms(1) by (simp_all add: daemon_inv_def)
  have "all_justified E cfg {} (dm_trace s')" by (simp add: tr(1) s(3) all_justified_nothing [OF tr(2)])
  then show ?thesis using assms cache_ok_mono [OF s(1) sub] pending_ok_mono [OF s(2) sub]
    by (simp add: daemon_inv_def aside_def)
qed

lemma safe_count [io_intro]: "state_io_rel safe_step (count_relays E is n)"
proof (induction "is" arbitrary: n)
  case Nil
  show ?case by (simp add: io_ret [OF safe_step_preorder])
next
  case (Cons i "is")
  then show ?case unfolding count_relays.simps by (intro io_rule io_intro)
qed

lemma safe_public [io_intro]:
  "state_io_rel safe_step (setWorkerKeepaliveMs E ms)" "state_io_rel safe_step (setMaxRelays k)"
  "state_io_rel safe_step (getActiveRelayCount E)" "state_io_rel safe_step (stop_slot E i)"
  unfolding setWorkerKeepaliveMs_def setMaxRelays_def getActiveRelayCount_def stop_slot_def
  by (intro io_rule io_intro safe_modify conjI; simp)+

lemma stop_aside: "aside s (post (daemon_stop E) s)"
proof -
  have "state_io_rel safe_step (do { modify_st (dm_should_run_update (\<lambda>_. False));
      for_each [0..<NOPORTS_MAX_RELAYS] (stop_slot E); for_each [0..<NOPORTS_MAX_RELAYS] forgetClientSigningKey })"
    by (intro io_rule io_intro safe_modify conjI; simp)
  from io_relD [OF this, where s = s] show ?thesis
    by (simp add: daemon_stop_def safe_step_def aside_def)
qed

lemma step_kept:
  assumes "daemon_step E cfg s t" "daemon_inv E cfg s"
  shows "daemon_inv E cfg t"
  using assms
proof (induction rule: daemon_step.induct)
  case (Begin s)
  then show ?case by (intro begin_kept)
next
  case (Loop s)
  then show ?case by (intro daemon_loop_kept)
next
  case (Stop s)
  show ?case by (rule daemon_inv_aside [OF Stop(2) stop_aside])
next
  case (Keepalive s ms)
  show ?case by (rule daemon_inv_aside [OF Keepalive(2) aside_safe], rule io_relD, intro io_intro)
next
  case (Max_relays s k)
  show ?case by (rule daemon_inv_aside [OF Max_relays(2) aside_safe], rule io_relD, intro io_intro)
next
  case (Count s)
  show ?case by (rule daemon_inv_aside [OF Count(2) aside_safe], rule io_relD, intro io_intro)
next
  case (Relay i s r)
  show ?case by (rule daemon_inv_aside [OF Relay(3)]) (simp add: aside_def)
next
  case (World s w)
  show ?case by (rule daemon_inv_aside [OF World]) (simp add: aside_def)
qed

lemma reachable_daemon_inv: "reachable E cfg s \<Longrightarrow> daemon_inv E cfg s"
proof (induction rule: reachable.induct)
  case (New w)
  show ?case by (simp add: new_daemon_def daemon_inv_def cache_ok_def)
next
  case (Step s t)
  show ?case by (rule step_kept [OF Step(2,3)])
qed

lemma all_justified_split: "all_justified E cfg {} (t1 @ Ev_relay_start i own # t2) \<Longrightarrow> justified E cfg (set t1) own"
  by simp

text \<open>C1: every relay the daemon ever starts, in any life of it (starts and restarts of the daemon, rounds of its loop,
  calls of its other public functions, with the relays' tasks and the world moving in between), was asked for in an
  envelope that verified under the requester's published key, by a requester who is authorised for the host and port
  the relay will connect to: a manager with the configured services, or, when a policy atSign is set, someone the
  policy service granted rules that permit them. What happened before the start is the evidence.\<close>

theorem every_relay_is_authorised:
  assumes "reachable E cfg s" "dm_trace s = t1 @ Ev_relay_start i own # t2"
  shows "justified E cfg (set t1) own"
proof -
  have "all_justified E cfg {} (dm_trace s)" using reachable_daemon_inv [OF assms(1)] by (simp only: daemon_inv_def)
  then show ?thesis unfolding assms(2) by (rule all_justified_split)
qed

lemma every_relay_is_authorised_witness:
  "\<exists>s t1 i own t2. reachable example_denv example_config s \<and> dm_trace s = t1 @ Ev_relay_start i own # t2 \<and>
     justified example_denv example_config (set t1) own"
proof -
  define b where "b = post (begin_daemon example_denv example_config) example_start"
  define s where "s = post (daemon_loop example_denv) b"
  have b: "ready b" "dm_cooldown b = noports_policy_cooldown_init" using ex_ready unfolding b_def by blast+
  have start: "reachable example_denv example_config example_start" unfolding example_start_def by (rule reachable.New)
  have "reachable example_denv example_config b" unfolding b_def
    by (rule reachable.Step [OF start], rule daemon_step.Begin) (simp add: example_start_def new_daemon_def)
  then have s: "reachable example_denv example_config s" unfolding s_def
    by (rule reachable.Step) (rule daemon_step.Loop, use b in \<open>simp add: ready_def\<close>)
  have "list_ex starts_relay (dm_trace s)" unfolding s_def using b by (rule ex_loop)
  then obtain i own where "Ev_relay_start i own \<in> set (dm_trace s)"
    by (auto simp: list_ex_iff starts_relay_iff)
  then obtain t1 t2 where t: "dm_trace s = t1 @ Ev_relay_start i own # t2" using split_list by metis
  then show ?thesis using every_relay_is_authorised [OF s t] s by blast
qed

end
