(* ===== verification/Daemon_Recovery.thy ===== *)
theory Daemon_Recovery
  imports Daemon_Loop Example_Daemon
begin

text \<open>
  How the daemon recovers: waiting for memory ends, reconnecting pauses ever longer and restarts the chip after ten
  failures in a row, and a policy check that takes too long is given up.
\<close>

section \<open>Waiting for memory\<close>

text \<open>A clock that shows its own delays, and probes of the heap that take no time.\<close>

definition steady_clock :: "('w, 'k, 'j, 'e) denv_scheme \<Rightarrow> ('w \<Rightarrow> u32) \<Rightarrow> bool" where
  "steady_clock E clk \<longleftrightarrow>
     (\<forall>w. e_millis E w = (clk w, w)) \<and> (\<forall>t w. clk (e_delay E t w) = clk w + t) \<and>
     (\<forall>w. clk (snd (e_free_heap E w)) = clk w) \<and> (\<forall>w. clk (snd (e_largest_block E w)) = clk w) \<and>
     (\<forall>w. clk (snd (d_pcb_count E w)) = clk w)"

lemma steady_millis: "steady_clock E clk \<Longrightarrow> res (d_millis E) s = clk (dm_world s) \<and> post (d_millis E) s = s"
  by (simp add: steady_clock_def d_millis_def)

lemma steady_heap:
  "steady_clock E clk \<Longrightarrow> clk (dm_world (post (heap_ready E) s)) = clk (dm_world s) \<and> dm_diverged (post (heap_ready E) s) = dm_diverged s"
  by (simp add: steady_clock_def heap_ready_def)

lemma wait_heap_ends:
  assumes "steady_clock E clk" "30000 \<le> unat (clk (dm_world s) - ws) + 200 * fuel"
  shows "dm_diverged (post (wait_heap fuel E ws) s) = dm_diverged s"
  using assms(2)
proof (induction fuel arbitrary: s)
  case 0
  then have "\<not> clk (dm_world s) - ws < 30000" by (simp add: word_less_nat_alt)
  then show ?case using steady_millis [OF assms(1)] by simp
next
  case (Suc fuel)
  note m = steady_millis [OF assms(1)]
  show ?case
  proof (cases "clk (dm_world s) - ws < 30000")
    case True
    define t where "t = post (d_delay E 200) (post (heap_ready E) s)"
    have clk: "clk (dm_world t) - ws = (clk (dm_world s) - ws) + 200" and d: "dm_diverged t = dm_diverged s"
      using assms(1) steady_heap [OF assms(1), of s] by (simp_all add: t_def d_delay_def steady_clock_def)
    have "unat (clk (dm_world t) - ws) = unat (clk (dm_world s) - ws) + 200"
      unfolding clk using True by (simp add: unat_word_ariths word_less_nat_alt)
    then have "dm_diverged (post (wait_heap fuel E ws) t) = dm_diverged t" using Suc by (intro Suc.IH) simp
    then show ?thesis using True m d steady_heap [OF assms(1), of s] by (simp add: t_def)
  qed (use m in simp)
qed

text \<open>C24: waiting for memory ends. With a clock that counts the waiting loop's own pauses, the wait before a
  reconnection is over after at most 150 pauses of 200 ms, however the heap behaves: the loop never runs on, not even
  when the millisecond counter wraps.\<close>

theorem heap_wait_terminates:
  assumes "steady_clock E clk" "150 \<le> e_fuel E"
  shows "dm_diverged (post (await_heap E) s) = dm_diverged s"
  using assms(2) wait_heap_ends [OF assms(1)] steady_millis [OF assms(1)] by (simp add: await_heap_def)

definition tight_env :: "(ex_world, bytes, json) denv" where
  "tight_env = example_denv\<lparr>e_free_heap := (\<lambda>w. (100, w)), e_fuel := 150\<rparr>"

lemma heap_wait_terminates_witness:
  "dm_diverged (post (await_heap tight_env) example_start) = dm_diverged example_start \<and> \<not> dm_diverged example_start"
proof -
  have "steady_clock tight_env xw_clock"
    by (simp add: steady_clock_def tight_env_def) (simp add: example_denv_def example_env_def env.defs)
  moreover have "150 \<le> e_fuel tight_env" by (simp add: tight_env_def)
  ultimately have "dm_diverged (post (await_heap tight_env) example_start) = dm_diverged example_start"
    by (rule heap_wait_terminates)
  moreover have "\<not> dm_diverged example_start" by (simp add: example_start_def new_daemon_def)
  ultimately show ?thesis by simp
qed


section \<open>Reconnecting\<close>

text \<open>What leaves the count of failures and the chip alone.\<close>

definition uncounted :: "('w, 'k, 'j) daemon \<Rightarrow> ('w, 'k, 'j) daemon \<Rightarrow> bool" where
  "uncounted s s' \<longleftrightarrow> dm_reconnect_failures s' = dm_reconnect_failures s \<and> dm_halted s' = dm_halted s"

lemma uncounted_preorder [io_rule]: "preorder_rel uncounted"
  by (rule preorder_relI) (simp_all add: uncounted_def)

lemma uncounted_prims [io_intro]:
  "state_io_rel uncounted (dx f)" "state_io_rel uncounted (d_millis E)" "state_io_rel uncounted (emit e)"
  "state_io_rel uncounted (d_delay E ms)"
  by (simp_all add: state_io_rel_post uncounted_def d_millis_def d_delay_def)

lemma uncounted_wait [io_intro]: "state_io_rel uncounted (wait_heap fuel E ws)"
proof (induction fuel)
  case 0
  show ?case by (simp, intro io_rule io_intro io_modify) (simp add: uncounted_def)
next
  case (Suc fuel)
  then show ?case unfolding wait_heap.simps heap_ready_def by (intro io_rule io_intro)
qed

lemma uncounted_parts [io_intro]:
  "state_io_rel uncounted (await_heap E)" "state_io_rel uncounted (refreshAtServerCache E)"
  "state_io_rel uncounted (reauthenticate E c)"
proof -
  show r: "state_io_rel uncounted (refreshAtServerCache E)" unfolding refreshAtServerCache_def
    by (intro io_rule io_intro io_modify) (simp_all add: uncounted_def)
  show "state_io_rel uncounted (await_heap E)" unfolding await_heap_def by (intro io_rule io_intro)
  show "state_io_rel uncounted (reauthenticate E c)" unfolding reauthenticate_def authenticate_client_def
    by (intro io_rule io_intro r)
qed

lemma uncountedD:
  "state_io_rel uncounted m \<Longrightarrow> dm_reconnect_failures (post m s) = dm_reconnect_failures s"
  "state_io_rel uncounted m \<Longrightarrow> dm_halted (post m s) = dm_halted s"
  by (drule io_relD [where s = s], simp add: uncounted_def)+

text \<open>The attempt itself, once the limit and the pause are past.\<close>

definition attempt :: "('w, 'k, 'j, 'e) denv_scheme \<Rightarrow> ('w, 'k, 'j, reconnection) dprog" where
  "attempt E = do {
     n \<leftarrow> gets dm_reconnect_failures;
     when_st (n > 0) (d_delay E (backoff_ms n));
     await_heap E;
     r \<leftarrow> reauthenticate E Monitor;
     if r \<noteq> 0 then do { note_failure; ret Reconnect_failed }
     else do {
       rx' \<leftarrow> gets dm_monitor_regex;
       r2 \<leftarrow> dx (d_monitor_start E (case rx' of None \<Rightarrow> [] | Some x \<Rightarrow> x));
       if r2 \<noteq> 0 then do { note_failure; ret Reconnect_failed }
       else do {
         modify_st (dm_reconnect_failures_update (\<lambda>_. 0));
         ret Reconnected } } }"

lemma reconnect_attempt:
  assumes "dm_reconnect_failures s < NOPORTS_MAX_RECONNECT_FAILURES"
  shows "res (reconnectMonitor E) s = res (attempt E) s" "post (reconnectMonitor E) s = post (attempt E) s"
  using assms by (simp_all add: reconnectMonitor_def attempt_def not_le)

lemma attempt_result:
  defines "n \<equiv> \<lambda>s. dm_reconnect_failures s"
  assumes "n s < NOPORTS_MAX_RECONNECT_FAILURES"
  shows "res (attempt E) s = Reconnected \<and> n (post (attempt E) s) = 0 \<or>
    res (attempt E) s = Reconnect_failed \<and> n (post (attempt E) s) = n s + 1"
    "dm_halted (post (attempt E) s) = dm_halted s"
proof -
  have small: "n s < 255" using assms by (simp add: NOPORTS_MAX_RECONNECT_FAILURES_def word_less_nat_alt)
  have wait: "state_io_rel uncounted (when_st b (d_delay E ms))" for b ms by (intro io_rule io_intro)
  note kept = uncountedD [OF wait] uncountedD [OF uncounted_parts(1)] uncountedD [OF uncounted_parts(3)]
  show "res (attempt E) s = Reconnected \<and> n (post (attempt E) s) = 0 \<or>
    res (attempt E) s = Reconnect_failed \<and> n (post (attempt E) s) = n s + 1" "dm_halted (post (attempt E) s) = dm_halted s"
    using small by (simp_all add: kept attempt_def n_def note_failure_def del: post_simps(7))
qed


text \<open>What an attempt is seen to do: it pauses for the back-off, then for memory, then authenticates once or twice.\<close>

lemma wait_heap_trace: "\<exists>k. dm_trace (post (wait_heap fuel E ws) s) = dm_trace s @ replicate k (Ev_delay 200)"
proof (induction fuel arbitrary: s)
  case 0
  show ?case by (rule exI [of _ 0]) (simp add: d_millis_def)
next
  case (Suc fuel)
  have skip: "\<exists>k. dm_trace s = dm_trace s @ replicate k (Ev_delay 200)" by (rule exI [of _ 0]) simp
  have round: "\<exists>k. dm_trace (post (wait_heap fuel E ws) u) = dm_trace s @ replicate k (Ev_delay 200)"
    if "dm_trace u = dm_trace s @ [Ev_delay 200]" for u
  proof -
    obtain k where "dm_trace (post (wait_heap fuel E ws) u) = dm_trace u @ replicate k (Ev_delay 200)" using Suc by blast
    then show ?thesis using that by (intro exI [of _ "Suc k"]) simp
  qed
  show ?case by (auto simp: d_millis_def heap_ready_def d_delay_def skip intro: round)
qed

lemma await_heap_trace: "\<exists>k. dm_trace (post (await_heap E) s) = dm_trace s @ replicate k (Ev_delay 200)"
proof -
  have skip: "\<exists>k. dm_trace s = dm_trace s @ replicate k (Ev_delay 200)" by (rule exI [of _ 0]) simp
  have wait: "\<exists>k. dm_trace (post (wait_heap (e_fuel E) E ws) u) = dm_trace s @ replicate k (Ev_delay 200)"
    if "dm_trace u = dm_trace s" for ws u
    using wait_heap_trace [of "e_fuel E" E ws u] that by simp
  show ?thesis by (auto simp: await_heap_def d_millis_def skip intro: wait)
qed

lemma reauthenticate_trace:
  "\<exists>k. 1 \<le> k \<and> k \<le> 2 \<and> dm_trace (post (reauthenticate E c) s) = dm_trace s @ replicate k (Ev_authenticate c)"
proof -
  have moved: "dm_trace (post (refreshAtServerCache E) u) = dm_trace u" for u :: "('a, 'b, 'c) daemon"
    by (simp add: refreshAtServerCache_def case_prod_beta split: option.split)
  have two: "\<exists>k\<ge>Suc 0. k \<le> 2 \<and> [e] = replicate k e" "\<exists>k\<ge>Suc 0. k \<le> 2 \<and> [e, e] = replicate k e" for e :: ev
    by (rule exI [of _ 1], simp) (rule exI [of _ 2], simp add: numeral_2_eq_2)
  show ?thesis by (simp add: reauthenticate_def authenticate_client_def moved two)
qed

text \<open>The pause before an attempt, by the number of failures in a row.\<close>

definition pause_before :: "u8 \<Rightarrow> ev list" where
  "pause_before n =
     (if n = 0 then [] else [Ev_delay (if n = 1 then 5000 else if n = 2 then 10000 else if n = 3 then 20000 else 30000)])"

lemma backoff_pause:
  assumes "n < 10"
  shows "(if n > 0 then [Ev_delay (backoff_ms n)] else []) = pause_before n"
proof -
  have "unat n < 10" using assms by (simp add: word_less_nat_alt)
  then have "unat n \<in> {0, 1, 2, 3, 4, 5, 6, 7, 8, 9}" by auto
  then have "n \<in> {0, 1, 2, 3, 4, 5, 6, 7, 8, 9}" by (auto simp: word_unat_eq_iff)
  then show ?thesis by (auto simp: pause_before_def backoff_ms_def Let_def)
qed

lemma attempt_trace:
  assumes "dm_reconnect_failures s < 10"
  shows "\<exists>k j. 1 \<le> j \<and> j \<le> 2 \<and> dm_trace (post (attempt E) s) =
    dm_trace s @ pause_before (dm_reconnect_failures s) @ replicate k (Ev_delay 200) @ replicate j (Ev_authenticate Monitor)"
proof -
  define n where "n = dm_reconnect_failures s"
  define t where "t = post (when_st (n > 0) (d_delay E (backoff_ms n))) s"
  have t: "dm_trace t = dm_trace s @ pause_before n"
    unfolding backoff_pause [OF assms, folded n_def, symmetric] by (simp add: t_def d_delay_def)
  obtain k where k: "dm_trace (post (await_heap E) t) = dm_trace t @ replicate k (Ev_delay 200)"
    using await_heap_trace by blast
  obtain j where j: "1 \<le> j" "j \<le> 2" "dm_trace (post (reauthenticate E Monitor) (post (await_heap E) t)) =
      dm_trace (post (await_heap E) t) @ replicate j (Ev_authenticate Monitor)"
    using reauthenticate_trace by blast
  have "dm_trace (post (attempt E) s) = dm_trace (post (reauthenticate E Monitor) (post (await_heap E) t))"
    by (simp add: attempt_def note_failure_def n_def [symmetric] t_def [symmetric] del: post_simps(7))
  then show ?thesis using j k t unfolding n_def by (intro exI [of _ k] exI [of _ j]) simp
qed

text \<open>C25: an attempt to reconnect the monitor has three outcomes, told apart by the count of failures in a row.
  From ten failures on nothing is tried: the chip pauses a second and restarts. Below ten the daemon first pauses (not at
  all, 5, 10, 20, then 30 seconds, by the count), then waits for memory in steps of 200 ms, then authenticates once, or twice
  when the atServer had moved, and does nothing else that can be seen; a success sets the count to zero, a failure adds one,
  and the chip goes on.\<close>

theorem reconnect_outcomes:
  "case res (reconnectMonitor E) s of
     Rebooting \<Rightarrow> dm_reconnect_failures s \<ge> 10 \<and> dm_halted (post (reconnectMonitor E) s) = Some Restart \<and>
       dm_trace (post (reconnectMonitor E) s) = dm_trace s @ [Ev_delay 1000, Ev_restart]
   | outcome \<Rightarrow> dm_reconnect_failures s < 10 \<and> dm_halted (post (reconnectMonitor E) s) = dm_halted s \<and>
       dm_reconnect_failures (post (reconnectMonitor E) s) = (if outcome = Reconnected then 0 else dm_reconnect_failures s + 1) \<and>
       (\<exists>k j. 1 \<le> j \<and> j \<le> 2 \<and> dm_trace (post (reconnectMonitor E) s) =
          dm_trace s @ pause_before (dm_reconnect_failures s) @ replicate k (Ev_delay 200) @ replicate j (Ev_authenticate Monitor))"
proof (cases "dm_reconnect_failures s < NOPORTS_MAX_RECONNECT_FAILURES")
  case True
  then have less: "dm_reconnect_failures s < 10" by (simp add: NOPORTS_MAX_RECONNECT_FAILURES_def)
  show ?thesis using attempt_result(1) [OF True, of E]
    by (elim disjE conjE) (simp_all only: reconnect_attempt [OF True] reconnection.case if_True if_False
      reconnection.distinct simp_thms attempt_trace [OF less] attempt_result(2) [OF True] less)
next
  case False
  then show ?thesis by (auto simp: reconnectMonitor_def NOPORTS_MAX_RECONNECT_FAILURES_def not_less d_delay_def)
qed

text \<open>Attempts in a row, as the loop makes them.\<close>

definition attempts :: "('w, 'k, 'j, 'e) denv_scheme \<Rightarrow> nat \<Rightarrow> ('w, 'k, 'j, unit) dprog" where
  "attempts E k = for_each [0..<k] (\<lambda>_. do { _ \<leftarrow> reconnectMonitor E; ret () })"

lemma attempts_Suc: "post (attempts E (Suc k)) s = post (reconnectMonitor E) (post (attempts E k) s)"
  by (simp add: attempts_def for_each_append)

lemma attempts_failing:
  fixes E :: "('w, 'k, 'j, 'e) denv_scheme"
  assumes "\<And>s. res (reconnectMonitor E) s \<noteq> Reconnected" "dm_reconnect_failures s = 0" "k \<le> 10"
  shows "dm_reconnect_failures (post (attempts E k) s) = word_of_nat k \<and> dm_halted (post (attempts E k) s) = dm_halted s"
  using assms(3)
proof (induction k)
  case 0
  show ?case by (simp add: attempts_def assms(2))
next
  case (Suc k)
  define t where "t = post (attempts E k) s"
  have t: "dm_reconnect_failures t = word_of_nat k" "dm_halted t = dm_halted s" using Suc by (simp_all add: t_def)
  then have less: "dm_reconnect_failures t < NOPORTS_MAX_RECONNECT_FAILURES"
    using Suc(2) by (simp add: NOPORTS_MAX_RECONNECT_FAILURES_def word_less_nat_alt unat_of_nat take_bit_nat_eq_self)
  have "res (attempt E) t \<noteq> Reconnected" using assms(1) [of t] by (simp add: reconnect_attempt [OF less])
  then show ?case using attempt_result [OF less, of E] t
    by (simp add: attempts_Suc t_def [symmetric] reconnect_attempt [OF less] add.commute)
qed

text \<open>C23: a daemon that cannot reconnect is restarted, and not before. When every attempt fails, the chip
  survives the first ten (the count of failures reaches ten), and the eleventh call restarts it: the daemon never stays
  cut off for good, and ten failures in a row do not yet cost it its relays.\<close>

theorem lasting_failure_restarts:
  assumes "\<forall>s. res (reconnectMonitor E) s \<noteq> Reconnected" "dm_reconnect_failures s = 0" "dm_halted s = None" "k \<le> 11"
  shows "dm_halted (post (attempts E k) s) = (if k \<le> 10 then None else Some Restart)"
proof (cases "k \<le> 10")
  case True
  with attempts_failing [of E s k] assms show ?thesis by simp
next
  case False
  then have k: "k = Suc 10" using assms(4) by simp
  have "dm_reconnect_failures (post (attempts E 10) s) = 10" using attempts_failing [of E s 10] assms by simp
  then show ?thesis unfolding k attempts_Suc by (simp add: reconnectMonitor_def NOPORTS_MAX_RECONNECT_FAILURES_def)
qed

text \<open>An atServer that refuses every authentication.\<close>

definition refusing_env :: "(ex_world, bytes, json) denv" where
  "refusing_env = example_denv\<lparr>d_pkam_authenticate := (\<lambda>_ _ _ w. (1, w))\<rparr>"

lemma lasting_failure_restarts_witness:
  "dm_halted (post (attempts refusing_env 10) example_start) = None \<and>
   dm_halted (post (attempts refusing_env 11) example_start) = Some Restart"
proof -
  have "res (reauthenticate refusing_env c) s \<noteq> 0" for c s
    by (simp add: reauthenticate_def authenticate_client_def refusing_env_def)
  then have no: "\<forall>s. res (reconnectMonitor refusing_env) s \<noteq> Reconnected"
    by (simp add: reconnectMonitor_def del: post_simps(7))
  have s: "dm_reconnect_failures example_start = 0" "dm_halted example_start = None"
    by (simp_all add: example_start_def new_daemon_def)
  show ?thesis using lasting_failure_restarts [OF no s, of 10] lasting_failure_restarts [OF no s, of 11] by simp
qed

end
