(* ===== verification/Daemon_Slots.thy ===== *)
theory Daemon_Slots
  imports Daemon_Steps Example_Daemon
begin

text \<open>
  The daemon's slots: who may write to the relay of a slot. The locale \<open>slot_base\<close> is for relations that tolerate
  whatever leaves the relays alone; \<open>slot_relation\<close> adds the operations that do write to a slot (asking whether its relay
  runs, stopping it, clearing it when it has finished, opening a session in it) and proves the relation of every operation
  of the daemon. It is interpreted by the relation that a running relay is left alone.
\<close>

section \<open>The interface\<close>

definition starts_relay_at :: "nat set \<Rightarrow> ev \<Rightarrow> bool" where
  "starts_relay_at J e \<longleftrightarrow> (\<exists>j c. e = Ev_relay_start j c \<and> j \<in> J)"

text \<open>The relays stay as they are and none is started.\<close>

definition slots_alone :: "('w, 'k, 'j) daemon \<Rightarrow> ('w, 'k, 'j) daemon \<Rightarrow> bool" where
  "slots_alone s s' \<longleftrightarrow> dm_relays s' = dm_relays s \<and> dm_max_relays s' = dm_max_relays s \<and>
     log_only (\<lambda>e. \<not> starts_relay_at UNIV e) s s'"

lemma net_slots_alone: "net_step s s' \<Longrightarrow> slots_alone s s'"
  unfolding net_step_def slots_alone_def starts_relay_at_def log_only_def by (elim conjE exE) (intro conjI exI; force)

locale slot_base =
  fixes P :: "('w, 'k, 'j) daemon \<Rightarrow> ('w, 'k, 'j) daemon \<Rightarrow> bool" and E :: "('w, 'k, 'j, 'e) denv_scheme"
  assumes preorder: "preorder_rel P"
    and elsewhere: "slots_alone s s' \<Longrightarrow> P s s'"
begin

lemmas pre [io_rule] = preorder

lemma net: "state_io_rel net_step m \<Longrightarrow> state_io_rel P m"
  by (auto simp: state_io_rel_post intro: elsewhere net_slots_alone)

lemma modify:
  "(\<And>s. dm_relays (f s) = dm_relays s \<and> dm_trace (f s) = dm_trace s \<and> dm_max_relays (f s) = dm_max_relays s) \<Longrightarrow>
   state_io_rel P (modify_st f)"
  by (simp add: state_io_rel_post elsewhere slots_alone_def log_only_def)

lemma emits [io_intro]:
  "state_io_rel P (emit (Ev_tunnel_close sid))" "state_io_rel P (emit (Ev_message m))" "state_io_rel P (emit (Ev_public_key a pk))"
  "state_io_rel P (emit (Ev_tunnel_open h p sid))" "state_io_rel P (emit (Ev_rpc_request a req))" "state_io_rel P (emit (Ev_relay_stop i))"
  "state_io_rel P (emit (Ev_ping a))" "state_io_rel P (emit (Ev_authenticate c))" "state_io_rel P (emit (Ev_notify a name v))"
  by (simp_all add: state_io_rel_post elsewhere slots_alone_def log_only_def starts_relay_at_def)

lemma prims [io_intro]:
  "state_io_rel P (dx f)" "state_io_rel P (halt h)" "state_io_rel P (set_daemon_state st)"
  "state_io_rel P (setError msg)" "state_io_rel P (upd_key_at i g')"
  by (simp_all add: state_io_rel_post elsewhere slots_alone_def log_only_def)

lemma basics [io_intro]:
  "state_io_rel P (d_millis E')" "state_io_rel P (now_ms E')" "state_io_rel P (d_alloc E' n)"
  "state_io_rel P (d_strdup E' x)" "state_io_rel P (d_dup E' y)" "state_io_rel P (new_object E')"
  "state_io_rel P (add_item E' name v obj)" "state_io_rel P (add_str E' name sv obj)" "state_io_rel P (add_bool E' name b obj)"
  "state_io_rel P (print_unformatted E' v)" "state_io_rel P (d_delay E' ms)"
  "state_io_rel P (reconnectMonitor E')" "state_io_rel P (reconnectWorker E')"
  "state_io_rel P (notifyWithRetry E' to' name value)" "state_io_rel P (sendNptError E' to'' sid msg)"
  "state_io_rel P (handlePingAuthorized E' a)" "state_io_rel P (worker_used E')"
  "state_io_rel P (authenticate E')" "state_io_rel P (startMonitor E')"
  "state_io_rel P (publishPublicSigningKey E')" "state_io_rel P (publishDeviceInfo E')"
  by (rule net, intro io_intro)+

lemma client_keys [io_intro]: "state_io_rel P (forgetClientSigningKey i)" "state_io_rel P (keep_client_key i key)"
  unfolding forgetClientSigningKey_def keep_client_key_def by (intro io_rule io_intro)+

text \<open>A session does nothing else to the relays than to start one.\<close>

lemma session:
  "(\<And>c. state_io_rel P (noports_relay_start E slot c)) \<Longrightarrow> state_io_rel P (run_session E payload who slot key)"
  unfolding run_session_def setup_rvd_auth_def legacy_auth_def escr_setup_def setup_encryption_def session_keys_setup_def
    encrypt_pair_def rsa_encrypt_b64_def fresh_pair_def send_response_def response_payload_def signed_envelope_def Let_def
  by (intro io_rule io_intro) assumption?

end

locale slot_relation = slot_base +
  assumes stopped: "P s (s\<lparr>dm_relays := (dm_relays s)[i := rl_should_run_update (\<lambda>_. False) (dm_relays s ! i)]\<rparr>)"
    and asked: "state_io_rel P (noports_relay_is_running E i)"
    and finished: "state_io_rel P (finish_relay i)"
    and opened: "state_io_rel P (open_session E payload who key)"
begin

lemma relay_calls [io_intro]:
  "state_io_rel P (noports_relay_stop i)" "state_io_rel P (noports_relay_is_running E i)" "state_io_rel P (finish_relay i)"
  "state_io_rel P (open_session E payload who key)"
proof -
  have w: "state_io_rel P (upd_relay_at i (rl_should_run_update (\<lambda>_. False)))" by (simp add: state_io_rel_post stopped)
  show "state_io_rel P (noports_relay_stop i)" unfolding noports_relay_stop_def by (intro io_rule io_intro w)
qed (rule asked finished opened)+

lemma lookups [io_intro]: "state_io_rel P (lookup_at E host port uri tmo)" "state_io_rel P (findAtServer E a)"
  unfolding lookup_at_def read_body_def findAtServer_def by (intro io_rule io_intro)+

lemma lookup_key: "state_io_rel (on_first P) (lookupSigningKey E uri)"
  unfolding lookupSigningKey_def own_lookup_def
  by (intro io_rule on_first_with_ctx on_first_set_ctx io_intro)

lemma check_signing_key [io_intro]: "state_io_rel P (checkClientSigningKey E env who sid)"
  unfolding checkClientSigningKey_def refuse_session_def draw_mem_def
  by (intro io_rule io_intro run_ctx_io verify_enrollment_io lookup_key)

lemma locations [io_intro]: "state_io_rel P (try_locations E host port uri k tmo ls err)"
proof (induction ls arbitrary: err)
  case Nil
  show ?case by (simp add: io_ret [OF pre])
next
  case (Cons l ls)
  then show ?case unfolding try_locations.simps by (intro io_rule io_intro)
qed

lemma check_key [io_intro]: "state_io_rel P (checkKey E i)"
  unfolding checkKey_def check_known_server_def check_found_server_def withdrawn_to_def watched_def budget_left_def Let_def
  by (intro io_rule io_intro)

lemma check_keys [io_intro]: "state_io_rel P (checkClientKeys E)"
  unfolding checkClientKeys_def check_due_key_def settle_slot_def
  by (intro io_rule io_intro modify conjI; simp)

lemma free_slots [io_intro]: "state_io_rel P (find_free E is)" "state_io_rel P (count_relays E is n)"
proof (induction "is" arbitrary: n)
  case Nil
  { case 1 show ?case by (simp add: io_ret [OF pre]) }
  { case 2 show ?case by (simp add: io_ret [OF pre]) }
next
  case (Cons j js)
  { case 1 show ?case unfolding find_free.simps using Cons by (intro io_rule io_intro) }
  { case 2 show ?case unfolding count_relays.simps using Cons by (intro io_rule io_intro) }
qed

lemma requests [io_intro]:
  "state_io_rel P (continueNptRequest E env who po)" "state_io_rel P (verifyEnvelopeSignature E env who)"
  unfolding continueNptRequest_def verifyEnvelopeSignature_def Let_def
  by (intro io_rule io_intro)+

lemma policy [io_intro]:
  "state_io_rel P (policyRateLimited E a ty)" "state_io_rel P (cached_decision E who)" "state_io_rel P (cachePolicyDecision E who auth po)"
  "state_io_rel P next_policy_req_id" "state_io_rel P cleanupPolicyPending" "state_io_rel P (sendPolicyRpcRequest E who)"
  unfolding policyRateLimited_def cached_decision_def cachePolicyDecision_def next_policy_req_id_def draw_copy_def
    cleanupPolicyPending_def sendPolicyRpcRequest_def Let_def
  by (intro io_rule io_intro modify conjI; simp)+

lemma checks [io_intro]: "state_io_rel P (start_check E ty env who)"
  unfolding start_check_def by (intro io_rule io_intro modify conjI; simp)

lemma handlers [io_intro]: "state_io_rel P (handlePing E who)" "state_io_rel P (handleNptRequest E n who)"
  unfolding handlePing_def handleNptRequest_def npt_by_policy_def Let_def
  by (intro io_rule io_intro)+

lemma pending_case [io_rule]:
  "state_io_rel P a \<Longrightarrow> state_io_rel P b \<Longrightarrow> state_io_rel P c \<Longrightarrow>
   state_io_rel P (case ty of POLICY_NONE \<Rightarrow> a | POLICY_PING \<Rightarrow> b | POLICY_NPT \<Rightarrow> c)"
  by (cases ty) auto

lemma answers [io_intro]: "state_io_rel P (deny_pending E msg)" "state_io_rel P (allow_pending E po)" "state_io_rel P (handlePolicyResponse E n)"
proof -
  show a: "state_io_rel P (deny_pending E msg)" for msg unfolding deny_pending_def by (intro io_rule io_intro)
  show b: "state_io_rel P (allow_pending E po)" for po unfolding allow_pending_def by (intro io_rule io_intro)
  show "state_io_rel P (handlePolicyResponse E n)" unfolding handlePolicyResponse_def Let_def
    by (intro io_rule io_intro modify conjI a b; simp)
qed

lemma notification [io_intro]: "state_io_rel P (handleNotification E nt)"
proof -
  have "state_io_rel P (dispatch E n f k)" for n f k
    unfolding dispatch_def by (cases k) (simp_all, (intro io_rule io_intro)+)
  then have "state_io_rel P (handle_request E n)" for n
    unfolding handle_request_def by (intro io_rule io_intro)
  then show ?thesis unfolding handleNotification_def by (intro io_rule io_intro)
qed

lemma decrypt_failure [io_intro]: "state_io_rel P (handleDecryptFailure E m)"
  unfolding handleDecryptFailure_def by (intro io_rule io_intro modify conjI; simp)

lemma loop_parts [io_intro]:
  "state_io_rel P cleanupFinishedRelays" "state_io_rel P (check_policy_timeout E)" "state_io_rel P (worker_heartbeat E)"
  "state_io_rel P (ensure_monitor E)" "state_io_rel P (read_failed E m)"
  unfolding cleanupFinishedRelays_def check_policy_timeout_def worker_heartbeat_def ensure_monitor_def
    read_failed_def monitor_failed_def set_timeout_counter_def Let_def
  by (intro io_rule io_intro modify conjI; simp)+

lemma message [io_intro]: "state_io_rel P (handle_message E m)"
proof -
  have t: "state_io_rel P (set_timeout_counter f)" "state_io_rel P (modify_st (dm_monitor_fail_streak_update f'))" for f f'
    unfolding set_timeout_counter_def by (intro modify; simp)+
  show ?thesis unfolding handle_message_def
    by (cases "mg_type m"; simp; intro io_rule io_intro t)
qed

lemma loop: "state_io_rel P (daemon_loop E)"
  unfolding daemon_loop_def monitor_round_def by (intro io_rule io_intro)

lemma public: "state_io_rel P (daemon_stop E)" "state_io_rel P (setWorkerKeepaliveMs E ms)" "state_io_rel P (getActiveRelayCount E)"
  unfolding daemon_stop_def stop_slot_def setWorkerKeepaliveMs_def getActiveRelayCount_def
  by (intro io_rule io_intro modify conjI; simp)+

lemma elements [io_intro]: "state_io_rel P (add_elements E xs arr)"
proof (induction xs arbitrary: arr)
  case Nil
  show ?case by (simp add: io_ret [OF pre])
next
  case (Cons x xs)
  then show ?case unfolding add_elements.simps by (intro io_rule io_intro)
qed

lemma bools [io_intro]: "state_io_rel P (add_bools E fs obj)"
proof (induction fs arbitrary: obj)
  case Nil
  show ?case by (simp add: io_ret [OF pre])
next
  case (Cons f fs)
  then show ?case by (cases f) (simp, intro io_rule io_intro, simp)
qed

lemma stages [io_intro]:
  "state_io_rel P (refuse msg)" "state_io_rel P freeResources" "state_io_rel P (seed_req_counter E)" "state_io_rel P set_root"
  "state_io_rel P (resolve_atserver E)" "state_io_rel P (optional_keys E c)" "state_io_rel P (buildPingResponse E)"
  unfolding refuse_def freeResources_def seed_req_counter_def set_root_def resolve_atserver_def optional_keys_def
    buildPingResponse_def Let_def
  by (intro io_rule io_intro modify conjI; simp)+

lemma begin_stages [io_intro]:
  "state_io_rel P (check_config E)" "state_io_rel P (clone_signing_key E what origin (\<lambda>k. dm_signing_key_update (\<lambda>_. Some k)) key)"
  "state_io_rel P (clone_signing_key E what origin (\<lambda>k. dm_pkam_signing_key_update (\<lambda>_. Some k)) key)"
  unfolding check_config_def clone_signing_key_def by (intro io_rule io_intro modify conjI; simp)+

lemma online [io_intro]: "state_io_rel P (load_keys E)" "state_io_rel P (go_online E)"
  unfolding load_keys_def go_online_def by (intro io_rule io_intro modify conjI; simp)+

lemma begin_related: "state_io_rel P (begin_daemon E cfg)"
  unfolding begin_daemon_def by (intro io_rule io_intro modify conjI; simp)

end

section \<open>A running relay is left alone\<close>

lemma log_only_refl: "log_only Q s s"
  by (simp add: log_only_def)

lemma log_only_trans: "log_only Q s t \<Longrightarrow> log_only Q t u \<Longrightarrow> log_only Q s u"
  using log_only_preorder [of Q] unfolding preorder_rel_def by blast

lemma log_only_weaken: "log_only Q s t \<Longrightarrow> (\<And>e. Q e \<Longrightarrow> Q' e) \<Longrightarrow> log_only Q' s t"
  by (auto simp: log_only_def)

lemma starts_relay_at_mono: "starts_relay_at J e \<Longrightarrow> J \<subseteq> J' \<Longrightarrow> starts_relay_at J' e"
  by (auto simp: starts_relay_at_def)

text \<open>What a session does to the slot it was given.\<close>

definition only_slot :: "nat \<Rightarrow> ('w, 'k, 'j) daemon \<Rightarrow> ('w, 'k, 'j) daemon \<Rightarrow> bool" where
  "only_slot j s s' \<longleftrightarrow> dm_max_relays s' = dm_max_relays s \<and> (\<forall>i. i \<noteq> j \<longrightarrow> dm_relays s' ! i = dm_relays s ! i) \<and>
     log_only (\<lambda>e. \<not> starts_relay_at (- {j}) e) s s'"

lemma only_slot_preorder: "preorder_rel (only_slot j)"
  by (rule preorder_relI) (auto simp: only_slot_def intro: log_only_refl log_only_trans)

interpretation one_slot: slot_base "only_slot j" E for j and E :: "('w, 'k, 'j, 'e) denv_scheme"
proof
  fix s s' :: "('w, 'k, 'j) daemon"
  assume "slots_alone s s'"
  then show "only_slot j s s'"
    unfolding slots_alone_def only_slot_def by (auto elim!: log_only_weaken intro: starts_relay_at_mono)
qed (rule only_slot_preorder)

lemma only_slot_start: "state_io_rel (only_slot j) (noports_relay_start E j c)"
proof -
  have upd: "state_io_rel (only_slot j) (upd_relay_at j f)" for f by (simp add: state_io_rel_post only_slot_def log_only_def)
  have start: "state_io_rel (only_slot j) (emit (Ev_relay_start j own))" for own
    by (simp add: state_io_rel_post only_slot_def log_only_def starts_relay_at_def)
  show ?thesis unfolding noports_relay_start_def ctrl_decrypter_def copy_relay_config_def
    by (intro io_rule one_slot.pre one_slot.basics one_slot.prims upd start)
qed

text \<open>Slot \<open>i\<close> has a running relay whose task the system does not report as gone.\<close>

definition occupied :: "('w, 'k, 'j, 'e) denv_scheme \<Rightarrow> nat \<Rightarrow> ('w, 'k, 'j) daemon \<Rightarrow> bool" where
  "occupied E i s \<longleftrightarrow> live_state (rl_state (dm_relays s ! i)) \<and>
     (\<forall>t w. rl_task_handle (dm_relays s ! i) = Some t \<longrightarrow> \<not> fst (d_task_gone E t w))"

definition told_to_stop_at_most :: "'k relay \<Rightarrow> 'k relay \<Rightarrow> bool" where
  "told_to_stop_at_most r r' \<longleftrightarrow> r' = r \<or> r' = r\<lparr>rl_should_run := False\<rparr>"

lemma told_simps [simp]:
  "told_to_stop_at_most r r" "told_to_stop_at_most r (r\<lparr>rl_should_run := False\<rparr>)"
  by (simp_all add: told_to_stop_at_most_def)

lemma told_trans: "told_to_stop_at_most a b \<Longrightarrow> told_to_stop_at_most b c \<Longrightarrow> told_to_stop_at_most a c"
  by (auto simp: told_to_stop_at_most_def)

text \<open>Nothing of such a relay changes but that it may be told to stop, and a relay is only started in another slot, below
  the limit.\<close>

definition spared :: "('w, 'k, 'j, 'e) denv_scheme \<Rightarrow> nat \<Rightarrow> ('w, 'k, 'j) daemon \<Rightarrow> ('w, 'k, 'j) daemon \<Rightarrow> bool" where
  "spared E i s s' \<longleftrightarrow> dm_max_relays s' = dm_max_relays s \<and>
     log_only (\<lambda>e. \<not> starts_relay_at {unat (dm_max_relays s)..} e) s s' \<and>
     (occupied E i s \<longrightarrow> log_only (\<lambda>e. \<not> starts_relay_at {i} e) s s' \<and> told_to_stop_at_most (dm_relays s ! i) (dm_relays s' ! i))"

lemma spared_occupied: "spared E i s s' \<Longrightarrow> occupied E i s \<Longrightarrow> occupied E i s'"
  unfolding spared_def occupied_def told_to_stop_at_most_def by auto

lemma spared_quiet:
  "dm_trace s' = dm_trace s \<Longrightarrow> dm_max_relays s' = dm_max_relays s \<Longrightarrow>
   (occupied E i s \<Longrightarrow> told_to_stop_at_most (dm_relays s ! i) (dm_relays s' ! i)) \<Longrightarrow> spared E i s s'"
  unfolding spared_def log_only_def by auto

lemma spared_preorder: "preorder_rel (spared E i)"
proof (rule preorder_relI)
  fix s t u :: "('a, 'b, 'c) daemon"
  show "spared E i s s" by (rule spared_quiet) simp_all
  assume st: "spared E i s t" and tu: "spared E i t u"
  then show "spared E i s u" using spared_occupied [OF st] unfolding spared_def
    by (auto intro: log_only_trans told_trans)
qed

lemma spared_refl: "spared E i s s"
  by (rule spared_quiet) simp_all

lemma spared_trans: "spared E i s t \<Longrightarrow> spared E i t u \<Longrightarrow> spared E i s u"
  using spared_preorder [of E i] unfolding preorder_rel_def by blast

interpretation spare_base: slot_base "spared E i" E for E :: "('w, 'k, 'j, 'e) denv_scheme" and i
proof
  fix s s' :: "('w, 'k, 'j) daemon"
  assume "slots_alone s s'"
  then show "spared E i s s'"
    unfolding slots_alone_def spared_def by (auto elim!: log_only_weaken intro: starts_relay_at_mono)
qed (rule spared_preorder)

text \<open>The search for a free slot passes over it.\<close>

lemma spared_asked: "state_io_rel (spared E i) (noports_relay_is_running E j)"
  unfolding state_io_rel_post noports_relay_is_running_def
  by (cases "j = i") (auto intro!: spared_quiet simp: occupied_def split: option.split)

lemma not_running: "\<not> res (noports_relay_is_running E j) s \<Longrightarrow> \<not> occupied E j (post (noports_relay_is_running E j) s)"
  by (cases "j < length (dm_relays s)") (auto simp: noports_relay_is_running_def occupied_def live_state_def not_less list_update_beyond split: option.splits)

lemma find_free_spared: "spared E i s (post (find_free E js) s)"
proof (induction js arbitrary: s)
  case Nil
  show ?case by (simp add: spared_refl)
next
  case (Cons k ks)
  have k: "spared E i s (post (noports_relay_is_running E k) s)" by (rule io_relD) (rule spared_asked)
  then show ?case using spared_trans [OF k Cons] by simp
qed

lemma find_free_other:
  "res (find_free E js) s = Some j \<Longrightarrow> j \<in> set js \<and> \<not> occupied E j (post (find_free E js) s)"
  by (induction js arbitrary: s) (auto simp: not_running split: if_splits)

lemma only_slot_spared:
  assumes "only_slot j s t" "j < unat (dm_max_relays s)" "occupied E i s \<Longrightarrow> j \<noteq> i"
  shows "spared E i s t"
  using assms unfolding only_slot_def spared_def
  by (auto elim!: log_only_weaken intro: starts_relay_at_mono)

lemma spared_opened: "state_io_rel (spared E i) (open_session E payload who key)"
  unfolding state_io_rel_post
proof
  fix s
  define u where "u = post (findFreeRelaySlot E) s"
  have u: "spared E i s u" by (simp add: u_def findFreeRelaySlot_def find_free_spared)
  have err: "spared E i t (post (sendNptError E who' sid msg) t)" for t who' sid msg
    by (rule io_relD) (rule spare_base.basics)
  have run: "spared E i u (post (run_session E payload who j key) u)" if "res (findFreeRelaySlot E) s = Some j" for j
  proof (rule only_slot_spared)
    have j: "j < unat (dm_max_relays s) \<and> \<not> occupied E j u"
      using that find_free_other [of E "[0..<unat (dm_max_relays s)]" s j] by (simp add: findFreeRelaySlot_def u_def)
    then show "j < unat (dm_max_relays u)" using u by (simp add: spared_def)
    show "only_slot j u (post (run_session E payload who j key) u)"
      by (rule io_relD, rule one_slot.session, rule only_slot_start)
    assume "occupied E i u"
    then show "j \<noteq> i" using j by blast
  qed
  show "spared E i s (post (open_session E payload who key) s)"
    using u err run spared_trans [OF u] unfolding open_session_def Let_def
    by (simp add: u_def [symmetric] split: option.split)
qed

lemma spared_finished: "state_io_rel (spared E i) (finish_relay j)"
  unfolding state_io_rel_post finish_relay_def forgetClientSigningKey_def spared_def log_only_def
  by (cases "j = i") (auto simp: occupied_def live_state_def starts_relay_at_def Let_def)

interpretation spare: slot_relation "spared E i" E for E :: "('w, 'k, 'j, 'e) denv_scheme" and i
proof
  fix s :: "('w, 'k, 'j) daemon" and j
  show "spared E i s (s\<lparr>dm_relays := (dm_relays s)[j := rl_should_run_update (\<lambda>_. False) (dm_relays s ! j)]\<rparr>)"
    by (rule spared_quiet, simp, simp, cases "j = i"; cases "j < length (dm_relays s)"; simp add: not_less list_update_beyond)
qed (rule spared_asked spared_finished spared_opened)+



text \<open>The first slot is taken when a request comes in.\<close>

definition busy_start :: "(ex_world, bytes, json) daemon" where
  "busy_start = (let s = post (begin_daemon example_denv example_config) example_start
     in s\<lparr>dm_relays := (dm_relays s)[0 := (dm_relays s ! 0)\<lparr>rl_state := RELAY_RUNNING, rl_bytes_in := 7\<rparr>]\<rparr>)"


end
