(* ===== verification/Permit_Open.thy ===== *)
theory Permit_Open
  imports Daemon_Npt
begin

text \<open>
  What the rules of a \<open>permitOpen\<close> list mean: the strict port parser and the rules of the policy service, whose
  malformed entries permit nothing.
\<close>

section \<open>Ports\<close>

text \<open>What a strictly parsed port is: the whole text is a number from 1 to 65535.\<close>

lemma parse_port_strict_iff:
  "parse_port_strict (Some p) = v \<and> 0 \<le> v \<longleftrightarrow> strtol10 p = Some (v, []) \<and> 1 \<le> v \<and> v \<le> 65535"
proof -
  have "strtol10 [] = None" by (simp add: strtol10_def Let_def starts_with_iff)
  then show ?thesis by (auto simp: parse_port_strict_def UINT16_MAX_def split: option.splits)
qed

lemma strtol10_port: "n \<le> 65535 \<Longrightarrow> strtol10 (dec_nat n) = Some (int n, [])"
  by (simp add: strtol10_dec_nat saturate_long_def LONG_MAX_def)

text \<open>A port that was written is read back, and whatever is written instead of one is refused or lies
  in the range of a port: for every text the parser gives -1 or a value from 1 to 65535, and for the decimal text of
  a number it gives that number exactly when the number is a port.\<close>

theorem port_strict_roundtrip:
  "(parse_port_strict p = -1 \<or> parse_port_strict p \<in> {1..65535}) \<and>
   parse_port_strict (Some (dec_nat n)) = (if n \<in> {1..65535} then int n else -1)"
  by (auto simp: parse_port_strict_def UINT16_MAX_def strtol10_dec_nat saturate_long_def LONG_MAX_def split: option.split)

section \<open>Rules\<close>

lemma word_of_port: "1 \<le> v \<Longrightarrow> v \<le> 65535 \<Longrightarrow> (word_of_int v :: u16) = w \<longleftrightarrow> v = uint w"
  by (auto simp: unsigned_of_int take_bit_eq_mod)

lemma port_above_zero: "w \<noteq> 0 \<Longrightarrow> 1 \<le> uint (w :: u16)"
  using uint_ge_0 [of w] uint_0_iff [of w] by linarith

lemma port_at_most: "uint (w :: u16) \<le> 65535"
  using uint_bounded [of w] by simp

lemma rule_matches_split:
  assumes "CHR '':'' \<notin> set p"
  shows "rule_matches rhost rport (h @ '':'' @ p) \<longleftrightarrow> length h < 128 \<and> (h = ''*'' \<or> h = rhost) \<and>
      (p = ''*'' \<or> strtol10 p = Some (uint rport, []) \<and> rport \<noteq> 0)"
proof -
  have port: "0 \<le> parse_port_strict (Some p) \<and> word_of_int (parse_port_strict (Some p)) = rport \<longleftrightarrow>
      strtol10 p = Some (uint rport, []) \<and> rport \<noteq> 0"
    using parse_port_strict_iff [of p] word_of_port [of "parse_port_strict (Some p)" rport]
      port_above_zero [of rport] port_at_most [of rport] by (metis uint_0_iff zero_less_one not_le uint_ge_0)
  have "parse_port_strict (Some ''*'') = -1" by code_simp
  with port strrchr_last [OF assms, of h] show ?thesis
    by (auto simp: rule_matches_def Let_def)
qed

text \<open>How a port is written: white space and a plus sign may come before the digits, and nothing after them. The comment on
  \<open>_parse_port_strict\<close> asks for digits only; \<open>strtol\<close> is more lenient.\<close>

definition port_text :: "string \<Rightarrow> u16 \<Rightarrow> bool" where
  "port_text p port \<longleftrightarrow>
     (\<exists>w g ds. p = w @ g @ ds \<and> list_all isspace w \<and> g \<in> {'''', ''+''} \<and> ds \<noteq> [] \<and> list_all is_digit ds \<and>
        digits_val ds = uint port \<and> port \<noteq> 0)"

lemma digits_val_nonneg: "list_all is_digit ds \<Longrightarrow> 0 \<le> digits_val ds"
  by (induction ds rule: rev_induct) (auto simp: digits_val_snoc digit_val_def is_digit_def digits_val_def)

lemma plus_sign: "\<not> is_digit CHR ''+''" "\<not> isspace CHR ''+''" "\<not> is_digit CHR ''-''"
  by (auto simp: is_digit_def isspace_def ch_def)

lemma strtol10_sign:
  assumes "list_all isspace w" "list_all is_digit ds" "ds \<noteq> []"
  shows "strtol10 (w @ ds) = Some (saturate_long (digits_val ds), [])"
    "strtol10 (w @ ''+'' @ ds) = Some (saturate_long (digits_val ds), [])"
proof -
  obtain d r where ds: "ds = d # r" using assms(3) by (cases ds) auto
  have d: "\<not> isspace d" "d \<noteq> CHR ''-''" "d \<noteq> CHR ''+''" using assms(2) digit_not_special [of d] by (auto simp: ds)
  have w: "dropWhile isspace (w @ c # x) = c # x" if "\<not> isspace c" for c x
    using assms(1) that by (simp add: list_all_iff dropWhile_append2)
  have all: "takeWhile is_digit ds = ds" "dropWhile is_digit ds = []" using assms(2) by (simp_all add: list_all_iff)
  have "dropWhile isspace (w @ ds) = ds" using w [OF d(1)] by (simp add: ds)
  then show "strtol10 (w @ ds) = Some (saturate_long (digits_val ds), [])"
    using d assms(3) by (simp add: strtol10_def starts_with_def Let_def all [unfolded ds] ds del: takeWhile.simps dropWhile.simps takeWhile_eq_all_conv dropWhile_eq_Nil_conv)
  have "dropWhile isspace (w @ ''+'' @ ds) = ''+'' @ ds" using w [OF plus_sign(2)] by simp
  then show "strtol10 (w @ ''+'' @ ds) = Some (saturate_long (digits_val ds), [])"
    using assms(3) by (simp add: strtol10_def starts_with_def Let_def all del: takeWhile_eq_all_conv dropWhile_eq_Nil_conv)
qed

lemma saturate_port: "saturate_long v = uint (port :: u16) \<longleftrightarrow> v = uint port"
proof -
  define x where "x = uint port"
  have "0 \<le> x" "x \<le> 65535" using uint_bounded [of port] by (simp_all add: x_def)
  then show ?thesis unfolding x_def [symmetric] saturate_long_def LONG_MAX_def by (simp add: max_def min_def)
qed

lemma port_text_iff: "strtol10 p = Some (uint port, []) \<and> port \<noteq> 0 \<longleftrightarrow> port_text p port"
proof
  assume L: "strtol10 p = Some (uint port, []) \<and> port \<noteq> 0"
  define w where "w = takeWhile isspace p"
  define q where "q = dropWhile isspace p"
  define neg where "neg = starts_with ''-'' q"
  define u where "u = (if neg \<or> starts_with ''+'' q then tl q else q)"
  define ds where "ds = takeWhile is_digit u"
  have p: "p = w @ q" by (simp add: w_def q_def)
  have s: "strtol10 p = (if ds = [] then None
      else Some (saturate_long (if neg then - digits_val ds else digits_val ds), dropWhile is_digit u))"
    unfolding strtol10_def Let_def ds_def u_def neg_def q_def by simp
  then have ne: "ds \<noteq> []" and rest: "dropWhile is_digit u = []"
    and v: "saturate_long (if neg then - digits_val ds else digits_val ds) = uint port"
    using L by (auto split: if_splits simp del: dropWhile_eq_Nil_conv)
  have u: "u = ds" using rest unfolding ds_def by (metis append_Nil2 takeWhile_dropWhile_id)
  have d: "list_all is_digit ds" unfolding ds_def list_all_iff by (auto dest: set_takeWhileD)
  have "\<not> neg"
  proof
    assume neg
    then have "- digits_val ds = uint port" using v by (simp add: saturate_port)
    then show False using digits_val_nonneg [OF d] L uint_0_iff [of port] uint_ge_0 [of port] by simp
  qed
  then have val: "digits_val ds = uint port" using v by (simp add: saturate_port)
  have q: "\<exists>g \<in> {'''', ''+''}. q = g @ ds"
  proof (cases "starts_with ''+'' q")
    case True
    then obtain r where "q = ''+'' @ r" unfolding starts_with_iff by blast
    then show ?thesis using u True by (simp add: u_def)
  next
    case False
    then show ?thesis using u \<open>\<not> neg\<close> by (simp add: u_def)
  qed
  have "list_all isspace w" unfolding w_def list_all_iff by (auto dest: set_takeWhileD)
  then show "port_text p port" unfolding port_text_def using p q ne d val L by blast
next
  assume "port_text p port"
  then obtain w g ds where p: "p = w @ g @ ds" "list_all isspace w" "g \<in> {'''', ''+''}" "ds \<noteq> []" "list_all is_digit ds"
    "digits_val ds = uint port" "port \<noteq> 0" unfolding port_text_def by blast
  then show "strtol10 p = Some (uint port, []) \<and> port \<noteq> 0"
    using strtol10_sign [OF p(2,5,4)] saturate_port [of "uint port" port] by auto
qed

lemma rule_matches_text:
  assumes "CHR '':'' \<notin> set p"
  shows "rule_matches rhost rport (h @ '':'' @ p) \<longleftrightarrow>
    length h < 128 \<and> (h = ''*'' \<or> h = rhost) \<and> (p = ''*'' \<or> port_text p rport)"
  unfolding rule_matches_split [OF assms] port_text_iff by (rule refl)


text \<open>A rule as it is written from a host and a port, or no port for every port.\<close>

definition written_rule :: "string \<times> nat option \<Rightarrow> string" where
  "written_rule r = fst r @ '':'' @ (case snd r of None \<Rightarrow> ''*'' | Some n \<Rightarrow> dec_nat n)"

definition rule_covers :: "string \<Rightarrow> u16 \<Rightarrow> string \<times> nat option \<Rightarrow> bool" where
  "rule_covers rhost rport r \<longleftrightarrow> (fst r = ''*'' \<or> fst r = rhost) \<and> (snd r = None \<or> snd r = Some (unat rport))"

definition proper_rule :: "string \<times> nat option \<Rightarrow> bool" where
  "proper_rule r \<longleftrightarrow> length (fst r) < 128 \<and> (case snd r of None \<Rightarrow> True | Some n \<Rightarrow> 1 \<le> n \<and> n \<le> 65535)"

lemma rule_written:
  assumes "proper_rule r"
  shows "rule_matches rhost rport (written_rule r) \<longleftrightarrow> rule_covers rhost rport r"
proof (cases r)
  case (Pair h x)
  show ?thesis
  proof (cases x)
    case None
    have "CHR '':'' \<notin> set ''*''" by simp
    from rule_matches_split [OF this, of rhost rport h] show ?thesis
      using assms by (simp add: Pair None written_rule_def rule_covers_def proper_rule_def)
  next
    case (Some n)
    have digits: "CHR '':'' \<notin> set (dec_nat n)" "CHR ''*'' \<notin> set (dec_nat n)"
      using dec_nat_digits [of n] by (auto simp: is_digit_def ch_def)
    then have star: "dec_nat n \<noteq> ''*''" by auto
    have n: "1 \<le> n" "n \<le> 65535" "length h < 128" using assms by (simp_all add: Pair Some proper_rule_def)
    have "strtol10 (dec_nat n) = Some (uint rport, []) \<and> rport \<noteq> 0 \<longleftrightarrow> n = unat rport"
    proof -
      define k where "k = unat rport"
      have u: "uint rport = int k" and z: "rport = 0 \<longleftrightarrow> k = 0" by (simp_all add: k_def unat_eq_zero)
      show ?thesis unfolding strtol10_port [OF n(2)] u z k_def [symmetric] using n(1) by auto
    qed
    then show ?thesis using rule_matches_split [OF digits(1), of rhost rport h] star n(3)
      by (auto simp: Pair Some written_rule_def rule_covers_def)
  qed
qed

text \<open>C26: rules of the usual form mean exactly what they say. A list of rules, each written from a host of fewer than 128
  characters (or \<open>*\<close>) and a port number (or \<open>*\<close>), permits a target if and only if one of them names its host, or every host,
  and its port, or every port.\<close>

theorem written_rules_permit:
  assumes "list_all proper_rule rs"
  shows "policy_permits (map written_rule rs) rhost rport \<longleftrightarrow> list_ex (rule_covers rhost rport) rs"
  using assms by (induction rs) (simp_all add: policy_permits_def rule_written)

lemma written_rules_permit_witness:
  "policy_permits [''db:22'', ''*:80''] ''web'' 80 \<and> \<not> policy_permits [''db:22'', ''*:80''] ''web'' 22"
proof -
  let ?rs = "[(''db'', Some 22), (''*'', Some 80)]"
  have w: "map written_rule ?rs = [''db:22'', ''*:80'']" by code_simp
  have ok: "list_all proper_rule ?rs" by (simp add: proper_rule_def)
  show ?thesis
    using written_rules_permit [OF ok, of "''web''" 80] written_rules_permit [OF ok, of "''web''" 22]
    unfolding w by (simp add: rule_covers_def)
qed

end
