(* ===== verification/Key_File.thy ===== *)
theory Key_File
  imports Daemon_Types
begin

text \<open>
  \<open>noports_keys.cpp\<close>: loading the atKeys file into the configuration. The file is JSON; four RSA keys are stored
  encrypted with the self-encryption key, which stands beside them. The file system and AES-CTR decryption
  (\<open>atchops_aes_ctr_decrypt\<close>) are functions of the environment.
\<close>

section \<open>The environment\<close>

record ('w, 'j) key_env =
  kf_mount :: "'w \<Rightarrow> bool \<times> 'w"                          \<comment> \<open>\<open>NOPORTS_FS.begin(true)\<close>\<close>
  kf_size :: "string \<Rightarrow> 'w \<Rightarrow> nat option \<times> 'w"          \<comment> \<open>\<open>open\<close> and \<open>size\<close>\<close>
  kf_read :: "string \<Rightarrow> nat \<Rightarrow> 'w \<Rightarrow> string \<times> 'w"        \<comment> \<open>the C string the buffer holds after \<open>readBytes\<close>\<close>
  kf_alloc :: "nat \<Rightarrow> 'w \<Rightarrow> bool \<times> 'w"
  kf_cj :: "'j cjson"
  kf_ops :: atchops
  kf_ctr_decrypt :: "bytes \<Rightarrow> bytes \<Rightarrow> bytes \<Rightarrow> nat \<Rightarrow> bytes option" \<comment> \<open>key, iv, data and the size of the output buffer\<close>

type_synonym ('w, 'a) kprog = "('w \<times> np_config, 'a) state"

definition kx :: "('w \<Rightarrow> 'r \<times> 'w) \<Rightarrow> ('w, 'r) kprog" where
  "kx f = State (\<lambda>(w, c). case f w of (r, w') \<Rightarrow> (r, (w', c)))"

definition set_cfg :: "(np_config \<Rightarrow> np_config) \<Rightarrow> ('w, unit) kprog" where
  "set_cfg f = modify_st (\<lambda>(w, c). (w, f c))"

definition k_strdup :: "('w, 'j) key_env \<Rightarrow> string \<Rightarrow> ('w, string option) kprog" where
  "k_strdup E x = do { ok \<leftarrow> kx (kf_alloc E (length x + 1)); ret (if ok then Some x else None) }"

lemma kprog_simps [simp]:
  "res (kx f) s = fst (f (fst s))" "post (kx f) s = (snd (f (fst s)), snd s)" "post (set_cfg g) s = (fst s, g (snd s))"
  by (simp_all add: kx_def set_cfg_def res_def post_def case_prod_beta)

section \<open>Decrypting one key\<close>

definition ATCHOPS_IV_BUFFER_SIZE :: nat where "ATCHOPS_IV_BUFFER_SIZE = 16"

text \<open>The atKeys format uses an iv of zeros. \<open>None\<close> is the result -1.\<close>

definition decrypt_key :: "('w, 'j) key_env \<Rightarrow> string \<Rightarrow> string \<Rightarrow> ('w, string option) kprog" where
  "decrypt_key E encrypted_base64 self_enc_key_base64 =
     (case base64_decode (kf_ops E) self_enc_key_base64 32 of
        None \<Rightarrow> ret None
      | Some aes_key \<Rightarrow>
          if length aes_key \<noteq> 32 then ret None
          else do {
            ok \<leftarrow> kx (kf_alloc E (length encrypted_base64));
            if \<not> ok then ret None
            else case base64_decode (kf_ops E) encrypted_base64 (length encrypted_base64) of
                None \<Rightarrow> ret None
              | Some encrypted \<Rightarrow> do {
                  ok2 \<leftarrow> kx (kf_alloc E (length encrypted + 1));
                  if \<not> ok2 then ret None
                  else ret (map_option c_string
                    (kf_ctr_decrypt E aes_key (replicate ATCHOPS_IV_BUFFER_SIZE 0) encrypted (length encrypted + 1))) } })"

text \<open>One of the four keys. The result of the step is the next value of \<open>res\<close>, here whether all went well; after a
  failure nothing more is decrypted. A field that is not a string is skipped. The first step does not look at \<open>res\<close>,
  which is 0 then.\<close>

definition load_key ::
  "('w, 'j) key_env \<Rightarrow> 'j \<Rightarrow> string \<Rightarrow> string \<Rightarrow> (string option \<Rightarrow> np_config \<Rightarrow> np_config) \<Rightarrow> bool \<Rightarrow> ('w, bool) kprog" where
  "load_key E doc name self_enc_key store ok =
     (case (if ok then GetStringValue (kf_cj E) (GetObjectItem (kf_cj E) (Some doc) name) else None) of
        None \<Rightarrow> ret ok
      | Some enc \<Rightarrow> do {
          dec \<leftarrow> decrypt_key E enc self_enc_key;
          case dec of None \<Rightarrow> ret False | Some k \<Rightarrow> do { set_cfg (store (Some k)); ret True } })"

definition store_pkam_public :: "string option \<Rightarrow> np_config \<Rightarrow> np_config" where
  "store_pkam_public k = cf_pkam_public_key_base64_update (\<lambda>_. k)"

definition store_pkam_private :: "string option \<Rightarrow> np_config \<Rightarrow> np_config" where
  "store_pkam_private k = cf_pkam_private_key_base64_update (\<lambda>_. k)"

definition store_encrypt_public :: "string option \<Rightarrow> np_config \<Rightarrow> np_config" where
  "store_encrypt_public k = cf_encrypt_public_key_base64_update (\<lambda>_. k)"

definition store_encrypt_private :: "string option \<Rightarrow> np_config \<Rightarrow> np_config" where
  "store_encrypt_private k = cf_encrypt_private_key_base64_update (\<lambda>_. k)"

definition noports_keys_free :: "np_config \<Rightarrow> np_config" where
  "noports_keys_free cfg = cfg\<lparr>cf_pkam_public_key_base64 := None, cf_pkam_private_key_base64 := None,
     cf_encrypt_public_key_base64 := None, cf_encrypt_private_key_base64 := None, cf_self_encryption_key_base64 := None,
     cf_enrollment_id := None\<rparr>"

section \<open>The file\<close>

text \<open>From the parsed document on. True is the result 0.\<close>

definition load_document :: "('w, 'j) key_env \<Rightarrow> 'j \<Rightarrow> ('w, bool) kprog" where
  "load_document E doc =
     (case GetStringValue (kf_cj E) (GetObjectItem (kf_cj E) (Some doc) ''selfEncryptionKey'') of
        None \<Rightarrow> ret False
      | Some self_enc_key \<Rightarrow> do {
          copy \<leftarrow> k_strdup E self_enc_key;
          set_cfg (cf_self_encryption_key_base64_update (\<lambda>_. copy));
          ok1 \<leftarrow> load_key E doc ''aesPkamPublicKey'' self_enc_key store_pkam_public True;
          ok2 \<leftarrow> load_key E doc ''aesPkamPrivateKey'' self_enc_key store_pkam_private ok1;
          ok3 \<leftarrow> load_key E doc ''aesEncryptPublicKey'' self_enc_key store_encrypt_public ok2;
          ok4 \<leftarrow> load_key E doc ''aesEncryptPrivateKey'' self_enc_key store_encrypt_private ok3;
          (case GetStringValue (kf_cj E) (GetObjectItem (kf_cj E) (Some doc) ''enrollmentId'') of
             None \<Rightarrow> ret ()
           | Some eid \<Rightarrow> do { e \<leftarrow> k_strdup E eid; set_cfg (cf_enrollment_id_update (\<lambda>_. e)) });
          when_st (\<not> ok4) (set_cfg noports_keys_free);
          ret ok4 })"

definition noports_keys_load_from_file :: "('w, 'j) key_env \<Rightarrow> string \<Rightarrow> ('w, bool) kprog" where
  "noports_keys_load_from_file E path = do {
     mounted \<leftarrow> kx (kf_mount E);
     if \<not> mounted then ret False
     else do {
       f \<leftarrow> kx (kf_size E path);
       case f of
         None \<Rightarrow> ret False
       | Some sz \<Rightarrow> do {
           ok \<leftarrow> kx (kf_alloc E (sz + 1));
           if \<not> ok then ret False
           else do {
             buf \<leftarrow> kx (kf_read E path sz);
             case cj_parse (kf_cj E) buf of None \<Rightarrow> ret False | Some doc \<Rightarrow> load_document E doc } } } }"

section \<open>What loading does\<close>

text \<open>What a decrypted field holds, given memory.\<close>

definition decrypted :: "('w, 'j) key_env \<Rightarrow> string \<Rightarrow> string \<Rightarrow> string option" where
  "decrypted E self_enc enc =
     (case (base64_decode (kf_ops E) self_enc 32, base64_decode (kf_ops E) enc (length enc)) of
        (Some key, Some bs) \<Rightarrow>
          if length key = 32 then map_option c_string (kf_ctr_decrypt E key (replicate 16 0) bs (length bs + 1)) else None
      | _ \<Rightarrow> None)"

lemma decrypt_key_res:
  "res (decrypt_key E enc k) s = decrypted E k enc \<or> res (decrypt_key E enc k) s = None"
  "snd (post (decrypt_key E enc k) s) = snd s"
  by (auto simp: decrypt_key_def decrypted_def ATCHOPS_IV_BUFFER_SIZE_def split: option.split)

definition field :: "('w, 'j) key_env \<Rightarrow> 'j \<Rightarrow> string \<Rightarrow> string option" where
  "field E doc name = GetStringValue (kf_cj E) (GetObjectItem (kf_cj E) (Some doc) name)"

text \<open>A step of loading, by its cases.\<close>

lemma load_key_cases:
  obtains (failed) "\<not> res (load_key E doc name k store ok) s" "snd (post (load_key E doc name k store ok) s) = snd s"
    | (skipped) "res (load_key E doc name k store ok) s" "ok" "field E doc name = None"
        "snd (post (load_key E doc name k store ok) s) = snd s"
    | (loaded) enc dec where "res (load_key E doc name k store ok) s" "ok" "field E doc name = Some enc" "decrypted E k enc = Some dec"
        "snd (post (load_key E doc name k store ok) s) = store (Some dec) (snd s)"
proof (cases "if ok then field E doc name else None")
  case None
  then show ?thesis using failed skipped by (cases ok) (auto simp: load_key_def field_def [symmetric])
next
  case (Some enc)
  then have ok: ok "field E doc name = Some enc" by (auto split: if_splits)
  show ?thesis
  proof (cases "res (decrypt_key E enc k) s")
    case None
    then show ?thesis using failed ok decrypt_key_res(2) [of E enc k s] by (simp add: load_key_def field_def)
  next
    case d: (Some dec)
    then have "decrypted E k enc = Some dec" using decrypt_key_res(1) [of E enc k s] by auto
    with d show ?thesis using loaded [of enc dec] ok decrypt_key_res(2) [of E enc k s] by (simp add: load_key_def field_def)
  qed
qed

text \<open>What a field of the file means for the value it is loaded into.\<close>

definition field_loaded :: "('w, 'j) key_env \<Rightarrow> 'j \<Rightarrow> string \<Rightarrow> string \<Rightarrow> string option \<Rightarrow> string option \<Rightarrow> bool" where
  "field_loaded E doc k name old v \<longleftrightarrow>
     (case field E doc name of None \<Rightarrow> v = old | Some enc \<Rightarrow> v \<noteq> None \<and> v = decrypted E k enc)"

definition field_copied :: "('w, 'j) key_env \<Rightarrow> 'j \<Rightarrow> string \<Rightarrow> string option \<Rightarrow> string option \<Rightarrow> bool" where
  "field_copied E doc name old v \<longleftrightarrow> (case field E doc name of None \<Rightarrow> v = old | Some x \<Rightarrow> v = Some x \<or> v = None)"

lemma load_key_ok:
  assumes "res (load_key E doc name k store ok) s" "\<And>c. store (get c) c = c"
  obtains v where "ok" "field_loaded E doc k name (get (snd s)) v" "snd (post (load_key E doc name k store ok) s) = store v (snd s)"
proof (cases rule: load_key_cases [where E = E and doc = doc and name = name and k = k and store = store and ok = ok and s = s])
  case failed
  with assms(1) show ?thesis by simp
next
  case skipped
  then show ?thesis using that [of "get (snd s)"] assms(2) by (simp add: field_loaded_def)
next
  case (loaded enc dec)
  then show ?thesis using that [of "Some dec"] by (simp add: field_loaded_def)
qed

text \<open>A loaded configuration, apart from the enrollment id and the self-encryption key.\<close>

definition with_rsa_keys :: "string option \<Rightarrow> string option \<Rightarrow> string option \<Rightarrow> string option \<Rightarrow> np_config \<Rightarrow> np_config" where
  "with_rsa_keys a b c d cfg = cfg\<lparr>cf_pkam_public_key_base64 := a, cf_pkam_private_key_base64 := b,
     cf_encrypt_public_key_base64 := c, cf_encrypt_private_key_base64 := d\<rparr>"

lemmas stores = store_pkam_public_def store_pkam_private_def store_encrypt_public_def store_encrypt_private_def

lemma load_key_frees:
  assumes "\<And>v c. noports_keys_free (store v c) = noports_keys_free c"
  shows "noports_keys_free (snd (post (load_key E doc name k store ok) s)) = noports_keys_free (snd s)"
  by (cases rule: load_key_cases [where E = E and doc = doc and name = name and k = k and store = store and ok = ok and s = s])
    (simp_all add: assms)

lemma load_document_outcome:
  "if res (load_document E doc) s then
     (\<exists>k a b c d e f. field E doc ''selfEncryptionKey'' = Some k \<and>
        field_loaded E doc k ''aesPkamPublicKey'' (cf_pkam_public_key_base64 (snd s)) a \<and>
        field_loaded E doc k ''aesPkamPrivateKey'' (cf_pkam_private_key_base64 (snd s)) b \<and>
        field_loaded E doc k ''aesEncryptPublicKey'' (cf_encrypt_public_key_base64 (snd s)) c \<and>
        field_loaded E doc k ''aesEncryptPrivateKey'' (cf_encrypt_private_key_base64 (snd s)) d \<and>
        field_copied E doc ''selfEncryptionKey'' None e \<and> field_copied E doc ''enrollmentId'' (cf_enrollment_id (snd s)) f \<and>
        snd (post (load_document E doc) s) = with_rsa_keys a b c d
          ((snd s)\<lparr>cf_self_encryption_key_base64 := e, cf_enrollment_id := f\<rparr>))
   else snd (post (load_document E doc) s) =
     (if field E doc ''selfEncryptionKey'' = None then snd s else noports_keys_free (snd s))"
proof (cases "field E doc ''selfEncryptionKey''")
  case None
  then show ?thesis by (simp add: load_document_def field_def)
next
  case (Some k)
  define s0 where "s0 = post (do { copy \<leftarrow> k_strdup E k; set_cfg (cf_self_encryption_key_base64_update (\<lambda>_. copy)) }) s"
  define l1 where "l1 = load_key E doc ''aesPkamPublicKey'' k store_pkam_public True"
  define l2 where "l2 = load_key E doc ''aesPkamPrivateKey'' k store_pkam_private (res l1 s0)"
  define s1 where "s1 = post l1 s0"
  define s2 where "s2 = post l2 s1"
  define l3 where "l3 = load_key E doc ''aesEncryptPublicKey'' k store_encrypt_public (res l2 s1)"
  define s3 where "s3 = post l3 s2"
  define l4 where "l4 = load_key E doc ''aesEncryptPrivateKey'' k store_encrypt_private (res l3 s2)"
  define s4 where "s4 = post l4 s3"
  define enrol where "enrol = (case field E doc ''enrollmentId'' of None \<Rightarrow> ret ()
    | Some eid \<Rightarrow> do { e \<leftarrow> k_strdup E eid; set_cfg (cf_enrollment_id_update (\<lambda>_. e)) })"
  note defs = s0_def s1_def s2_def s3_def s4_def l1_def l2_def l3_def l4_def enrol_def
  have r: "res (load_document E doc) s = res l4 s3"
    "post (load_document E doc) s = post (when_st (\<not> res l4 s3) (set_cfg noports_keys_free)) (post enrol s4)"
    using Some by (simp_all add: load_document_def field_def defs del: post_simps(7) kprog_simps)
  obtain e where e: "field_copied E doc ''selfEncryptionKey'' None e" "snd s0 = (snd s)\<lparr>cf_self_encryption_key_base64 := e\<rparr>"
    using Some that [of "res (k_strdup E k) s"] by (simp add: s0_def k_strdup_def field_copied_def)
  obtain f where f: "field_copied E doc ''enrollmentId'' (cf_enrollment_id (snd s4)) f" "snd (post enrol s4) = (snd s4)\<lparr>cf_enrollment_id := f\<rparr>"
  proof (cases "field E doc ''enrollmentId''")
    case None
    then show ?thesis using that [of "cf_enrollment_id (snd s4)"] by (simp add: enrol_def field_copied_def)
  next
    case (Some eid)
    then show ?thesis using that [of "res (k_strdup E eid) s4"] by (simp add: enrol_def field_copied_def k_strdup_def)
  qed
  show ?thesis
  proof (cases "res l4 s3")
    case True
    obtain d where d: "res l3 s2" "field_loaded E doc k ''aesEncryptPrivateKey'' (cf_encrypt_private_key_base64 (snd s3)) d" "snd s4 = store_encrypt_private d (snd s3)"
      using load_key_ok [OF True [unfolded l4_def], of cf_encrypt_private_key_base64] unfolding s4_def l4_def by (auto simp: stores)
    obtain c where c: "res l2 s1" "field_loaded E doc k ''aesEncryptPublicKey'' (cf_encrypt_public_key_base64 (snd s2)) c" "snd s3 = store_encrypt_public c (snd s2)"
      using load_key_ok [OF d(1) [unfolded l3_def], of cf_encrypt_public_key_base64] unfolding s3_def l3_def by (auto simp: stores)
    obtain b where b: "res l1 s0" "field_loaded E doc k ''aesPkamPrivateKey'' (cf_pkam_private_key_base64 (snd s1)) b" "snd s2 = store_pkam_private b (snd s1)"
      using load_key_ok [OF c(1) [unfolded l2_def], of cf_pkam_private_key_base64] unfolding s2_def l2_def by (auto simp: stores)
    obtain a where a: "field_loaded E doc k ''aesPkamPublicKey'' (cf_pkam_public_key_base64 (snd s0)) a" "snd s1 = store_pkam_public a (snd s0)"
      using load_key_ok [OF b(1) [unfolded l1_def], of cf_pkam_public_key_base64] unfolding s1_def l1_def by (auto simp: stores)
    have "snd (post (load_document E doc) s) = with_rsa_keys a b c d ((snd s)\<lparr>cf_self_encryption_key_base64 := e, cf_enrollment_id := f\<rparr>)"
      using True by (simp add: r f(2) d(3) c(3) b(3) a(2) e(2) stores with_rsa_keys_def)
    moreover have "cf_enrollment_id (snd s4) = cf_enrollment_id (snd s)" "cf_encrypt_private_key_base64 (snd s3) = cf_encrypt_private_key_base64 (snd s)"
      "cf_encrypt_public_key_base64 (snd s2) = cf_encrypt_public_key_base64 (snd s)" "cf_pkam_private_key_base64 (snd s1) = cf_pkam_private_key_base64 (snd s)"
      "cf_pkam_public_key_base64 (snd s0) = cf_pkam_public_key_base64 (snd s)"
      by (simp_all add: d(3) c(3) b(3) a(2) e(2) stores)
    ultimately show ?thesis using True Some e(1) f(1) a(1) b(2) c(2) d(2) by (simp only: r(1) if_True) blast
  next
    case False
    have "noports_keys_free (snd s4) = noports_keys_free (snd s0)"
      unfolding s4_def l4_def s3_def l3_def s2_def l2_def s1_def l1_def
      by (subst load_key_frees, simp add: stores noports_keys_free_def)+ simp
    then have "noports_keys_free (snd (post enrol s4)) = noports_keys_free (snd s)"
      by (simp add: f(2) e(2) noports_keys_free_def)
    then show ?thesis using False Some by (simp add: r)
  qed
qed

text \<open>The document the file at \<open>path\<close> holds, if it can be read and parsed.\<close>

definition file_document :: "('w, 'j) key_env \<Rightarrow> string \<Rightarrow> 'w \<Rightarrow> 'j option" where
  "file_document E path w =
     (let (mounted, w1) = kf_mount E w; (f, w2) = kf_size E path w1
      in if \<not> mounted then None
         else case f of
             None \<Rightarrow> None
           | Some sz \<Rightarrow> (let (ok, w3) = kf_alloc E (sz + 1) w2
               in if ok then cj_parse (kf_cj E) (fst (kf_read E path sz w3)) else None))"

lemma load_from_file_document:
  "case file_document E path (fst s) of
     None \<Rightarrow> \<not> res (noports_keys_load_from_file E path) s \<and> snd (post (noports_keys_load_from_file E path) s) = snd s
   | Some doc \<Rightarrow> \<exists>w. res (noports_keys_load_from_file E path) s = res (load_document E doc) (w, snd s) \<and>
       post (noports_keys_load_from_file E path) s = post (load_document E doc) (w, snd s)"
  by (auto simp: noports_keys_load_from_file_def file_document_def Let_def case_prod_beta split: option.splits)

text \<open>C28: what loading the atKeys file comes to. It succeeds only when the file at the path holds a document with a
  self-encryption key with which every RSA key that the document has was decrypted. Then each of them is stored under its own
  name, a key the document lacks keeps its value, the self-encryption key and the enrollment id are the document's (or absent
  when there was no memory to copy them), and nothing else changes. Without a document, or without a self-encryption key in
  it, nothing changes; every later failure leaves none of the six values.\<close>

theorem keys_load_outcome:
  fixes E :: "('w, 'j) key_env" and path :: string
  defines "load \<equiv> noports_keys_load_from_file E path"
  shows "if res load s then
     (\<exists>doc k a b c d e f. file_document E path (fst s) = Some doc \<and> field E doc ''selfEncryptionKey'' = Some k \<and>
        field_loaded E doc k ''aesPkamPublicKey'' (cf_pkam_public_key_base64 (snd s)) a \<and>
        field_loaded E doc k ''aesPkamPrivateKey'' (cf_pkam_private_key_base64 (snd s)) b \<and>
        field_loaded E doc k ''aesEncryptPublicKey'' (cf_encrypt_public_key_base64 (snd s)) c \<and>
        field_loaded E doc k ''aesEncryptPrivateKey'' (cf_encrypt_private_key_base64 (snd s)) d \<and>
        field_copied E doc ''selfEncryptionKey'' None e \<and> field_copied E doc ''enrollmentId'' (cf_enrollment_id (snd s)) f \<and>
        snd (post load s) = with_rsa_keys a b c d
          ((snd s)\<lparr>cf_self_encryption_key_base64 := e, cf_enrollment_id := f\<rparr>))
   else snd (post load s) = (case file_document E path (fst s) of
       None \<Rightarrow> snd s
     | Some doc \<Rightarrow> if field E doc ''selfEncryptionKey'' = None then snd s else noports_keys_free (snd s))"
proof (cases "file_document E path (fst s)")
  case None
  then show ?thesis using load_from_file_document [of E path s] by (simp add: load_def)
next
  case (Some doc)
  then obtain w where t: "res load s = res (load_document E doc) (w, snd s)" "post load s = post (load_document E doc) (w, snd s)"
    using load_from_file_document [of E path s] by (auto simp: load_def)
  show ?thesis
  proof (cases "res (load_document E doc) (w, snd s)")
    case True
    with load_document_outcome [of E doc "(w, snd s)"] Some show ?thesis by (simp only: t if_True snd_conv) blast
  next
    case False
    with load_document_outcome [of E doc "(w, snd s)"] Some show ?thesis by (simp only: t if_False snd_conv option.case)
  qed
qed

end
