(* ===== verification/C_Sessions.thy ===== *)
theory C_Sessions
  imports NP_CString "HOL-Library.Multiset"
begin

text \<open>
  \<open>client_sessions.c\<close> of the C daemon: the sessions whose clients signed with an enrollment key, each with the
  process that serves it, and the child processes that look such a key up from time to time. A key that has been
  withdrawn ends the sessions signed with it. Starting a check, sending a signal and allocating are functions of the
  environment; \<open>cs_trace\<close> is a ghost record of what was started and signalled, and \<open>cs_crashed\<close> is set where the code
  would compare with a NULL pointer.
\<close>

section \<open>State\<close>

definition CLIENT_SESSIONS_MAX_KEY_CHECKS :: nat where "CLIENT_SESSIONS_MAX_KEY_CHECKS = 4"
definition CLIENT_SESSIONS_MAX_KEY_CHECKS_PER_ATSIGN :: nat where "CLIENT_SESSIONS_MAX_KEY_CHECKS_PER_ATSIGN = 2"
definition KEY_CHECK_OVERRUN_SECS :: int where "KEY_CHECK_OVERRUN_SECS = 120"

text \<open>Exit codes of a key check (\<open>public_lookup.h\<close>).\<close>

definition PUBLIC_LOOKUP_KEY_CHECK_REVOKED :: nat where "PUBLIC_LOOKUP_KEY_CHECK_REVOKED = 10"
definition PUBLIC_LOOKUP_KEY_CHECK_DELETED :: nat where "PUBLIC_LOOKUP_KEY_CHECK_DELETED = 11"
definition PUBLIC_LOOKUP_KEY_CHECK_UNKNOWN :: nat where "PUBLIC_LOOKUP_KEY_CHECK_UNKNOWN = 13"

record client_session =
  cs_session_id :: string
  cs_signing_key :: string
  cs_srv_pid :: int
  cs_ending :: bool
  cs_due :: bool

record running_check =
  kc_signing_key :: string
  kc_pid :: int
  kc_started :: int

datatype signal = SIGTERM | SIGKILL

text \<open>A status of \<open>waitpid\<close>: \<open>WIFEXITED\<close> with \<open>WEXITSTATUS\<close>, or anything else.\<close>

datatype wait_status = Exited nat | Not_exited

datatype cs_event = Signalled int signal | Check_started string int

record 'w cs_env =
  so_start_key_check :: "string \<Rightarrow> 'w \<Rightarrow> int \<times> 'w"
  so_signal_process :: "int \<Rightarrow> signal \<Rightarrow> 'w \<Rightarrow> int \<times> 'w"
  so_alloc :: "nat \<Rightarrow> 'w \<Rightarrow> bool \<times> 'w"

record 'w cs_state =
  cs_world :: 'w
  cs_trace :: "cs_event list"
  cs_crashed :: bool
  cs_sessions :: "client_session list"
  cs_capacity :: nat
  cs_checks :: "running_check list"
  cs_interval :: nat
  cs_next_due :: int

type_synonym ('w, 'a) cprog = "('w cs_state, 'a) state"

definition cx :: "('w \<Rightarrow> 'r \<times> 'w) \<Rightarrow> ('w, 'r) cprog" where
  "cx f = State (\<lambda>s. case f (cs_world s) of (r, w) \<Rightarrow> (r, s\<lparr>cs_world := w\<rparr>))"

definition cs_emit :: "cs_event \<Rightarrow> ('w, unit) cprog" where
  "cs_emit e = modify_st (cs_trace_update (\<lambda>t. t @ [e]))"

definition cs_crash :: "('w, unit) cprog" where
  "cs_crash = modify_st (cs_crashed_update (\<lambda>_. True))"

lemma cprog_simps [simp]:
  "res (cx f) s = fst (f (cs_world s))"
  "post (cx f) s = s\<lparr>cs_world := snd (f (cs_world s))\<rparr>"
  "post (cs_emit e) s = s\<lparr>cs_trace := cs_trace s @ [e]\<rparr>"
  "post cs_crash s = s\<lparr>cs_crashed := True\<rparr>"
  by (simp_all add: cx_def cs_emit_def cs_crash_def res_def post_def case_prod_beta)

section \<open>Operations\<close>

text \<open>The static variables before \<open>client_sessions_init\<close>.\<close>

definition cs_start :: "'w \<Rightarrow> 'w cs_state" where
  "cs_start w = \<lparr>cs_world = w, cs_trace = [], cs_crashed = False, cs_sessions = [], cs_capacity = 0, cs_checks = [],
     cs_interval = 0, cs_next_due = 0\<rparr>"

definition client_sessions_init :: "nat \<Rightarrow> ('w, unit) cprog" where
  "client_sessions_init secs = modify_st (\<lambda>s. s\<lparr>cs_interval := secs, cs_next_due := 0\<rparr>)"

definition find_session :: "'w cs_state \<Rightarrow> string \<Rightarrow> client_session option" where
  "find_session s sid = List.find (\<lambda>x. cs_session_id x = sid) (cs_sessions s)"

definition client_sessions_is_watched :: "'w cs_state \<Rightarrow> string \<Rightarrow> bool" where
  "client_sessions_is_watched s sid \<longleftrightarrow> find_session s sid \<noteq> None"

definition end_session :: "'w cs_env \<Rightarrow> int \<Rightarrow> ('w, unit) cprog" where
  "end_session E pid = do { cs_emit (Signalled pid SIGTERM); _ \<leftarrow> cx (so_signal_process E pid SIGTERM); ret () }"

text \<open>The array doubles when it is full. False when it cannot.\<close>

definition grow_sessions :: "'w cs_env \<Rightarrow> ('w, bool) cprog" where
  "grow_sessions E = do {
     s \<leftarrow> get_st;
     if length (cs_sessions s) = cs_capacity s then do {
       let capacity = (if cs_capacity s = 0 then 8 else cs_capacity s * 2);
       ok \<leftarrow> cx (so_alloc E capacity);
       when_st ok (modify_st (cs_capacity_update (\<lambda>_. capacity)));
       ret ok }
     else ret True }"

definition client_sessions_track :: "'w cs_env \<Rightarrow> string \<Rightarrow> string \<Rightarrow> int \<Rightarrow> ('w, int) cprog" where
  "client_sessions_track E sid key pid = do {
     found \<leftarrow> gets (\<lambda>s. find_session s sid);
     if found \<noteq> None then do { end_session E pid; ret 1 }
     else do {
       ok \<leftarrow> grow_sessions E;
       if \<not> ok then ret 1
       else do {
         a \<leftarrow> cx (so_alloc E (length sid + 1));
         b \<leftarrow> cx (so_alloc E (length key + 1));
         if \<not> a \<or> \<not> b then ret 1
         else do {
           modify_st (cs_sessions_update (\<lambda>xs. xs @ [\<lparr>cs_session_id = sid, cs_signing_key = key, cs_srv_pid = pid,
             cs_ending = False, cs_due = False\<rparr>]));
           ret 0 } } } }"

definition is_being_checked :: "'w cs_state \<Rightarrow> string \<Rightarrow> bool" where
  "is_being_checked s key \<longleftrightarrow> list_ex (\<lambda>c. kc_signing_key c = key) (cs_checks s)"

text \<open>The atSign at the end of a key, or NULL.\<close>

definition atsign_part :: "string \<Rightarrow> string option" where
  "atsign_part key = map_option (\<lambda>i. drop i key) (strrchr key CHR ''@'')"

text \<open>\<open>None\<close> when the code would hand NULL to \<open>strcmp\<close>.\<close>

definition checks_of_atsign :: "'w cs_state \<Rightarrow> string \<Rightarrow> nat option" where
  "checks_of_atsign s key =
     (if list_ex (\<lambda>c. atsign_part (kc_signing_key c) = None \<or> atsign_part key = None) (cs_checks s) then None
      else Some (length (filter (\<lambda>c. atsign_part (kc_signing_key c) = atsign_part key) (cs_checks s))))"

definition clear_due :: "string \<Rightarrow> ('w, unit) cprog" where
  "clear_due key = modify_st (cs_sessions_update (map (\<lambda>x. if cs_signing_key x = key then x\<lparr>cs_due := False\<rparr> else x)))"

definition kill_overrun :: "'w cs_env \<Rightarrow> int \<Rightarrow> running_check \<Rightarrow> ('w, unit) cprog" where
  "kill_overrun E now c = when_st (now - kc_started c > KEY_CHECK_OVERRUN_SECS) (do {
     cs_emit (Signalled (kc_pid c) SIGKILL);
     _ \<leftarrow> cx (so_signal_process E (kc_pid c) SIGKILL);
     ret () })"

text \<open>The check of one key, which takes over a copy of it. \<open>None\<close> when the tick ends here.\<close>

definition start_check_of :: "'w cs_env \<Rightarrow> int \<Rightarrow> string \<Rightarrow> ('w, bool) cprog" where
  "start_check_of E now key = do {
     ok \<leftarrow> cx (so_alloc E (length key + 1));
     if \<not> ok then ret False
     else do {
       clear_due key;
       pid \<leftarrow> cx (so_start_key_check E key);
       when_st (pid > 0) (do {
         cs_emit (Check_started key pid);
         modify_st (cs_checks_update (\<lambda>cs. cs @ [\<lparr>kc_signing_key = key, kc_pid = pid, kc_started = now\<rparr>])) });
       ret True } }"

fun start_checks :: "'w cs_env \<Rightarrow> int \<Rightarrow> nat list \<Rightarrow> ('w, unit) cprog" where
  "start_checks E now [] = ret ()"
| "start_checks E now (i # is) = do {
     s \<leftarrow> get_st;
     let x = cs_sessions s ! i; key = cs_signing_key x in
     if length (cs_checks s) \<ge> CLIENT_SESSIONS_MAX_KEY_CHECKS then ret ()
     else if \<not> cs_due x \<or> cs_ending x then start_checks E now is
     else if is_being_checked s key then do { clear_due key; start_checks E now is }
     else case checks_of_atsign s key of
         None \<Rightarrow> cs_crash
       | Some n \<Rightarrow>
           if n \<ge> CLIENT_SESSIONS_MAX_KEY_CHECKS_PER_ATSIGN then start_checks E now is
           else do {
             go \<leftarrow> start_check_of E now key;
             if go then start_checks E now is else ret () } }"

definition mark_due :: "int \<Rightarrow> ('w, unit) cprog" where
  "mark_due now = do {
     s \<leftarrow> get_st;
     when_st (cs_next_due s = 0) (modify_st (cs_next_due_update (\<lambda>_. now + int (cs_interval s))));
     t \<leftarrow> get_st;
     when_st (now \<ge> cs_next_due t) (modify_st (\<lambda>s. s\<lparr>cs_next_due := now + int (cs_interval s),
       cs_sessions := map (cs_due_update (\<lambda>_. True)) (cs_sessions s)\<rparr>)) }"

definition client_sessions_tick :: "'w cs_env \<Rightarrow> int \<Rightarrow> ('w, unit) cprog" where
  "client_sessions_tick E now = do {
     s \<leftarrow> get_st;
     if cs_interval s = 0 then ret ()
     else do {
       for_each (cs_checks s) (kill_overrun E now);
       mark_due now;
       n \<leftarrow> gets (\<lambda>s. length (cs_sessions s));
       start_checks E now [0..<n] } }"

text \<open>The last element takes the place of the removed one.\<close>

definition swap_remove :: "nat \<Rightarrow> 'a list \<Rightarrow> 'a list" where
  "swap_remove i xs = butlast (xs[i := last xs])"

definition remove_session :: "nat \<Rightarrow> ('w, unit) cprog" where
  "remove_session i = modify_st (cs_sessions_update (swap_remove i))"

definition check_outcome :: "wait_status \<Rightarrow> nat" where
  "check_outcome st = (case st of Exited n \<Rightarrow> n | Not_exited \<Rightarrow> PUBLIC_LOOKUP_KEY_CHECK_UNKNOWN)"

definition withdrawn :: "wait_status \<Rightarrow> bool" where
  "withdrawn st \<longleftrightarrow>
     check_outcome st = PUBLIC_LOOKUP_KEY_CHECK_REVOKED \<or> check_outcome st = PUBLIC_LOOKUP_KEY_CHECK_DELETED"

definition end_if_signed_with :: "'w cs_env \<Rightarrow> string \<Rightarrow> nat \<Rightarrow> ('w, unit) cprog" where
  "end_if_signed_with E key i = do {
     x \<leftarrow> gets (\<lambda>s. cs_sessions s ! i);
     when_st (\<not> cs_ending x \<and> cs_signing_key x = key) (do {
       modify_st (cs_sessions_update (\<lambda>xs. xs[i := x\<lparr>cs_ending := True\<rparr>]));
       end_session E (cs_srv_pid x) }) }"

definition key_check_finished :: "'w cs_env \<Rightarrow> string \<Rightarrow> wait_status \<Rightarrow> ('w, unit) cprog" where
  "key_check_finished E key st =
     (if \<not> withdrawn st then ret ()
      else do {
        n \<leftarrow> gets (\<lambda>s. length (cs_sessions s));
        for_each [0..<n] (end_if_signed_with E key) })"

definition client_sessions_reaped :: "'w cs_env \<Rightarrow> int \<Rightarrow> wait_status \<Rightarrow> ('w, bool) cprog" where
  "client_sessions_reaped E pid st = do {
     s \<leftarrow> get_st;
     case find_index (\<lambda>x. cs_srv_pid x = pid) (cs_sessions s) of
       Some i \<Rightarrow> do { remove_session i; ret True }
     | None \<Rightarrow>
         (case find_index (\<lambda>c. kc_pid c = pid) (cs_checks s) of
            None \<Rightarrow> ret False
          | Some i \<Rightarrow> do {
              modify_st (cs_checks_update (swap_remove i));
              key_check_finished E (kc_signing_key (cs_checks s ! i)) st;
              ret True }) }"

definition client_sessions_count :: "'w cs_state \<Rightarrow> nat" where
  "client_sessions_count s = length (cs_sessions s)"

definition client_sessions_free :: "('w, unit) cprog" where
  "client_sessions_free = modify_st (\<lambda>s. s\<lparr>cs_sessions := [], cs_capacity := 0, cs_checks := [], cs_next_due := 0\<rparr>)"

section \<open>Facts\<close>

lemma swap_remove_mset: "i < length xs \<Longrightarrow> mset (swap_remove i xs) = mset xs - {#xs ! i#}"
proof -
  assume i: "i < length xs"
  then have ne: "xs \<noteq> []" by auto
  have b: "mset xs = mset (butlast xs) + {#last xs#}" using ne by (metis append_butlast_last_id mset_append mset_single_iff)
  show ?thesis
  proof (cases "i = length xs - 1")
    case True
    have "butlast (xs[i := last xs]) = butlast xs" using True i by (simp add: butlast_list_update)
    then show ?thesis using b True ne by (simp add: swap_remove_def last_conv_nth)
  next
    case False
    then have i': "i < length (butlast xs)" using i by simp
    have e: "butlast (xs[i := last xs]) = (butlast xs)[i := last xs]" using False i by (simp add: butlast_list_update)
    have n: "butlast xs ! i = xs ! i" using i' by (simp add: nth_butlast)
    have "mset ((butlast xs)[i := last xs]) = add_mset (last xs) (mset (butlast xs) - {#xs ! i#})"
      using i' by (simp add: mset_update n)
    moreover have "xs ! i \<in># mset (butlast xs)" using i' n by (metis in_multiset_in_set nth_mem)
    ultimately show ?thesis using b e by (simp add: swap_remove_def)
  qed
qed

lemma swap_remove_distinct:
  assumes "i < length xs" "distinct (map f xs)"
  shows "distinct (map f (swap_remove i xs))" "set (swap_remove i xs) = set xs - {xs ! i}"
proof -
  have m: "mset xs = add_mset (xs ! i) (mset (swap_remove i xs))" using swap_remove_mset [OF assms(1)] assms(1) by simp
  then have "mset (map f xs) = add_mset (f (xs ! i)) (mset (map f (swap_remove i xs)))" by simp
  then have d: "distinct (f (xs ! i) # map f (swap_remove i xs))" using assms(2)
    by (metis mset.simps(2) mset_eq_imp_distinct_iff)
  then show "distinct (map f (swap_remove i xs))" by simp
  have "set xs = insert (xs ! i) (set (swap_remove i xs))" using m by (metis set_mset_add_mset_insert set_mset_mset)
  moreover have "xs ! i \<notin> set (swap_remove i xs)" using d by auto
  ultimately show "set (swap_remove i xs) = set xs - {xs ! i}" by auto
qed

text \<open>Ending the sessions of a key, as a whole.\<close>

definition ended :: "string \<Rightarrow> client_session list \<Rightarrow> client_session list" where
  "ended key = map (\<lambda>x. if cs_signing_key x = key then x\<lparr>cs_ending := True\<rparr> else x)"

definition terminations :: "string \<Rightarrow> client_session list \<Rightarrow> cs_event list" where
  "terminations key xs = map (\<lambda>x. Signalled (cs_srv_pid x) SIGTERM) (filter (\<lambda>x. \<not> cs_ending x \<and> cs_signing_key x = key) xs)"

lemma ended_simps [simp]:
  "ended key [] = []" "ended key (a @ b) = ended key a @ ended key b" "length (ended key xs) = length xs"
  "terminations key [] = []" "terminations key (a @ b) = terminations key a @ terminations key b"
  by (simp_all add: ended_def terminations_def)

lemma end_each:
  "cs_sessions s = ended key a @ b \<Longrightarrow>
   cs_sessions (post (for_each [length a..<length (a @ b)] (end_if_signed_with E key)) s) = ended key (a @ b) \<and>
   cs_trace (post (for_each [length a..<length (a @ b)] (end_if_signed_with E key)) s) = cs_trace s @ terminations key b \<and>
   cs_checks (post (for_each [length a..<length (a @ b)] (end_if_signed_with E key)) s) = cs_checks s \<and>
   cs_crashed (post (for_each [length a..<length (a @ b)] (end_if_signed_with E key)) s) = cs_crashed s \<and>
   cs_capacity (post (for_each [length a..<length (a @ b)] (end_if_signed_with E key)) s) = cs_capacity s"
proof (induction b arbitrary: a s)
  case Nil
  then show ?case by simp
next
  case (Cons x b)
  define t where "t = post (end_if_signed_with E key (length a)) s"
  have nth: "cs_sessions s ! length a = x" using Cons.prems by (metis ended_simps(3) nth_append_length)
  have upd: "(cs_sessions s)[length a := y] = ended key a @ y # b" for y using Cons.prems by (simp add: list_update_append)
  have t: "cs_sessions t = ended key (a @ [x]) @ b \<and> cs_trace t = cs_trace s @ terminations key [x] \<and> cs_checks t = cs_checks s \<and>
      cs_crashed t = cs_crashed s \<and> cs_capacity t = cs_capacity s"
  proof (cases "\<not> cs_ending x \<and> cs_signing_key x = key")
    case True
    then show ?thesis using upd by (simp add: t_def end_if_signed_with_def end_session_def nth ended_def terminations_def)
  next
    case False
    then have "(if cs_signing_key x = key then x\<lparr>cs_ending := True\<rparr> else x) = x" by auto
    moreover have "t = s" using False by (auto simp: t_def end_if_signed_with_def nth)
    ultimately show ?thesis using Cons.prems False by (simp add: ended_def terminations_def)
  qed
  have range: "[length a..<length (a @ x # b)] = length a # [length (a @ [x])..<length ((a @ [x]) @ b)]"
    using upt_conv_Cons [of "length a" "length (a @ x # b)"] by simp
  from Cons.IH [of t "a @ [x]"] t show ?case unfolding range
    by (simp add: t_def [symmetric] terminations_def)
qed

lemma key_check_finished_spec:
  "cs_sessions (post (key_check_finished E key st) s) = (if withdrawn st then ended key (cs_sessions s) else cs_sessions s)"
  "cs_trace (post (key_check_finished E key st) s) = cs_trace s @ (if withdrawn st then terminations key (cs_sessions s) else [])"
  "cs_checks (post (key_check_finished E key st) s) = cs_checks s"
  "cs_crashed (post (key_check_finished E key st) s) = cs_crashed s"
  "cs_capacity (post (key_check_finished E key st) s) = cs_capacity s"
  using end_each [of s key "[]" "cs_sessions s" E] by (simp_all add: key_check_finished_def)

section \<open>What a finished check does\<close>

text \<open>C29: a finished key check ends the sessions of its key, when the key has been withdrawn, and no others. The check is
  forgotten. When its exit code says that the key was revoked or deleted, exactly the sessions signed with this key
  that were not ending yet get a SIGTERM, once each and in order, and are marked; with any other exit code, and when
  the check was killed, nothing is signalled and no session changes.\<close>

theorem finished_check_ends_its_sessions:
  fixes E :: "'w cs_env" and st :: wait_status
  assumes "\<forall>x \<in> set (cs_sessions s). cs_srv_pid x \<noteq> pid" "find_index (\<lambda>c. kc_pid c = pid) (cs_checks s) = Some i"
  defines "key \<equiv> kc_signing_key (cs_checks s ! i)" and "s' \<equiv> post (client_sessions_reaped E pid st) s"
  shows "cs_trace s' = cs_trace s @ (if st = Exited 10 \<or> st = Exited 11
      then map (\<lambda>x. Signalled (cs_srv_pid x) SIGTERM) (filter (\<lambda>x. \<not> cs_ending x \<and> cs_signing_key x = key) (cs_sessions s))
      else []) \<and>
    cs_sessions s' = (if st = Exited 10 \<or> st = Exited 11
      then map (\<lambda>x. if cs_signing_key x = key then x\<lparr>cs_ending := True\<rparr> else x) (cs_sessions s) else cs_sessions s) \<and>
    mset (cs_checks s') = mset (cs_checks s) - {#cs_checks s ! i#}"
proof -
  have none: "find_index (\<lambda>x. cs_srv_pid x = pid) (cs_sessions s) = None" using assms(1) by (auto simp: find_index_None)
  have w: "withdrawn st \<longleftrightarrow> st = Exited 10 \<or> st = Exited 11"
    by (cases st) (auto simp: withdrawn_def check_outcome_def PUBLIC_LOOKUP_KEY_CHECK_REVOKED_def
        PUBLIC_LOOKUP_KEY_CHECK_DELETED_def PUBLIC_LOOKUP_KEY_CHECK_UNKNOWN_def)
  show ?thesis using swap_remove_mset [OF find_index_Some(1) [OF assms(2)]]
    by (simp add: s'_def client_sessions_reaped_def none assms(2) key_check_finished_spec w ended_def terminations_def key_def)
qed

section \<open>An example\<close>

text \<open>An environment whose world counts the processes it has started.\<close>

definition example_cs_env :: "nat cs_env" where
  "example_cs_env = \<lparr>so_start_key_check = (\<lambda>_ n. (int n, n + 1)), so_signal_process = (\<lambda>_ _ n. (0, n)), so_alloc = (\<lambda>_ n. (True, n))\<rparr>"

definition example_key :: string where "example_key = ''public:_apsk.k.a.__e@bob''"

text \<open>Two sessions of one key, and a check of it that runs as process 100.\<close>

definition example_sessions :: "nat cs_state" where
  "example_sessions = post (do {
     client_sessions_init 60;
     _ \<leftarrow> client_sessions_track example_cs_env ''s1'' example_key 7;
     _ \<leftarrow> client_sessions_track example_cs_env ''s2'' example_key 8;
     client_sessions_tick example_cs_env 1000;
     client_sessions_tick example_cs_env 1060 }) (cs_start 100)"

lemma example_sessions_eq:
  "cs_sessions example_sessions = [\<lparr>cs_session_id = ''s1'', cs_signing_key = example_key, cs_srv_pid = 7, cs_ending = False, cs_due = False\<rparr>,
     \<lparr>cs_session_id = ''s2'', cs_signing_key = example_key, cs_srv_pid = 8, cs_ending = False, cs_due = False\<rparr>]"
  "cs_checks example_sessions = [\<lparr>kc_signing_key = example_key, kc_pid = 100, kc_started = 1060\<rparr>]"
  "cs_trace example_sessions = [Check_started example_key 100]"
  by code_simp+

lemma finished_check_ends_its_sessions_witness:
  "cs_trace (post (client_sessions_reaped example_cs_env 100 (Exited 10)) example_sessions) =
     [Check_started example_key 100, Signalled 7 SIGTERM, Signalled 8 SIGTERM]"
  using finished_check_ends_its_sessions [of example_sessions 100 0 example_cs_env "Exited 10"]
  by (simp add: example_sessions_eq find_index_def)

section \<open>The life of the table\<close>

text \<open>What holds of the running checks and of the table at all times.\<close>

definition checks_ok :: "running_check list \<Rightarrow> bool" where
  "checks_ok cs \<longleftrightarrow> (\<forall>c \<in> set cs. CHR ''@'' \<in> set (kc_signing_key c)) \<and> distinct (map kc_signing_key cs) \<and> length cs \<le> 4 \<and>
     (\<forall>a. length (filter (\<lambda>c. atsign_part (kc_signing_key c) = a) cs) \<le> 2)"

definition cs_inv :: "'w cs_state \<Rightarrow> bool" where
  "cs_inv s \<longleftrightarrow> distinct (map cs_session_id (cs_sessions s)) \<and>
     (\<forall>k \<in> set (map cs_signing_key (cs_sessions s)). CHR ''@'' \<in> set k) \<and>
     length (cs_sessions s) \<le> cs_capacity s \<and> checks_ok (cs_checks s) \<and> \<not> cs_crashed s"

lemma checks_ok_snoc:
  assumes "checks_ok cs" "length cs < 4" "kc_signing_key c \<notin> kc_signing_key ` set cs" "CHR ''@'' \<in> set (kc_signing_key c)"
    "length (filter (\<lambda>d. atsign_part (kc_signing_key d) = atsign_part (kc_signing_key c)) cs) < 2"
  shows "checks_ok (cs @ [c])"
  using assms by (auto simp: checks_ok_def image_iff)

lemma checks_ok_remove:
  assumes "checks_ok cs" "i < length cs"
  shows "checks_ok (swap_remove i cs)"
proof -
  note d = swap_remove_distinct [OF assms(2), of kc_signing_key]
  have m: "mset (swap_remove i cs) = mset cs - {#cs ! i#}" by (rule swap_remove_mset [OF assms(2)])
  have l: "length (filter P (swap_remove i cs)) \<le> length (filter P cs)" for P
  proof -
    have "mset (filter P (swap_remove i cs)) \<subseteq># mset (filter P cs)" by (simp add: m multiset_filter_mono)
    then show ?thesis by (metis size_mset size_mset_mono)
  qed
  have "length (swap_remove i cs) \<le> 4" using l [of "\<lambda>_. True"] assms(1) by (simp add: checks_ok_def)
  moreover have "length (filter (\<lambda>c. atsign_part (kc_signing_key c) = a) (swap_remove i cs)) \<le> 2" for a
    using order_trans [OF l, of "\<lambda>c. atsign_part (kc_signing_key c) = a"] assms(1) by (simp add: checks_ok_def)
  ultimately show ?thesis using assms(1) d by (simp add: checks_ok_def)
qed

text \<open>Everything of the sessions but their due marks.\<close>

definition undue :: "client_session list \<Rightarrow> client_session list" where
  "undue = map (cs_due_update (\<lambda>_. False))"

lemma undue_same:
  assumes "undue xs = undue ys"
  shows "length xs = length ys" "map cs_session_id xs = map cs_session_id ys" "map cs_signing_key xs = map cs_signing_key ys"
    "map cs_srv_pid xs = map cs_srv_pid ys" "map cs_ending xs = map cs_ending ys"
proof -
  have m: "map f xs = map f ys" if "\<And>x. f (cs_due_update (\<lambda>_. False) x) = f x" for f :: "client_session \<Rightarrow> 'b"
    using arg_cong [OF assms, of "map f"] that by (simp add: undue_def comp_def)
  show "length xs = length ys" using assms by (metis length_map undue_def)
  show "map cs_session_id xs = map cs_session_id ys" "map cs_signing_key xs = map cs_signing_key ys"
    "map cs_srv_pid xs = map cs_srv_pid ys" "map cs_ending xs = map cs_ending ys" by (rule m, simp)+
qed

lemma undue_clear [simp]: "undue (map (\<lambda>x. if P x then x\<lparr>cs_due := False\<rparr> else x) xs) = undue xs"
  "undue (map (cs_due_update f) xs) = undue xs"
  by (auto simp: undue_def)

lemma cs_inv_undue:
  assumes "cs_inv s" "undue (cs_sessions s') = undue (cs_sessions s)" "checks_ok (cs_checks s')"
    "cs_crashed s' = cs_crashed s" "cs_capacity s' = cs_capacity s"
  shows "cs_inv s'"
  using assms undue_same [OF assms(2)] by (simp only: cs_inv_def) simp

text \<open>What a tick may do to the table: mark sessions, start checks.\<close>

definition only_starts :: "'w cs_state \<Rightarrow> 'w cs_state \<Rightarrow> bool" where
  "only_starts s s' \<longleftrightarrow> undue (cs_sessions s') = undue (cs_sessions s) \<and>
     (\<exists>tr. cs_trace s' = cs_trace s @ tr \<and> (\<forall>e \<in> set tr. \<exists>key pid. e = Check_started key pid))"

lemma only_starts_refl: "only_starts s s"
  by (simp add: only_starts_def)

lemma only_starts_trans:
  assumes "only_starts s t" "only_starts t u"
  shows "only_starts s u"
proof -
  obtain a where a: "cs_trace t = cs_trace s @ a" "\<forall>e \<in> set a. \<exists>key pid. e = Check_started key pid"
    using assms(1) unfolding only_starts_def by blast
  obtain b where b: "cs_trace u = cs_trace t @ b" "\<forall>e \<in> set b. \<exists>key pid. e = Check_started key pid"
    using assms(2) unfolding only_starts_def by blast
  have "\<exists>tr. cs_trace u = cs_trace s @ tr \<and> (\<forall>e \<in> set tr. \<exists>key pid. e = Check_started key pid)"
    using a b by (intro exI [of _ "a @ b"]) auto
  then show ?thesis using assms by (simp add: only_starts_def)
qed

lemma clear_due_kept: "cs_inv s \<Longrightarrow> cs_inv (post (clear_due key) s) \<and> only_starts s (post (clear_due key) s)"
  using cs_inv_undue [of s "post (clear_due key) s"] by (simp add: clear_due_def only_starts_def cs_inv_def)

lemma atsign_part_Some: "CHR ''@'' \<in> set key \<Longrightarrow> atsign_part key \<noteq> None"
  by (auto simp: atsign_part_def strrchr_None)

lemma start_check_of_kept:
  assumes "cs_inv s" "length (cs_checks s) < 4" "\<not> is_being_checked s key" "checks_of_atsign s key = Some n" "n < 2"
    "CHR ''@'' \<in> set key"
  shows "cs_inv (post (start_check_of E now key) s) \<and> only_starts s (post (start_check_of E now key) s)"
proof -
  have ok: "checks_ok (cs_checks s)" using assms(1) by (simp add: cs_inv_def)
  have "key \<notin> kc_signing_key ` set (cs_checks s)" using assms(3) by (auto simp: is_being_checked_def list_ex_iff)
  then have added: "checks_ok (cs_checks s @ [\<lparr>kc_signing_key = key, kc_pid = pid, kc_started = now\<rparr>])" for pid
    using assms(4-6) by (intro checks_ok_snoc [OF ok assms(2)]) (auto simp: checks_of_atsign_def split: if_splits)
  define t where "t = post (start_check_of E now key) s"
  have same: "undue (cs_sessions t) = undue (cs_sessions s)" "cs_crashed t = cs_crashed s" "cs_capacity t = cs_capacity s"
    "checks_ok (cs_checks t)"
    using ok added by (simp_all add: t_def start_check_of_def clear_due_def)
  have "only_starts s t" using same(1) by (auto simp: only_starts_def t_def start_check_of_def clear_due_def)
  with cs_inv_undue [OF assms(1) same(1,4,2,3)] show ?thesis by (simp add: t_def)
qed

lemma start_checks_kept:
  "cs_inv s \<Longrightarrow> \<forall>i \<in> set is. i < length (cs_sessions s) \<Longrightarrow>
   cs_inv (post (start_checks E now is) s) \<and> only_starts s (post (start_checks E now is) s)"
proof (induction "is" arbitrary: s)
  case Nil
  then show ?case by (simp add: only_starts_refl)
next
  case (Cons i "is")
  let ?key = "cs_signing_key (cs_sessions s ! i)"
  have go: "cs_inv (post (start_checks E now is) t) \<and> only_starts s (post (start_checks E now is) t)"
    if "cs_inv t \<and> only_starts s t" for t
  proof -
    have "length (cs_sessions t) = length (cs_sessions s)" using that by (intro undue_same(1)) (simp add: only_starts_def)
    then have "cs_inv (post (start_checks E now is) t) \<and> only_starts t (post (start_checks E now is) t)"
      using that Cons.prems by (intro Cons.IH) auto
    then show ?thesis using that only_starts_trans by blast
  qed
  have here: "cs_inv s \<and> only_starts s s" using Cons.prems(1) by (simp add: only_starts_refl)
  have at_sign: "CHR ''@'' \<in> set ?key" using Cons.prems by (auto simp: cs_inv_def)
  have "atsign_part (kc_signing_key c) \<noteq> None" if "c \<in> set (cs_checks s)" for c
    using Cons.prems(1) that by (intro atsign_part_Some) (simp add: cs_inv_def checks_ok_def)
  then obtain n where n: "checks_of_atsign s ?key = Some n"
    using atsign_part_Some [OF at_sign] by (auto simp: checks_of_atsign_def list_ex_iff)
  note limits = CLIENT_SESSIONS_MAX_KEY_CHECKS_def CLIENT_SESSIONS_MAX_KEY_CHECKS_PER_ATSIGN_def
  let ?goal = "\<lambda>t. cs_inv t \<and> only_starts s t"
  show ?case
  proof (cases "length (cs_checks s) \<ge> 4 \<or> \<not> cs_due (cs_sessions s ! i) \<or> cs_ending (cs_sessions s ! i)")
    case True
    then show ?thesis using here go [OF here] by (auto simp: Let_def limits)
  next
    case live: False
    show ?thesis
    proof (cases "is_being_checked s ?key \<or> 2 \<le> n")
      case True
      then show ?thesis using live n go [OF here] go [OF clear_due_kept [OF Cons.prems(1)]] by (auto simp: Let_def limits)
    next
      case False
      then have "?goal (post (start_check_of E now ?key) s)"
        using live n at_sign by (intro start_check_of_kept [OF Cons.prems(1)]) auto
      from go [OF this] this show ?thesis using live False n by (simp add: Let_def limits)
    qed
  qed
qed

text \<open>Killing the checks that have overrun.\<close>

definition overruns :: "int \<Rightarrow> running_check list \<Rightarrow> cs_event list" where
  "overruns now cs = map (\<lambda>c. Signalled (kc_pid c) SIGKILL) (filter (\<lambda>c. now - kc_started c > KEY_CHECK_OVERRUN_SECS) cs)"

lemma kill_each: "\<exists>w. post (for_each cs (kill_overrun E now)) s = s\<lparr>cs_world := w, cs_trace := cs_trace s @ overruns now cs\<rparr>"
proof (induction cs arbitrary: s)
  case Nil
  show ?case by (intro exI [of _ "cs_world s"]) (simp add: overruns_def)
next
  case (Cons c cs)
  define w where "w = (if now - kc_started c > KEY_CHECK_OVERRUN_SECS then snd (so_signal_process E (kc_pid c) SIGKILL (cs_world s)) else cs_world s)"
  have w: "post (kill_overrun E now c) s = s\<lparr>cs_world := w, cs_trace := cs_trace s @ overruns now [c]\<rparr>"
    by (simp add: kill_overrun_def overruns_def w_def)
  show ?case using Cons.IH [of "post (kill_overrun E now c) s"] unfolding w by (auto simp: overruns_def w)
qed

lemma mark_due_kept:
  "undue (cs_sessions (post (mark_due now) s)) = undue (cs_sessions s)" "cs_trace (post (mark_due now) s) = cs_trace s"
  "cs_checks (post (mark_due now) s) = cs_checks s" "cs_crashed (post (mark_due now) s) = cs_crashed s"
  "cs_capacity (post (mark_due now) s) = cs_capacity s"
  by (simp_all add: mark_due_def)

lemma tick_kept:
  assumes "cs_inv s"
  shows "cs_inv (post (client_sessions_tick E now) s) \<and>
    undue (cs_sessions (post (client_sessions_tick E now) s)) = undue (cs_sessions s) \<and>
    (\<exists>tr. cs_trace (post (client_sessions_tick E now) s) = cs_trace s @ tr \<and>
      (\<forall>e \<in> set tr. (\<exists>key pid. e = Check_started key pid) \<or>
        (\<exists>c \<in> set (cs_checks s). e = Signalled (kc_pid c) SIGKILL \<and> now - kc_started c > 120)))"
proof (cases "cs_interval s = 0")
  case True
  then show ?thesis using assms by (simp add: client_sessions_tick_def)
next
  case False
  define a where "a = post (for_each (cs_checks s) (kill_overrun E now)) s"
  define b where "b = post (mark_due now) a"
  define c where "c = post (start_checks E now [0..<length (cs_sessions b)]) b"
  obtain w where w: "a = s\<lparr>cs_world := w, cs_trace := cs_trace s @ overruns now (cs_checks s)\<rparr>" using kill_each [of "cs_checks s" E now s] unfolding a_def by blast
  have ok: "checks_ok (cs_checks b)" using assms w by (simp add: b_def mark_due_kept cs_inv_def)
  have b: "cs_inv b" using w by (intro cs_inv_undue [OF assms _ ok]) (simp_all add: b_def mark_due_kept)
  then have c: "cs_inv c" "only_starts b c" using start_checks_kept [of b] unfolding c_def by auto
  obtain tr where tr: "cs_trace c = cs_trace b @ tr" "\<forall>e \<in> set tr. \<exists>key pid. e = Check_started key pid"
    using c(2) unfolding only_starts_def by blast
  have "cs_trace c = cs_trace s @ (overruns now (cs_checks s) @ tr)" using tr(1) w by (simp add: b_def mark_due_kept)
  moreover have "\<forall>e \<in> set (overruns now (cs_checks s) @ tr). (\<exists>key pid. e = Check_started key pid) \<or>
        (\<exists>c \<in> set (cs_checks s). e = Signalled (kc_pid c) SIGKILL \<and> now - kc_started c > 120)"
    using tr(2) by (auto simp: overruns_def KEY_CHECK_OVERRUN_SECS_def)
  moreover have "undue (cs_sessions c) = undue (cs_sessions s)" using c(2) w by (simp add: only_starts_def b_def mark_due_kept)
  moreover have "post (client_sessions_tick E now) s = c" using False
    by (simp add: client_sessions_tick_def a_def b_def c_def)
  ultimately show ?thesis using c(1) by blast
qed

text \<open>The daemon's calls: the record a client signed with names an atSign, which the verification of its request made
  sure of; a child process is one the daemon may hear of in any order; in between the world moves.\<close>

inductive cs_step :: "'w cs_env \<Rightarrow> 'w cs_state \<Rightarrow> 'w cs_state \<Rightarrow> bool" for E :: "'w cs_env" where
  Init: "cs_step E s (post (client_sessions_init secs) s)"
| Track: "CHR ''@'' \<in> set key \<Longrightarrow> cs_step E s (post (client_sessions_track E sid key pid) s)"
| Tick: "cs_step E s (post (client_sessions_tick E now) s)"
| Reaped: "cs_step E s (post (client_sessions_reaped E pid st) s)"
| Free: "cs_step E s (post client_sessions_free s)"
| World: "cs_step E s (s\<lparr>cs_world := w\<rparr>)"

inductive cs_reachable :: "'w cs_env \<Rightarrow> 'w cs_state \<Rightarrow> bool" for E :: "'w cs_env" where
  Start: "cs_reachable E (cs_start w)"
| Step: "cs_reachable E s \<Longrightarrow> cs_step E s t \<Longrightarrow> cs_reachable E t"

lemma find_session_None: "find_session s sid = None \<longleftrightarrow> sid \<notin> cs_session_id ` set (cs_sessions s)"
  by (auto simp: find_session_def find_None_iff)

text \<open>The three outcomes of tracking: the id is taken, no memory, or one more session.\<close>

lemma track_cases:
  obtains (taken) "find_session s sid \<noteq> None" "res (client_sessions_track E sid key pid) s = 1"
      "cs_sessions (post (client_sessions_track E sid key pid) s) = cs_sessions s"
      "cs_trace (post (client_sessions_track E sid key pid) s) = cs_trace s @ [Signalled pid SIGTERM]"
    | (full) "find_session s sid = None" "res (client_sessions_track E sid key pid) s = 1"
      "cs_sessions (post (client_sessions_track E sid key pid) s) = cs_sessions s"
      "cs_trace (post (client_sessions_track E sid key pid) s) = cs_trace s"
    | (added) "find_session s sid = None" "res (client_sessions_track E sid key pid) s = 0"
      "cs_sessions (post (client_sessions_track E sid key pid) s) = cs_sessions s @ [\<lparr>cs_session_id = sid, cs_signing_key = key,
        cs_srv_pid = pid, cs_ending = False, cs_due = False\<rparr>]"
      "cs_trace (post (client_sessions_track E sid key pid) s) = cs_trace s"
      "length (cs_sessions s) \<le> cs_capacity s \<longrightarrow> length (cs_sessions s) < cs_capacity (post (client_sessions_track E sid key pid) s)"
proof (cases "find_session s sid = None")
  case False
  then show ?thesis using taken by (simp add: client_sessions_track_def end_session_def)
next
  case True
  show ?thesis
  proof (cases "res (client_sessions_track E sid key pid) s = 0")
    case z: True
    show ?thesis using True z by (intro added) (auto simp: client_sessions_track_def grow_sessions_def Let_def split: if_splits)
  next
    case z: False
    show ?thesis using True z by (intro full) (auto simp: client_sessions_track_def grow_sessions_def Let_def split: if_splits)
  qed
qed

lemma track_rest:
  "cs_checks (post (client_sessions_track E sid key pid) s) = cs_checks s"
  "cs_crashed (post (client_sessions_track E sid key pid) s) = cs_crashed s"
  "cs_capacity s \<le> cs_capacity (post (client_sessions_track E sid key pid) s)"
  by (auto simp: client_sessions_track_def grow_sessions_def end_session_def Let_def)

lemma track_kept:
  assumes "cs_inv s" "CHR ''@'' \<in> set key"
  shows "cs_inv (post (client_sessions_track E sid key pid) s)"
proof (cases rule: track_cases [where s = s and E = E and sid = sid and key = key and pid = pid])
  case added
  then show ?thesis using assms track_rest [where s = s and E = E and sid = sid and key = key and pid = pid] by (simp add: cs_inv_def find_session_None)
qed (use assms track_rest [where s = s and E = E and sid = sid and key = key and pid = pid] order_trans in \<open>auto simp: cs_inv_def\<close>)

lemma swap_remove_length: "xs \<noteq> [] \<Longrightarrow> length (swap_remove i xs) = length xs - 1"
  by (simp add: swap_remove_def)

lemma ended_maps [simp]:
  "map cs_session_id (ended key xs) = map cs_session_id xs" "map cs_signing_key (ended key xs) = map cs_signing_key xs"
  by (auto simp: ended_def)

lemma reaped_kept:
  assumes "cs_inv s"
  shows "cs_inv (post (client_sessions_reaped E pid st) s)"
proof (cases "find_index (\<lambda>x. cs_srv_pid x = pid) (cs_sessions s)")
  case (Some i)
  note i = find_index_Some(1) [OF Some]
  have "distinct (map cs_session_id (cs_sessions s))" using assms by (simp add: cs_inv_def)
  then show ?thesis using assms swap_remove_distinct [OF i, of cs_session_id]
    by (auto simp: client_sessions_reaped_def Some remove_session_def cs_inv_def swap_remove_def)
next
  case None
  show ?thesis
  proof (cases "find_index (\<lambda>c. kc_pid c = pid) (cs_checks s)")
    case c: None
    show ?thesis using assms by (simp add: client_sessions_reaped_def None c)
  next
    case c: (Some i)
    have "checks_ok (swap_remove i (cs_checks s))" using assms find_index_Some(1) [OF c] by (intro checks_ok_remove) (simp_all add: cs_inv_def)
    then show ?thesis using assms by (simp add: client_sessions_reaped_def None c cs_inv_def key_check_finished_spec del: set_map)
  qed
qed

lemma cs_reachable_inv: "cs_reachable E s \<Longrightarrow> cs_inv s"
proof (induction rule: cs_reachable.induct)
  case (Start w)
  show ?case by (simp add: cs_inv_def cs_start_def checks_ok_def)
next
  case (Step s t)
  from Step(2,3) show ?case
  proof (induction rule: cs_step.induct)
    case (Tick s now)
    then show ?case using tick_kept by blast
  next
    case (Track key s sid pid)
    then show ?case using track_kept by blast
  next
    case (Reaped s pid st)
    then show ?case using reaped_kept by blast
  qed (simp_all add: cs_inv_def client_sessions_init_def client_sessions_free_def checks_ok_def)
qed

text \<open>C30: the limits on key checks hold at all times. However clients, time and exiting children interleave, at most
  four checks run at once, at most two of them look up keys of the same atSign, no key is looked up twice at a time, no
  two watched sessions share an id, the table never outgrows its array, and no comparison reads through NULL.\<close>

theorem key_checks_bounded:
  assumes "cs_reachable E s"
  shows "length (cs_checks s) \<le> 4 \<and> (\<forall>a. length (filter (\<lambda>c. atsign_part (kc_signing_key c) = a) (cs_checks s)) \<le> 2) \<and>
    distinct (map kc_signing_key (cs_checks s)) \<and> distinct (map cs_session_id (cs_sessions s)) \<and>
    length (cs_sessions s) \<le> cs_capacity s \<and> \<not> cs_crashed s"
  using cs_reachable_inv [OF assms] by (simp add: cs_inv_def checks_ok_def)

lemma example_sessions_reachable: "cs_reachable example_cs_env example_sessions"
proof -
  have at_sign: "CHR ''@'' \<in> set example_key" by (simp add: example_key_def)
  have "cs_reachable example_cs_env (post (client_sessions_tick example_cs_env 1060) (post (client_sessions_tick example_cs_env 1000)
      (post (client_sessions_track example_cs_env ''s2'' example_key 8) (post (client_sessions_track example_cs_env ''s1'' example_key 7)
      (post (client_sessions_init 60) (cs_start 100))))))"
    by (rule cs_reachable.Step [OF cs_reachable.Step [OF cs_reachable.Step [OF cs_reachable.Step [OF cs_reachable.Step [OF cs_reachable.Start
        cs_step.Init] cs_step.Track [OF at_sign]] cs_step.Track [OF at_sign]] cs_step.Tick] cs_step.Tick])
  then show ?thesis by (simp add: example_sessions_def)
qed

lemma key_checks_bounded_witness: "length (cs_checks example_sessions) \<le> 4 \<and> cs_checks example_sessions \<noteq> []"
  using key_checks_bounded [OF example_sessions_reachable] by (simp add: example_sessions_eq)

section \<open>The table as a map\<close>

text \<open>What the table means: the key and the process of each watched session id.\<close>

definition watched_sessions :: "'w cs_state \<Rightarrow> string \<Rightarrow> (string \<times> int) option" where
  "watched_sessions s = map_of (map (\<lambda>x. (cs_session_id x, (cs_signing_key x, cs_srv_pid x))) (cs_sessions s))"

lemma watched_undue: "undue xs = undue (cs_sessions s) \<Longrightarrow> cs_sessions s' = xs \<Longrightarrow> watched_sessions s' = watched_sessions s"
proof -
  assume "undue xs = undue (cs_sessions s)" "cs_sessions s' = xs"
  then have "map (\<lambda>x. (cs_session_id x, (cs_signing_key x, cs_srv_pid x))) (undue (cs_sessions s')) =
      map (\<lambda>x. (cs_session_id x, (cs_signing_key x, cs_srv_pid x))) (undue (cs_sessions s))" by simp
  then show ?thesis by (simp add: watched_sessions_def undue_def comp_def)
qed

lemma watched_ended: "cs_sessions s' = ended key (cs_sessions s) \<Longrightarrow> watched_sessions s' = watched_sessions s"
  by (simp add: watched_sessions_def ended_def comp_def if_distrib cong: if_cong)

lemma watched_iff:
  "distinct (map cs_session_id (cs_sessions s)) \<Longrightarrow> watched_sessions s sid = Some v \<longleftrightarrow>
   (\<exists>x \<in> set (cs_sessions s). cs_session_id x = sid \<and> v = (cs_signing_key x, cs_srv_pid x))"
  by (auto simp: watched_sessions_def map_of_eq_Some_iff comp_def)

lemma watched_None: "watched_sessions s sid = None \<longleftrightarrow> find_session s sid = None"
  by (simp add: watched_sessions_def map_of_eq_None_iff find_session_None image_image)

lemma watched_added:
  "cs_sessions s' = cs_sessions s @ [x] \<Longrightarrow> watched_sessions s (cs_session_id x) = None \<Longrightarrow>
   watched_sessions s' = (watched_sessions s)(cs_session_id x \<mapsto> (cs_signing_key x, cs_srv_pid x))"
  by (rule ext) (auto simp: watched_sessions_def map_add_def split: option.split)

lemma watched_removed:
  assumes "distinct (map cs_session_id (cs_sessions s))" "i < length (cs_sessions s)" "cs_sessions s' = swap_remove i (cs_sessions s)"
  shows "watched_sessions s' = (watched_sessions s)(cs_session_id (cs_sessions s ! i) := None)"
proof
  fix sid
  note d = swap_remove_distinct [OF assms(2,1)]
  have "watched_sessions s' sid = Some v \<longleftrightarrow> ((watched_sessions s)(cs_session_id (cs_sessions s ! i) := None)) sid = Some v" for v
    using d assms(1,2) watched_iff [of s' sid v] watched_iff [OF assms(1), of sid v]
    by (auto simp: assms(3) distinct_map inj_on_def)
  then show "watched_sessions s' sid = ((watched_sessions s)(cs_session_id (cs_sessions s ! i) := None)) sid"
    by (metis option.exhaust)
qed

lemma find_by_index: "List.find P xs = map_option ((!) xs) (find_index P xs)"
proof (cases "find_index P xs")
  case (Some i)
  note f = find_index_Some [OF Some]
  show ?thesis using f by (auto simp: Some find_Some_iff)
next
  case None
  then have "find P xs = None" by (auto simp: find_index_None find_None_iff)
  with None show ?thesis by simp
qed

lemma watched_reaped:
  assumes "cs_inv s"
  shows "watched_sessions (post (client_sessions_reaped E pid st) s) =
      (case List.find (\<lambda>x. cs_srv_pid x = pid) (cs_sessions s) of
         Some x \<Rightarrow> (watched_sessions s)(cs_session_id x := None) | None \<Rightarrow> watched_sessions s)"
proof (cases "find_index (\<lambda>x. cs_srv_pid x = pid) (cs_sessions s)")
  case (Some i)
  have "watched_sessions (post (client_sessions_reaped E pid st) s) = (watched_sessions s)(cs_session_id (cs_sessions s ! i) := None)"
    using assms find_index_Some(1) [OF Some]
    by (intro watched_removed) (simp_all add: cs_inv_def client_sessions_reaped_def Some remove_session_def)
  then show ?thesis by (simp add: find_by_index Some)
next
  case None
  have "watched_sessions (post (client_sessions_reaped E pid st) s) = watched_sessions s"
  proof (cases "find_index (\<lambda>c. kc_pid c = pid) (cs_checks s)")
    case c: None
    show ?thesis by (simp add: client_sessions_reaped_def None c)
  next
    case c: (Some i)
    show ?thesis
    proof (cases "withdrawn st")
      case True
      then show ?thesis by (intro watched_ended [where key = "kc_signing_key (cs_checks s ! i)"])
          (simp add: client_sessions_reaped_def None c key_check_finished_spec)
    next
      case False
      then show ?thesis by (intro watched_undue [where xs = "cs_sessions s"])
          (simp_all add: client_sessions_reaped_def None c key_check_finished_spec)
    qed
  qed
  then show ?thesis by (simp add: find_by_index None)
qed

lemma watched_tracked:
  "case (watched_sessions s sid, res (client_sessions_track E sid key pid) s = 0) of
     (Some _, _) \<Rightarrow> watched_sessions (post (client_sessions_track E sid key pid) s) = watched_sessions s \<and>
       res (client_sessions_track E sid key pid) s \<noteq> 0 \<and>
       cs_trace (post (client_sessions_track E sid key pid) s) = cs_trace s @ [Signalled pid SIGTERM]
   | (None, True) \<Rightarrow> watched_sessions (post (client_sessions_track E sid key pid) s) = (watched_sessions s)(sid \<mapsto> (key, pid))
   | (None, False) \<Rightarrow> watched_sessions (post (client_sessions_track E sid key pid) s) = watched_sessions s"
proof (cases rule: track_cases [where s = s and E = E and sid = sid and key = key and pid = pid])
  case taken
  then obtain v where "watched_sessions s sid = Some v" using watched_None [of s sid] by auto
  then show ?thesis using taken watched_undue [OF refl taken(3)] by simp
next
  case full
  then show ?thesis using watched_undue [OF refl full(3)] watched_None [of s sid] by simp
next
  case added
  then show ?thesis using watched_added [OF added(3)] watched_None [of s sid] by simp
qed

text \<open>C31: the table of sessions is a map from ids to keys and processes. A session is watched when the map has
  it. Tracking a new id enters it (or changes nothing, when memory is short), an id that is watched stays as it was and
  the newcomer's process is terminated at once; a session leaves when its process exits, wherever it stands in the
  array; ticks and finished checks never change who is watched.\<close>

theorem session_table_refines_map:
  fixes E :: "'w cs_env" and st :: wait_status
  assumes "cs_reachable E s"
  shows "(client_sessions_is_watched s sid \<longleftrightarrow> watched_sessions s sid \<noteq> None) \<and>
    (case (watched_sessions s sid, res (client_sessions_track E sid key pid) s = 0) of
       (Some _, _) \<Rightarrow> watched_sessions (post (client_sessions_track E sid key pid) s) = watched_sessions s \<and>
         res (client_sessions_track E sid key pid) s \<noteq> 0 \<and>
         cs_trace (post (client_sessions_track E sid key pid) s) = cs_trace s @ [Signalled pid SIGTERM]
     | (None, True) \<Rightarrow> watched_sessions (post (client_sessions_track E sid key pid) s) = (watched_sessions s)(sid \<mapsto> (key, pid))
     | (None, False) \<Rightarrow> watched_sessions (post (client_sessions_track E sid key pid) s) = watched_sessions s) \<and>
    watched_sessions (post (client_sessions_reaped E pid st) s) =
      (case List.find (\<lambda>x. cs_srv_pid x = pid) (cs_sessions s) of
         Some x \<Rightarrow> (watched_sessions s)(cs_session_id x := None) | None \<Rightarrow> watched_sessions s) \<and>
    watched_sessions (post (client_sessions_tick E now) s) = watched_sessions s"
proof -
  have inv: "cs_inv s" by (rule cs_reachable_inv [OF assms])
  have "watched_sessions (post (client_sessions_tick E now) s) = watched_sessions s"
    using tick_kept [OF inv, of E now] by (intro watched_undue [OF _ refl]) simp
  then show ?thesis using watched_tracked [where s = s and E = E and sid = sid and key = key and pid = pid] watched_reaped [OF inv, of E pid st] watched_None [of s sid]
    by (simp add: client_sessions_is_watched_def)
qed

lemma session_table_refines_map_witness:
  "watched_sessions (post (client_sessions_reaped example_cs_env 7 Not_exited) example_sessions) =
     (watched_sessions example_sessions)(''s1'' := None) \<and> client_sessions_is_watched example_sessions ''s1''"
  using session_table_refines_map [OF example_sessions_reachable, where sid = "''s1''" and pid = 7 and st = Not_exited]
  by (simp add: example_sessions_eq client_sessions_is_watched_def find_session_def)

text \<open>C32: a tick of the clock ends nobody's session. It starts checks, and kills only checks that have run for
  more than two minutes; the ids, keys, processes and the fate of the sessions stay as they are, so that a lookup that
  hangs or fails never costs a client its tunnel.\<close>

theorem tick_spares_sessions:
  fixes E :: "'w cs_env" and now :: int
  assumes "cs_reachable E s"
  defines "s' \<equiv> post (client_sessions_tick E now) s"
  shows "map (\<lambda>x. (cs_session_id x, cs_signing_key x, cs_srv_pid x, cs_ending x)) (cs_sessions s') =
      map (\<lambda>x. (cs_session_id x, cs_signing_key x, cs_srv_pid x, cs_ending x)) (cs_sessions s) \<and>
    (\<exists>tr. cs_trace s' = cs_trace s @ tr \<and> (\<forall>e \<in> set tr. (\<exists>key pid. e = Check_started key pid) \<or>
       (\<exists>c \<in> set (cs_checks s). e = Signalled (kc_pid c) SIGKILL \<and> now - kc_started c > 120)))"
proof -
  note k = tick_kept [OF cs_reachable_inv [OF assms(1)], of E now, folded s'_def]
  let ?f = "\<lambda>x. (cs_session_id x, cs_signing_key x, cs_srv_pid x, cs_ending x)"
  have m: "map ?f (undue xs) = map ?f xs" for xs by (simp add: undue_def comp_def)
  have "map ?f (cs_sessions s') = map ?f (cs_sessions s)" using arg_cong [OF conjunct1 [OF conjunct2 [OF k]], of "map ?f"] unfolding m .
  then show ?thesis by (rule conjI [OF _ conjunct2 [OF conjunct2 [OF k]]])
qed

lemma tick_spares_sessions_witness:
  "map cs_ending (cs_sessions (post (client_sessions_tick example_cs_env 9999) example_sessions)) = [False, False]"
  using arg_cong [OF conjunct1 [OF tick_spares_sessions [OF example_sessions_reachable, of 9999]],
      of "map (\<lambda>(i, k, p, e). e)"]
  by (simp add: example_sessions_eq comp_def)

end
