(* ===== verification/C_Permit_Open.thy ===== *)
theory C_Permit_Open
  imports NP_CString
begin

text \<open>
  \<open>permitopen.c\<close> of the C daemon: the list of hosts and ports on its command line. The text is split in place, by
  writing terminators over its colons and commas, and then walked token by token; the model keeps the memory of the
  text as it is, so that a walk which leaves it shows.
\<close>

section \<open>Parsing\<close>

definition NUL :: char where "NUL = CHR 0x00"

definition is_quote :: "char \<Rightarrow> bool" where
  "is_quote c \<longleftrightarrow> c = CHR 0x22 \<or> c = CHR 0x27"

text \<open>The text between the leading and the trailing quotes.\<close>

definition trim_quotes :: "string \<Rightarrow> string" where
  "trim_quotes input = rev (dropWhile is_quote (rev (dropWhile is_quote input)))"

text \<open>Every entry that is not empty has exactly one colon. The loop runs over the end as if it were a comma.\<close>

fun check_shape :: "nat \<Rightarrow> nat \<Rightarrow> string \<Rightarrow> bool" where
  "check_shape entry_colons entry_len [] = True"
| "check_shape entry_colons entry_len (c # cs) =
     (if c = CHR '','' then (if entry_len > 0 \<and> entry_colons \<noteq> 1 then False else check_shape 0 0 cs)
      else check_shape (if c = CHR '':'' then entry_colons + 1 else entry_colons) (entry_len + 1) cs)"

text \<open>The memory from the first character on, up to and with the original terminator, after the split.\<close>

definition split_memory :: "string \<Rightarrow> string" where
  "split_memory input =
     (let body = trim_quotes input;
          from_start = dropWhile is_quote input @ [NUL]
      in map (\<lambda>c. if c = CHR '':'' \<or> c = CHR '','' then NUL else c) body @ NUL # drop (length body + 1) from_start)"

text \<open>The C string at an offset; \<open>None\<close> when no terminator follows inside the memory.\<close>

definition cstr_at :: "string \<Rightarrow> nat \<Rightarrow> string option" where
  "cstr_at mem pos = (if NUL \<in> set (drop pos mem) then Some (takeWhile (\<lambda>c. c \<noteq> NUL) (drop pos mem)) else None)"

text \<open>A port is \<open>*\<close>, kept as 0, or a number from 1 to 65535. The width of \<open>long\<close> does not matter here.\<close>

definition permit_port :: "string \<Rightarrow> u16 option" where
  "permit_port tok =
     (if starts_with ''*'' tok then (if tok = ''*'' then Some 0 else None)
      else case strtol10 tok of
          None \<Rightarrow> None
        | Some (num, rest) \<Rightarrow> if rest \<noteq> [] \<or> num < 1 \<or> num > 65535 then None else Some (word_of_int num))"

datatype permit_result = Permits "(string \<times> u16) list" | Permit_error | Out_of_bounds

fun walk_permits :: "string \<Rightarrow> nat \<Rightarrow> nat \<Rightarrow> permit_result" where
  "walk_permits mem 0 pos = Permits []"
| "walk_permits mem (Suc n) pos =
     (case cstr_at mem pos of
        None \<Rightarrow> Out_of_bounds
      | Some host \<Rightarrow>
          (case cstr_at mem (pos + length host + 1) of
             None \<Rightarrow> Out_of_bounds
           | Some tok \<Rightarrow>
               (case permit_port tok of
                  None \<Rightarrow> Permit_error
                | Some port \<Rightarrow>
                    (case walk_permits mem n (pos + length host + 1 + length tok + 1) of
                       Permits rest \<Rightarrow> Permits ((host, port) # rest)
                     | r \<Rightarrow> r))))"

text \<open>The two arrays are allocated together; \<open>mem_ok\<close> says whether that succeeds.\<close>

definition parse_permitopen :: "bool \<Rightarrow> string \<Rightarrow> permit_result" where
  "parse_permitopen mem_ok input =
     (let body = trim_quotes input; sep_count = count_list body (CHR '':'') in
      if \<not> check_shape 0 0 (body @ '','') then Permit_error
      else if sep_count = 0 then Permit_error
      else if \<not> mem_ok then Permit_error
      else walk_permits (split_memory input) sep_count 0)"

definition should_permitopen :: "(string \<times> u16) list \<Rightarrow> string \<Rightarrow> u16 \<Rightarrow> bool" where
  "should_permitopen permits rhost rport \<longleftrightarrow>
     list_ex (\<lambda>(host, port). (port = 0 \<or> port = rport) \<and> (host = ''*'' \<or> host = rhost)) permits"

section \<open>The walk stays inside the text\<close>

lemma shape_bounds_colons:
  "check_shape k l (cs @ '','') \<Longrightarrow> k \<le> l \<Longrightarrow> k + count_list cs (CHR '':'') \<le> count_list cs (CHR '','') + 1"
proof (induction k l cs rule: check_shape.induct)
  case (2 k l c cs)
  then show ?case by (auto split: if_splits)
qed (auto split: if_splits)

lemma cstr_at_Some:
  assumes "count_list (drop pos mem) NUL > 0"
  obtains t where "cstr_at mem pos = Some t" "count_list (drop (pos + length t + 1) mem) NUL + 1 = count_list (drop pos mem) NUL"
proof -
  have "NUL \<in> set (drop pos mem)" using assms by (metis count_notin less_irrefl)
  then obtain t r where d: "drop pos mem = t @ NUL # r" "NUL \<notin> set t" by (metis split_list_first)
  have "takeWhile (\<lambda>c. c \<noteq> NUL) (drop pos mem) = t" using d by (subst d(1), subst takeWhile_append2) auto
  then have c: "cstr_at mem pos = Some t" using d(1) by (simp add: cstr_at_def)
  have "drop (pos + length t + 1) mem = r" using arg_cong [OF d(1), of "drop (length t + 1)"] by (simp add: add_ac)
  then show ?thesis using that [OF c] d by (simp add: count_notin)
qed

lemma walk_in_bounds: "2 * n \<le> count_list (drop pos mem) NUL \<Longrightarrow> walk_permits mem n pos \<noteq> Out_of_bounds"
proof (induction n arbitrary: pos)
  case (Suc n)
  obtain h where h: "cstr_at mem pos = Some h" "count_list (drop (pos + length h + 1) mem) NUL + 1 = count_list (drop pos mem) NUL"
    using cstr_at_Some [of pos mem] Suc.prems by (auto simp del: drop_drop)
  obtain t where t: "cstr_at mem (pos + length h + 1) = Some t"
      "count_list (drop (pos + length h + 1 + length t + 1) mem) NUL + 1 = count_list (drop (pos + length h + 1) mem) NUL"
    using cstr_at_Some [of "pos + length h + 1" mem] Suc.prems h(2) by (auto simp del: drop_drop)
  have "walk_permits mem n (pos + length h + 1 + length t + 1) \<noteq> Out_of_bounds"
    using Suc.prems h(2) t(2) by (intro Suc.IH) simp
  then show ?case using t(1) by (simp add: h(1) split: option.split permit_result.split)
qed simp

lemma count_terminators:
  "count_list (map (\<lambda>c. if c = CHR '':'' \<or> c = CHR '','' then NUL else c) cs) NUL \<ge> count_list cs (CHR '':'') + count_list cs (CHR '','')"
  by (induction cs) auto

text \<open>C33: parsing a \<open>permitopen\<close> list never reads outside its text. Whatever the text is - colons and commas in
  any number, empty entries, quotes - the check of its shape leaves at least as many terminators in memory as the walk
  over hosts and ports passes.\<close>

theorem permitopen_stays_in_bounds: "parse_permitopen mem_ok input \<noteq> Out_of_bounds"
proof (cases "check_shape 0 0 (trim_quotes input @ '','')")
  case True
  have "2 * count_list (trim_quotes input) (CHR '':'') \<le> count_list (drop 0 (split_memory input)) NUL"
    using shape_bounds_colons [OF True] count_terminators [of "trim_quotes input"] by (simp add: split_memory_def Let_def)
  then show ?thesis using walk_in_bounds by (simp add: parse_permitopen_def Let_def)
qed (simp add: parse_permitopen_def Let_def)

section \<open>Lists that are written down\<close>

definition port_text :: "u16 \<Rightarrow> string" where
  "port_text port = (if port = 0 then ''*'' else dec_nat (unat port))"

fun permits_text :: "(string \<times> u16) list \<Rightarrow> string" where
  "permits_text [] = []"
| "permits_text [(h, p)] = h @ '':'' @ port_text p"
| "permits_text ((h, p) # x # xs) = h @ '':'' @ port_text p @ '','' @ permits_text (x # xs)"

definition plain_host :: "string \<Rightarrow> bool" where
  "plain_host h \<longleftrightarrow> (\<forall>c \<in> set h. c \<noteq> CHR '':'' \<and> c \<noteq> CHR '','' \<and> c \<noteq> NUL \<and> \<not> is_quote c)"

lemma port_text_chars: "c \<in> set (port_text p) \<Longrightarrow> c \<noteq> CHR '':'' \<and> c \<noteq> CHR '','' \<and> c \<noteq> NUL \<and> \<not> is_quote c"
  using dec_nat_digits [of "unat p"] by (auto simp: port_text_def is_digit_def ch_def NUL_def is_quote_def split: if_splits)

lemma permit_port_text: "permit_port (port_text p) = Some p"
proof (cases "p = 0")
  case True
  then show ?thesis by (simp add: permit_port_def port_text_def starts_with_def)
next
  case False
  have "\<not> starts_with ''*'' (dec_nat (unat p))" using dec_nat_digits [of "unat p"]
    by (auto simp: starts_with_iff is_digit_def ch_def)
  moreover have u: "1 \<le> uint p" "uint p \<le> 65535"
    using False uint_ge_0 [of p] uint_0_iff [of p] uint_bounded [of p] by (linarith, simp)
  moreover have "saturate_long (int (unat p)) = uint p" using u by (simp add: saturate_long_def LONG_MAX_def)
  ultimately show ?thesis using False
    by (simp add: permit_port_def port_text_def strtol10_dec_nat)
qed

definition entry_text :: "string \<times> u16 \<Rightarrow> string" where
  "entry_text x = fst x @ '':'' @ port_text (snd x)"

lemma permits_text_Cons: "permits_text (x # xs) = (if xs = [] then entry_text x else entry_text x @ '','' @ permits_text xs)"
  by (cases x; cases xs) (auto simp: entry_text_def)

lemma entry_chars: "plain_host (fst x) \<Longrightarrow> c \<in> set (entry_text x) \<Longrightarrow> c \<noteq> CHR '','' \<and> c \<noteq> NUL \<and> \<not> is_quote c"
  using port_text_chars [of c "snd x"] by (auto simp: entry_text_def plain_host_def NUL_def is_quote_def)

lemma permits_no_quote: "\<forall>x \<in> set ps. plain_host (fst x) \<Longrightarrow> c \<in> set (permits_text ps) \<Longrightarrow> \<not> is_quote c"
proof (induction ps)
  case (Cons x xs)
  have "\<not> is_quote (CHR '','')" by (simp add: is_quote_def)
  with Cons entry_chars [of x c] show ?case by (auto simp: permits_text_Cons split: if_splits)
qed simp

lemma entry_colons: "plain_host (fst x) \<Longrightarrow> count_list (entry_text x) (CHR '':'') = 1"
  using port_text_chars [of "CHR '':''" "snd x"] by (auto simp: entry_text_def plain_host_def intro: count_notin)

lemma permits_colons: "\<forall>x \<in> set ps. plain_host (fst x) \<Longrightarrow> count_list (permits_text ps) (CHR '':'') = length ps"
  by (induction ps) (auto simp: permits_text_Cons entry_colons)

lemma shape_entry:
  "CHR '','' \<notin> set e \<Longrightarrow> check_shape k l (e @ cs) = check_shape (k + count_list e (CHR '':'')) (l + length e) cs"
  by (induction e arbitrary: k l) auto

lemma permits_shape: "\<forall>x \<in> set ps. plain_host (fst x) \<Longrightarrow> check_shape 0 0 (permits_text ps @ '','')"
proof (induction ps)
  case (Cons x xs)
  have e: "CHR '','' \<notin> set (entry_text x)" "count_list (entry_text x) (CHR '':'') = 1"
    using Cons.prems entry_chars [of x "CHR '',''"] entry_colons [of x] by auto
  then show ?case using Cons by (auto simp: permits_text_Cons shape_entry)
qed simp

abbreviation cut :: "char \<Rightarrow> char" where
  "cut c \<equiv> (if c = CHR '':'' \<or> c = CHR '','' then NUL else c)"

definition entry_memory :: "string \<times> u16 \<Rightarrow> string" where
  "entry_memory x = fst x @ NUL # port_text (snd x) @ [NUL]"

lemma cut_plain: "(\<And>c. c \<in> set s \<Longrightarrow> c \<noteq> CHR '':'' \<and> c \<noteq> CHR '','') \<Longrightarrow> map cut s = s"
  by (induction s) auto

lemma cut_entry: "plain_host (fst x) \<Longrightarrow> map cut (entry_text x) @ [NUL] = entry_memory x"
proof -
  assume "plain_host (fst x)"
  then have "map cut (fst x) = fst x" "map cut (port_text (snd x)) = port_text (snd x)"
    using port_text_chars [of _ "snd x"] by (intro cut_plain; auto simp: plain_host_def)+
  then show ?thesis by (simp add: entry_text_def entry_memory_def)
qed

lemma cut_permits: "\<forall>x \<in> set ps. plain_host (fst x) \<Longrightarrow> ps \<noteq> [] \<Longrightarrow> map cut (permits_text ps) @ [NUL] = concat (map entry_memory ps)"
proof (induction ps)
  case (Cons x xs)
  have e: "map cut (entry_text x) @ [NUL] = entry_memory x" using Cons.prems by (intro cut_entry) simp
  show ?case
  proof (cases "xs = []")
    case True
    then show ?thesis using e by (simp add: permits_text_Cons)
  next
    case False
    have "map cut (permits_text (x # xs)) @ [NUL] = (map cut (entry_text x) @ [NUL]) @ (map cut (permits_text xs) @ [NUL])"
      using False by (simp add: permits_text_Cons)
    then show ?thesis using e Cons False by simp
  qed
qed simp

lemma cstr_at_token: "drop pos mem = t @ NUL # r \<Longrightarrow> NUL \<notin> set t \<Longrightarrow> cstr_at mem pos = Some t \<and> drop (pos + length t + 1) mem = r"
proof -
  assume d: "drop pos mem = t @ NUL # r" "NUL \<notin> set t"
  have "takeWhile (\<lambda>c. c \<noteq> NUL) (drop pos mem) = t" using d by (subst d(1), subst takeWhile_append2) auto
  moreover have "drop (pos + length t + 1) mem = r" using arg_cong [OF d(1), of "drop (length t + 1)"] by (simp add: add_ac)
  ultimately show ?thesis using d(1) by (simp add: cstr_at_def)
qed

lemma walk_entries:
  "\<forall>x \<in> set ps. plain_host (fst x) \<Longrightarrow> drop pos mem = concat (map entry_memory ps) @ r \<Longrightarrow> walk_permits mem (length ps) pos = Permits ps"
proof (induction ps arbitrary: pos)
  case (Cons x xs)
  let ?h = "fst x" let ?t = "port_text (snd x)"
  have nul: "NUL \<notin> set ?h" using Cons.prems(1) by (auto simp: plain_host_def)
  have h: "cstr_at mem pos = Some ?h \<and> drop (pos + length ?h + 1) mem = ?t @ NUL # concat (map entry_memory xs) @ r"
    using Cons.prems(2) nul by (intro cstr_at_token) (simp_all add: entry_memory_def [of x])
  have "cstr_at mem (pos + length ?h + 1) = Some ?t \<and> drop (pos + length ?h + 1 + length ?t + 1) mem = concat (map entry_memory xs) @ r"
    using port_text_chars [of NUL "snd x"] by (intro cstr_at_token [OF conjunct2 [OF h]]) blast
  moreover from this have "walk_permits mem (length xs) (pos + length ?h + 1 + length ?t + 1) = Permits xs"
    using Cons.prems by (intro Cons.IH) auto
  ultimately show ?case using h by (simp add: permit_port_text)
qed simp

lemma trim_inner:
  assumes "list_all is_quote q" "list_all is_quote q'" "\<forall>c \<in> set s. \<not> is_quote c" "s \<noteq> []"
  shows "trim_quotes (q @ s @ q') = s" "dropWhile is_quote (q @ s @ q') = s @ q'"
proof -
  have d: "dropWhile is_quote (a @ s' @ b) = s' @ b" if "list_all is_quote a" "\<forall>c \<in> set s'. \<not> is_quote c" "s' \<noteq> []" for a s' b
    using that by (cases s') (auto simp: list_all_iff dropWhile_append2)
  show "dropWhile is_quote (q @ s @ q') = s @ q'" by (rule d [OF assms(1,3,4)])
  then show "trim_quotes (q @ s @ q') = s" using d [of "rev q'" "rev s" "[]"] assms by (simp add: trim_quotes_def list_all_iff)
qed

text \<open>C34: a list that was written down is read back. For hosts without colons, commas and quotes, the text
  \<open>host:port,host:port,...\<close>, bare or in quotes of any kind, parses to exactly these hosts and ports, with \<open>*\<close> for the
  port that is 0.\<close>

theorem permitopen_roundtrip:
  assumes "ps \<noteq> []" "\<forall>(h, p) \<in> set ps. \<forall>c \<in> set h. c \<notin> {CHR '':'', CHR '','', CHR 0x22, CHR 0x27, CHR 0x00}"
    "set q \<subseteq> {CHR 0x22, CHR 0x27}" "set q' \<subseteq> {CHR 0x22, CHR 0x27}"
  shows "parse_permitopen True (q @ permits_text ps @ q') = Permits ps"
proof -
  have "plain_host (fst x)" if "x \<in> set ps" for x
    using bspec [OF assms(2) that] by (cases x) (simp add: plain_host_def is_quote_def NUL_def)
  then have plain: "\<forall>x \<in> set ps. plain_host (fst x)" by blast
  have quotes: "list_all is_quote q" "list_all is_quote q'" using assms(3,4) by (auto simp: list_all_iff is_quote_def)
  have ne: "permits_text ps \<noteq> []" using assms(1) by (cases ps) (auto simp: permits_text_Cons entry_text_def)
  have bare: "\<forall>c \<in> set (permits_text ps). \<not> is_quote c" using permits_no_quote [OF plain] by blast
  have trim: "trim_quotes (q @ permits_text ps @ q') = permits_text ps" by (rule trim_inner(1) [OF quotes bare ne])
  let ?r = "drop (length (permits_text ps) + 1) (dropWhile is_quote (q @ permits_text ps @ q') @ [NUL])"
  have "split_memory (q @ permits_text ps @ q') = (map cut (permits_text ps) @ [NUL]) @ ?r"
    by (simp only: split_memory_def trim Let_def append.assoc append_Cons append_Nil)
  then have "split_memory (q @ permits_text ps @ q') = concat (map entry_memory ps) @ ?r"
    by (simp only: cut_permits [OF plain assms(1)])
  then have "walk_permits (split_memory (q @ permits_text ps @ q')) (length ps) 0 = Permits ps"
    by (intro walk_entries [OF plain, where r = ?r]) (simp only: drop_0)
  then show ?thesis using permits_shape [OF plain] permits_colons [OF plain] assms(1)
    by (simp add: parse_permitopen_def trim)
qed

lemma permitopen_roundtrip_witness:
  "parse_permitopen True (CHR 0x22 # permits_text [(''localhost'', 22), (''*'', 0)] @ [CHR 0x22]) = Permits [(''localhost'', 22), (''*'', 0)] \<and>
   permits_text [(''localhost'', 22), (''*'', 0)] = ''localhost:22,*:*''"
proof -
  have "permits_text [(''localhost'', 22), (''*'', 0)] = ''localhost:22,*:*''" by code_simp
  then show ?thesis using permitopen_roundtrip [of "[(''localhost'', 22), (''*'', 0)]" "[CHR 0x22]" "[CHR 0x22]"] by simp
qed

text \<open>An empty entry is let through by the check but not by the walk, which takes it for a host: the entry after it
  is then read from the middle.\<close>

lemma empty_entry_misread: "parse_permitopen True '',80:443'' = Permits [([], 80)]"
  by code_simp

end
