(* ===== verification/C_Srv_Control.thy ===== *)
theory C_Srv_Control
  imports Platform
begin

text \<open>
  \<open>srv.c\<close> of the C relay, the process that bridges a local service and the rendezvous server on a host with an
  operating system: the environment and the state of the process, the ciphers of a connection, and the control channel of
  a process that serves many sessions. Each session is a thread of its own (\<open>C_Srv_Session\<close>); what the control loop
  sees of the threads is the counter under the mutex, and at every look at it some of them may have ended.
\<close>

section \<open>The environment\<close>

text \<open>\<open>mbedtls_net_recv(_timeout)\<close>: bytes, the end of the stream (0), a timeout or another error code.\<close>

datatype net_recv = Received bytes | Recv_closed | Recv_timeout | Recv_error int

text \<open>Which of the three threads of a session runs next.\<close>

datatype sched = Run_main | Run_a | Run_b

text \<open>\<open>mbedtls_net_send\<close>: how many bytes it took, interrupted (\<open>MBEDTLS_ERR_SSL_WANT_WRITE\<close>), or another error code.\<close>

datatype net_send = Net_sent nat | Net_want_write | Net_error int

record ('w, 'k) srv_env =
  sv_time :: "'w \<Rightarrow> int \<times> 'w"
  sv_connect :: "string \<Rightarrow> u16 \<Rightarrow> 'w \<Rightarrow> (int + int) \<times> 'w"   \<comment> \<open>an error code, or the socket\<close>
  sv_recv_timeout :: "int \<Rightarrow> nat \<Rightarrow> nat \<Rightarrow> 'w \<Rightarrow> net_recv \<times> 'w" \<comment> \<open>socket, size, milliseconds\<close>
  sv_recv :: "int \<Rightarrow> nat \<Rightarrow> 'w \<Rightarrow> net_recv \<times> 'w"
  sv_send :: "int \<Rightarrow> bytes \<Rightarrow> 'w \<Rightarrow> net_send \<times> 'w"
  sv_close :: "int \<Rightarrow> 'w \<Rightarrow> 'w"
  sv_alloc :: "nat \<Rightarrow> 'w \<Rightarrow> bool \<times> 'w"
  sv_pipe :: "'w \<Rightarrow> int \<times> 'w"
  sv_pipe_fails :: "'w \<Rightarrow> bool \<times> 'w"                  \<comment> \<open>reading a thread id from the pipe is interrupted\<close>
  sv_sched :: "'w \<Rightarrow> sched \<times> 'w"
  sv_thread_create :: "'w \<Rightarrow> int \<times> 'w"
  sv_ended :: "'w \<Rightarrow> nat \<times> 'w"                         \<comment> \<open>session threads that ended since the last look\<close>
  sv_iv_generate :: "'w \<Rightarrow> bytes option \<times> 'w"
  sv_crypt :: "'k ctr \<Rightarrow> bytes \<Rightarrow> int + ('k ctr \<times> bytes)" \<comment> \<open>\<open>mbedtls_aes_crypt_ctr\<close>\<close>
  sv_mb :: "'k mbedtls"
  sv_ops :: atchops
  sv_fuel :: nat

section \<open>Parameters and state\<close>

definition SRV_DEFAULT_TIMEOUT_SECONDS :: int where "SRV_DEFAULT_TIMEOUT_SECONDS = 30"
definition SRV_CONTROL_POLL_MS :: nat where "SRV_CONTROL_POLL_MS = 1000"
definition SRV_CONTROL_LINE_CAP :: nat where "SRV_CONTROL_LINE_CAP = 8192"
definition SRV_MAX_SESSIONS :: nat where "SRV_MAX_SESSIONS = 128"

record srv_params =
  sp_host :: "string option"
  sp_port :: u16
  sp_local_port :: u16
  sp_local_host :: string
  sp_bind_local_port :: bool
  sp_rv_auth :: bool
  sp_rv_e2ee :: bool
  sp_multi :: bool
  sp_timeout :: int
  sp_rvd_auth_string :: "string option"
  sp_escr_auth :: bool
  sp_escr_is_side_a :: bool
  sp_escr_session_id :: "string option"
  sp_escr_aes_key_base64 :: "string option"
  sp_escr_signing_key_uri :: "string option"
  sp_escr_signing_key :: "rsa_key option"
  sp_aes_key_c2d :: "string option"
  sp_aes_iv_c2d :: "string option"
  sp_aes_key_d2c :: "string option"
  sp_aes_iv_d2c :: "string option"
  sp_ready_fd :: int

text \<open>The ciphers of a session: to encrypt what goes to the relay, to decrypt what comes from it.\<close>

type_synonym 'k ciphers = "('k ctr \<times> 'k ctr) option"

datatype 'k srv_event =
    Sv_connected int
  | Sv_closed int
  | Sv_sent int bytes                 \<comment> \<open>bytes a send accepted\<close>
  | Sv_received int bytes
  | Sv_reported                        \<comment> \<open>the line on stderr that says that the relay was reached\<close>
  | Sv_ready int                       \<comment> \<open>the same line on the descriptor the parent waits on\<close>
  | Sv_session nat "'k ciphers"        \<comment> \<open>a session thread, with the number of sessions including it\<close>
  | Sv_session_ended                   \<comment> \<open>a session thread has come to its end\<close>

record ('w, 'k) srv_state =
  sm_world :: 'w
  sm_trace :: "'k srv_event list"
  sm_diverged :: bool
  sm_active :: nat
  sm_idle_since :: int
  sm_reported :: bool
  sm_line :: bytes
  sm_decrypter :: "'k ctr option"

type_synonym ('w, 'k, 'a) sprog = "(('w, 'k) srv_state, 'a) state"

definition sx :: "('w \<Rightarrow> 'r \<times> 'w) \<Rightarrow> ('w, 'k, 'r) sprog" where
  "sx f = State (\<lambda>s. case f (sm_world s) of (r, w) \<Rightarrow> (r, s\<lparr>sm_world := w\<rparr>))"

definition sv_emit :: "'k srv_event \<Rightarrow> ('w, 'k, unit) sprog" where
  "sv_emit e = modify_st (sm_trace_update (\<lambda>t. t @ [e]))"

definition sv_diverge :: "('w, 'k, unit) sprog" where
  "sv_diverge = modify_st (sm_diverged_update (\<lambda>_. True))"

lemma sprog_simps [simp]:
  "res (sx f) s = fst (f (sm_world s))"
  "post (sx f) s = s\<lparr>sm_world := snd (f (sm_world s))\<rparr>"
  "post (sv_emit e) s = s\<lparr>sm_trace := sm_trace s @ [e]\<rparr>"
  "post sv_diverge s = s\<lparr>sm_diverged := True\<rparr>"
  by (simp_all add: sx_def sv_emit_def sv_diverge_def res_def post_def case_prod_beta)

section \<open>Ciphers\<close>

definition AES_256_KEY_BYTES :: nat where "AES_256_KEY_BYTES = 32"
definition AES_BLOCK_LEN :: nat where "AES_BLOCK_LEN = 16"

definition create_transformer :: "('w, 'k) srv_env \<Rightarrow> string \<Rightarrow> string \<Rightarrow> 'k ctr option" where
  "create_transformer E aes_key_base64 aes_iv_base64 =
     (case base64_decode (sv_ops E) aes_key_base64 AES_256_KEY_BYTES of
        None \<Rightarrow> None
      | Some aes_key \<Rightarrow>
          if length aes_key \<noteq> AES_256_KEY_BYTES then None
          else case mb_setkey_enc (sv_mb E) aes_key of
              None \<Rightarrow> None
            | Some ctx \<Rightarrow>
                (case base64_decode (sv_ops E) aes_iv_base64 AES_BLOCK_LEN of
                   None \<Rightarrow> None
                 | Some iv \<Rightarrow>
                     if length iv \<noteq> AES_BLOCK_LEN then None
                     else Some \<lparr>ctr_ctx = ctx, ctr_nonce_counter = iv, ctr_stream_block = replicate AES_BLOCK_LEN 0,
                       ctr_nc_off = 0\<rparr>))"

text \<open>Encrypter and decrypter, in this order. Without the twinned key the client's key serves both ways.\<close>

definition create_encrypter_and_decrypter ::
  "('w, 'k) srv_env \<Rightarrow> string \<Rightarrow> string \<Rightarrow> string option \<Rightarrow> string option \<Rightarrow> ('k ctr \<times> 'k ctr) option" where
  "create_encrypter_and_decrypter E key_c2d iv_c2d key_d2c iv_d2c =
     (case create_transformer E key_c2d iv_c2d of
        None \<Rightarrow> None
      | Some decrypter \<Rightarrow>
          (case (case (key_d2c, iv_d2c) of
                   (Some k, Some iv) \<Rightarrow> create_transformer E k iv
                 | _ \<Rightarrow> create_transformer E key_c2d iv_c2d) of
             None \<Rightarrow> None
           | Some encrypter \<Rightarrow> Some (encrypter, decrypter)))"

section \<open>Control messages\<close>

text \<open>\<open>strtok_r\<close> with one delimiter: the token, and what \<open>saveptr\<close> points to afterwards.\<close>

definition strtok :: "char \<Rightarrow> string \<Rightarrow> (string \<times> string) option" where
  "strtok d s =
     (let t = dropWhile ((=) d) s
      in if t = [] then None else Some (takeWhile ((\<noteq>) d) t, drop 1 (dropWhile ((\<noteq>) d) t)))"

lemma strtok_shorter: "strtok d s = Some (t, r) \<Longrightarrow> length r < length s"
proof -
  assume "strtok d s = Some (t, r)"
  then have "dropWhile ((=) d) s \<noteq> []" "r = drop 1 (dropWhile ((\<noteq>) d) (dropWhile ((=) d) s))"
    by (auto simp: strtok_def Let_def split: if_splits)
  moreover have "length (dropWhile ((\<noteq>) d) (dropWhile ((=) d) s)) \<le> length s"
    using length_dropWhile_le le_trans by blast
  ultimately show ?thesis using length_dropWhile_le [of "(=) d" s]
    by (cases "dropWhile ((\<noteq>) d) (dropWhile ((=) d) s)") auto
qed

text \<open>The requests in a text: its lines that are not empty.\<close>

function requests_of :: "string \<Rightarrow> string list" where
  "requests_of s = (case strtok (CHR 0x0A) s of None \<Rightarrow> [] | Some (t, r) \<Rightarrow> t # requests_of r)"
  by pat_completeness auto
termination by (relation "measure length") (auto dest: strtok_shorter)

declare requests_of.simps [simp del]

fun alloc_each :: "('w, 'k) srv_env \<Rightarrow> nat \<Rightarrow> ('w, 'k, bool) sprog" where
  "alloc_each E 0 = ret True"
| "alloc_each E (Suc n) = do { ok \<leftarrow> sx (sv_alloc E 1); if ok then alloc_each E n else ret False }"

text \<open>The array of requests grows by one at a time.\<close>

definition process_multiple_requests :: "('w, 'k) srv_env \<Rightarrow> string \<Rightarrow> ('w, 'k, string list option) sprog" where
  "process_multiple_requests E original = do {
     ok \<leftarrow> alloc_each E (length (requests_of original));
     ret (if ok then Some (requests_of original) else None) }"

definition trim_message :: "string \<Rightarrow> string" where
  "trim_message s =
     (let blank = (\<lambda>c. c = CHR '' '' \<or> c = CHR 0x0A) in rev (dropWhile blank (rev (dropWhile blank s))))"

record control_message =
  cm_type :: string
  cm_key_c2d :: string
  cm_iv_c2d :: string
  cm_twin :: "(string \<times> string) option"

definition parse_control_message :: "string \<Rightarrow> control_message option" where
  "parse_control_message original =
     (if trim_message original = [] then None
      else case strtok CHR '':'' (trim_message original) of
          None \<Rightarrow> None
        | Some (ty, r1) \<Rightarrow>
            (case strtok CHR '':'' r1 of
               None \<Rightarrow> None
             | Some (key, r2) \<Rightarrow>
                 (case strtok CHR '':'' r2 of
                    None \<Rightarrow> None
                  | Some (iv, r3) \<Rightarrow>
                      (case strtok CHR '':'' r3 of
                         None \<Rightarrow> Some \<lparr>cm_type = ty, cm_key_c2d = key, cm_iv_c2d = iv, cm_twin = None\<rparr>
                       | Some (key2, r4) \<Rightarrow>
                           (case strtok CHR '':'' r4 of
                              None \<Rightarrow> None
                            | Some (iv2, r5) \<Rightarrow>
                                Some \<lparr>cm_type = ty, cm_key_c2d = key, cm_iv_c2d = iv, cm_twin = Some (key2, iv2)\<rparr>)))))"

section \<open>Counting sessions\<close>

definition session_started :: "('w, 'k, unit) sprog" where
  "session_started = modify_st (sm_active_update (\<lambda>n. n + 1))"

definition session_ended :: "('w, 'k) srv_env \<Rightarrow> ('w, 'k, unit) sprog" where
  "session_ended E = do {
     modify_st (sm_active_update (\<lambda>n. n - 1));
     n \<leftarrow> gets sm_active;
     when_st (n = 0) (do { now \<leftarrow> sx (sv_time E); modify_st (sm_idle_since_update (\<lambda>_. now)) }) }"

text \<open>The session threads that were created, and those that came to their end.\<close>

definition sessions_begun :: "'k srv_event list \<Rightarrow> nat" where
  "sessions_begun tr = length (filter (\<lambda>e. case e of Sv_session n c \<Rightarrow> True | _ \<Rightarrow> False) tr)"

definition sessions_over :: "'k srv_event list \<Rightarrow> nat" where
  "sessions_over tr = length (filter (\<lambda>e. e = Sv_session_ended) tr)"

text \<open>What the session threads did since the control loop last held the mutex: some of those that exist end, and
  \<open>session_ended\<close> is the last thing each does.\<close>

definition thread_ends :: "('w, 'k) srv_env \<Rightarrow> ('w, 'k, unit) sprog" where
  "thread_ends E = do { sv_emit Sv_session_ended; session_ended E }"

definition threads_ended :: "('w, 'k) srv_env \<Rightarrow> ('w, 'k, unit) sprog" where
  "threads_ended E = do {
     k \<leftarrow> sx (sv_ended E);
     n \<leftarrow> gets (\<lambda>s. sessions_begun (sm_trace s) - sessions_over (sm_trace s));
     for_each [0..<min k n] (\<lambda>_. thread_ends E) }"

definition connection_timeout_expired :: "('w, 'k) srv_env \<Rightarrow> int \<Rightarrow> ('w, 'k, bool) sprog" where
  "connection_timeout_expired E timeout_seconds = do {
     threads_ended E;
     s \<leftarrow> get_st;
     if sm_active s = 0 then do { now \<leftarrow> sx (sv_time E); ret (now - sm_idle_since s \<ge> timeout_seconds) }
     else ret False }"

section \<open>Requests\<close>

text \<open>The ciphers a connect message asks for; \<open>None\<close> when they cannot be made.\<close>

definition session_ciphers :: "('w, 'k) srv_env \<Rightarrow> control_message \<Rightarrow> 'k ciphers option" where
  "session_ciphers E m =
     (if cm_key_c2d m = ''no'' \<and> cm_iv_c2d m = ''encrypt'' then Some None
      else map_option Some (create_encrypter_and_decrypter E (cm_key_c2d m) (cm_iv_c2d m)
        (map_option fst (cm_twin m)) (map_option snd (cm_twin m))))"

text \<open>The result is the code the process leaves with, if it does.\<close>

definition open_sts :: "('w, 'k) srv_env \<Rightarrow> 'k ciphers \<Rightarrow> ('w, 'k, int option) sprog" where
  "open_sts E ciphers = do {
     ok \<leftarrow> sx (sv_alloc E 1);
     if \<not> ok then ret (Some 0)
     else do {
       session_started;
       r \<leftarrow> sx (sv_thread_create E);
       if r \<noteq> 0 then do { session_ended E; ret (Some r) }
       else do {
         n \<leftarrow> gets sm_active;
         sv_emit (Sv_session n ciphers);
         ret None } } }"

definition serve_request :: "('w, 'k) srv_env \<Rightarrow> string \<Rightarrow> ('w, 'k, int option) sprog" where
  "serve_request E request =
     (case parse_control_message request of
        None \<Rightarrow> ret None
      | Some m \<Rightarrow>
          if cm_type m \<noteq> ''connect'' then ret None
          else do {
            threads_ended E;
            n \<leftarrow> gets sm_active;
            if n \<ge> SRV_MAX_SESSIONS then ret None
            else do {
              let no_encrypt = (cm_key_c2d m = ''no'' \<and> cm_iv_c2d m = ''encrypt'');
              ok1 \<leftarrow> (if no_encrypt then ret True else sx (sv_alloc E 1));
              ok2 \<leftarrow> (if no_encrypt then ret True else sx (sv_alloc E 1));
              if \<not> ok1 \<or> \<not> ok2 then ret (Some 0)
              else case session_ciphers E m of
                  None \<Rightarrow> ret None
                | Some ciphers \<Rightarrow> open_sts E ciphers } })"

fun serve_requests :: "('w, 'k) srv_env \<Rightarrow> string list \<Rightarrow> ('w, 'k, int option) sprog" where
  "serve_requests E [] = ret None"
| "serve_requests E (r # rs) = do {
     leave \<leftarrow> serve_request E r;
     case leave of Some code \<Rightarrow> ret (Some code) | None \<Rightarrow> serve_requests E rs }"

section \<open>Lines\<close>

text \<open>The bytes up to and with the last newline, when there is one.\<close>

definition complete_len :: "bytes \<Rightarrow> nat" where
  "complete_len bs = length (dropWhile ((\<noteq>) 10) (rev bs))"

text \<open>What the accumulator keeps, and the complete lines it hands out.\<close>

definition line_push :: "bytes \<Rightarrow> bytes \<Rightarrow> bytes \<times> bytes option" where
  "line_push line chunk =
     (let line1 = (if length line + length chunk > SRV_CONTROL_LINE_CAP then [] else line)
      in if length chunk > SRV_CONTROL_LINE_CAP then (line1, None)
         else let bs = line1 @ chunk; n = complete_len bs
              in if n = 0 then (bs, None) else (drop n bs, Some (take n bs)))"

text \<open>A chunk of the control channel, decrypted when it is encrypted. A failure is the code the process leaves with:
  the number of bytes read, when there is no memory.\<close>

definition decrypt_chunk :: "('w, 'k) srv_env \<Rightarrow> bytes \<Rightarrow> ('w, 'k, int + bytes) sprog" where
  "decrypt_chunk E bs = do {
     d \<leftarrow> gets sm_decrypter;
     case d of
       None \<Rightarrow> ret (Inr bs)
     | Some t \<Rightarrow> do {
         ok \<leftarrow> sx (sv_alloc E 4096);
         if \<not> ok then ret (Inl (int (length bs)))
         else case sv_crypt E t bs of
             Inl code \<Rightarrow> ret (Inl code)
           | Inr (t', out) \<Rightarrow> do { modify_st (sm_decrypter_update (\<lambda>_. Some t')); ret (Inr out) } } }"

text \<open>One round of the control loop.\<close>

definition control_round :: "('w, 'k) srv_env \<Rightarrow> int \<Rightarrow> int \<Rightarrow> ('w, 'k, int option) sprog" where
  "control_round E fd timeout_seconds = do {
     expired \<leftarrow> connection_timeout_expired E timeout_seconds;
     if expired then ret (Some 0)
     else do {
       r \<leftarrow> sx (sv_recv_timeout E fd 4095 SRV_CONTROL_POLL_MS);
       case r of
         Recv_timeout \<Rightarrow> ret None
       | Recv_closed \<Rightarrow> ret (Some 0)
       | Recv_error code \<Rightarrow> ret (Some code)
       | Received raw \<Rightarrow> do {
           sv_emit (Sv_received fd raw);
           d \<leftarrow> decrypt_chunk E raw;
           case d of
             Inl code \<Rightarrow> ret (Some code)
           | Inr chunk \<Rightarrow> do {
               line \<leftarrow> gets sm_line;
               modify_st (sm_line_update (\<lambda>_. fst (line_push line chunk)));
               case snd (line_push line chunk) of
                 None \<Rightarrow> ret None
               | Some work \<Rightarrow> do {
                   requests \<leftarrow> process_multiple_requests E (c_string work);
                   case requests of
                     None \<Rightarrow> ret (Some (-1))
                   | Some rs \<Rightarrow> serve_requests E rs } } } } }"

fun control_loop :: "nat \<Rightarrow> ('w, 'k) srv_env \<Rightarrow> int \<Rightarrow> int \<Rightarrow> ('w, 'k, int) sprog" where
  "control_loop 0 E fd timeout_seconds = do { sv_diverge; ret 0 }"
| "control_loop (Suc fuel) E fd timeout_seconds = do {
     leave \<leftarrow> control_round E fd timeout_seconds;
     case leave of Some code \<Rightarrow> ret code | None \<Rightarrow> control_loop fuel E fd timeout_seconds }"

section \<open>The number of sessions\<close>

lemma session_count_simps [simp]:
  "sessions_begun [] = 0" "sessions_begun (a @ b) = sessions_begun a + sessions_begun b"
  "sessions_begun [Sv_session n c] = 1" "sessions_begun [Sv_session_ended] = 0" "sessions_begun [Sv_received fd bs] = 0"
  "sessions_over [] = 0" "sessions_over (a @ b) = sessions_over a + sessions_over b"
  "sessions_over [Sv_session n c] = 0" "sessions_over [Sv_session_ended] = 1" "sessions_over [Sv_received fd bs] = 0"
  by (simp_all add: sessions_begun_def sessions_over_def)

text \<open>At no time are there more sessions than the cap.\<close>

definition capped :: "'k srv_event list \<Rightarrow> bool" where
  "capped tr \<longleftrightarrow> (\<forall>k. sessions_begun (take k tr) \<le> sessions_over (take k tr) + SRV_MAX_SESSIONS)"

lemma capped_snoc: "capped (tr @ [e]) \<longleftrightarrow>
    capped tr \<and> sessions_begun (tr @ [e]) \<le> sessions_over (tr @ [e]) + SRV_MAX_SESSIONS"
proof
  assume c: "capped (tr @ [e])"
  have "sessions_begun (take k tr) \<le> sessions_over (take k tr) + SRV_MAX_SESSIONS" for k
    using c [unfolded capped_def, rule_format, of "min k (length tr)"] by (simp add: min_def split: if_splits)
  then show "capped tr \<and> sessions_begun (tr @ [e]) \<le> sessions_over (tr @ [e]) + SRV_MAX_SESSIONS"
    using c [unfolded capped_def, rule_format, of "Suc (length tr)"] by (simp add: capped_def)
next
  assume c: "capped tr \<and> sessions_begun (tr @ [e]) \<le> sessions_over (tr @ [e]) + SRV_MAX_SESSIONS"
  then show "capped (tr @ [e])" unfolding capped_def by (auto simp: take_Cons' simp del: session_count_simps)
qed

text \<open>The counter counts the sessions there are.\<close>

definition within_cap :: "('w, 'k) srv_state \<Rightarrow> bool" where
  "within_cap s \<longleftrightarrow> sm_active s + sessions_over (sm_trace s) = sessions_begun (sm_trace s) \<and>
     sm_active s \<le> SRV_MAX_SESSIONS \<and> capped (sm_trace s)"

lemma cap_prims [io_intro]:
  "state_io_rel (keeps within_cap) (sx f)" "state_io_rel (keeps within_cap) sv_diverge"
  "state_io_rel (keeps within_cap) (sv_emit (Sv_received fd bs))"
  "state_io_rel (keeps within_cap) (modify_st (sm_line_update g))" "state_io_rel (keeps within_cap) (modify_st (sm_decrypter_update h))"
  by (auto simp: state_io_rel_post keeps_def within_cap_def capped_snoc)

lemma within_cap_ended:
  assumes "within_cap s" "sessions_over (sm_trace s) < sessions_begun (sm_trace s)"
  shows "within_cap (post (thread_ends E) s)"
  using assms by (auto simp: thread_ends_def session_ended_def within_cap_def capped_snoc)

lemma thread_ends_counts:
  "sessions_begun (sm_trace (post (thread_ends E) s)) = sessions_begun (sm_trace s)"
  "sessions_over (sm_trace (post (thread_ends E) s)) = sessions_over (sm_trace s) + 1"
  by (simp_all add: thread_ends_def session_ended_def)

lemma within_cap_all_ended:
  "within_cap s \<Longrightarrow> length xs + sessions_over (sm_trace s) \<le> sessions_begun (sm_trace s) \<Longrightarrow>
   within_cap (post (for_each xs (\<lambda>_. thread_ends E)) s)"
proof (induction xs arbitrary: s)
  case (Cons x xs)
  then show ?case by (simp add: within_cap_ended thread_ends_counts)
qed simp

lemma cap_threads_ended [io_intro]: "state_io_rel (keeps within_cap) (threads_ended E)"
proof (rule keepsI)
  fix s :: "('a, 'b) srv_state" assume s: "within_cap s"
  define t where "t = post (sx (sv_ended E)) s"
  have "within_cap t" unfolding t_def by (rule keepsD [OF cap_prims(1) s])
  moreover have "sessions_over (sm_trace t) \<le> sessions_begun (sm_trace t)" using calculation by (simp add: within_cap_def)
  ultimately show "within_cap (post (threads_ended E) s)"
    by (simp add: threads_ended_def t_def within_cap_all_ended)
qed

lemma cap_parts [io_intro]:
  "state_io_rel (keeps within_cap) (connection_timeout_expired E tmo)" "state_io_rel (keeps within_cap) (decrypt_chunk E bs)"
  unfolding connection_timeout_expired_def decrypt_chunk_def
  by (intro io_rule io_intro)+

lemma cap_alloc_each [io_intro]: "state_io_rel (keeps within_cap) (alloc_each E n)"
proof (induction n)
  case 0
  show ?case by (simp, intro io_rule)
next
  case (Suc n)
  then show ?case unfolding alloc_each.simps by (intro io_rule io_intro)
qed

lemma cap_open_sts: "within_cap s \<Longrightarrow> sm_active s < SRV_MAX_SESSIONS \<Longrightarrow> within_cap (post (open_sts E c) s)"
  by (auto simp: open_sts_def session_started_def session_ended_def within_cap_def capped_snoc)

lemma cap_serve_request [io_intro]:
  fixes E :: "('w, 'k) srv_env"
  shows "state_io_rel (keeps within_cap) (serve_request E r)"
proof (rule keepsI)
  fix s :: "('w, 'k) srv_state" assume s: "within_cap s"
  define t where "t = post (threads_ended E) s"
  have t: "within_cap t" unfolding t_def by (rule keepsD [OF cap_threads_ended s])
  have w: "within_cap (t\<lparr>sm_world := w\<rparr>)" for w using t by (simp add: within_cap_def)
  show "within_cap (post (serve_request E r) s)"
  proof (cases "parse_control_message r")
    case None
    then show ?thesis using s by (simp add: serve_request_def)
  next
    case (Some m)
    have open_w: "within_cap (post (open_sts E c) (t\<lparr>sm_world := w\<rparr>))" if "\<not> SRV_MAX_SESSIONS \<le> sm_active t" for c w
      using that by (intro cap_open_sts w) simp
    from open_w [of _ "sm_world t"] have open_t: "within_cap (post (open_sts E c) t)" if "\<not> SRV_MAX_SESSIONS \<le> sm_active t" for c
      using that by simp
    show ?thesis using s t w open_w open_t Some
      by (auto simp: serve_request_def t_def [symmetric] Let_def split: option.split)
  qed
qed

lemma cap_serve_requests [io_intro]: "state_io_rel (keeps within_cap) (serve_requests E rs)"
proof (induction rs)
  case Nil
  show ?case by (simp, intro io_rule)
next
  case (Cons r rs)
  then show ?case unfolding serve_requests.simps by (intro io_rule io_intro)
qed

lemma io_case_net_recv [io_rule]:
  "(\<And>bs. r = Received bs \<Longrightarrow> state_io_rel P (f bs)) \<Longrightarrow> (r = Recv_closed \<Longrightarrow> state_io_rel P a) \<Longrightarrow>
   (r = Recv_timeout \<Longrightarrow> state_io_rel P b) \<Longrightarrow> (\<And>c. r = Recv_error c \<Longrightarrow> state_io_rel P (g c)) \<Longrightarrow>
   state_io_rel P (case r of Received bs \<Rightarrow> f bs | Recv_closed \<Rightarrow> a | Recv_timeout \<Rightarrow> b | Recv_error c \<Rightarrow> g c)"
  by (cases r) auto

lemma cap_control_round [io_intro]: "state_io_rel (keeps within_cap) (control_round E fd tmo)"
  unfolding control_round_def process_multiple_requests_def by (intro io_rule io_intro)

lemma cap_control_loop [io_intro]: "state_io_rel (keeps within_cap) (control_loop fuel E fd tmo)"
proof (induction fuel)
  case 0
  show ?case by (simp, intro io_rule io_intro)
next
  case (Suc fuel)
  then show ?case unfolding control_loop.simps by (intro io_rule io_intro)
qed

text \<open>C38: a relay that floods the control channel cannot exhaust the process. However many connect messages arrive,
  in whatever chunks, and whenever session threads end: at every moment the session threads that were created are at most 128
  more than those that have ended; and the program's counter is the number of session threads there are.\<close>

theorem srv_sessions_bounded:
  assumes "sm_active s = 0" "sessions_begun (sm_trace s) = 0" "sessions_over (sm_trace s) = 0" "tr = sm_trace (post (control_loop fuel E fd tmo) s)"
  shows "sessions_begun (take k tr) \<le> sessions_over (take k tr) + 128 \<and>
    sm_active (post (control_loop fuel E fd tmo) s) + sessions_over tr = sessions_begun tr"
proof -
  have "sessions_begun (take j (sm_trace s)) = 0" for j
    using assms(2) session_count_simps(2) [of "take j (sm_trace s)" "drop j (sm_trace s)"] by simp
  then have "within_cap s" using assms(1-3) by (simp add: within_cap_def capped_def)
  then have "within_cap (post (control_loop fuel E fd tmo) s)" by (rule keepsD [OF cap_control_loop])
  then show ?thesis unfolding assms(4) by (simp add: within_cap_def capped_def SRV_MAX_SESSIONS_def)
qed

text \<open>A relay that sends two connect messages in one chunk, and nothing more; the first session ends before the
  second begins.\<close>

definition example_srv_env :: "(nat, bytes) srv_env" where
  "example_srv_env = \<lparr>sv_time = (\<lambda>w. (0, w)), sv_connect = (\<lambda>_ _ w. (Inr 3, w)),
     sv_recv_timeout = (\<lambda>_ _ _ w. (if w = 0 then Received (str_bytes (''connect:no:encrypt'' @ [CHR 0x0A] @ ''connect:no:encrypt'' @ [CHR 0x0A]))
       else Recv_closed, w + 1)),
     sv_recv = (\<lambda>_ _ w. (Recv_closed, w)), sv_send = (\<lambda>_ bs w. (Net_sent (length bs), w)), sv_close = (\<lambda>_ w. w),
     sv_alloc = (\<lambda>_ w. (True, w)), sv_pipe = (\<lambda>w. (0, w)), sv_pipe_fails = (\<lambda>w. (False, w)), sv_sched = (\<lambda>w. (Run_main, w)),
     sv_thread_create = (\<lambda>w. (0, w)), sv_ended = (\<lambda>w. (0, w)), sv_iv_generate = (\<lambda>w. (Some (replicate 16 0), w)),
     sv_crypt = (\<lambda>st bs. Inr (st, bs)),
     sv_mb = \<lparr>mb_base64_encode = (\<lambda>_ _. None), mb_base64_decode = (\<lambda>_ _. None), mb_init_ctx = [], mb_setkey_enc = Some,
       mb_crypt_ctr = (\<lambda>st bs. (st, bs))\<rparr>,
     sv_ops = \<lparr>rsa_populate_public = (\<lambda>_. None), rsa_populate_private = (\<lambda>_. None), rsa_verify = (\<lambda>_ _ _ _. False),
       rsa_sign = (\<lambda>_ _ _. None), base64_decode = (\<lambda>_ _. None), base64_encode = (\<lambda>_ _. None), sha256 = (\<lambda>_. None)\<rparr>,
     sv_fuel = 5\<rparr>"

definition srv_start :: "'w \<Rightarrow> ('w, 'k) srv_state" where
  "srv_start w = \<lparr>sm_world = w, sm_trace = [], sm_diverged = False, sm_active = 0, sm_idle_since = 0, sm_reported = False,
     sm_line = [], sm_decrypter = None\<rparr>"

definition example_ending_env :: "(nat, bytes) srv_env" where
  "example_ending_env = example_srv_env\<lparr>sv_ended := (\<lambda>w. (w, w))\<rparr>"

lemma srv_sessions_bounded_witness:
  "sm_trace (post (control_loop 3 example_ending_env 3 30) (srv_start 0)) =
     [Sv_received 3 (str_bytes (''connect:no:encrypt'' @ [CHR 0x0A] @ ''connect:no:encrypt'' @ [CHR 0x0A])), Sv_session 1 None,
      Sv_session_ended, Sv_session 1 None, Sv_session_ended] \<and>
   sm_active (post (control_loop 3 example_ending_env 3 30) (srv_start 0)) = 0"
proof -
  let ?t = "[Sv_received 3 (str_bytes (''connect:no:encrypt'' @ [CHR 0x0A] @ ''connect:no:encrypt'' @ [CHR 0x0A])), Sv_session 1 None,
      Sv_session_ended, Sv_session 1 None, Sv_session_ended] :: bytes srv_event list"
  have tr: "sm_trace (post (control_loop 3 example_ending_env 3 30) (srv_start 0)) = ?t" by code_simp
  have "sessions_over ?t = sessions_begun ?t" by (simp add: sessions_over_def sessions_begun_def)
  then show ?thesis
    using srv_sessions_bounded [of "srv_start 0" ?t 3 example_ending_env 3 30 0] tr by (simp add: srv_start_def)
qed

section \<open>Requests that are not served\<close>

definition connect_request :: "string \<Rightarrow> bool" where
  "connect_request r \<longleftrightarrow> (case parse_control_message r of None \<Rightarrow> False | Some m \<Rightarrow> cm_type m = ''connect'')"

text \<open>A malformed or unknown request is as if it had not been sent. It neither ends the process nor touches
  a session nor changes what the requests around it do: whatever a text of requests does, it does without them.\<close>

theorem bad_requests_ignored: "serve_requests E rs = serve_requests E (filter connect_request rs)"
proof (induction rs)
  case (Cons r rs)
  show ?case
  proof (cases "connect_request r")
    case False
    then have "serve_request E r = ret None"
      by (auto simp: serve_request_def connect_request_def split: option.splits)
    then show ?thesis using False Cons by simp
  qed (simp add: Cons)
qed simp

section \<open>Lines across chunks\<close>

fun feed_lines :: "bytes \<Rightarrow> bytes list \<Rightarrow> bytes \<times> bytes list" where
  "feed_lines line [] = (line, [])"
| "feed_lines line (c # cs) =
     (case line_push line c of (line', out) \<Rightarrow>
        (case feed_lines line' cs of (rest, works) \<Rightarrow> (rest, (case out of None \<Rightarrow> works | Some w \<Rightarrow> w # works))))"

definition with_newlines :: "bytes list \<Rightarrow> bytes" where
  "with_newlines ls = concat (map (\<lambda>l. l @ [10]) ls)"

lemma complete_len_split:
  "10 \<notin> set (drop (complete_len bs) bs)" "complete_len bs \<le> length bs"
  "complete_len bs = 0 \<or> take (complete_len bs) bs \<noteq> [] \<and> last (take (complete_len bs) bs) = 10"
proof -
  let ?t = "takeWhile ((\<noteq>) 10) (rev bs)" and ?d = "dropWhile ((\<noteq>) 10) (rev bs)"
  have bs: "bs = rev ?d @ rev ?t" by (metis rev_append rev_rev_ident takeWhile_dropWhile_id)
  have n: "complete_len bs = length (rev ?d)" by (simp add: complete_len_def)
  have tk: "take (complete_len bs) bs = rev ?d" "drop (complete_len bs) bs = rev ?t"
    using bs n by (metis append_eq_conv_conj)+
  show "10 \<notin> set (drop (complete_len bs) bs)" unfolding tk by (auto dest: set_takeWhileD)
  show "complete_len bs \<le> length bs" using n length_dropWhile_le [of "(\<noteq>) 10" "rev bs"] by simp
  show "complete_len bs = 0 \<or> take (complete_len bs) bs \<noteq> [] \<and> last (take (complete_len bs) bs) = 10"
  proof (cases "?d = []")
    case False
    then have "hd ?d = 10" using hd_dropWhile [of "(\<noteq>) 10" "rev bs"] by auto
    then show ?thesis using False by (simp add: tk last_rev)
  qed (simp add: n)
qed

lemma prefix_cut:
  assumes "w @ x = (l @ [a]) @ r" "length l < length w"
  shows "\<exists>w'. w = (l @ [a]) @ w' \<and> w' @ x = r"
proof -
  have "take (length (l @ [a])) w = l @ [a]" "drop (length (l @ [a])) w @ x = r"
    using arg_cong [OF assms(1), of "take (length (l @ [a]))"] arg_cong [OF assms(1), of "drop (length (l @ [a]))"] assms(2) by simp_all
  then show ?thesis by (metis append_take_drop_id)
qed

lemma split_lines:
  assumes "w @ x = with_newlines ls @ r" "w = [] \<or> last w = 10" "\<forall>l \<in> set ls. 10 \<notin> set l" "10 \<notin> set r"
  shows "\<exists>k. w = with_newlines (take k ls) \<and> x = with_newlines (drop k ls) @ r"
  using assms(1-3)
proof (induction ls arbitrary: w)
  case Nil
  have "10 \<in> set w" if "w \<noteq> []" using that Nil.prems(2) by (metis last_in_set)
  moreover have "10 \<notin> set w" using Nil.prems(1) assms(4) by (metis Un_iff append_Nil concat.simps(1) list.map(1) set_append with_newlines_def)
  ultimately show ?case using Nil.prems(1) by (auto simp: with_newlines_def)
next
  case (Cons l ls)
  show ?case
  proof (cases "w = []")
    case True
    then show ?thesis using Cons.prems(1) by (intro exI [of _ 0]) (simp add: with_newlines_def)
  next
    case False
    have e: "w @ x = (l @ [10]) @ (with_newlines ls @ r)" using Cons.prems(1) by (simp add: with_newlines_def)
    have "length l < length w"
    proof (rule ccontr)
      assume "\<not> length l < length w"
      then obtain u where "l = w @ u" using e by (auto simp: append_eq_append_conv2)
      then have "last w \<in> set l" using False by simp
      then show False using Cons.prems(2,3) False by auto
    qed
    then obtain w' where w': "w = (l @ [10]) @ w'" "w' @ x = with_newlines ls @ r"
      using prefix_cut [OF e] by blast
    have "w' = [] \<or> last w' = 10" using w'(1) Cons.prems(2) by (cases "w' = []") auto
    then obtain k where "w' = with_newlines (take k ls)" "x = with_newlines (drop k ls) @ r"
      using Cons.IH [OF w'(2)] Cons.prems(3) by auto
    then show ?thesis using w'(1) by (intro exI [of _ "Suc k"]) (simp add: with_newlines_def)
  qed
qed

lemma strtok_line:
  "d \<notin> set l \<Longrightarrow> l \<noteq> [] \<Longrightarrow> strtok d (l @ d # r) = Some (l, r)"
proof -
  assume l: "d \<notin> set l" "l \<noteq> []"
  then have "dropWhile ((=) d) (l @ d # r) = l @ d # r" by (cases l) auto
  moreover have "takeWhile ((\<noteq>) d) (l @ d # r) = l" "dropWhile ((\<noteq>) d) (l @ d # r) = d # r" using l
    by (subst takeWhile_append2, auto, subst dropWhile_append2, auto)
  ultimately show ?thesis by (simp add: strtok_def)
qed

lemma strtok_skip: "strtok d (d # s) = strtok d s"
  by (simp add: strtok_def)

definition text_lines :: "string list \<Rightarrow> string" where
  "text_lines ts = concat (map (\<lambda>t. t @ [CHR 0x0A]) ts)"

lemma requests_of_skip: "requests_of (CHR 0x0A # s) = requests_of s"
  by (subst (1 2) requests_of.simps) (simp add: strtok_skip)

lemma requests_of_lines: "\<forall>t \<in> set ts. CHR 0x0A \<notin> set t \<Longrightarrow> requests_of (text_lines ts) = filter (\<lambda>t. t \<noteq> []) ts"
proof (induction ts)
  case Nil
  show ?case by (subst requests_of.simps) (simp add: text_lines_def strtok_def)
next
  case (Cons t ts)
  have e: "text_lines (t # ts) = t @ CHR 0x0A # text_lines ts" by (simp add: text_lines_def)
  show ?case
  proof (cases "t = []")
    case True
    then have "text_lines (t # ts) = CHR 0x0A # text_lines ts" using e by simp
    then show ?thesis using Cons True by (simp only: requests_of_skip) simp
  next
    case False
    then have "strtok (CHR 0x0A) (text_lines (t # ts)) = Some (t, text_lines ts)" using Cons.prems by (simp add: e strtok_line)
    then show ?thesis using Cons False by (subst requests_of.simps) simp
  qed
qed

text \<open>The text of a line of the channel.\<close>

definition line_text :: "bytes \<Rightarrow> string" where
  "line_text = map byte_char"

lemma byte_char_newline: "byte_char 10 = CHR 0x0A"
  by code_simp

lemma line_text_newline: "10 \<notin> set l \<Longrightarrow> CHR 0x0A \<notin> set (line_text l)"
proof
  assume l: "10 \<notin> set l" "CHR 0x0A \<in> set (line_text l)"
  then obtain b where "b \<in> set l" "byte_char b = byte_char 10" by (auto simp: line_text_def byte_char_newline)
  then have "b = 10" by (metis char_byte_byte_char)
  then show False using l(1) \<open>b \<in> set l\<close> by simp
qed

lemma c_string_lines: "\<forall>l \<in> set ls. 0 \<notin> set l \<Longrightarrow> c_string (with_newlines ls) = text_lines (map line_text ls)"
proof -
  assume "\<forall>l \<in> set ls. 0 \<notin> set l"
  then have "takeWhile (\<lambda>b. b \<noteq> 0) (with_newlines ls) = with_newlines ls"
    by (subst takeWhile_eq_all_conv) (auto simp: with_newlines_def)
  then have "c_string (with_newlines ls) = map byte_char (with_newlines ls)" by (simp only: c_string_def)
  then show ?thesis by (simp add: with_newlines_def text_lines_def line_text_def map_concat comp_def byte_char_newline)
qed

lemma feed_lines_spec:
  assumes "\<forall>l \<in> set ls. 10 \<notin> set l \<and> 0 \<notin> set l \<and> length l \<le> 4096" "10 \<notin> set r" "length r \<le> 4096" "10 \<notin> set line"
    "\<forall>c \<in> set cs. length c \<le> 4095" "line @ concat cs = with_newlines ls @ r"
  shows "fst (feed_lines line cs) = r \<and>
    concat (map (\<lambda>w. requests_of (c_string w)) (snd (feed_lines line cs))) = filter (\<lambda>t. t \<noteq> []) (map line_text ls)"
  using assms(1,4-6)
proof (induction cs arbitrary: line ls)
  case Nil
  then have "ls = []" by (cases ls) (auto simp: with_newlines_def)
  then show ?case using Nil by (simp add: with_newlines_def)
next
  case (Cons c cs)
  have short: "length line \<le> 4096"
  proof (cases ls)
    case Nil
    then have "length line \<le> length r" using arg_cong [OF Cons.prems(4), of length] by (simp add: with_newlines_def)
    then show ?thesis using assms(3) by simp
  next
    case (Cons l ls')
    have "\<not> length l < length line"
    proof
      assume longer: "length l < length line"
      have e2: "line @ (c @ concat cs) = (l @ [10]) @ (with_newlines ls' @ r)" using Cons.prems(4) Cons by (simp add: with_newlines_def)
      obtain u where "line = (l @ [10]) @ u" using prefix_cut [OF e2 longer] by blast
      then show False using Cons.prems(2) by simp
    qed
    then show ?thesis using Cons.prems(1) Cons by auto
  qed
  define n where "n = complete_len (line @ c)"
  define w where "w = take n (line @ c)"
  define x where "x = drop n (line @ c)"
  have push: "line_push line c = (if n = 0 then (line @ c, None) else (x, Some w))"
    using short Cons.prems(3) by (simp add: line_push_def SRV_CONTROL_LINE_CAP_def n_def w_def x_def Let_def)
  have end10: "w = [] \<or> last w = 10" and x: "10 \<notin> set x" using complete_len_split [of "line @ c"] by (auto simp: w_def x_def n_def)
  have "w @ x = line @ c" by (simp only: w_def x_def append_take_drop_id)
  then have "w @ (x @ concat cs) = with_newlines ls @ r"
    using Cons.prems(4) by (metis append.assoc concat.simps(2))
  then obtain k where k: "w = with_newlines (take k ls)" "x @ concat cs = with_newlines (drop k ls) @ r"
    using split_lines [OF _ end10 _ assms(2)] Cons.prems(1) by blast
  have sub: "set (take k ls) \<subseteq> set ls" "set (drop k ls) \<subseteq> set ls" by (rule set_take_subset, rule set_drop_subset)
  have ih: "fst (feed_lines x cs) = r \<and>
    concat (map (\<lambda>w. requests_of (c_string w)) (snd (feed_lines x cs))) = filter (\<lambda>t. t \<noteq> []) (map line_text (drop k ls))"
    using Cons.prems(1,3) sub(2) k(2) x by (intro Cons.IH) auto
  have reqs: "requests_of (c_string w) = filter (\<lambda>t. t \<noteq> []) (map line_text (take k ls))"
    unfolding k(1) using Cons.prems(1) sub(1) by (subst c_string_lines; (subst requests_of_lines)?; auto dest: line_text_newline)
  have all: "filter (\<lambda>t. t \<noteq> []) (map line_text ls) =
      filter (\<lambda>t. t \<noteq> []) (map line_text (take k ls)) @ filter (\<lambda>t. t \<noteq> []) (map line_text (drop k ls))"
    by (metis append_take_drop_id filter_append map_append)
  show ?case
  proof (cases "n = 0")
    case True
    then have "w = []" "x = line @ c" by (simp_all add: w_def x_def)
    moreover from this k(1) have none: "take k ls = []" by (cases "take k ls") (simp_all add: with_newlines_def)
    ultimately show ?thesis using True ih all [unfolded none] by (simp add: push split: prod.split)
  next
    case False
    then show ?thesis using ih all reqs by (simp add: push case_prod_beta)
  qed
qed

text \<open>C39: the control channel is a stream of lines, however TCP cuts it. For lines of up to 4096 bytes, in any
  chunks a read can give, the requests that are served are exactly the non-empty lines, whole and in order, and what has
  come of the next line is kept.\<close>

theorem srv_lines_reassembled:
  assumes "\<forall>l \<in> set ls. 10 \<notin> set l \<and> 0 \<notin> set l \<and> length l \<le> 4096" "10 \<notin> set r" "length r \<le> 4096"
    "\<forall>c \<in> set cs. length c \<le> 4095" "concat cs = with_newlines ls @ r"
  shows "fst (feed_lines [] cs) = r \<and>
    concat (map (\<lambda>w. requests_of (c_string w)) (snd (feed_lines [] cs))) = filter (\<lambda>t. t \<noteq> []) (map line_text ls)"
  using feed_lines_spec [OF assms(1-3) _ assms(4), of "[]"] assms(5) by simp

lemma srv_lines_reassembled_witness:
  "fst (feed_lines [] [[97], [98, 10, 10], [99, 10, 100]]) = [100] \<and>
   concat (map (\<lambda>w. requests_of (c_string w)) (snd (feed_lines [] [[97], [98, 10, 10], [99, 10, 100]]))) = [''ab'', ''c'']"
proof -
  have "filter (\<lambda>t. t \<noteq> []) (map line_text [[97, 98], [], [99]]) = [''ab'', ''c'']" by code_simp
  then show ?thesis using srv_lines_reassembled [of "[[97, 98], [], [99]]" "[100]" "[[97], [98, 10, 10], [99, 10, 100]]"]
    by (simp add: with_newlines_def)
qed

end
