(* ===== verification/C_Srv_Escr.thy ===== *)
theory C_Srv_Escr
  imports C_Srv_Control
begin

text \<open>
  \<open>escr.c\<close> of the C relay: the encrypted signed challenge-response with which a socket to the rendezvous server
  authenticates. The answer is one line, built in stages in buffers of 4096 bytes; a stage that does not fit makes the
  whole fail. The hard limits are checked here, RSA, Base64 and AES are the environment's.
\<close>

section \<open>The answer\<close>

definition ESCR_IO_TIMEOUT_MS :: nat where "ESCR_IO_TIMEOUT_MS = 10000"
definition ESCR_RSA_SIG_BYTES :: nat where "ESCR_RSA_SIG_BYTES = 256"
definition ESCR_MAX_LINE :: nat where "ESCR_MAX_LINE = 4096"

text \<open>Printable ASCII but for the two characters JSON escapes.\<close>

definition json_safe :: "string \<Rightarrow> bool" where
  "json_safe = list_all (\<lambda>c. 32 \<le> ch c \<and> ch c \<le> 126 \<and> c \<noteq> CHR 0x22 \<and> c \<noteq> CHR 0x5C)"

definition base64_encode_str :: "('w, 'k) srv_env \<Rightarrow> bytes \<Rightarrow> nat \<Rightarrow> string option" where
  "base64_encode_str E bs dstsize = (if dstsize = 0 then None else base64_encode (sv_ops E) bs (dstsize - 1))"

text \<open>\<open>snprintf\<close> into a buffer of \<open>ESCR_MAX_LINE\<close> bytes: \<open>None\<close> when the text was cut.\<close>

definition printed :: "string \<Rightarrow> string option" where
  "printed s = (if length s \<ge> ESCR_MAX_LINE then None else Some s)"

definition escr_payload_json :: "string \<Rightarrow> string \<Rightarrow> bool \<Rightarrow> string" where
  \<open>escr_payload_json session_id challenge is_side_a =
     ''{"sid":"'' @ session_id @ ''","c":"'' @ challenge @ ''","side":"'' @ (if is_side_a then ''a'' else ''b'') @ ''"}''\<close>

definition escr_envelope_json :: "string \<Rightarrow> string \<Rightarrow> string \<Rightarrow> string" where
  \<open>escr_envelope_json p_json sig_b64 uri =
     ''{"p":'' @ p_json @ '',"s":"'' @ sig_b64 @ ''","ha":"sha256","sa":"rsa2048","sk":"'' @ uri @ ''"}''\<close>

definition escr_outer_json :: "string \<Rightarrow> string \<Rightarrow> string" where
  \<open>escr_outer_json iv_b64 enc_b64 = ''{"iv":"'' @ iv_b64 @ ''","e":"'' @ enc_b64 @ ''"}''\<close>

text \<open>The signature, which a modulus of 256 significant bytes makes 256 bytes long.\<close>

definition escr_sign :: "('w, 'k) srv_env \<Rightarrow> rsa_key \<Rightarrow> string \<Rightarrow> string option" where
  "escr_sign E key p_json =
     (if significant_bytes (rk_n key) \<noteq> ESCR_RSA_SIG_BYTES then None
      else case rsa_sign (sv_ops E) key MD_SHA256 p_json of
          None \<Rightarrow> None
        | Some sig \<Rightarrow> base64_encode_str E (take ESCR_RSA_SIG_BYTES sig) 512)"

definition pad16 :: "bytes \<Rightarrow> bytes" where
  "pad16 bs = (let pad = 16 - length bs mod 16 in bs @ replicate pad (word_of_nat pad))"

definition escr_encrypted :: "('w, 'k) srv_env \<Rightarrow> bytes \<Rightarrow> bytes \<Rightarrow> bytes \<Rightarrow> bytes option" where
  "escr_encrypted E aes_key iv padded =
     (case mb_setkey_enc (sv_mb E) aes_key of
        None \<Rightarrow> None
      | Some ctx \<Rightarrow>
          (case sv_crypt E \<lparr>ctr_ctx = ctx, ctr_nonce_counter = iv, ctr_stream_block = replicate 16 0, ctr_nc_off = 0\<rparr> padded of
             Inl code \<Rightarrow> None
           | Inr (t, out) \<Rightarrow> Some out))"

text \<open>From the signed payload to the Base64 of the encrypted envelope with its iv.\<close>

definition escr_seal :: "('w, 'k) srv_env \<Rightarrow> string \<Rightarrow> bytes \<Rightarrow> string \<Rightarrow> string option" where
  "escr_seal E aes_key_base64 iv env_json =
     (case base64_encode_str E (str_bytes env_json) ESCR_MAX_LINE of
        None \<Rightarrow> None
      | Some env64 \<Rightarrow>
          (case base64_decode (sv_ops E) aes_key_base64 32 of
             None \<Rightarrow> None
           | Some aes_key \<Rightarrow>
               if length aes_key \<noteq> 32 then None
               else case escr_encrypted E aes_key iv (pad16 (str_bytes env64)) of
                   None \<Rightarrow> None
                 | Some encrypted \<Rightarrow>
                     (case base64_encode_str E iv 32 of
                        None \<Rightarrow> None
                      | Some iv_b64 \<Rightarrow>
                          (case base64_encode_str E encrypted ESCR_MAX_LINE of
                             None \<Rightarrow> None
                           | Some enc_b64 \<Rightarrow>
                               (case printed (escr_outer_json iv_b64 enc_b64) of
                                  None \<Rightarrow> None
                                | Some outer \<Rightarrow> base64_encode_str E (str_bytes outer) ESCR_MAX_LINE)))))"

text \<open>The text of the line; \<open>None\<close> is a failure before the line is allocated.\<close>

definition escr_answer ::
  "('w, 'k) srv_env \<Rightarrow> string \<Rightarrow> string \<Rightarrow> string \<Rightarrow> string \<Rightarrow> rsa_key \<Rightarrow> bool \<Rightarrow> bytes \<Rightarrow> string option" where
  "escr_answer E session_id challenge aes_key_base64 uri key is_side_a iv =
     (if \<not> json_safe session_id \<or> \<not> json_safe challenge \<or> \<not> json_safe uri then None
      else case printed (escr_payload_json session_id challenge is_side_a) of
          None \<Rightarrow> None
        | Some p_json \<Rightarrow>
            (case escr_sign E key p_json of
               None \<Rightarrow> None
             | Some sig_b64 \<Rightarrow>
                 (case printed (escr_envelope_json p_json sig_b64 uri) of
                    None \<Rightarrow> None
                  | Some env_json \<Rightarrow> escr_seal E aes_key_base64 iv env_json)))"

definition srv_escr_build_response ::
  "('w, 'k) srv_env \<Rightarrow> string \<Rightarrow> string \<Rightarrow> string \<Rightarrow> string \<Rightarrow> rsa_key \<Rightarrow> bool \<Rightarrow> bytes \<Rightarrow> ('w, 'k, string option) sprog" where
  "srv_escr_build_response E session_id challenge aes_key_base64 uri key is_side_a iv =
     (case escr_answer E session_id challenge aes_key_base64 uri key is_side_a iv of
        None \<Rightarrow> ret None
      | Some auth_payload64 \<Rightarrow> do {
          ok \<leftarrow> sx (sv_alloc E (length session_id + length auth_payload64 + 2));
          let line = session_id @ '':'' @ auth_payload64;
          ret (if \<not> ok \<or> length line > ESCR_MAX_LINE - 1 then None else Some line) })"

section \<open>The exchange\<close>

text \<open>A line, byte by byte. The first argument is the room left in the buffer.\<close>

fun escr_read_line :: "nat \<Rightarrow> ('w, 'k) srv_env \<Rightarrow> int \<Rightarrow> bytes \<Rightarrow> ('w, 'k, bytes option) sprog" where
  "escr_read_line 0 E fd acc = ret None"
| "escr_read_line (Suc room) E fd acc = do {
     r \<leftarrow> sx (sv_recv_timeout E fd 1 ESCR_IO_TIMEOUT_MS);
     case r of
       Received (b # _) \<Rightarrow> do {
         sv_emit (Sv_received fd [b]);
         if b = 10 then ret (Some acc) else escr_read_line room E fd (acc @ [b]) }
     | _ \<Rightarrow> ret None }"

text \<open>A send of 0 bytes is an error, so that every round sends at least one: as many rounds as bytes are enough.\<close>

fun escr_send_loop :: "nat \<Rightarrow> ('w, 'k) srv_env \<Rightarrow> int \<Rightarrow> bytes \<Rightarrow> ('w, 'k, bool) sprog" where
  "escr_send_loop 0 E fd bs = ret True"
| "escr_send_loop (Suc k) E fd bs =
     (if bs = [] then ret True
      else do {
        r \<leftarrow> sx (sv_send E fd bs);
        case r of
          Net_sent n \<Rightarrow>
            if n = 0 then ret False
            else do { sv_emit (Sv_sent fd (take n bs)); escr_send_loop k E fd (drop n bs) }
        | _ \<Rightarrow> ret False })"

definition escr_send_all :: "('w, 'k) srv_env \<Rightarrow> int \<Rightarrow> bytes \<Rightarrow> ('w, 'k, bool) sprog" where
  "escr_send_all E fd bs = escr_send_loop (length bs) E fd bs"

text \<open>From the challenge on; \<open>True\<close> is the result 0. A received line is read as a C string.\<close>

definition escr_respond ::
  "('w, 'k) srv_env \<Rightarrow> int \<Rightarrow> string \<Rightarrow> string \<Rightarrow> string \<Rightarrow> rsa_key \<Rightarrow> bool \<Rightarrow> string \<Rightarrow> ('w, 'k, bool) sprog" where
  "escr_respond E fd session_id aes_key_base64 uri key is_side_a challenge = do {
     iv \<leftarrow> sx (sv_iv_generate E);
     case iv of
       None \<Rightarrow> ret False
     | Some iv \<Rightarrow> do {
         line \<leftarrow> srv_escr_build_response E session_id challenge aes_key_base64 uri key is_side_a iv;
         case line of
           None \<Rightarrow> ret False
         | Some line \<Rightarrow> do {
             ok1 \<leftarrow> escr_send_all E fd (str_bytes line);
             ok2 \<leftarrow> (if ok1 then escr_send_all E fd [10] else ret False);
             if \<not> ok2 then ret False
             else do {
               reply \<leftarrow> escr_read_line 63 E fd [];
               ret (case reply of None \<Rightarrow> False | Some r \<Rightarrow> c_string r = ''ok'') } } } }"

definition srv_escr_authenticate :: "('w, 'k) srv_env \<Rightarrow> int \<Rightarrow> srv_params \<Rightarrow> ('w, 'k, bool) sprog" where
  "srv_escr_authenticate E fd p =
     (case (sp_escr_session_id p, sp_escr_aes_key_base64 p, sp_escr_signing_key_uri p, sp_escr_signing_key p) of
        (Some session_id, Some aes_key_base64, Some uri, Some key) \<Rightarrow> do {
          challenge \<leftarrow> escr_read_line (ESCR_MAX_LINE - 1) E fd [];
          case challenge of
            None \<Rightarrow> ret False
          | Some c \<Rightarrow> escr_respond E fd session_id aes_key_base64 uri key (sp_escr_is_side_a p) (c_string c) }
      | _ \<Rightarrow> ret False)"

section \<open>What a successful exchange was\<close>

text \<open>The trace of a line that was read.\<close>

definition line_reads :: "int \<Rightarrow> bytes \<Rightarrow> 'k srv_event list" where
  "line_reads fd bs = map (\<lambda>b. Sv_received fd [b]) (bs @ [10])"

lemma escr_read_line_reads:
  fixes E :: "('w, 'k) srv_env"
  assumes "res (escr_read_line room E fd acc) s = Some l"
  shows "\<exists>bs. l = acc @ bs \<and> 10 \<notin> set bs \<and> length bs < room \<and>
    sm_trace (post (escr_read_line room E fd acc) s) = sm_trace s @ line_reads fd bs"
  using assms
proof (induction room arbitrary: acc s)
  case 0
  then show ?case by simp
next
  case (Suc room)
  define s1 where "s1 = s\<lparr>sm_world := snd (sv_recv_timeout E fd 1 ESCR_IO_TIMEOUT_MS (sm_world s))\<rparr>"
  obtain b bs' where r: "fst (sv_recv_timeout E fd 1 ESCR_IO_TIMEOUT_MS (sm_world s)) = Received (b # bs')"
    using Suc.prems by (auto split: net_recv.splits list.splits)
  define s2 where "s2 = s1\<lparr>sm_trace := sm_trace s @ [Sv_received fd [b]]\<rparr>"
  show ?case
  proof (cases "b = 10")
    case True
    with Suc.prems r show ?thesis by (intro exI [of _ "[]"]) (simp add: line_reads_def)
  next
    case False
    have p: "post (escr_read_line (Suc room) E fd acc) s = post (escr_read_line room E fd (acc @ [b])) s2"
      and q: "res (escr_read_line (Suc room) E fd acc) s = res (escr_read_line room E fd (acc @ [b])) s2"
      using False r by (simp_all add: s1_def s2_def)
    from Suc.IH [of "acc @ [b]" s2] Suc.prems q obtain bs where
      "l = (acc @ [b]) @ bs \<and> 10 \<notin> set bs \<and> length bs < room \<and>
       sm_trace (post (escr_read_line room E fd (acc @ [b])) s2) = sm_trace s2 @ line_reads fd bs" by auto
    with False show ?thesis unfolding p by (intro exI [of _ "b # bs"]) (simp add: s2_def line_reads_def)
  qed
qed

lemma escr_send_loop_sends:
  fixes E :: "('w, 'k) srv_env"
  assumes "res (escr_send_loop k E fd bs) s" "length bs \<le> k"
  shows "\<exists>sends. concat sends = bs \<and> sm_trace (post (escr_send_loop k E fd bs) s) = sm_trace s @ map (Sv_sent fd) sends"
  using assms
proof (induction k arbitrary: bs s)
  case 0
  then show ?case by (intro exI [of _ "[]"]) simp
next
  case (Suc k)
  show ?case
  proof (cases "bs = []")
    case True
    then show ?thesis by (intro exI [of _ "[]"]) simp
  next
    case False
    obtain n where n: "fst (sv_send E fd bs (sm_world s)) = Net_sent n" "n \<noteq> 0"
      using Suc.prems False by (auto split: net_send.splits if_splits)
    define s2 where "s2 = s\<lparr>sm_world := snd (sv_send E fd bs (sm_world s)), sm_trace := sm_trace s @ [Sv_sent fd (take n bs)]\<rparr>"
    have p: "post (escr_send_loop (Suc k) E fd bs) s = post (escr_send_loop k E fd (drop n bs)) s2"
      and q: "res (escr_send_loop (Suc k) E fd bs) s = res (escr_send_loop k E fd (drop n bs)) s2"
      using n False by (simp_all add: s2_def)
    have "length (drop n bs) \<le> k" using n(2) Suc.prems(2) by simp
    with Suc.IH [of "drop n bs" s2] Suc.prems(1) q obtain sends where
      s: "concat sends = drop n bs" "sm_trace (post (escr_send_loop k E fd (drop n bs)) s2) = sm_trace s2 @ map (Sv_sent fd) sends"
      by auto
    have "concat (take n bs # sends) = bs" using s(1) by simp
    with s(2) show ?thesis unfolding p by (intro exI [of _ "take n bs # sends"]) (simp add: s2_def)
  qed
qed

lemmas escr_send_all_sends = escr_send_loop_sends [OF _ le_refl, folded escr_send_all_def]

lemma build_response_Some:
  assumes "res (srv_escr_build_response E sid c aes uri key side iv) s = Some line"
  shows "\<exists>payload. escr_answer E sid c aes uri key side iv = Some payload \<and> line = sid @ '':'' @ payload \<and> length line < 4096"
  using assms by (auto simp: srv_escr_build_response_def Let_def ESCR_MAX_LINE_def split: option.splits if_splits)

lemma build_response_trace [simp]:
  "sm_trace (post (srv_escr_build_response E sid c aes uri key side iv) s) = sm_trace s"
  by (simp add: srv_escr_build_response_def Let_def split: option.split)

lemma escr_answer_signs:
  "escr_answer E sid c aes uri key side iv = Some payload \<Longrightarrow>
   json_safe c \<and> significant_bytes (rk_n key) = 256 \<and>
   rsa_sign (sv_ops E) key MD_SHA256 (escr_payload_json sid c side) \<noteq> None"
  by (auto simp: escr_answer_def escr_sign_def printed_def ESCR_RSA_SIG_BYTES_def split: if_splits option.splits)

text \<open>What was answered to a challenge.\<close>

definition proper_answer ::
  "('w, 'k) srv_env \<Rightarrow> int \<Rightarrow> string \<Rightarrow> string \<Rightarrow> string \<Rightarrow> rsa_key \<Rightarrow> bool \<Rightarrow> string \<Rightarrow> 'k srv_event list \<Rightarrow> bool" where
  "proper_answer E fd sid aes uri key side challenge tr \<longleftrightarrow>
     (\<exists>iv payload sends reply.
        escr_answer E sid challenge aes uri key side iv = Some payload \<and>
        length (sid @ '':'' @ payload) < 4096 \<and>
        concat sends = str_bytes (sid @ '':'' @ payload) @ [10] \<and> c_string reply = ''ok'' \<and>
        tr = map (Sv_sent fd) sends @ line_reads fd reply)"

lemma escr_respond_proper:
  fixes E :: "('w, 'k) srv_env"
  assumes "res (escr_respond E fd sid aes uri key side c) s"
  shows "\<exists>tr. sm_trace (post (escr_respond E fd sid aes uri key side c) s) = sm_trace s @ tr \<and>
    proper_answer E fd sid aes uri key side c tr"
proof -
  define s1 where "s1 = s\<lparr>sm_world := snd (sv_iv_generate E (sm_world s))\<rparr>"
  obtain iv where iv: "fst (sv_iv_generate E (sm_world s)) = Some iv"
    using assms by (auto simp: escr_respond_def split: option.splits)
  define build where "build = srv_escr_build_response E sid c aes uri key side iv"
  define s2 where "s2 = post build s1"
  obtain line where line: "res build s1 = Some line"
    using assms iv by (auto simp: escr_respond_def s1_def build_def split: option.splits)
  define s3 where "s3 = post (escr_send_all E fd (str_bytes line)) s2"
  define s4 where "s4 = post (escr_send_all E fd [10]) s3"
  have ok1: "res (escr_send_all E fd (str_bytes line)) s2"
    using assms iv line by (auto simp: escr_respond_def s1_def s2_def build_def split: if_splits)
  have ok2: "res (escr_send_all E fd [10]) s3"
    using assms iv line ok1 by (auto simp: escr_respond_def s1_def s2_def s3_def build_def split: if_splits)
  obtain reply where reply: "res (escr_read_line 63 E fd []) s4 = Some reply" "c_string reply = ''ok''"
    using assms iv line ok1 ok2
    by (auto simp: escr_respond_def s1_def s2_def s3_def s4_def build_def split: option.splits)
  have p: "post (escr_respond E fd sid aes uri key side c) s = post (escr_read_line 63 E fd []) s4"
    using iv line ok1 ok2 by (simp add: escr_respond_def s1_def s2_def s3_def s4_def build_def)
  obtain sends1 where s1s: "concat sends1 = str_bytes line" "sm_trace s3 = sm_trace s2 @ map (Sv_sent fd) sends1"
    using escr_send_all_sends [OF ok1] unfolding s3_def by blast
  obtain sends2 where s2s: "concat sends2 = [10]" "sm_trace s4 = sm_trace s3 @ map (Sv_sent fd) sends2"
    using escr_send_all_sends [OF ok2] unfolding s4_def by blast
  have tr: "sm_trace (post (escr_read_line 63 E fd []) s4) = sm_trace s4 @ line_reads fd reply"
    using escr_read_line_reads [OF reply(1)] by auto
  have t2: "sm_trace s2 = sm_trace s" by (simp add: s2_def s1_def build_def)
  obtain payload where pl: "escr_answer E sid c aes uri key side iv = Some payload" "line = sid @ '':'' @ payload"
      "length line < 4096" using build_response_Some line unfolding build_def by blast
  have "sm_trace (post (escr_respond E fd sid aes uri key side c) s) =
      sm_trace s @ map (Sv_sent fd) (sends1 @ sends2) @ line_reads fd reply"
    unfolding p tr by (simp add: s2s(2) s1s(2) t2)
  moreover have "concat (sends1 @ sends2) = str_bytes (sid @ '':'' @ payload) @ [10]"
    using s1s(1) s2s(1) pl(2) by simp
  ultimately show ?thesis using pl reply(2) unfolding proper_answer_def by blast
qed

text \<open>What went over the socket in an exchange that succeeded.\<close>

definition proper_exchange :: "('w, 'k) srv_env \<Rightarrow> int \<Rightarrow> srv_params \<Rightarrow> 'k srv_event list \<Rightarrow> bool" where
  "proper_exchange E fd p tr \<longleftrightarrow>
     (\<exists>sid aes uri key challenge tr'.
        sp_escr_session_id p = Some sid \<and> sp_escr_aes_key_base64 p = Some aes \<and> sp_escr_signing_key_uri p = Some uri \<and>
        sp_escr_signing_key p = Some key \<and> 10 \<notin> set challenge \<and> length challenge < 4095 \<and>
        tr = line_reads fd challenge @ tr' \<and>
        proper_answer E fd sid aes uri key (sp_escr_is_side_a p) (c_string challenge) tr' \<and>
        json_safe (c_string challenge) \<and> significant_bytes (rk_n key) = 256 \<and>
        rsa_sign (sv_ops E) key MD_SHA256 (escr_payload_json sid (c_string challenge) (sp_escr_is_side_a p)) \<noteq> None)"

lemma escr_authenticate_proper:
  assumes "res (srv_escr_authenticate E fd p) s"
  shows "\<exists>tr. sm_trace (post (srv_escr_authenticate E fd p) s) = sm_trace s @ tr \<and> proper_exchange E fd p tr"
proof -
  obtain sid aes uri key where p: "sp_escr_session_id p = Some sid" "sp_escr_aes_key_base64 p = Some aes"
      "sp_escr_signing_key_uri p = Some uri" "sp_escr_signing_key p = Some key"
    using assms by (auto simp: srv_escr_authenticate_def split: option.splits)
  define s1 where "s1 = post (escr_read_line 4095 E fd []) s"
  obtain c where c: "res (escr_read_line 4095 E fd []) s = Some c"
    using assms p by (auto simp: srv_escr_authenticate_def ESCR_MAX_LINE_def split: option.splits)
  have r: "res (escr_respond E fd sid aes uri key (sp_escr_is_side_a p) (c_string c)) s1"
    using assms p c by (simp add: srv_escr_authenticate_def ESCR_MAX_LINE_def s1_def)
  have q: "post (srv_escr_authenticate E fd p) s = post (escr_respond E fd sid aes uri key (sp_escr_is_side_a p) (c_string c)) s1"
    using p c by (simp add: srv_escr_authenticate_def ESCR_MAX_LINE_def s1_def)
  have reads: "10 \<notin> set c" "length c < 4095" "sm_trace s1 = sm_trace s @ line_reads fd c"
    using escr_read_line_reads [OF c] unfolding s1_def by auto
  obtain tr where tr: "sm_trace (post (escr_respond E fd sid aes uri key (sp_escr_is_side_a p) (c_string c)) s1) = sm_trace s1 @ tr"
      "proper_answer E fd sid aes uri key (sp_escr_is_side_a p) (c_string c) tr"
    using escr_respond_proper [OF r] by blast
  have "json_safe (c_string c) \<and> significant_bytes (rk_n key) = 256 \<and>
      rsa_sign (sv_ops E) key MD_SHA256 (escr_payload_json sid (c_string c) (sp_escr_is_side_a p)) \<noteq> None"
    using tr(2) escr_answer_signs unfolding proper_answer_def by blast
  then have "proper_exchange E fd p (line_reads fd c @ tr)"
    using p reads(1,2) tr(2) unfolding proper_exchange_def by blast
  then show ?thesis using reads(3) tr(1) unfolding q by auto
qed

text \<open>C37: the relay's authentication succeeds only after a proper exchange. Then the parameters were complete, a line
  was read from the socket, and exactly one line was sent back, all of it: the session id and an answer that signs this very
  challenge, printable and free of JSON specials, with a key of 2048 bits, and that is shorter than the 4096 bytes the
  relay accepts. The next line on the socket was ok. Nothing else went over the socket, and nothing after that line
  was taken from it.\<close>

theorem srv_escr_proper_exchange:
  assumes "res (srv_escr_authenticate E fd p) s"
  shows "\<exists>sid aes uri key challenge tr.
    sp_escr_session_id p = Some sid \<and> sp_escr_aes_key_base64 p = Some aes \<and> sp_escr_signing_key_uri p = Some uri \<and>
    sp_escr_signing_key p = Some key \<and> 10 \<notin> set challenge \<and> length challenge < 4095 \<and>
    sm_trace (post (srv_escr_authenticate E fd p) s) = sm_trace s @ line_reads fd challenge @ tr \<and>
    proper_answer E fd sid aes uri key (sp_escr_is_side_a p) (c_string challenge) tr \<and>
    json_safe (c_string challenge) \<and> significant_bytes (rk_n key) = 256 \<and>
    rsa_sign (sv_ops E) key MD_SHA256 (escr_payload_json sid (c_string challenge) (sp_escr_is_side_a p)) \<noteq> None"
  using escr_authenticate_proper [OF assms] unfolding proper_exchange_def by metis

text \<open>A relay that sends a challenge of one character, takes the answer in two pieces, and says ok.\<close>

definition example_escr_env :: "(nat, bytes) srv_env" where
  "example_escr_env = example_srv_env\<lparr>
     sv_recv_timeout := (\<lambda>_ _ _ w. (if w < 5 then Received [str_bytes (''x'' @ [CHR 0x0A] @ ''ok'' @ [CHR 0x0A]) ! w] else Recv_timeout, w + 1)),
     sv_send := (\<lambda>_ bs w. (Net_sent (min 20 (length bs)), w)),
     sv_ops := \<lparr>rsa_populate_public = (\<lambda>_. None), rsa_populate_private = (\<lambda>_. None), rsa_verify = (\<lambda>_ _ _ _. False),
       rsa_sign = (\<lambda>_ _ _. Some []), base64_decode = (\<lambda>_ _. Some (replicate 32 7)), base64_encode = (\<lambda>_ _. Some ''YWJjZGVmZ2hpamtsbW5vcA==''),
       sha256 = (\<lambda>_. None)\<rparr>\<rparr>"

definition example_escr_params :: srv_params where
  "example_escr_params = \<lparr>sp_host = Some ''relay'', sp_port = 443, sp_local_port = 22, sp_local_host = ''localhost'',
     sp_bind_local_port = False, sp_rv_auth = False, sp_rv_e2ee = False, sp_multi = False, sp_timeout = 30,
     sp_rvd_auth_string = None, sp_escr_auth = True, sp_escr_is_side_a = False, sp_escr_session_id = Some ''sid'',
     sp_escr_aes_key_base64 = Some ''key'', sp_escr_signing_key_uri = Some ''uri'',
     sp_escr_signing_key = Some \<lparr>rk_n = 0 # replicate 256 1, rk_rest = []\<rparr>,
     sp_aes_key_c2d = None, sp_aes_iv_c2d = None, sp_aes_key_d2c = None, sp_aes_iv_d2c = None, sp_ready_fd = - 1\<rparr>"

lemma srv_escr_proper_exchange_witness:
  "res (srv_escr_authenticate example_escr_env 3 example_escr_params) (srv_start 0) \<and>
   (\<exists>challenge tr. sm_trace (post (srv_escr_authenticate example_escr_env 3 example_escr_params) (srv_start 0)) =
      line_reads 3 challenge @ tr \<and> json_safe (c_string challenge))"
proof -
  have r: "res (srv_escr_authenticate example_escr_env 3 example_escr_params) (srv_start 0)" by code_simp
  have "sm_trace (srv_start 0 :: (nat, bytes) srv_state) = []" by (simp add: srv_start_def)
  with srv_escr_proper_exchange [OF r] r show ?thesis by auto
qed

end
