(* ===== verification/C_Srv_Session.thy ===== *)
theory C_Srv_Session
  imports C_Srv_Escr "HOL-Library.Sublist"
begin

text \<open>
  \<open>socket_to_socket\<close> of \<open>srv.c\<close> and \<open>side.c\<close>: one session of the C relay. Side a is the socket to the local service,
  side b the socket to the rendezvous server. Each side has a thread that reads from its socket and writes to the other's;
  the main thread starts the two, waits on a pipe for the first to end, cancels the other, and closes the sockets. A step of
  the model is one system call of one thread, with what the thread computes after it; the environment chooses who runs.
  A thread is cancelled at a system call, so before a step.

  \<open>is_server\<close> is 0 for every side the program makes: the branches for a listening side are not modelled.
\<close>

section \<open>Sides\<close>

definition READ_LEN :: nat where "READ_LEN = 64"

text \<open>Where a side's thread stands: about to read, about to send the rest of a chunk, or gone.\<close>

datatype side_pc = Reading | Sending bytes | Gone

record 'k side_t =
  sd_socket :: int
  sd_transformer :: "'k ctr option"
  sd_pc :: side_pc

text \<open>A session beside the state of the process: its two sides, and the ends of threads written to its pipe.\<close>

record ('w, 'k) session =
  se_srv :: "('w, 'k) srv_state"
  se_sides :: "'k side_t list"
  se_pipe :: "nat list"

type_synonym ('w, 'k, 'a) xprog = "(('w, 'k) session, 'a) state"

definition on_srv :: "('w, 'k, 'a) sprog \<Rightarrow> ('w, 'k, 'a) xprog" where
  "on_srv m = State (\<lambda>x. (res m (se_srv x), x\<lparr>se_srv := post m (se_srv x)\<rparr>))"

definition set_side :: "nat \<Rightarrow> ('k side_t \<Rightarrow> 'k side_t) \<Rightarrow> ('w, 'k, unit) xprog" where
  "set_side i f = modify_st (se_sides_update (\<lambda>ds. ds[i := f (ds ! i)]))"

lemma xprog_simps [simp]:
  "res (on_srv m) x = res m (se_srv x)" "post (on_srv m) x = x\<lparr>se_srv := post m (se_srv x)\<rparr>"
  "post (set_side i f) x = x\<lparr>se_sides := (se_sides x)[i := f (se_sides x ! i)]\<rparr>"
  by (simp_all add: on_srv_def set_side_def res_def post_def)

definition srv_side_init :: "('w, 'k) srv_env \<Rightarrow> string \<Rightarrow> u16 \<Rightarrow> ('w, 'k, int + int) sprog" where
  "srv_side_init E host port = do {
     r \<leftarrow> sx (sv_connect E host port);
     (case r of Inl code \<Rightarrow> ret () | Inr fd \<Rightarrow> sv_emit (Sv_connected fd));
     ret r }"

definition srv_side_free :: "('w, 'k) srv_env \<Rightarrow> int \<Rightarrow> ('w, 'k, unit) sprog" where
  "srv_side_free E fd = do { sv_emit (Sv_closed fd); modify_st (sm_world_update (sv_close E fd)) }"

text \<open>The thread leaves its loop and writes its id to the pipe.\<close>

definition side_exit :: "nat \<Rightarrow> ('w, 'k, unit) xprog" where
  "side_exit i = do { set_side i (sd_pc_update (\<lambda>_. Gone)); modify_st (se_pipe_update (\<lambda>p. p @ [i])) }"

text \<open>What follows a read: the chunk, through the transformer when there is one, waits to be sent.\<close>

definition side_transform :: "('w, 'k) srv_env \<Rightarrow> nat \<Rightarrow> bytes \<Rightarrow> ('w, 'k, unit) xprog" where
  "side_transform E i bs = do {
     d \<leftarrow> gets (\<lambda>x. se_sides x ! i);
     case sd_transformer d of
       None \<Rightarrow> set_side i (sd_pc_update (\<lambda>_. Sending bs))
     | Some t \<Rightarrow>
         (case sv_crypt E t bs of
            Inl code \<Rightarrow> side_exit i
          | Inr (t', out) \<Rightarrow> set_side i (\<lambda>d. d\<lparr>sd_transformer := Some t', sd_pc := Sending out\<rparr>)) }"

definition side_read :: "('w, 'k) srv_env \<Rightarrow> nat \<Rightarrow> ('w, 'k, unit) xprog" where
  "side_read E i = do {
     d \<leftarrow> gets (\<lambda>x. se_sides x ! i);
     r \<leftarrow> on_srv (sx (sv_recv E (sd_socket d) READ_LEN));
     case r of
       Received bs \<Rightarrow>
         if bs = [] then side_exit i
         else do { on_srv (sv_emit (Sv_received (sd_socket d) bs)); side_transform E i bs }
     | _ \<Rightarrow> side_exit i }"

text \<open>One \<open>mbedtls_net_send\<close> to the other side. An interrupted one is repeated, and so is one that sent nothing.\<close>

definition side_send :: "('w, 'k) srv_env \<Rightarrow> nat \<Rightarrow> bytes \<Rightarrow> ('w, 'k, unit) xprog" where
  "side_send E i bs = do {
     other \<leftarrow> gets (\<lambda>x. sd_socket (se_sides x ! (1 - i)));
     r \<leftarrow> on_srv (sx (sv_send E other bs));
     case r of
       Net_want_write \<Rightarrow> ret ()
     | Net_error code \<Rightarrow> side_exit i
     | Net_sent n \<Rightarrow> do {
         on_srv (sv_emit (Sv_sent other (take n bs)));
         set_side i (sd_pc_update (\<lambda>_. Sending (drop n bs))) } }"

text \<open>A step of \<open>srv_side_handle\<close>.\<close>

definition srv_side_handle :: "('w, 'k) srv_env \<Rightarrow> nat \<Rightarrow> ('w, 'k, unit) xprog" where
  "srv_side_handle E i = do {
     d \<leftarrow> gets (\<lambda>x. se_sides x ! i);
     case sd_pc d of
       Gone \<Rightarrow> ret ()
     | Reading \<Rightarrow> side_read E i
     | Sending bs \<Rightarrow> if bs = [] then side_read E i else side_send E i bs }"

section \<open>The threads of a session\<close>

text \<open>The threads that are there run until the main thread's turn comes.\<close>

fun run_threads :: "nat \<Rightarrow> ('w, 'k) srv_env \<Rightarrow> nat list \<Rightarrow> ('w, 'k, unit) xprog" where
  "run_threads 0 E threads = on_srv sv_diverge"
| "run_threads (Suc fuel) E threads = do {
     turn \<leftarrow> on_srv (sx (sv_sched E));
     case turn of
       Run_main \<Rightarrow> ret ()
     | Run_a \<Rightarrow> do { when_st (0 \<in> set threads) (srv_side_handle E 0); run_threads fuel E threads }
     | Run_b \<Rightarrow> do { when_st (1 \<in> set threads) (srv_side_handle E 1); run_threads fuel E threads } }"

text \<open>\<open>read\<close> on the pipe: the first thread that ended, or \<open>None\<close> when the read fails.\<close>

fun await_exit :: "nat \<Rightarrow> ('w, 'k) srv_env \<Rightarrow> ('w, 'k, nat option) xprog" where
  "await_exit 0 E = do { on_srv sv_diverge; ret None }"
| "await_exit (Suc fuel) E = do {
     run_threads (sv_fuel E) E [0, 1];
     fails \<leftarrow> on_srv (sx (sv_pipe_fails E));
     if fails then ret None
     else do {
       p \<leftarrow> gets se_pipe;
       case p of tid # _ \<Rightarrow> ret (Some tid) | [] \<Rightarrow> await_exit fuel E } }"

text \<open>Before it cancels what is left the main thread joins the thread that ended; the other goes on meanwhile.\<close>

definition wait_threads :: "('w, 'k) srv_env \<Rightarrow> ('w, 'k, int) xprog" where
  "wait_threads E = do {
     tid \<leftarrow> await_exit (sv_fuel E) E;
     case tid of
       None \<Rightarrow> do {
         run_threads (sv_fuel E) E [1];        \<comment> \<open>thread 0 is cancelled first\<close>
         ret (-1) }
     | Some t \<Rightarrow> do {
         run_threads (sv_fuel E) E [1 - t];
         ret 0 } }"

text \<open>The line that says that the relay was reached.\<close>

definition report_started :: "srv_params \<Rightarrow> ('w, 'k, unit) sprog" where
  "report_started p = do {
     sv_emit Sv_reported;
     reported \<leftarrow> gets sm_reported;
     when_st (sp_ready_fd p \<ge> 0 \<and> \<not> reported) (sv_emit (Sv_ready (sp_ready_fd p)));
     modify_st (sm_reported_update (\<lambda>_. True)) }"

definition run_side_threads :: "('w, 'k) srv_env \<Rightarrow> srv_params \<Rightarrow> bool \<Rightarrow> ('w, 'k, int) xprog" where
  "run_side_threads E p is_srv_ready = do {
     r0 \<leftarrow> on_srv (sx (sv_thread_create E));
     if r0 \<noteq> 0 then ret r0
     else do {
       run_threads (sv_fuel E) E [0];
       r1 \<leftarrow> on_srv (sx (sv_thread_create E));
       if r1 \<noteq> 0 then do { run_threads (sv_fuel E) E [0]; ret r1 }
       else do {
         run_threads (sv_fuel E) E [0, 1];
         when_st (\<not> is_srv_ready) (on_srv (report_started p));
         wait_threads E } } }"

text \<open>The session socket authenticates: with ESCR, or by the auth string and a newline in one send each. A negative
  result of either send spoils the sum of the two.\<close>

definition send_result :: "net_send \<Rightarrow> int" where
  "send_result r = (case r of Net_sent n \<Rightarrow> int n | Net_want_write \<Rightarrow> - 0x6880 | Net_error code \<Rightarrow> code)"

definition send_once :: "('w, 'k) srv_env \<Rightarrow> int \<Rightarrow> bytes \<Rightarrow> ('w, 'k, int) sprog" where
  "send_once E fd bs = do {
     r \<leftarrow> sx (sv_send E fd bs);
     (case r of Net_sent n \<Rightarrow> sv_emit (Sv_sent fd (take n bs)) | _ \<Rightarrow> ret ());
     ret (send_result r) }"

definition authenticate_session :: "('w, 'k) srv_env \<Rightarrow> srv_params \<Rightarrow> string \<Rightarrow> int \<Rightarrow> ('w, 'k, int) sprog" where
  "authenticate_session E p auth_string fd =
     (if sp_escr_auth p then do {
        ok \<leftarrow> srv_escr_authenticate E fd p;
        ret (if ok then 0 else 1) }
      else if sp_rv_auth p then do {
        n1 \<leftarrow> send_once E fd (str_bytes auth_string);
        n2 \<leftarrow> send_once E fd [10];
        ret (if n1 + n2 \<noteq> int (length auth_string) + 1 then -1 else 0) }
      else ret 0)"

text \<open>The life of a session in state \<open>x\<close> once both sides are connected, and the pipe is there.\<close>

definition start_session :: "int \<Rightarrow> int \<Rightarrow> 'k ciphers \<Rightarrow> ('w, 'k) srv_state \<Rightarrow> ('w, 'k) session" where
  "start_session a b ciphers s = \<lparr>se_srv = s,
     se_sides = [\<lparr>sd_socket = a, sd_transformer = map_option fst ciphers, sd_pc = Reading\<rparr>,
                 \<lparr>sd_socket = b, sd_transformer = map_option snd ciphers, sd_pc = Reading\<rparr>], se_pipe = []\<rparr>"

definition run_session_threads ::
  "('w, 'k) srv_env \<Rightarrow> srv_params \<Rightarrow> int \<Rightarrow> int \<Rightarrow> 'k ciphers \<Rightarrow> bool \<Rightarrow> ('w, 'k, int) sprog" where
  "run_session_threads E p a b ciphers is_srv_ready = State (\<lambda>s.
     case run_state (run_side_threads E p is_srv_ready) (start_session a b ciphers s) of (r, x) \<Rightarrow> (r, se_srv x))"

definition session_linked ::
  "('w, 'k) srv_env \<Rightarrow> srv_params \<Rightarrow> string \<Rightarrow> int \<Rightarrow> int \<Rightarrow> 'k ciphers \<Rightarrow> bool \<Rightarrow> ('w, 'k, int) sprog" where
  "session_linked E p auth_string a b ciphers is_srv_ready = do {
     r \<leftarrow> authenticate_session E p auth_string b;
     if r \<noteq> 0 then ret r else run_session_threads E p a b ciphers is_srv_ready }"

text \<open>The ciphers are used only when the process encrypts.\<close>

definition socket_to_socket ::
  "('w, 'k) srv_env \<Rightarrow> srv_params \<Rightarrow> string \<Rightarrow> 'k ciphers \<Rightarrow> bool \<Rightarrow> ('w, 'k, int) sprog" where
  "socket_to_socket E p auth_string ciphers is_srv_ready = do {
     ra \<leftarrow> srv_side_init E (sp_local_host p) (sp_local_port p);
     case ra of
       Inl code \<Rightarrow> ret code
     | Inr a \<Rightarrow> do {
         rb \<leftarrow> srv_side_init E (case sp_host p of Some h \<Rightarrow> h | None \<Rightarrow> []) (sp_port p);
         case rb of
           Inl code \<Rightarrow> do { srv_side_free E a; ret code }
         | Inr b \<Rightarrow> do {
             pr \<leftarrow> sx (sv_pipe E);
             if pr \<noteq> 0 then do { srv_side_free E a; srv_side_free E b; ret (-1) }
             else do {
               r \<leftarrow> session_linked E p auth_string a b (if sp_rv_e2ee p then ciphers else None) is_srv_ready;
               srv_side_free E a;
               srv_side_free E b;
               ret r } } } }"

section \<open>The two streams\<close>

definition received_from :: "int \<Rightarrow> 'k srv_event list \<Rightarrow> bytes list" where
  "received_from fd tr = List.map_filter (\<lambda>e. case e of Sv_received f bs \<Rightarrow> if f = fd then Some bs else None | _ \<Rightarrow> None) tr"

definition sent_to :: "int \<Rightarrow> 'k srv_event list \<Rightarrow> bytes" where
  "sent_to fd tr = concat (List.map_filter (\<lambda>e. case e of Sv_sent f bs \<Rightarrow> if f = fd then Some bs else None | _ \<Rightarrow> None) tr)"

text \<open>The sockets that were opened and closed, in order.\<close>

definition handles :: "'k srv_event list \<Rightarrow> 'k srv_event list" where
  "handles = filter (\<lambda>e. case e of Sv_connected f \<Rightarrow> True | Sv_closed f \<Rightarrow> True | _ \<Rightarrow> False)"

lemma received_simps [simp]:
  "received_from fd [] = []" "received_from fd (t @ u) = received_from fd t @ received_from fd u"
  "received_from fd [Sv_received f bs] = (if f = fd then [bs] else [])" "received_from fd [Sv_sent f bs] = []"
  "received_from fd [Sv_connected f] = []" "received_from fd [Sv_closed f] = []" "received_from fd [Sv_reported] = []"
  "received_from fd [Sv_ready f] = []" "received_from fd [Sv_session_ended] = []"
  by (simp_all add: received_from_def List.map_filter_def)

lemma sent_simps [simp]:
  "sent_to fd [] = []" "sent_to fd (t @ u) = sent_to fd t @ sent_to fd u"
  "sent_to fd [Sv_sent f bs] = (if f = fd then bs else [])" "sent_to fd [Sv_received f bs] = []"
  "sent_to fd [Sv_connected f] = []" "sent_to fd [Sv_closed f] = []" "sent_to fd [Sv_reported] = []"
  "sent_to fd [Sv_ready f] = []" "sent_to fd [Sv_session_ended] = []"
  by (simp_all add: sent_to_def List.map_filter_def)

lemma handles_simps [simp]:
  "handles [] = []" "handles (t @ u) = handles t @ handles u" "handles [Sv_sent f bs] = []"
  "handles [Sv_received f bs] = []" "handles [Sv_reported] = []" "handles [Sv_ready f] = []" "handles [Sv_session_ended] = []"
  "handles [Sv_connected f] = [Sv_connected f]" "handles [Sv_closed f] = [Sv_closed f]"
  by (simp_all add: handles_def)

text \<open>What a transformer makes of chunks, up to the first that it fails on, and the transformer afterwards.\<close>

fun crypted :: "('w, 'k) srv_env \<Rightarrow> 'k ctr option \<Rightarrow> bytes list \<Rightarrow> bytes \<times> 'k ctr option option" where
  "crypted E x [] = ([], Some x)"
| "crypted E None (c # cs) = (case crypted E None cs of (out, y) \<Rightarrow> (c @ out, y))"
| "crypted E (Some t) (c # cs) =
     (case sv_crypt E t c of
        Inl code \<Rightarrow> ([], None)
      | Inr (t', o') \<Rightarrow> (case crypted E (Some t') cs of (out, y) \<Rightarrow> (o' @ out, y)))"

lemma crypted_snoc:
  "crypted E x (cs @ [c]) =
     (case crypted E x cs of
        (out, None) \<Rightarrow> (out, None)
      | (out, Some None) \<Rightarrow> (out @ c, Some None)
      | (out, Some (Some t)) \<Rightarrow>
          (case sv_crypt E t c of Inl code \<Rightarrow> (out, None) | Inr (t', o') \<Rightarrow> (out @ o', Some (Some t'))))"
proof (induction E x cs rule: crypted.induct)
  case (1 E x)
  then show ?case by (cases x) (auto split: sum.split)
next
  case (2 E c' cs)
  then show ?case by (auto split: prod.split option.split sum.split)
next
  case (3 E t c' cs)
  then show ?case by (auto split: prod.split option.split sum.split)
qed

text \<open>A side's account: what it read, through its transformer, is what it sent and what it still has to send.\<close>

definition side_ok :: "('w, 'k) srv_env \<Rightarrow> 'k ctr option \<Rightarrow> bytes list \<Rightarrow> bytes \<Rightarrow> 'k side_t \<Rightarrow> bool" where
  "side_ok E x chunks out d \<longleftrightarrow>
     (case sd_pc d of
        Gone \<Rightarrow> prefix out (fst (crypted E x chunks))
      | Reading \<Rightarrow> crypted E x chunks = (out, Some (sd_transformer d))
      | Sending bs \<Rightarrow> crypted E x chunks = (out @ bs, Some (sd_transformer d)))"

lemma side_ok_prefix: "side_ok E x chunks out d \<Longrightarrow> prefix out (fst (crypted E x chunks))"
  by (auto simp: side_ok_def split: side_pc.splits)

lemma side_ok_gone: "side_ok E x chunks out d \<Longrightarrow> side_ok E x chunks out (d\<lparr>sd_pc := Gone\<rparr>)"
  using side_ok_prefix by (simp add: side_ok_def)

text \<open>The account of a session: its sockets are \<open>fds\<close>, its transformers were \<open>xs\<close>, its events follow \<open>tr0\<close>.\<close>

definition session_inv ::
  "('w, 'k) srv_env \<Rightarrow> 'k srv_event list \<Rightarrow> int list \<Rightarrow> 'k ctr option list \<Rightarrow> ('w, 'k) session \<Rightarrow> bool" where
  "session_inv E tr0 fds xs x \<longleftrightarrow>
     length (se_sides x) = 2 \<and>
     (\<exists>tr. sm_trace (se_srv x) = tr0 @ tr \<and> handles tr = [] \<and>
       (\<forall>i < 2. sd_socket (se_sides x ! i) = fds ! i \<and>
          side_ok E (xs ! i) (received_from (fds ! i) tr) (sent_to (fds ! (1 - i)) tr) (se_sides x ! i)))"

lemma session_inv_step:
  assumes inv: "session_inv E tr0 fds xs x" and i: "i < 2"
    and x': "se_sides x' = (se_sides x)[i := d]" "sm_trace (se_srv x') = sm_trace (se_srv x) @ es"
    and d: "sd_socket d = sd_socket (se_sides x ! i)"
    and es: "handles es = []" "received_from (fds ! (1 - i)) es = []" "sent_to (fds ! i) es = []"
    and ok: "\<And>chunks out. side_ok E (xs ! i) chunks out (se_sides x ! i) \<Longrightarrow>
      side_ok E (xs ! i) (chunks @ received_from (fds ! i) es) (out @ sent_to (fds ! (1 - i)) es) d"
  shows "session_inv E tr0 fds xs x'"
proof -
  obtain tr where tr: "sm_trace (se_srv x) = tr0 @ tr" "handles tr = []"
    and sides: "\<And>j. j < 2 \<Longrightarrow> sd_socket (se_sides x ! j) = fds ! j \<and>
      side_ok E (xs ! j) (received_from (fds ! j) tr) (sent_to (fds ! (1 - j)) tr) (se_sides x ! j)"
    and len: "length (se_sides x) = 2"
    using inv unfolding session_inv_def by blast
  have new: "sd_socket (se_sides x' ! j) = fds ! j \<and>
      side_ok E (xs ! j) (received_from (fds ! j) (tr @ es)) (sent_to (fds ! (1 - j)) (tr @ es)) (se_sides x' ! j)"
    if j: "j < 2" for j
  proof (cases "j = i")
    case True
    then show ?thesis using sides [OF i] ok d i len x'(1) by simp
  next
    case False
    then have "j = 1 - i" "1 - j = i" using i j by auto
    then show ?thesis using sides [OF j] es False x'(1) by simp
  qed
  show ?thesis unfolding session_inv_def
    using new tr es(1) x' len by (intro conjI exI [of _ "tr @ es"]) simp_all
qed

lemma session_inv_world: "session_inv E tr0 fds xs x \<Longrightarrow> se_sides x' = se_sides x \<Longrightarrow>
    sm_trace (se_srv x') = sm_trace (se_srv x) \<Longrightarrow> session_inv E tr0 fds xs x'"
  by (simp add: session_inv_def)

lemma inv_side_exit:
  assumes "session_inv E tr0 fds xs x" "i < 2"
  shows "session_inv E tr0 fds xs (post (side_exit i) x)"
  by (rule session_inv_step [OF assms, where es = "[]" and d = "(se_sides x ! i)\<lparr>sd_pc := Gone\<rparr>"])
     (simp_all add: side_exit_def side_ok_gone)

lemma inv_side_read:
  fixes E :: "('w, 'k) srv_env"
  assumes inv: "session_inv E tr0 fds xs x" and i: "i < 2" and fds: "fds ! 0 \<noteq> fds ! 1"
    and pc: "sd_pc (se_sides x ! i) \<in> {Reading, Sending []}"
  shows "session_inv E tr0 fds xs (post (side_read E i) x)"
proof -
  define d where "d = se_sides x ! i"
  have sock: "sd_socket d = fds ! i" using inv i by (auto simp: session_inv_def d_def)
  have other: "fds ! (1 - i) \<noteq> fds ! i" using i fds by (cases i) auto
  define x1 where "x1 = x\<lparr>se_srv := se_srv x\<lparr>sm_world := snd (sv_recv E (fds ! i) READ_LEN (sm_world (se_srv x)))\<rparr>\<rparr>"
  have x1: "session_inv E tr0 fds xs x1" by (rule session_inv_world [OF inv]) (simp_all add: x1_def)
  have now: "crypted E (xs ! i) chunks = (out, Some (sd_transformer d))"
    if "side_ok E (xs ! i) chunks out d" for chunks out
    using that pc by (auto simp: side_ok_def d_def)
  show ?thesis
  proof (cases "\<exists>bs. fst (sv_recv E (fds ! i) READ_LEN (sm_world (se_srv x))) = Received bs \<and> bs \<noteq> []")
    case False
    then have "post (side_read E i) x = post (side_exit i) x1"
      using sock by (auto simp: side_read_def d_def x1_def split: net_recv.split)
    then show ?thesis using inv_side_exit [OF x1 i] by simp
  next
    case True
    then obtain bs where bs: "fst (sv_recv E (fds ! i) READ_LEN (sm_world (se_srv x))) = Received bs" "bs \<noteq> []" by blast
    define x2 where "x2 = x1\<lparr>se_srv := se_srv x1\<lparr>sm_trace := sm_trace (se_srv x) @ [Sv_received (fds ! i) bs]\<rparr>\<rparr>"
    have p: "post (side_read E i) x = post (side_transform E i bs) x2"
      using sock bs by (simp add: side_read_def d_def x1_def x2_def)
    have step: "session_inv E tr0 fds xs x'"
      if "se_sides x' = (se_sides x)[i := d']" "sm_trace (se_srv x') = sm_trace (se_srv x) @ [Sv_received (fds ! i) bs]"
        "sd_socket d' = sd_socket d"
        "\<And>chunks out. crypted E (xs ! i) chunks = (out, Some (sd_transformer d)) \<Longrightarrow> side_ok E (xs ! i) (chunks @ [bs]) out d'"
      for x' d'
      by (rule session_inv_step [OF inv i that(1,2)]) (use that(3,4) now other in \<open>auto simp: d_def\<close>)
    show ?thesis
    proof (cases "sd_transformer d")
      case None
      show ?thesis unfolding p
        by (rule step [where d' = "d\<lparr>sd_pc := Sending bs\<rparr>"])
           (use None in \<open>simp_all add: side_transform_def x2_def x1_def d_def side_ok_def crypted_snoc\<close>)
    next
      case (Some t)
      show ?thesis
      proof (cases "sv_crypt E t bs")
        case (Inl code)
        show ?thesis unfolding p
          by (rule step [where d' = "d\<lparr>sd_pc := Gone\<rparr>"])
             (use Some Inl in \<open>simp_all add: side_transform_def side_exit_def x2_def x1_def d_def side_ok_def crypted_snoc\<close>)
      next
        case (Inr r)
        then show ?thesis unfolding p
          by (cases r, intro step [where d' = "d\<lparr>sd_transformer := Some (fst r), sd_pc := Sending (snd r)\<rparr>"])
             (use Some in \<open>simp_all add: side_transform_def x2_def x1_def d_def side_ok_def crypted_snoc\<close>)
      qed
    qed
  qed
qed

lemma inv_side_send:
  fixes E :: "('w, 'k) srv_env"
  assumes inv: "session_inv E tr0 fds xs x" and i: "i < 2" and fds: "fds ! 0 \<noteq> fds ! 1"
    and pc: "sd_pc (se_sides x ! i) = Sending bs"
  shows "session_inv E tr0 fds xs (post (side_send E i bs) x)"
proof -
  define d where "d = se_sides x ! i"
  define fd where "fd = fds ! (1 - i)"
  have sock: "sd_socket (se_sides x ! (1 - i)) = fd" using inv i by (auto simp: session_inv_def fd_def)
  have other: "fd \<noteq> fds ! i" using i fds unfolding fd_def by (cases i) auto
  define x1 where "x1 = x\<lparr>se_srv := se_srv x\<lparr>sm_world := snd (sv_send E fd bs (sm_world (se_srv x)))\<rparr>\<rparr>"
  have x1: "session_inv E tr0 fds xs x1" by (rule session_inv_world [OF inv]) (simp_all add: x1_def)
  show ?thesis
  proof (cases "fst (sv_send E fd bs (sm_world (se_srv x)))")
    case (Net_sent n)
    show ?thesis
      by (rule session_inv_step [OF inv i, where d = "d\<lparr>sd_pc := Sending (drop n bs)\<rparr>" and es = "[Sv_sent fd (take n bs)]"])
         (use Net_sent sock other pc in \<open>simp_all add: side_send_def d_def fd_def side_ok_def\<close>)
  next
    case Net_want_write
    then have "post (side_send E i bs) x = x1" using sock by (simp add: side_send_def x1_def)
    then show ?thesis using x1 by simp
  next
    case (Net_error code)
    then have "post (side_send E i bs) x = post (side_exit i) x1" using sock by (simp add: side_send_def x1_def)
    then show ?thesis using inv_side_exit [OF x1 i] by simp
  qed
qed

lemma inv_side_handle [io_intro]:
  assumes "i < 2" "fds ! 0 \<noteq> fds ! 1"
  shows "state_io_rel (keeps (session_inv E tr0 fds xs)) (srv_side_handle E i)"
proof (rule keepsI)
  fix x assume inv: "session_inv E tr0 fds xs x"
  show "session_inv E tr0 fds xs (post (srv_side_handle E i) x)"
    using inv inv_side_read [OF inv assms] inv_side_send [OF inv assms]
    by (auto simp: srv_side_handle_def split: side_pc.split)
qed

lemma inv_prims [io_intro]:
  "state_io_rel (keeps (session_inv E tr0 fds xs)) (on_srv (sx f))"
  "state_io_rel (keeps (session_inv E tr0 fds xs)) (on_srv sv_diverge)"
  by (auto intro!: keepsI elim: session_inv_world)

lemma inv_report [io_intro]: "state_io_rel (keeps (session_inv E tr0 fds xs)) (on_srv (report_started p))"
proof (rule keepsI)
  fix x assume inv: "session_inv E tr0 fds xs x"
  define es :: "'b srv_event list" where
    "es = Sv_reported # (if sp_ready_fd p \<ge> 0 \<and> \<not> sm_reported (se_srv x) then [Sv_ready (sp_ready_fd p)] else [])"
  have es: "handles es = []" "received_from fd es = []" "sent_to fd es = []" for fd
    by (simp_all add: es_def handles_def received_from_def sent_to_def List.map_filter_def)
  have len: "length (se_sides x) = 2" using inv by (simp add: session_inv_def)
  show "session_inv E tr0 fds xs (post (on_srv (report_started p)) x)"
    by (rule session_inv_step [OF inv, where i = 0 and d = "se_sides x ! 0" and es = es])
       (use es len in \<open>simp_all add: report_started_def es_def\<close>)
qed

lemma io_case_sched [io_rule]:
  "state_io_rel P m \<Longrightarrow> state_io_rel P a \<Longrightarrow> state_io_rel P b \<Longrightarrow>
   state_io_rel P (case z of Run_main \<Rightarrow> m | Run_a \<Rightarrow> a | Run_b \<Rightarrow> b)"
  by (cases z) simp_all

lemma inv_run_threads [io_intro]:
  assumes "fds ! 0 \<noteq> fds ! 1"
  shows "state_io_rel (keeps (session_inv E tr0 fds xs)) (run_threads fuel E threads)"
proof (induction fuel)
  case 0
  show ?case by (simp, intro io_intro)
next
  case (Suc fuel)
  show ?case unfolding run_threads.simps by (intro io_rule io_intro Suc assms) simp_all
qed

lemma inv_await_exit [io_intro]:
  assumes "fds ! 0 \<noteq> fds ! 1"
  shows "state_io_rel (keeps (session_inv E tr0 fds xs)) (await_exit fuel E)"
proof (induction fuel)
  case 0
  show ?case by (simp, intro io_rule io_intro)
next
  case (Suc fuel)
  show ?case unfolding await_exit.simps by (intro io_rule io_intro Suc assms)
qed

lemma inv_run_side_threads:
  assumes "fds ! 0 \<noteq> fds ! 1"
  shows "state_io_rel (keeps (session_inv E tr0 fds xs)) (run_side_threads E p ready)"
  unfolding run_side_threads_def wait_threads_def by (intro io_rule io_intro assms)

section \<open>A whole session\<close>

text \<open>Authentication only sends and receives on its socket.\<close>

definition on_socket :: "int \<Rightarrow> ('w, 'k) srv_state \<Rightarrow> ('w, 'k) srv_state \<Rightarrow> bool" where
  "on_socket fd s s' \<longleftrightarrow> (\<exists>es. sm_trace s' = sm_trace s @ es \<and>
     list_all (\<lambda>e. (\<exists>bs. e = Sv_sent fd bs) \<or> (\<exists>bs. e = Sv_received fd bs)) es)"

lemma on_socket_preorder [io_rule]: "preorder_rel (on_socket fd)"
proof (rule preorder_relI)
  show "on_socket fd s s" for s :: "('w, 'k) srv_state" by (auto simp: on_socket_def intro: exI [of _ "[]"])
next
  fix s t u :: "('w, 'k) srv_state" assume "on_socket fd s t" "on_socket fd t u"
  then obtain es es' where "sm_trace t = sm_trace s @ es" "sm_trace u = sm_trace t @ es'"
    "list_all (\<lambda>e. (\<exists>bs. e = Sv_sent fd bs) \<or> (\<exists>bs. e = Sv_received fd bs)) (es @ es')"
    unfolding on_socket_def by fastforce
  then show "on_socket fd s u" unfolding on_socket_def by (intro exI [of _ "es @ es'"]) simp
qed

lemma on_socket_prims [io_intro]:
  "state_io_rel (on_socket fd) (sx f)" "state_io_rel (on_socket fd) (sv_emit (Sv_sent fd bs))"
  "state_io_rel (on_socket fd) (sv_emit (Sv_received fd bs))" "state_io_rel (on_socket fd) sv_diverge"
  by (auto simp: state_io_rel_post on_socket_def intro: exI [of _ "[]"])

lemma on_socket_events:
  "list_all (\<lambda>e. (\<exists>bs. e = Sv_sent fd bs) \<or> (\<exists>bs. e = Sv_received fd bs)) es \<Longrightarrow>
   handles es = [] \<and> (f \<noteq> fd \<longrightarrow> received_from f es = [] \<and> sent_to f es = [])"
proof (induction es rule: rev_induct)
  case (snoc e es)
  then show ?case by auto
qed simp

lemma on_socketD:
  "on_socket fd s s' \<Longrightarrow> \<exists>es. sm_trace s' = sm_trace s @ es \<and> handles es = [] \<and>
     (\<forall>f. f \<noteq> fd \<longrightarrow> received_from f es = [] \<and> sent_to f es = [])"
  unfolding on_socket_def using on_socket_events by blast

lemma io_case_net_send [io_rule]:
  "(\<And>n. state_io_rel P (m n)) \<Longrightarrow> state_io_rel P a \<Longrightarrow> (\<And>c. state_io_rel P (b c)) \<Longrightarrow>
   state_io_rel P (case z of Net_sent n \<Rightarrow> m n | Net_want_write \<Rightarrow> a | Net_error c \<Rightarrow> b c)"
  by (cases z) simp_all

lemma on_socket_read_line [io_intro]: "state_io_rel (on_socket fd) (escr_read_line room E fd acc)"
proof (induction room arbitrary: acc)
  case 0
  show ?case by (simp, intro io_rule)
next
  case (Suc room)
  show ?case unfolding escr_read_line.simps by (intro io_rule io_intro Suc)
qed

lemma on_socket_send_loop [io_intro]: "state_io_rel (on_socket fd) (escr_send_loop k E fd bs)"
proof (induction k arbitrary: bs)
  case 0
  show ?case by (simp, intro io_rule)
next
  case (Suc k)
  show ?case unfolding escr_send_loop.simps by (intro io_rule io_intro Suc)
qed

lemma on_socket_authenticate: "state_io_rel (on_socket fd) (authenticate_session E p auth_string fd)"
  unfolding authenticate_session_def srv_escr_authenticate_def escr_respond_def srv_escr_build_response_def escr_send_all_def
    send_once_def
  by (intro io_rule io_intro)

text \<open>What the threads of a session made of the two streams; \<open>tr\<close> are the events while they ran.\<close>

definition bridged :: "('w, 'k) srv_env \<Rightarrow> int \<Rightarrow> int \<Rightarrow> 'k ciphers \<Rightarrow> 'k srv_event list \<Rightarrow> bool" where
  "bridged E a b ciphers tr \<longleftrightarrow> handles tr = [] \<and>
     prefix (sent_to b tr) (fst (crypted E (map_option fst ciphers) (received_from a tr))) \<and>
     prefix (sent_to a tr) (fst (crypted E (map_option snd ciphers) (received_from b tr)))"

lemma run_session_threads_bridged:
  assumes "a \<noteq> b"
  shows "\<exists>tr. sm_trace (post (run_session_threads E p a b ciphers ready) s) = sm_trace s @ tr \<and> bridged E a b ciphers tr"
proof -
  define x where "x = post (run_side_threads E p ready) (start_session a b ciphers s)"
  have p: "post (run_session_threads E p a b ciphers ready) s = se_srv x"
    by (simp add: run_session_threads_def x_def post_def case_prod_beta)
  let ?inv = "session_inv E (sm_trace s) [a, b] [map_option fst ciphers, map_option snd ciphers]"
  have "?inv (start_session a b ciphers s)"
    by (auto simp: session_inv_def start_session_def side_ok_def less_2_cases_iff intro!: exI [of _ "[]"])
  then have "?inv x" unfolding x_def using assms by (intro keepsD [OF inv_run_side_threads]) simp
  then obtain tr where tr: "sm_trace (se_srv x) = sm_trace s @ tr" "handles tr = []"
    and sides: "\<And>i. i < 2 \<Longrightarrow> side_ok E ([map_option fst ciphers, map_option snd ciphers] ! i)
      (received_from ([a, b] ! i) tr) (sent_to ([a, b] ! (1 - i)) tr) (se_sides x ! i)"
    unfolding session_inv_def by blast
  have "bridged E a b ciphers tr"
    using side_ok_prefix [OF sides [of 0]] side_ok_prefix [OF sides [of 1]] tr(2) by (simp add: bridged_def)
  with tr(1) show ?thesis unfolding p by blast
qed

text \<open>What \<open>send\<close> is documented to return: the number of bytes it took, which is not more than it was given, or
  a negative error.\<close>

definition sends_documented :: "('w, 'k) srv_env \<Rightarrow> bool" where
  "sends_documented E \<longleftrightarrow> (\<forall>fd bs w.
     case fst (sv_send E fd bs w) of Net_sent n \<Rightarrow> n \<le> length bs | Net_want_write \<Rightarrow> True | Net_error code \<Rightarrow> code < 0)"

lemma send_once_whole:
  assumes "sends_documented E"
  shows "res (send_once E fd bs) s \<le> int (length bs)"
    and "res (send_once E fd bs) s = int (length bs) \<Longrightarrow> sm_trace (post (send_once E fd bs) s) = sm_trace s @ [Sv_sent fd bs]"
proof -
  have d: "case fst (sv_send E fd bs (sm_world s)) of Net_sent n \<Rightarrow> n \<le> length bs | Net_want_write \<Rightarrow> True | Net_error code \<Rightarrow> code < 0"
    using assms by (simp add: sends_documented_def)
  show "res (send_once E fd bs) s \<le> int (length bs)"
    using d by (cases "fst (sv_send E fd bs (sm_world s))") (simp_all add: send_once_def send_result_def)
  show "sm_trace (post (send_once E fd bs) s) = sm_trace s @ [Sv_sent fd bs]" if "res (send_once E fd bs) s = int (length bs)"
    using d that by (cases "fst (sv_send E fd bs (sm_world s))") (simp_all add: send_once_def send_result_def)
qed

text \<open>A session socket whose authentication is over: a proper exchange of ESCR; or the whole auth string and a newline,
  if \<open>send\<close> works as documented; or nothing when no authentication is asked for.\<close>

definition authenticated :: "('w, 'k) srv_env \<Rightarrow> srv_params \<Rightarrow> string \<Rightarrow> int \<Rightarrow> 'k srv_event list \<Rightarrow> bool" where
  "authenticated E p auth_string fd tr \<longleftrightarrow>
     (if sp_escr_auth p then proper_exchange E fd p tr
      else if sp_rv_auth p then sends_documented E \<longrightarrow> tr = [Sv_sent fd (str_bytes auth_string), Sv_sent fd [10]]
      else tr = [])"

lemma authenticate_session_ok:
  assumes ok: "res (authenticate_session E p auth_string fd) s = 0"
    and tr: "sm_trace (post (authenticate_session E p auth_string fd) s) = sm_trace s @ tr"
  shows "authenticated E p auth_string fd tr"
proof (cases "sp_escr_auth p")
  case escr: True
  have "res (srv_escr_authenticate E fd p) s" using ok escr by (simp add: authenticate_session_def split: if_splits)
  from escr_authenticate_proper [OF this] tr escr show ?thesis by (auto simp: authenticated_def authenticate_session_def)
next
  case no_escr: False
  show ?thesis
  proof (cases "sp_rv_auth p")
    case auth: True
    define s1 where "s1 = post (send_once E fd (str_bytes auth_string)) s"
    have sum: "res (send_once E fd (str_bytes auth_string)) s + res (send_once E fd [10]) s1 = int (length auth_string) + 1"
      using ok no_escr auth by (simp add: authenticate_session_def s1_def split: if_splits)
    have tr': "sm_trace (post (send_once E fd [10]) s1) = sm_trace s @ tr"
      using tr no_escr auth by (simp add: authenticate_session_def s1_def)
    have "tr = [Sv_sent fd (str_bytes auth_string), Sv_sent fd [10]]" if d: "sends_documented E"
    proof -
      have len: "length (str_bytes auth_string) = length auth_string" by (simp add: str_bytes_def)
      have "res (send_once E fd (str_bytes auth_string)) s = int (length (str_bytes auth_string))"
        "res (send_once E fd [10]) s1 = int (length [10 :: u8])"
        using sum send_once_whole(1) [OF d, of fd "str_bytes auth_string" s] send_once_whole(1) [OF d, of fd "[10]" s1] len by simp_all
      from send_once_whole(2) [OF d this(1)] send_once_whole(2) [OF d this(2)] tr' show ?thesis by (simp add: s1_def)
    qed
    then show ?thesis using no_escr auth by (simp add: authenticated_def)
  qed (use tr no_escr in \<open>simp add: authenticated_def authenticate_session_def\<close>)
qed

lemma session_linked_phases:
  assumes "a \<noteq> b"
  shows "\<exists>pre mid. sm_trace (post (session_linked E p auth_string a b ciphers ready) s) = sm_trace s @ pre @ mid \<and>
    handles pre = [] \<and> received_from a pre = [] \<and> sent_to a pre = [] \<and> bridged E a b ciphers mid \<and>
    (mid = [] \<or> authenticated E p auth_string b pre)"
proof -
  define s1 where "s1 = post (authenticate_session E p auth_string b) s"
  define r where "r = res (authenticate_session E p auth_string b) s"
  have "on_socket b s s1" unfolding s1_def by (rule io_relD [OF on_socket_authenticate])
  then obtain pre where pre: "sm_trace s1 = sm_trace s @ pre" "handles pre = []" "received_from a pre = []" "sent_to a pre = []"
    using on_socketD assms by blast
  show ?thesis
  proof (cases "r = 0")
    case False
    then have "post (session_linked E p auth_string a b ciphers ready) s = s1"
      by (simp add: session_linked_def s1_def r_def)
    moreover have "bridged E a b ciphers []" by (simp add: bridged_def)
    ultimately show ?thesis using pre by (intro exI [of _ pre] exI [of _ "[]"]) simp
  next
    case True
    have q: "post (session_linked E p auth_string a b ciphers ready) s = post (run_session_threads E p a b ciphers ready) s1"
      using True by (simp add: session_linked_def s1_def r_def)
    obtain mid where mid: "sm_trace (post (run_session_threads E p a b ciphers ready) s1) = sm_trace s1 @ mid"
        "bridged E a b ciphers mid"
      using run_session_threads_bridged [OF assms] by blast
    have "authenticated E p auth_string b pre"
      by (rule authenticate_session_ok) (use True pre(1) in \<open>simp_all add: r_def s1_def\<close>)
    then show ?thesis using pre mid unfolding q by (intro exI [of _ pre] exI [of _ mid]) simp
  qed
qed

text \<open>Events are only ever added.\<close>

definition grows :: "('w, 'k) srv_state \<Rightarrow> ('w, 'k) srv_state \<Rightarrow> bool" where
  "grows s s' \<longleftrightarrow> (\<exists>es. sm_trace s' = sm_trace s @ es)"

definition session_grows :: "('w, 'k) session \<Rightarrow> ('w, 'k) session \<Rightarrow> bool" where
  "session_grows x x' \<longleftrightarrow> grows (se_srv x) (se_srv x')"

lemma grows_trans: "grows s t \<Longrightarrow> grows t u \<Longrightarrow> grows s u"
  by (auto simp: grows_def)

lemma grows_preorder [io_rule]: "preorder_rel grows" "preorder_rel session_grows"
  by (auto intro!: preorder_relI simp: session_grows_def intro: grows_trans) (auto simp: grows_def)

lemma grows_prims [io_intro]:
  "state_io_rel grows (sx f)" "state_io_rel grows (sv_emit e)" "state_io_rel grows sv_diverge"
  "state_io_rel grows (modify_st (sm_reported_update g))"
  by (auto simp: state_io_rel_post grows_def)

lemma grows_on_srv [io_intro]: "state_io_rel grows m \<Longrightarrow> state_io_rel session_grows (on_srv m)"
  by (simp add: state_io_rel_post session_grows_def)

lemma session_grows_prims [io_intro]:
  "state_io_rel session_grows (set_side i f)" "state_io_rel session_grows (modify_st (se_pipe_update g))"
  by (auto simp: state_io_rel_post session_grows_def grows_def)

lemma grows_report [io_intro]: "state_io_rel grows (report_started p)"
  unfolding report_started_def by (intro io_rule io_intro)

lemma io_case_side_pc [io_rule]:
  "state_io_rel P a \<Longrightarrow> (\<And>bs. state_io_rel P (b bs)) \<Longrightarrow> state_io_rel P c \<Longrightarrow>
   state_io_rel P (case z of Reading \<Rightarrow> a | Sending bs \<Rightarrow> b bs | Gone \<Rightarrow> c)"
  by (cases z) simp_all

lemma session_grows_handle [io_intro]: "state_io_rel session_grows (srv_side_handle E i)"
  unfolding srv_side_handle_def side_read_def side_send_def side_transform_def side_exit_def
  by (intro io_rule io_intro)

lemma session_grows_run [io_intro]: "state_io_rel session_grows (run_threads fuel E threads)"
proof (induction fuel)
  case 0
  show ?case by (simp, intro io_intro)
next
  case (Suc fuel)
  show ?case unfolding run_threads.simps by (intro io_rule io_intro Suc)
qed

lemma session_grows_await [io_intro]: "state_io_rel session_grows (await_exit fuel E)"
proof (induction fuel)
  case 0
  show ?case by (simp, intro io_rule io_intro)
next
  case (Suc fuel)
  show ?case unfolding await_exit.simps by (intro io_rule io_intro Suc)
qed

lemma session_grows_threads: "state_io_rel session_grows (run_side_threads E p ready)"
  unfolding run_side_threads_def wait_threads_def by (intro io_rule io_intro)

lemma grows_threads [io_intro]: "state_io_rel grows (run_session_threads E p a b ciphers ready)"
proof -
  have "grows s (post (run_session_threads E p a b ciphers ready) s)" for s
    using io_relD [OF session_grows_threads, of "start_session a b ciphers s" E p ready]
    by (simp add: run_session_threads_def post_def case_prod_beta session_grows_def start_session_def)
  then show ?thesis by (simp add: state_io_rel_post)
qed

lemma on_socket_grows: "state_io_rel (on_socket fd) m \<Longrightarrow> state_io_rel grows m"
  by (auto simp: state_io_rel_post on_socket_def grows_def)

lemma grows_linked: "state_io_rel grows (session_linked E p auth_string a b ciphers ready)"
  unfolding session_linked_def by (intro io_rule io_intro on_socket_grows [OF on_socket_authenticate])

text \<open>The phases of a session whose two sides are connected.\<close>

definition session_phases ::
  "('w, 'k) srv_env \<Rightarrow> srv_params \<Rightarrow> string \<Rightarrow> int \<Rightarrow> int \<Rightarrow> 'k ciphers \<Rightarrow> 'k srv_event list \<Rightarrow> bool" where
  "session_phases E p auth_string a b ciphers tr \<longleftrightarrow>
     (\<exists>pre mid. tr = pre @ mid \<and> handles pre = [] \<and> received_from a pre = [] \<and> sent_to a pre = [] \<and>
        bridged E a b ciphers mid \<and> (mid = [] \<or> authenticated E p auth_string b pre))"

lemma session_linked_trace:
  "\<exists>tr. sm_trace (post (session_linked E p auth_string a b ciphers ready) s) = sm_trace s @ tr \<and>
     (a = b \<or> session_phases E p auth_string a b ciphers tr)"
proof (cases "a = b")
  case True
  then show ?thesis using io_relD [OF grows_linked] unfolding grows_def by blast
next
  case False
  obtain pre mid where "sm_trace (post (session_linked E p auth_string a b ciphers ready) s) = sm_trace s @ pre @ mid"
    "handles pre = [] \<and> received_from a pre = [] \<and> sent_to a pre = [] \<and> bridged E a b ciphers mid \<and>
     (mid = [] \<or> authenticated E p auth_string b pre)" using session_linked_phases [OF False] by blast
  then show ?thesis unfolding session_phases_def by blast
qed

lemma socket_to_socket_trace:
  fixes E :: "('w, 'k) srv_env" and p :: srv_params and ciphers :: "'k ciphers"
  defines "ciphers' \<equiv> if sp_rv_e2ee p then ciphers else None"
  shows "\<exists>tr. sm_trace (post (socket_to_socket E p auth_string ciphers ready) s) = sm_trace s @ tr \<and>
     (tr = [] \<or> (\<exists>a. tr = [Sv_connected a, Sv_closed a]) \<or>
      (\<exists>a b evs. tr = [Sv_connected a, Sv_connected b] @ evs @ [Sv_closed a, Sv_closed b] \<and>
        (a = b \<or> session_phases E p auth_string a b ciphers' evs)))"
proof -
  define host where "host = (case sp_host p of Some h \<Rightarrow> h | None \<Rightarrow> [])"
  define ra where "ra = sv_connect E (sp_local_host p) (sp_local_port p) (sm_world s)"
  define rb where "rb = sv_connect E host (sp_port p) (snd ra)"
  show ?thesis
  proof (cases "fst ra")
    case (Inl code)
    then show ?thesis by (intro exI [of _ "[]"]) (simp add: socket_to_socket_def srv_side_init_def ra_def)
  next
    case a: (Inr a)
    show ?thesis
    proof (cases "fst rb")
      case (Inl code)
      with a show ?thesis
        by (intro exI [of _ "[Sv_connected a, Sv_closed a]"])
           (simp add: socket_to_socket_def srv_side_init_def srv_side_free_def ra_def rb_def host_def [symmetric])
    next
      case b: (Inr b)
      define pr where "pr = sv_pipe E (snd rb)"
      define s2 where "s2 = s\<lparr>sm_trace := sm_trace s @ [Sv_connected a, Sv_connected b], sm_world := snd pr\<rparr>"
      show ?thesis
      proof (cases "fst pr = 0")
        case False
        have "bridged E a b ciphers' []" by (simp add: bridged_def)
        then have "session_phases E p auth_string a b ciphers' []" by (simp add: session_phases_def)
        with False a b show ?thesis
          by (intro exI [of _ "[Sv_connected a, Sv_connected b] @ [] @ [Sv_closed a, Sv_closed b]"])
             (auto simp: socket_to_socket_def srv_side_init_def srv_side_free_def ra_def rb_def pr_def host_def [symmetric])
      next
        case True
        define m where "m = session_linked E p auth_string a b ciphers' ready"
        obtain evs where evs: "sm_trace (post m s2) = sm_trace s2 @ evs" "a = b \<or> session_phases E p auth_string a b ciphers' evs"
          using session_linked_trace unfolding m_def by blast
        have "sm_trace (post (socket_to_socket E p auth_string ciphers ready) s) =
            sm_trace (post m s2) @ [Sv_closed a, Sv_closed b]"
          using True a b
          by (simp add: socket_to_socket_def srv_side_init_def srv_side_free_def ra_def rb_def pr_def host_def [symmetric]
            m_def s2_def ciphers'_def)
        then have "sm_trace (post (socket_to_socket E p auth_string ciphers ready) s) =
            sm_trace s @ [Sv_connected a, Sv_connected b] @ evs @ [Sv_closed a, Sv_closed b]"
          using evs(1) by (simp add: s2_def)
        with evs(2) show ?thesis by blast
      qed
    qed
  qed
qed

text \<open>C35: a session carries bytes between its two sockets unharmed, and only after it has authenticated to the relay.
  Whatever the two side threads, the main thread and the network do, and in whatever order: when a side cannot be connected,
  all that happens is that the other is closed again. Otherwise nothing is read from the local service or written to it
  before authentication is over. If anything passes then, the authentication was what the parameters ask for: with ESCR a
  proper exchange; with an auth string, if \<open>send\<close> never claims more bytes than it was given and reports errors as
  negative numbers, exactly the whole auth string and a newline; and nothing was sent or read when none is asked for. From
  then on what was sent to the relay is a prefix of what the local service sent, through the encrypter, and what was sent to
  the local service is a prefix of what the relay sent, through the decrypter. In the end both sockets are closed, each once.
  The two sockets are different, as an operating system makes them.\<close>

theorem srv_session_streams:
  "\<exists>tr. sm_trace (post (socket_to_socket E p auth_string ciphers ready) s) = sm_trace s @ tr \<and>
     (tr = [] \<or> (\<exists>a. tr = [Sv_connected a, Sv_closed a]) \<or>
      (\<exists>a b evs. tr = [Sv_connected a, Sv_connected b] @ evs @ [Sv_closed a, Sv_closed b] \<and>
         (a \<noteq> b \<longrightarrow> (\<exists>pre mid. evs = pre @ mid \<and> handles (pre @ mid) = [] \<and> received_from a pre = [] \<and> sent_to a pre = [] \<and>
            (mid = [] \<or>
              (if sp_escr_auth p then proper_exchange E b p pre
               else if sp_rv_auth p then sends_documented E \<longrightarrow> pre = [Sv_sent b (str_bytes auth_string), Sv_sent b [10]]
               else pre = [])) \<and>
            prefix (sent_to b mid)
              (fst (crypted E (map_option fst (if sp_rv_e2ee p then ciphers else None)) (received_from a mid))) \<and>
            prefix (sent_to a mid)
              (fst (crypted E (map_option snd (if sp_rv_e2ee p then ciphers else None)) (received_from b mid)))))))"
proof -
  let ?c = "if sp_rv_e2ee p then ciphers else None"
  obtain tr where tr: "sm_trace (post (socket_to_socket E p auth_string ciphers ready) s) = sm_trace s @ tr"
    and shape: "tr = [] \<or> (\<exists>a. tr = [Sv_connected a, Sv_closed a]) \<or>
      (\<exists>a b evs. tr = [Sv_connected a, Sv_connected b] @ evs @ [Sv_closed a, Sv_closed b] \<and>
        (a = b \<or> session_phases E p auth_string a b ?c evs))"
    using socket_to_socket_trace by blast
  show ?thesis
  proof (intro exI [of _ tr] conjI tr, use shape in \<open>elim disjE exE conjE\<close>, goal_cases)
    case (4 a b evs)
    then obtain pre mid where "evs = pre @ mid" "handles pre = []" "received_from a pre = []" "sent_to a pre = []"
      "bridged E a b ?c mid" "mid = [] \<or> authenticated E p auth_string b pre" unfolding session_phases_def by blast
    then have "\<exists>pre mid. evs = pre @ mid \<and> handles (pre @ mid) = [] \<and> received_from a pre = [] \<and> sent_to a pre = [] \<and>
        (mid = [] \<or>
          (if sp_escr_auth p then proper_exchange E b p pre
           else if sp_rv_auth p then sends_documented E \<longrightarrow> pre = [Sv_sent b (str_bytes auth_string), Sv_sent b [10]]
           else pre = [])) \<and>
        prefix (sent_to b mid) (fst (crypted E (map_option fst ?c) (received_from a mid))) \<and>
        prefix (sent_to a mid) (fst (crypted E (map_option snd ?c) (received_from b mid)))"
      unfolding bridged_def authenticated_def handles_simps by blast
    with 4(1) show ?case by blast
  qed simp_all
qed

text \<open>A session that authenticates with the auth string \<open>k\<close>; then two bytes come from the local service, of
  which one is sent before the relay, after a byte of its own, closes the connection.\<close>

definition example_session_env :: "(nat, bytes) srv_env" where
  "example_session_env = example_srv_env\<lparr>sv_connect := (\<lambda>_ _ w. (Inr (int w + 3), w + 1)),
     sv_recv := (\<lambda>fd _ w. (if fd = 3 then Received [1, 2] else if w = 10 then Received [7] else Recv_closed, w + 1)),
     sv_send := (\<lambda>_ bs w. (Net_sent (min 1 (length bs)), w + 1)),
     sv_sched := (\<lambda>w. (if w = 4 \<or> w = 7 then Run_a else if w = 9 \<or> w = 12 \<or> w = 14 then Run_b else Run_main, w + 1)),
     sv_crypt := (\<lambda>st bs. Inr (st, map (\<lambda>b. b + 1) bs)), sv_fuel := 3\<rparr>"

definition example_session_params :: srv_params where
  "example_session_params = example_escr_params\<lparr>sp_escr_auth := False, sp_rv_auth := True, sp_rv_e2ee := True\<rparr>"

definition example_ciphers :: "bytes ciphers" where
  "example_ciphers = (let t = \<lparr>ctr_ctx = [], ctr_nonce_counter = [], ctr_stream_block = [], ctr_nc_off = 0\<rparr> in Some (t, t))"

definition example_session :: "(nat, bytes) srv_state" where
  "example_session = post (socket_to_socket example_session_env example_session_params ''k'' example_ciphers False) (srv_start 0)"

lemma example_session_trace:
  "sm_trace example_session = [Sv_connected 3, Sv_connected 4, Sv_sent 4 [107], Sv_sent 4 [10], Sv_received 3 [1, 2],
     Sv_sent 4 [2], Sv_received 4 [7], Sv_reported, Sv_sent 3 [8], Sv_closed 3, Sv_closed 4] \<and> \<not> sm_diverged example_session"
  by code_simp

lemma srv_session_streams_witness:
  "\<exists>evs. sm_trace example_session = [Sv_connected 3, Sv_connected 4] @ evs @ [Sv_closed 3, Sv_closed 4] \<and>
     sent_to 4 evs = [107, 10, 2] \<and>
     (\<exists>pre mid. evs = pre @ mid \<and> (mid = [] \<or> sent_to 4 pre = [107, 10]) \<and> prefix (sent_to 4 mid)
        (fst (crypted example_session_env (map_option fst example_ciphers) (received_from 3 mid))))"
proof -
  define evs :: "bytes srv_event list" where
    "evs = [Sv_sent 4 [107], Sv_sent 4 [10], Sv_received 3 [1, 2], Sv_sent 4 [2], Sv_received 4 [7], Sv_reported, Sv_sent 3 [8]]"
  have tr: "sm_trace example_session = [Sv_connected 3, Sv_connected 4] @ evs @ [Sv_closed 3, Sv_closed 4]"
    using example_session_trace by (simp add: evs_def)
  have sent: "sent_to 4 evs = [107, 10, 2]" by (simp add: evs_def sent_to_def List.map_filter_def)
  have start: "sm_trace (srv_start 0 :: (nat, bytes) srv_state) = []" by (simp add: srv_start_def)
  have enc: "(if sp_rv_e2ee example_session_params then example_ciphers else None) = example_ciphers"
    "\<not> sp_escr_auth example_session_params" "sp_rv_auth example_session_params"
    by (simp_all add: example_session_params_def)
  have doc: "sends_documented example_session_env" by (simp add: sends_documented_def example_session_env_def)
  have k: "str_bytes ''k'' = [107]" by code_simp
  have "\<exists>pre mid. evs = pre @ mid \<and> (mid = [] \<or> sent_to 4 pre = [107, 10]) \<and> prefix (sent_to 4 mid)
        (fst (crypted example_session_env (map_option fst example_ciphers) (received_from 3 mid)))"
    using srv_session_streams [of example_session_env example_session_params "''k''" example_ciphers False "srv_start 0"] doc
    unfolding example_session_def [symmetric] tr start enc(1) k
    by (simp add: enc(2,3)) (force simp: evs_def sent_to_def List.map_filter_def)
  with tr sent show ?thesis by blast
qed

end
