(* ===== verification/C_Srv_Main.thy ===== *)
theory C_Srv_Main
  imports C_Srv_Session
begin

text \<open>
  The C relay as a process: its parameters (\<open>params.c\<close>, from what \<open>argparse\<close> leaves and the environment variables), and
  \<open>run_srv\<close> of \<open>srv.c\<close>, with one session or with a control channel that starts sessions. The threads of sessions a control
  channel starts are \<open>socket_to_socket\<close> each; here they are events of the control loop.
\<close>

section \<open>Parameters\<close>

definition apply_default_values_to_srv_params :: srv_params where
  "apply_default_values_to_srv_params = \<lparr>sp_host = None, sp_port = 0, sp_local_port = 22, sp_local_host = ''localhost'',
     sp_bind_local_port = False, sp_rv_auth = False, sp_rv_e2ee = False, sp_multi = False,
     sp_timeout = SRV_DEFAULT_TIMEOUT_SECONDS, sp_rvd_auth_string = None, sp_escr_auth = False, sp_escr_is_side_a = False,
     sp_escr_session_id = None, sp_escr_aes_key_base64 = None, sp_escr_signing_key_uri = None, sp_escr_signing_key = None,
     sp_aes_key_c2d = None, sp_aes_iv_c2d = None, sp_aes_key_d2c = None, sp_aes_iv_d2c = None, sp_ready_fd = - 1\<rparr>"

text \<open>What \<open>argparse_parse\<close> stores: an option that was not given leaves its variable alone. \<open>--bind-local-port\<close> is
  compiled out.\<close>

record srv_options =
  so_host :: "string option"
  so_port :: "int option"
  so_local_port :: "int option"
  so_local_host :: "string option"
  so_rv_auth :: bool
  so_relay_auth_mode :: "string option"
  so_rv_e2ee :: bool
  so_multi :: bool
  so_timeout :: "int option"

text \<open>\<open>srv_env_t\<close>, which a caller in the same process may pass.\<close>

record srv_environment =
  ev_rvd_auth_string :: "string option"
  ev_aes_key_c2d :: "string option"
  ev_aes_iv_c2d :: "string option"
  ev_aes_key_d2c :: "string option"
  ev_aes_iv_d2c :: "string option"

definition or_else :: "'a option \<Rightarrow> 'a option \<Rightarrow> 'a option" where
  "or_else x y = (case x of Some v \<Rightarrow> Some v | None \<Rightarrow> y)"

definition apply_options :: "srv_options \<Rightarrow> srv_params \<Rightarrow> srv_params" where
  "apply_options opts p = p\<lparr>sp_host := or_else (so_host opts) (sp_host p),
     sp_local_host := (case so_local_host opts of Some h \<Rightarrow> h | None \<Rightarrow> sp_local_host p),
     sp_rv_auth := (so_rv_auth opts \<or> sp_rv_auth p), sp_rv_e2ee := (so_rv_e2ee opts \<or> sp_rv_e2ee p),
     sp_multi := (so_multi opts \<or> sp_multi p), sp_timeout := (case so_timeout opts of Some t \<Rightarrow> t | None \<Rightarrow> sp_timeout p)\<rparr>"

text \<open>The ports are parsed into \<open>int\<close>s and checked before they are stored; \<open>None\<close> is the result 1 throughout.\<close>

definition apply_ports :: "srv_options \<Rightarrow> srv_params \<Rightarrow> srv_params option" where
  "apply_ports opts p =
     (let port = (case so_port opts of Some v \<Rightarrow> v | None \<Rightarrow> uint (sp_port p));
          local_port = (case so_local_port opts of Some v \<Rightarrow> v | None \<Rightarrow> uint (sp_local_port p))
      in if port < 0 \<or> port > 65535 \<or> local_port < 1 \<or> local_port > 65535 then None
         else Some (p\<lparr>sp_port := word_of_int port, sp_local_port := word_of_int local_port\<rparr>))"

text \<open>\<open>--relay-auth-mode escr\<close>; \<open>populate\<close> is \<open>atchops_rsa_key_populate_private_key\<close>, \<open>mem_ok\<close> whether there is memory for
  the key.\<close>

definition apply_escr ::
  "(string \<Rightarrow> rsa_key option) \<Rightarrow> bool \<Rightarrow> (string \<Rightarrow> string option) \<Rightarrow> srv_params \<Rightarrow> srv_params option" where
  "apply_escr populate mem_ok getenv p =
     (if sp_rv_auth p then None
      else case (getenv ''REMOTE_AUTH_ESCR_SESSION_ID'', getenv ''REMOTE_AUTH_ESCR_AES_KEY'',
                 getenv ''REMOTE_AUTH_ESCR_PUB_KEY_URI'', getenv ''REMOTE_AUTH_ESCR_SIGNING_PRIVKEY'',
                 getenv ''REMOTE_AUTH_ESCR_IS_SIDE_A'') of
          (Some session_id, Some aes_key, Some uri, Some privkey, Some side) \<Rightarrow>
            if side \<noteq> ''true'' \<and> side \<noteq> ''false'' then None
            else if \<not> mem_ok then None
            else case populate privkey of
                None \<Rightarrow> None
              | Some key \<Rightarrow> Some (p\<lparr>sp_escr_session_id := Some session_id, sp_escr_aes_key_base64 := Some aes_key,
                  sp_escr_signing_key_uri := Some uri, sp_escr_is_side_a := (side = ''true''),
                  sp_escr_signing_key := Some key, sp_escr_auth := True\<rparr>)
        | _ \<Rightarrow> None)"

definition apply_auth_mode ::
  "(string \<Rightarrow> rsa_key option) \<Rightarrow> bool \<Rightarrow> (string \<Rightarrow> string option) \<Rightarrow> srv_options \<Rightarrow> srv_params \<Rightarrow> srv_params option" where
  "apply_auth_mode populate mem_ok getenv opts p =
     (case so_relay_auth_mode opts of
        None \<Rightarrow> Some p
      | Some mode \<Rightarrow>
          if mode = ''escr'' then apply_escr populate mem_ok getenv p
          else if mode \<noteq> ''payload'' then None
          else Some p)"

definition load_auth_string :: "(string \<Rightarrow> string option) \<Rightarrow> srv_environment option \<Rightarrow> srv_params \<Rightarrow> srv_params option" where
  "load_auth_string getenv environment p =
     (if \<not> sp_rv_auth p then Some p
      else case or_else (Option.bind environment ev_rvd_auth_string) (getenv ''RV_AUTH'') of
          None \<Rightarrow> None
        | Some auth \<Rightarrow> Some (p\<lparr>sp_rvd_auth_string := Some auth\<rparr>))"

text \<open>The keys: the caller's, else the environment's, under the preferred or the legacy name. The key and the iv of
  the other direction come together or not at all.\<close>

definition load_session_keys :: "(string \<Rightarrow> string option) \<Rightarrow> srv_environment option \<Rightarrow> srv_params \<Rightarrow> srv_params option" where
  "load_session_keys getenv environment p =
     (let key = or_else (Option.bind environment ev_aes_key_c2d) (or_else (getenv ''RV_AES_C2D'') (getenv ''RV_AES''));
          iv = or_else (Option.bind environment ev_aes_iv_c2d) (or_else (getenv ''RV_IV_C2D'') (getenv ''RV_IV''));
          key2 = or_else (Option.bind environment ev_aes_key_d2c) (getenv ''RV_AES_D2C'');
          iv2 = or_else (Option.bind environment ev_aes_iv_d2c) (getenv ''RV_IV_D2C'')
      in if \<not> sp_rv_e2ee p then Some p
         else if key = None \<or> iv = None \<or> (key2 = None) \<noteq> (iv2 = None) then None
         else Some (p\<lparr>sp_aes_key_c2d := key, sp_aes_iv_c2d := iv, sp_aes_key_d2c := key2, sp_aes_iv_d2c := iv2\<rparr>))"

definition parse_srv_params ::
  "(string \<Rightarrow> rsa_key option) \<Rightarrow> bool \<Rightarrow> (string \<Rightarrow> string option) \<Rightarrow> srv_environment option \<Rightarrow> srv_options \<Rightarrow>
   srv_params \<Rightarrow> srv_params option" where
  "parse_srv_params populate mem_ok getenv environment opts p =
     (case apply_ports opts (apply_options opts p) of
        None \<Rightarrow> None
      | Some p1 \<Rightarrow>
          if sp_host p1 = None \<or> sp_port p1 = 0 then None
          else case apply_auth_mode populate mem_ok getenv opts p1 of
              None \<Rightarrow> None
            | Some p2 \<Rightarrow>
                (case load_auth_string getenv environment p2 of
                   None \<Rightarrow> None
                 | Some p3 \<Rightarrow> load_session_keys getenv environment p3))"

section \<open>Running\<close>

text \<open>\<open>srv_send_all\<close>: an interrupted send is repeated as often as the fuel allows.\<close>

fun srv_send_all :: "nat \<Rightarrow> ('w, 'k) srv_env \<Rightarrow> int \<Rightarrow> bytes \<Rightarrow> ('w, 'k, bool) sprog" where
  "srv_send_all 0 E fd bs = (if bs = [] then ret True else do { sv_diverge; ret False })"
| "srv_send_all (Suc fuel) E fd bs =
     (if bs = [] then ret True
      else do {
        r \<leftarrow> sx (sv_send E fd bs);
        case r of
          Net_want_write \<Rightarrow> srv_send_all fuel E fd bs
        | Net_error code \<Rightarrow> ret False
        | Net_sent n \<Rightarrow>
            if n = 0 then ret False
            else do { sv_emit (Sv_sent fd (take n bs)); srv_send_all fuel E fd (drop n bs) } })"

text \<open>A string that a correct set of parameters has; the code would read through NULL otherwise.\<close>

definition text_of :: "string option \<Rightarrow> string" where
  "text_of x = (case x of Some s \<Rightarrow> s | None \<Rightarrow> [])"

text \<open>The ciphers of the process, when it encrypts. \<open>None\<close> is a failure; the codes of the libraries become 1 below.\<close>

definition process_ciphers :: "('w, 'k) srv_env \<Rightarrow> srv_params \<Rightarrow> 'k ciphers option" where
  "process_ciphers E p =
     (if \<not> sp_rv_e2ee p then Some None
      else map_option Some (create_encrypter_and_decrypter E (text_of (sp_aes_key_c2d p)) (text_of (sp_aes_iv_c2d p))
        (sp_aes_key_d2c p) (sp_aes_iv_d2c p)))"

definition control_authenticate :: "('w, 'k) srv_env \<Rightarrow> srv_params \<Rightarrow> int \<Rightarrow> ('w, 'k, int) sprog" where
  "control_authenticate E p fd =
     (if sp_escr_auth p then do {
        ok \<leftarrow> srv_escr_authenticate E fd p;
        ret (if ok then 0 else 1) }
      else if sp_rv_auth p then do {
        ok1 \<leftarrow> srv_send_all (sv_fuel E) E fd (str_bytes (text_of (sp_rvd_auth_string p)));
        ok2 \<leftarrow> (if ok1 then srv_send_all (sv_fuel E) E fd [10] else ret False);
        ret (if ok2 then 0 else -1) }
      else ret 0)"

text \<open>From the report to the end of the control loop. The three buffers are allocated before any is looked at.\<close>

definition serve_control :: "('w, 'k) srv_env \<Rightarrow> srv_params \<Rightarrow> int \<Rightarrow> 'k ciphers \<Rightarrow> ('w, 'k, int) sprog" where
  "serve_control E p fd ciphers = do {
     report_started p;
     ok1 \<leftarrow> sx (sv_alloc E 4096);
     ok2 \<leftarrow> sx (sv_alloc E SRV_CONTROL_LINE_CAP);
     ok3 \<leftarrow> sx (sv_alloc E (SRV_CONTROL_LINE_CAP + 1));
     if \<not> ok1 \<or> \<not> ok2 \<or> \<not> ok3 then ret (-1)
     else do {
       now \<leftarrow> sx (sv_time E);
       modify_st (\<lambda>s. s\<lparr>sm_line := [], sm_decrypter := map_option snd ciphers, sm_idle_since := now\<rparr>);
       control_loop (sv_fuel E) E fd (if sp_timeout p > 0 then sp_timeout p else SRV_DEFAULT_TIMEOUT_SECONDS) } }"

definition run_srv_daemon_side_multi :: "('w, 'k) srv_env \<Rightarrow> srv_params \<Rightarrow> ('w, 'k, int) sprog" where
  "run_srv_daemon_side_multi E p =
     (case process_ciphers E p of
        None \<Rightarrow> ret 1
      | Some ciphers \<Rightarrow> do {
          r \<leftarrow> srv_side_init E (text_of (sp_host p)) (sp_port p);
          case r of
            Inl code \<Rightarrow> ret code
          | Inr fd \<Rightarrow> do {
              a \<leftarrow> control_authenticate E p fd;
              if a \<noteq> 0 then do { srv_side_free E fd; ret a }
              else do {
                code \<leftarrow> serve_control E p fd ciphers;
                srv_side_free E fd;
                ret code } } })"

definition run_srv_daemon_side_single :: "('w, 'k) srv_env \<Rightarrow> srv_params \<Rightarrow> ('w, 'k, int) sprog" where
  "run_srv_daemon_side_single E p =
     (case process_ciphers E p of
        None \<Rightarrow> ret 1
      | Some ciphers \<Rightarrow> socket_to_socket E p (text_of (sp_rvd_auth_string p)) ciphers False)"

text \<open>The client side is disabled: the process exits with 1.\<close>

definition run_srv :: "('w, 'k) srv_env \<Rightarrow> srv_params \<Rightarrow> ('w, 'k, int) sprog" where
  "run_srv E p =
     (if sp_bind_local_port p then ret 1
      else if \<not> sp_multi p then run_srv_daemon_side_single E p
      else run_srv_daemon_side_multi E p)"

section \<open>Parameters are complete\<close>

definition complete_params :: "srv_params \<Rightarrow> bool" where
  "complete_params p \<longleftrightarrow> sp_host p \<noteq> None \<and> sp_port p \<noteq> 0 \<and> sp_local_port p \<noteq> 0 \<and>
     (sp_rv_auth p \<longrightarrow> sp_rvd_auth_string p \<noteq> None \<and> \<not> sp_escr_auth p) \<and>
     (sp_escr_auth p \<longrightarrow> sp_escr_session_id p \<noteq> None \<and> sp_escr_aes_key_base64 p \<noteq> None \<and>
        sp_escr_signing_key_uri p \<noteq> None \<and> sp_escr_signing_key p \<noteq> None) \<and>
     (sp_rv_e2ee p \<longrightarrow> sp_aes_key_c2d p \<noteq> None \<and> sp_aes_iv_c2d p \<noteq> None \<and>
        (sp_aes_key_d2c p = None \<longleftrightarrow> sp_aes_iv_d2c p = None))"

text \<open>What each stage keeps of the others.\<close>

lemma port_nonzero: "1 \<le> v \<Longrightarrow> v \<le> 65535 \<Longrightarrow> (word_of_int v :: u16) \<noteq> 0"
  by (simp add: word_of_int_eq_0_iff zdvd_not_zless)

lemma parsed_params_complete:
  assumes "parse_srv_params populate mem_ok getenv environment opts apply_default_values_to_srv_params = Some p"
  shows "complete_params p"
proof -
  define p0 where "p0 = apply_options opts apply_default_values_to_srv_params"
  obtain p1 where p1: "apply_ports opts p0 = Some p1" "sp_host p1 \<noteq> None" "sp_port p1 \<noteq> 0"
    using assms by (auto simp: parse_srv_params_def p0_def split: option.splits if_splits)
  obtain p2 where p2: "apply_auth_mode populate mem_ok getenv opts p1 = Some p2"
    using assms p1 by (auto simp: parse_srv_params_def p0_def split: option.splits if_splits)
  obtain p3 where p3: "load_auth_string getenv environment p2 = Some p3" "load_session_keys getenv environment p3 = Some p"
    using assms p1 p2 by (auto simp: parse_srv_params_def p0_def split: option.splits if_splits)
  have e0: "\<not> sp_escr_auth p1" "sp_local_port p1 \<noteq> 0"
    using p1(1) port_nonzero
    by (auto simp: apply_ports_def p0_def apply_options_def apply_default_values_to_srv_params_def Let_def split: if_splits)
  have s2: "sp_host p2 = sp_host p1 \<and> sp_port p2 = sp_port p1 \<and> sp_local_port p2 = sp_local_port p1 \<and>
      sp_rv_auth p2 = sp_rv_auth p1 \<and> (sp_escr_auth p2 \<longrightarrow> \<not> sp_rv_auth p2 \<and> sp_escr_session_id p2 \<noteq> None \<and>
        sp_escr_aes_key_base64 p2 \<noteq> None \<and> sp_escr_signing_key_uri p2 \<noteq> None \<and> sp_escr_signing_key p2 \<noteq> None)"
    using p2 e0(1) by (auto simp: apply_auth_mode_def apply_escr_def split: option.splits if_splits)
  have s3: "p3 = p2\<lparr>sp_rvd_auth_string := sp_rvd_auth_string p3\<rparr> \<and> (sp_rv_auth p2 \<longrightarrow> sp_rvd_auth_string p3 \<noteq> None)"
    using p3(1) by (auto simp: load_auth_string_def split: option.splits if_splits)
  obtain auth where p3': "p3 = p2\<lparr>sp_rvd_auth_string := auth\<rparr>" "sp_rv_auth p2 \<longrightarrow> auth \<noteq> None" using s3 by blast
  show ?thesis using p3(2) p1(2,3) e0(2) s2 p3'(2)
    unfolding p3'(1) complete_params_def load_session_keys_def Let_def by (auto split: if_splits)
qed

section \<open>The control channel is authenticated\<close>

lemma srv_send_all_sends:
  fixes E :: "('w, 'k) srv_env"
  assumes "res (srv_send_all k E fd bs) s"
  shows "\<exists>sends. concat sends = bs \<and> sm_trace (post (srv_send_all k E fd bs) s) = sm_trace s @ map (Sv_sent fd) sends"
  using assms
proof (induction k arbitrary: bs s)
  case 0
  then show ?case by (intro exI [of _ "[]"]) (simp split: if_splits)
next
  case (Suc k)
  let ?r = "sv_send E fd bs (sm_world s)"
  show ?case
  proof (cases "bs = []")
    case True
    then show ?thesis by (intro exI [of _ "[]"]) simp
  next
    case False
    show ?thesis
    proof (cases "fst ?r")
      case (Net_sent n)
      then have n: "n \<noteq> 0" using Suc.prems False by (auto split: if_splits)
      define s2 where "s2 = s\<lparr>sm_world := snd ?r, sm_trace := sm_trace s @ [Sv_sent fd (take n bs)]\<rparr>"
      have p: "post (srv_send_all (Suc k) E fd bs) s = post (srv_send_all k E fd (drop n bs)) s2"
        and q: "res (srv_send_all (Suc k) E fd bs) s = res (srv_send_all k E fd (drop n bs)) s2"
        using n Net_sent False by (simp_all add: s2_def)
      with Suc.IH [of "drop n bs" s2] Suc.prems obtain sends where
        "concat sends = drop n bs" "sm_trace (post (srv_send_all k E fd (drop n bs)) s2) = sm_trace s2 @ map (Sv_sent fd) sends"
        by auto
      then show ?thesis unfolding p by (intro exI [of _ "take n bs # sends"]) (simp add: s2_def)
    next
      case Net_want_write
      define s2 where "s2 = s\<lparr>sm_world := snd ?r\<rparr>"
      have "res (srv_send_all k E fd bs) s2" using Suc.prems False Net_want_write by (simp add: s2_def)
      from Suc.IH [OF this] show ?thesis using False Net_want_write by (simp add: s2_def)
    next
      case (Net_error c)
      with Suc.prems False show ?thesis by simp
    qed
  qed
qed

lemma on_socket_send_all [io_intro]: "state_io_rel (on_socket fd) (srv_send_all k E fd bs)"
proof (induction k arbitrary: bs)
  case 0
  show ?case unfolding srv_send_all.simps by (intro io_rule io_intro)
next
  case (Suc k)
  show ?case unfolding srv_send_all.simps by (intro io_rule io_intro Suc)
qed

lemma on_socket_control: "state_io_rel (on_socket fd) (control_authenticate E p fd)"
  unfolding control_authenticate_def srv_escr_authenticate_def escr_respond_def srv_escr_build_response_def escr_send_all_def
  by (intro io_rule io_intro)

text \<open>What the relay was sent and answered before the control channel counts as open.\<close>

definition control_accepted :: "('w, 'k) srv_env \<Rightarrow> srv_params \<Rightarrow> int \<Rightarrow> 'k srv_event list \<Rightarrow> bool" where
  "control_accepted E p fd tr \<longleftrightarrow>
     (if sp_escr_auth p then proper_exchange E fd p tr
      else if sp_rv_auth p then
        (\<exists>sends. concat sends = str_bytes (text_of (sp_rvd_auth_string p)) @ [10] \<and> tr = map (Sv_sent fd) sends)
      else tr = [])"

lemma control_authenticate_accepted:
  assumes "res (control_authenticate E p fd) s = 0"
  shows "\<exists>tr. sm_trace (post (control_authenticate E p fd) s) = sm_trace s @ tr \<and> control_accepted E p fd tr"
proof (cases "sp_escr_auth p")
  case True
  then have "res (srv_escr_authenticate E fd p) s" using assms by (simp add: control_authenticate_def split: if_splits)
  from escr_authenticate_proper [OF this] show ?thesis
    using True by (simp add: control_authenticate_def control_accepted_def)
next
  case no_escr: False
  show ?thesis
  proof (cases "sp_rv_auth p")
    case False
    with no_escr show ?thesis by (simp add: control_authenticate_def control_accepted_def)
  next
    case True
    define auth where "auth = str_bytes (text_of (sp_rvd_auth_string p))"
    define s1 where "s1 = post (srv_send_all (sv_fuel E) E fd auth) s"
    have ok1: "res (srv_send_all (sv_fuel E) E fd auth) s" and ok2: "res (srv_send_all (sv_fuel E) E fd [10]) s1"
      using assms True no_escr by (auto simp: control_authenticate_def auth_def s1_def split: if_splits)
    have p: "post (control_authenticate E p fd) s = post (srv_send_all (sv_fuel E) E fd [10]) s1"
      using ok1 True no_escr by (simp add: control_authenticate_def auth_def s1_def)
    obtain sends1 where 1: "concat sends1 = auth" "sm_trace s1 = sm_trace s @ map (Sv_sent fd) sends1"
      using srv_send_all_sends [OF ok1] unfolding s1_def by blast
    obtain sends2 where 2: "concat sends2 = [10]"
        "sm_trace (post (srv_send_all (sv_fuel E) E fd [10]) s1) = sm_trace s1 @ map (Sv_sent fd) sends2"
      using srv_send_all_sends [OF ok2] by blast
    have "concat (sends1 @ sends2) = auth @ [10]" using 1(1) 2(1) by simp
    then have "\<exists>sends. concat sends = auth @ [10] \<and> map (Sv_sent fd) (sends1 @ sends2) = map (Sv_sent fd) sends" by blast
    then have "control_accepted E p fd (map (Sv_sent fd) (sends1 @ sends2))"
      using True no_escr by (simp add: control_accepted_def auth_def del: map_append)
    then show ?thesis unfolding p 2(2) 1(2) by (intro exI [of _ "map (Sv_sent fd) (sends1 @ sends2)"]) simp
  qed
qed

text \<open>The control loop opens and closes no socket itself.\<close>

definition no_handles :: "('w, 'k) srv_state \<Rightarrow> ('w, 'k) srv_state \<Rightarrow> bool" where
  "no_handles s s' \<longleftrightarrow> (\<exists>es. sm_trace s' = sm_trace s @ es \<and> handles es = [])"

lemma no_handles_preorder [io_rule]: "preorder_rel no_handles"
proof (rule preorder_relI)
  show "no_handles s s" for s :: "('w, 'k) srv_state" by (simp add: no_handles_def)
next
  fix s t u :: "('w, 'k) srv_state" assume "no_handles s t" "no_handles t u"
  then obtain es es' where "sm_trace t = sm_trace s @ es" "sm_trace u = sm_trace t @ es'" "handles (es @ es') = []"
    unfolding no_handles_def by fastforce
  then show "no_handles s u" unfolding no_handles_def by (intro exI [of _ "es @ es'"]) simp
qed

lemma no_handles_emit: "handles [e] = [] \<Longrightarrow> state_io_rel no_handles (sv_emit e)"
  by (auto simp: state_io_rel_post no_handles_def)

lemma no_handles_prims [io_intro]:
  "state_io_rel no_handles (sx f)" "state_io_rel no_handles sv_diverge"
  "state_io_rel no_handles (modify_st (sm_reported_update g))" "state_io_rel no_handles (modify_st (sm_active_update h))"
  "state_io_rel no_handles (modify_st (sm_idle_since_update i))" "state_io_rel no_handles (modify_st (sm_line_update j))"
  "state_io_rel no_handles (modify_st (sm_decrypter_update l))"
  by (auto simp: state_io_rel_post no_handles_def)

lemma no_handles_events [io_intro]:
  "state_io_rel no_handles (sv_emit (Sv_received fd bs))" "state_io_rel no_handles (sv_emit Sv_reported)"
  "state_io_rel no_handles (sv_emit (Sv_ready fd))" "state_io_rel no_handles (sv_emit (Sv_session n c))"
  "state_io_rel no_handles (sv_emit Sv_session_ended)"
  by (auto intro!: no_handles_emit simp: handles_def)

lemma no_handles_alloc [io_intro]: "state_io_rel no_handles (alloc_each E n)"
proof (induction n)
  case 0
  show ?case by (simp, intro io_rule)
next
  case (Suc n)
  show ?case unfolding alloc_each.simps by (intro io_rule io_intro Suc)
qed

lemma no_handles_serve_request [io_intro]: "state_io_rel no_handles (serve_request E r)"
  unfolding serve_request_def open_sts_def session_started_def session_ended_def threads_ended_def thread_ends_def
  by (intro io_rule io_intro)

lemma no_handles_serve_requests [io_intro]: "state_io_rel no_handles (serve_requests E rs)"
proof (induction rs)
  case Nil
  show ?case by (simp, intro io_rule)
next
  case (Cons r rs)
  show ?case unfolding serve_requests.simps by (intro io_rule io_intro Cons)
qed

lemma no_handles_round [io_intro]: "state_io_rel no_handles (control_round E fd tmo)"
  unfolding control_round_def connection_timeout_expired_def threads_ended_def thread_ends_def session_ended_def decrypt_chunk_def
    process_multiple_requests_def
  by (intro io_rule io_intro)

lemma no_handles_loop [io_intro]: "state_io_rel no_handles (control_loop fuel E fd tmo)"
proof (induction fuel)
  case 0
  show ?case by (simp, intro io_rule io_intro)
next
  case (Suc fuel)
  show ?case unfolding control_loop.simps by (intro io_rule io_intro Suc)
qed

lemma no_handles_serve: "state_io_rel no_handles (serve_control E p fd ciphers)"
proof -
  have "state_io_rel no_handles (modify_st (\<lambda>s. s\<lparr>sm_line := [], sm_decrypter := map_option snd ciphers, sm_idle_since := now\<rparr>))"
    for now by (simp add: state_io_rel_post no_handles_def)
  then show ?thesis unfolding serve_control_def report_started_def by (intro io_rule io_intro)
qed

text \<open>C36: the control channel serves nobody before the relay has accepted it. Whatever the network does, a process
  for many sessions either opens no socket, or exactly one, which it closes at the end. Everything before the relay's
  acceptance is bytes to and from this socket. Only after it - the proper ESCR exchange, or the whole auth string with its
  newline, as the parameters say - does the process report that it has started, read a request, or start a session.\<close>

theorem srv_control_authenticated:
  "\<exists>tr. sm_trace (post (run_srv_daemon_side_multi E p) s) = sm_trace s @ tr \<and>
     (tr = [] \<or>
      (\<exists>fd pre evs. tr = [Sv_connected fd] @ pre @ evs @ [Sv_closed fd] \<and>
         list_all (\<lambda>e. (\<exists>bs. e = Sv_sent fd bs) \<or> (\<exists>bs. e = Sv_received fd bs)) pre \<and> handles evs = [] \<and>
         (evs = [] \<or> control_accepted E p fd pre)))"
proof (cases "process_ciphers E p")
  case None
  then show ?thesis by (simp add: run_srv_daemon_side_multi_def)
next
  case ciphers: (Some ciphers)
  define r where "r = sv_connect E (text_of (sp_host p)) (sp_port p) (sm_world s)"
  show ?thesis
  proof (cases "fst r")
    case (Inl code)
    with ciphers show ?thesis by (simp add: run_srv_daemon_side_multi_def srv_side_init_def r_def)
  next
    case fd: (Inr fd)
    define s1 where "s1 = s\<lparr>sm_world := snd r, sm_trace := sm_trace s @ [Sv_connected fd]\<rparr>"
    define s2 where "s2 = post (control_authenticate E p fd) s1"
    obtain pre where pre: "sm_trace s2 = sm_trace s1 @ pre"
        "list_all (\<lambda>e. (\<exists>bs. e = Sv_sent fd bs) \<or> (\<exists>bs. e = Sv_received fd bs)) pre"
      using io_relD [OF on_socket_control, of fd s1 E p] unfolding s2_def on_socket_def by blast
    show ?thesis
    proof (cases "res (control_authenticate E p fd) s1 = 0")
      case False
      have "sm_trace (post (run_srv_daemon_side_multi E p) s) = sm_trace s2 @ [Sv_closed fd]"
        using ciphers fd False by (simp add: run_srv_daemon_side_multi_def srv_side_init_def srv_side_free_def r_def s1_def s2_def)
      then show ?thesis using pre
        by (intro exI [of _ "[Sv_connected fd] @ pre @ [] @ [Sv_closed fd]"]) (force simp: s1_def)
    next
      case True
      define s3 where "s3 = post (serve_control E p fd ciphers) s2"
      obtain evs where evs: "sm_trace s3 = sm_trace s2 @ evs" "handles evs = []"
        using io_relD [OF no_handles_serve, of s2 E p fd ciphers] unfolding s3_def no_handles_def by blast
      have "control_accepted E p fd pre"
        using control_authenticate_accepted [OF True] pre(1) unfolding s2_def by auto
      moreover have "sm_trace (post (run_srv_daemon_side_multi E p) s) = sm_trace s3 @ [Sv_closed fd]"
        using ciphers fd True
        by (simp add: run_srv_daemon_side_multi_def srv_side_init_def srv_side_free_def r_def s1_def s2_def s3_def)
      ultimately show ?thesis using pre evs
        by (intro exI [of _ "[Sv_connected fd] @ pre @ evs @ [Sv_closed fd]"]) (force simp: s1_def)
    qed
  qed
qed

end
