(* ===== verification/Arg_Parse.thy ===== *)
theory Arg_Parse
  imports NP_CString
begin

text \<open>
  The parser of command lines that the programs in C share (\<open>argparse.c\<close>), for the types of options they use: a boolean, an
  integer or a string, each stored through a pointer. What it stores is a list of assignments to the long names of the
  options, the latest first. Both programs pass no flags, so an unknown option ends the process.
\<close>

section \<open>Numbers\<close>

text \<open>\<open>strtol(s, &end, 0)\<close>: decimal, hexadecimal after \<open>0x\<close>, octal after \<open>0\<close>. \<open>long\<close> has 64 bits on the machines of the
  daemon; what does not fit is \<open>ERANGE\<close>, and the result is narrowed to \<open>int\<close> when it is stored. Without a digit the value is 0
  and the rest is the whole text.\<close>

definition digit_of :: "char \<Rightarrow> nat" where
  "digit_of c =
     (if is_digit c then ch c - 48 else if is_lower c then ch c - 87 else if is_upper c then ch c - 55 else 36)"

definition base_digits :: "nat \<Rightarrow> string \<Rightarrow> string" where
  "base_digits base s = takeWhile (\<lambda>c. digit_of c < base) s"

definition base_value :: "nat \<Rightarrow> string \<Rightarrow> int" where
  "base_value base ds = foldl (\<lambda>v c. int base * v + int (digit_of c)) 0 ds"

definition base_of :: "string \<Rightarrow> nat \<times> string" where
  "base_of u =
     (if (starts_with ''0x'' u \<or> starts_with ''0X'' u) \<and> base_digits 16 (drop 2 u) \<noteq> [] then (16, drop 2 u)
      else if starts_with ''0'' u then (8, u) else (10, u))"

definition strtol0 :: "string \<Rightarrow> int \<times> string" where
  "strtol0 s =
     (let t = dropWhile isspace s;
          neg = starts_with ''-'' t;
          (base, v) = base_of (if neg \<or> starts_with ''+'' t then tl t else t);
          ds = base_digits base v;
          n = base_value base ds
      in if ds = [] then (0, s) else (if neg then - n else n, drop (length ds) v))"

definition to_c_int :: "int \<Rightarrow> int" where
  "to_c_int n = (n + 2 ^ 31) mod 2 ^ 32 - 2 ^ 31"

section \<open>Options\<close>

datatype opt_type = Opt_boolean | Opt_integer | Opt_string

datatype opt_value = Bool_value bool | Int_value int | String_value string

text \<open>\<open>argparse_option\<close>. \<open>op_stored\<close> says whether the option has a variable, \<open>op_help\<close> whether its callback is
  \<open>argparse_help_cb\<close>, which ends the process.\<close>

record opt_spec =
  op_type :: opt_type
  op_short :: "char option"
  op_long :: string
  op_stored :: bool
  op_help :: bool
  op_noneg :: bool

definition OPT_HELP :: opt_spec where
  "OPT_HELP = \<lparr>op_type = Opt_boolean, op_short = None, op_long = ''help'', op_stored = False, op_help = True, op_noneg = True\<rparr>"

definition plain_option :: "opt_type \<Rightarrow> char option \<Rightarrow> string \<Rightarrow> opt_spec" where
  "plain_option ty short long = \<lparr>op_type = ty, op_short = short, op_long = long, op_stored = True, op_help = False, op_noneg = False\<rparr>"

definition OPT_BOOLEAN :: "char option \<Rightarrow> string \<Rightarrow> opt_spec" where "OPT_BOOLEAN = plain_option Opt_boolean"
definition OPT_INTEGER :: "char option \<Rightarrow> string \<Rightarrow> opt_spec" where "OPT_INTEGER = plain_option Opt_integer"
definition OPT_STRING :: "char option \<Rightarrow> string \<Rightarrow> opt_spec" where "OPT_STRING = plain_option Opt_string"

section \<open>Parsing\<close>

text \<open>\<open>struct argparse\<close>: the arguments left, the current one first, and the value found in the current argument.\<close>

record arg_state =
  ar_argv :: "string list"
  ar_optvalue :: "string option"
  ar_values :: "(string \<times> opt_value) list"
  ar_out :: "string list"

text \<open>A step ends the process with a status (\<open>Inl\<close>) or goes on.\<close>

type_synonym arg_result = "nat + arg_state"

definition arg_store :: "opt_spec \<Rightarrow> opt_value \<Rightarrow> arg_state \<Rightarrow> arg_state" where
  "arg_store opt v s = s\<lparr>ar_values := (op_long opt, v) # ar_values s\<rparr>"

text \<open>The text for an option that takes a value: from the same argument, or the next one.\<close>

definition arg_text :: "arg_state \<Rightarrow> (string \<times> arg_state) option" where
  "arg_text s =
     (case ar_optvalue s of
        Some v \<Rightarrow> Some (v, s\<lparr>ar_optvalue := None\<rparr>)
      | None \<Rightarrow> (case ar_argv s of _ # v # rest \<Rightarrow> Some (v, s\<lparr>ar_argv := v # rest\<rparr>) | _ \<Rightarrow> None))"

definition arg_integer :: "opt_spec \<Rightarrow> string \<Rightarrow> arg_state \<Rightarrow> arg_result" where
  "arg_integer opt text s =
     (let (n, rest) = strtol0 text in
      if n < - (2 ^ 63) \<or> n \<ge> 2 ^ 63 \<or> rest \<noteq> [] then Inl 1 else Inr (arg_store opt (Int_value (to_c_int n)) s))"

definition argparse_getvalue :: "opt_spec \<Rightarrow> bool \<Rightarrow> arg_state \<Rightarrow> arg_result" where
  "argparse_getvalue opt unset s =
     (if op_help opt then Inl 0
      else if \<not> op_stored opt then Inr s
      else if op_type opt = Opt_boolean then Inr (arg_store opt (Bool_value (\<not> unset)) s)
      else case arg_text s of
          None \<Rightarrow> Inl 1
        | Some (text, s') \<Rightarrow>
            if op_type opt = Opt_integer then arg_integer opt text s'
            else Inr (arg_store opt (String_value text) s'))"

text \<open>\<open>argparse_short_opt\<close>, again and again while characters of the argument are left.\<close>

fun short_opts :: "opt_spec list \<Rightarrow> string \<Rightarrow> arg_state \<Rightarrow> arg_result" where
  "short_opts opts [] s = Inr s"
| "short_opts opts (c # cs) s =
     (case List.find (\<lambda>opt. op_short opt = Some c) opts of
        None \<Rightarrow> Inl 1
      | Some opt \<Rightarrow>
          (case argparse_getvalue opt False (s\<lparr>ar_optvalue := if cs = [] then None else Some cs\<rparr>) of
             Inl status \<Rightarrow> Inl status
           | Inr s' \<Rightarrow> if ar_optvalue s' = None then Inr s' else short_opts opts cs s'))"

text \<open>How a long option matches: whether it is negated, and what follows its name.\<close>

definition long_match :: "opt_spec \<Rightarrow> string \<Rightarrow> (bool \<times> string) option" where
  "long_match opt text =
     (if starts_with (op_long opt) text then Some (False, drop (length (op_long opt)) text)
      else if op_noneg opt \<or> op_type opt \<noteq> Opt_boolean then None
      else if starts_with ''no-'' text \<and> starts_with (op_long opt) (drop 3 text)
        then Some (True, drop (3 + length (op_long opt)) text)
      else None)"

fun argparse_long_opt :: "opt_spec list \<Rightarrow> string \<Rightarrow> arg_state \<Rightarrow> arg_result" where
  "argparse_long_opt [] text s = Inl 1"
| "argparse_long_opt (opt # opts) text s =
     (case long_match opt text of
        None \<Rightarrow> argparse_long_opt opts text s
      | Some (unset, rest) \<Rightarrow>
          if rest = [] then argparse_getvalue opt unset s
          else if hd rest = CHR ''='' then argparse_getvalue opt unset (s\<lparr>ar_optvalue := Some (tl rest)\<rparr>)
          else argparse_long_opt opts text s)"

text \<open>One argument; the rest of the arguments is what it left, without its last.\<close>

definition arg_step :: "opt_spec list \<Rightarrow> string \<Rightarrow> arg_state \<Rightarrow> arg_result" where
  "arg_step opts arg s =
     (if arg = [] \<or> hd arg \<noteq> CHR ''-'' \<or> tl arg = [] then Inr (s\<lparr>ar_out := ar_out s @ [arg]\<rparr>)
      else if arg ! 1 \<noteq> CHR ''-'' then short_opts opts (tl arg) s
      else argparse_long_opt opts (drop 2 arg) s)"

definition used :: "arg_state \<Rightarrow> arg_state \<Rightarrow> bool" where
  "used s s' \<longleftrightarrow> length (ar_argv s') \<le> length (ar_argv s)"

lemma getvalue_used: "argparse_getvalue opt unset s = Inr s' \<Longrightarrow> used s s'"
  by (auto simp: argparse_getvalue_def arg_text_def arg_integer_def arg_store_def used_def Let_def
      split: if_splits option.splits list.splits prod.splits)

lemma short_opts_used: "short_opts opts cs s = Inr s' \<Longrightarrow> used s s'"
proof (induction opts cs s rule: short_opts.induct)
  case (2 opts c cs s)
  obtain opt s1 where g: "List.find (\<lambda>opt. op_short opt = Some c) opts = Some opt"
      "argparse_getvalue opt False (s\<lparr>ar_optvalue := if cs = [] then None else Some cs\<rparr>) = Inr s1"
      "s' = s1 \<or> ar_optvalue s1 \<noteq> None \<and> short_opts opts cs s1 = Inr s'"
    using "2.prems" by (auto split: option.splits sum.splits if_splits)
  from getvalue_used [OF g(2)] have "used s s1" by (simp add: used_def)
  with g(3) "2.IH" [OF g(1,2)] show ?case by (auto simp: used_def)
qed (simp add: used_def)

lemma long_opt_used: "argparse_long_opt opts text s = Inr s' \<Longrightarrow> used s s'"
  by (induction rule: argparse_long_opt.induct)
    (auto simp: used_def split: option.splits prod.splits if_splits dest: getvalue_used [unfolded used_def])

lemma arg_step_used: "arg_step opts arg s = Inr s' \<Longrightarrow> used s s'"
  by (auto simp: arg_step_def used_def split: if_splits dest: short_opts_used [unfolded used_def] long_opt_used [unfolded used_def])

function argparse_loop :: "opt_spec list \<Rightarrow> arg_state \<Rightarrow> arg_result" where
  "argparse_loop opts s =
     (case ar_argv s of
        [] \<Rightarrow> Inr s
      | arg # rest \<Rightarrow>
          if arg = ''--'' then Inr (s\<lparr>ar_argv := [], ar_out := ar_out s @ rest\<rparr>)
          else case arg_step opts arg s of
              Inl status \<Rightarrow> Inl status
            | Inr s' \<Rightarrow> argparse_loop opts (s'\<lparr>ar_argv := tl (ar_argv s')\<rparr>))"
  by pat_completeness auto

termination
proof (relation "measure (\<lambda>(opts, s). length (ar_argv s))")
  fix opts s arg rest s'
  assume "ar_argv s = arg # rest" "arg_step opts arg s = Inr s'"
  then have "length (ar_argv s') \<le> Suc (length rest)" using arg_step_used [of opts arg s s'] by (simp add: used_def)
  then show "((opts, s'\<lparr>ar_argv := tl (ar_argv s')\<rparr>), opts, s) \<in> measure (\<lambda>(opts, s). length (ar_argv s))"
    using \<open>ar_argv s = arg # rest\<close> by auto
qed simp

declare argparse_loop.simps [simp del]

text \<open>\<open>argparse_parse\<close>, of the arguments after the program's name.\<close>

definition argparse_parse :: "opt_spec list \<Rightarrow> string list \<Rightarrow> arg_result" where
  "argparse_parse opts args = argparse_loop opts \<lparr>ar_argv = args, ar_optvalue = None, ar_values = [], ar_out = []\<rparr>"

section \<open>Reading what was stored\<close>

type_synonym arg_values = "(string \<times> opt_value) list"

definition given_string :: "arg_values \<Rightarrow> string \<Rightarrow> string option" where
  "given_string vs name = (case map_of vs name of Some (String_value t) \<Rightarrow> Some t | _ \<Rightarrow> None)"

definition given_int :: "arg_values \<Rightarrow> string \<Rightarrow> int option" where
  "given_int vs name = (case map_of vs name of Some (Int_value n) \<Rightarrow> Some n | _ \<Rightarrow> None)"

definition given_bool :: "arg_values \<Rightarrow> string \<Rightarrow> bool" where
  "given_bool vs name = (map_of vs name = Some (Bool_value True))"

section \<open>Arguments that are written down\<close>

lemma digit_of_less: "is_digit c \<Longrightarrow> digit_of c < 10"
  by (auto simp: digit_of_def is_digit_def)

lemma digit_of_val: "is_digit c \<Longrightarrow> int (digit_of c) = digit_val c"
  by (auto simp: digit_of_def is_digit_def digit_val_def)

lemma base_value_dec: "\<forall>c \<in> set ds. is_digit c \<Longrightarrow> base_value 10 ds = digits_val ds"
  by (induction ds rule: rev_induct) (simp_all add: base_value_def digits_val_def digit_of_val)

lemma dec_nat_hd: "0 < n \<Longrightarrow> hd (dec_nat n) \<noteq> CHR ''0''"
proof (induction n rule: dec_nat.induct)
  case (1 n)
  show ?case
  proof (cases "n < 10")
    case True
    have "ch (char_of (48 + n)) \<noteq> ch (CHR ''0'')" using True "1.prems" by (simp, simp add: ch_def)
    then have "char_of (48 + n) \<noteq> CHR ''0''" by metis
    then show ?thesis using True by (subst dec_nat.simps) simp
  next
    case False
    then show ?thesis using "1.IH" by (subst dec_nat.simps) (simp add: hd_append)
  qed
qed

lemma dec_nat_length: "n < 10 ^ k \<Longrightarrow> 0 < k \<Longrightarrow> length (dec_nat n) \<le> k"
proof (induction n arbitrary: k rule: dec_nat.induct)
  case (1 n)
  show ?case
  proof (cases "n < 10")
    case True
    then show ?thesis using "1.prems" by (subst dec_nat.simps) simp
  next
    case False
    obtain j where j: "k = Suc j" using "1.prems"(2) by (cases k) auto
    have k: "k = Suc j" "0 < j" using j "1.prems"(1) False by (cases j; simp)+
    have "n div 10 < 10 ^ j" using "1.prems" k by (simp add: less_mult_imp_div_less mult.commute)
    then have "length (dec_nat (n div 10)) \<le> j" using "1.IH" False k by simp
    then show ?thesis using False k by (subst dec_nat.simps) simp
  qed
qed

text \<open>A number written in decimal is read back: it does not look like an octal or a hexadecimal one.\<close>

lemma strtol0_dec_nat:
  assumes "0 < n"
  shows "strtol0 (dec_nat n) = (int n, [])"
proof -
  let ?s = "dec_nat n"
  have d: "\<forall>c \<in> set ?s. is_digit c" by (rule dec_nat_digits)
  obtain c cs where s: "?s = c # cs" by (cases ?s) auto
  have c: "is_digit c" "c \<noteq> CHR ''0''" using d s dec_nat_hd [OF assms] by auto
  have 1: "dropWhile isspace ?s = ?s" "\<not> starts_with ''-'' ?s" "\<not> starts_with ''+'' ?s"
    using digit_not_special [OF c(1)] s by (auto simp: starts_with_def)
  have 2: "base_of ?s = (10, ?s)" using c(2) s by (auto simp: base_of_def starts_with_def)
  have 3: "base_digits 10 ?s = ?s" using d by (simp add: base_digits_def digit_of_less)
  have 4: "base_value 10 ?s = int n" using base_value_dec [OF d] by (simp add: digits_val_dec_nat)
  show ?thesis by (simp add: strtol0_def Let_def 1 2 3 4)
qed

lemma to_c_int_id: "- (2 ^ 31) \<le> n \<Longrightarrow> n < 2 ^ 31 \<Longrightarrow> to_c_int n = n"
  by (simp add: to_c_int_def)

text \<open>One round of the loop on an option with its value in the next argument, and on one without a value.\<close>

definition arg_at :: "string list \<Rightarrow> arg_values \<Rightarrow> arg_state" where
  "arg_at args vs = \<lparr>ar_argv = args, ar_optvalue = None, ar_values = vs, ar_out = []\<rparr>"

definition selects :: "opt_spec list \<Rightarrow> string \<Rightarrow> opt_spec \<Rightarrow> bool" where
  "selects opts arg opt \<longleftrightarrow> arg \<noteq> ''--'' \<and>
     (\<forall>args vs. arg_step opts arg (arg_at args vs) = argparse_getvalue opt False (arg_at args vs))"

lemma loop_string:
  assumes "selects opts arg opt" "op_type opt = Opt_string" "op_stored opt" "\<not> op_help opt"
  shows "argparse_loop opts (arg_at (arg # v # args) vs) = argparse_loop opts (arg_at args ((op_long opt, String_value v) # vs))"
  using assms by (subst argparse_loop.simps)
    (simp add: selects_def argparse_getvalue_def arg_text_def arg_store_def arg_at_def)

lemma loop_integer:
  assumes "selects opts arg opt" "op_type opt = Opt_integer" "op_stored opt" "\<not> op_help opt" "0 < n" "n < 2 ^ 31"
  shows "argparse_loop opts (arg_at (arg # dec_nat n # args) vs) = argparse_loop opts (arg_at args ((op_long opt, Int_value (int n)) # vs))"
  using assms by (subst argparse_loop.simps)
    (simp add: selects_def argparse_getvalue_def arg_text_def arg_store_def arg_at_def arg_integer_def strtol0_dec_nat to_c_int_id)

lemma loop_flag:
  assumes "selects opts arg opt" "op_type opt = Opt_boolean" "op_stored opt" "\<not> op_help opt"
  shows "argparse_loop opts (arg_at (arg # args) vs) = argparse_loop opts (arg_at args ((op_long opt, Bool_value True) # vs))"
  using assms by (subst argparse_loop.simps)
    (simp add: selects_def argparse_getvalue_def arg_store_def arg_at_def)

lemma loop_done: "argparse_loop opts (arg_at [] vs) = Inr (arg_at [] vs)"
  by (subst argparse_loop.simps) (simp add: arg_at_def)

end
