(* ===== verification/C_Daemon_Types.thy ===== *)
theory C_Daemon_Types
  imports C_Sessions C_Permit_Open Daemon_Npt
begin

text \<open>
  The state of the C daemon, \<open>packages/c/sshnpd\<close>: the global variables of \<open>daemon.c\<close> and the static ones of the files it
  calls, in one record, and the libraries and the system it uses as an environment. The state of
  \<open>C_Sessions\<close> (and with it the outside world) is a field of the daemon's. Messages, notifications and
  policy decisions are the firmware's types, since both daemons speak the same protocol.

  \<open>fork\<close> returns twice; a run of the model is the life of one process and its ancestors, so the environment says which of
  the two it follows. \<open>cd_end\<close> is set when that process is replaced by \<open>execv\<close> or dies; \<open>cd_trace\<close> is a ghost record of what
  crossed the daemon's boundary, \<open>cd_diverged\<close> says that a wait ran out of fuel.
\<close>

section \<open>Parameters\<close>

definition SSHNP_NS :: string where "SSHNP_NS = ''sshnp''"
definition SSHNPD_ATSIGN_BUFFER_LEN :: nat where "SSHNPD_ATSIGN_BUFFER_LEN = 57"
definition NOTIFICATION_KEYS_LEN :: nat where "NOTIFICATION_KEYS_LEN = 5"
definition MONITOR_READ_TIMEOUT_MS :: nat where "MONITOR_READ_TIMEOUT_MS = 5000"
definition MONITOR_NOOP_TIMEOUT_MS :: nat where "MONITOR_NOOP_TIMEOUT_MS = 40000"

definition MONITOR_RECONNECT_COUNTER :: nat where
  "MONITOR_RECONNECT_COUNTER = MONITOR_NOOP_TIMEOUT_MS div MONITOR_READ_TIMEOUT_MS + 1"

datatype ssh_algorithm = ED25519 | RSA_algorithm

text \<open>\<open>sshnpd_params\<close>. What only says who owns the memory is left out.\<close>

record sshnpd_params =
  pm_atsign :: "string option"
  pm_device :: string
  pm_manager_list :: "string list"
  pm_policy :: "string option"
  pm_policy_cache_size :: nat
  pm_permitopen :: "(string \<times> u16) list"
  pm_sshpublickey :: bool
  pm_hide :: bool
  pm_verbose :: bool
  pm_ssh_algorithm :: ssh_algorithm
  pm_root_domain :: "string option"
  pm_local_sshd_port :: u16
  pm_key_file :: "string option"
  pm_storage_path :: "string option"
  pm_client_key_check_secs :: int
  pm_require_enrollment_signature :: bool

text \<open>What the daemon uses of \<open>atclient_atkeys\<close>.\<close>

record atkeys =
  ak_enrollment_id :: "string option"
  ak_pkam_public_key_base64 :: string
  ak_pkam_private_key_base64 :: string

section \<open>State\<close>

text \<open>\<open>policy_throttle\<close> (\<open>policy_limits.h\<close>).\<close>

record throttle_slot =
  th_used :: bool
  th_atsign :: string
  th_kind :: notification_key
  th_checked_at_ms :: ms64

type_synonym policy_throttle = "throttle_slot list"

text \<open>the record \<open>srv_start\<close> (\<open>run_srv_process.c\<close>); the text read so far stands for \<open>seen\<close> and \<open>seen_len\<close>.\<close>

record watched_start =
  st_pid :: int
  st_ready_fd :: int
  st_started_ms :: int
  st_seen :: bytes

text \<open>\<open>public_lookup_directory\<close> (\<open>public_lookup.h\<close>).\<close>

record lookup_directory =
  ld_host :: string
  ld_port :: u16
  ld_via_proxy :: bool
  ld_scheme :: string

datatype cd_end = Replaced | Died

datatype cd_event =
    Cd_message message                        \<comment> \<open>read from the monitor connection\<close>
  | Cd_public_key string string               \<comment> \<open>an atSign's public key, as its atServer gave it\<close>
  | Cd_auth_check string int                  \<comment> \<open>the policy service was asked about a client, with this id\<close>
  | Cd_notify string string string            \<comment> \<open>receiver, key name, value\<close>
  | Cd_exec "string list" "(string \<times> string) list"  \<comment> \<open>arguments after the worker flag, environment\<close>
  | Cd_killed int
  | Cd_authorized_key string                  \<comment> \<open>a line for the file of authorized keys\<close>
  | Cd_shared string string                   \<comment> \<open>key text and value of a record shared with a manager\<close>

record 'w cdaemon =
  cd_sess :: "'w cs_state"
  cd_trace :: "cd_event list"
  cd_end :: "cd_end option"
  cd_diverged :: bool
  cd_params :: sshnpd_params
  cd_atkeys :: atkeys
  cd_signingkey :: rsa_key
  cd_ping_response :: "string option"
  cd_regex :: string
  cd_is_child_process :: bool
  cd_decisions :: policy_cache
  cd_throttle :: policy_throttle
  cd_timeout_counter :: nat
  cd_starts :: "watched_start list"
  cd_start_capacity :: nat
  cd_heartbeat_last_sent :: int
  cd_device_info_pos :: nat
  cd_device_info_last_sent :: "int list"
  cd_device_info_attempts :: u8
  cd_directory :: "lookup_directory option"

type_synonym ('w, 'a) cdprog = "('w cdaemon, 'a) state"

section \<open>The environment\<close>

text \<open>What \<open>poll\<close> and \<open>read\<close> say of a pipe.\<close>

datatype poll_result = Poll_ready | Poll_none | Poll_interrupted | Poll_error
datatype read_result = Read_bytes bytes | Read_end | Read_interrupted | Read_failed

record ('w, 'j) cd_env =
  cv_alloc :: "nat \<Rightarrow> 'w \<Rightarrow> bool \<times> 'w"
  cv_cj :: "'j cjson"
  cv_is_bool :: "'j \<Rightarrow> bool"                        \<comment> \<open>\<open>cJSON_IsBool\<close>\<close>
  cv_ops :: atchops
  cv_print :: "'j \<Rightarrow> string"                       \<comment> \<open>\<open>cJSON_PrintUnformatted\<close>, given memory\<close>
  cv_es_mem :: "'w \<Rightarrow> es_mem \<times> 'w"                \<comment> \<open>the allocations of one enrollment check\<close>
  cv_time :: "'w \<Rightarrow> int \<times> 'w"
  cv_clock :: "'w \<Rightarrow> (int \<times> int) \<times> 'w"          \<comment> \<open>\<open>CLOCK_MONOTONIC\<close>: seconds and nanoseconds\<close>
  cv_gettimeofday_us :: "'w \<Rightarrow> int \<times> 'w"
  cv_should_run :: "'w \<Rightarrow> bool \<times> 'w"             \<comment> \<open>cleared by the signal handler\<close>
  cv_monitor_read :: "'w \<Rightarrow> (int \<times> message) \<times> 'w"
  cv_worker_connected :: "'w \<Rightarrow> bool \<times> 'w"
  cv_worker_authenticate :: "'w \<Rightarrow> int \<times> 'w"
  cv_set_hooks :: "'w \<Rightarrow> int \<times> 'w"
  cv_monitor_authenticate :: "'w \<Rightarrow> int \<times> 'w"
  cv_monitor_start :: "string \<Rightarrow> 'w \<Rightarrow> int \<times> 'w"
  cv_sleep :: "nat \<Rightarrow> 'w \<Rightarrow> unit \<times> 'w"
  cv_create_key :: "string \<Rightarrow> string \<Rightarrow> 'w \<Rightarrow> int \<times> 'w"  \<comment> \<open>\<open>atclient_atkey_create_..\<close>: name and other atSign\<close>
  cv_key_from_string :: "string \<Rightarrow> 'w \<Rightarrow> int \<times> 'w"
  cv_key_to_string :: "'w \<Rightarrow> int \<times> 'w"
  cv_set_metadata :: "'w \<Rightarrow> int \<times> 'w"
  cv_set_notify_params :: "'w \<Rightarrow> int \<times> 'w"       \<comment> \<open>the first setter that fails, or 0\<close>
  cv_notify :: "string \<Rightarrow> string \<Rightarrow> string \<Rightarrow> 'w \<Rightarrow> int \<times> 'w"
  cv_get_public_key :: "string \<Rightarrow> string \<Rightarrow> string \<Rightarrow> 'w \<Rightarrow> (int \<times> string option) \<times> 'w"
  cv_put_shared_key :: "string \<Rightarrow> string \<Rightarrow> 'w \<Rightarrow> int \<times> 'w"
  cv_delete :: "string \<Rightarrow> 'w \<Rightarrow> int \<times> 'w"
  cv_rsa_encrypt :: "rsa_key \<Rightarrow> string \<Rightarrow> 'w \<Rightarrow> bytes option \<times> 'w"
  cv_generate_key :: "'w \<Rightarrow> bytes option \<times> 'w"
  cv_generate_iv :: "'w \<Rightarrow> bytes option \<times> 'w"
  cv_own_exe_path :: "'w \<Rightarrow> string option \<times> 'w"
  cv_spawn :: "string list \<Rightarrow> bool \<Rightarrow> 'w \<Rightarrow> (int \<times> int) \<times> 'w"  \<comment> \<open>\<open>fork\<close> and \<open>execv\<close> of a lookup worker: pid and pipe\<close>
  cv_pipe :: "'w \<Rightarrow> (int \<times> int) option \<times> 'w"
  cv_fork :: "'w \<Rightarrow> int \<times> 'w"                     \<comment> \<open>0 when the run follows the child\<close>
  cv_dup2 :: "int \<Rightarrow> int \<Rightarrow> 'w \<Rightarrow> int \<times> 'w"
  cv_execv :: "string list \<Rightarrow> (string \<times> string) list \<Rightarrow> 'w \<Rightarrow> bool \<times> 'w"  \<comment> \<open>true when it does not return\<close>
  cv_waitpid :: "int \<Rightarrow> 'w \<Rightarrow> (int \<times> wait_status) \<times> 'w"   \<comment> \<open>with \<open>WNOHANG\<close>\<close>
  cv_wait_for :: "int \<Rightarrow> 'w \<Rightarrow> wait_status \<times> 'w"
  cv_kill :: "int \<Rightarrow> signal \<Rightarrow> 'w \<Rightarrow> int \<times> 'w"
  cv_poll :: "int \<Rightarrow> int \<Rightarrow> 'w \<Rightarrow> poll_result \<times> 'w"
  cv_read :: "int \<Rightarrow> nat \<Rightarrow> 'w \<Rightarrow> read_result \<times> 'w"
  cv_close :: "int \<Rightarrow> 'w \<Rightarrow> unit \<times> 'w"
  cv_read_lines :: "'w \<Rightarrow> string list option \<times> 'w"  \<comment> \<open>\<open>fopen\<close> and \<open>getline\<close> on the file of authorized keys\<close>
  cv_append_line :: "string \<Rightarrow> 'w \<Rightarrow> bool \<times> 'w"
  cv_ub_u16 :: "dbl \<Rightarrow> u16"                       \<comment> \<open>what the compiler makes of an undefined cast\<close>
  cv_ub_i64 :: "dbl \<Rightarrow> int"
  cv_fuel :: nat

section \<open>Primitives\<close>

definition cdx :: "('w \<Rightarrow> 'r \<times> 'w) \<Rightarrow> ('w, 'r) cdprog" where
  "cdx f = State (\<lambda>s. case f (cs_world (cd_sess s)) of (r, w) \<Rightarrow> (r, s\<lparr>cd_sess := (cd_sess s)\<lparr>cs_world := w\<rparr>\<rparr>))"

text \<open>An operation of \<open>client_sessions.c\<close>. A NULL it would read through ends the process.\<close>

definition on_sessions :: "('w, 'a) cprog \<Rightarrow> ('w, 'a) cdprog" where
  "on_sessions m = State (\<lambda>s. case run_state m (cd_sess s) of (r, t) \<Rightarrow>
     (r, s\<lparr>cd_sess := t, cd_end := (if cs_crashed t then Some Died else cd_end s)\<rparr>))"

definition cd_emit :: "cd_event \<Rightarrow> ('w, unit) cdprog" where
  "cd_emit e = modify_st (cd_trace_update (\<lambda>t. t @ [e]))"

definition cd_stop :: "cd_end \<Rightarrow> ('w, unit) cdprog" where
  "cd_stop e = modify_st (cd_end_update (\<lambda>_. Some e))"

definition cd_diverge :: "('w, unit) cdprog" where
  "cd_diverge = modify_st (cd_diverged_update (\<lambda>_. True))"

definition cd_alloc :: "('w, 'j) cd_env \<Rightarrow> nat \<Rightarrow> ('w, bool) cdprog" where
  "cd_alloc E n = cdx (cv_alloc E n)"

definition cd_strdup :: "('w, 'j) cd_env \<Rightarrow> string \<Rightarrow> ('w, string option) cdprog" where
  "cd_strdup E x = do { ok \<leftarrow> cd_alloc E (length x + 1); ret (if ok then Some x else None) }"

lemma cdprog_simps [simp]:
  "res (cdx f) s = fst (f (cs_world (cd_sess s)))"
  "post (cdx f) s = s\<lparr>cd_sess := (cd_sess s)\<lparr>cs_world := snd (f (cs_world (cd_sess s)))\<rparr>\<rparr>"
  "post (cd_emit e) s = s\<lparr>cd_trace := cd_trace s @ [e]\<rparr>"
  "post (cd_stop h) s = s\<lparr>cd_end := Some h\<rparr>"
  "post cd_diverge s = s\<lparr>cd_diverged := True\<rparr>"
  "post (on_sessions m) s = s\<lparr>cd_sess := post m (cd_sess s),
     cd_end := (if cs_crashed (post m (cd_sess s)) then Some Died else cd_end s)\<rparr>"
  "res (on_sessions m) s = res m (cd_sess s)"
  by (simp_all add: cdx_def cd_emit_def cd_stop_def cd_diverge_def on_sessions_def res_def post_def case_prod_beta)

text \<open>\<open>sshnpd_monotonic_ms\<close>, and the difference of two readings, which C rounds towards zero.\<close>

definition sshnpd_monotonic_ms :: "('w, 'j) cd_env \<Rightarrow> ('w, int) cdprog" where
  "sshnpd_monotonic_ms E = do {
     (sec, nsec) \<leftarrow> cdx (cv_clock E);
     ret (sec * 1000 + nsec div 1000000) }"

definition c_div :: "int \<Rightarrow> int \<Rightarrow> int" where
  "c_div a b = (if a \<ge> 0 then a div b else - (- a div b))"

definition ms_since :: "('w, 'j) cd_env \<Rightarrow> int \<times> int \<Rightarrow> ('w, int) cdprog" where
  "ms_since E start = do {
     (sec, nsec) \<leftarrow> cdx (cv_clock E);
     ret ((sec - fst start) * 1000 + c_div (nsec - snd start) 1000000) }"

subsection \<open>JSON under construction\<close>

text \<open>As in \<open>Daemon_Types\<close>: an addition whose result is not checked leaves the field out when there is no memory.\<close>

definition c_new_object :: "('w, 'j) cd_env \<Rightarrow> ('w, 'j fields) cdprog" where
  "c_new_object E = do { ok \<leftarrow> cd_alloc E 1; ret (if ok then Some [] else None) }"

definition c_add_item :: "('w, 'j) cd_env \<Rightarrow> string \<Rightarrow> 'j option \<Rightarrow> 'j fields \<Rightarrow> ('w, 'j fields) cdprog" where
  "c_add_item E name v obj = do {
     ok \<leftarrow> cd_alloc E 1;
     ret (case (obj, v) of (Some fs, Some j) \<Rightarrow> if ok then Some (fs @ [(name, j)]) else obj | _ \<Rightarrow> obj) }"

definition c_add_str :: "('w, 'j) cd_env \<Rightarrow> string \<Rightarrow> string option \<Rightarrow> 'j fields \<Rightarrow> ('w, 'j fields) cdprog" where
  "c_add_str E name v obj = c_add_item E name (map_option (cj_mk_string (cv_cj E)) v) obj"

definition c_object :: "('w, 'j) cd_env \<Rightarrow> 'j fields \<Rightarrow> 'j option" where
  "c_object E obj = map_option (cj_mk_object (cv_cj E)) obj"

definition c_print :: "('w, 'j) cd_env \<Rightarrow> 'j option \<Rightarrow> ('w, string option) cdprog" where
  "c_print E v = do {
     ok \<leftarrow> cd_alloc E 1;
     ret (case v of None \<Rightarrow> None | Some j \<Rightarrow> if ok then Some (cv_print E j) else None) }"

section \<open>Names of the parameters\<close>

definition own_atsign :: "sshnpd_params \<Rightarrow> string" where
  "own_atsign p = text_of (pm_atsign p)"

section \<open>Steps that leave the trace alone, and worse\<close>

text \<open>\<open>only_logs P s s'\<close>: between the two states the trace grew by events that satisfy \<open>P\<close>, and the daemon's parameters, keys and
  remembered decisions stayed as they were.\<close>

definition only_logs :: "(cd_event \<Rightarrow> bool) \<Rightarrow> 'w cdaemon \<Rightarrow> 'w cdaemon \<Rightarrow> bool" where
  "only_logs P s s' \<longleftrightarrow> (\<exists>tr. cd_trace s' = cd_trace s @ tr \<and> (\<forall>e \<in> set tr. P e)) \<and>
     cd_params s' = cd_params s \<and> cd_atkeys s' = cd_atkeys s \<and> cd_decisions s' = cd_decisions s"

lemma only_logs_preorder [io_rule]: "preorder_rel (only_logs P)"
proof (rule preorder_relI)
  fix s t u :: "'w cdaemon"
  show "only_logs P s s" by (simp add: only_logs_def)
  assume st: "only_logs P s t" and tu: "only_logs P t u"
  obtain a where a: "cd_trace t = cd_trace s @ a" "\<forall>e \<in> set a. P e" using st unfolding only_logs_def by blast
  obtain b where b: "cd_trace u = cd_trace t @ b" "\<forall>e \<in> set b. P e" using tu unfolding only_logs_def by blast
  have "\<exists>tr. cd_trace u = cd_trace s @ tr \<and> (\<forall>e \<in> set tr. P e)" using a b by (intro exI [of _ "a @ b"]) auto
  then show "only_logs P s u" using st tu unfolding only_logs_def by simp
qed

lemma only_logs_emit: "P e \<Longrightarrow> state_io_rel (only_logs P) (cd_emit e)"
  by (simp add: state_io_rel_post only_logs_def)

lemma only_logs_modify:
  "(\<And>s. cd_trace (f s) = cd_trace s \<and> cd_params (f s) = cd_params s \<and> cd_atkeys (f s) = cd_atkeys s \<and>
     cd_decisions (f s) = cd_decisions s) \<Longrightarrow> state_io_rel (only_logs P) (modify_st f)"
  by (simp add: state_io_rel_post only_logs_def)

lemma only_logs_basic [io_intro]:
  "state_io_rel (only_logs P) (cdx f)" "state_io_rel (only_logs P) (cd_alloc E n)"
  "state_io_rel (only_logs P) (on_sessions m)" "state_io_rel (only_logs P) (cd_stop h)"
  "state_io_rel (only_logs P) cd_diverge"
  by (simp_all add: state_io_rel_post only_logs_def cd_alloc_def)

lemma only_logs_json [io_intro]:
  "state_io_rel (only_logs P) (cd_strdup E x)" "state_io_rel (only_logs P) (c_new_object E)"
  "state_io_rel (only_logs P) (c_add_item E name v obj)" "state_io_rel (only_logs P) (c_add_str E name sv obj)"
  "state_io_rel (only_logs P) (c_print E j)"
  "state_io_rel (only_logs P) (sshnpd_monotonic_ms E)" "state_io_rel (only_logs P) (ms_since E start)"
  unfolding sshnpd_monotonic_ms_def ms_since_def cd_strdup_def c_new_object_def c_add_item_def c_add_str_def c_print_def
  by (intro io_rule io_intro)+

end
