(* ===== verification/C_Policy.thy ===== *)
theory C_Policy
  imports C_Daemon_Types
begin

text \<open>
  \<open>authorization.c\<close>, \<open>policy_limits.c\<close> and \<open>policy.c\<close> of the C daemon: canonical atSigns, the cache of policy decisions, how
  far apart a sender's checks are kept, the check itself, which asks the policy service and waits for its answer on the
  monitor connection, the rules of an answer, and the heartbeat the policy service gets. What \<open>policy_limits.c\<close> has word
  for word from the firmware's \<open>noports_policy_limits.c\<close> is the model of \<open>Policy_Limits\<close> under the C daemon's names.
\<close>

section \<open>Canonical atSigns\<close>

definition sshnpd_normalize_atsign :: "string option \<Rightarrow> nat \<Rightarrow> string option" where
  "sshnpd_normalize_atsign input out_len =
     (case input of
        None \<Rightarrow> None
      | Some s \<Rightarrow>
          if out_len < 2 then None
          else if s = [] then None
          else normalize_loop out_len ''@'' (if s ! 0 = CHR ''@'' then drop 1 s else s))"

lemma sshnpd_normalize_canonical:
  "sshnpd_normalize_atsign a n = noports_normalize_atsign a n"
  by (auto simp: sshnpd_normalize_atsign_def noports_normalize_atsign_def hd_conv_nth drop_Suc split: option.split)

section \<open>The cache\<close>

definition POLICY_THROTTLE_SLOTS :: nat where "POLICY_THROTTLE_SLOTS = 8"
definition POLICY_THROTTLE_MS :: ms64 where "POLICY_THROTTLE_MS = 2000"
definition POLICY_WAIT_MS :: ms64 where "POLICY_WAIT_MS = 10000"
definition POLICY_WAIT_CAP_MS :: ms64 where "POLICY_WAIT_CAP_MS = 30000"
definition POLICY_CACHE_MAX_SIZE :: nat where "POLICY_CACHE_MAX_SIZE = 64"
definition POLICY_CACHE_DEFAULT_SIZE :: nat where "POLICY_CACHE_DEFAULT_SIZE = 8"

definition policy_now_millis :: "('w, 'j) cd_env \<Rightarrow> ('w, ms64) cdprog" where
  "policy_now_millis E = do {
     (sec, nsec) \<leftarrow> cdx (cv_clock E);
     ret (sec * 1000 + nsec div 1000000) }"

definition c_draw_copy :: "('w, 'j) cd_env \<Rightarrow> ('w, copy_alloc) cdprog" where
  "c_draw_copy E = do {
     a \<leftarrow> cd_alloc E 1;
     b \<leftarrow> cd_alloc E 1;
     ret (if \<not> a then Copy_no_array else if \<not> b then Copy_no_string else Copy_ok) }"

definition policy_cache_init :: "bool \<Rightarrow> nat \<Rightarrow> int \<times> policy_cache" where
  "policy_cache_init alloc_ok n =
     (if n > POLICY_CACHE_MAX_SIZE then (1, [])
      else if n = 0 then (0, [])
      else if \<not> alloc_ok then (1, [])
      else (0, replicate n zero_entry))"

definition policy_cache_lookup :: "copy_alloc \<Rightarrow> policy_cache \<Rightarrow> string \<Rightarrow> ms64 \<Rightarrow> policy_decision option" where
  "policy_cache_lookup al cache atsign now = noports_policy_cache_lookup al cache (Some atsign) now"

definition policy_cache_store ::
  "copy_alloc \<Rightarrow> policy_cache \<Rightarrow> string \<Rightarrow> policy_decision \<Rightarrow> ms64 \<Rightarrow> int \<times> policy_cache" where
  "policy_cache_store al cache atsign decision now = noports_policy_cache_store al cache (Some atsign) decision now"

section \<open>The throttle\<close>

definition zero_throttle_slot :: throttle_slot where
  "zero_throttle_slot = \<lparr>th_used = False, th_atsign = [], th_kind = NK_NONE, th_checked_at_ms = 0\<rparr>"

definition policy_throttle_init :: policy_throttle where
  "policy_throttle_init = replicate POLICY_THROTTLE_SLOTS zero_throttle_slot"

definition throttle_slot_of :: "string \<Rightarrow> notification_key \<Rightarrow> throttle_slot \<Rightarrow> bool" where
  "throttle_slot_of n kind t \<longleftrightarrow> th_used t \<and> th_kind t = kind \<and> th_atsign t = n"

text \<open>The slot a check is recorded in when the sender has none: a free one, else the one used longest ago.\<close>

definition throttle_victim :: "policy_throttle \<Rightarrow> nat" where
  "throttle_victim th = (case find_index (\<lambda>t. \<not> th_used t) th of Some i \<Rightarrow> i | None \<Rightarrow> argmin th_checked_at_ms th)"

definition policy_throttle_allows ::
  "policy_throttle \<Rightarrow> string \<Rightarrow> notification_key \<Rightarrow> ms64 \<Rightarrow> bool \<times> policy_throttle" where
  "policy_throttle_allows th atsign kind now =
     (case sshnpd_normalize_atsign (Some atsign) SSHNPD_ATSIGN_BUFFER_LEN of
        None \<Rightarrow> (False, th)
      | Some n \<Rightarrow>
          (let own = find_index (throttle_slot_of n kind) th in
           if (case own of Some i \<Rightarrow> now - th_checked_at_ms (th ! i) < POLICY_THROTTLE_MS | None \<Rightarrow> False)
           then (False, th)
           else
             let i = (case own of Some i \<Rightarrow> i | None \<Rightarrow> throttle_victim th) in
             (True, th[i := \<lparr>th_used = True, th_atsign = n, th_kind = kind, th_checked_at_ms = now\<rparr>])))"

section \<open>The gate\<close>

datatype policy_gate_result = POLICY_GATE_ALLOW | POLICY_GATE_DENY | POLICY_GATE_DROP

definition gate_verdict :: "policy_decision \<Rightarrow> policy_gate_result" where
  "gate_verdict d = (if authorized d then POLICY_GATE_ALLOW else POLICY_GATE_DENY)"

definition cd_cached :: "('w, 'j) cd_env \<Rightarrow> string \<Rightarrow> ('w, policy_decision option) cdprog" where
  "cd_cached E client = do {
     now \<leftarrow> policy_now_millis E;
     al \<leftarrow> c_draw_copy E;
     gets (\<lambda>s. policy_cache_lookup al (cd_decisions s) client now) }"

definition cd_throttled :: "('w, 'j) cd_env \<Rightarrow> string \<Rightarrow> notification_key \<Rightarrow> ('w, bool) cdprog" where
  "cd_throttled E client kind = do {
     now \<leftarrow> policy_now_millis E;
     th \<leftarrow> gets cd_throttle;
     let (ok, th') = policy_throttle_allows th client kind now;
     modify_st (cd_throttle_update (\<lambda>_. th'));
     ret (\<not> ok) }"

definition cd_remember :: "('w, 'j) cd_env \<Rightarrow> string \<Rightarrow> policy_decision \<Rightarrow> ('w, unit) cdprog" where
  "cd_remember E client d = do {
     now \<leftarrow> policy_now_millis E;
     al \<leftarrow> c_draw_copy E;
     modify_st (\<lambda>s. s\<lparr>cd_decisions := snd (policy_cache_store al (cd_decisions s) client d now)\<rparr>) }"

definition policy_gate ::
  "('w, 'j) cd_env \<Rightarrow> string \<Rightarrow> notification_key \<Rightarrow> (string \<Rightarrow> ('w, int \<times> policy_decision) cdprog) \<Rightarrow>
   ('w, policy_gate_result \<times> policy_decision) cdprog" where
  "policy_gate E client kind check = do {
     hit \<leftarrow> cd_cached E client;
     case hit of
       Some d \<Rightarrow> ret (gate_verdict d, d)
     | None \<Rightarrow> do {
         throttled \<leftarrow> cd_throttled E client kind;
         if throttled then ret (POLICY_GATE_DROP, zero_decision)
         else do {
           (r, d) \<leftarrow> check client;
           if r \<noteq> 0 then ret (POLICY_GATE_DENY, d)
           else do {
             cd_remember E client d;
             ret (gate_verdict d, d) } } } }"

definition policy_wait_deadline :: "ms64 \<Rightarrow> ms64 \<Rightarrow> ms64" where
  "policy_wait_deadline started last_progress =
     (let deadline = last_progress + POLICY_WAIT_MS; cap = started + POLICY_WAIT_CAP_MS in
      if deadline < cap then deadline else cap)"

section \<open>The rules of a decision\<close>

definition ULONG64_MAX :: int where "ULONG64_MAX = 2 ^ 64 - 1"

text \<open>\<open>strtoul(s, &end, 10)\<close> with 64 bits: \<open>None\<close> when there is no digit, otherwise whether the digits were out of range, the
  value, which a minus sign negates modulo 2^64, and the rest.\<close>

definition strtoul10 :: "string \<Rightarrow> (bool \<times> int \<times> string) option" where
  "strtoul10 s =
     (let t = dropWhile isspace s;
          neg = starts_with ''-'' t;
          u = (if neg \<or> starts_with ''+'' t then tl t else t);
          ds = takeWhile is_digit u;
          v = digits_val ds
      in if ds = [] then None
         else if v > ULONG64_MAX then Some (True, ULONG64_MAX, dropWhile is_digit u)
         else Some (False, (if neg then (- v) mod (ULONG64_MAX + 1) else v), dropWhile is_digit u))"

text \<open>The port part of a rule; \<open>None\<close> skips the rule.\<close>

definition rule_port_matches :: "string \<Rightarrow> u16 \<Rightarrow> bool option" where
  "rule_port_matches port_str port =
     (if port_str = ''*'' then Some True
      else case strtoul10 port_str of
          None \<Rightarrow> None
        | Some (out_of_range, v, rest) \<Rightarrow>
            if rest \<noteq> [] \<or> out_of_range \<or> v < 1 \<or> v > 65535 then None else Some (word_of_int v = port))"

definition entry_permits :: "string \<Rightarrow> u16 \<Rightarrow> string \<Rightarrow> bool" where
  "entry_permits host port entry =
     (case strrchr entry CHR '':'' of
        None \<Rightarrow> False
      | Some colon \<Rightarrow>
          let host_matches = (take colon entry = ''*'' \<or> take colon entry = host) in
          (case rule_port_matches (drop (colon + 1) entry) port of
             None \<Rightarrow> False
           | Some port_matches \<Rightarrow> host_matches \<and> port_matches))"

definition policy_permits_open :: "policy_decision \<Rightarrow> string \<Rightarrow> u16 \<Rightarrow> bool" where
  "policy_permits_open d host port \<longleftrightarrow> list_ex (entry_permits host port) (permit_open d)"

section \<open>Answers of the policy service\<close>

definition POLICY_RPC_INFIX :: string where "POLICY_RPC_INFIX = ''.auth_checks.__rpcs''"

definition without_at :: "string \<Rightarrow> string" where
  "without_at a = (if a \<noteq> [] \<and> a ! 0 = CHR ''@'' then drop 1 a else a)"

definition c_atsign_equals :: "string option \<Rightarrow> string option \<Rightarrow> bool" where
  "c_atsign_equals a b = (case (a, b) of (Some x, Some y) \<Rightarrow> without_at x = without_at y | _ \<Rightarrow> False)"

definition i64_of_dbl :: "(dbl \<Rightarrow> int) \<Rightarrow> dbl \<Rightarrow> int" where
  "i64_of_dbl ub d =
     (case d of Fin r \<Rightarrow> if - (2 ^ 63) - 1 < r \<and> r < 2 ^ 63 then trunc_rat r else ub d | _ \<Rightarrow> ub d)"

text \<open>The rules of an answer. \<open>None\<close> when memory ran out.\<close>

fun copy_rules :: "('w, 'j) cd_env \<Rightarrow> 'j list \<Rightarrow> ('w, string list option) cdprog" where
  "copy_rules E [] = ret (Some [])"
| "copy_rules E (item # items) =
     (case cj_string (cv_cj E) item of
        None \<Rightarrow> copy_rules E items
      | Some entry \<Rightarrow> do {
          dup \<leftarrow> cd_strdup E entry;
          if dup = None then ret None
          else do {
            rest \<leftarrow> copy_rules E items;
            ret (map_option ((#) entry) rest) } })"

text \<open>The payload of a \<open>success\<close>: the result and the decision it leaves.\<close>

definition parse_success :: "('w, 'j) cd_env \<Rightarrow> 'j option \<Rightarrow> ('w, int \<times> policy_decision) cdprog" where
  "parse_success E payload =
     (let cj = cv_cj E;
          auth = IsTrue cj (GetObjectItem cj payload ''authorized'');
          permit_open = GetObjectItem cj payload ''permitOpen'';
          items = (case permit_open of Some a \<Rightarrow> if cj_is_array cj a then cj_elements cj a else [] | None \<Rightarrow> [])
      in if items = [] then ret (0, \<lparr>authorized = auth, permit_open = []\<rparr>)
         else do {
           ok \<leftarrow> cd_alloc E (length items);
           if \<not> ok then ret (1, zero_decision)
           else do {
             rules \<leftarrow> copy_rules E items;
             ret (case rules of
                    None \<Rightarrow> (1, zero_decision)
                  | Some rs \<Rightarrow> (0, \<lparr>authorized = auth, permit_open = rs\<rparr>)) } })"

text \<open>The result, the decision and the type of the response in its buffer of 16 bytes.\<close>

definition policy_parse_response_value ::
  "('w, 'j) cd_env \<Rightarrow> string option \<Rightarrow> int \<Rightarrow> ('w, int \<times> policy_decision \<times> string) cdprog" where
  "policy_parse_response_value E json expected =
     (let cj = cv_cj E in
      case Option.bind json (cj_parse cj) of
        None \<Rightarrow> ret (1, zero_decision, [])
      | Some resp \<Rightarrow>
          let req_id = GetObjectItem cj (Some resp) ''reqId'' in
          if \<not> IsNumber cj req_id \<or> i64_of_dbl (cv_ub_i64 E) (GetNumberValue cj req_id) \<noteq> expected
          then ret (1, zero_decision, [])
          else case str_field cj (Some resp) ''respType'' of
              None \<Rightarrow> ret (1, zero_decision, [])
            | Some ty \<Rightarrow>
                if ty = ''success'' then do {
                  (r, d) \<leftarrow> parse_success E (GetObjectItem cj (Some resp) ''payload'');
                  ret (r, d, fit 16 ty) }
                else ret (0, zero_decision, fit 16 ty))"

definition policy_is_policy_service_message :: "notification \<Rightarrow> sshnpd_params \<Rightarrow> bool" where
  "policy_is_policy_service_message n p \<longleftrightarrow>
     pm_policy p \<noteq> None \<and> nt_key n \<noteq> None \<and> c_atsign_equals (nt_from n) (pm_policy p) \<and>
     (strstr (text_of (nt_key n)) POLICY_RPC_INFIX \<noteq> None \<or> strstr (text_of (nt_key n)) ''.devices.policy.'' \<noteq> None)"

text \<open>Only the configured policy service may answer, and only the question that was asked.\<close>

definition is_policy_response :: "notification \<Rightarrow> sshnpd_params \<Rightarrow> int \<Rightarrow> bool" where
  "is_policy_response n p req_id \<longleftrightarrow>
     c_atsign_equals (nt_from n) (pm_policy p) \<and>
     strstr (text_of (nt_key n)) POLICY_RPC_INFIX \<noteq> None \<and>
     strstr (text_of (nt_key n)) (fit 32 (''.'' @ dec_int req_id @ ''.'')) \<noteq> None"

section \<open>A check\<close>

definition auth_check_payload :: "('w, 'j) cd_env \<Rightarrow> sshnpd_params \<Rightarrow> string \<Rightarrow> ('w, 'j fields) cdprog" where
  "auth_check_payload E p client = do {
     p0 \<leftarrow> c_new_object E;
     p1 \<leftarrow> c_add_str E ''daemonAtsign'' (pm_atsign p) p0;
     p2 \<leftarrow> c_add_str E ''daemonDeviceName'' (Some (pm_device p)) p1;
     p3 \<leftarrow> c_add_str E ''daemonDeviceGroupName'' (Some ''__none__'') p2;
     c_add_str E ''clientAtsign'' (Some client) p3 }"

text \<open>A notification to another atSign, from its key to the call; the result of the first step that fails, or 0.\<close>

definition cd_notify :: "('w, 'j) cd_env \<Rightarrow> string \<Rightarrow> string \<Rightarrow> string \<Rightarrow> ('w, int) cdprog" where
  "cd_notify E receiver name value = do {
     r \<leftarrow> cdx (cv_set_notify_params E);
     if r \<noteq> 0 then ret r
     else do {
       cd_emit (Cd_notify receiver name value);
       cdx (cv_notify E receiver name value) } }"

definition send_auth_check_request :: "('w, 'j) cd_env \<Rightarrow> string \<Rightarrow> int \<Rightarrow> ('w, int) cdprog" where
  "send_auth_check_request E client req_id = do {
     p \<leftarrow> gets cd_params;
     let name = fit 96 (''request.'' @ dec_int req_id @ POLICY_RPC_INFIX);
     let policy = text_of (pm_policy p);
     r \<leftarrow> cdx (cv_create_key E name policy);
     if r \<noteq> 0 then ret 1
     else do {
       fs \<leftarrow> auth_check_payload E p client;
       txt \<leftarrow> c_print E (c_object E fs);
       case txt of
         None \<Rightarrow> ret 1
       | Some payload_str \<Rightarrow> do {
           ok \<leftarrow> cd_alloc E (length payload_str + 64);
           if \<not> ok then ret 1
           else do {
             n \<leftarrow> cdx (cv_set_notify_params E);
             if n \<noteq> 0 then ret 1
             else do {
               let value = fit (length payload_str + 64)
                 (''{\"reqId\":'' @ dec_int req_id @ '',\"payload\":'' @ payload_str @ ''}'');
               cd_emit (Cd_notify policy name value);
               cd_emit (Cd_auth_check client req_id);
               cdx (cv_notify E policy name value) } } } } }"

text \<open>What one message means while a check waits.\<close>

datatype check_step = Check_on | Check_progress | Check_decided policy_decision

definition check_message ::
  "('w, 'j) cd_env \<Rightarrow> sshnpd_params \<Rightarrow> int \<Rightarrow> notification \<Rightarrow> ('w, check_step) cdprog" where
  "check_message E p req_id n =
     (if \<not> (nt_key_init n \<and> nt_from_init n \<and> nt_value_init n) then ret Check_on
      else if c_atsign_equals (nt_from n) (pm_policy p) \<and> nt_key n = None then do { cd_stop Died; ret Check_on }
      else if \<not> is_policy_response n p req_id then ret Check_on
      else do {
        (r, d, ty) \<leftarrow> policy_parse_response_value E (nt_value n) req_id;
        ret (if r \<noteq> 0 then Check_on else if ty = ''ack'' then Check_progress else Check_decided d) })"

definition read_check_message :: "('w, 'j) cd_env \<Rightarrow> int \<Rightarrow> ('w, check_step) cdprog" where
  "read_check_message E req_id = do {
     (r, m) \<leftarrow> cdx (cv_monitor_read E);
     if r \<noteq> 0 then ret Check_on
     else do {
       cd_emit (Cd_message m);
       p \<leftarrow> gets cd_params;
       if mg_type m \<noteq> Msg_notification then ret Check_on
       else case mg_notification m of
           None \<Rightarrow> do { cd_stop Died; ret Check_on }
         | Some n \<Rightarrow> check_message E p req_id n } }"

text \<open>The wait. It denies when its time is over; a process that dies in it returns 1 to a caller that is gone, too.\<close>

fun wait_for_decision ::
  "nat \<Rightarrow> ('w, 'j) cd_env \<Rightarrow> string \<Rightarrow> int \<Rightarrow> ms64 \<Rightarrow> ms64 \<Rightarrow> ('w, int \<times> policy_decision) cdprog" where
  "wait_for_decision 0 E client req_id started progress = do { cd_diverge; ret (1, zero_decision) }"
| "wait_for_decision (Suc fuel) E client req_id started progress = do {
     now \<leftarrow> policy_now_millis E;
     if \<not> now < policy_wait_deadline started progress then ret (0, zero_decision)
     else do {
       step \<leftarrow> read_check_message E req_id;
       dead \<leftarrow> gets (\<lambda>s. cd_end s \<noteq> None);
       if dead then ret (1, zero_decision)
       else case step of
           Check_on \<Rightarrow> wait_for_decision fuel E client req_id started progress
         | Check_progress \<Rightarrow> do {
             now' \<leftarrow> policy_now_millis E;
             wait_for_decision fuel E client req_id started now' }
         | Check_decided d \<Rightarrow> ret (0, d) } }"

definition policy_auth_check :: "('w, 'j) cd_env \<Rightarrow> string \<Rightarrow> ('w, int \<times> policy_decision) cdprog" where
  "policy_auth_check E client = do {
     req_id \<leftarrow> cdx (cv_gettimeofday_us E);
     r \<leftarrow> send_auth_check_request E client req_id;
     if r \<noteq> 0 then ret (1, zero_decision)
     else do {
       started \<leftarrow> policy_now_millis E;
       wait_for_decision (cv_fuel E) E client req_id started started } }"

section \<open>The heartbeat\<close>

definition POLICY_HEARTBEAT_SECONDS :: int where "POLICY_HEARTBEAT_SECONDS = 300"

definition policy_send_heartbeat :: "('w, 'j) cd_env \<Rightarrow> ('w, unit) cdprog" where
  "policy_send_heartbeat E = do {
     s \<leftarrow> get_st;
     case (pm_policy (cd_params s), cd_ping_response s) of
       (Some policy, Some response) \<Rightarrow> do {
         now \<leftarrow> cdx (cv_time E);
         let last = cd_heartbeat_last_sent s;
         if last \<noteq> 0 \<and> now - last < POLICY_HEARTBEAT_SECONDS then ret ()
         else do {
           modify_st (cd_heartbeat_last_sent_update (\<lambda>_. now));
           let name = fit 128 (pm_device (cd_params s) @ ''.devices.policy'');
           r \<leftarrow> cdx (cv_create_key E name policy);
           if r \<noteq> 0 then ret ()
           else do { _ \<leftarrow> cd_notify E policy name response; ret () } } }
     | _ \<Rightarrow> ret () }"

end
