(* ===== verification/C_Envelope.thy ===== *)
theory C_Envelope
  imports C_Policy
begin

text \<open>
  \<open>handler_commons.c\<close>: what the handlers of the C daemon share. Errors to a client, the texts of permit-open lists, the uri of
  the daemon's signing key, managers, the checks of an envelope and its signature, the authentication text for a
  rendezvous server, session keys encrypted for the client, and the signed answer.
\<close>

section \<open>Errors and texts\<close>

definition session_key_name :: "sshnpd_params \<Rightarrow> string \<Rightarrow> string" where
  "session_key_name p session_id = session_id @ ''.'' @ pm_device p"

definition send_session_error ::
  "('w, 'j) cd_env \<Rightarrow> string \<Rightarrow> string option \<Rightarrow> string \<Rightarrow> ('w, int) cdprog" where
  "send_session_error E requester session_id msg =
     (case session_id of
        None \<Rightarrow> ret 1
      | Some sid \<Rightarrow> do {
          p \<leftarrow> gets cd_params;
          ok \<leftarrow> cd_alloc E (length sid + length (pm_device p) + 2);
          if \<not> ok then ret 1
          else do {
            r \<leftarrow> cdx (cv_create_key E (session_key_name p sid) requester);
            if r \<noteq> 0 then ret r else cd_notify E requester (session_key_name p sid) msg } })"

text \<open>A list in a buffer of \<open>n\<close> bytes: the items as far as they fit, and a bracket for what does not.\<close>

fun list_items :: "nat \<Rightarrow> bool \<Rightarrow> string list \<Rightarrow> string \<Rightarrow> string" where
  "list_items n first [] out = out"
| "list_items n first (item # items) out =
     (if length out < n - 1 then list_items n False items (out @ (if first then [] else '', '') @ item) else out)"

definition close_list :: "nat \<Rightarrow> string \<Rightarrow> string" where
  "close_list n out = (if length out < n - 1 then out @ '']'' else take (n - 2) out @ '']'')"

definition permit_item :: "string \<times> u16 \<Rightarrow> string" where
  "permit_item hp = fst hp @ '':'' @ (if snd hp = 0 then ''*'' else dec_nat (unat (snd hp)))"

definition format_permitopen_list :: "(string \<times> u16) list \<Rightarrow> nat \<Rightarrow> string" where
  "format_permitopen_list permits n = close_list n (list_items n True (map permit_item permits) ''['')"

definition format_string_list :: "string list \<Rightarrow> nat \<Rightarrow> string" where
  "format_string_list items n = close_list n (list_items n True items ''['')"

definition enrollment_id_of :: "atkeys \<Rightarrow> string" where
  "enrollment_id_of k = (case ak_enrollment_id k of Some i \<Rightarrow> if i \<noteq> [] then i else ''primary'' | None \<Rightarrow> ''primary'')"

definition public_signing_key_uri :: "('w, 'j) cd_env \<Rightarrow> atkeys \<Rightarrow> string \<Rightarrow> ('w, string option) cdprog" where
  "public_signing_key_uri E k atsign = do {
     let uri = ''public:_apsk.'' @ enrollment_id_of k @ ''.a.__e'' @ atsign;
     ok \<leftarrow> cd_alloc E (length uri + 1);
     ret (if ok then Some uri else None) }"

definition public_signing_key_needs_publishing :: "string option \<Rightarrow> string \<Rightarrow> bool" where
  "public_signing_key_needs_publishing published own \<longleftrightarrow> published \<noteq> Some own"

definition is_manager_atsign :: "sshnpd_params \<Rightarrow> string option \<Rightarrow> bool" where
  "is_manager_atsign p atsign =
     (case atsign of
        None \<Rightarrow> False
      | Some a \<Rightarrow>
          if a = [] \<or> pm_manager_list p = [] then False
          else case sshnpd_normalize_atsign (Some a) SSHNPD_ATSIGN_BUFFER_LEN of
              None \<Rightarrow> False
            | Some n \<Rightarrow> list_ex (\<lambda>m. n = m) (pm_manager_list p))"

section \<open>Envelopes\<close>

definition extract_envelope_from_notification :: "('w, 'j) cd_env \<Rightarrow> notification \<Rightarrow> ('w, 'j option) cdprog" where
  "extract_envelope_from_notification E n =
     (if \<not> nt_from_init n \<or> nt_from n = None then ret None
      else if \<not> nt_value_init n then ret None
      else case nt_value n of
          None \<Rightarrow> ret None
        | Some v \<Rightarrow> do {
            ok \<leftarrow> cd_alloc E (length v + 1);
            ret (if ok then cj_parse (cv_cj E) v else None) })"

definition is_rsa2048_public_key :: "rsa_key \<Rightarrow> bool" where
  "is_rsa2048_public_key key \<longleftrightarrow> significant_bytes (rk_n key) = 256"

definition verify_envelope_signature :: "atchops \<Rightarrow> rsa_key \<Rightarrow> string \<Rightarrow> bytes \<Rightarrow> string \<Rightarrow> string \<Rightarrow> int" where
  "verify_envelope_signature ops key payload signature hashing_algo signing_algo =
     (if hashing_algo \<noteq> ''sha256'' then -1
      else if signing_algo \<noteq> ''rsa2048'' then -1
      else if \<not> is_rsa2048_public_key key then -1
      else if \<not> rsa_verify ops key MD_SHA256 payload signature then -1
      else 0)"

text \<open>A payload that is there and texts in the three other fields.\<close>

definition envelope_has_fields :: "'j cjson \<Rightarrow> 'j \<Rightarrow> bool" where
  "envelope_has_fields cj env \<longleftrightarrow>
     IsString cj (GetObjectItem cj (Some env) ''signature'') \<and> IsString cj (GetObjectItem cj (Some env) ''hashingAlgo'') \<and>
     IsString cj (GetObjectItem cj (Some env) ''signingAlgo'') \<and> GetObjectItem cj (Some env) ''payload'' \<noteq> None"

text \<open>The signature is decoded into the buffer that holds the key's text.\<close>

definition verify_with_key :: "('w, 'j) cd_env \<Rightarrow> 'j \<Rightarrow> string \<Rightarrow> ('w, int) cdprog" where
  "verify_with_key E env pk_text =
     (let cj = cv_cj E; ops = cv_ops E; fld = (\<lambda>n. text_of (str_field cj (Some env) n)) in
      case rsa_populate_public ops pk_text of
        None \<Rightarrow> ret 1
      | Some pk \<Rightarrow>
          (case base64_decode ops (fld ''signature'') (length pk_text) of
             None \<Rightarrow> ret 1
           | Some raw \<Rightarrow> do {
               txt \<leftarrow> c_print E (GetObjectItem cj (Some env) ''payload'');
               case txt of
                 None \<Rightarrow> ret 1
               | Some payloadstr \<Rightarrow>
                   ret (verify_envelope_signature ops pk payloadstr (signature_buffer pk_text raw) (fld ''hashingAlgo'')
                     (fld ''signingAlgo'')) }))"

definition verify_envelope_signature_from :: "('w, 'j) cd_env \<Rightarrow> 'j \<Rightarrow> string \<Rightarrow> ('w, int) cdprog" where
  "verify_envelope_signature_from E env requester =
     (if \<not> envelope_has_fields (cv_cj E) env then ret 1
      else do {
        r \<leftarrow> cdx (cv_create_key E ''publickey'' requester);
        if r \<noteq> 0 then ret 1
        else do {
          (r2, buffer) \<leftarrow> cdx (cv_get_public_key E ''publickey'' requester []);
          case buffer of
            None \<Rightarrow> do { when_st (r2 = 0) (cd_stop Died); ret 1 }
          | Some pk_text \<Rightarrow>
              if r2 \<noteq> 0 then ret 1
              else do {
                cd_emit (Cd_public_key requester pk_text);
                verify_with_key E env pk_text } } })"

text \<open>A whole number from 1 to 65535.\<close>

definition is_valid_port :: "'j cjson \<Rightarrow> 'j option \<Rightarrow> bool" where
  "is_valid_port cj port \<longleftrightarrow> IsNumber cj port \<and>
     (case GetNumberValue cj port of Fin r \<Rightarrow> 1 \<le> r \<and> r \<le> 65535 \<and> r = of_int (trunc_rat r) | _ \<Rightarrow> False)"

definition c_is_valid_session_id :: "string option \<Rightarrow> bool" where
  "c_is_valid_session_id sid =
     (case sid of
        None \<Rightarrow> False
      | Some s \<Rightarrow>
          if length s \<noteq> 36 then False
          else list_all (\<lambda>i. if i = 8 \<or> i = 13 \<or> i = 18 \<or> i = 23 then s ! i = CHR ''-'' else isxdigit (s ! i)) [0..<36])"

datatype payload_type = payload_type_ssh | payload_type_npt

definition verify_payload_contents :: "'j cjson \<Rightarrow> ('j option \<Rightarrow> bool) \<Rightarrow> 'j option \<Rightarrow> payload_type \<Rightarrow> int" where
  "verify_payload_contents cj is_bool payload ty =
     (let it = GetObjectItem cj payload in
      if IsObject cj payload \<and> \<not> c_is_valid_session_id (GetStringValue cj (it ''sessionId'')) then 1
      else case ty of
          payload_type_ssh \<Rightarrow>
            if \<not> (IsObject cj payload \<and> is_bool (it ''direct'')) then 1
            else if \<not> IsTrue cj (it ''direct'') then 1
            else if IsString cj (it ''host'') \<and> is_valid_port cj (it ''port'') then 0 else 1
        | payload_type_npt \<Rightarrow>
            if IsObject cj payload \<and> IsString cj (it ''rvdHost'') \<and> is_valid_port cj (it ''rvdPort'') \<and>
               IsString cj (it ''requestedHost'') \<and> is_valid_port cj (it ''requestedPort'') then 0 else 1)"

definition verify_envelope_contents :: "'j cjson \<Rightarrow> ('j option \<Rightarrow> bool) \<Rightarrow> 'j \<Rightarrow> payload_type \<Rightarrow> int" where
  "verify_envelope_contents cj is_bool env ty =
     (let it = GetObjectItem cj (Some env) in
      if \<not> cj_is_object cj env then 1
      else if \<not> (IsObject cj (it ''payload'') \<and> IsString cj (it ''signature'') \<and> IsString cj (it ''hashingAlgo'') \<and>
                 IsString cj (it ''signingAlgo'')) then 1
      else verify_payload_contents cj is_bool (it ''payload'') ty)"

section \<open>Signed texts\<close>

text \<open>An envelope that holds its payload gets the signature and is printed.\<close>

definition c_signed_envelope :: "('w, 'j) cd_env \<Rightarrow> 'j fields \<Rightarrow> string \<Rightarrow> ('w, string option) cdprog" where
  "c_signed_envelope E e1 b64sig = do {
     e2 \<leftarrow> c_add_str E ''signature'' (Some b64sig) e1;
     e3 \<leftarrow> c_add_str E ''hashingAlgo'' (Some ''sha256'') e2;
     e4 \<leftarrow> c_add_str E ''signingAlgo'' (Some ''rsa2048'') e3;
     c_print E (c_object E e4) }"

text \<open>The authentication text. A payload that could not be printed is read through NULL.\<close>

definition create_rvd_auth_string :: "('w, 'j) cd_env \<Rightarrow> 'j option \<Rightarrow> ('w, string option) cdprog" where
  "create_rvd_auth_string E payload = do {
     let cj = cv_cj E;
     let client_nonce = GetObjectItem cj payload ''clientNonce'';
     let rvd_nonce = GetObjectItem cj payload ''rvdNonce'';
     if \<not> (IsString cj client_nonce \<and> IsString cj rvd_nonce) then ret None
     else do {
       p0 \<leftarrow> c_new_object E;
       p1 \<leftarrow> c_add_item E ''sessionId'' (GetObjectItem cj payload ''sessionId'') p0;
       p2 \<leftarrow> c_add_item E ''clientNonce'' client_nonce p1;
       p3 \<leftarrow> c_add_item E ''rvdNonce'' rvd_nonce p2;
       e0 \<leftarrow> c_new_object E;
       e1 \<leftarrow> c_add_item E ''payload'' (c_object E p3) e0;
       txt \<leftarrow> c_print E (c_object E p3);
       key \<leftarrow> gets cd_signingkey;
       case txt of
         None \<Rightarrow> do { cd_stop Died; ret None }
       | Some signing_input \<Rightarrow>
           (case rsa_sign (cv_ops E) key MD_SHA256 signing_input of
              None \<Rightarrow> ret None
            | Some sig \<Rightarrow>
                (case base64_encode (cv_ops E) sig 384 of
                   None \<Rightarrow> ret None
                 | Some b64 \<Rightarrow> c_signed_envelope E e1 b64)) } }"

section \<open>Session keys\<close>

text \<open>A fresh key or iv in Base64, in a buffer of \<open>n\<close> bytes.\<close>

definition fresh_b64 ::
  "('w, 'j) cd_env \<Rightarrow> ('w \<Rightarrow> bytes option \<times> 'w) \<Rightarrow> nat \<Rightarrow> ('w, string option) cdprog" where
  "fresh_b64 E generate n = do {
     k \<leftarrow> cdx generate;
     case k of
       None \<Rightarrow> ret None
     | Some raw \<Rightarrow> do {
         ok \<leftarrow> cd_alloc E n;
         ret (if ok then base64_encode (cv_ops E) raw n else None) } }"

definition client_ephemeral_key :: "('w, 'j) cd_env \<Rightarrow> string \<Rightarrow> string \<Rightarrow> rsa_key option" where
  "client_ephemeral_key E pk pk_type =
     (if pk_type \<noteq> ''rsa2048'' then None
      else case rsa_populate_public (cv_ops E) pk of
          None \<Rightarrow> None
        | Some ac \<Rightarrow> if is_rsa2048_public_key ac then Some ac else None)"

definition encrypt_for_client :: "('w, 'j) cd_env \<Rightarrow> rsa_key \<Rightarrow> string \<Rightarrow> ('w, string option) cdprog" where
  "encrypt_for_client E ac plaintext = do {
     ok1 \<leftarrow> cd_alloc E 256;
     if \<not> ok1 then ret None
     else do {
       enc \<leftarrow> cdx (cv_rsa_encrypt E ac plaintext);
       case enc of
         None \<Rightarrow> ret None
       | Some bs \<Rightarrow> do {
           ok2 \<leftarrow> cd_alloc E 384;
           ret (if ok2 then base64_encode (cv_ops E) bs 384 else None) } } }"

definition setup_rvd_session_encryption :: "('w, 'j) cd_env \<Rightarrow> 'j option \<Rightarrow> ('w, session_keys option) cdprog" where
  "setup_rvd_session_encryption E payload =
     (case (str_field (cv_cj E) payload ''clientEphemeralPK'', str_field (cv_cj E) payload ''clientEphemeralPKType'') of
        (Some pk, Some pk_type) \<Rightarrow> do {
          k \<leftarrow> fresh_b64 E (cv_generate_key E) 49;
          case k of
            None \<Rightarrow> ret None
          | Some key \<Rightarrow> do {
              i \<leftarrow> fresh_b64 E (cv_generate_iv E) 25;
              case i of
                None \<Rightarrow> ret None
              | Some iv \<Rightarrow>
                  (case client_ephemeral_key E pk pk_type of
                     None \<Rightarrow> ret None
                   | Some ac \<Rightarrow> do {
                       ek \<leftarrow> encrypt_for_client E ac key;
                       if ek = None then ret None
                       else do {
                         ei \<leftarrow> encrypt_for_client E ac iv;
                         ret (case (ek, ei) of
                                (Some a, Some b) \<Rightarrow> Some \<lparr>sk_key = key, sk_iv = iv, sk_enc_key = a, sk_enc_iv = b\<rparr>
                              | _ \<Rightarrow> None) } }) } }
      | _ \<Rightarrow> ret None)"

section \<open>The answer\<close>

definition success_fields ::
  "('w, 'j) cd_env \<Rightarrow> 'j option \<Rightarrow> session_keys option \<Rightarrow> session_keys option \<Rightarrow> ('w, 'j fields) cdprog" where
  "success_fields E session_id c2d d2c = do {
     p0 \<leftarrow> c_new_object E;
     p1 \<leftarrow> c_add_str E ''status'' (Some ''connected'') p0;
     p2 \<leftarrow> c_add_item E ''sessionId'' session_id p1;
     if d2c \<noteq> None then do {
       p3 \<leftarrow> c_add_str E ''aesKeyC2D'' (map_option sk_enc_key c2d) p2;
       p4 \<leftarrow> c_add_str E ''ivC2D'' (map_option sk_enc_iv c2d) p3;
       p5 \<leftarrow> c_add_str E ''aesKeyD2C'' (map_option sk_enc_key d2c) p4;
       c_add_str E ''ivD2C'' (map_option sk_enc_iv d2c) p5 }
     else do {
       p3 \<leftarrow> c_add_str E ''sessionAESKey'' (map_option sk_enc_key c2d) p2;
       c_add_str E ''sessionIV'' (map_option sk_enc_iv c2d) p3 } }"

text \<open>The signed value of the answer.\<close>

definition success_value ::
  "('w, 'j) cd_env \<Rightarrow> 'j option \<Rightarrow> session_keys option \<Rightarrow> session_keys option \<Rightarrow> ('w, string option) cdprog" where
  "success_value E session_id c2d d2c = do {
     fs \<leftarrow> success_fields E session_id c2d d2c;
     e0 \<leftarrow> c_new_object E;
     e1 \<leftarrow> c_add_item E ''payload'' (c_object E fs) e0;
     txt \<leftarrow> c_print E (c_object E fs);
     key \<leftarrow> gets cd_signingkey;
     case txt of
       None \<Rightarrow> ret None
     | Some signing_input \<Rightarrow>
         (case rsa_sign (cv_ops E) key MD_SHA256 signing_input of
            None \<Rightarrow> ret None
          | Some sig \<Rightarrow>
              (case base64_encode (cv_ops E) sig 384 of
                 None \<Rightarrow> ret None
               | Some b64 \<Rightarrow> c_signed_envelope E e1 b64)) }"

definition send_success_payload ::
  "('w, 'j) cd_env \<Rightarrow> 'j option \<Rightarrow> string \<Rightarrow> session_keys option \<Rightarrow> session_keys option \<Rightarrow> ('w, int) cdprog" where
  "send_success_payload E payload requester c2d d2c = do {
     p \<leftarrow> gets cd_params;
     let session_id = GetObjectItem (cv_cj E) payload ''sessionId'';
     case GetStringValue (cv_cj E) session_id of
       None \<Rightarrow> ret 1
     | Some identifier \<Rightarrow> do {
         v \<leftarrow> success_value E session_id c2d d2c;
         case v of
           None \<Rightarrow> ret 1
         | Some final_res_value \<Rightarrow> do {
             ok \<leftarrow> cd_alloc E (length identifier + length (pm_device p) + 2);
             if \<not> ok then ret 1
             else do {
               r \<leftarrow> cdx (cv_create_key E (session_key_name p identifier) requester);
               if r \<noteq> 0 then ret r
               else do {
                 t \<leftarrow> cdx (cv_key_to_string E);
                 if t \<noteq> 0 then ret t
                 else cd_notify E requester (session_key_name p identifier) final_res_value } } } } }"

end
