(* ===== verification/C_Lookup.thy ===== *)
theory C_Lookup
  imports C_Daemon_Types
begin

text \<open>
  \<open>public_lookup.c\<close>: public records read over HTTP straight from the atServer that holds them, in a worker process of its
  own. First the worker, with libcurl and the atDirectory as its environment: the path of a record, the body as it
  arrives, one lookup, where a withdrawn key went, and the worker's two modes with their time budget. Then the daemon's
  side: the worker is started, its output read up to a deadline, and its exit code taken as the result.
\<close>

unbundle bit_operations_syntax

section \<open>The worker\<close>

definition PUBLIC_LOOKUP_TIMEOUT_MS :: int where "PUBLIC_LOOKUP_TIMEOUT_MS = 10000"
definition PUBLIC_LOOKUP_MAX_VALUE_BYTES :: nat where "PUBLIC_LOOKUP_MAX_VALUE_BYTES = 64 * 1024"
definition PUBLIC_LOOKUP_WORKER_FLAG :: string where "PUBLIC_LOOKUP_WORKER_FLAG = ''--__public-lookup''"
definition PUBLIC_LOOKUP_KEY_CHECK_PUBLISHED :: nat where "PUBLIC_LOOKUP_KEY_CHECK_PUBLISHED = 0"
definition PUBLIC_LOOKUP_KEY_CHECK_MISSING :: nat where "PUBLIC_LOOKUP_KEY_CHECK_MISSING = 12"

text \<open>The exit code of a lookup is the number of its \<open>public_lookup_result\<close>.\<close>

definition result_code :: "lookup_result \<Rightarrow> nat" where
  "result_code r = (case r of LOOKUP_FOUND \<Rightarrow> 0 | LOOKUP_NOT_FOUND \<Rightarrow> 1 | LOOKUP_NOT_SERVED \<Rightarrow> 2 | LOOKUP_FAILED \<Rightarrow> 3)"

datatype curl_code = CURLE_OK | CURLE_FILESIZE_EXCEEDED | CURLE_OPERATION_TIMEDOUT | CURLE_WRITE_ERROR | CURLE_other

text \<open>What a transfer delivers: the pieces of the body, how it ends when all of them are taken, the status, and the time at
  which the connection (with TLS, for https) stood.\<close>

record transfer =
  tf_chunks :: "bytes list"
  tf_code :: curl_code
  tf_status :: int
  tf_connected_at :: int

record 'w lookup_env =
  lk_find_atserver :: "string \<Rightarrow> u16 \<Rightarrow> string \<Rightarrow> 'w \<Rightarrow> (int \<times> string option \<times> u16) \<times> 'w"
  lk_alloc :: "nat \<Rightarrow> 'w \<Rightarrow> bool \<times> 'w"
  lk_curl_init :: "'w \<Rightarrow> bool \<times> 'w"
  lk_global_init :: "'w \<Rightarrow> bool \<times> 'w"
  lk_perform :: "string \<Rightarrow> string \<Rightarrow> int \<Rightarrow> 'w \<Rightarrow> transfer \<times> 'w"   \<comment> \<open>scheme, url, timeout\<close>
  lk_clock :: "'w \<Rightarrow> (int \<times> int) \<times> 'w"

record 'w lookup_state =
  lk_world :: 'w
  lk_stdout :: string
  lk_done_by_ms :: int

type_synonym ('w, 'a) lprog = "('w lookup_state, 'a) state"

definition lx :: "('w \<Rightarrow> 'r \<times> 'w) \<Rightarrow> ('w, 'r) lprog" where
  "lx f = State (\<lambda>s. case f (lk_world s) of (r, w) \<Rightarrow> (r, s\<lparr>lk_world := w\<rparr>))"

definition public_lookup_find_atserver ::
  "'w lookup_env \<Rightarrow> lookup_directory \<Rightarrow> string \<Rightarrow> ('w, (string \<times> u16, lookup_result) sum) lprog" where
  "public_lookup_find_atserver L directory atsign =
     (if ld_via_proxy directory then do {
        ok \<leftarrow> lx (lk_alloc L (length (ld_host directory) + 1));
        ret (if ok then Inl (ld_host directory, ld_port directory) else Inr LOOKUP_FAILED) }
      else do {
        (r, host, port) \<leftarrow> lx (lk_find_atserver L (ld_host directory) (ld_port directory) atsign);
        ret (case host of
               None \<Rightarrow> Inr LOOKUP_NOT_SERVED
             | Some h \<Rightarrow> if r \<noteq> 0 then Inr LOOKUP_NOT_SERVED else Inl (h, port)) })"

subsection \<open>The url\<close>

definition hex_upper :: "nat \<Rightarrow> char" where
  "hex_upper n = (if n < 10 then char_of (48 + n) else char_of (55 + n))"

definition percent :: "char \<Rightarrow> string" where
  "percent c = [CHR ''%'', hex_upper (ch c div 16), hex_upper (ch c mod 16)]"

definition c_kept_in_path :: "char \<Rightarrow> bool" where
  "c_kept_in_path c \<longleftrightarrow> is_upper c \<or> is_lower c \<or> is_digit c \<or> c \<in> set (''-._~!$&'' @ [CHR 0x27] @ ''()*+,;=:@'')"

fun c_append_path_segment :: "string \<Rightarrow> nat \<Rightarrow> string \<Rightarrow> string" where
  "c_append_path_segment url url_size [] = url"
| "c_append_path_segment url url_size (c # cs) =
     (if length url + 4 < url_size
      then c_append_path_segment (url @ (if c_kept_in_path c then [c] else percent c)) url_size cs
      else url)"

text \<open>\<open>strncat(url, "/", url_size - strlen(url) - 1)\<close>.\<close>

definition append_slash :: "string \<Rightarrow> nat \<Rightarrow> string" where
  "append_slash url url_size = url @ take (url_size - length url - 1) ''/''"

definition c_lookup_url :: "string \<Rightarrow> string \<Rightarrow> u16 \<Rightarrow> string \<Rightarrow> string \<Rightarrow> nat \<Rightarrow> string" where
  "c_lookup_url scheme host port atsign key url_size =
     c_append_path_segment
       (append_slash
         (c_append_path_segment (fit url_size (scheme @ ''://'' @ host @ '':'' @ dec_nat (unat port) @ ''/'')) url_size atsign)
         url_size)
       url_size key"

subsection \<open>The body\<close>

record body =
  bd_data :: "bytes option"    \<comment> \<open>NULL until the first piece\<close>
  bd_too_big :: bool

definition bd_bytes :: "body \<Rightarrow> bytes" where
  "bd_bytes b = (case bd_data b of None \<Rightarrow> [] | Some bs \<Rightarrow> bs)"

text \<open>\<open>on_body\<close>: whether the piece is taken, and the body with it.\<close>

definition on_body :: "'w lookup_env \<Rightarrow> bytes \<Rightarrow> body \<Rightarrow> ('w, bool \<times> body) lprog" where
  "on_body L chunk b =
     (if length (bd_bytes b) + length chunk > PUBLIC_LOOKUP_MAX_VALUE_BYTES then ret (False, b\<lparr>bd_too_big := True\<rparr>)
      else do {
        ok \<leftarrow> lx (lk_alloc L (length (bd_bytes b) + length chunk + 1));
        ret (ok, if ok then b\<lparr>bd_data := Some (bd_bytes b @ chunk)\<rparr> else b) })"

text \<open>libcurl ends a transfer whose piece is not taken.\<close>

fun receive_body :: "'w lookup_env \<Rightarrow> bytes list \<Rightarrow> curl_code \<Rightarrow> body \<Rightarrow> ('w, curl_code \<times> body) lprog" where
  "receive_body L [] code b = ret (code, b)"
| "receive_body L (chunk # chunks) code b = do {
     (ok, b') \<leftarrow> on_body L chunk b;
     if ok then receive_body L chunks code b' else ret (CURLE_WRITE_ERROR, b') }"

definition utf8_extra :: "u8 \<Rightarrow> nat option" where
  "utf8_extra c =
     (if c = 0 then None
      else if c < 0x80 then Some 0
      else if c AND 0xE0 = 0xC0 then Some 1
      else if c AND 0xF0 = 0xE0 then Some 2
      else if c AND 0xF8 = 0xF0 then Some 3
      else None)"

function is_utf8_text :: "bytes \<Rightarrow> bool" where
  "is_utf8_text [] = True"
| "is_utf8_text (c # cs) =
     (case utf8_extra c of
        None \<Rightarrow> False
      | Some extra \<Rightarrow>
          if extra > length cs then False
          else if \<not> list_all (\<lambda>x. x AND 0xC0 = 0x80) (take extra cs) then False
          else is_utf8_text (drop extra cs))"
  by pat_completeness auto
termination by (relation "measure length") auto

subsection \<open>One lookup\<close>

definition PUBLIC_PREFIX :: string where "PUBLIC_PREFIX = ''public:''"

text \<open>How a finished transfer is read: the result and the text.\<close>

definition transfer_result :: "transfer \<Rightarrow> curl_code \<Rightarrow> body \<Rightarrow> lookup_result \<times> string option" where
  "transfer_result t code b =
     (if code = CURLE_OK \<and> tf_status t = 200 then
        (if is_utf8_text (bd_bytes b) then (LOOKUP_FOUND, Some (c_string (bd_bytes b))) else (LOOKUP_FAILED, None))
      else if code = CURLE_OK \<and> tf_status t = 404 then (LOOKUP_NOT_FOUND, None)
      else if code = CURLE_OK then (LOOKUP_NOT_SERVED, None)
      else if bd_too_big b \<or> code = CURLE_FILESIZE_EXCEEDED then (LOOKUP_FAILED, None)
      else if code = CURLE_OPERATION_TIMEDOUT \<and> tf_connected_at t > 0 then (LOOKUP_FAILED, None)
      else (LOOKUP_NOT_SERVED, None))"

definition public_lookup_at ::
  "'w lookup_env \<Rightarrow> string \<Rightarrow> string \<Rightarrow> u16 \<Rightarrow> string \<Rightarrow> int \<Rightarrow> ('w, lookup_result \<times> string option) lprog" where
  "public_lookup_at L scheme host port uri timeout_ms =
     (case strrchr uri CHR ''@'' of
        None \<Rightarrow> ret (LOOKUP_FAILED, None)
      | Some a \<Rightarrow>
          if \<not> starts_with PUBLIC_PREFIX uri \<or> a < length PUBLIC_PREFIX then ret (LOOKUP_FAILED, None)
          else do {
            let key = take (a - length PUBLIC_PREFIX) (drop (length PUBLIC_PREFIX) uri);
            let url_size = length scheme + length host + 3 * length uri + 32;
            ok1 \<leftarrow> lx (lk_alloc L (length key + 1));
            ok2 \<leftarrow> lx (lk_alloc L url_size);
            ok3 \<leftarrow> lx (lk_curl_init L);
            if \<not> ok1 \<or> \<not> ok2 \<or> \<not> ok3 then ret (LOOKUP_FAILED, None)
            else do {
              t \<leftarrow> lx (lk_perform L scheme (c_lookup_url scheme host port (drop a uri) key url_size) timeout_ms);
              (code, b) \<leftarrow> receive_body L (tf_chunks t) (tf_code t) \<lparr>bd_data = None, bd_too_big = False\<rparr>;
              let (r, value) = transfer_result t code b;
              if r = LOOKUP_FOUND \<and> bd_data b = None then do {
                ok4 \<leftarrow> lx (lk_alloc L 1);
                ret (if ok4 then (r, value) else (LOOKUP_FAILED, None)) }
              else ret (r, value) } })"

subsection \<open>Where a key went\<close>

definition is_lower_id_char :: "char \<Rightarrow> bool" where
  "is_lower_id_char c \<longleftrightarrow> is_lower c \<or> is_digit c \<or> c = CHR ''_'' \<or> c = CHR ''-''"

text \<open>The parts of a key's uri around the place it is published at: what comes before, and the atSign with its \<open>@\<close>.\<close>

definition apsk_parts :: "string \<Rightarrow> (string \<times> string) option" where
  "apsk_parts uri =
     (if \<not> starts_with ''public:_apsk.'' uri then None
      else
        let start = drop 13 uri; id_len = strspn start is_lower_id_char; suffix = drop id_len start in
        if id_len = 0 \<or> \<not> starts_with ''.a.__e@'' suffix then None
        else
          let atsign = drop 6 suffix in
          if drop 1 atsign = [] \<or> (\<exists>c \<in> set (drop 1 atsign). ends_owner c) then None
          else Some (take (13 + id_len) uri, atsign))"

text \<open>The two places are tried in turn; the flag says that a lookup could not tell. \<open>Inr\<close> ends the search.\<close>

fun try_withdrawn ::
  "'w lookup_env \<Rightarrow> string \<Rightarrow> string \<Rightarrow> u16 \<Rightarrow> string \<Rightarrow> string \<times> string \<Rightarrow> int \<Rightarrow> string list \<Rightarrow> bool \<Rightarrow>
   ('w, int \<times> string option) lprog" where
  "try_withdrawn L scheme host port uri parts timeout_ms [] error = ret (if error then 1 else 0, None)"
| "try_withdrawn L scheme host port uri parts timeout_ms (loc # locs) error = do {
     ok \<leftarrow> lx (lk_alloc L (length uri + 1));
     if \<not> ok then ret (1, None)
     else do {
       (r, value) \<leftarrow> public_lookup_at L scheme host port
         (fit (length uri + 1) (fst parts @ ''.'' @ loc @ snd parts)) timeout_ms;
       if r = LOOKUP_FOUND then ret (0, Some loc)
       else try_withdrawn L scheme host port uri parts timeout_ms locs (error \<or> r \<noteq> LOOKUP_NOT_FOUND) } }"

definition public_lookup_withdrawn_to_at ::
  "'w lookup_env \<Rightarrow> string \<Rightarrow> string \<Rightarrow> u16 \<Rightarrow> string \<Rightarrow> int \<Rightarrow> ('w, int \<times> string option) lprog" where
  "public_lookup_withdrawn_to_at L scheme host port uri timeout_ms =
     (case apsk_parts uri of
        None \<Rightarrow> ret (0, None)
      | Some parts \<Rightarrow> try_withdrawn L scheme host port uri parts timeout_ms [''r.__e'', ''d.__e''] False)"

subsection \<open>The two modes\<close>

definition lk_monotonic_ms :: "'w lookup_env \<Rightarrow> ('w, int) lprog" where
  "lk_monotonic_ms L = do {
     (sec, nsec) \<leftarrow> lx (lk_clock L);
     ret (sec * 1000 + nsec div 1000000) }"

definition next_timeout_ms :: "'w lookup_env \<Rightarrow> ('w, int) lprog" where
  "next_timeout_ms L = do {
     done_by \<leftarrow> gets lk_done_by_ms;
     now \<leftarrow> lk_monotonic_ms L;
     let left = done_by - now;
     ret (if left \<le> 0 then 0 else if left < PUBLIC_LOOKUP_TIMEOUT_MS then left else PUBLIC_LOOKUP_TIMEOUT_MS) }"

definition uri_atsign :: "string \<Rightarrow> string" where
  "uri_atsign uri = (case strrchr uri CHR ''@'' of Some i \<Rightarrow> drop i uri | None \<Rightarrow> [])"

text \<open>A lookup, unless the time is over.\<close>

definition timed_lookup ::
  "'w lookup_env \<Rightarrow> lookup_directory \<Rightarrow> string \<times> u16 \<Rightarrow> string \<Rightarrow> ('w, lookup_result \<times> string option) lprog" where
  "timed_lookup L directory server uri = do {
     timeout_ms \<leftarrow> next_timeout_ms L;
     if timeout_ms = 0 then ret (LOOKUP_FAILED, None)
     else public_lookup_at L (ld_scheme directory) (fst server) (snd server) uri timeout_ms }"

definition run_lookup :: "'w lookup_env \<Rightarrow> lookup_directory \<Rightarrow> string \<Rightarrow> ('w, nat) lprog" where
  "run_lookup L directory uri = do {
     found \<leftarrow> public_lookup_find_atserver L directory (uri_atsign uri);
     case found of
       Inr r \<Rightarrow> ret (result_code r)
     | Inl server \<Rightarrow> do {
         (r, value) \<leftarrow> timed_lookup L directory server uri;
         when_st (r = LOOKUP_FOUND) (modify_st (lk_stdout_update (\<lambda>t. t @ (case value of Some v \<Rightarrow> v | None \<Rightarrow> []))));
         ret (result_code r) } }"

definition withdrawn_outcome :: "int \<times> string option \<Rightarrow> nat" where
  "withdrawn_outcome w =
     (case w of (e, location) \<Rightarrow>
        if e \<noteq> 0 then PUBLIC_LOOKUP_KEY_CHECK_UNKNOWN
        else case location of
            None \<Rightarrow> PUBLIC_LOOKUP_KEY_CHECK_MISSING
          | Some l \<Rightarrow> if l = ''r.__e'' then PUBLIC_LOOKUP_KEY_CHECK_REVOKED else PUBLIC_LOOKUP_KEY_CHECK_DELETED)"

definition run_key_check :: "'w lookup_env \<Rightarrow> lookup_directory \<Rightarrow> string \<Rightarrow> ('w, nat) lprog" where
  "run_key_check L directory uri = do {
     found \<leftarrow> public_lookup_find_atserver L directory (uri_atsign uri);
     case found of
       Inr r \<Rightarrow> ret PUBLIC_LOOKUP_KEY_CHECK_UNKNOWN
     | Inl server \<Rightarrow> do {
         (r, value) \<leftarrow> timed_lookup L directory server uri;
         if r = LOOKUP_FOUND then ret PUBLIC_LOOKUP_KEY_CHECK_PUBLISHED
         else if r \<noteq> LOOKUP_NOT_FOUND then ret PUBLIC_LOOKUP_KEY_CHECK_UNKNOWN
         else do {
           left \<leftarrow> next_timeout_ms L;
           if left div 2 = 0 then ret PUBLIC_LOOKUP_KEY_CHECK_UNKNOWN
           else do {
             w \<leftarrow> public_lookup_withdrawn_to_at L (ld_scheme directory) (fst server) (snd server) uri (left div 2);
             ret (withdrawn_outcome w) } } } }"

definition worker_budget_secs :: "string \<Rightarrow> int" where
  "worker_budget_secs mode = (if mode = ''key-check'' then 2 else 1) * PUBLIC_LOOKUP_TIMEOUT_MS div 1000"

text \<open>The arguments after the executable: the flag, the mode, and what \<open>public_lookup_worker_start\<close> passes. The alarm that ends
  a worker which hangs is left to the system.\<close>

definition public_lookup_worker_main :: "'w lookup_env \<Rightarrow> string list \<Rightarrow> ('w, nat) lprog" where
  "public_lookup_worker_main L argv =
     (case argv of
        [exe, flag, mode, scheme, host, port, via, uri] \<Rightarrow>
          (let key_check = (mode = ''key-check'');
               unknown = (if key_check then PUBLIC_LOOKUP_KEY_CHECK_UNKNOWN else result_code LOOKUP_FAILED);
               p = (case strtol10 port of Some (v, _) \<Rightarrow> v | None \<Rightarrow> 0)
           in if (\<not> key_check \<and> mode \<noteq> ''lookup'') \<or> p < 1 \<or> p > 65535 then ret unknown
              else do {
                now \<leftarrow> lk_monotonic_ms L;
                modify_st (lk_done_by_ms_update (\<lambda>_. now + worker_budget_secs mode * 1000));
                ok \<leftarrow> lx (lk_global_init L);
                if \<not> ok then ret unknown
                else do {
                  let directory = \<lparr>ld_host = host, ld_port = word_of_int p, ld_via_proxy = (via = ''proxy''), ld_scheme = scheme\<rparr>;
                  if key_check then run_key_check L directory uri else run_lookup L directory uri } })
      | _ \<Rightarrow> ret (result_code LOOKUP_FAILED))"

section \<open>The daemon's side\<close>

definition public_lookup_worker_init :: "lookup_directory \<Rightarrow> ('w, unit) cdprog" where
  "public_lookup_worker_init directory = modify_st (cd_directory_update (\<lambda>_. Some directory))"

definition worker_arguments :: "string \<Rightarrow> lookup_directory \<Rightarrow> string \<Rightarrow> string \<Rightarrow> string list" where
  "worker_arguments exe_path d mode uri =
     [exe_path, PUBLIC_LOOKUP_WORKER_FLAG, mode, ld_scheme d, ld_host d, dec_nat (unat (ld_port d)),
      if ld_via_proxy d then ''proxy'' else ''atdirectory'', uri]"

text \<open>The pid, or -1, and the descriptor of the worker's output when it is wanted.\<close>

definition public_lookup_worker_start :: "('w, 'j) cd_env \<Rightarrow> string \<Rightarrow> string \<Rightarrow> bool \<Rightarrow> ('w, int \<times> int) cdprog" where
  "public_lookup_worker_start E mode uri wants_output = do {
     d \<leftarrow> gets cd_directory;
     case d of
       None \<Rightarrow> ret (-1, -1)
     | Some directory \<Rightarrow> do {
         exe \<leftarrow> cdx (cv_own_exe_path E);
         case exe of
           None \<Rightarrow> ret (-1, -1)
         | Some exe_path \<Rightarrow> cdx (cv_spawn E (worker_arguments exe_path directory mode uri) wants_output) } }"

text \<open>How reading the worker's output ended.\<close>

datatype gathering = Gathered bytes | Gather_timeout | Gather_overflow

fun gather_output :: "nat \<Rightarrow> ('w, 'j) cd_env \<Rightarrow> int \<Rightarrow> int \<times> int \<Rightarrow> int \<Rightarrow> bytes \<Rightarrow> ('w, gathering) cdprog" where
  "gather_output 0 E fd start deadline_ms out = do { cd_diverge; ret Gather_timeout }"
| "gather_output (Suc fuel) E fd start deadline_ms out = do {
     past \<leftarrow> ms_since E start;
     let left = deadline_ms - past;
     if left \<le> 0 then ret Gather_timeout
     else do {
       p \<leftarrow> cdx (cv_poll E fd left);
       case p of
         Poll_interrupted \<Rightarrow> gather_output fuel E fd start deadline_ms out
       | Poll_none \<Rightarrow> ret Gather_timeout
       | Poll_error \<Rightarrow> ret (Gathered out)
       | Poll_ready \<Rightarrow> do {
           r \<leftarrow> cdx (cv_read E fd 4096);
           case r of
             Read_interrupted \<Rightarrow> gather_output fuel E fd start deadline_ms out
           | Read_failed \<Rightarrow> ret (Gathered out)
           | Read_end \<Rightarrow> ret (Gathered out)
           | Read_bytes bs \<Rightarrow>
               if length out + length bs > PUBLIC_LOOKUP_MAX_VALUE_BYTES then ret Gather_overflow
               else do {
                 ok \<leftarrow> cd_alloc E (length out + length bs + 1);
                 if ok then gather_output fuel E fd start deadline_ms (out @ bs) else ret Gather_overflow } } } }"

definition exit_result :: "wait_status \<Rightarrow> lookup_result" where
  "exit_result st =
     (case st of
        Exited n \<Rightarrow> if n = 0 then LOOKUP_FOUND else if n = 1 then LOOKUP_NOT_FOUND else if n = 2 then LOOKUP_NOT_SERVED
                    else LOOKUP_FAILED
      | Not_exited \<Rightarrow> LOOKUP_FAILED)"

definition public_lookup_direct :: "('w, 'j) cd_env \<Rightarrow> string \<Rightarrow> ('w, lookup_result \<times> string option) cdprog" where
  "public_lookup_direct E uri = do {
     (pid, fd) \<leftarrow> public_lookup_worker_start E ''lookup'' uri True;
     if pid < 0 then ret (LOOKUP_FAILED, None)
     else do {
       start \<leftarrow> cdx (cv_clock E);
       g \<leftarrow> gather_output (cv_fuel E) E fd start ((worker_budget_secs ''lookup'' + 2) * 1000) [];
       _ \<leftarrow> cdx (cv_close E fd);
       when_st (g = Gather_timeout \<or> g = Gather_overflow) (do {
         cd_emit (Cd_killed pid);
         _ \<leftarrow> cdx (cv_kill E pid SIGKILL);
         ret () });
       st \<leftarrow> cdx (cv_wait_for E pid);
       case g of
         Gathered out \<Rightarrow>
           if exit_result st \<noteq> LOOKUP_FOUND then ret (exit_result st, None)
           else if out \<noteq> [] then ret (LOOKUP_FOUND, Some (c_string out))
           else do {
             ok \<leftarrow> cd_alloc E 1;
             ret (if ok then (LOOKUP_FOUND, Some []) else (LOOKUP_FAILED, None)) }
       | _ \<Rightarrow> ret (LOOKUP_FAILED, None) } }"

end
