(* ===== verification/C_Run_Srv.thy ===== *)
theory C_Run_Srv
  imports C_Envelope C_Lookup C_Srv_Control
begin

text \<open>
  \<open>run_srv_process.c\<close>: the relay of a session is this daemon's own executable, started again in a worker mode. Its arguments
  carry what is not secret, its environment the secrets. The processes started are watched until each reports that it has
  reached the relay; one that does not is stopped.
\<close>

section \<open>Starting a relay\<close>

definition SRV_WORKER_FLAG :: string where "SRV_WORKER_FLAG = ''--__srv-worker''"
definition SRV_MAX_TIMEOUT_SECONDS :: int where "SRV_MAX_TIMEOUT_SECONDS = 365 * 24 * 60 * 60"
definition SRV_START_TIMEOUT_MS :: int where "SRV_START_TIMEOUT_MS = 15000"
definition SRV_COMPLETION_STRING :: string where "SRV_COMPLETION_STRING = ''rv started successfully''"

record escr_context =
  ec_session_id :: string
  ec_aes_key_base64 :: string
  ec_signing_key_uri :: string
  ec_signing_key_base64 :: string

text \<open>The arguments of \<open>run_srv_process\<close>; the session keys are key and iv of either direction.\<close>

record srv_request =
  sq_srvd_host :: string
  sq_srvd_port :: u16
  sq_requested_host :: "string option"
  sq_requested_port :: u16
  sq_authenticate :: bool
  sq_auth_string :: "string option"
  sq_escr :: "escr_context option"
  sq_encrypt :: bool
  sq_multi :: bool
  sq_timeout_seconds :: int
  sq_c2d :: "string \<times> string"
  sq_d2c :: "(string \<times> string) option"

definition local_host_of :: "srv_request \<Rightarrow> string" where
  "local_host_of q = (case sq_requested_host q of Some h \<Rightarrow> h | None \<Rightarrow> ''localhost'')"

definition local_port_of :: "srv_request \<Rightarrow> u16" where
  "local_port_of q = (if sq_requested_port q \<noteq> 0 then sq_requested_port q else 22)"

definition timeout_of :: "srv_request \<Rightarrow> int" where
  "timeout_of q = (if sq_timeout_seconds q > 0 then sq_timeout_seconds q else SRV_DEFAULT_TIMEOUT_SECONDS)"

definition auth_variables :: "srv_request \<Rightarrow> (string \<times> string) list" where
  "auth_variables q =
     (case sq_escr q of
        Some e \<Rightarrow>
          [(''REMOTE_AUTH_ESCR_SESSION_ID'', ec_session_id e), (''REMOTE_AUTH_ESCR_AES_KEY'', ec_aes_key_base64 e),
           (''REMOTE_AUTH_ESCR_PUB_KEY_URI'', ec_signing_key_uri e),
           (''REMOTE_AUTH_ESCR_SIGNING_PRIVKEY'', ec_signing_key_base64 e), (''REMOTE_AUTH_ESCR_IS_SIDE_A'', ''false'')]
      | None \<Rightarrow> (case sq_auth_string q of Some a \<Rightarrow> if sq_authenticate q then [(''RV_AUTH'', a)] else [] | None \<Rightarrow> []))"

definition key_variables :: "srv_request \<Rightarrow> (string \<times> string) list" where
  "key_variables q =
     (if \<not> sq_encrypt q then []
      else [(''RV_AES_C2D'', fst (sq_c2d q)), (''RV_IV_C2D'', snd (sq_c2d q))] @
        (case sq_d2c q of Some (k, i) \<Rightarrow> [(''RV_AES_D2C'', k), (''RV_IV_D2C'', i)] | None \<Rightarrow> []))"

definition srv_arguments :: "srv_request \<Rightarrow> string list" where
  "srv_arguments q =
     [''-h'', sq_srvd_host q, ''-p'', fit 6 (dec_nat (unat (sq_srvd_port q))),
      ''--local-port'', fit 6 (dec_nat (unat (local_port_of q))), ''--local-host'', local_host_of q,
      ''--timeout'', fit 16 (dec_int (timeout_of q))] @
     (if sq_multi q then [''--multi''] else []) @
     (if sq_encrypt q then [''--rv-e2ee''] else []) @
     (if sq_escr q \<noteq> None then [''--relay-auth-mode'', ''escr'']
      else if sq_authenticate q then [''--rv-auth''] else [])"

text \<open>In the child. It returns only when the executable could not be started.\<close>

definition run_srv_process :: "('w, 'j) cd_env \<Rightarrow> srv_request \<Rightarrow> int \<Rightarrow> ('w, int) cdprog" where
  "run_srv_process E q ready_fd = do {
     exe \<leftarrow> cdx (cv_own_exe_path E);
     case exe of
       None \<Rightarrow> ret (-1)
     | Some exe_path \<Rightarrow> do {
         d \<leftarrow> (if ready_fd \<ge> 0 then cdx (cv_dup2 E ready_fd 3) else ret (-1));
         let vars = auth_variables q @ key_variables q @ (if ready_fd \<ge> 0 \<and> d = 3 then [(''SRV_READY_FD'', ''3'')] else []);
         cd_emit (Cd_exec (srv_arguments q) vars);
         gone \<leftarrow> cdx (cv_execv E (exe_path # SRV_WORKER_FLAG # srv_arguments q) vars);
         when_st gone (cd_stop Replaced);
         ret (-1) } }"

section \<open>Watching it start\<close>

definition forget_start :: "('w, 'j) cd_env \<Rightarrow> nat \<Rightarrow> ('w, unit) cdprog" where
  "forget_start E i = do {
     x \<leftarrow> gets (\<lambda>s. cd_starts s ! i);
     _ \<leftarrow> cdx (cv_close E (st_ready_fd x));
     modify_st (cd_starts_update (swap_remove i)) }"

text \<open>The array doubles when it is full.\<close>

definition grow_starts :: "('w, 'j) cd_env \<Rightarrow> ('w, bool) cdprog" where
  "grow_starts E = do {
     s \<leftarrow> get_st;
     if length (cd_starts s) = cd_start_capacity s then do {
       let capacity = (if cd_start_capacity s = 0 then 8 else cd_start_capacity s * 2);
       ok \<leftarrow> cd_alloc E capacity;
       when_st ok (modify_st (cd_start_capacity_update (\<lambda>_. capacity)));
       ret ok }
     else ret True }"

definition srv_starts_watch :: "('w, 'j) cd_env \<Rightarrow> int \<Rightarrow> int \<Rightarrow> int \<Rightarrow> ('w, unit) cdprog" where
  "srv_starts_watch E pid ready_fd now = do {
     ok \<leftarrow> grow_starts E;
     if \<not> ok then do { _ \<leftarrow> cdx (cv_close E ready_fd); ret () }
     else modify_st (cd_starts_update (\<lambda>xs. xs @ [\<lparr>st_pid = pid, st_ready_fd = ready_fd, st_started_ms = now, st_seen = []\<rparr>])) }"

text \<open>\<open>sizeof(seen) - 1\<close>, with room for twice the completion string and its terminator.\<close>

definition SEEN_MAX :: nat where "SEEN_MAX = 2 * (length SRV_COMPLETION_STRING + 1) - 1"

text \<open>Reads what there is: the text so far, and whether the start is over.\<close>

fun start_settled :: "nat \<Rightarrow> ('w, 'j) cd_env \<Rightarrow> int \<Rightarrow> bytes \<Rightarrow> ('w, bool \<times> bytes) cdprog" where
  "start_settled 0 E fd seen = do { cd_diverge; ret (False, seen) }"
| "start_settled (Suc fuel) E fd seen = do {
     p \<leftarrow> cdx (cv_poll E fd 0);
     case p of
       Poll_interrupted \<Rightarrow> start_settled fuel E fd seen
     | Poll_none \<Rightarrow> ret (False, seen)
     | Poll_error \<Rightarrow> ret (False, seen)
     | Poll_ready \<Rightarrow> do {
         r \<leftarrow> cdx (cv_read E fd (SEEN_MAX - length seen));
         case r of
           Read_interrupted \<Rightarrow> start_settled fuel E fd seen
         | Read_failed \<Rightarrow> ret (True, seen)
         | Read_end \<Rightarrow> ret (True, seen)
         | Read_bytes bs \<Rightarrow>
             (let seen' = seen @ bs in
              if strstr (c_string seen') SRV_COMPLETION_STRING \<noteq> None then ret (True, seen')
              else start_settled fuel E fd (if length seen' = SEEN_MAX then [] else seen')) } }"

text \<open>One watched start; whether it is still watched.\<close>

definition poll_start :: "('w, 'j) cd_env \<Rightarrow> int \<Rightarrow> nat \<Rightarrow> ('w, bool) cdprog" where
  "poll_start E now i = do {
     x \<leftarrow> gets (\<lambda>s. cd_starts s ! i);
     (over, seen) \<leftarrow> start_settled (cv_fuel E) E (st_ready_fd x) (st_seen x);
     modify_st (cd_starts_update (\<lambda>xs. xs[i := x\<lparr>st_seen := seen\<rparr>]));
     if over then do { forget_start E i; ret False }
     else if now - st_started_ms x \<ge> SRV_START_TIMEOUT_MS then do {
       cd_emit (Cd_killed (st_pid x));
       _ \<leftarrow> cdx (cv_kill E (st_pid x) SIGTERM);
       forget_start E i;
       ret False }
     else ret True }"

text \<open>A start that is forgotten is replaced by the last one, which is looked at next. Every round moves on or removes one, so
  one round for each start is enough.\<close>

fun poll_starts :: "nat \<Rightarrow> ('w, 'j) cd_env \<Rightarrow> int \<Rightarrow> nat \<Rightarrow> ('w, unit) cdprog" where
  "poll_starts 0 E now i = ret ()"
| "poll_starts (Suc k) E now i = do {
     n \<leftarrow> gets (\<lambda>s. length (cd_starts s));
     if \<not> i < n then ret ()
     else do {
       still \<leftarrow> poll_start E now i;
       poll_starts k E now (if still then Suc i else i) } }"

definition srv_starts_poll :: "('w, 'j) cd_env \<Rightarrow> int \<Rightarrow> ('w, unit) cdprog" where
  "srv_starts_poll E now = do {
     n \<leftarrow> gets (\<lambda>s. length (cd_starts s));
     poll_starts (Suc n) E now 0 }"

definition srv_starts_reaped :: "('w, 'j) cd_env \<Rightarrow> int \<Rightarrow> ('w, unit) cdprog" where
  "srv_starts_reaped E pid = do {
     found \<leftarrow> gets (\<lambda>s. find_index (\<lambda>x. st_pid x = pid) (cd_starts s));
     case found of None \<Rightarrow> ret () | Some i \<Rightarrow> forget_start E i }"

definition srv_starts_count :: "'w cdaemon \<Rightarrow> nat" where
  "srv_starts_count s = length (cd_starts s)"

end
