(* ===== verification/C_Srv_Worker.thy ===== *)
theory C_Srv_Worker
  imports Arg_Parse C_Run_Srv C_Srv_Main
begin

text \<open>
  The relay as a process of its own: what \<open>main.c\<close> does when the daemon started it in its worker mode, with the command line of
  \<open>params.c\<close>. The arguments and the environment that \<open>run_srv_process\<close> gives to \<open>execv\<close> come out of this parser as they went
  in, whatever characters the client put into host names.
\<close>

section \<open>The command line of the relay\<close>

definition srv_option_list :: "opt_spec list" where
  "srv_option_list =
     [OPT_HELP, OPT_STRING (Some (CHR ''h'')) ''host'', OPT_INTEGER (Some (CHR ''p'')) ''port'', OPT_INTEGER None ''local-port'',
      OPT_STRING None ''local-host'', OPT_BOOLEAN None ''rv-auth'', OPT_STRING (Some (CHR ''a'')) ''relay-auth-mode'',
      OPT_BOOLEAN None ''rv-e2ee'', OPT_BOOLEAN None ''multi'', OPT_INTEGER None ''timeout'']"

definition srv_options_given :: "arg_values \<Rightarrow> srv_options" where
  "srv_options_given vs = \<lparr>so_host = given_string vs ''host'', so_port = given_int vs ''port'',
     so_local_port = given_int vs ''local-port'', so_local_host = given_string vs ''local-host'',
     so_rv_auth = given_bool vs ''rv-auth'', so_relay_auth_mode = given_string vs ''relay-auth-mode'',
     so_rv_e2ee = given_bool vs ''rv-e2ee'', so_multi = given_bool vs ''multi'', so_timeout = given_int vs ''timeout''\<rparr>"

text \<open>\<open>parse_srv_params\<close> from the arguments on; \<open>Inl\<close> is the status the process ends with.\<close>

definition parse_srv_arguments ::
  "(string \<Rightarrow> rsa_key option) \<Rightarrow> bool \<Rightarrow> (string \<Rightarrow> string option) \<Rightarrow> srv_environment option \<Rightarrow> string list \<Rightarrow>
   srv_params \<Rightarrow> nat + srv_params" where
  "parse_srv_arguments populate mem_ok getenv environment args p =
     (case argparse_parse srv_option_list args of
        Inl status \<Rightarrow> Inl status
      | Inr given \<Rightarrow>
          (case parse_srv_params populate mem_ok getenv environment (srv_options_given (ar_values given)) p of
             None \<Rightarrow> Inl 1
           | Some q \<Rightarrow> Inr q))"

section \<open>The worker mode\<close>

text \<open>\<open>atoi\<close>.\<close>

definition atoi :: "string \<Rightarrow> int" where
  "atoi s = (case strtol10 s of Some (n, _) \<Rightarrow> n | None \<Rightarrow> 0)"

definition worker_ready_fd :: "(string \<Rightarrow> string option) \<Rightarrow> srv_params \<Rightarrow> srv_params" where
  "worker_ready_fd getenv p = (case getenv ''SRV_READY_FD'' of Some t \<Rightarrow> p\<lparr>sp_ready_fd := atoi t\<rparr> | None \<Rightarrow> p)"

definition worker_params ::
  "(string \<Rightarrow> rsa_key option) \<Rightarrow> bool \<Rightarrow> (string \<Rightarrow> string option) \<Rightarrow> string list \<Rightarrow> nat + srv_params" where
  "worker_params populate mem_ok getenv args =
     (case parse_srv_arguments populate mem_ok getenv None args apply_default_values_to_srv_params of
        Inl status \<Rightarrow> Inl 1
      | Inr p \<Rightarrow> Inr (worker_ready_fd getenv p))"

definition srv_worker ::
  "(string \<Rightarrow> rsa_key option) \<Rightarrow> bool \<Rightarrow> (string \<Rightarrow> string option) \<Rightarrow> ('w, 'k) srv_env \<Rightarrow> string list \<Rightarrow> ('w, 'k, int) sprog" where
  "srv_worker populate mem_ok getenv E args =
     (case worker_params populate mem_ok getenv args of
        Inl status \<Rightarrow> ret (int status)
      | Inr p \<Rightarrow> run_srv E p)"

section \<open>From a request to the relay's parameters\<close>

text \<open>The environment of the worker: what the daemon set, over what it had itself.\<close>

definition environment_of :: "(string \<times> string) list \<Rightarrow> (string \<Rightarrow> string option) \<Rightarrow> string \<Rightarrow> string option" where
  "environment_of vars inherited name = (case map_of vars name of Some v \<Rightarrow> Some v | None \<Rightarrow> inherited name)"

text \<open>What a relay for this request should know.\<close>

definition requested_params :: "(string \<Rightarrow> rsa_key option) \<Rightarrow> srv_request \<Rightarrow> srv_params" where
  "requested_params populate q =
     apply_default_values_to_srv_params\<lparr>
       sp_host := Some (sq_srvd_host q), sp_port := sq_srvd_port q,
       sp_local_port := local_port_of q, sp_local_host := local_host_of q,
       sp_rv_auth := (sq_authenticate q \<and> sq_escr q = None), sp_rv_e2ee := sq_encrypt q, sp_multi := sq_multi q,
       sp_timeout := timeout_of q,
       sp_rvd_auth_string := (if sq_authenticate q \<and> sq_escr q = None then sq_auth_string q else None),
       sp_escr_auth := (sq_escr q \<noteq> None), sp_escr_is_side_a := False,
       sp_escr_session_id := map_option ec_session_id (sq_escr q),
       sp_escr_aes_key_base64 := map_option ec_aes_key_base64 (sq_escr q),
       sp_escr_signing_key_uri := map_option ec_signing_key_uri (sq_escr q),
       sp_escr_signing_key := Option.bind (sq_escr q) (\<lambda>e. populate (ec_signing_key_base64 e)),
       sp_aes_key_c2d := (if sq_encrypt q then Some (fst (sq_c2d q)) else None),
       sp_aes_iv_c2d := (if sq_encrypt q then Some (snd (sq_c2d q)) else None),
       sp_aes_key_d2c := (if sq_encrypt q then map_option fst (sq_d2c q) else None),
       sp_aes_iv_d2c := (if sq_encrypt q then map_option snd (sq_d2c q) else None)\<rparr>"

text \<open>A request the daemon may make: with a port, a timeout that is an \<open>int\<close>, and what the authentication it asks for
  needs.\<close>

definition well_formed_request :: "(string \<Rightarrow> rsa_key option) \<Rightarrow> srv_request \<Rightarrow> bool" where
  "well_formed_request populate q \<longleftrightarrow> sq_srvd_port q \<noteq> 0 \<and> sq_timeout_seconds q < 2 ^ 31 \<and>
     (case sq_escr q of
        Some e \<Rightarrow> populate (ec_signing_key_base64 e) \<noteq> None
      | None \<Rightarrow> sq_authenticate q \<longrightarrow> sq_auth_string q \<noteq> None)"

lemma selects_short:
  assumes "List.find (\<lambda>opt. op_short opt = Some c) opts = Some opt" "c \<noteq> CHR ''-''"
  shows "selects opts [CHR ''-'', c] opt"
proof -
  have "arg_step opts [CHR ''-'', c] s = (case argparse_getvalue opt False (s\<lparr>ar_optvalue := None\<rparr>) of
      Inl status \<Rightarrow> Inl status
    | Inr s' \<Rightarrow> if ar_optvalue s' = None then Inr s' else Inr s')" for s
    using assms by (simp add: arg_step_def split: sum.split)
  moreover have "(case r of Inl status \<Rightarrow> Inl status | Inr s' \<Rightarrow> if P s' then Inr s' else Inr s') = r"
    for r :: arg_result and P by (cases r) simp_all
  ultimately show ?thesis using assms(2) by (simp add: selects_def arg_at_def)
qed

lemma srv_selects:
  "selects srv_option_list ''-h'' (OPT_STRING (Some (CHR ''h'')) ''host'')"
  "selects srv_option_list ''-p'' (OPT_INTEGER (Some (CHR ''p'')) ''port'')"
  "selects srv_option_list ''--local-port'' (OPT_INTEGER None ''local-port'')"
  "selects srv_option_list ''--local-host'' (OPT_STRING None ''local-host'')"
  "selects srv_option_list ''--timeout'' (OPT_INTEGER None ''timeout'')"
  "selects srv_option_list ''--multi'' (OPT_BOOLEAN None ''multi'')"
  "selects srv_option_list ''--rv-e2ee'' (OPT_BOOLEAN None ''rv-e2ee'')"
  "selects srv_option_list ''--relay-auth-mode'' (OPT_STRING (Some (CHR ''a'')) ''relay-auth-mode'')"
  "selects srv_option_list ''--rv-auth'' (OPT_BOOLEAN None ''rv-auth'')"
  by (rule selects_short, simp_all add: srv_option_list_def OPT_HELP_def OPT_STRING_def OPT_INTEGER_def OPT_BOOLEAN_def plain_option_def)+
    (simp_all add: selects_def arg_step_def long_match_def starts_with_def srv_option_list_def
      OPT_HELP_def OPT_STRING_def OPT_INTEGER_def OPT_BOOLEAN_def plain_option_def)

lemma srv_loop:
  "argparse_loop srv_option_list (arg_at (''-h'' # v # args) vs) = argparse_loop srv_option_list (arg_at args ((''host'', String_value v) # vs))"
  "0 < n \<Longrightarrow> n < 2 ^ 31 \<Longrightarrow> argparse_loop srv_option_list (arg_at (''-p'' # dec_nat n # args) vs) =
     argparse_loop srv_option_list (arg_at args ((''port'', Int_value (int n)) # vs))"
  "0 < n \<Longrightarrow> n < 2 ^ 31 \<Longrightarrow> argparse_loop srv_option_list (arg_at (''--local-port'' # dec_nat n # args) vs) =
     argparse_loop srv_option_list (arg_at args ((''local-port'', Int_value (int n)) # vs))"
  "argparse_loop srv_option_list (arg_at (''--local-host'' # v # args) vs) =
     argparse_loop srv_option_list (arg_at args ((''local-host'', String_value v) # vs))"
  "0 < n \<Longrightarrow> n < 2 ^ 31 \<Longrightarrow> argparse_loop srv_option_list (arg_at (''--timeout'' # dec_nat n # args) vs) =
     argparse_loop srv_option_list (arg_at args ((''timeout'', Int_value (int n)) # vs))"
  "argparse_loop srv_option_list (arg_at (''--multi'' # args) vs) = argparse_loop srv_option_list (arg_at args ((''multi'', Bool_value True) # vs))"
  "argparse_loop srv_option_list (arg_at (''--rv-e2ee'' # args) vs) = argparse_loop srv_option_list (arg_at args ((''rv-e2ee'', Bool_value True) # vs))"
  "argparse_loop srv_option_list (arg_at (''--relay-auth-mode'' # v # args) vs) =
     argparse_loop srv_option_list (arg_at args ((''relay-auth-mode'', String_value v) # vs))"
  "argparse_loop srv_option_list (arg_at (''--rv-auth'' # args) vs) = argparse_loop srv_option_list (arg_at args ((''rv-auth'', Bool_value True) # vs))"
  using loop_string [OF srv_selects(1)] loop_integer [OF srv_selects(2)] loop_integer [OF srv_selects(3)] loop_string [OF srv_selects(4)]
    loop_integer [OF srv_selects(5)] loop_flag [OF srv_selects(6)] loop_flag [OF srv_selects(7)] loop_string [OF srv_selects(8)]
    loop_flag [OF srv_selects(9)]
  by (simp_all add: OPT_STRING_def OPT_INTEGER_def OPT_BOOLEAN_def plain_option_def)

lemma u16_bound: "unat (x :: u16) < 65536"
  using unsigned_less [of x, where ?'a = nat] by simp

lemma fit_port: "fit 6 (dec_nat (unat (x :: u16))) = dec_nat (unat x)"
proof -
  have "unat x < 10 ^ 5" using u16_bound [of x] by simp
  from dec_nat_length [OF this] show ?thesis by (simp add: fit_def)
qed

lemma fit_timeout:
  assumes "0 < t" "t < 2 ^ 31"
  shows "fit 16 (dec_int t) = dec_nat (nat t)"
proof -
  have "nat t < 10 ^ 10" using assms by simp
  from dec_nat_length [OF this] show ?thesis using assms(1) by (simp add: fit_def dec_int_def)
qed

text \<open>What the parser stores for a request, the latest first.\<close>

definition request_values :: "srv_request \<Rightarrow> arg_values" where
  "request_values q =
     (if sq_escr q \<noteq> None then [(''relay-auth-mode'', String_value ''escr'')]
      else if sq_authenticate q then [(''rv-auth'', Bool_value True)] else []) @
     (if sq_encrypt q then [(''rv-e2ee'', Bool_value True)] else []) @
     (if sq_multi q then [(''multi'', Bool_value True)] else []) @
     [(''timeout'', Int_value (timeout_of q)), (''local-host'', String_value (local_host_of q)),
      (''local-port'', Int_value (int (unat (local_port_of q)))), (''port'', Int_value (int (unat (sq_srvd_port q)))),
      (''host'', String_value (sq_srvd_host q))]"

lemma local_port_nonzero: "local_port_of q \<noteq> 0"
  by (simp add: local_port_of_def)

lemma u16_small: "unat (x :: u16) < 2 ^ 31"
  using u16_bound [of x] by simp

lemma arguments_parsed:
  assumes "0 < a" "a < 2 ^ 31" "0 < b" "b < 2 ^ 31" "0 < t" "t < 2 ^ 31"
  shows "argparse_loop srv_option_list (arg_at ([''-h'', h, ''-p'', dec_nat a, ''--local-port'', dec_nat b, ''--local-host'', l,
      ''--timeout'', dec_nat t] @ (if m then [''--multi''] else []) @ (if e then [''--rv-e2ee''] else []) @
      (if x then [''--relay-auth-mode'', ''escr''] else if r then [''--rv-auth''] else [])) []) =
    Inr (arg_at [] ((if x then [(''relay-auth-mode'', String_value ''escr'')]
        else if r then [(''rv-auth'', Bool_value True)] else []) @
      (if e then [(''rv-e2ee'', Bool_value True)] else []) @ (if m then [(''multi'', Bool_value True)] else []) @
      [(''timeout'', Int_value (int t)), (''local-host'', String_value l), (''local-port'', Int_value (int b)),
       (''port'', Int_value (int a)), (''host'', String_value h)]))"
  using assms by (simp add: srv_loop loop_done)

lemma request_parsed:
  assumes "well_formed_request populate q"
  shows "argparse_parse srv_option_list (srv_arguments q) = Inr (arg_at [] (request_values q))"
proof -
  have t: "0 < timeout_of q" "timeout_of q < 2 ^ 31"
    using assms by (simp_all add: timeout_of_def well_formed_request_def SRV_DEFAULT_TIMEOUT_SECONDS_def)
  have n: "0 < nat (timeout_of q)" "nat (timeout_of q) < 2 ^ 31" "int (nat (timeout_of q)) = timeout_of q" using t by simp_all
  have p: "0 < unat (sq_srvd_port q)" "0 < unat (local_port_of q)"
    using assms local_port_nonzero [of q] by (simp_all add: well_formed_request_def unat_gt_0)
  have "argparse_parse srv_option_list (srv_arguments q) = argparse_loop srv_option_list (arg_at (srv_arguments q) [])"
    by (simp add: argparse_parse_def arg_at_def)
  also have "\<dots> = Inr (arg_at [] (request_values q))"
    unfolding srv_arguments_def fit_port fit_timeout [OF t] arguments_parsed [OF p(1) u16_small p(2) u16_small n(1,2)]
      request_values_def n(3) ..
  finally show ?thesis .
qed

text \<open>The variables a relay reads although the daemon may not have set them.\<close>

definition plain_environment :: "(string \<Rightarrow> string option) \<Rightarrow> bool" where
  "plain_environment inherited \<longleftrightarrow> list_all (\<lambda>name. inherited name = None) [''RV_AES_D2C'', ''RV_IV_D2C'', ''SRV_READY_FD'']"

definition ready_variables :: "bool \<Rightarrow> (string \<times> string) list" where
  "ready_variables ready = (if ready then [(''SRV_READY_FD'', ''3'')] else [])"

lemma request_options:
  "srv_options_given (request_values q) = \<lparr>so_host = Some (sq_srvd_host q), so_port = Some (int (unat (sq_srvd_port q))),
     so_local_port = Some (int (unat (local_port_of q))), so_local_host = Some (local_host_of q),
     so_rv_auth = (sq_authenticate q \<and> sq_escr q = None),
     so_relay_auth_mode = (if sq_escr q \<noteq> None then Some ''escr'' else None), so_rv_e2ee = sq_encrypt q, so_multi = sq_multi q,
     so_timeout = Some (timeout_of q)\<rparr>"
  by (simp add: srv_options_given_def request_values_def given_string_def given_int_def given_bool_def)

text \<open>The parser's stages, one by one.\<close>

definition request_ports :: "srv_request \<Rightarrow> srv_params" where
  "request_ports q = apply_default_values_to_srv_params\<lparr>sp_host := Some (sq_srvd_host q), sp_port := sq_srvd_port q,
     sp_local_port := local_port_of q, sp_local_host := local_host_of q,
     sp_rv_auth := (sq_authenticate q \<and> sq_escr q = None), sp_rv_e2ee := sq_encrypt q, sp_multi := sq_multi q,
     sp_timeout := timeout_of q\<rparr>"

lemma uint_u16: "0 \<le> uint (x :: u16) \<and> uint x \<le> 65535 \<and> (x \<noteq> 0 \<longrightarrow> 1 \<le> uint x)"
proof -
  have "uint x < 65536" "0 \<le> uint x" using unsigned_less [of x, where ?'a = int] by simp_all
  moreover have "x \<noteq> 0 \<longrightarrow> uint x \<noteq> 0" by (auto simp: word_uint_eq_iff)
  ultimately show ?thesis by linarith
qed

lemma ports_applied:
  "apply_ports (srv_options_given (request_values q)) (apply_options (srv_options_given (request_values q)) apply_default_values_to_srv_params) =
     Some (request_ports q)"
proof -
  define opts where "opts = srv_options_given (request_values q)"
  have u: "\<not> uint (local_port_of q) < 1" "\<not> uint (local_port_of q) > 65535" "\<not> uint (sq_srvd_port q) > 65535"
      "\<not> uint (sq_srvd_port q) < 0"
    using uint_u16 [of "local_port_of q"] uint_u16 [of "sq_srvd_port q"] local_port_nonzero [of q] by auto
  have o: "so_port opts = Some (uint (sq_srvd_port q))" "so_local_port opts = Some (uint (local_port_of q))"
    by (simp_all add: opts_def request_options)
  have r: "(apply_options opts apply_default_values_to_srv_params)\<lparr>sp_port := sq_srvd_port q, sp_local_port := local_port_of q\<rparr> = request_ports q"
    by (simp add: opts_def request_options apply_options_def or_else_def request_ports_def apply_default_values_to_srv_params_def)
  show ?thesis unfolding opts_def [symmetric] apply_ports_def o Let_def option.case
    by (simp only: u word_of_int_uint r simp_thms if_False)
qed

definition request_env :: "srv_request \<Rightarrow> bool \<Rightarrow> (string \<Rightarrow> string option) \<Rightarrow> string \<Rightarrow> string option" where
  "request_env q ready inherited = environment_of (auth_variables q @ key_variables q @ ready_variables ready) inherited"

definition with_escr :: "(string \<Rightarrow> rsa_key option) \<Rightarrow> srv_request \<Rightarrow> srv_params \<Rightarrow> srv_params" where
  "with_escr populate q p = p\<lparr>sp_escr_session_id := map_option ec_session_id (sq_escr q),
     sp_escr_aes_key_base64 := map_option ec_aes_key_base64 (sq_escr q),
     sp_escr_signing_key_uri := map_option ec_signing_key_uri (sq_escr q),
     sp_escr_signing_key := Option.bind (sq_escr q) (\<lambda>e. populate (ec_signing_key_base64 e)),
     sp_escr_auth := (sq_escr q \<noteq> None)\<rparr>"

lemma auth_mode_applied:
  assumes "well_formed_request populate q"
  shows "apply_auth_mode populate True (request_env q ready inherited) (srv_options_given (request_values q)) (request_ports q) =
    Some (with_escr populate q (request_ports q))"
proof (cases "sq_escr q")
  case None
  then show ?thesis
    by (simp add: apply_auth_mode_def request_options with_escr_def request_ports_def apply_default_values_to_srv_params_def)
next
  case (Some e)
  let ?env = "request_env q ready inherited"
  have v: "?env ''REMOTE_AUTH_ESCR_SESSION_ID'' = Some (ec_session_id e)" "?env ''REMOTE_AUTH_ESCR_AES_KEY'' = Some (ec_aes_key_base64 e)"
      "?env ''REMOTE_AUTH_ESCR_PUB_KEY_URI'' = Some (ec_signing_key_uri e)"
      "?env ''REMOTE_AUTH_ESCR_SIGNING_PRIVKEY'' = Some (ec_signing_key_base64 e)" "?env ''REMOTE_AUTH_ESCR_IS_SIDE_A'' = Some ''false''"
    using Some by (simp_all add: request_env_def environment_of_def auth_variables_def)
  obtain key where "populate (ec_signing_key_base64 e) = Some key" using assms Some by (auto simp: well_formed_request_def)
  then show ?thesis
    using Some by (simp add: apply_auth_mode_def apply_escr_def request_options v with_escr_def request_ports_def
        apply_default_values_to_srv_params_def)
qed

definition with_auth :: "srv_request \<Rightarrow> srv_params \<Rightarrow> srv_params" where
  "with_auth q p = p\<lparr>sp_rvd_auth_string := (if sq_authenticate q \<and> sq_escr q = None then sq_auth_string q else None)\<rparr>"

lemma auth_string_loaded:
  assumes "well_formed_request populate q"
  shows "load_auth_string (request_env q ready inherited) None (with_escr populate q (request_ports q)) =
    Some (with_auth q (with_escr populate q (request_ports q)))"
  using assms by (cases "sq_auth_string q") (simp_all add: load_auth_string_def with_auth_def with_escr_def request_ports_def or_else_def
      request_env_def environment_of_def auth_variables_def well_formed_request_def apply_default_values_to_srv_params_def
      split: option.splits)

lemma auth_variables_keys:
  "map_of (auth_variables q) ''RV_AES_C2D'' = None" "map_of (auth_variables q) ''RV_IV_C2D'' = None"
  "map_of (auth_variables q) ''RV_AES_D2C'' = None" "map_of (auth_variables q) ''RV_IV_D2C'' = None"
  "map_of (auth_variables q) ''SRV_READY_FD'' = None"
  by (simp_all add: auth_variables_def split: option.split)

lemma key_variables_keys:
  "map_of (key_variables q) ''RV_AES_C2D'' = (if sq_encrypt q then Some (fst (sq_c2d q)) else None)"
  "map_of (key_variables q) ''RV_IV_C2D'' = (if sq_encrypt q then Some (snd (sq_c2d q)) else None)"
  "map_of (key_variables q) ''RV_AES_D2C'' = (if sq_encrypt q then map_option fst (sq_d2c q) else None)"
  "map_of (key_variables q) ''RV_IV_D2C'' = (if sq_encrypt q then map_option snd (sq_d2c q) else None)"
  "map_of (key_variables q) ''SRV_READY_FD'' = None"
  by (simp_all add: key_variables_def split: option.split)

lemma request_env_keys:
  assumes "plain_environment inherited" "sq_encrypt q"
  shows "request_env q ready inherited ''RV_AES_C2D'' = Some (fst (sq_c2d q))" "request_env q ready inherited ''RV_IV_C2D'' = Some (snd (sq_c2d q))"
    "request_env q ready inherited ''RV_AES_D2C'' = map_option fst (sq_d2c q)" "request_env q ready inherited ''RV_IV_D2C'' = map_option snd (sq_d2c q)"
  using assms by (simp_all add: request_env_def environment_of_def map_add_def auth_variables_keys key_variables_keys ready_variables_def
      plain_environment_def split: option.split)

lemma request_env_ready:
  assumes "plain_environment inherited"
  shows "request_env q ready inherited ''SRV_READY_FD'' = (if ready then Some ''3'' else None)"
  using assms by (simp add: request_env_def environment_of_def map_add_def auth_variables_keys key_variables_keys ready_variables_def
      plain_environment_def)

lemma session_keys_loaded:
  assumes "plain_environment inherited"
  shows "load_session_keys (request_env q ready inherited) None (with_auth q (with_escr populate q (request_ports q))) =
    Some (requested_params populate q)"
proof (cases "sq_encrypt q")
  case True
  show ?thesis using True
    by (cases "sq_d2c q") (simp_all add: load_session_keys_def or_else_def request_env_keys [OF assms True] with_auth_def with_escr_def
        request_ports_def requested_params_def apply_default_values_to_srv_params_def)
next
  case False
  then show ?thesis
    by (simp add: load_session_keys_def with_auth_def with_escr_def request_ports_def requested_params_def
        apply_default_values_to_srv_params_def)
qed

lemma ready_fd_loaded:
  assumes "plain_environment inherited"
  shows "worker_ready_fd (request_env q ready inherited) (requested_params populate q) =
    (requested_params populate q)\<lparr>sp_ready_fd := if ready then 3 else - 1\<rparr>"
proof (cases ready)
  case True
  have "atoi ''3'' = 3" by code_simp
  then show ?thesis using True by (simp add: worker_ready_fd_def request_env_ready [OF assms])
next
  case False
  then show ?thesis by (simp add: worker_ready_fd_def request_env_ready [OF assms] requested_params_def apply_default_values_to_srv_params_def)
qed

text \<open>C6: A relay starts as it was requested. The command line and the environment that \<open>run_srv_process\<close> hands to \<open>execv\<close> are
  read back by the worker's own parser as exactly the request: hosts (which come from the client and may hold any characters, a
  leading dash included), ports, timeout, mode, authentication with its secrets, and the keys of both directions.\<close>

theorem relay_starts_as_requested:
  assumes "well_formed_request populate q" "plain_environment inherited"
  shows "worker_params populate True
      (environment_of (auth_variables q @ key_variables q @ ready_variables ready) inherited) (srv_arguments q) =
    Inr ((requested_params populate q)\<lparr>sp_ready_fd := if ready then 3 else - 1\<rparr>)"
proof -
  have "sp_host (request_ports q) \<noteq> None" "sp_port (request_ports q) \<noteq> 0"
    using assms(1) by (simp_all add: request_ports_def well_formed_request_def)
  then show ?thesis
    unfolding request_env_def [symmetric] worker_params_def parse_srv_arguments_def request_parsed [OF assms(1)] parse_srv_params_def
    by (simp add: arg_at_def ports_applied auth_mode_applied [OF assms(1)] auth_string_loaded [OF assms(1)]
        session_keys_loaded [OF assms(2)] ready_fd_loaded [OF assms(2)])
qed

definition example_request :: srv_request where
  "example_request = \<lparr>sq_srvd_host = ''rvd.example'', sq_srvd_port = 443, sq_requested_host = Some ''--multi'', sq_requested_port = 0,
     sq_authenticate = True, sq_auth_string = Some ''{}'', sq_escr = None, sq_encrypt = True, sq_multi = False,
     sq_timeout_seconds = 45, sq_c2d = (''k1'', ''i1''), sq_d2c = Some (''k2'', ''i2'')\<rparr>"

theorem relay_starts_as_requested_witness:
  "worker_params (\<lambda>_. None) True
     (environment_of (auth_variables example_request @ key_variables example_request @ ready_variables True) (\<lambda>_. None))
     (srv_arguments example_request) = Inr ((requested_params (\<lambda>_. None) example_request)\<lparr>sp_ready_fd := 3\<rparr>)"
proof -
  have "well_formed_request (\<lambda>_. None) example_request" "plain_environment (\<lambda>_. None)"
    by (simp_all add: well_formed_request_def example_request_def plain_environment_def)
  from relay_starts_as_requested [OF this, of True] show ?thesis by simp
qed

end
