(* ===== verification/C_Requests.thy ===== *)
theory C_Requests
  imports C_Run_Srv "HOL-Library.Log_Nat"
begin

text \<open>
  The requests of the C daemon: the client's signature with its enrollment key (\<open>client_signing_key.c\<close>), and the two kinds of
  session, from the envelope to the process that serves it (\<open>handle_npt_request.c\<close>, \<open>handle_ssh_request.c\<close>). Both have the same
  middle, which is shared here.
\<close>

section \<open>The client's signing key\<close>

text \<open>What \<open>client_sessions.c\<close> is given to start a check and to signal a process (\<open>main.c\<close>).\<close>

definition start_key_check :: "('w, 'j) cd_env \<Rightarrow> lookup_directory option \<Rightarrow> string \<Rightarrow> 'w \<Rightarrow> int \<times> 'w" where
  "start_key_check E directory signing_key w =
     (case directory of
        None \<Rightarrow> (-1, w)
      | Some d \<Rightarrow>
          (case cv_own_exe_path E w of
             (None, w1) \<Rightarrow> (-1, w1)
           | (Some exe_path, w1) \<Rightarrow>
               (case cv_spawn E (worker_arguments exe_path d ''key-check'' signing_key) False w1 of
                  ((pid, fd), w2) \<Rightarrow> (pid, w2))))"

definition session_ops :: "('w, 'j) cd_env \<Rightarrow> lookup_directory option \<Rightarrow> 'w cs_env" where
  "session_ops E directory = \<lparr>so_start_key_check = start_key_check E directory, so_signal_process = cv_kill E,
     so_alloc = cv_alloc E\<rparr>"

definition lookup_via_own_atserver :: "('w, 'j) cd_env \<Rightarrow> string \<Rightarrow> ('w, lookup_result \<times> string option) cdprog" where
  "lookup_via_own_atserver E uri =
     (let name = drop (length PUBLIC_PREFIX) uri in
      case strstr name ''.a.__e@'' of
        None \<Rightarrow> ret (LOOKUP_FAILED, None)
      | Some i \<Rightarrow> do {
          ok \<leftarrow> cd_alloc E (i + 1);
          if \<not> ok then ret (LOOKUP_FAILED, None)
          else do {
            r \<leftarrow> cdx (cv_create_key E (take i name) (uri_atsign uri));
            if r \<noteq> 0 then ret (LOOKUP_FAILED, None)
            else do {
              (r2, value) \<leftarrow> cdx (cv_get_public_key E (take i name) (uri_atsign uri) ''a.__e'');
              ret (if r2 \<noteq> 0 then (LOOKUP_FAILED, None) else (LOOKUP_FOUND, value)) } } })"

definition lookup_with_fallback :: "('w, 'j) cd_env \<Rightarrow> string \<Rightarrow> ('w, lookup_result \<times> string option) cdprog" where
  "lookup_with_fallback E uri = do {
     (r, value) \<leftarrow> public_lookup_direct E uri;
     if r \<noteq> LOOKUP_NOT_SERVED then ret (r, value) else lookup_via_own_atserver E uri }"

definition c_refuse_session :: "('w, 'j) cd_env \<Rightarrow> string \<Rightarrow> string \<Rightarrow> string \<Rightarrow> ('w, string option option) cdprog" where
  "c_refuse_session E requester session_id why = do {
     _ \<leftarrow> send_session_error E requester (Some session_id) why;
     ret None }"

text \<open>The same file as the firmware's \<open>noports_enrollment_signature.c\<close>, but for its names.\<close>

definition verify_enrollment_signature :: "('w, 'j) cd_env \<Rightarrow> 'j \<Rightarrow> string \<Rightarrow> ('w, enrollment_signature) cdprog" where
  "verify_enrollment_signature E env requester = do {
     mem \<leftarrow> cdx (cv_es_mem E);
     noports_verify_enrollment_signature (cv_cj E) (cv_ops E) mem (cv_print E) (lookup_with_fallback E) env requester }"

text \<open>\<open>None\<close> refuses the session; \<open>Some key\<close> lets it go ahead, watched when there is a key.\<close>

definition check_client_signing_key :: "('w, 'j) cd_env \<Rightarrow> string \<Rightarrow> 'j \<Rightarrow> ('w, string option option) cdprog" where
  "check_client_signing_key E requester env =
     (case str_field (cv_cj E) (GetObjectItem (cv_cj E) (Some env) ''payload'') ''sessionId'' of
        None \<Rightarrow> ret None
      | Some sid \<Rightarrow> do {
          s \<leftarrow> get_st;
          if client_sessions_is_watched (cd_sess s) sid
          then c_refuse_session E requester sid (fit 1024 (''A session with id '' @ sid @ '' is already live''))
          else do {
            r \<leftarrow> verify_enrollment_signature E env requester;
            case r of
              ES_VERIFIED key \<Rightarrow> ret (Some (Some key))
            | ES_REFUSED why \<Rightarrow>
                c_refuse_session E requester sid (fit 1024 (''Enrollment signature not verified: '' @ fit 768 why))
            | ES_UNCHECKED why \<Rightarrow>
                if pm_require_enrollment_signature (cd_params s)
                then c_refuse_session E requester sid (fit 1024 (''Could not check the enrollment signature: '' @ fit 768 why))
                else ret (Some None)
            | ES_ABSENT \<Rightarrow>
                if pm_require_enrollment_signature (cd_params s)
                then c_refuse_session E requester sid
                  ''This daemon requires session requests signed with the client's enrollment key''
                else ret (Some None) } })"

section \<open>What both kinds of session share\<close>

text \<open>The authentication at the rendezvous server. \<open>None\<close> ends the request.\<close>

definition escr_setup_of :: "('w, 'j) cd_env \<Rightarrow> 'j option \<Rightarrow> ('w, escr_context option) cdprog" where
  "escr_setup_of E payload =
     (let cj = cv_cj E in
      if str_field cj payload ''relayAuthMode'' \<noteq> Some ''escr'' then ret None
      else case (str_field cj payload ''relayAuthAesKey'', str_field cj payload ''sessionId'') of
          (Some aes_key, Some sid) \<Rightarrow> do {
            s \<leftarrow> get_st;
            uri \<leftarrow> public_signing_key_uri E (cd_atkeys s) (own_atsign (cd_params s));
            ret (map_option (\<lambda>u. \<lparr>ec_session_id = sid, ec_aes_key_base64 = aes_key, ec_signing_key_uri = u,
              ec_signing_key_base64 = ak_pkam_private_key_base64 (cd_atkeys s)\<rparr>) uri) }
        | _ \<Rightarrow> ret None)"

definition relay_authentication ::
  "('w, 'j) cd_env \<Rightarrow> 'j option \<Rightarrow> ('w, (string option \<times> escr_context option) option) cdprog" where
  "relay_authentication E payload =
     (if \<not> IsTrue (cv_cj E) (GetObjectItem (cv_cj E) payload ''authenticateToRvd'') then ret (Some (None, None))
      else do {
        escr \<leftarrow> escr_setup_of E payload;
        if escr \<noteq> None then ret (Some (None, escr))
        else do {
          auth \<leftarrow> create_rvd_auth_string E payload;
          ret (case auth of None \<Rightarrow> None | Some a \<Rightarrow> Some (Some a, None)) } })"

text \<open>The keys of an encrypted session, for one direction or for both. \<open>None\<close> ends the request.\<close>

definition session_encryption ::
  "('w, 'j) cd_env \<Rightarrow> 'j option \<Rightarrow> ('w, (session_keys option \<times> session_keys option) option) cdprog" where
  "session_encryption E payload =
     (let cj = cv_cj E in
      if \<not> IsTrue cj (GetObjectItem cj payload ''encryptRvdTraffic'') then ret (Some (None, None))
      else do {
        c2d \<leftarrow> setup_rvd_session_encryption E payload;
        if c2d = None then ret None
        else if \<not> IsTrue cj (GetObjectItem cj payload ''twinKeys'') then ret (Some (c2d, None))
        else do {
          d2c \<leftarrow> setup_rvd_session_encryption E payload;
          ret (if d2c = None then None else Some (c2d, d2c)) } })"

definition key_pair :: "session_keys \<Rightarrow> string \<times> string" where
  "key_pair k = (sk_key k, sk_iv k)"

definition close_if_open :: "('w, 'j) cd_env \<Rightarrow> int \<Rightarrow> ('w, unit) cdprog" where
  "close_if_open E fd = when_st (fd \<ge> 0) (do { _ \<leftarrow> cdx (cv_close E fd); ret () })"

text \<open>The daemon after \<open>fork\<close>: it watches the start of the relay, tracks a signed session, and answers the client.\<close>

definition parent_of_srv ::
  "('w, 'j) cd_env \<Rightarrow> 'j option \<Rightarrow> string \<Rightarrow> string option \<Rightarrow> session_keys option \<Rightarrow> session_keys option \<Rightarrow> int \<Rightarrow>
   int \<times> int \<Rightarrow> ('w, unit) cdprog" where
  "parent_of_srv E payload requester signing_key c2d d2c pid ready = do {
     close_if_open E (snd ready);
     (r, st) \<leftarrow> cdx (cv_waitpid E pid);
     if r > 0 \<or> r = -1 then close_if_open E (fst ready)
     else do {
       when_st (fst ready \<ge> 0) (do {
         now \<leftarrow> sshnpd_monotonic_ms E;
         srv_starts_watch E pid (fst ready) now });
       s \<leftarrow> get_st;
       when_st (signing_key \<noteq> None) (do {
         _ \<leftarrow> on_sessions (client_sessions_track (session_ops E (cd_directory s))
           (text_of (str_field (cv_cj E) payload ''sessionId'')) (text_of signing_key) pid);
         ret () });
       _ \<leftarrow> send_success_payload E payload requester c2d d2c;
       ret () } }"

definition child_of_daemon :: "('w, 'j) cd_env \<Rightarrow> srv_request \<Rightarrow> int \<times> int \<Rightarrow> ('w, unit) cdprog" where
  "child_of_daemon E q ready = do {
     close_if_open E (fst ready);
     _ \<leftarrow> run_srv_process E q (snd ready);
     modify_st (cd_is_child_process_update (\<lambda>_. True)) }"

definition fork_session ::
  "('w, 'j) cd_env \<Rightarrow> 'j option \<Rightarrow> string \<Rightarrow> string option \<Rightarrow> session_keys option \<Rightarrow> session_keys option \<Rightarrow> srv_request \<Rightarrow>
   ('w, unit) cdprog" where
  "fork_session E payload requester signing_key c2d d2c q = do {
     p \<leftarrow> cdx (cv_pipe E);
     let ready = (case p of Some fds \<Rightarrow> fds | None \<Rightarrow> (-1, -1));
     pid \<leftarrow> cdx (cv_fork E);
     if pid = 0 then child_of_daemon E q ready
     else if pid > 0 then parent_of_srv E payload requester signing_key c2d d2c pid ready
     else do { close_if_open E (fst ready); close_if_open E (snd ready) } }"

text \<open>From the authentication to the relay. \<open>base\<close> is the request without keys and authentication.\<close>

definition serve_session ::
  "('w, 'j) cd_env \<Rightarrow> 'j option \<Rightarrow> string \<Rightarrow> string option \<Rightarrow> srv_request \<Rightarrow> ('w, unit) cdprog" where
  "serve_session E payload requester signing_key base = do {
     a \<leftarrow> relay_authentication E payload;
     case a of
       None \<Rightarrow> ret ()
     | Some (auth_string, escr) \<Rightarrow> do {
         k \<leftarrow> session_encryption E payload;
         case k of
           None \<Rightarrow> ret ()
         | Some (c2d, d2c) \<Rightarrow>
             fork_session E payload requester signing_key c2d d2c
               (base\<lparr>sq_authenticate := IsTrue (cv_cj E) (GetObjectItem (cv_cj E) payload ''authenticateToRvd''),
                  sq_auth_string := auth_string, sq_escr := escr, sq_encrypt := (c2d \<noteq> None),
                  sq_c2d := (case c2d of Some x \<Rightarrow> key_pair x | None \<Rightarrow> ([], [])), sq_d2c := map_option key_pair d2c\<rparr>) } }"

section \<open>A tunnel\<close>

definition u16_number :: "('w, 'j) cd_env \<Rightarrow> 'j option \<Rightarrow> u16" where
  "u16_number E j = u16_of_dbl (cv_ub_u16 E) (GetNumberValue (cv_cj E) j)"

text \<open>The double nearest to a positive number, ties to even: 53 significant bits.\<close>

definition half_even :: "rat \<Rightarrow> int" where
  "half_even r = (let d = r - of_int \<lfloor>r\<rfloor> in if d < 1 / 2 \<or> (d = 1 / 2 \<and> even \<lfloor>r\<rfloor>) then \<lfloor>r\<rfloor> else \<lfloor>r\<rfloor> + 1)"

definition double_exponent :: "rat \<Rightarrow> int" where
  "double_exponent r =
     (if r \<ge> 1 then int (floorlog 2 (nat \<lfloor>r\<rfloor>)) - 1 else - int (floorlog 2 (nat (\<lceil>1 / r\<rceil> - 1))))"

definition to_double :: "rat \<Rightarrow> rat" where
  "to_double r =
     (let e = double_exponent r - 52; ulp = (if e \<ge> 0 then 2 ^ nat e else 1 / 2 ^ nat (- e)) in of_int (half_even (r / ulp)) * ulp)"

text \<open>The timeout of a tunnel, from milliseconds to whole seconds, rounded up and at most a year.\<close>

definition seconds_of :: "rat \<Rightarrow> int" where
  "seconds_of ms =
     (let ms' = (if ms > of_int (SRV_MAX_TIMEOUT_SECONDS * 1000) then of_int (SRV_MAX_TIMEOUT_SECONDS * 1000) else ms);
          secs = trunc_rat (to_double (to_double (ms' + 999) / 1000))
      in if secs < 1 then 1 else secs)"

definition npt_timeout :: "'j cjson \<Rightarrow> 'j option \<Rightarrow> int" where
  "npt_timeout cj payload =
     (case GetNumberValue cj (GetObjectItem cj payload ''timeout'') of
        Fin r \<Rightarrow> if r > 0 then seconds_of r else SRV_DEFAULT_TIMEOUT_SECONDS
      | PosInf \<Rightarrow> SRV_MAX_TIMEOUT_SECONDS
      | _ \<Rightarrow> SRV_DEFAULT_TIMEOUT_SECONDS)"

definition blank_request :: srv_request where
  "blank_request = \<lparr>sq_srvd_host = [], sq_srvd_port = 0, sq_requested_host = None, sq_requested_port = 0, sq_authenticate = False,
     sq_auth_string = None, sq_escr = None, sq_encrypt = False, sq_multi = False, sq_timeout_seconds = 0, sq_c2d = ([], []),
     sq_d2c = None\<rparr>"

definition npt_base :: "('w, 'j) cd_env \<Rightarrow> 'j option \<Rightarrow> srv_request" where
  "npt_base E payload =
     (let cj = cv_cj E in
      blank_request\<lparr>sq_srvd_host := text_of (str_field cj payload ''rvdHost''),
        sq_srvd_port := u16_number E (GetObjectItem cj payload ''rvdPort''),
        sq_requested_host := str_field cj payload ''requestedHost'',
        sq_requested_port := u16_number E (GetObjectItem cj payload ''requestedPort''), sq_multi := True,
        sq_timeout_seconds := npt_timeout cj payload\<rparr>)"

definition npt_denial :: "string \<Rightarrow> u16 \<Rightarrow> string \<Rightarrow> string \<Rightarrow> string" where
  "npt_denial host port who lst =
     fit 512 (''Connection to '' @ host @ '':'' @ dec_nat (unat port) @ '' denied based on '' @ who @ '' --permit-open '' @ lst)"

definition start_npt_session ::
  "('w, 'j) cd_env \<Rightarrow> 'j \<Rightarrow> string \<Rightarrow> policy_decision option \<Rightarrow> string option \<Rightarrow> ('w, unit) cdprog" where
  "start_npt_session E env requester policy signing_key = do {
     p \<leftarrow> gets cd_params;
     let cj = cv_cj E;
     let payload = GetObjectItem cj (Some env) ''payload'';
     let host = text_of (str_field cj payload ''requestedHost'');
     let port = u16_number E (GetObjectItem cj payload ''requestedPort'');
     let sid = str_field cj payload ''sessionId'';
     if \<not> should_permitopen (pm_permitopen p) host port then do {
       _ \<leftarrow> send_session_error E requester sid
         (npt_denial host port ''daemon'' (format_permitopen_list (pm_permitopen p) 256));
       ret () }
     else case policy of
         Some d \<Rightarrow>
           if \<not> policy_permits_open d host port then do {
             _ \<leftarrow> send_session_error E requester sid
               (npt_denial host port ''POLICY'' (format_string_list (permit_open d) 256));
             ret () }
           else serve_session E payload requester signing_key (npt_base E payload)
       | None \<Rightarrow> serve_session E payload requester signing_key (npt_base E payload) }"

section \<open>A shell\<close>

definition ssh_base :: "('w, 'j) cd_env \<Rightarrow> sshnpd_params \<Rightarrow> 'j option \<Rightarrow> srv_request" where
  "ssh_base E p payload =
     (let cj = cv_cj E in
      blank_request\<lparr>sq_srvd_host := text_of (str_field cj payload ''host''),
        sq_srvd_port := u16_number E (GetObjectItem cj payload ''port''),
        sq_requested_host := Some ''localhost'', sq_requested_port := pm_local_sshd_port p,
        sq_timeout_seconds := SRV_DEFAULT_TIMEOUT_SECONDS\<rparr>)"

definition ssh_denial :: "string \<Rightarrow> u16 \<Rightarrow> string" where
  "ssh_denial text port = fit 256 (text @ '' connections to localhost:'' @ dec_nat (unat port))"

definition start_ssh_session ::
  "('w, 'j) cd_env \<Rightarrow> 'j \<Rightarrow> string \<Rightarrow> policy_decision option \<Rightarrow> string option \<Rightarrow> ('w, unit) cdprog" where
  "start_ssh_session E env requester policy signing_key = do {
     p \<leftarrow> gets cd_params;
     let payload = GetObjectItem (cv_cj E) (Some env) ''payload'';
     let sid = str_field (cv_cj E) payload ''sessionId'';
     let port = pm_local_sshd_port p;
     if \<not> should_permitopen (pm_permitopen p) ''localhost'' port then do {
       _ \<leftarrow> send_session_error E requester sid (ssh_denial ''Daemon does not permit'' port);
       ret () }
     else case policy of
         Some d \<Rightarrow>
           if \<not> policy_permits_open d ''localhost'' port then do {
             _ \<leftarrow> send_session_error E requester sid (ssh_denial ''Client is not permitted'' port);
             ret () }
           else serve_session E payload requester signing_key (ssh_base E p payload)
       | None \<Rightarrow> serve_session E payload requester signing_key (ssh_base E p payload) }"

section \<open>The handlers\<close>

definition is_bool_item :: "('w, 'j) cd_env \<Rightarrow> 'j option \<Rightarrow> bool" where
  "is_bool_item E x = (case x of None \<Rightarrow> False | Some j \<Rightarrow> cv_is_bool E j)"

text \<open>Both handlers check the envelope alike before a session starts.\<close>

definition handle_session_request ::
  "('w, 'j) cd_env \<Rightarrow> notification \<Rightarrow> payload_type \<Rightarrow> ('j \<Rightarrow> string \<Rightarrow> string option \<Rightarrow> ('w, unit) cdprog) \<Rightarrow>
   ('w, unit) cdprog" where
  "handle_session_request E n ty start = do {
     e \<leftarrow> extract_envelope_from_notification E n;
     case e of
       None \<Rightarrow> ret ()
     | Some env \<Rightarrow> do {
         let requester = text_of (nt_from n);
         r \<leftarrow> verify_envelope_signature_from E env requester;
         if r \<noteq> 0 then ret ()
         else if verify_envelope_contents (cv_cj E) (is_bool_item E) env ty \<noteq> 0 then ret ()
         else do {
           key \<leftarrow> check_client_signing_key E requester env;
           case key of
             None \<Rightarrow> ret ()
           | Some signing_key \<Rightarrow> start env requester signing_key } } }"

definition handle_npt_request :: "('w, 'j) cd_env \<Rightarrow> notification \<Rightarrow> policy_decision option \<Rightarrow> ('w, unit) cdprog" where
  "handle_npt_request E n policy =
     handle_session_request E n payload_type_npt (\<lambda>env requester key. start_npt_session E env requester policy key)"

definition handle_ssh_request :: "('w, 'j) cd_env \<Rightarrow> notification \<Rightarrow> policy_decision option \<Rightarrow> ('w, unit) cdprog" where
  "handle_ssh_request E n policy =
     handle_session_request E n payload_type_ssh (\<lambda>env requester key. start_ssh_session E env requester policy key)"

end
