(* ===== verification/C_Daemon.thy ===== *)
theory C_Daemon
  imports C_Requests
begin

text \<open>
  The C daemon's main loop (\<open>daemon.c\<close>) and what it calls besides the session requests: connections and the kinds of a
  notification (\<open>daemon_utils.c\<close>), pings (\<open>handle_ping.c\<close>), public keys for shells (\<open>handle_sshpublickey.c\<close>,
  \<open>file_utils.c\<close>), and the records shared with the managers (\<open>device_info.c\<close>).
\<close>

section \<open>Connections\<close>

definition set_worker_hooks :: "('w, 'j) cd_env \<Rightarrow> ('w, int) cdprog" where
  "set_worker_hooks E = cdx (cv_set_hooks E)"

definition reconnect_atclient :: "('w, 'j) cd_env \<Rightarrow> ('w, int) cdprog" where
  "reconnect_atclient E = do {
     connected \<leftarrow> cdx (cv_worker_connected E);
     if connected then ret 0
     else do {
       r \<leftarrow> cdx (cv_worker_authenticate E);
       if r \<noteq> 0 then ret r else set_worker_hooks E } }"

definition reconnect_monitor :: "('w, 'j) cd_env \<Rightarrow> ('w, int) cdprog" where
  "reconnect_monitor E = do {
     r \<leftarrow> cdx (cv_monitor_authenticate E);
     if r \<noteq> 0 then do { _ \<leftarrow> cdx (cv_sleep E 1); ret r }
     else do {
       regex \<leftarrow> gets cd_regex;
       cdx (cv_monitor_start E regex) } }"

definition sshnpd_next_timeout_counter :: "int \<Rightarrow> message_type \<Rightarrow> nat \<Rightarrow> nat" where
  "sshnpd_next_timeout_counter read_ret ty counter =
     (let nx = (if read_ret \<noteq> 0 then MONITOR_RECONNECT_COUNTER else counter) in
      case ty of
        Msg_empty \<Rightarrow> nx + 1
      | Msg_notification \<Rightarrow> 0
      | Msg_data_response \<Rightarrow> 0
      | Msg_error_response \<Rightarrow> 0
      | Err_decrypt_notification \<Rightarrow> 0
      | _ \<Rightarrow> nx)"

section \<open>The kind of a notification\<close>

definition c_notification_key_map :: "(string \<times> notification_key) list" where
  "c_notification_key_map = [('''', NK_NONE), (''sshpublickey'', NK_SSHPUBLICKEY), (''ping'', NK_PING),
     (''ssh_request'', NK_SSH_REQUEST), (''npt_request'', NK_NPT_REQUEST), (''graceful_shutdown'', NK_GRACEFUL_SHUTDOWN)]"

definition key_named :: "string \<Rightarrow> notification_key" where
  "key_named name =
     (case List.find (\<lambda>(k, _). k = name) (drop 1 (take NOTIFICATION_KEYS_LEN c_notification_key_map)) of
        Some (_, nk) \<Rightarrow> nk
      | None \<Rightarrow> NK_NONE)"

text \<open>\<open><to>:<name>.<device>.sshnp<from>\<close>; the character after \<open><to>\<close> is not looked at.\<close>

definition sshnpd_notification_kind ::
  "string option \<Rightarrow> string option \<Rightarrow> string \<Rightarrow> string option \<Rightarrow> notification_key" where
  "sshnpd_notification_kind key to' device from' =
     (case (key, to', from') of
        (Some k, Some t, Some f) \<Rightarrow>
          (case strstr k (''.'' @ device @ ''.'' @ SSHNP_NS @ f) of
             None \<Rightarrow> NK_NONE
           | Some tail_start \<Rightarrow>
               if tail_start \<le> length t \<or> \<not> starts_with t k then NK_NONE
               else key_named (take (tail_start - (length t + 1)) (drop (length t + 1) k)))
      | _ \<Rightarrow> NK_NONE)"

section \<open>Pings and public keys\<close>

definition handle_ping :: "('w, 'j) cd_env \<Rightarrow> notification \<Rightarrow> ('w, unit) cdprog" where
  "handle_ping E n = do {
     s \<leftarrow> get_st;
     let name = ''heartbeat.'' @ pm_device (cd_params s);
     let requester = text_of (nt_from n);
     _ \<leftarrow> cdx (cv_create_key E name requester);
     _ \<leftarrow> cd_notify E requester name (text_of (cd_ping_response s));
     ret () }"

definition supported_key_prefix_map :: "string list" where
  "supported_key_prefix_map = ['''', ''ecdsa-sha2-nistp'', ''rsa-sha2-'', ''ssh-rsa'', ''ssh-ed25519'']"

definition is_valid_ssh_public_key_prefix :: "string option \<Rightarrow> bool" where
  "is_valid_ssh_public_key_prefix ssh_key =
     (case ssh_key of
        None \<Rightarrow> False
      | Some k \<Rightarrow>
          if list_ex (\<lambda>c. ch c = 10 \<or> ch c = 13) k then False
          else list_ex (\<lambda>prefix. starts_with prefix k) (drop 1 supported_key_prefix_map))"

text \<open>A key that is in the file already is not added again.\<close>

definition authorize_ssh_public_key :: "('w, 'j) cd_env \<Rightarrow> string \<Rightarrow> string \<Rightarrow> ('w, int) cdprog" where
  "authorize_ssh_public_key E permissions key = do {
     file \<leftarrow> cdx (cv_read_lines E);
     case file of
       None \<Rightarrow> ret 1
     | Some file_lines \<Rightarrow>
         if list_ex (\<lambda>l. strstr l key \<noteq> None) file_lines then ret 0
         else do {
           let postfix = (if ch (last key) = 10 then [] else [char_of (10 :: nat)]);
           let entry = (if permissions = [] then key @ postfix else permissions @ '' '' @ key @ postfix);
           cd_emit (Cd_authorized_key entry);
           ok \<leftarrow> cdx (cv_append_line E entry);
           ret (if ok then 0 else 1) } }"

definition LOCAL_ONLY :: string where
  "LOCAL_ONLY = ''from=\"127.0.0.1,::1\"''"

definition handle_sshpublickey :: "('w, 'j) cd_env \<Rightarrow> notification \<Rightarrow> ('w, unit) cdprog" where
  "handle_sshpublickey E n = do {
     p \<leftarrow> gets cd_params;
     if \<not> pm_sshpublickey p then ret ()
     else if \<not> is_valid_ssh_public_key_prefix (nt_value n) then ret ()
     else do { _ \<leftarrow> authorize_ssh_public_key E LOCAL_ONLY (text_of (nt_value n)); ret () } }"

section \<open>Records for the managers\<close>

definition SSHNPD_DEVICE_INFO_MAX_ATTEMPTS :: u8 where "SSHNPD_DEVICE_INFO_MAX_ATTEMPTS = 3"

definition share_or_delete :: "('w, 'j) cd_env \<Rightarrow> string \<Rightarrow> string \<Rightarrow> bool \<Rightarrow> ('w, int) cdprog" where
  "share_or_delete E key_text value visible =
     (if visible then do { cd_emit (Cd_shared key_text value); cdx (cv_put_shared_key E key_text value) }
      else cdx (cv_delete E key_text))"

definition username_key_of :: "('w, 'j) cd_env \<Rightarrow> string \<Rightarrow> string \<Rightarrow> string \<Rightarrow> bool \<Rightarrow> string \<Rightarrow> ('w, unit) cdprog" where
  "username_key_of E username device device_atsign visible atsign = do {
     let key_text = atsign @ '':username.'' @ device @ ''.sshnp'' @ device_atsign;
     r \<leftarrow> cdx (cv_key_from_string E key_text);
     if r \<noteq> 0 then ret ()
     else do {
       m \<leftarrow> cdx (cv_set_metadata E);
       if m \<noteq> 0 then ret () else do { _ \<leftarrow> share_or_delete E key_text username visible; ret () } } }"

text \<open>A failure for one manager does not keep the others from theirs.\<close>

definition handle_username_keys ::
  "('w, 'j) cd_env \<Rightarrow> string list \<Rightarrow> string \<Rightarrow> string \<Rightarrow> string \<Rightarrow> bool \<Rightarrow> ('w, int) cdprog" where
  "handle_username_keys E atsigns username device device_atsign visible = do {
     for_each atsigns (username_key_of E username device device_atsign visible);
     ret 0 }"

text \<open>The record of the current manager is done with, for now.\<close>

definition device_info_sent :: "int \<Rightarrow> ('w, unit) cdprog" where
  "device_info_sent now = modify_st (\<lambda>s. s\<lparr>
     cd_device_info_pos := Suc (cd_device_info_pos s),
     cd_device_info_last_sent := (cd_device_info_last_sent s)[cd_device_info_pos s := now],
     cd_device_info_attempts := 0\<rparr>)"

definition device_info_failed_attempt :: "int \<Rightarrow> ('w, unit) cdprog" where
  "device_info_failed_attempt now = do {
     modify_st (cd_device_info_attempts_update (\<lambda>a. a + 1));
     a \<leftarrow> gets cd_device_info_attempts;
     when_st (a \<ge> SSHNPD_DEVICE_INFO_MAX_ATTEMPTS) (device_info_sent now) }"

definition send_device_info :: "('w, 'j) cd_env \<Rightarrow> int \<Rightarrow> string \<Rightarrow> ('w, unit) cdprog" where
  "send_device_info E now atsign = do {
     s \<leftarrow> get_st;
     let p = cd_params s;
     let key_text = atsign @ '':device_info.'' @ pm_device p @ ''.sshnp'' @ own_atsign p;
     r \<leftarrow> cdx (cv_key_from_string E key_text);
     if r \<noteq> 0 then device_info_failed_attempt now
     else do {
       m \<leftarrow> cdx (cv_set_metadata E);
       if m \<noteq> 0 then ret ()
       else do {
         r2 \<leftarrow> share_or_delete E key_text (text_of (cd_ping_response s)) (\<not> pm_hide p);
         if r2 \<noteq> 0 \<and> \<not> pm_hide p then device_info_failed_attempt now else device_info_sent now } } }"

definition send_next_device_info :: "('w, 'j) cd_env \<Rightarrow> ('w, unit) cdprog" where
  "send_next_device_info E = do {
     s \<leftarrow> get_st;
     let managers = pm_manager_list (cd_params s);
     if managers = [] \<or> cd_device_info_last_sent s = [] then ret ()
     else do {
       let pos = (if cd_device_info_pos s \<ge> length managers then 0 else cd_device_info_pos s);
       modify_st (cd_device_info_pos_update (\<lambda>_. pos));
       now \<leftarrow> cdx (cv_time E);
       if now < cd_device_info_last_sent s ! pos + 3600 then ret ()
       else send_device_info E now (managers ! pos) } }"

section \<open>The loop\<close>

fun reap_children :: "nat \<Rightarrow> ('w, 'j) cd_env \<Rightarrow> ('w, unit) cdprog" where
  "reap_children 0 E = cd_diverge"
| "reap_children (Suc fuel) E = do {
     (pid, st) \<leftarrow> cdx (cv_waitpid E (-1));
     if pid > 0 then do {
       srv_starts_reaped E pid;
       d \<leftarrow> gets cd_directory;
       _ \<leftarrow> on_sessions (client_sessions_reaped (session_ops E d) pid st);
       reap_children fuel E }
     else ret () }"

definition check_with_policy_service :: "('w, 'j) cd_env \<Rightarrow> string \<Rightarrow> ('w, int \<times> policy_decision) cdprog" where
  "check_with_policy_service E client = policy_auth_check E client"

text \<open>A request that may be served. The shutdown notification is compiled out.\<close>

definition dispatch_request ::
  "('w, 'j) cd_env \<Rightarrow> notification_key \<Rightarrow> notification \<Rightarrow> policy_decision option \<Rightarrow> ('w, unit) cdprog" where
  "dispatch_request E kind n policy =
     (if kind = NK_NONE then ret ()
      else do {
        run \<leftarrow> cdx (cv_should_run E);
        if \<not> run then ret ()
        else case kind of
            NK_SSHPUBLICKEY \<Rightarrow> handle_sshpublickey E n
          | NK_PING \<Rightarrow> handle_ping E n
          | NK_SSH_REQUEST \<Rightarrow> handle_ssh_request E n policy
          | NK_NPT_REQUEST \<Rightarrow> handle_npt_request E n policy
          | _ \<Rightarrow> ret () })"

definition referred_request :: "('w, 'j) cd_env \<Rightarrow> notification_key \<Rightarrow> notification \<Rightarrow> ('w, unit) cdprog" where
  "referred_request E kind n = do {
     p \<leftarrow> gets cd_params;
     case (pm_policy p, nt_from n) of
       (Some _, Some client) \<Rightarrow> do {
         (gate, d) \<leftarrow> policy_gate E client kind (check_with_policy_service E);
         if gate = POLICY_GATE_ALLOW then dispatch_request E kind n (Some d) else ret () }
     | _ \<Rightarrow> ret () }"

definition handle_notification :: "('w, 'j) cd_env \<Rightarrow> notification \<Rightarrow> ('w, unit) cdprog" where
  "handle_notification E n = do {
     p \<leftarrow> gets cd_params;
     let has_id = (nt_id_init n \<and> nt_id n \<noteq> None);
     if \<not> nt_value_init n then ret ()
     else if \<not> nt_key_init n \<or> \<not> has_id \<or> nt_id n = Some ''-1'' then ret ()
     else if policy_is_policy_service_message n p then ret ()
     else do {
       let kind = sshnpd_notification_kind (nt_key n) (if nt_to_init n then nt_to n else None) (pm_device p) (nt_from n);
       if is_manager_atsign p (nt_from n) then dispatch_request E kind n None
       else referred_request E kind n } }"

definition handle_monitor_message :: "('w, 'j) cd_env \<Rightarrow> message \<Rightarrow> ('w, unit) cdprog" where
  "handle_monitor_message E m =
     (if mg_type m \<noteq> Msg_notification then ret ()
      else case mg_notification m of
          None \<Rightarrow> cd_stop Died
        | Some n \<Rightarrow> handle_notification E n)"

text \<open>Reads one message and handles it; the loop goes on without one when the connection can't be repaired.\<close>

definition read_monitor :: "('w, 'j) cd_env \<Rightarrow> ('w, unit) cdprog" where
  "read_monitor E = do {
     (r, m) \<leftarrow> cdx (cv_monitor_read E);
     modify_st (cd_timeout_counter_update (sshnpd_next_timeout_counter r (mg_type m)));
     cd_emit (Cd_message m);
     handle_monitor_message E m }"

definition upkeep :: "('w, 'j) cd_env \<Rightarrow> ('w, unit) cdprog" where
  "upkeep E = do {
     reap_children (cv_fuel E) E;
     t \<leftarrow> sshnpd_monotonic_ms E;
     srv_starts_poll E t;
     now \<leftarrow> cdx (cv_time E);
     d \<leftarrow> gets cd_directory;
     on_sessions (client_sessions_tick (session_ops E d) now);
     send_next_device_info E;
     policy_send_heartbeat E }"

definition main_round :: "('w, 'j) cd_env \<Rightarrow> ('w, unit) cdprog" where
  "main_round E = do {
     upkeep E;
     dead \<leftarrow> gets (\<lambda>s. cd_end s \<noteq> None);
     counter \<leftarrow> gets cd_timeout_counter;
     if dead then ret ()
     else if counter * MONITOR_READ_TIMEOUT_MS > MONITOR_NOOP_TIMEOUT_MS then do {
       r \<leftarrow> reconnect_monitor E;
       if r \<noteq> 0 then modify_st (cd_timeout_counter_update (\<lambda>_. MONITOR_NOOP_TIMEOUT_MS div MONITOR_READ_TIMEOUT_MS + 1))
       else do { modify_st (cd_timeout_counter_update (\<lambda>_. 0)); read_monitor E } }
     else read_monitor E }"

fun main_rounds :: "nat \<Rightarrow> ('w, 'j) cd_env \<Rightarrow> ('w, unit) cdprog" where
  "main_rounds 0 E = ret ()"
| "main_rounds (Suc k) E = do {
     run \<leftarrow> cdx (cv_should_run E);
     s \<leftarrow> get_st;
     if \<not> run \<or> cd_end s \<noteq> None \<or> cd_is_child_process s then ret ()
     else do { main_round E; main_rounds k E } }"

text \<open>The loop, cut off after so many rounds.\<close>

definition main_loop :: "nat \<Rightarrow> ('w, 'j) cd_env \<Rightarrow> ('w, unit) cdprog" where
  "main_loop k E = do {
     p \<leftarrow> gets cd_params;
     ok \<leftarrow> cd_alloc E (pm_policy_cache_size p);
     let (r, cache) = policy_cache_init ok (pm_policy_cache_size p);
     if r \<noteq> 0 then ret ()
     else do {
       modify_st (\<lambda>s. s\<lparr>cd_decisions := cache, cd_throttle := policy_throttle_init, cd_timeout_counter := 0\<rparr>);
       main_rounds k E } }"

end
