(* ===== verification/C_Daemon_Steps.thy ===== *)
theory C_Daemon_Steps
  imports C_Daemon
begin

text \<open>
  How the C daemon's operations are followed. Everything but the child of a session's \<open>fork\<close> starts no relay, and only the
  policy gate changes the remembered decisions (\<open>quiet\<close>). What was asked for, signed and answered is a fact about the events
  so far, which further events do not take back (\<open>lasts\<close>).
\<close>

section \<open>Operations that start no relay\<close>

definition no_exec :: "cd_event \<Rightarrow> bool" where
  "no_exec e \<longleftrightarrow> (\<forall>args vars. e \<noteq> Cd_exec args vars)"

abbreviation quiet :: "('w, 'a) cdprog \<Rightarrow> bool" where
  "quiet m \<equiv> state_io_rel (only_logs no_exec) m"

lemma quiet_emit [io_intro]:
  "quiet (cd_emit (Cd_message m))" "quiet (cd_emit (Cd_public_key a k))" "quiet (cd_emit (Cd_auth_check a i))"
  "quiet (cd_emit (Cd_notify a n v))" "quiet (cd_emit (Cd_killed pid))" "quiet (cd_emit (Cd_authorized_key l))"
  "quiet (cd_emit (Cd_shared k v))"
  by (rule only_logs_emit, simp add: no_exec_def)+

lemma quiet_policy_parts [io_intro]:
  "quiet (policy_now_millis E)" "quiet (c_draw_copy E)" "quiet (cd_cached E c)" "quiet (cd_throttled E c k)"
  "quiet (copy_rules E js)" "quiet (cd_notify E r n v)" "quiet (auth_check_payload E p c)"
proof -
  show n: "quiet (policy_now_millis E)" for E :: "('a, 'b) cd_env" unfolding policy_now_millis_def by (intro io_rule io_intro)
  show d: "quiet (c_draw_copy E)" for E :: "('a, 'b) cd_env" unfolding c_draw_copy_def by (intro io_rule io_intro)
  show "quiet (cd_cached E c)" unfolding cd_cached_def by (intro io_rule io_intro n d)
  show "quiet (cd_throttled E c k)" unfolding cd_throttled_def by (intro io_rule n only_logs_modify) simp
  show "quiet (copy_rules E js)"
  proof (induction js)
    case (Cons j js)
    then show ?case unfolding copy_rules.simps by (intro io_rule io_intro Cons)
  qed (simp, intro io_rule)
  show "quiet (cd_notify E r n v)" unfolding cd_notify_def by (intro io_rule io_intro)
  show "quiet (auth_check_payload E p c)" unfolding auth_check_payload_def by (intro io_rule io_intro)
qed

lemma io_case_check_step [io_rule]:
  "(x = Check_on \<Longrightarrow> state_io_rel P a) \<Longrightarrow> (x = Check_progress \<Longrightarrow> state_io_rel P b) \<Longrightarrow>
   (\<And>d. x = Check_decided d \<Longrightarrow> state_io_rel P (f d)) \<Longrightarrow>
   state_io_rel P (case x of Check_on \<Rightarrow> a | Check_progress \<Rightarrow> b | Check_decided d \<Rightarrow> f d)"
  by (cases x) auto

lemma quiet_check [io_intro]:
  "quiet (parse_success E j)" "quiet (policy_parse_response_value E v i)" "quiet (send_auth_check_request E c i)"
  "quiet (check_message E p i n)" "quiet (read_check_message E i)" "quiet (policy_send_heartbeat E)"
  unfolding parse_success_def policy_parse_response_value_def send_auth_check_request_def check_message_def
    read_check_message_def policy_send_heartbeat_def Let_def
  by (intro io_rule io_intro only_logs_modify; simp)+

lemma quiet_wait [io_intro]: "quiet (wait_for_decision k E c i s p)"
proof (induction k arbitrary: p)
  case 0
  show ?case unfolding wait_for_decision.simps by (intro io_rule io_intro)
next
  case (Suc k)
  show ?case unfolding wait_for_decision.simps by (intro io_rule io_intro Suc)
qed

lemma quiet_auth_check [io_intro]: "quiet (policy_auth_check E c)"
  unfolding policy_auth_check_def by (intro io_rule io_intro)

lemma quiet_envelope [io_intro]:
  "quiet (send_session_error E r sid msg)" "quiet (public_signing_key_uri E k a)"
  "quiet (extract_envelope_from_notification E n)" "quiet (verify_with_key E j t)"
  "quiet (verify_envelope_signature_from E j r)" "quiet (c_signed_envelope E fs b)"
  "quiet (create_rvd_auth_string E pl)"
  unfolding send_session_error_def public_signing_key_uri_def extract_envelope_from_notification_def verify_with_key_def
    verify_envelope_signature_from_def c_signed_envelope_def create_rvd_auth_string_def Let_def
  by (intro io_rule io_intro)+

lemma quiet_keys [io_intro]:
  "quiet (fresh_b64 E g n)" "quiet (encrypt_for_client E ac t)" "quiet (setup_rvd_session_encryption E pl)"
  "quiet (success_fields E sid a b)" "quiet (success_value E sid a b)" "quiet (send_success_payload E pl r a b)"
proof -
  show f: "quiet (fresh_b64 E g n)" for E :: "('a, 'b) cd_env" and g n unfolding fresh_b64_def by (intro io_rule io_intro)
  show e: "quiet (encrypt_for_client E ac t)" for E :: "('a, 'b) cd_env" and ac t
    unfolding encrypt_for_client_def by (intro io_rule io_intro)
  show "quiet (setup_rvd_session_encryption E pl)"
    unfolding setup_rvd_session_encryption_def by (intro io_rule io_intro f e)
  show s: "quiet (success_fields E sid a b)" for E :: "('a, 'b) cd_env" and sid a b
    unfolding success_fields_def by (intro io_rule io_intro)
  show v: "quiet (success_value E sid a b)" for E :: "('a, 'b) cd_env" and sid a b
    unfolding success_value_def by (intro io_rule io_intro s)
  show "quiet (send_success_payload E pl r a b)" unfolding send_success_payload_def Let_def by (intro io_rule io_intro v)
qed

lemma io_case_poll [io_rule]:
  "(x = Poll_ready \<Longrightarrow> state_io_rel P a) \<Longrightarrow> (x = Poll_none \<Longrightarrow> state_io_rel P b) \<Longrightarrow>
   (x = Poll_interrupted \<Longrightarrow> state_io_rel P c) \<Longrightarrow> (x = Poll_error \<Longrightarrow> state_io_rel P d) \<Longrightarrow>
   state_io_rel P (case x of Poll_ready \<Rightarrow> a | Poll_none \<Rightarrow> b | Poll_interrupted \<Rightarrow> c | Poll_error \<Rightarrow> d)"
  by (cases x) auto

lemma io_case_read [io_rule]:
  "(\<And>bs. x = Read_bytes bs \<Longrightarrow> state_io_rel P (f bs)) \<Longrightarrow> (x = Read_end \<Longrightarrow> state_io_rel P b) \<Longrightarrow>
   (x = Read_interrupted \<Longrightarrow> state_io_rel P c) \<Longrightarrow> (x = Read_failed \<Longrightarrow> state_io_rel P d) \<Longrightarrow>
   state_io_rel P (case x of Read_bytes bs \<Rightarrow> f bs | Read_end \<Rightarrow> b | Read_interrupted \<Rightarrow> c | Read_failed \<Rightarrow> d)"
  by (cases x) auto

lemma io_case_gathering [io_rule]:
  "(\<And>bs. x = Gathered bs \<Longrightarrow> state_io_rel P (f bs)) \<Longrightarrow> (x = Gather_timeout \<Longrightarrow> state_io_rel P b) \<Longrightarrow>
   (x = Gather_overflow \<Longrightarrow> state_io_rel P c) \<Longrightarrow>
   state_io_rel P (case x of Gathered bs \<Rightarrow> f bs | Gather_timeout \<Rightarrow> b | Gather_overflow \<Rightarrow> c)"
  by (cases x) auto

lemma quiet_gather [io_intro]: "quiet (gather_output k E fd st dl out)"
proof (induction k arbitrary: out)
  case 0
  show ?case unfolding gather_output.simps by (intro io_rule io_intro)
next
  case (Suc k)
  show ?case unfolding gather_output.simps Let_def by (intro io_rule io_intro Suc)
qed

lemma quiet_lookup [io_intro]:
  "quiet (public_lookup_worker_start E mode uri w)" "quiet (public_lookup_direct E uri)"
  "quiet (lookup_via_own_atserver E uri)" "quiet (lookup_with_fallback E uri)" "quiet (c_refuse_session E r sid why)"
proof -
  show w: "quiet (public_lookup_worker_start E mode uri w)" for E :: "('a, 'b) cd_env" and mode uri w
    unfolding public_lookup_worker_start_def by (intro io_rule io_intro)
  show d: "quiet (public_lookup_direct E uri)" for E :: "('a, 'b) cd_env" and uri
    unfolding public_lookup_direct_def by (intro io_rule io_intro w)
  show o: "quiet (lookup_via_own_atserver E uri)" for E :: "('a, 'b) cd_env" and uri
    unfolding lookup_via_own_atserver_def Let_def by (intro io_rule io_intro)
  show "quiet (lookup_with_fallback E uri)" unfolding lookup_with_fallback_def by (intro io_rule io_intro d o)
  show "quiet (c_refuse_session E r sid why)" unfolding c_refuse_session_def by (intro io_rule io_intro)
qed

lemma io_case_signature [io_rule]:
  "(x = ES_ABSENT \<Longrightarrow> state_io_rel P a) \<Longrightarrow> (\<And>u. x = ES_VERIFIED u \<Longrightarrow> state_io_rel P (f u)) \<Longrightarrow>
   (\<And>u. x = ES_REFUSED u \<Longrightarrow> state_io_rel P (g u)) \<Longrightarrow> (\<And>u. x = ES_UNCHECKED u \<Longrightarrow> state_io_rel P (h u)) \<Longrightarrow>
   state_io_rel P (case x of ES_ABSENT \<Rightarrow> a | ES_VERIFIED u \<Rightarrow> f u | ES_REFUSED u \<Rightarrow> g u | ES_UNCHECKED u \<Rightarrow> h u)"
  by (cases x) auto

lemma io_case_sum_option [io_rule]:
  "(\<And>u. x = Inl u \<Longrightarrow> state_io_rel P (f u)) \<Longrightarrow> (\<And>u. x = Inr u \<Longrightarrow> state_io_rel P (g u)) \<Longrightarrow>
   state_io_rel P (case x of Inl u \<Rightarrow> f u | Inr u \<Rightarrow> g u)"
  by (cases x) auto

lemma quiet_enrollment [io_intro]:
  "quiet (verify_enrollment_signature E env r)" "quiet (check_client_signing_key E r env)"
proof -
  show v: "quiet (verify_enrollment_signature E env r)" for E :: "('a, 'b) cd_env" and env r
    unfolding verify_enrollment_signature_def noports_verify_enrollment_signature_def by (intro io_rule io_intro)
  show "quiet (check_client_signing_key E r env)" unfolding check_client_signing_key_def by (intro io_rule io_intro v)
qed

lemma quiet_starts [io_intro]:
  "quiet (forget_start E i)" "quiet (grow_starts E)" "quiet (srv_starts_watch E pid fd now)" "quiet (start_settled k E fd seen)"
  "quiet (poll_start E now i)" "quiet (poll_starts k E now i)" "quiet (srv_starts_poll E now)" "quiet (srv_starts_reaped E pid)"
proof -
  show f: "quiet (forget_start E i)" for E :: "('a, 'b) cd_env" and i
    unfolding forget_start_def by (intro io_rule io_intro only_logs_modify) simp
  show g: "quiet (grow_starts E)" for E :: "('a, 'b) cd_env"
    unfolding grow_starts_def Let_def by (intro io_rule io_intro only_logs_modify) simp
  show "quiet (srv_starts_watch E pid fd now)"
    unfolding srv_starts_watch_def by (intro io_rule io_intro only_logs_modify g) simp
  show s: "quiet (start_settled k E fd seen)" for k and E :: "('a, 'b) cd_env" and fd seen
  proof (induction k arbitrary: seen)
    case 0
    show ?case unfolding start_settled.simps by (intro io_rule io_intro)
  next
    case (Suc k)
    show ?case unfolding start_settled.simps Let_def by (intro io_rule io_intro Suc)
  qed
  show p: "quiet (poll_start E now i)" for E :: "('a, 'b) cd_env" and now i
    unfolding poll_start_def by (intro io_rule io_intro only_logs_modify s f) simp
  show q: "quiet (poll_starts k E now i)" for k and E :: "('a, 'b) cd_env" and now i
  proof (induction k arbitrary: i)
    case (Suc k)
    show ?case unfolding poll_starts.simps by (intro io_rule io_intro p Suc)
  qed (simp, intro io_rule)
  show "quiet (srv_starts_poll E now)" unfolding srv_starts_poll_def by (intro io_rule q)
  show "quiet (srv_starts_reaped E pid)" unfolding srv_starts_reaped_def by (intro io_rule f)
qed

lemma quiet_session_parts [io_intro]:
  "quiet (escr_setup_of E pl)" "quiet (relay_authentication E pl)" "quiet (session_encryption E pl)" "quiet (close_if_open E fd)"
  "quiet (parent_of_srv E pl r k a b pid fds)"
proof -
  show e: "quiet (escr_setup_of E pl)" for E :: "('a, 'b) cd_env" and pl
    unfolding escr_setup_of_def Let_def by (intro io_rule io_intro)
  show "quiet (relay_authentication E pl)" unfolding relay_authentication_def by (intro io_rule io_intro e)
  show "quiet (session_encryption E pl)" unfolding session_encryption_def Let_def by (intro io_rule io_intro)
  show c: "quiet (close_if_open E fd)" for E :: "('a, 'b) cd_env" and fd
    unfolding close_if_open_def by (intro io_rule io_intro)
  show "quiet (parent_of_srv E pl r k a b pid fds)" unfolding parent_of_srv_def by (intro io_rule io_intro c)
qed

lemma quiet_daemon_parts [io_intro]:
  "quiet (reconnect_monitor E)" "quiet (handle_ping E n)" "quiet (authorize_ssh_public_key E pm key)"
  "quiet (handle_sshpublickey E n)" "quiet (share_or_delete E k v b)" "quiet (device_info_sent t)"
  "quiet (device_info_failed_attempt t)" "quiet (send_device_info E t a)" "quiet (send_next_device_info E)"
proof -
  show "quiet (reconnect_monitor E)" unfolding reconnect_monitor_def by (intro io_rule io_intro)
  show "quiet (handle_ping E n)" unfolding handle_ping_def Let_def by (intro io_rule io_intro)
  show a: "quiet (authorize_ssh_public_key E pm key)" for E :: "('a, 'b) cd_env" and pm key
    unfolding authorize_ssh_public_key_def Let_def by (intro io_rule io_intro)
  show "quiet (handle_sshpublickey E n)" unfolding handle_sshpublickey_def by (intro io_rule a)
  show s: "quiet (share_or_delete E k v b)" for E :: "('a, 'b) cd_env" and k v b
    unfolding share_or_delete_def by (intro io_rule io_intro)
  show d: "quiet (device_info_sent t)" for t unfolding device_info_sent_def by (intro only_logs_modify) simp
  show f: "quiet (device_info_failed_attempt t)" for t
    unfolding device_info_failed_attempt_def by (intro io_rule d only_logs_modify) simp
  show g: "quiet (send_device_info E t a)" for E :: "('a, 'b) cd_env" and t a
    unfolding send_device_info_def Let_def by (intro io_rule io_intro s d f)
  show "quiet (send_next_device_info E)"
    unfolding send_next_device_info_def Let_def by (intro io_rule io_intro g only_logs_modify) simp
qed

lemma quiet_reap [io_intro]: "quiet (reap_children k E)"
proof (induction k)
  case 0
  show ?case unfolding reap_children.simps by (intro io_intro)
next
  case (Suc k)
  show ?case unfolding reap_children.simps by (intro io_rule io_intro Suc)
qed

lemma quiet_upkeep [io_intro]: "quiet (upkeep E)"
  unfolding upkeep_def by (intro io_rule io_intro)

end
