(* ===== verification/C_Daemon_Safety.thy ===== *)
theory C_Daemon_Safety
  imports C_Daemon_Steps
begin

text \<open>
  Why the C daemon may start a relay. Every \<open>execv\<close> of a relay answers a request in the trace before it: signed by an
  atSign whose public key was fetched, for a target that the daemon's own list permits, from a manager or from a client
  whom the policy service, asked by this daemon, authorised for that target.
\<close>

section \<open>Facts that last\<close>

definition lasts :: "(cd_event set \<Rightarrow> bool) \<Rightarrow> bool" where
  "lasts F \<longleftrightarrow> (\<forall>H H'. H \<subseteq> H' \<longrightarrow> F H \<longrightarrow> F H')"

lemma lasts_intros [intro]:
  "lasts (\<lambda>H. b)" "lasts (\<lambda>H. e \<in> H)" "lasts F \<Longrightarrow> lasts G \<Longrightarrow> lasts (\<lambda>H. F H \<and> G H)"
  "lasts F \<Longrightarrow> lasts G \<Longrightarrow> lasts (\<lambda>H. F H \<or> G H)" "(\<And>x. lasts (K x)) \<Longrightarrow> lasts (\<lambda>H. \<exists>x. K x H)"
  unfolding lasts_def by blast+

lemma lasts_imp: "lasts F \<Longrightarrow> lasts (\<lambda>H. b \<longrightarrow> F H)"
  unfolding lasts_def by blast

lemma lastsD: "lasts F \<Longrightarrow> F H \<Longrightarrow> H \<subseteq> H' \<Longrightarrow> F H'"
  unfolding lasts_def by blast

text \<open>The envelope's payload is signed by the key that the requester's atServer gave.\<close>

definition signed_with :: "('w, 'j) cd_env \<Rightarrow> 'j \<Rightarrow> string \<Rightarrow> bool" where
  "signed_with E env pk_text \<longleftrightarrow>
     (\<exists>pk raw payload. rsa_populate_public (cv_ops E) pk_text = Some pk \<and> is_rsa2048_public_key pk \<and>
        base64_decode (cv_ops E) (text_of (str_field (cv_cj E) (Some env) ''signature'')) (length pk_text) = Some raw \<and>
        GetObjectItem (cv_cj E) (Some env) ''payload'' = Some payload \<and>
        rsa_verify (cv_ops E) pk MD_SHA256 (cv_print E payload) (signature_buffer pk_text raw))"

definition c_signed_by :: "('w, 'j) cd_env \<Rightarrow> 'j \<Rightarrow> string \<Rightarrow> cd_event set \<Rightarrow> bool" where
  "c_signed_by E env requester H \<longleftrightarrow> (\<exists>pk_text. Cd_public_key requester pk_text \<in> H \<and> signed_with E env pk_text)"

text \<open>What an answer grants: it is a \<open>success\<close> to the question with this id, says \<open>authorized\<close>, and the rules are its own.\<close>

definition answer_grants :: "('w, 'j) cd_env \<Rightarrow> notification \<Rightarrow> int \<Rightarrow> policy_decision \<Rightarrow> bool" where
  "answer_grants E n req_id d \<longleftrightarrow>
     (\<exists>v resp. nt_value n = Some v \<and> cj_parse (cv_cj E) v = Some resp \<and>
        i64_of_dbl (cv_ub_i64 E) (GetNumberValue (cv_cj E) (GetObjectItem (cv_cj E) (Some resp) ''reqId'')) = req_id \<and>
        str_field (cv_cj E) (Some resp) ''respType'' = Some ''success'' \<and>
        (let payload = GetObjectItem (cv_cj E) (Some resp) ''payload'' in
         IsTrue (cv_cj E) (GetObjectItem (cv_cj E) payload ''authorized'') \<and>
         (\<forall>rule \<in> set (permit_open d). \<exists>a item. GetObjectItem (cv_cj E) payload ''permitOpen'' = Some a \<and>
            item \<in> set (cj_elements (cv_cj E) a) \<and> cj_string (cv_cj E) item = Some rule)))"

definition granted_to :: "('w, 'j) cd_env \<Rightarrow> sshnpd_params \<Rightarrow> string \<Rightarrow> policy_decision \<Rightarrow> cd_event set \<Rightarrow> bool" where
  "granted_to E p client d H \<longleftrightarrow>
     (\<exists>req_id m n. Cd_auth_check client req_id \<in> H \<and> Cd_message m \<in> H \<and> mg_type m = Msg_notification \<and>
        mg_notification m = Some n \<and> is_policy_response n p req_id \<and> answer_grants E n req_id d)"

text \<open>The question may have been about the same atSign in another spelling.\<close>

definition policy_says :: "('w, 'j) cd_env \<Rightarrow> sshnpd_params \<Rightarrow> string \<Rightarrow> policy_decision \<Rightarrow> cd_event set \<Rightarrow> bool" where
  "policy_says E p requester d H \<longleftrightarrow>
     (\<exists>client. noports_atsign_equals (Some client) (Some requester) \<and> granted_to E p client d H)"

text \<open>The relay and the target are the ones the request names.\<close>

definition relay_for :: "('w, 'j) cd_env \<Rightarrow> sshnpd_params \<Rightarrow> notification \<Rightarrow> 'j \<Rightarrow> srv_request \<Rightarrow> bool" where
  "relay_for E p n env q \<longleftrightarrow>
     (let cj = cv_cj E; payload = GetObjectItem cj (Some env) ''payload'';
          kind = sshnpd_notification_kind (nt_key n) (if nt_to_init n then nt_to n else None) (pm_device p) (nt_from n)
      in (kind = NK_NPT_REQUEST \<and> sq_srvd_host q = text_of (str_field cj payload ''rvdHost'') \<and>
          sq_srvd_port q = u16_number E (GetObjectItem cj payload ''rvdPort'') \<and>
          local_host_of q = text_of (str_field cj payload ''requestedHost'') \<and>
          local_port_of q = u16_number E (GetObjectItem cj payload ''requestedPort'')) \<or>
         (kind = NK_SSH_REQUEST \<and> sq_srvd_host q = text_of (str_field cj payload ''host'') \<and>
          sq_srvd_port q = u16_number E (GetObjectItem cj payload ''port'') \<and>
          local_host_of q = ''localhost'' \<and> local_port_of q = pm_local_sshd_port p))"

definition requested :: "('w, 'j) cd_env \<Rightarrow> sshnpd_params \<Rightarrow> srv_request \<Rightarrow> cd_event set \<Rightarrow> bool" where
  "requested E p q H \<longleftrightarrow>
     (\<exists>m n v env requester. Cd_message m \<in> H \<and> mg_type m = Msg_notification \<and> mg_notification m = Some n \<and>
        nt_from n = Some requester \<and> nt_value n = Some v \<and> cj_parse (cv_cj E) v = Some env \<and>
        c_signed_by E env requester H \<and> relay_for E p n env q \<and>
        should_permitopen (pm_permitopen p) (local_host_of q) (local_port_of q) \<and>
        (is_manager_atsign p (Some requester) \<or>
         (\<exists>d. policy_says E p requester d H \<and> policy_permits_open d (local_host_of q) (local_port_of q))))"

lemma lasts_signed: "lasts (c_signed_by E env r)"
  unfolding c_signed_by_def by (intro lasts_intros)

lemma lasts_granted: "lasts (granted_to E p c d)"
  unfolding granted_to_def by (intro lasts_intros)

lemma lasts_says: "lasts (policy_says E p r d)"
  unfolding policy_says_def by (intro lasts_intros lasts_granted)

lemma lasts_requested: "lasts (requested E p q)"
  unfolding requested_def by (intro lasts_intros lasts_signed lasts_says)

section \<open>The invariant\<close>

definition all_requested :: "('w, 'j) cd_env \<Rightarrow> sshnpd_params \<Rightarrow> cd_event list \<Rightarrow> bool" where
  "all_requested E p tr \<longleftrightarrow>
     (\<forall>before args vars after. tr = before @ Cd_exec args vars # after \<longrightarrow>
        (\<exists>q. args = srv_arguments q \<and> requested E p q (set before)))"

definition decisions_ok :: "('w, 'j) cd_env \<Rightarrow> sshnpd_params \<Rightarrow> policy_cache \<Rightarrow> cd_event set \<Rightarrow> bool" where
  "decisions_ok E p cache H \<longleftrightarrow>
     (\<forall>e \<in> set cache. ce_used e \<longrightarrow> authorized (ce_decision e) \<longrightarrow>
        (\<exists>client. canonical (Some client) = Some (ce_atsign e) \<and> granted_to E p client (ce_decision e) H))"

definition cd_inv :: "('w, 'j) cd_env \<Rightarrow> sshnpd_params \<Rightarrow> 'w cdaemon \<Rightarrow> bool" where
  "cd_inv E p s \<longleftrightarrow> cd_params s = p \<and> all_requested E p (cd_trace s) \<and> decisions_ok E p (cd_decisions s) (set (cd_trace s))"

text \<open>The invariant, and a fact about the events so far.\<close>

definition knowing :: "('w, 'j) cd_env \<Rightarrow> sshnpd_params \<Rightarrow> (cd_event set \<Rightarrow> bool) \<Rightarrow> 'w cdaemon \<Rightarrow> bool" where
  "knowing E p F s \<longleftrightarrow> cd_inv E p s \<and> F (set (cd_trace s))"

lemma all_requested_append:
  assumes "all_requested E p tr" "\<forall>e \<in> set new. no_exec e"
  shows "all_requested E p (tr @ new)"
proof (unfold all_requested_def, intro allI impI)
  fix before args vars after
  assume eq: "tr @ new = before @ Cd_exec args vars # after"
  show "\<exists>q. args = srv_arguments q \<and> requested E p q (set before)"
  proof (cases "length tr > length before")
    case True
    then have "tr = before @ drop (length before) tr" using eq by (metis append_eq_append_conv_if append_take_drop_id le_less)
    moreover have "\<exists>r. drop (length before) tr = Cd_exec args vars # r"
      using True eq by (metis append_eq_conv_conj drop_append cancel_comm_monoid_add_class.diff_cancel diff_is_0_eq drop0
          drop_eq_Nil list.exhaust list.inject append_Cons leD less_imp_le)
    ultimately show ?thesis using assms(1) unfolding all_requested_def by metis
  next
    case False
    then have "Cd_exec args vars \<in> set new" using eq
      by (auto simp: append_eq_append_conv2 dest: arg_cong [of _ _ set] arg_cong [of _ _ length])
    then show ?thesis using assms(2) by (auto simp: no_exec_def)
  qed
qed

lemma decisions_ok_mono: "decisions_ok E p c H \<Longrightarrow> H \<subseteq> H' \<Longrightarrow> decisions_ok E p c H'"
  unfolding decisions_ok_def using lastsD [OF lasts_granted] by blast

lemma knowing_quiet:
  assumes "only_logs no_exec s s'" "knowing E p F s" "lasts F"
  shows "knowing E p F s'"
proof -
  obtain tr where tr: "cd_trace s' = cd_trace s @ tr" "\<forall>e \<in> set tr. no_exec e" using assms(1) unfolding only_logs_def by blast
  have "set (cd_trace s) \<subseteq> set (cd_trace s')" using tr(1) by simp
  moreover have "all_requested E p (cd_trace s)" using assms(2) by (simp add: knowing_def cd_inv_def)
  then have "all_requested E p (cd_trace s')" unfolding tr(1) by (rule all_requested_append [OF _ tr(2)])
  ultimately show ?thesis using assms decisions_ok_mono lastsD [OF assms(3)]
    unfolding knowing_def cd_inv_def only_logs_def by metis
qed

lemma knowing_post: "quiet m \<Longrightarrow> lasts F \<Longrightarrow> knowing E p F s \<Longrightarrow> knowing E p F (post m s)"
  by (rule knowing_quiet [of s]) (simp_all add: state_io_rel_post)

lemma leads_quiet: "quiet m \<Longrightarrow> lasts F \<Longrightarrow> leads (knowing E p F) (knowing E p F) m"
  by (simp add: leads_def knowing_post)

lemma leads_then:
  "quiet m \<Longrightarrow> lasts F \<Longrightarrow> (\<And>x. leads (knowing E p F) Q (f x)) \<Longrightarrow> leads (knowing E p F) Q (m \<bind> f)"
  by (rule leads_bind [OF leads_quiet])

text \<open>A step after which more is known, depending on its result.\<close>

lemma leads_learn:
  assumes "quiet m" "lasts F" "\<And>s. knowing E p F s \<Longrightarrow> G (res m s) (set (cd_trace (post m s)))"
    and "\<And>x. leads (knowing E p (\<lambda>H. F H \<and> G x H)) Q (f x)"
  shows "leads (knowing E p F) Q (m \<bind> f)"
proof (rule leads_bind_res [OF _ assms(4)])
  fix s :: "'a cdaemon"
  assume k: "knowing E p F s"
  have "only_logs no_exec s (post m s)" using assms(1) by (simp add: state_io_rel_post)
  from knowing_quiet [OF this k assms(2)] assms(3) [OF k] show "knowing E p (\<lambda>H. F H \<and> G (res m s) H) (post m s)"
    by (simp add: knowing_def)
qed

lemma knowing_weaken: "knowing E p F s \<Longrightarrow> (\<And>H. F H \<Longrightarrow> G H) \<Longrightarrow> knowing E p G s"
  by (simp add: knowing_def)

lemma leads_inv: "quiet m \<Longrightarrow> lasts F \<Longrightarrow> leads (knowing E p F) (cd_inv E p) m"
  by (rule leads_post [OF leads_quiet]) (auto simp: knowing_def)

lemma leads_ret_inv: "leads (knowing E p F) (cd_inv E p) (ret x)"
  by (auto simp: leads_def knowing_def)

section \<open>Signatures\<close>

lemma verify_envelope_signature_0:
  "verify_envelope_signature ops pk payload sig ha sa = 0 \<longleftrightarrow>
     ha = ''sha256'' \<and> sa = ''rsa2048'' \<and> is_rsa2048_public_key pk \<and> rsa_verify ops pk MD_SHA256 payload sig"
  by (simp add: verify_envelope_signature_def)

lemma verify_with_key_sound: "res (verify_with_key E env pk_text) s = 0 \<Longrightarrow> signed_with E env pk_text"
  by (auto simp: verify_with_key_def signed_with_def verify_envelope_signature_0 c_print_def Let_def
      split: option.splits if_splits)

lemma verify_from_sound:
  assumes "res (verify_envelope_signature_from E env r) s = 0"
  shows "c_signed_by E env r (set (cd_trace (post (verify_envelope_signature_from E env r) s)))"
proof -
  obtain pk_text s1 where e: "res (verify_with_key E env pk_text) s1 = 0"
    "post (verify_envelope_signature_from E env r) s = post (verify_with_key E env pk_text) s1" "Cd_public_key r pk_text \<in> set (cd_trace s1)"
  proof -
    define s0 where "s0 = post (cdx (cv_create_key E ''publickey'' r)) s"
    define g where "g = cdx (cv_get_public_key E ''publickey'' r [])"
    obtain r2 buf where g2: "res g s0 = (r2, buf)" by fastforce
    have v: "envelope_has_fields (cv_cj E) env" "fst (cv_create_key E ''publickey'' r (cs_world (cd_sess s))) = 0"
      using assms by (auto simp: verify_envelope_signature_from_def split: if_splits)
    note d = verify_envelope_signature_from_def [of E env r]
    obtain pk_text where b: "buf = Some pk_text" "r2 = 0"
      using assms v g2 by (auto simp: d g_def s0_def split: option.splits if_splits)
    define s1 where "s1 = post (cd_emit (Cd_public_key r pk_text)) (post g s0)"
    have "res (verify_with_key E env pk_text) s1 = 0" "post (verify_envelope_signature_from E env r) s = post (verify_with_key E env pk_text) s1"
      using assms v g2 b by (auto simp: d g_def s0_def s1_def)
    then show ?thesis by (rule that) (simp add: s1_def)
  qed
  have "only_logs no_exec s1 (post (verify_with_key E env pk_text) s1)"
    using quiet_envelope(4) [of E env pk_text] by (simp add: state_io_rel_post)
  then have "set (cd_trace s1) \<subseteq> set (cd_trace (post (verify_envelope_signature_from E env r) s))"
    unfolding e(2) only_logs_def by auto
  then show ?thesis using e(3) verify_with_key_sound [OF e(1)] unfolding c_signed_by_def by blast
qed

section \<open>Answers\<close>

lemma copy_rules_given: "res (copy_rules E items) s = Some rs \<Longrightarrow> rule \<in> set rs \<Longrightarrow> \<exists>item \<in> set items. cj_string (cv_cj E) item = Some rule"
proof (induction items arbitrary: s rs)
  case (Cons item items)
  show ?case
  proof (cases "cj_string (cv_cj E) item")
    case None
    then show ?thesis using Cons by auto
  next
    case (Some entry)
    define s1 where "s1 = post (cd_strdup E entry) s"
    obtain rest where "res (copy_rules E items) s1 = Some rest" "rs = entry # rest"
      using Cons.prems(1) Some by (auto simp: s1_def split: if_splits)
    then show ?thesis using Cons.IH [of s1 rest] Cons.prems(2) Some by auto
  qed
qed simp

definition rules_of :: "'j cjson \<Rightarrow> 'j option \<Rightarrow> string list \<Rightarrow> bool" where
  "rules_of cj payload rules \<longleftrightarrow>
     (\<forall>rule \<in> set rules. \<exists>a item. GetObjectItem cj payload ''permitOpen'' = Some a \<and>
        item \<in> set (cj_elements cj a) \<and> cj_string cj item = Some rule)"

lemma rules_of_empty [simp]: "rules_of cj payload []"
  by (simp add: rules_of_def)

lemma parse_success_given:
  assumes "res (parse_success E payload) s = (r, d)"
  shows "(authorized d \<longrightarrow> IsTrue (cv_cj E) (GetObjectItem (cv_cj E) payload ''authorized'')) \<and> rules_of (cv_cj E) payload (permit_open d)"
proof -
  define items where "items = (case GetObjectItem (cv_cj E) payload ''permitOpen'' of
    Some a \<Rightarrow> if cj_is_array (cv_cj E) a then cj_elements (cv_cj E) a else [] | None \<Rightarrow> [])"
  have rules: "rules_of (cv_cj E) payload rs" if h: "res (copy_rules E items) s1 = Some rs" for s1 rs
    unfolding rules_of_def
  proof
    fix rule
    assume "rule \<in> set rs"
    then obtain item where i: "item \<in> set items" "cj_string (cv_cj E) item = Some rule" using copy_rules_given [OF h] by blast
    then obtain a where "GetObjectItem (cv_cj E) payload ''permitOpen'' = Some a" "item \<in> set (cj_elements (cv_cj E) a)"
      unfolding items_def by (cases "GetObjectItem (cv_cj E) payload ''permitOpen''") (auto split: if_splits)
    with i show "\<exists>a item. GetObjectItem (cv_cj E) payload ''permitOpen'' = Some a \<and> item \<in> set (cj_elements (cv_cj E) a) \<and>
      cj_string (cv_cj E) item = Some rule" by blast
  qed
  have p: "parse_success E payload =
      (if items = [] then ret (0, \<lparr>authorized = IsTrue (cv_cj E) (GetObjectItem (cv_cj E) payload ''authorized''), permit_open = []\<rparr>)
       else do {
         ok \<leftarrow> cd_alloc E (length items);
         if \<not> ok then ret (1, zero_decision)
         else do {
           rules \<leftarrow> copy_rules E items;
           ret (case rules of None \<Rightarrow> (1, zero_decision)
             | Some rs \<Rightarrow> (0, \<lparr>authorized = IsTrue (cv_cj E) (GetObjectItem (cv_cj E) payload ''authorized''), permit_open = rs\<rparr>)) } })"
    unfolding parse_success_def items_def Let_def by (rule refl)
  show ?thesis using assms rules unfolding p
    by (auto simp: zero_decision_def split: if_splits option.splits)
qed

lemma parse_response_given:
  assumes "res (policy_parse_response_value E (nt_value n) req_id) s = (0, d, ty)" "ty \<noteq> ''ack''" "authorized d"
  shows "answer_grants E n req_id d"
proof -
  obtain v resp where v: "nt_value n = Some v" "cj_parse (cv_cj E) v = Some resp"
    using assms(1) by (cases "Option.bind (nt_value n) (cj_parse (cv_cj E))")
      (auto simp: policy_parse_response_value_def Let_def bind_eq_Some_conv)
  let ?it = "GetObjectItem (cv_cj E) (Some resp)"
  have i: "i64_of_dbl (cv_ub_i64 E) (GetNumberValue (cv_cj E) (?it ''reqId'')) = req_id"
    using assms(1) v by (auto simp: policy_parse_response_value_def Let_def split: if_splits)
  have t: "str_field (cv_cj E) (Some resp) ''respType'' = Some ''success''"
    using assms(1,3) v by (auto simp: policy_parse_response_value_def Let_def zero_decision_def split: if_splits option.splits)
  have "\<exists>r s1. res (parse_success E (?it ''payload'')) s1 = (r, d)"
    using assms(1) v i t by (auto simp: policy_parse_response_value_def Let_def split: if_splits prod.splits)
  then show ?thesis using v i t assms(3) parse_success_given unfolding answer_grants_def rules_of_def Let_def by blast
qed

lemma read_check_decided:
  assumes "res (read_check_message E req_id) s = Check_decided d" "cd_params s = p" "authorized d"
  shows "\<exists>m n. Cd_message m \<in> set (cd_trace (post (read_check_message E req_id) s)) \<and> mg_type m = Msg_notification \<and>
    mg_notification m = Some n \<and> is_policy_response n p req_id \<and> answer_grants E n req_id d"
proof -
  define s0 where "s0 = post (cdx (cv_monitor_read E)) s"
  obtain r m where rm: "res (cdx (cv_monitor_read E)) s = (r, m)" by fastforce
  define s1 where "s1 = post (cd_emit (Cd_message m)) s0"
  note u = read_check_message_def [of E req_id]
  have r0: "r = 0" "mg_type m = Msg_notification" using assms(1) rm by (auto simp: u split: if_splits)
  obtain n where n: "mg_notification m = Some n" using assms(1) rm r0 by (auto simp: u split: option.splits)
  have p1: "cd_params s1 = p" using assms(2) by (simp add: s1_def s0_def)
  have run: "run_state (read_check_message E req_id) s = run_state (check_message E p req_id n) s1"
    using rm r0 n p1 by (simp add: u s1_def s0_def run_state_post)
  then have c: "res (check_message E p req_id n) s1 = Check_decided d"
    "post (read_check_message E req_id) s = post (check_message E p req_id n) s1"
    using assms(1) by (simp_all add: res_def post_def)
  have "only_logs no_exec s1 (post (check_message E p req_id n) s1)" using quiet_check(4) [of E p req_id n] by (simp add: state_io_rel_post)
  then have "Cd_message m \<in> set (cd_trace (post (read_check_message E req_id) s))"
    unfolding c(2) only_logs_def by (auto simp: s1_def)
  moreover have "is_policy_response n p req_id" "answer_grants E n req_id d"
    using c(1) assms(3) parse_response_given [of E n req_id s1] unfolding check_message_def
    by (auto split: if_splits prod.splits)
  ultimately show ?thesis using r0(2) n by blast
qed

text \<open>The answer a check comes back with.\<close>

lemma quiet_grows: "quiet m \<Longrightarrow> set (cd_trace s) \<subseteq> set (cd_trace (post m s)) \<and> cd_params (post m s) = cd_params s"
proof -
  assume "quiet m"
  then have "only_logs no_exec s (post m s)" by (simp add: state_io_rel_post)
  then show ?thesis unfolding only_logs_def by auto
qed

lemma wait_decided:
  "res (wait_for_decision k E c req_id st pr) s = (0, d) \<Longrightarrow> authorized d \<Longrightarrow> cd_params s = p \<Longrightarrow>
   Cd_auth_check c req_id \<in> set (cd_trace s) \<Longrightarrow> granted_to E p c d (set (cd_trace (post (wait_for_decision k E c req_id st pr) s)))"
proof (induction k arbitrary: s pr)
  case (Suc k)
  define s1 where "s1 = post (policy_now_millis E) s"
  define s2 where "s2 = post (read_check_message E req_id) s1"
  note u = wait_for_decision.simps(2) [of k E c req_id st pr]
  have on: "res (policy_now_millis E) s < policy_wait_deadline st pr" using Suc.prems(1,2)
    by (auto simp: u zero_decision_def split: if_splits)
  have alive: "cd_end s2 = None" using Suc.prems(1,2) on by (auto simp: u s1_def s2_def zero_decision_def split: if_splits)
  have g1: "set (cd_trace s) \<subseteq> set (cd_trace s1)" "cd_params s1 = p"
    using quiet_grows [OF quiet_policy_parts(1), of s E] Suc.prems(3) by (simp_all add: s1_def)
  have g2: "set (cd_trace s1) \<subseteq> set (cd_trace s2)" "cd_params s2 = p"
    using quiet_grows [OF quiet_check(5), of s1 E req_id] g1(2) by (simp_all add: s2_def)
  have in2: "Cd_auth_check c req_id \<in> set (cd_trace s2)" using Suc.prems(4) g1(1) g2(1) by blast
  have run: "run_state (wait_for_decision (Suc k) E c req_id st pr) s = (case res (read_check_message E req_id) s1 of
      Check_on \<Rightarrow> run_state (wait_for_decision k E c req_id st pr) s2
    | Check_progress \<Rightarrow> run_state (wait_for_decision k E c req_id st (res (policy_now_millis E) s2)) (post (policy_now_millis E) s2)
    | Check_decided d \<Rightarrow> ((0, d), s2))"
    using on alive by (simp add: u run_state_post s1_def s2_def split: check_step.split)
  show ?case
  proof (cases "res (read_check_message E req_id) s1")
    case Check_on
    then have "run_state (wait_for_decision (Suc k) E c req_id st pr) s = run_state (wait_for_decision k E c req_id st pr) s2" using run by simp
    then show ?thesis using Suc.IH [of pr s2] Suc.prems(1,2) g2(2) in2 by (simp add: res_def post_def)
  next
    case Check_progress
    define s3 where "s3 = post (policy_now_millis E) s2"
    have g3: "set (cd_trace s2) \<subseteq> set (cd_trace s3)" "cd_params s3 = p"
      using quiet_grows [OF quiet_policy_parts(1), of s2 E] g2(2) by (simp_all add: s3_def)
    have "run_state (wait_for_decision (Suc k) E c req_id st pr) s =
      run_state (wait_for_decision k E c req_id st (res (policy_now_millis E) s2)) s3" using run Check_progress by (simp add: s3_def)
    then show ?thesis using Suc.IH [of "res (policy_now_millis E) s2" s3] Suc.prems(1,2) g3 in2 by (auto simp: res_def post_def)
  next
    case (Check_decided d')
    then have r: "d' = d" "post (wait_for_decision (Suc k) E c req_id st pr) s = s2" using run Suc.prems(1) by (simp_all add: res_def post_def)
    show ?thesis
      using read_check_decided [of E req_id s1 d p] Check_decided r g1(2) Suc.prems(2) in2 unfolding granted_to_def r(2) s2_def by blast
  qed
qed simp

text \<open>An operation that has recorded an event when it succeeds.\<close>

definition records :: "cd_event \<Rightarrow> ('w, int) cdprog \<Rightarrow> bool" where
  "records e m \<longleftrightarrow> (\<forall>s. res m s = 0 \<longrightarrow> e \<in> set (cd_trace (post m s)))"

lemma records_rules:
  "k \<noteq> 0 \<Longrightarrow> records e (ret k)" "(\<And>x. records e (f x)) \<Longrightarrow> records e (m \<bind> f)"
  "(b \<Longrightarrow> records e m1) \<Longrightarrow> (\<not> b \<Longrightarrow> records e m2) \<Longrightarrow> records e (if b then m1 else m2)"
  "(z = None \<Longrightarrow> records e m3) \<Longrightarrow> (\<And>x. z = Some x \<Longrightarrow> records e (g x)) \<Longrightarrow> records e (case z of None \<Rightarrow> m3 | Some x \<Rightarrow> g x)"
  by (auto simp: records_def split: option.split)

lemma records_emit: "quiet m \<Longrightarrow> records e (cd_emit e \<bind> (\<lambda>_. m))"
  using quiet_grows [of m] by (fastforce simp: records_def)

lemma send_request_recorded:
  assumes "res (send_auth_check_request E c i) s = 0"
  shows "Cd_auth_check c i \<in> set (cd_trace (post (send_auth_check_request E c i) s))"
proof -
  have "records (Cd_auth_check c i) (send_auth_check_request E c i)"
    unfolding send_auth_check_request_def Let_def
    by (intro records_emit records_rules io_intro) simp_all
  with assms show ?thesis by (simp add: records_def)
qed

lemma auth_check_decided:
  assumes "res (policy_auth_check E c) s = (0, d)" "authorized d" "cd_params s = p"
  shows "granted_to E p c d (set (cd_trace (post (policy_auth_check E c) s)))"
proof -
  define i where "i = res (cdx (cv_gettimeofday_us E)) s"
  define s1 where "s1 = post (cdx (cv_gettimeofday_us E)) s"
  define s2 where "s2 = post (send_auth_check_request E c i) s1"
  define st where "st = res (policy_now_millis E) s2"
  define s3 where "s3 = post (policy_now_millis E) s2"
  note u = policy_auth_check_def [of E c]
  have ok: "res (send_auth_check_request E c i) s1 = 0" using assms(1,2) by (auto simp: u i_def s1_def zero_decision_def split: if_splits)
  have run: "run_state (policy_auth_check E c) s = run_state (wait_for_decision (cv_fuel E) E c i st st) s3"
    using ok by (simp add: u run_state_post i_def s1_def s2_def s3_def st_def)
  have "Cd_auth_check c i \<in> set (cd_trace s2)" unfolding s2_def by (rule send_request_recorded [OF ok])
  moreover have "cd_params s2 = p" using quiet_grows [OF quiet_check(3), of s1 E c i] assms(3) by (simp add: s2_def s1_def)
  ultimately have "Cd_auth_check c i \<in> set (cd_trace s3)" "cd_params s3 = p"
    using quiet_grows [OF quiet_policy_parts(1), of s2 E] by (auto simp: s3_def)
  with wait_decided [of "cv_fuel E" E c i st st s3 d p] assms(1,2) run show ?thesis by (simp add: res_def post_def)
qed

section \<open>The gate\<close>

lemma throttle_canonical: "fst (policy_throttle_allows th a k t) \<Longrightarrow> canonical (Some a) \<noteq> None"
  by (auto simp: policy_throttle_allows_def sshnpd_normalize_canonical SSHNPD_ATSIGN_BUFFER_LEN_def
      NOPORTS_ATSIGN_BUFFER_LEN_def NOPORTS_ATSIGN_MAX_LEN_def split: option.splits)

lemma throttled_canonical: "\<not> res (cd_throttled E c k) s \<Longrightarrow> canonical (Some c) \<noteq> None"
proof -
  assume a: "\<not> res (cd_throttled E c k) s"
  define s1 where "s1 = post (policy_now_millis E) s"
  have "fst (policy_throttle_allows (cd_throttle s1) c k (res (policy_now_millis E) s))"
    using a by (simp add: cd_throttled_def s1_def case_prod_beta)
  then show ?thesis by (rule throttle_canonical)
qed

lemma same_atsign: "canonical (Some a) = Some n \<Longrightarrow> canonical (Some b) = Some n \<Longrightarrow> noports_atsign_equals (Some a) (Some b)"
  by (simp add: noports_atsign_equals_def)

lemma cached_says:
  assumes "cd_inv E p s" "res (cd_cached E c) s = Some d" "authorized d"
  shows "policy_says E p c d (set (cd_trace (post (cd_cached E c) s)))"
proof -
  define s' where "s' = post (cd_cached E c) s"
  have q: "only_logs no_exec s s'" using quiet_policy_parts(3) [of E c] by (simp add: state_io_rel_post s'_def)
  then have "cd_decisions s' = cd_decisions s" by (simp add: only_logs_def)
  moreover have "\<exists>al now. policy_cache_lookup al (cd_decisions s') c now = Some d"
    using assms(2) by (auto simp: cd_cached_def s'_def)
  ultimately obtain e where e: "e \<in> set (cd_decisions s)" "ce_used e" "canonical (Some c) = Some (ce_atsign e)" "ce_decision e = d"
    unfolding policy_cache_lookup_def using cache_lookup_entry by metis
  then obtain client where cl: "canonical (Some client) = Some (ce_atsign e)" "granted_to E p client d (set (cd_trace s))"
    using assms(1,3) unfolding cd_inv_def decisions_ok_def by blast
  have "set (cd_trace s) \<subseteq> set (cd_trace s')" using quiet_grows [OF quiet_policy_parts(3) [of E c]] by (simp add: s'_def)
  then have "granted_to E p client d (set (cd_trace s'))" using lastsD [OF lasts_granted cl(2)] by blast
  then show ?thesis unfolding policy_says_def s'_def using same_atsign [OF cl(1) e(3)] by blast
qed

lemma decisions_ok_store:
  assumes "decisions_ok E p c H" "authorized d \<Longrightarrow> granted_to E p client d H"
  shows "decisions_ok E p (snd (policy_cache_store al c client d now)) H"
proof -
  have upd: "decisions_ok E p (c[i := e]) H" if "ce_used e \<Longrightarrow> authorized (ce_decision e) \<Longrightarrow>
      \<exists>client. canonical (Some client) = Some (ce_atsign e) \<and> granted_to E p client (ce_decision e) H" for i e
    using assms(1) that by (auto simp: decisions_ok_def dest!: set_update_subset_insert [THEN subsetD])
  have cp: "snd (copy_decision al d) = d" if "fst (copy_decision al d) = 0"
    using that copy_decision_ok [of al d "snd (copy_decision al d)"] by (metis prod.collapse)
  show ?thesis
    unfolding policy_cache_store_def noports_policy_cache_store_def Let_def using assms cp
    by (auto split: option.splits prod.splits intro!: upd)
qed

lemma remember_kept:
  assumes "knowing E p F s" "lasts F" "authorized d \<Longrightarrow> granted_to E p client d (set (cd_trace s))"
  shows "knowing E p F (post (cd_remember E client d) s)"
proof -
  define s1 where "s1 = post (policy_now_millis E) s"
  define s2 where "s2 = post (c_draw_copy E) s1"
  have 1: "knowing E p F s1" unfolding s1_def by (rule knowing_post [OF quiet_policy_parts(1) assms(2,1)])
  have t1: "cd_trace s1 = cd_trace s" by (simp add: s1_def policy_now_millis_def case_prod_beta)
  have 2: "knowing E p F s2" unfolding s2_def by (rule knowing_post [OF quiet_policy_parts(2) assms(2) 1])
  have t2: "cd_trace s2 = cd_trace s1" by (simp add: s2_def c_draw_copy_def cd_alloc_def)
  have "decisions_ok E p (cd_decisions s2) (set (cd_trace s2))" using 2 by (simp add: knowing_def cd_inv_def)
  from decisions_ok_store [OF this] assms(3) t1 t2
  have "decisions_ok E p (snd (policy_cache_store al (cd_decisions s2) client d now)) (set (cd_trace s2))" for al now by simp
  then show ?thesis using 2 by (simp add: cd_remember_def s1_def [symmetric] s2_def [symmetric] knowing_def cd_inv_def)
qed

lemma gate_kept:
  assumes "knowing E p F s" "lasts F"
  shows "knowing E p (\<lambda>H. F H \<and> (fst (res (policy_gate E c k (check_with_policy_service E)) s) = POLICY_GATE_ALLOW \<longrightarrow>
      policy_says E p c (snd (res (policy_gate E c k (check_with_policy_service E)) s)) H))
    (post (policy_gate E c k (check_with_policy_service E)) s)"
proof -
  define s1 where "s1 = post (cd_cached E c) s"
  define s2 where "s2 = post (cd_throttled E c k) s1"
  define s3 where "s3 = post (policy_auth_check E c) s2"
  have k1: "knowing E p F s1" unfolding s1_def by (rule knowing_post [OF quiet_policy_parts(3) assms(2,1)])
  have k2: "knowing E p F s2" unfolding s2_def by (rule knowing_post [OF quiet_policy_parts(4) assms(2) k1])
  have k3: "knowing E p F s3" unfolding s3_def by (rule knowing_post [OF quiet_auth_check assms(2) k2])
  note u = policy_gate_def [of E c k "check_with_policy_service E"]
  show ?thesis
  proof (cases "res (cd_cached E c) s")
    case (Some d)
    have "authorized d \<Longrightarrow> policy_says E p c d (set (cd_trace s1))"
      using cached_says [of E p s c d] Some assms(1) by (simp add: s1_def knowing_def)
    then show ?thesis using Some k1 by (simp add: u s1_def [symmetric] knowing_def gate_verdict_def)
  next
    case None
    show ?thesis
    proof (cases "res (cd_throttled E c k) s1")
      case True
      then show ?thesis using None k2 by (simp add: u s1_def [symmetric] s2_def [symmetric] knowing_def)
    next
      case False
      obtain r d where rd: "res (policy_auth_check E c) s2 = (r, d)" by fastforce
      show ?thesis
      proof (cases "r = 0")
        case True
        have g: "granted_to E p c d (set (cd_trace s3))" if "authorized d"
          using auth_check_decided [of E c s2 d p] rd True that k2 by (simp add: s3_def knowing_def cd_inv_def)
        define F' where "F' H \<longleftrightarrow> F H \<and> (authorized d \<longrightarrow> policy_says E p c d H)" for H
        have n: "canonical (Some c) \<noteq> None" by (rule throttled_canonical [OF False])
        have "lasts F'" unfolding F'_def by (intro lasts_intros lasts_imp assms(2) lasts_says)
        moreover have "policy_says E p c d (set (cd_trace s3))" if "authorized d"
          unfolding policy_says_def using same_atsign [of c _ c] n g [OF that] by blast
        then have "knowing E p F' s3" using k3 by (auto simp: knowing_def F'_def)
        ultimately have "knowing E p F' (post (cd_remember E c d) s3)" using remember_kept g by blast
        then show ?thesis using None False rd True
          by (simp add: u s1_def [symmetric] s2_def [symmetric] s3_def [symmetric] check_with_policy_service_def knowing_def
              F'_def gate_verdict_def)
      next
        case f: False
        then show ?thesis using None False rd k3
          by (simp add: u s1_def [symmetric] s2_def [symmetric] s3_def [symmetric] check_with_policy_service_def knowing_def)
      qed
    qed
  qed
qed

end
