(* ===== verification/C_Daemon_Relays.thy ===== *)
theory C_Daemon_Relays
  imports C_Daemon_Safety
begin

text \<open>
  From the envelope of a request to the process that serves it, and around the loop: every step keeps the invariant of
  \<open>C_Daemon_Safety\<close>, so every relay that the C daemon ever starts was asked for.
\<close>

section \<open>Sessions\<close>

text \<open>Relay and target decide whether a request was made.\<close>

definition same_relay :: "srv_request \<Rightarrow> srv_request \<Rightarrow> bool" where
  "same_relay q r \<longleftrightarrow> sq_srvd_host q = sq_srvd_host r \<and> sq_srvd_port q = sq_srvd_port r \<and>
     sq_requested_host q = sq_requested_host r \<and> sq_requested_port q = sq_requested_port r"

lemma requested_same: "same_relay q r \<Longrightarrow> requested E p q H = requested E p r H"
  by (simp add: same_relay_def requested_def relay_for_def local_host_of_def local_port_of_def)

lemma all_requested_exec:
  assumes "all_requested E p tr" "requested E p q (set tr)"
  shows "all_requested E p (tr @ [Cd_exec (srv_arguments q) vars])"
proof (unfold all_requested_def, intro allI impI)
  fix before args v after
  assume eq: "tr @ [Cd_exec (srv_arguments q) vars] = before @ Cd_exec args v # after"
  show "\<exists>q. args = srv_arguments q \<and> requested E p q (set before)"
  proof (cases after rule: rev_cases)
    case Nil
    then show ?thesis using eq assms(2) by auto
  next
    case (snoc ys y)
    then have "tr = before @ Cd_exec args v # ys" using eq by (metis append_Cons append_assoc butlast_snoc)
    then show ?thesis using assms(1) unfolding all_requested_def by blast
  qed
qed

lemma emit_exec_kept:
  "leads (knowing E p (requested E p q)) (knowing E p (requested E p q)) (cd_emit (Cd_exec (srv_arguments q) vars))"
proof (rule leadsI)
  fix s :: "'a cdaemon"
  assume k: "knowing E p (requested E p q) s"
  have r: "requested E p q (set (cd_trace s))" and a: "all_requested E p (cd_trace s)"
    and d: "decisions_ok E p (cd_decisions s) (set (cd_trace s))" and pp: "cd_params s = p"
    using k by (simp_all add: knowing_def cd_inv_def)
  have "set (cd_trace s) \<subseteq> insert (Cd_exec (srv_arguments q) vars) (set (cd_trace s))" by blast
  then show "knowing E p (requested E p q) (post (cd_emit (Cd_exec (srv_arguments q) vars)) s)"
    using all_requested_exec [OF a r] decisions_ok_mono [OF d] lastsD [OF lasts_requested r] pp
    by (simp add: knowing_def cd_inv_def)
qed

lemma run_srv_kept: "leads (knowing E p (requested E p q)) (cd_inv E p) (run_srv_process E q fd)"
  unfolding run_srv_process_def Let_def
  by (intro leads_then lasts_requested leads_option leads_ret_inv leads_bind [OF emit_exec_kept] io_rule io_intro)

lemma child_kept: "leads (knowing E p (requested E p q)) (cd_inv E p) (child_of_daemon E q ready)"
  unfolding child_of_daemon_def
  by (intro leads_then lasts_requested leads_bind [OF run_srv_kept] io_intro) (simp add: leads_def cd_inv_def)

lemma fork_kept:
  "leads (knowing E p (requested E p q)) (cd_inv E p) (fork_session E pl r k a b q)"
  unfolding fork_session_def Let_def
  by (intro leads_then lasts_requested leads_if child_kept leads_inv io_rule io_intro)

lemma serve_kept:
  "leads (knowing E p (requested E p base)) (cd_inv E p) (serve_session E pl r k base)"
proof -
  have f: "leads (knowing E p (requested E p base)) (cd_inv E p) (fork_session E pl r k a b q)" if "same_relay q base" for a b q
    using fork_kept [of E p q pl r k a b] unfolding knowing_def requested_same [OF that] .
  show ?thesis unfolding serve_session_def
    by (intro leads_then lasts_requested leads_option leads_case_prod leads_ret_inv f io_intro) (simp add: same_relay_def)
qed

section \<open>Requests\<close>

text \<open>A notification from the monitor connection; the envelope in it, signed by its sender; and the sender's standing.\<close>

definition from_monitor :: "notification \<Rightarrow> cd_event set \<Rightarrow> bool" where
  "from_monitor n H \<longleftrightarrow> (\<exists>m. Cd_message m \<in> H \<and> mg_type m = Msg_notification \<and> mg_notification m = Some n)"

definition asked :: "('w, 'j) cd_env \<Rightarrow> notification \<Rightarrow> 'j \<Rightarrow> string \<Rightarrow> cd_event set \<Rightarrow> bool" where
  "asked E n env requester H \<longleftrightarrow> from_monitor n H \<and> nt_from n = Some requester \<and>
     (\<exists>v. nt_value n = Some v \<and> cj_parse (cv_cj E) v = Some env) \<and> c_signed_by E env requester H"

definition cleared :: "('w, 'j) cd_env \<Rightarrow> sshnpd_params \<Rightarrow> string option \<Rightarrow> policy_decision option \<Rightarrow> cd_event set \<Rightarrow> bool" where
  "cleared E p client policy H \<longleftrightarrow>
     (case policy of None \<Rightarrow> is_manager_atsign p client | Some d \<Rightarrow> \<exists>c. client = Some c \<and> policy_says E p c d H)"

lemma lasts_monitor: "lasts (from_monitor n)"
  unfolding from_monitor_def by (intro lasts_intros)

lemma lasts_asked: "lasts (asked E n env r)"
  unfolding asked_def by (intro lasts_intros lasts_monitor lasts_signed)

lemma lasts_cleared: "lasts (cleared E p client policy)"
  unfolding cleared_def by (cases policy) (auto intro!: lasts_intros lasts_says)

lemmas lasts_facts = lasts_monitor lasts_asked lasts_cleared lasts_requested

text \<open>The target as the handler looks at it, and as the relay gets it.\<close>

definition target_allowed :: "sshnpd_params \<Rightarrow> policy_decision option \<Rightarrow> srv_request \<Rightarrow> bool" where
  "target_allowed p policy q \<longleftrightarrow> should_permitopen (pm_permitopen p) (local_host_of q) (local_port_of q) \<and>
     (\<forall>d. policy = Some d \<longrightarrow> policy_permits_open d (local_host_of q) (local_port_of q))"

lemma requestedI:
  assumes "asked E n env r H" "cleared E p (Some r) policy H" "relay_for E p n env q" "target_allowed p policy q"
  shows "requested E p q H"
proof -
  obtain m v where m: "Cd_message m \<in> H" "mg_type m = Msg_notification" "mg_notification m = Some n" "nt_from n = Some r"
    "nt_value n = Some v" "cj_parse (cv_cj E) v = Some env" "c_signed_by E env r H"
    using assms(1) unfolding asked_def from_monitor_def by blast
  have "is_manager_atsign p (Some r) \<or> (\<exists>d. policy_says E p r d H \<and> policy_permits_open d (local_host_of q) (local_port_of q))"
    using assms(2,4) unfolding cleared_def target_allowed_def by (cases policy) auto
  with m assms(3,4) show ?thesis unfolding requested_def target_allowed_def by blast
qed

lemma serve_asked:
  assumes "relay_for E p n env base" "target_allowed p policy base"
  shows "leads (knowing E p (\<lambda>H. asked E n env r H \<and> cleared E p (Some r) policy H)) (cd_inv E p) (serve_session E pl r k base)"
proof (rule leads_pre [OF serve_kept])
  fix s :: "'a cdaemon"
  assume "knowing E p (\<lambda>H. asked E n env r H \<and> cleared E p (Some r) policy H) s"
  then show "knowing E p (requested E p base) s" by (rule knowing_weaken) (blast intro: requestedI assms)
qed

lemma leads_params:
  "leads (knowing E p F) Q (f p) \<Longrightarrow> leads (knowing E p F) Q (gets cd_params \<bind> f)"
  by (simp add: leads_def knowing_def cd_inv_def)

definition kind_of :: "sshnpd_params \<Rightarrow> notification \<Rightarrow> notification_key" where
  "kind_of p n = sshnpd_notification_kind (nt_key n) (if nt_to_init n then nt_to n else None) (pm_device p) (nt_from n)"

lemma valid_port_number:
  fixes E :: "('w, 'j) cd_env"
  assumes "is_valid_port (cv_cj E) j"
  shows "u16_number E j \<noteq> 0"
proof -
  obtain r where r: "GetNumberValue (cv_cj E) j = Fin r" "1 \<le> r" "r \<le> 65535" "r = of_int (trunc_rat r)"
    using assms by (auto simp: is_valid_port_def split: dbl.splits)
  define z where "z = trunc_rat r"
  have z: "1 \<le> z" "z \<le> 65535" using r(2-4) by (simp_all add: z_def [symmetric])
  have "u16_number E j = word_of_int z" using r(1-3) by (simp add: u16_number_def u16_of_dbl_def z_def)
  moreover have "uint (word_of_int z :: u16) = z" using z by (simp add: uint_word_of_int)
  ultimately show ?thesis using z by auto
qed

lemma npt_target:
  fixes E :: "('w, 'j) cd_env"
  assumes "verify_envelope_contents (cv_cj E) ib env payload_type_npt = 0"
  defines "pl \<equiv> GetObjectItem (cv_cj E) (Some env) ''payload''"
  shows "str_field (cv_cj E) pl ''requestedHost'' \<noteq> None" "u16_number E (GetObjectItem (cv_cj E) pl ''requestedPort'') \<noteq> 0"
proof -
  have "IsString (cv_cj E) (GetObjectItem (cv_cj E) pl ''requestedHost'')"
    "is_valid_port (cv_cj E) (GetObjectItem (cv_cj E) pl ''requestedPort'')"
    using assms(1) by (auto simp: verify_envelope_contents_def verify_payload_contents_def Let_def pl_def split: if_splits)
  then show "str_field (cv_cj E) pl ''requestedHost'' \<noteq> None" "u16_number E (GetObjectItem (cv_cj E) pl ''requestedPort'') \<noteq> 0"
    using valid_port_number by (auto simp: IsString_def str_field_def)
qed

lemma start_npt_kept:
  fixes E :: "('w, 'j) cd_env"
  assumes kind: "kind_of p n = NK_NPT_REQUEST" and ok: "verify_envelope_contents (cv_cj E) ib env payload_type_npt = 0"
  shows "leads (knowing E p (\<lambda>H. asked E n env r H \<and> cleared E p (Some r) policy H)) (cd_inv E p)
    (start_npt_session E env r policy k)" (is "leads (knowing E p ?F) _ _")
proof -
  define pl where "pl = GetObjectItem (cv_cj E) (Some env) ''payload''"
  define q where "q = npt_base E pl"
  have F: "lasts ?F" by (intro lasts_intros lasts_facts)
  have h: "local_host_of q = text_of (str_field (cv_cj E) pl ''requestedHost'')"
    and o: "local_port_of q = u16_number E (GetObjectItem (cv_cj E) pl ''requestedPort'')"
    using npt_target [OF ok] by (auto simp: q_def npt_base_def local_host_of_def local_port_of_def pl_def text_of_def Let_def)
  have rel: "relay_for E p n env q"
    using kind h o by (simp add: relay_for_def kind_of_def pl_def [symmetric] q_def npt_base_def blank_request_def Let_def)
  have srv: "leads (knowing E p ?F) (cd_inv E p) (serve_session E pl r k q)" if "target_allowed p policy q"
    by (rule serve_asked [OF rel that])
  show ?thesis
    unfolding start_npt_session_def Let_def pl_def [symmetric] q_def [symmetric] h [symmetric] o [symmetric]
    by (rule leads_params, intro leads_then F leads_if leads_option leads_ret_inv io_intro srv) (simp_all add: target_allowed_def)
qed

lemma start_ssh_kept:
  fixes E :: "('w, 'j) cd_env"
  assumes kind: "kind_of p n = NK_SSH_REQUEST" and port: "pm_local_sshd_port p \<noteq> 0"
  shows "leads (knowing E p (\<lambda>H. asked E n env r H \<and> cleared E p (Some r) policy H)) (cd_inv E p)
    (start_ssh_session E env r policy k)" (is "leads (knowing E p ?F) _ _")
proof -
  define pl where "pl = GetObjectItem (cv_cj E) (Some env) ''payload''"
  define q where "q = ssh_base E p pl"
  have F: "lasts ?F" by (intro lasts_intros lasts_facts)
  have t: "local_host_of q = ''localhost''" "local_port_of q = pm_local_sshd_port p"
    using port by (simp_all add: q_def ssh_base_def local_host_of_def local_port_of_def Let_def)
  have rel: "relay_for E p n env q"
    using kind t by (simp add: relay_for_def kind_of_def pl_def [symmetric] q_def ssh_base_def blank_request_def Let_def)
  have srv: "leads (knowing E p ?F) (cd_inv E p) (serve_session E pl r k q)" if "target_allowed p policy q"
    by (rule serve_asked [OF rel that])
  show ?thesis
    unfolding start_ssh_session_def Let_def pl_def [symmetric]
    by (rule leads_params, unfold q_def [symmetric], intro leads_then F leads_if leads_option leads_ret_inv io_intro srv)
      (simp_all add: target_allowed_def t)
qed

section \<open>The handlers\<close>

definition envelope_of :: "('w, 'j) cd_env \<Rightarrow> notification \<Rightarrow> 'j \<Rightarrow> bool" where
  "envelope_of E n env \<longleftrightarrow> nt_from n \<noteq> None \<and> (\<exists>v. nt_value n = Some v \<and> cj_parse (cv_cj E) v = Some env)"

lemma extracted_envelope: "res (extract_envelope_from_notification E n) s = Some env \<Longrightarrow> envelope_of E n env"
  by (auto simp: extract_envelope_from_notification_def envelope_of_def split: if_splits option.splits)

lemma handle_session_kept:
  fixes E :: "('w, 'j) cd_env"
  assumes start: "\<And>env r k. verify_envelope_contents (cv_cj E) (is_bool_item E) env ty = 0 \<Longrightarrow>
    leads (knowing E p (\<lambda>H. asked E n env r H \<and> cleared E p (Some r) policy H)) (cd_inv E p) (start env r k)"
  shows "leads (knowing E p (\<lambda>H. from_monitor n H \<and> cleared E p (nt_from n) policy H)) (cd_inv E p)
    (handle_session_request E n ty start)" (is "leads (knowing E p ?F) _ _")
proof -
  define G where "G e (H :: cd_event set) \<longleftrightarrow> (\<forall>env. e = Some env \<longrightarrow> envelope_of E n env)" for e H
  define r where "r = text_of (nt_from n)"
  define S where "S env i H \<longleftrightarrow> (i = 0 \<longrightarrow> c_signed_by E env r H)" for env and i :: int and H
  have F: "lasts ?F" by (intro lasts_intros lasts_facts)
  have lG: "lasts (G e)" for e unfolding G_def by (intro lasts_intros)
  have lS: "lasts (S env i)" for env i unfolding S_def by (intro lasts_imp lasts_signed)
  have go: "leads (knowing E p (\<lambda>H. (?F H \<and> G (Some env) H) \<and> S env i H)) (cd_inv E p) (start env r k)"
    if "\<not> i \<noteq> 0" "\<not> verify_envelope_contents (cv_cj E) (is_bool_item E) env ty \<noteq> 0" for env k i
  proof (rule leads_pre [OF start])
    show "verify_envelope_contents (cv_cj E) (is_bool_item E) env ty = 0" using that by simp
    fix s :: "'w cdaemon"
    assume "knowing E p (\<lambda>H. (?F H \<and> G (Some env) H) \<and> S env i H) s"
    then show "knowing E p (\<lambda>H. asked E n env r H \<and> cleared E p (Some r) policy H) s"
      using that by - (rule knowing_weaken, assumption, auto simp: G_def S_def asked_def envelope_of_def r_def text_of_def)
  qed
  have signed: "leads (knowing E p (\<lambda>H. ?F H \<and> G (Some env) H)) (cd_inv E p)
    (do { i \<leftarrow> verify_envelope_signature_from E env r;
       if i \<noteq> 0 then ret ()
       else if verify_envelope_contents (cv_cj E) (is_bool_item E) env ty \<noteq> 0 then ret ()
       else do { key \<leftarrow> check_client_signing_key E r env; case key of None \<Rightarrow> ret () | Some k \<Rightarrow> start env r k } })" for env
  proof (rule leads_learn [where G = "S env"])
    show "quiet (verify_envelope_signature_from E env r)" by (intro io_intro)
    show "lasts (\<lambda>H. ?F H \<and> G (Some env) H)" by (intro lasts_intros F lG)
    show "S env (res (verify_envelope_signature_from E env r) s) (set (cd_trace (post (verify_envelope_signature_from E env r) s)))" for s
      unfolding S_def by (intro impI verify_from_sound)
    show "leads (knowing E p (\<lambda>H. (?F H \<and> G (Some env) H) \<and> S env i H)) (cd_inv E p)
      (if i \<noteq> 0 then ret ()
       else if verify_envelope_contents (cv_cj E) (is_bool_item E) env ty \<noteq> 0 then ret ()
       else do { key \<leftarrow> check_client_signing_key E r env; case key of None \<Rightarrow> ret () | Some k \<Rightarrow> start env r k })" for i
    proof (intro leads_if leads_then leads_option leads_ret_inv)
      show "quiet (check_client_signing_key E r env)" by (intro io_intro)
      show "lasts (\<lambda>H. (?F H \<and> G (Some env) H) \<and> S env i H)" by (intro lasts_intros F lG lS)
    qed (rule go)
  qed
  show ?thesis unfolding handle_session_request_def Let_def r_def [symmetric]
  proof (rule leads_learn [where G = G])
    show "quiet (extract_envelope_from_notification E n)" by (intro io_intro)
    show "lasts ?F" by (rule F)
    show "G (res (extract_envelope_from_notification E n) s) (set (cd_trace (post (extract_envelope_from_notification E n) s)))" for s
      unfolding G_def by (intro allI impI extracted_envelope)
  qed (intro leads_option leads_ret_inv, hypsubst, rule signed)
qed

lemma c_dispatch_kept:
  assumes "pm_local_sshd_port p \<noteq> 0" "kind = kind_of p n"
  shows "leads (knowing E p (\<lambda>H. from_monitor n H \<and> cleared E p (nt_from n) policy H)) (cd_inv E p) (dispatch_request E kind n policy)"
    (is "leads (knowing E p ?F) _ _")
proof -
  have F: "lasts ?F" by (intro lasts_intros lasts_facts)
  have npt: "leads (knowing E p ?F) (cd_inv E p) (handle_npt_request E n policy)" if "kind = NK_NPT_REQUEST"
    unfolding handle_npt_request_def using that assms(2) by (intro handle_session_kept start_npt_kept) auto
  have ssh: "leads (knowing E p ?F) (cd_inv E p) (handle_ssh_request E n policy)" if "kind = NK_SSH_REQUEST"
    unfolding handle_ssh_request_def using that assms by (intro handle_session_kept start_ssh_kept) auto
  have "leads (knowing E p ?F) (cd_inv E p) (case kind of NK_SSHPUBLICKEY \<Rightarrow> handle_sshpublickey E n | NK_PING \<Rightarrow> handle_ping E n
      | NK_SSH_REQUEST \<Rightarrow> handle_ssh_request E n policy | NK_NPT_REQUEST \<Rightarrow> handle_npt_request E n policy | _ \<Rightarrow> ret ())"
    by (cases kind) (simp_all add: npt ssh leads_ret_inv leads_inv [OF _ F] quiet_daemon_parts)
  then show ?thesis
    unfolding dispatch_request_def by (intro leads_then leads_if leads_ret_inv F io_intro)
qed

lemma referred_kept:
  assumes "pm_local_sshd_port p \<noteq> 0" "kind = kind_of p n"
  shows "leads (knowing E p (from_monitor n)) (cd_inv E p) (referred_request E kind n)"
proof -
  have go: "leads (knowing E p (\<lambda>H. from_monitor n H \<and> (gate = POLICY_GATE_ALLOW \<longrightarrow> policy_says E p c d H))) (cd_inv E p)
      (if gate = POLICY_GATE_ALLOW then dispatch_request E kind n (Some d) else ret ())" if "nt_from n = Some c" for gate c d
  proof (intro leads_if leads_ret_inv)
    assume "gate = POLICY_GATE_ALLOW"
    then show "leads (knowing E p (\<lambda>H. from_monitor n H \<and> (gate = POLICY_GATE_ALLOW \<longrightarrow> policy_says E p c d H))) (cd_inv E p)
        (dispatch_request E kind n (Some d))"
      using that by (intro leads_pre [OF c_dispatch_kept [OF assms, of E "Some d"]]) (auto simp: cleared_def knowing_def)
  qed
  have gate: "leads (knowing E p (from_monitor n)) (cd_inv E p)
      (do { (gate, d) \<leftarrow> policy_gate E c kind (check_with_policy_service E);
         if gate = POLICY_GATE_ALLOW then dispatch_request E kind n (Some d) else ret () })" if "nt_from n = Some c" for c
  proof (rule leads_bind_res [where R = "\<lambda>x. knowing E p (\<lambda>H. from_monitor n H \<and> (fst x = POLICY_GATE_ALLOW \<longrightarrow>
      policy_says E p c (snd x) H))"])
    fix s :: "'a cdaemon"
    assume "knowing E p (from_monitor n) s"
    from gate_kept [OF this lasts_monitor]
    show "knowing E p (\<lambda>H. from_monitor n H \<and> (fst (res (policy_gate E c kind (check_with_policy_service E)) s) =
        POLICY_GATE_ALLOW \<longrightarrow> policy_says E p c (snd (res (policy_gate E c kind (check_with_policy_service E)) s)) H))
      (post (policy_gate E c kind (check_with_policy_service E)) s)" .
  qed (simp add: case_prod_beta go [OF that])
  show ?thesis unfolding referred_request_def
    by (rule leads_params) (auto split: option.split intro: leads_ret_inv gate)
qed

section \<open>The loop\<close>

lemma cd_inv_knowing: "cd_inv E p = knowing E p (\<lambda>_. True)"
  by (simp add: knowing_def fun_eq_iff)

lemma notification_kept:
  assumes "pm_local_sshd_port p \<noteq> 0"
  shows "leads (knowing E p (from_monitor n)) (cd_inv E p) (handle_notification E n)"
proof -
  have manager: "leads (knowing E p (from_monitor n)) (cd_inv E p) (dispatch_request E (kind_of p n) n None)"
    if "is_manager_atsign p (nt_from n)"
    using that by (intro leads_pre [OF c_dispatch_kept [OF assms refl, of E n None]]) (auto simp: cleared_def knowing_def)
  show ?thesis
    unfolding handle_notification_def Let_def
    by (rule leads_params, fold kind_of_def, intro leads_if leads_ret_inv manager referred_kept assms refl)
qed

lemma message_kept:
  assumes "pm_local_sshd_port p \<noteq> 0"
  shows "leads (knowing E p (\<lambda>H. Cd_message m \<in> H)) (cd_inv E p) (handle_monitor_message E m)"
proof -
  have n: "leads (knowing E p (\<lambda>H. Cd_message m \<in> H)) (cd_inv E p) (handle_notification E n)"
    if "\<not> mg_type m \<noteq> Msg_notification" "mg_notification m = Some n" for n
    using that by (intro leads_pre [OF notification_kept [OF assms, of E n]]) (auto simp: from_monitor_def knowing_def)
  show ?thesis unfolding handle_monitor_message_def
    by (intro leads_if leads_ret_inv leads_option leads_inv lasts_intros n io_intro)
qed

lemma read_kept:
  assumes "pm_local_sshd_port p \<noteq> 0"
  shows "leads (cd_inv E p) (cd_inv E p) (read_monitor E)"
proof -
  have m: "leads (cd_inv E p) (knowing E p (\<lambda>H. Cd_message m \<in> H)) (cd_emit (Cd_message m))" for m
  proof (rule leadsI)
    fix s :: "'a cdaemon"
    assume "cd_inv E p s"
    then have "cd_inv E p (post (cd_emit (Cd_message m)) s)"
      unfolding cd_inv_knowing by (intro knowing_post lasts_intros io_intro)
    then show "knowing E p (\<lambda>H. Cd_message m \<in> H) (post (cd_emit (Cd_message m)) s)" by (simp add: knowing_def)
  qed
  have q: "leads (cd_inv E p) (cd_inv E p) x" if "quiet x" for x :: "('a, 'c) cdprog"
    unfolding cd_inv_knowing by (intro leads_quiet that lasts_intros)
  show ?thesis
    unfolding read_monitor_def
    by (intro leads_bind [OF q] leads_bind [OF m] leads_case_prod message_kept assms io_intro only_logs_modify) simp
qed

lemma round_kept:
  assumes "pm_local_sshd_port p \<noteq> 0"
  shows "leads (cd_inv E p) (cd_inv E p) (main_round E)"
proof -
  have q: "leads (cd_inv E p) (cd_inv E p) x" if "quiet x" for x :: "('a, 'c) cdprog"
    unfolding cd_inv_knowing by (intro leads_quiet that lasts_intros)
  show ?thesis
    unfolding main_round_def
    by (intro leads_bind [OF q] leads_if leads_ret read_kept assms io_intro io_rule only_logs_modify q) simp_all
qed

lemma rounds_kept:
  assumes "pm_local_sshd_port p \<noteq> 0"
  shows "leads (cd_inv E p) (cd_inv E p) (main_rounds k E)"
proof (induction k)
  case (Suc k)
  have q: "leads (cd_inv E p) (cd_inv E p) x" if "quiet x" for x :: "('a, 'c) cdprog"
    unfolding cd_inv_knowing by (intro leads_quiet that lasts_intros)
  show ?case unfolding main_rounds.simps
    by (intro leads_bind [OF q] leads_bind [OF round_kept] leads_get' leads_if leads_ret Suc assms io_intro)
qed (simp add: leads_def)

lemma fresh_decisions: "policy_cache_init ok n = (0, cache) \<Longrightarrow> decisions_ok E p cache H"
  by (auto simp: policy_cache_init_def decisions_ok_def zero_entry_def split: if_splits)

lemma main_loop_kept:
  assumes "pm_local_sshd_port p \<noteq> 0" "cd_params s = p" "all_requested E p (cd_trace s)"
  shows "cd_params (post (main_loop k E) s) = p \<and> all_requested E p (cd_trace (post (main_loop k E) s))"
proof -
  define s1 where "s1 = post (cd_alloc E (pm_policy_cache_size p)) s"
  obtain r cache where c: "policy_cache_init (res (cd_alloc E (pm_policy_cache_size p)) s) (pm_policy_cache_size p) = (r, cache)"
    by fastforce
  have s1: "cd_params s1 = p" "cd_trace s1 = cd_trace s" using assms by (simp_all add: s1_def cd_alloc_def)
  define s2 where "s2 = s1\<lparr>cd_decisions := cache, cd_throttle := policy_throttle_init, cd_timeout_counter := 0\<rparr>"
  show ?thesis
  proof (cases "r = 0")
    case True
    have "cd_inv E p s2" using s1 assms(3) fresh_decisions [OF c [unfolded True]] by (simp add: cd_inv_def s2_def)
    then have "cd_inv E p (post (main_rounds k E) s2)" using rounds_kept [OF assms(1), of E k] by (simp add: leads_def)
    then show ?thesis using c True assms(2) by (simp add: main_loop_def s1_def [symmetric] s2_def [symmetric] cd_inv_def)
  next
    case False
    then show ?thesis using c assms s1 by (simp add: main_loop_def s1_def [symmetric])
  qed
qed

end
