(* ===== verification/C_Params.thy ===== *)
theory C_Params
  imports Arg_Parse C_Envelope
begin

text \<open>
  The parameters of the C daemon (\<open>params.c\<close>): its options, their defaults and limits, the permit-open list, and the
  atSigns of the managers and of the policy service, which are kept in canonical form. A result \<open>Inl\<close> is the status the
  process ends with.
\<close>

section \<open>Options and defaults\<close>

definition default_permitopen :: string where "default_permitopen = ''localhost:22,localhost:3389''"
definition default_client_key_check_secs :: int where "default_client_key_check_secs = 10"
definition max_client_key_check_secs :: int where "max_client_key_check_secs = 86400"

definition apply_default_values_to_sshnpd_params :: sshnpd_params where
  "apply_default_values_to_sshnpd_params =
     \<lparr>pm_atsign = None, pm_device = ''default'', pm_manager_list = [], pm_policy = None,
      pm_policy_cache_size = POLICY_CACHE_DEFAULT_SIZE, pm_permitopen = [], pm_sshpublickey = False, pm_hide = False,
      pm_verbose = False, pm_ssh_algorithm = ED25519, pm_root_domain = Some ''root.atsign.org'', pm_local_sshd_port = 22,
      pm_key_file = None, pm_storage_path = None, pm_client_key_check_secs = default_client_key_check_secs,
      pm_require_enrollment_signature = False\<rparr>"

definition sshnpd_options :: "opt_spec list" where
  "sshnpd_options =
     [OPT_HELP, OPT_STRING (Some (CHR ''k'')) ''key-file'', OPT_STRING (Some (CHR ''a'')) ''atsign'',
      OPT_STRING (Some (CHR ''m'')) ''manager'', OPT_STRING (Some (CHR ''p'')) ''policy-manager'',
      OPT_STRING (Some (CHR ''d'')) ''device'', OPT_BOOLEAN (Some (CHR ''s'')) ''sshpublickey'',
      OPT_BOOLEAN (Some (CHR ''h'')) ''hide'', OPT_BOOLEAN (Some (CHR ''v'')) ''verbose'',
      OPT_STRING None ''permit-open'', OPT_STRING None ''ssh-algorithm'', OPT_STRING None ''ephemeral-permission'',
      OPT_STRING None ''root-domain'', OPT_INTEGER None ''local-sshd-port'', OPT_INTEGER None ''policy-cache-size'',
      OPT_STRING None ''storage-path'', OPT_INTEGER None ''client-key-check-secs'',
      OPT_BOOLEAN None ''require-enrollment-signature'',
      (OPT_BOOLEAN (Some (CHR ''u'')) ''un-hide'')\<lparr>op_stored := False\<rparr>]"

text \<open>What is stored right into the parameters.\<close>

definition given_or :: "'a option \<Rightarrow> 'a \<Rightarrow> 'a" where
  "given_or x y = (case x of Some v \<Rightarrow> v | None \<Rightarrow> y)"

definition optional :: "'a option \<Rightarrow> 'a option \<Rightarrow> 'a option" where
  "optional x y = (case x of Some v \<Rightarrow> Some v | None \<Rightarrow> y)"

definition params_given :: "arg_values \<Rightarrow> sshnpd_params" where
  "params_given vs =
     (let p = apply_default_values_to_sshnpd_params in
      p\<lparr>pm_atsign := given_string vs ''atsign'', pm_device := given_or (given_string vs ''device'') (pm_device p),
        pm_policy := given_string vs ''policy-manager'', pm_sshpublickey := given_bool vs ''sshpublickey'',
        pm_hide := given_bool vs ''hide'', pm_verbose := given_bool vs ''verbose'',
        pm_root_domain := optional (given_string vs ''root-domain'') (pm_root_domain p),
        pm_key_file := given_string vs ''key-file'', pm_storage_path := given_string vs ''storage-path'',
        pm_client_key_check_secs := given_or (given_int vs ''client-key-check-secs'') (pm_client_key_check_secs p),
        pm_require_enrollment_signature := given_bool vs ''require-enrollment-signature''\<rparr>)"

section \<open>Checking them\<close>

definition check_numbers :: "arg_values \<Rightarrow> sshnpd_params \<Rightarrow> sshnpd_params option" where
  "check_numbers vs p =
     (let port = given_or (given_int vs ''local-sshd-port'') (uint (pm_local_sshd_port p));
          size = given_or (given_int vs ''policy-cache-size'') (int (pm_policy_cache_size p));
          secs = pm_client_key_check_secs p
      in if port < 1 \<or> port > 65535 then None
         else if size < 0 \<or> size > int POLICY_CACHE_MAX_SIZE then None
         else if secs < 0 \<or> secs > max_client_key_check_secs then None
         else Some (p\<lparr>pm_local_sshd_port := word_of_int port, pm_policy_cache_size := nat size\<rparr>))"

text \<open>With a policy service and no list of its own the daemon permits everything: the service's rules are the limit.\<close>

definition permitopen_text :: "string option \<Rightarrow> string option \<Rightarrow> string" where
  "permitopen_text given policy = given_or given (if policy \<noteq> None then ''*:*'' else default_permitopen)"

definition parse_permits :: "('w, 'j) cd_env \<Rightarrow> string option \<Rightarrow> string option \<Rightarrow> ('w, (string \<times> u16) list option) cdprog" where
  "parse_permits E given policy = do {
     let text = permitopen_text given policy;
     ok1 \<leftarrow> (if given = None then cd_alloc E (length text + 1) else ret True);
     if \<not> ok1 then ret None
     else do {
       let n = count_list (trim_quotes text) (CHR '':'');
       ok2 \<leftarrow> (if check_shape 0 0 (trim_quotes text @ '','') \<and> n > 0 then do { a \<leftarrow> cd_alloc E n; b \<leftarrow> cd_alloc E n; ret (a \<and> b) }
               else ret True);
       ret (case parse_permitopen ok2 text of Permits ps \<Rightarrow> Some ps | _ \<Rightarrow> None) } }"

definition parse_ssh_algorithm :: "string option \<Rightarrow> ssh_algorithm \<Rightarrow> ssh_algorithm option" where
  "parse_ssh_algorithm given algorithm =
     (case given of
        None \<Rightarrow> Some algorithm
      | Some name \<Rightarrow>
          if name = [] then Some algorithm
          else if name = ''ssh-rsa'' then Some RSA_algorithm
          else if name = ''ssh-ed25519'' then Some ED25519
          else None)"

subsection \<open>Managers\<close>

text \<open>The separators before the last character.\<close>

definition manager_seps :: "string \<Rightarrow> nat" where
  "manager_seps managers = count_list (butlast managers) (CHR '','')"

text \<open>The loop over the characters: every comma ends an item; a comma at the very end is dropped, any other one must
  be followed by an atSign.\<close>

fun split_managers :: "string \<Rightarrow> string \<Rightarrow> string list option" where
  "split_managers item [] = Some [item]"
| "split_managers item (c # cs) =
     (if c \<noteq> CHR '','' then split_managers (item @ [c]) cs
      else if cs = [] then Some [item]
      else if hd cs \<noteq> CHR ''@'' then None
      else map_option ((#) item) (split_managers [] cs))"

text \<open>The canonical atSigns, without the daemon's own; \<open>None\<close> when one is invalid.\<close>

fun normalize_managers :: "string option \<Rightarrow> string list \<Rightarrow> string list option" where
  "normalize_managers own [] = Some []"
| "normalize_managers own (m # ms) =
     (case sshnpd_normalize_atsign (Some m) SSHNPD_ATSIGN_BUFFER_LEN of
        None \<Rightarrow> None
      | Some a \<Rightarrow> map_option (\<lambda>rest. if own = Some a then rest else a # rest) (normalize_managers own ms))"

definition parse_managers :: "('w, 'j) cd_env \<Rightarrow> string \<Rightarrow> string option \<Rightarrow> ('w, string list option) cdprog" where
  "parse_managers E atsign managers =
     (case managers of
        None \<Rightarrow> ret (Some [])
      | Some text \<Rightarrow> do {
          let n = manager_seps text + 1;
          ok1 \<leftarrow> cd_alloc E n;
          if \<not> ok1 then ret None
          else case split_managers [] text of
              None \<Rightarrow> ret None
            | Some items \<Rightarrow> do {
                ok2 \<leftarrow> cd_alloc E (n * SSHNPD_ATSIGN_BUFFER_LEN);
                if \<not> ok2 then ret None
                else ret (case normalize_managers (sshnpd_normalize_atsign (Some atsign) SSHNPD_ATSIGN_BUFFER_LEN) items of
                    Some ms \<Rightarrow> if ms = [] then None else Some ms
                  | None \<Rightarrow> None) } })"

text \<open>The outer option is a failure, the inner one the absence of a policy service.\<close>

definition parse_policy :: "('w, 'j) cd_env \<Rightarrow> string option \<Rightarrow> ('w, string option option) cdprog" where
  "parse_policy E policy =
     (case policy of
        None \<Rightarrow> ret (Some None)
      | Some a \<Rightarrow> do {
          ok \<leftarrow> cd_alloc E SSHNPD_ATSIGN_BUFFER_LEN;
          ret (if ok then map_option Some (sshnpd_normalize_atsign (Some a) SSHNPD_ATSIGN_BUFFER_LEN) else None) })"

section \<open>The whole\<close>

text \<open>From the checked numbers on; \<open>None\<close> is the result 1.\<close>

definition parse_lists :: "('w, 'j) cd_env \<Rightarrow> arg_values \<Rightarrow> string \<Rightarrow> sshnpd_params \<Rightarrow> ('w, sshnpd_params option) cdprog" where
  "parse_lists E vs atsign p = do {
     permits \<leftarrow> parse_permits E (given_string vs ''permit-open'') (pm_policy p);
     case permits of
       None \<Rightarrow> ret None
     | Some ps \<Rightarrow>
         (case parse_ssh_algorithm (given_string vs ''ssh-algorithm'') (pm_ssh_algorithm p) of
            None \<Rightarrow> ret None
          | Some algorithm \<Rightarrow>
              if \<not> starts_with ''@'' atsign then ret None
              else do {
                managers \<leftarrow> parse_managers E atsign (given_string vs ''manager'');
                case managers of
                  None \<Rightarrow> ret None
                | Some ms \<Rightarrow> do {
                    policy \<leftarrow> parse_policy E (pm_policy p);
                    ret (case policy of
                        None \<Rightarrow> None
                      | Some a \<Rightarrow> Some (p\<lparr>pm_permitopen := ps, pm_ssh_algorithm := algorithm, pm_manager_list := ms,
                          pm_policy := a, pm_device := map to_lower (pm_device p)\<rparr>)) } }) }"

definition parse_sshnpd_params :: "('w, 'j) cd_env \<Rightarrow> string list \<Rightarrow> ('w, nat + sshnpd_params) cdprog" where
  "parse_sshnpd_params E args =
     (case argparse_parse sshnpd_options args of
        Inl status \<Rightarrow> ret (Inl status)
      | Inr given \<Rightarrow>
          (case check_numbers (ar_values given) (params_given (ar_values given)) of
             None \<Rightarrow> ret (Inl 1)
           | Some p \<Rightarrow>
               (case pm_atsign p of
                  None \<Rightarrow> ret (Inl 1)
                | Some atsign \<Rightarrow>
                    if given_string (ar_values given) ''manager'' = None \<and> pm_policy p = None then ret (Inl 1)
                    else do {
                      r \<leftarrow> parse_lists E (ar_values given) atsign p;
                      ret (case r of None \<Rightarrow> Inl 1 | Some q \<Rightarrow> Inr q) })))"

text \<open>A value given to an option that takes none stays behind, and the next long option takes it instead of its own.\<close>

lemma stale_value_taken:
  "map_sum id (\<lambda>r. given_string (ar_values r) ''manager'') (argparse_parse sshnpd_options [''--hide=yes'', ''--manager'', ''@alice'']) =
     Inr (Some ''yes'')"
  by code_simp

section \<open>Parsed parameters\<close>

text \<open>What the rest of the daemon relies on.\<close>

definition canonical_atsign :: "string \<Rightarrow> bool" where
  "canonical_atsign a \<longleftrightarrow> sshnpd_normalize_atsign (Some a) SSHNPD_ATSIGN_BUFFER_LEN = Some a"

definition parsed_params :: "sshnpd_params \<Rightarrow> bool" where
  "parsed_params p \<longleftrightarrow> pm_local_sshd_port p \<noteq> 0 \<and> pm_policy_cache_size p \<le> POLICY_CACHE_MAX_SIZE \<and>
     0 \<le> pm_client_key_check_secs p \<and> pm_client_key_check_secs p \<le> max_client_key_check_secs \<and>
     (pm_manager_list p \<noteq> [] \<or> pm_policy p \<noteq> None) \<and>
     (\<forall>m \<in> set (pm_manager_list p). canonical_atsign m \<and>
        sshnpd_normalize_atsign (pm_atsign p) SSHNPD_ATSIGN_BUFFER_LEN \<noteq> Some m) \<and>
     (\<forall>a. pm_policy p = Some a \<longrightarrow> canonical_atsign a) \<and>
     pm_permitopen p \<noteq> [] \<and> list_all (\<lambda>c. \<not> is_upper c) (pm_device p)"

lemma split_managers_length: "split_managers item cs = Some items \<Longrightarrow> length items = manager_seps cs + 1"
proof (induction item cs arbitrary: items rule: split_managers.induct)
  case (2 item c cs)
  then show ?case by (cases "cs = []") (auto simp: manager_seps_def split: if_splits)
qed (simp add: manager_seps_def)

lemma normalized_canonical: "sshnpd_normalize_atsign x SSHNPD_ATSIGN_BUFFER_LEN = Some a \<Longrightarrow> canonical_atsign a"
  unfolding canonical_atsign_def sshnpd_normalize_canonical by (rule normalize_idem)

lemma normalize_managers_ok:
  "normalize_managers own items = Some ms \<Longrightarrow> \<forall>m \<in> set ms. canonical_atsign m \<and> own \<noteq> Some m"
proof (induction items arbitrary: ms)
  case (Cons m items)
  then obtain a rest where "sshnpd_normalize_atsign (Some m) SSHNPD_ATSIGN_BUFFER_LEN = Some a"
      "normalize_managers own items = Some rest" "ms = (if own = Some a then rest else a # rest)"
    by (auto split: option.splits)
  with Cons.IH [of rest] normalized_canonical show ?case by auto
qed simp

lemma walk_permits_length: "walk_permits mem n pos = Permits ps \<Longrightarrow> length ps = n"
  by (induction mem n pos arbitrary: ps rule: walk_permits.induct)
    (auto split: option.splits permit_result.splits)

lemma parse_permitopen_some: "parse_permitopen ok text = Permits ps \<Longrightarrow> ps \<noteq> []"
  by (auto simp: parse_permitopen_def Let_def split: if_splits dest!: walk_permits_length)

lemma parse_permits_ok: "res (parse_permits E given policy) s = Some ps \<Longrightarrow> ps \<noteq> []"
  by (auto simp: parse_permits_def Let_def split: if_splits permit_result.splits dest: parse_permitopen_some)

lemma parse_managers_ok:
  assumes "res (parse_managers E atsign managers) s = Some ms"
  shows "(managers \<noteq> None \<longrightarrow> ms \<noteq> []) \<and> (\<forall>m \<in> set ms. canonical_atsign m \<and>
     sshnpd_normalize_atsign (Some atsign) SSHNPD_ATSIGN_BUFFER_LEN \<noteq> Some m)"
  using assms normalize_managers_ok [of "sshnpd_normalize_atsign (Some atsign) SSHNPD_ATSIGN_BUFFER_LEN"]
  by (fastforce simp: parse_managers_def Let_def split: option.splits if_splits)

lemma parse_policy_ok:
  "res (parse_policy E policy) s = Some a \<Longrightarrow> (a = None \<longleftrightarrow> policy = None) \<and> (\<forall>x. a = Some x \<longrightarrow> canonical_atsign x)"
  by (auto simp: parse_policy_def split: option.splits if_splits dest: normalized_canonical)

lemma check_numbers_ok:
  assumes "check_numbers vs p = Some q"
  shows "\<exists>port size. q = p\<lparr>pm_local_sshd_port := port, pm_policy_cache_size := size\<rparr> \<and> port \<noteq> 0 \<and>
     size \<le> POLICY_CACHE_MAX_SIZE \<and> 0 \<le> pm_client_key_check_secs p \<and> pm_client_key_check_secs p \<le> max_client_key_check_secs"
proof -
  define port where "port = given_or (given_int vs ''local-sshd-port'') (uint (pm_local_sshd_port p))"
  define size where "size = given_or (given_int vs ''policy-cache-size'') (int (pm_policy_cache_size p))"
  have c: "1 \<le> port" "port \<le> 65535" "0 \<le> size" "size \<le> int POLICY_CACHE_MAX_SIZE"
      "q = p\<lparr>pm_local_sshd_port := word_of_int port, pm_policy_cache_size := nat size\<rparr>"
      "0 \<le> pm_client_key_check_secs p" "pm_client_key_check_secs p \<le> max_client_key_check_secs"
    using assms by (simp_all add: check_numbers_def Let_def port_def size_def split: if_splits)
  have "(word_of_int port :: u16) \<noteq> 0" using c(1,2) by (simp add: word_of_int_eq_0_iff zdvd_not_zless)
  then show ?thesis using c by (intro exI [of _ "word_of_int port"] exI [of _ "nat size"]) auto
qed

lemma to_lower_all: "list_all (\<lambda>c. \<not> is_upper c) (map to_lower d)"
  by (induction d) auto

lemma parse_lists_ok:
  assumes "res (parse_lists E vs atsign p) s = Some q"
  shows "\<exists>ps alg ms a. q = p\<lparr>pm_permitopen := ps, pm_ssh_algorithm := alg, pm_manager_list := ms, pm_policy := a,
       pm_device := map to_lower (pm_device p)\<rparr> \<and> ps \<noteq> [] \<and> starts_with ''@'' atsign \<and>
     (given_string vs ''manager'' \<noteq> None \<longrightarrow> ms \<noteq> []) \<and> (\<forall>m \<in> set ms. canonical_atsign m \<and>
       sshnpd_normalize_atsign (Some atsign) SSHNPD_ATSIGN_BUFFER_LEN \<noteq> Some m) \<and>
     (a = None \<longleftrightarrow> pm_policy p = None) \<and> (\<forall>x. a = Some x \<longrightarrow> canonical_atsign x)"
  using assms
  by (fastforce simp: parse_lists_def split: option.splits if_splits
      dest!: parse_permits_ok parse_managers_ok parse_policy_ok)

lemma parse_sshnpd_params_ok:
  assumes "res (parse_sshnpd_params E args) s = Inr p"
  shows "parsed_params p"
proof -
  obtain given :: arg_state and p1 atsign where g: "check_numbers (ar_values given) (params_given (ar_values given)) = Some p1"
      "pm_atsign p1 = Some atsign" "given_string (ar_values given) ''manager'' \<noteq> None \<or> pm_policy p1 \<noteq> None"
      "res (parse_lists E (ar_values given) atsign p1) s = Some p"
    using assms unfolding parse_sshnpd_params_def
    by (simp split: sum.splits option.splits if_splits)
  from check_numbers_ok [OF g(1)] parse_lists_ok [OF g(4)] g(2,3) show ?thesis
    by (auto simp: parsed_params_def to_lower_all)
qed

text \<open>C22: The parameters that the daemon starts with are sound. Whatever is on the command line: when the parser accepts it, the
  port for shells is not 0 and the numbers are in their ranges, there is a manager or a policy service, the atSigns of
  both are canonical, the permit-open list has an entry, and the device name has no capitals. A sender counts as a manager exactly when
  the canonical form of its atSign is in the list, and the daemon's own atSign is never a manager, however it is spelt.\<close>

theorem start_parameters_sound:
  assumes "res (parse_sshnpd_params E args) s = Inr p"
  shows "parsed_params p \<and>
    (\<forall>a. is_manager_atsign p a \<longleftrightarrow> (\<exists>c \<in> set (pm_manager_list p). sshnpd_normalize_atsign a SSHNPD_ATSIGN_BUFFER_LEN = Some c)) \<and>
    \<not> is_manager_atsign p (pm_atsign p)"
proof -
  have "is_manager_atsign p a \<longleftrightarrow> (\<exists>c \<in> set (pm_manager_list p). sshnpd_normalize_atsign a SSHNPD_ATSIGN_BUFFER_LEN = Some c)" for a
    by (auto simp: is_manager_atsign_def list_ex_iff sshnpd_normalize_atsign_def split: option.splits)
  then show ?thesis using parse_sshnpd_params_ok [OF assms] by (simp add: parsed_params_def)
qed

end
