(* ===== verification/C_Main.thy ===== *)
theory C_Main
  imports C_Params C_Daemon
begin

text \<open>
  The start of the C daemon (\<open>main.c\<close>): the modes of the executable, the environment, keys, addresses and connections, the
  answer to pings, the publication of the signing key, the filter of the monitor connection, and then the main loop. Every step
  returns \<open>Inl\<close> the exit status when the daemon stops there. What is kept only to free memory at the end is left out,
  but adding to that list can fail, and a failure stops the daemon.
\<close>

section \<open>The outside world at the start\<close>

record 'w start_env =
  se_getenv :: "string \<Rightarrow> string option"
  se_memlist_add :: "'w \<Rightarrow> int \<times> 'w"                      \<comment> \<open>\<open>atcommons_memlist_add\<close>\<close>
  se_populate_keys :: "string \<Rightarrow> 'w \<Rightarrow> (int \<times> atkeys \<times> rsa_key) \<times> 'w"  \<comment> \<open>\<open>atclient_atkeys_populate_from_path\<close>\<close>
  se_clone_key :: "rsa_key \<Rightarrow> 'w \<Rightarrow> (int \<times> rsa_key) \<times> 'w"
  se_set_addresses :: "string \<Rightarrow> u16 \<Rightarrow> bool \<Rightarrow> 'w \<Rightarrow> unit \<times> 'w"  \<comment> \<open>the options of a client: directory, and server when by proxy\<close>
  se_put_public_key :: "string \<Rightarrow> string \<Rightarrow> 'w \<Rightarrow> int \<times> 'w"
  se_open_authorized_keys :: "string \<Rightarrow> 'w \<Rightarrow> int \<times> 'w"       \<comment> \<open>0, or the error of \<open>fopen\<close>\<close>

definition go_on :: "('w, int + 'a) cdprog \<Rightarrow> ('a \<Rightarrow> ('w, int + 'b) cdprog) \<Rightarrow> ('w, int + 'b) cdprog" where
  "go_on m f = do { r \<leftarrow> m; case r of Inl status \<Rightarrow> ret (Inl status) | Inr x \<Rightarrow> f x }"

definition stop_unless :: "bool \<Rightarrow> int \<Rightarrow> ('w, int + unit) cdprog" where
  "stop_unless ok status = ret (if ok then Inr () else Inl status)"

text \<open>A result that is not 0 is the exit status.\<close>

definition must_be_zero :: "('w, int) cdprog \<Rightarrow> ('w, int + unit) cdprog" where
  "must_be_zero m = do { r \<leftarrow> m; stop_unless (r = 0) r }"

definition memlist_add :: "'w start_env \<Rightarrow> ('w, int + unit) cdprog" where
  "memlist_add B = must_be_zero (cdx (se_memlist_add B))"

text \<open>\<open>if (res != 0 || !should_run) return res\<close>, and the same where \<open>res\<close> is 0.\<close>

definition unless_stopped :: "('w, 'j) cd_env \<Rightarrow> ('w, int) cdprog \<Rightarrow> ('w, int + unit) cdprog" where
  "unless_stopped E m = do {
     r \<leftarrow> m;
     if r \<noteq> 0 then ret (Inl r)
     else do { run \<leftarrow> cdx (cv_should_run E); stop_unless run 0 } }"

definition still_running :: "('w, 'j) cd_env \<Rightarrow> int \<Rightarrow> ('w, int + unit) cdprog" where
  "still_running E status = do { run \<leftarrow> cdx (cv_should_run E); stop_unless run status }"

section \<open>Modes of the executable\<close>

datatype process_mode = Srv_worker "string list" | Lookup_worker "string list" | Daemon "string list"

text \<open>The arguments begin with the program's name; the parsers of the relay and of the daemon skip the one before theirs.\<close>

definition mode_of_process :: "string list \<Rightarrow> process_mode" where
  "mode_of_process argv =
     (case argv of
        exe # flag # rest \<Rightarrow>
          if flag = ''--__srv-worker'' then Srv_worker rest
          else if flag = PUBLIC_LOOKUP_WORKER_FLAG then Lookup_worker argv
          else Daemon (flag # rest)
      | _ \<Rightarrow> Daemon [])"

section \<open>Parameters and environment\<close>

fun memlist_adds :: "'w start_env \<Rightarrow> nat \<Rightarrow> ('w, int) cdprog" where
  "memlist_adds B 0 = ret 0"
| "memlist_adds B (Suc n) = do { r \<leftarrow> cdx (se_memlist_add B); r' \<leftarrow> memlist_adds B n; ret (r + r') }"

definition adopt_params :: "('w, 'j) cd_env \<Rightarrow> 'w start_env \<Rightarrow> sshnpd_params \<Rightarrow> ('w, int + unit) cdprog" where
  "adopt_params E B p = do {
     let n = length (pm_manager_list p);
     ok \<leftarrow> (if n > 0 then cd_alloc E n else ret True);
     if \<not> ok then ret (Inl 1)
     else do {
       modify_st (\<lambda>s. s\<lparr>cd_device_info_last_sent := replicate n 0\<rparr>);
       r \<leftarrow> memlist_adds B 7;
       stop_unless (r \<le> 0) 1 } }"

text \<open>The home directory and the name of the user.\<close>

definition check_environment :: "('w, 'j) cd_env \<Rightarrow> 'w start_env \<Rightarrow> sshnpd_params \<Rightarrow> ('w, int + string \<times> string) cdprog" where
  "check_environment E B p =
     (case se_getenv B ''HOME'' of
        None \<Rightarrow> ret (Inl 1)
      | Some home \<Rightarrow>
          if \<not> pm_hide p \<and> se_getenv B ''USER'' = None then ret (Inl 1)
          else go_on (still_running E 1) (\<lambda>_. ret (Inr (home, text_of (se_getenv B ''USER'')))))"

definition FILENAME_BUFFER_SIZE :: nat where "FILENAME_BUFFER_SIZE = 500"

definition key_file_name :: "sshnpd_params \<Rightarrow> string \<Rightarrow> string" where
  "key_file_name p home =
     (case pm_key_file p of
        Some name \<Rightarrow> name
      | None \<Rightarrow> fit FILENAME_BUFFER_SIZE (home @ ''/.atsign/keys/'' @ own_atsign p @ ''_key.atKeys''))"

definition load_atkeys :: "('w, 'j) cd_env \<Rightarrow> 'w start_env \<Rightarrow> sshnpd_params \<Rightarrow> string \<Rightarrow> ('w, int + unit) cdprog" where
  "load_atkeys E B p home =
     go_on (memlist_add B) (\<lambda>_. do {
       (r, keys, private_key) \<leftarrow> cdx (se_populate_keys B (key_file_name p home));
       modify_st (\<lambda>s. s\<lparr>cd_atkeys := keys\<rparr>);
       go_on (unless_stopped E (ret r)) (\<lambda>_. go_on (memlist_add B) (\<lambda>_. do {
         (r2, signingkey) \<leftarrow> cdx (se_clone_key B private_key);
         modify_st (\<lambda>s. s\<lparr>cd_signingkey := signingkey\<rparr>);
         stop_unless (r2 = 0) r2 })) })"

section \<open>The root server\<close>

definition DEFAULT_ROOT_HOST :: string where "DEFAULT_ROOT_HOST = ''root.atsign.org''"
definition DEFAULT_ROOT_PORT :: u16 where "DEFAULT_ROOT_PORT = 64"
definition host_name_max_length :: nat where "host_name_max_length = 253"

definition root_port_of :: "string \<Rightarrow> u16 option" where
  "root_port_of port_str =
     (case strtol10 port_str of
        None \<Rightarrow> None
      | Some (port_val, port_end) \<Rightarrow>
          if port_end \<noteq> [] \<or> port_val < 1 \<or> port_val > 65535 then None else Some (word_of_int port_val))"

definition host_and_port :: "string \<Rightarrow> (string \<times> u16) option" where
  "host_and_port domain =
     (case strchr domain (CHR '':'') of
        None \<Rightarrow> Some (fit (host_name_max_length + 1) domain, DEFAULT_ROOT_PORT)
      | Some i \<Rightarrow>
          if i \<ge> host_name_max_length then None
          else map_option (\<lambda>port. (take i domain, port)) (root_port_of (drop (Suc i) domain)))"

text \<open>Host, port, and whether they are those of a reverse proxy.\<close>

definition root_address :: "string option \<Rightarrow> (string \<times> u16 \<times> bool) option" where
  "root_address root_domain =
     (case root_domain of
        None \<Rightarrow> Some (DEFAULT_ROOT_HOST, DEFAULT_ROOT_PORT, False)
      | Some domain \<Rightarrow>
          if starts_with ''proxy:'' domain then
            (if length domain = 6 then None
             else map_option (\<lambda>(host, port). (host, port, True)) (host_and_port (drop 6 domain)))
          else map_option (\<lambda>(host, port). (host, port, False)) (host_and_port domain))"

definition find_root :: "('w, 'j) cd_env \<Rightarrow> 'w start_env \<Rightarrow> sshnpd_params \<Rightarrow> ('w, int + string \<times> u16 \<times> bool) cdprog" where
  "find_root E B p = do {
     ok \<leftarrow> cd_alloc E (host_name_max_length + 1);
     if \<not> ok then ret (Inl 1)
     else go_on (memlist_add B) (\<lambda>_.
       ret (case root_address (pm_root_domain p) of None \<Rightarrow> Inl 1 | Some address \<Rightarrow> Inr address)) }"

section \<open>Connections\<close>

definition connect_clients ::
  "('w, 'j) cd_env \<Rightarrow> 'w start_env \<Rightarrow> sshnpd_params \<Rightarrow> string \<times> u16 \<times> bool \<Rightarrow> ('w, int + unit) cdprog" where
  "connect_clients E B p address =
     (case address of (host, port, via_proxy) \<Rightarrow> do {
        public_lookup_worker_init \<lparr>ld_host = host, ld_port = port, ld_via_proxy = via_proxy, ld_scheme = ''https''\<rparr>;
        on_sessions (client_sessions_init (nat (pm_client_key_check_secs p)));
        go_on (memlist_add B) (\<lambda>_. go_on (memlist_add B) (\<lambda>_. do {
          cdx (se_set_addresses B host port via_proxy);
          go_on (unless_stopped E (cdx (cv_monitor_authenticate E))) (\<lambda>_.
            go_on (memlist_add B) (\<lambda>_. go_on (memlist_add B) (\<lambda>_. do {
              cdx (se_set_addresses B host port via_proxy);
              go_on (unless_stopped E (cdx (cv_worker_authenticate E))) (\<lambda>_. must_be_zero (set_worker_hooks E)) }))) })) })"

section \<open>The answer to pings\<close>

definition SSHNPD_VERSION :: string where "SSHNPD_VERSION = ''1.1.1''"

definition supported_features :: "sshnpd_params \<Rightarrow> (string \<times> bool) list" where
  "supported_features p = [(''srAuth'', True), (''srE2ee'', True), (''acceptsPublicKeys'', pm_sshpublickey p),
     (''supportsPortChoice'', True), (''adjustableTimeout'', True), (''supportsRamEscr'', True), (''twinKeys'', True)]"

fun c_add_bools :: "('w, 'j) cd_env \<Rightarrow> (string \<times> bool) list \<Rightarrow> 'j fields \<Rightarrow> ('w, 'j fields) cdprog" where
  "c_add_bools E [] obj = ret obj"
| "c_add_bools E ((name, b) # rest) obj = do {
     obj' \<leftarrow> c_add_item E name (Some (cj_mk_bool (cv_cj E) b)) obj;
     c_add_bools E rest obj' }"

text \<open>\<open>cJSON_CreateString\<close> and \<open>cJSON_AddItemToArray\<close>: a text there is no memory for is left out.\<close>

definition c_add_text :: "('w, 'j) cd_env \<Rightarrow> string \<Rightarrow> 'j list \<Rightarrow> ('w, 'j list) cdprog" where
  "c_add_text E t items = do { ok \<leftarrow> cd_alloc E 1; ret (if ok then items @ [cj_mk_string (cv_cj E) t] else items) }"

definition auth_modes :: "('w, 'j) cd_env \<Rightarrow> ('w, 'j option) cdprog" where
  "auth_modes E = do {
     ok \<leftarrow> cd_alloc E 1;
     a \<leftarrow> c_add_text E ''payload'' [];
     b \<leftarrow> c_add_text E ''escr'' a;
     ret (if ok then Some (cj_mk_array (cv_cj E) b) else None) }"

definition service_text :: "string \<times> u16 \<Rightarrow> string" where
  "service_text hp = fit (length (fst hp) + 8) (fst hp @ '':'' @ dec_nat (unat (snd hp)))"

text \<open>\<open>None\<close> when there is no memory for a text.\<close>

fun allowed_services :: "('w, 'j) cd_env \<Rightarrow> (string \<times> u16) list \<Rightarrow> 'j list \<Rightarrow> ('w, 'j list option) cdprog" where
  "allowed_services E [] items = ret (Some items)"
| "allowed_services E (hp # permits) items = do {
     ok \<leftarrow> cd_alloc E (length (fst hp) + 8);
     if \<not> ok then ret None
     else do { items' \<leftarrow> c_add_text E (service_text hp) items; allowed_services E permits items' } }"

definition ping_capabilities :: "('w, 'j) cd_env \<Rightarrow> sshnpd_params \<Rightarrow> ('w, 'j fields) cdprog" where
  "ping_capabilities E p = do {
     o0 \<leftarrow> c_new_object E;
     o1 \<leftarrow> c_add_str E ''devicename'' (Some (pm_device p)) o0;
     o2 \<leftarrow> c_add_str E ''version'' (Some SSHNPD_VERSION) o1;
     o3 \<leftarrow> c_add_str E ''corePackageVersion'' (Some ''c0.1.0'') o2;
     f0 \<leftarrow> c_new_object E;
     f1 \<leftarrow> c_add_bools E (supported_features p) f0;
     o4 \<leftarrow> c_add_item E ''supportedFeatures'' (c_object E f1) o3;
     modes \<leftarrow> auth_modes E;
     c_add_item E ''authModes'' modes o4 }"

text \<open>Returns the uri of the signing key.\<close>

definition build_ping_response :: "('w, 'j) cd_env \<Rightarrow> 'w start_env \<Rightarrow> sshnpd_params \<Rightarrow> ('w, int + string) cdprog" where
  "build_ping_response E B p = do {
     obj \<leftarrow> ping_capabilities E p;
     keys \<leftarrow> gets cd_atkeys;
     uri \<leftarrow> public_signing_key_uri E keys (own_atsign p);
     case uri of
       None \<Rightarrow> ret (Inl 1)
     | Some key_uri \<Rightarrow> go_on (memlist_add B) (\<lambda>_. do {
         obj2 \<leftarrow> c_add_str E ''publicSigningKeyUri'' (Some key_uri) obj;
         array_ok \<leftarrow> cd_alloc E 1;
         services \<leftarrow> allowed_services E (pm_permitopen p) [];
         case services of
           None \<Rightarrow> ret (Inl 1)
         | Some items \<Rightarrow> do {
             obj3 \<leftarrow> c_add_item E ''allowedServices'' (if array_ok then Some (cj_mk_array (cv_cj E) items) else None) obj2;
             response \<leftarrow> c_print E (c_object E obj3);
             modify_st (cd_ping_response_update (\<lambda>_. response));
             if response = None then ret (Inl 1)
             else go_on (memlist_add B) (\<lambda>_. go_on (still_running E 0) (\<lambda>_. ret (Inr key_uri))) } }) }"

section \<open>Publishing the signing key\<close>

text \<open>A failure is not fatal. The daemon only writes when the published key is missing or another one.\<close>

definition publish_signing_key :: "('w, 'j) cd_env \<Rightarrow> 'w start_env \<Rightarrow> sshnpd_params \<Rightarrow> ('w, unit) cdprog" where
  "publish_signing_key E B p = do {
     keys \<leftarrow> gets cd_atkeys;
     let name = fit 128 (''_apsk.'' @ enrollment_id_of keys);
     r \<leftarrow> cdx (cv_create_key E name (own_atsign p));
     if r \<noteq> 0 then ret ()
     else do {
       (got, existing) \<leftarrow> cdx (cv_get_public_key E name (own_atsign p) ''a.__e'');
       if got = 0 \<and> \<not> public_signing_key_needs_publishing existing (ak_pkam_public_key_base64 keys) then ret ()
       else do { _ \<leftarrow> cdx (se_put_public_key B name (ak_pkam_public_key_base64 keys)); ret () } } }"

section \<open>The filter of the monitor connection\<close>

definition escaped :: "char \<Rightarrow> string" where "escaped c = [CHR 0x5C, c]"

definition request_filter :: "string \<Rightarrow> string" where
  "request_filter device =
     ''(^'' @ device @ ''|'' @ escaped (CHR ''.'') @ device @ '')'' @ escaped (CHR ''.'') @ SSHNP_NS @ ''@''"

definition rpc_filter :: string where
  "rpc_filter = ''|(success|error|ack|nack)'' @ escaped (CHR ''.'') @ escaped (CHR ''d'') @ ''+'' @ escaped (CHR ''.'') @ ''auth_checks''
     @ escaped (CHR ''.'') @ ''__rpcs''"

definition push_filter :: "string \<Rightarrow> string \<Rightarrow> string" where
  "push_filter device policy =
     ''|'' @ escaped (CHR ''.'') @ device @ escaped (CHR ''.'') @ ''devices'' @ escaped (CHR ''.'') @ ''policy'' @ escaped (CHR ''.'')
     @ SSHNP_NS @ policy"

definition regex_size :: "sshnpd_params \<Rightarrow> nat" where
  "regex_size p = 3 * length (pm_device p) + 2 * length SSHNP_NS + length (text_of (pm_policy p)) + 128"

definition c_monitor_regex :: "sshnpd_params \<Rightarrow> string" where
  "c_monitor_regex p =
     fit (regex_size p)
       (case pm_policy p of
          Some policy \<Rightarrow> request_filter (pm_device p) @ rpc_filter @ push_filter (pm_device p) policy
        | None \<Rightarrow> request_filter (pm_device p))"

text \<open>The buffer is large enough: the filter is never cut.\<close>

lemma c_monitor_regex_whole:
  "c_monitor_regex p = request_filter (pm_device p) @
     (case pm_policy p of Some policy \<Rightarrow> rpc_filter @ push_filter (pm_device p) policy | None \<Rightarrow> [])"
  by (simp add: c_monitor_regex_def fit_def regex_size_def request_filter_def rpc_filter_def push_filter_def escaped_def
      SSHNP_NS_def text_of_def split: option.split)

definition start_monitor :: "('w, 'j) cd_env \<Rightarrow> 'w start_env \<Rightarrow> sshnpd_params \<Rightarrow> ('w, int + unit) cdprog" where
  "start_monitor E B p = do {
     ok \<leftarrow> cd_alloc E (regex_size p);
     if \<not> ok then ret (Inl 1)
     else go_on (memlist_add B) (\<lambda>_. do {
       modify_st (\<lambda>s. s\<lparr>cd_regex := c_monitor_regex p\<rparr>);
       go_on (must_be_zero (cdx (cv_monitor_start E (c_monitor_regex p)))) (\<lambda>_. still_running E 0) }) }"

definition open_authorized_keys :: "('w, 'j) cd_env \<Rightarrow> 'w start_env \<Rightarrow> string \<Rightarrow> ('w, int + unit) cdprog" where
  "open_authorized_keys E B home = do {
     ok \<leftarrow> cd_alloc E (length home + 23);
     if \<not> ok then ret (Inl 1)
     else go_on (memlist_add B) (\<lambda>_.
       go_on (must_be_zero (cdx (se_open_authorized_keys B (home @ ''/.ssh/authorized_keys'')))) (\<lambda>_.
         go_on (memlist_add B) (\<lambda>_. still_running E 0))) }"

section \<open>The whole start\<close>

definition daemon_start :: "('w, 'j) cd_env \<Rightarrow> 'w start_env \<Rightarrow> sshnpd_params \<Rightarrow> ('w, int + unit) cdprog" where
  "daemon_start E B p =
     go_on (adopt_params E B p) (\<lambda>_.
     go_on (check_environment E B p) (\<lambda>(home, username).
     go_on (load_atkeys E B p home) (\<lambda>_.
     go_on (find_root E B p) (\<lambda>address.
     go_on (connect_clients E B p address) (\<lambda>_.
     go_on (still_running E 0) (\<lambda>_.
     go_on (build_ping_response E B p) (\<lambda>_. do {
       publish_signing_key E B p;
       _ \<leftarrow> handle_username_keys E (pm_manager_list p) username (pm_device p) (own_atsign p) (\<not> pm_hide p);
       go_on (start_monitor E B p) (\<lambda>_. open_authorized_keys E B home) })))))))"

text \<open>The daemon's life, cut off after so many rounds of its loop. The result is the exit status.\<close>

definition daemon_main :: "nat \<Rightarrow> ('w, 'j) cd_env \<Rightarrow> 'w start_env \<Rightarrow> string list \<Rightarrow> ('w, int) cdprog" where
  "daemon_main k E B args = do {
     r \<leftarrow> parse_sshnpd_params E args;
     case r of
       Inl status \<Rightarrow> ret (int status)
     | Inr p \<Rightarrow> do {
         modify_st (\<lambda>s. s\<lparr>cd_params := p\<rparr>);
         started \<leftarrow> daemon_start E B p;
         case started of Inl status \<Rightarrow> ret status | Inr _ \<Rightarrow> do { main_loop k E; ret 0 } } }"

text \<open>The global variables of a new process.\<close>

definition process_start :: "'w \<Rightarrow> 'w cdaemon" where
  "process_start w = \<lparr>cd_sess = cs_start w, cd_trace = [], cd_end = None, cd_diverged = False,
     cd_params = apply_default_values_to_sshnpd_params,
     cd_atkeys = \<lparr>ak_enrollment_id = None, ak_pkam_public_key_base64 = [], ak_pkam_private_key_base64 = []\<rparr>,
     cd_signingkey = \<lparr>rk_n = [], rk_rest = []\<rparr>, cd_ping_response = None, cd_regex = [], cd_is_child_process = False,
     cd_decisions = [], cd_throttle = [], cd_timeout_counter = 0, cd_starts = [], cd_start_capacity = 0,
     cd_heartbeat_last_sent = 0, cd_device_info_pos = 0, cd_device_info_last_sent = [], cd_device_info_attempts = 0,
     cd_directory = None\<rparr>"

end
