(* ===== verification/C_Daemon_Life.thy ===== *)
theory C_Daemon_Life
  imports C_Daemon_Relays C_Main
begin

text \<open>
  The whole life of the C daemon, from its command line to the end of its loop: what the parser accepts makes the hypotheses
  of the main loop true, the start begins no relay, and so every relay of the process was requested.
\<close>

section \<open>The start begins no relay\<close>

text \<open>The trace grew by something else than a relay, and the parameters stayed.\<close>

definition prepares :: "'w cdaemon \<Rightarrow> 'w cdaemon \<Rightarrow> bool" where
  "prepares s s' \<longleftrightarrow> cd_params s' = cd_params s \<and> (\<exists>tr. cd_trace s' = cd_trace s @ tr \<and> (\<forall>e \<in> set tr. no_exec e))"

lemma prepares_preorder [io_rule]: "preorder_rel prepares"
proof (rule preorder_relI)
  fix s t u :: "'w cdaemon"
  show "prepares s s" by (simp add: prepares_def)
  assume "prepares s t" "prepares t u"
  then obtain a b where "cd_trace t = cd_trace s @ a" "cd_trace u = cd_trace t @ b" "\<forall>e \<in> set (a @ b). no_exec e"
      "cd_params u = cd_params s" unfolding prepares_def by fastforce
  then show "prepares s u" unfolding prepares_def by (intro conjI exI [of _ "a @ b"]) simp_all
qed

lemma prepares_quiet: "quiet m \<Longrightarrow> state_io_rel prepares m"
  by (auto simp: state_io_rel_post only_logs_def prepares_def)

lemma prepares_modify:
  "(\<And>s. cd_trace (f s) = cd_trace s \<and> cd_params (f s) = cd_params s) \<Longrightarrow> state_io_rel prepares (modify_st f)"
  by (simp add: state_io_rel_post prepares_def)

lemma go_on_rel [io_rule]:
  "preorder_rel R \<Longrightarrow> state_io_rel R m \<Longrightarrow> (\<And>x. state_io_rel R (f x)) \<Longrightarrow> state_io_rel R (go_on m f)"
  unfolding go_on_def by (intro io_bind io_case_sum io_ret)

lemma prepares_basic [io_intro]:
  "state_io_rel prepares (cdx g)" "state_io_rel prepares (cd_alloc E n)" "state_io_rel prepares (on_sessions x)"
  by (intro prepares_quiet io_intro)+

lemma prepares_checks [io_intro]:
  "state_io_rel prepares (stop_unless b status)" "state_io_rel prepares (memlist_add B)"
  "state_io_rel prepares (still_running E status)" "state_io_rel prepares (memlist_adds B n)"
proof -
  show c: "state_io_rel prepares (stop_unless b status)" for b status
    unfolding stop_unless_def by (intro io_rule)
  show "state_io_rel prepares (memlist_add B)" "state_io_rel prepares (still_running E status)"
    unfolding memlist_add_def must_be_zero_def still_running_def by (intro io_rule io_intro c)+
  show "state_io_rel prepares (memlist_adds B n)"
    by (induction n) (simp_all only: memlist_adds.simps, (intro io_rule io_intro | assumption)+)
qed

lemma prepares_zero:
  "state_io_rel prepares m \<Longrightarrow> state_io_rel prepares (must_be_zero m)"
  "state_io_rel prepares m \<Longrightarrow> state_io_rel prepares (unless_stopped E m)"
  unfolding must_be_zero_def unless_stopped_def by (intro io_rule io_intro | assumption)+

lemma prepares_json [io_intro]:
  "state_io_rel prepares (c_new_object E)" "state_io_rel prepares (c_add_item E name v obj)"
  "state_io_rel prepares (c_add_str E name sv obj)" "state_io_rel prepares (c_print E j)"
  "state_io_rel prepares (c_add_text E t items)" "state_io_rel prepares (c_add_bools E bs obj)"
  "state_io_rel prepares (allowed_services E permits items)" "state_io_rel prepares (public_signing_key_uri E keys a)"
proof -
  show i: "state_io_rel prepares (c_new_object E)" "state_io_rel prepares (c_add_item E name v obj)"
    "state_io_rel prepares (c_add_str E name sv obj)" "state_io_rel prepares (c_print E j)"
    for E :: "('a, 'b) cd_env" and name v obj sv j
    by (intro prepares_quiet io_intro)+
  show t: "state_io_rel prepares (c_add_text E t items)" for E :: "('a, 'b) cd_env" and t items
    unfolding c_add_text_def by (intro io_rule io_intro)
  show "state_io_rel prepares (c_add_bools E bs obj)"
    by (induction E bs obj rule: c_add_bools.induct) (simp_all only: c_add_bools.simps, (intro io_rule i | assumption)+)
  show "state_io_rel prepares (allowed_services E permits items)"
    by (induction E permits items rule: allowed_services.induct)
      (simp_all only: allowed_services.simps, (intro io_rule io_intro t | assumption)+)
  show "state_io_rel prepares (public_signing_key_uri E keys a)" by (intro prepares_quiet io_intro)
qed

lemma prepares_ping: "state_io_rel prepares (build_ping_response E B p)"
  unfolding build_ping_response_def ping_capabilities_def auth_modes_def
  by (intro io_rule io_intro prepares_modify) simp

lemma prepares_publish: "state_io_rel prepares (publish_signing_key E B p)"
  unfolding publish_signing_key_def by (intro io_rule io_intro)

lemma prepares_username: "state_io_rel prepares (handle_username_keys E ms user device own visible)"
  unfolding handle_username_keys_def username_key_of_def share_or_delete_def
  by (intro prepares_quiet io_rule io_intro)

lemma prepares_connect: "state_io_rel prepares (connect_clients E B p address)"
proof -
  have "state_io_rel prepares (public_lookup_worker_init d)" for d :: lookup_directory
    unfolding public_lookup_worker_init_def by (intro prepares_modify) simp
  then show ?thesis unfolding connect_clients_def set_worker_hooks_def by (intro io_rule io_intro prepares_zero)
qed

lemma prepares_start: "state_io_rel prepares (daemon_start E B p)"
  unfolding daemon_start_def adopt_params_def check_environment_def load_atkeys_def find_root_def start_monitor_def
    open_authorized_keys_def
  by (intro io_rule io_intro prepares_zero prepares_connect prepares_ping prepares_publish prepares_username prepares_modify)
    simp_all

lemma prepares_parse: "state_io_rel prepares (parse_sshnpd_params E args)"
  unfolding parse_sshnpd_params_def parse_lists_def parse_permits_def parse_managers_def parse_policy_def
  by (intro io_rule io_intro)

lemma prepared_requested:
  assumes "prepares s s'" "all_requested E p (cd_trace s)"
  shows "all_requested E p (cd_trace s')"
  using assms all_requested_append unfolding prepares_def by metis

section \<open>Every relay of the process was requested\<close>

lemma life_requested:
  fixes E :: "('w, 'j) cd_env"
  defines "life k B args w \<equiv> post (daemon_main k E B args) (process_start w)"
  shows "all_requested E (cd_params (life k B args w)) (cd_trace (life k B args w))"
proof -
  define s0 where "s0 = process_start w"
  define s1 where "s1 = post (parse_sshnpd_params E args) s0"
  have e: "all_requested E q (cd_trace s0)" for q by (simp add: all_requested_def s0_def process_start_def)
  have 1: "all_requested E q (cd_trace s1)" for q
    unfolding s1_def by (rule prepared_requested [OF io_relD [OF prepares_parse] e])
  show ?thesis
  proof (cases "res (parse_sshnpd_params E args) s0")
    case (Inl status)
    then show ?thesis using 1 by (simp add: life_def daemon_main_def s0_def [symmetric] s1_def [symmetric])
  next
    case (Inr p)
    define s2 where "s2 = s1\<lparr>cd_params := p\<rparr>"
    define s3 where "s3 = post (daemon_start E B p) s2"
    have start: "prepares s2 s3" unfolding s3_def by (rule io_relD [OF prepares_start])
    have 2: "all_requested E p (cd_trace s2)" using 1 by (simp add: s2_def)
    have 3: "cd_params s3 = p" "all_requested E p (cd_trace s3)"
      using start prepared_requested [OF start 2] by (simp_all add: prepares_def s2_def)
    have "pm_local_sshd_port p \<noteq> 0" using parse_sshnpd_params_ok [OF Inr] by (simp add: parsed_params_def)
    from main_loop_kept [OF this 3] show ?thesis using 3 Inr
      by (cases "res (daemon_start E B p) s2")
        (simp_all add: life_def daemon_main_def s0_def [symmetric] s1_def [symmetric] s2_def [symmetric] s3_def [symmetric])
  qed
qed

text \<open>C2: Every relay that the C daemon ever starts was requested. Whatever is on its command line, whatever arrives on its
  connections and whatever the system answers, an \<open>execv\<close> of a relay in the trace of the process, from \<open>main\<close> on, has the
  arguments of a request for which, earlier in the trace: a notification was read from the monitor connection; its value parses to an
  envelope whose payload is signed by the RSA-2048 key that the sender's atServer gave; relay and target are the ones the envelope (or, for
  a shell, the configuration) names; the daemon's own permit-open list permits the target; and the sender is a manager, or the policy
  service, asked by this daemon about this atSign, answered this question with an authorisation whose rules permit the target.\<close>

theorem c_relays_authorised:
  assumes "s = post (daemon_main k E B args) (process_start w)"
    and "cd_trace s = before @ Cd_exec arguments vars # after"
  shows "\<exists>q. arguments = srv_arguments q \<and> requested E (cd_params s) q (set before)"
  using life_requested [of E k B args w] assms unfolding all_requested_def by blast

end
