(* ===== verification/C_Authorized_Keys.thy ===== *)
theory C_Authorized_Keys
  imports C_Daemon
begin

text \<open>
  What a client's public key can put into the file of authorized keys (\<open>handle_sshpublickey.c\<close>, \<open>file_utils.c\<close>).
\<close>

text \<open>One line that begins with a supported type of key.\<close>

definition plain_key :: "string \<Rightarrow> bool" where
  "plain_key key \<longleftrightarrow> list_all (\<lambda>c. ch c \<noteq> 10 \<and> ch c \<noteq> 13) key \<and>
     list_ex (\<lambda>prefix. starts_with prefix key) [''ecdsa-sha2-nistp'', ''rsa-sha2-'', ''ssh-rsa'', ''ssh-ed25519'']"

lemma valid_key_plain: "is_valid_ssh_public_key_prefix key \<longleftrightarrow> (\<exists>k. key = Some k \<and> plain_key k)"
  by (auto simp: is_valid_ssh_public_key_prefix_def plain_key_def supported_key_prefix_map_def list_ex_iff list_all_iff
      split: option.splits)

lemma plain_key_last: "plain_key key \<Longrightarrow> key \<noteq> [] \<and> ch (last key) \<noteq> 10"
  by (cases "key = []") (auto simp: plain_key_def starts_with_def list_all_iff)

text \<open>C12: A client's key becomes one restricted line of the authorized keys, or nothing. Handling the notification adds an entry
  exactly when the daemon was started with that option, the value is a single line of a supported type, and the file can be read and has
  no line with that key; the entry is that key after the restriction to connections from this machine, and a newline.\<close>

theorem authorized_key_restricted:
  "cd_trace (post (handle_sshpublickey E n) s) = cd_trace s @
     (case (nt_value n, fst (cv_read_lines E (cs_world (cd_sess s)))) of
        (Some key, Some file_lines) \<Rightarrow>
          if pm_sshpublickey (cd_params s) \<and> plain_key key \<and> list_all (\<lambda>l. strstr l key = None) file_lines
          then [Cd_authorized_key (''from=\"127.0.0.1,::1\" '' @ key @ [char_of (10 :: nat)])] else []
      | _ \<Rightarrow> [])"
proof (cases "pm_sshpublickey (cd_params s) \<and> is_valid_ssh_public_key_prefix (nt_value n)")
  case True
  then obtain key where key: "nt_value n = Some key" "plain_key key" unfolding valid_key_plain by blast
  have v: "is_valid_ssh_public_key_prefix (Some key)" using key(2) by (simp add: valid_key_plain)
  show ?thesis
    using True key v plain_key_last [OF key(2)]
    by (cases "fst (cv_read_lines E (cs_world (cd_sess s)))")
      (auto simp: handle_sshpublickey_def authorize_ssh_public_key_def LOCAL_ONLY_def text_of_def list_ex_iff list_all_iff Let_def)
next
  case False
  then show ?thesis by (auto simp: handle_sshpublickey_def valid_key_plain split: option.split)
qed

end
