(* ===== verification/Example_C_Daemon.thy ===== *)
theory Example_C_Daemon
  imports C_Daemon_Life Example_Daemon
begin

text \<open>
  A concrete outside world for the C daemon, for the witnesses: an atServer that accepts everything and a monitor connection
  on which the firmware's example request waits. The run follows the child of \<open>fork\<close>, which becomes the relay.
\<close>

definition example_cd_env :: "(unit, json) cd_env" where
  "example_cd_env =
     \<lparr>cv_alloc = (\<lambda>_ w. (True, w)), cv_cj = example_cjson example_parse,
      cv_is_bool = (\<lambda>j. case j of JBool _ \<Rightarrow> True | _ \<Rightarrow> False), cv_ops = example_rsa, cv_print = (\<lambda>_. ''json''),
      cv_es_mem = (\<lambda>w. (\<lparr>mem_names = True, mem_keys = True, mem_kid = True, mem_raw = True, mem_print = True\<rparr>, w)),
      cv_time = (\<lambda>w. (1000, w)), cv_clock = (\<lambda>w. ((1, 0), w)), cv_gettimeofday_us = (\<lambda>w. (7, w)),
      cv_should_run = (\<lambda>w. (True, w)),
      cv_monitor_read = (\<lambda>w. ((0, \<lparr>mg_type = Msg_notification, mg_notification = Some example_notification\<rparr>), w)),
      cv_worker_connected = (\<lambda>w. (True, w)), cv_worker_authenticate = (\<lambda>w. (0, w)), cv_set_hooks = (\<lambda>w. (0, w)),
      cv_monitor_authenticate = (\<lambda>w. (0, w)), cv_monitor_start = (\<lambda>_ w. (0, w)), cv_sleep = (\<lambda>_ w. ((), w)),
      cv_create_key = (\<lambda>_ _ w. (0, w)), cv_key_from_string = (\<lambda>_ w. (0, w)), cv_key_to_string = (\<lambda>w. (0, w)),
      cv_set_metadata = (\<lambda>w. (0, w)), cv_set_notify_params = (\<lambda>w. (0, w)), cv_notify = (\<lambda>_ _ _ w. (0, w)),
      cv_get_public_key = (\<lambda>_ _ _ w. ((0, Some example_key), w)), cv_put_shared_key = (\<lambda>_ _ w. (0, w)),
      cv_delete = (\<lambda>_ w. (0, w)), cv_rsa_encrypt = (\<lambda>_ t w. (Some (str_bytes t), w)),
      cv_generate_key = (\<lambda>w. (Some [1], w)), cv_generate_iv = (\<lambda>w. (Some [2], w)),
      cv_own_exe_path = (\<lambda>w. (Some ''/sshnpd'', w)), cv_spawn = (\<lambda>_ _ w. ((9, 5), w)), cv_pipe = (\<lambda>w. (Some (6, 7), w)),
      cv_fork = (\<lambda>w. (0, w)), cv_dup2 = (\<lambda>_ fd w. (fd, w)), cv_execv = (\<lambda>_ _ w. (True, w)),
      cv_waitpid = (\<lambda>_ w. ((0, Not_exited), w)), cv_wait_for = (\<lambda>_ w. (Not_exited, w)), cv_kill = (\<lambda>_ _ w. (0, w)),
      cv_poll = (\<lambda>_ _ w. (Poll_none, w)), cv_read = (\<lambda>_ _ w. (Read_end, w)), cv_close = (\<lambda>_ w. ((), w)),
      cv_read_lines = (\<lambda>w. (Some [], w)), cv_append_line = (\<lambda>_ w. (True, w)), cv_ub_u16 = (\<lambda>_. 0), cv_ub_i64 = (\<lambda>_. 0),
      cv_fuel = 2\<rparr>"

definition example_start_env :: "unit start_env" where
  "example_start_env = \<lparr>se_getenv = (\<lambda>name. if name = ''HOME'' then Some ''/home/dev'' else None),
     se_memlist_add = (\<lambda>w. (0, w)),
     se_populate_keys = (\<lambda>_ w. ((0, \<lparr>ak_enrollment_id = None, ak_pkam_public_key_base64 = [], ak_pkam_private_key_base64 = []\<rparr>,
       \<lparr>rk_n = [], rk_rest = []\<rparr>), w)),
     se_clone_key = (\<lambda>k w. ((0, k), w)), se_set_addresses = (\<lambda>_ _ _ w. ((), w)), se_put_public_key = (\<lambda>_ _ w. (0, w)),
     se_open_authorized_keys = (\<lambda>_ w. (0, w))\<rparr>"

definition example_args :: "string list" where
  "example_args = [''-a'', ''@dev'', ''-m'', ''@Al.ice,@dev'', ''--device=D1'', ''--hide'', ''--permit-open'', ''localhost:22'',
     ''--policy-cache-size'', ''0'', ''--client-key-check-secs'', ''0'']"

definition example_params :: sshnpd_params where
  "example_params = \<lparr>pm_atsign = Some ''@dev'', pm_device = ''d1'', pm_manager_list = [''@alice''], pm_policy = None,
     pm_policy_cache_size = 0, pm_permitopen = [(''localhost'', 22)], pm_sshpublickey = False, pm_hide = True, pm_verbose = False,
     pm_ssh_algorithm = ED25519, pm_root_domain = Some ''root.atsign.org'', pm_local_sshd_port = 22, pm_key_file = None,
     pm_storage_path = None, pm_client_key_check_secs = 0, pm_require_enrollment_signature = False\<rparr>"

lemma ex_cd_parse: "run_state (parse_sshnpd_params example_cd_env example_args) (process_start ()) = (Inr example_params, process_start ())"
  by code_simp

lemma ex_cd_params: "res (parse_sshnpd_params example_cd_env example_args) (process_start ()) = Inr example_params"
  by (simp add: res_def ex_cd_parse)

theorem start_parameters_sound_witness:
  "parsed_params example_params \<and>
    (\<forall>a. is_manager_atsign example_params a \<longleftrightarrow>
      (\<exists>c \<in> set (pm_manager_list example_params). sshnpd_normalize_atsign a SSHNPD_ATSIGN_BUFFER_LEN = Some c)) \<and>
    \<not> is_manager_atsign example_params (pm_atsign example_params)"
  by (rule start_parameters_sound [OF ex_cd_params])

text \<open>The daemon when it enters its loop.\<close>

definition example_ready :: "unit cdaemon" where
  "example_ready = (process_start ())\<lparr>cd_params := example_params, cd_device_info_last_sent := [0], cd_ping_response := Some ''json'',
     cd_regex := request_filter ''d1'',
     cd_directory := Some \<lparr>ld_host = ''root.atsign.org'', ld_port = 64, ld_via_proxy = False, ld_scheme = ''https''\<rparr>\<rparr>"

text \<open>Every call of this world succeeds and changes nothing, so the start is evaluated by rewriting.\<close>

lemma cdx_constant: "cdx (\<lambda>w. (r, w)) = ret r"
  by (simp add: cdx_def State_Monad.return_def fun_eq_iff)

lemma memlist_adds_constant: "se_memlist_add B = (\<lambda>w. (0, w)) \<Longrightarrow> memlist_adds B n = ret 0"
  by (induction n) (simp_all add: cdx_constant)

lemmas start_steps = start_monitor_def go_on_def memlist_add_def must_be_zero_def unless_stopped_def still_running_def stop_unless_def
  cd_alloc_def c_monitor_regex_whole adopt_params_def check_environment_def load_atkeys_def find_root_def connect_clients_def
  open_authorized_keys_def publish_signing_key_def set_worker_hooks_def public_lookup_worker_init_def

lemmas ping_steps = build_ping_response_def ping_capabilities_def auth_modes_def c_new_object_def c_add_str_def c_add_item_def
  c_add_text_def c_print_def c_object_def supported_features_def public_signing_key_uri_def

lemma ex_root_address: "root_address (Some ''root.atsign.org'') = Some (''root.atsign.org'', 64, False)"
  by code_simp

lemma ex_cd_start:
  "res (daemon_start example_cd_env example_start_env example_params) ((process_start ())\<lparr>cd_params := example_params\<rparr>) = Inr ()"
  "post (daemon_start example_cd_env example_start_env example_params) ((process_start ())\<lparr>cd_params := example_params\<rparr>) = example_ready"
  by (simp_all add: daemon_start_def start_steps ping_steps example_cd_env_def example_start_env_def example_params_def cdx_constant
      memlist_adds_constant ex_root_address handle_username_keys_def username_key_of_def share_or_delete_def client_sessions_init_def process_start_def
      cs_start_def example_ready_def)

definition example_life :: "unit cdaemon" where
  "example_life = post (daemon_main 1 example_cd_env example_start_env example_args) (process_start ())"

lemma ex_cd_life: "example_life = post (main_loop 1 example_cd_env) example_ready"
  using ex_cd_start ex_cd_params arg_cong [OF ex_cd_parse, of snd]
  by (simp add: example_life_def daemon_main_def post_def [symmetric])

definition example_exec :: "string list \<times> (string \<times> string) list" where
  "example_exec = ([''-h'', ''rvd'', ''-p'', ''443'', ''--local-port'', ''22'', ''--local-host'', ''localhost'', ''--timeout'', ''30'',
     ''--multi''], [(''SRV_READY_FD'', ''3'')])"

lemma ex_cd_run:
  "cd_trace example_life =
     [Cd_message \<lparr>mg_type = Msg_notification, mg_notification = Some example_notification\<rparr>, Cd_public_key ''@alice'' example_key] @
     Cd_exec (fst example_exec) (snd example_exec) # []"
  unfolding ex_cd_life by code_simp

theorem c_relays_authorised_witness:
  "\<exists>q. fst example_exec = srv_arguments q \<and> requested example_cd_env (cd_params example_life) q
     (set [Cd_message \<lparr>mg_type = Msg_notification, mg_notification = Some example_notification\<rparr>, Cd_public_key ''@alice'' example_key])"
  by (rule c_relays_authorised [OF example_life_def ex_cd_run])

end
