(* ===== verification/Spec2Isabelle.thy ===== *)
theory Spec2Isabelle
  imports Relay_Single Daemon_Safety Daemon_Recovery Daemon_Slots Permit_Open Key_File C_Sessions C_Permit_Open
    C_Srv_Main C_Srv_Worker C_Daemon_Life C_Authorized_Keys Example_C_Daemon
begin

text \<open>
  NoPorts gives remote access to a device without an open port. This library models its two
  implementations in the C family of languages: the firmware library for ESP32 boards,
  \<open>packages/arduino/lib/NoPorts/src\<close>, in full, and the C relay and the C daemon under
  \<open>packages/c\<close>. A daemon keeps a monitor and a worker
  connection to its atServer. A client sends it a signed request as a notification; the daemon checks
  the signature, asks the policy service or its own configuration whether the client may reach the
  host and port it names, answers, and starts a relay task. The relay connects to a rendezvous server
  and pumps bytes between it and the local service, encrypted with the session's keys.

  Foundations.
  \<^item> \<open>NP_Prelude\<close>: lists, the state monad, and relations between the state before and after a program
    (\<open>state_io_rel\<close> with the collections \<open>io_rule\<close> and \<open>io_intro\<close>), with which invariants are pushed
    through the handlers. \<open>NP_CString\<close>: the functions of \<open>string.h\<close> and \<open>strtol\<close> the code calls.
  \<^item> \<open>External_Libs\<close>, \<open>Platform\<close>: cJSON, atchops, mbedTLS, lwIP sockets, clock, heap and scheduler, as
    records of functions over a state of the outside world. Nothing is assumed of them unless a
    theorem says so. \<open>Example_Libs\<close>, \<open>Example_Env\<close>, \<open>Example_Relay\<close>, \<open>Example_Daemon\<close> are concrete ones for
    the witnesses.

  Components.
  \<^item> \<open>Policy_Limits\<close> (\<open>noports_policy_limits.c\<close>): canonical atSigns, the cache of policy decisions, the
    cooldown of checks, the limits on waiting. The cache refines a map from canonical atSigns to dated
    decisions (locale \<open>decision_store\<close>), the cooldown a record of last checks (locale \<open>throttle\<close>).
  \<^item> \<open>Enrollment_Signature\<close> (\<open>noports_enrollment_signature.c\<close>): the signature a client makes with its
    enrollment key, against the keys in its public record.
  \<^item> \<open>Relay_Types\<close>, \<open>Relay_Escr\<close>, \<open>Relay_Subs\<close>, \<open>Relay_Pump\<close>, \<open>Relay_Multi\<close>, \<open>Relay_Single\<close>
    (\<open>noports_relay.cpp\<close>): the state of a relay task and its sub-connections; the challenge-response
    authentication; connect messages, slots and eviction; the pump of one sub-connection; the
    task with many sub-connections; the task with one.
  \<^item> \<open>Permit_Open\<close> (\<open>permit_port\<close> and its neighbours in \<open>noports_daemon.cpp\<close>), \<open>Key_File\<close> (\<open>noports_keys.cpp\<close>): the
    compiled-in list of permitted targets; the loading of an atKeys document.
  \<^item> \<open>Relay_Api\<close>: what the daemon calls of the relay (\<open>noports_relay_start\<close> and so on). A relay's own task
    runs beside the daemon.
  \<^item> \<open>Daemon_Types\<close>, \<open>Daemon_Net\<close>, \<open>Daemon_Replies\<close>, \<open>Daemon_Npt\<close>, \<open>Daemon_Policy\<close>, \<open>Daemon_Loop\<close>,
    \<open>Daemon_Begin\<close> (\<open>noports_daemon.cpp\<close>) and \<open>Client_Keys\<close> (\<open>noports_client_keys.cpp\<close>): the daemon object;
    its connections and their repair; its replies; a tunnel request from signature to relay; the policy
    check that runs across two notifications; one round of the loop; start-up. \<open>daemon_step\<close> and
    \<open>reachable\<close> make a daemon's life of them: calls of its public functions, with the relay tasks and the
    outside world moving in between. \<open>Daemon_Recovery\<close> (reconnection, restart, the wait for heap before a
    TLS connection) and \<open>Daemon_Slots\<close> (who may write to the slot of a relay: locales \<open>slot_base\<close> and
    \<open>slot_relation\<close>) hold further theorems on it.
  \<^item> \<open>C_Srv_Control\<close>, \<open>C_Srv_Escr\<close>, \<open>C_Srv_Session\<close>, \<open>C_Srv_Main\<close> (\<open>packages/c/srv\<close>): the control channel of a
    relay and its lines; the challenge-response exchange with the rendezvous server; one connection, its
    two halves as threads that take their steps in any order; the options, and the relay with one or with
    many connections.
  \<^item> \<open>C_Sessions\<close>, \<open>C_Permit_Open\<close> (\<open>packages/c/sshnpd\<close>): the table of sessions the C daemon watches, with the
    check of a client's key made again while a session runs; its permit-open list.
  \<^item> \<open>C_Daemon_Types\<close>, \<open>C_Policy\<close>, \<open>C_Envelope\<close>, \<open>C_Lookup\<close>, \<open>C_Run_Srv\<close>, \<open>C_Requests\<close>, \<open>C_Daemon\<close>
    (\<open>packages/c/sshnpd\<close>): the C daemon's state and environment; the cache, the throttle and the questions to the policy service
    (\<open>policy_limits.c\<close>, \<open>policy.c\<close>); envelopes, session keys and answers (\<open>handler_commons.c\<close>); public records over HTTP in a
    worker process (\<open>public_lookup.c\<close>); the relay as a worker process and the watch on its start (\<open>run_srv_process.c\<close>);
    requests for tunnels and shells; the main loop with the smaller handlers. A run of the model follows one process through its
    \<open>fork\<close>s and ends (\<open>cd_end\<close>) when \<open>execv\<close> replaces it. \<open>C_Daemon_Steps\<close> says what leaves trace and decisions alone,
    \<open>C_Daemon_Safety\<close> and \<open>C_Daemon_Relays\<close> hold the invariant; \<open>Example_C_Daemon\<close> is a concrete environment.
  \<^item> \<open>Arg_Parse\<close> (\<open>packages/c/3rdparty/argparse\<close>), \<open>C_Params\<close> (\<open>params.c\<close> of the daemon), \<open>C_Main\<close> (\<open>main.c\<close>), \<open>C_Srv_Worker\<close>
    (\<open>main.c\<close> as a relay, \<open>params.c\<close> of the relay): command lines; the daemon's parameters and their limits; its start from the
    environment and the keys to the monitor connection, each step of which may end the process; the worker mode in which the same executable
    is a relay. \<open>C_Daemon_Life\<close> joins start and loop; \<open>C_Authorized_Keys\<close> is about the public keys of clients that want shells.

  What is shown. For the policy limits: the closed form of canonical atSigns, that the cache serves the
  latest decision within its time to live and evicts only the oldest, that checks are spaced. For the
  enrollment signature: soundness, and the shape of the uris. For the relay: bytes arrive unharmed and in
  order, a connect message is honoured and never costs a live sub-connection in use, authentication
  succeeds only after a proper exchange, no socket leaks, a relay that got its memory gives everything back, an idle
  relay ends. For
  the daemon (\<open>Daemon_Steps\<close>, \<open>Daemon_Justified\<close>, \<open>Daemon_Requests\<close>, \<open>Daemon_Safety\<close>): every relay it ever starts
  was asked for in a verified envelope by someone authorised for its target; a connection that stays
  broken ends in a restart, each attempt before that pauses as long as it should, the wait for heap ends, and a running
  relay never loses its slot to a request; what an entry of a permit-open list permits. For the atKeys file: what a
  successful load has decrypted and stored, and what a failed one leaves. For the C relay: whatever
  the order of the two threads, each side is sent a prefix of what the other received, after the session has
  authenticated as it was asked to; the control channel reports, reads and serves nothing before the relay has accepted it;
  a line is put together however the bytes arrive; at most 128 session threads exist at once. For the C daemon:
  its table of sessions implements a map, the checks of keys at a time are bounded, the permit-open list
  is parsed within its bounds and read back as written, its parameters are sound when the parser accepts them, a client's
  public key becomes one restricted line or nothing, a relay it starts reads back exactly the request it was started for,
  and every relay it starts, from its command line on, was asked for in a signed envelope, for a target
  its own list permits, by a manager or by a client the policy service authorised for it when this daemon asked.

  Conventions. \<open>size_t\<close> and array indices are \<open>nat\<close>, timestamps and other fixed-width integers are words
  that wrap, \<open>int64_t\<close> milliseconds are integers. A C string is a list of characters without its
  terminator, NULL is \<open>None\<close>. An allocation that may fail asks the environment. What crosses the boundary of
  a task or of the daemon is recorded in a trace that the code does not have. Loops that wait for the
  outside world take fuel from the environment (\<open>e_fuel\<close>); running out sets a flag (\<open>t_diverged\<close>,
  \<open>dm_diverged\<close>); the relay in C has \<open>sv_fuel\<close> for this, and its results say when it ran out. Safety theorems hold for every amount of fuel; where a loop is shown to end, the
  amount is in the theorem.

  Not modelled: log output and what only feeds it; TLS set-up and socket options; memory layout and
  \<open>free\<close>; the testing-only shutdown notification, which is compiled out; preemption of the daemon by
  relay tasks inside one round of its loop; the firmware around the library (boards, web pages,
  displays); in the C relay the listening side, which serves local clients and no daemon; the other
  languages.
\<close>

end
